(* ===== verification/Prelude.thy ===== *)
theory Prelude
  imports Main "HOL-Library.List_Lexorder" "HOL-Library.Char_ord" "HOL-Library.Sublist"
begin

text \<open>
  What every component of the library shares: the collections of simplification facts, Go's
  \<^emph>\<open>strings\<close> package on byte strings, the loops over Go slices that keep first occurrences,
  and the instants of Go's \<^emph>\<open>time\<close> package.

  A Go string is a sequence of bytes, which is what the type \<^typ>\<open>string\<close> is: a \<^typ>\<open>char\<close> is
  eight bits. Case mapping and white space are those of the ASCII range (names of repositories,
  labels, profiles, branches); the additional Unicode spaces and letters are left alone.
  An instant is the number of nanoseconds since Go's zero instant, so that
  \<^emph>\<open>Time.IsZero\<close> is equality with 0.
\<close>

named_theorems go_simps \<open>defining equations of the standard-library functions\<close>
named_theorems inv_intros \<open>preservation of a component's invariant by its operations\<close>
named_theorems guard_simps \<open>the error and early-return branches of operations\<close>

subsection \<open>Instants and durations\<close>

type_synonym instant = int
type_synonym duration = int

abbreviation (input) zero_time :: instant where
  "zero_time \<equiv> 0"

definition IsZero :: "instant \<Rightarrow> bool" where
  [go_simps]: "IsZero t \<longleftrightarrow> t = zero_time"

abbreviation (input) Millisecond :: duration where
  "Millisecond \<equiv> 1000000"

abbreviation (input) Second :: duration where
  "Second \<equiv> 1000000000"

abbreviation (input) Minute :: duration where
  "Minute \<equiv> 60000000000"

subsection \<open>Errors as values\<close>

text \<open>
  The sentinel errors of the state package, and one constructor for the errors that only carry
  a message. A fallible function returns \<^typ>\<open>'e + 'a\<close> with the error on the left.
\<close>

datatype error =
    ErrConflict
  | ErrNotFound
  | ErrRetryNotAllowed
  | ErrDeploymentQuotaExceeded
  | ErrSandboxServiceDefaultAPIKeyRequired
  | ErrCacheServiceNotConfigured
  | ErrAuditEventPersistence
  | ErrRunnerProfileNameConflict
  | ErrRunnerProfileLabelsConflict
  | ErrNotExist
  | ErrRecordNotFound
  | Errorf string

type_synonym 'a result = "error + 'a"

fun result_bind :: "'a result \<Rightarrow> ('a \<Rightarrow> 'b result) \<Rightarrow> 'b result" where
  "result_bind (Inl e) f = Inl e"
| "result_bind (Inr x) f = f x"

lemma result_bind_Inr_iff [simp]:
  "result_bind m f = Inr y \<longleftrightarrow> (\<exists>x. m = Inr x \<and> f x = Inr y)"
  by (cases m) auto

lemma result_bind_Inl_iff [simp]:
  "result_bind m f = Inl e \<longleftrightarrow> m = Inl e \<or> (\<exists>x. m = Inr x \<and> f x = Inl e)"
  by (cases m) auto

fun map_result :: "('a \<Rightarrow> 'b result) \<Rightarrow> 'a list \<Rightarrow> 'b list result" where
  "map_result f [] = Inr []"
| "map_result f (x # xs) =
     result_bind (f x) (\<lambda>y. result_bind (map_result f xs) (\<lambda>ys. Inr (y # ys)))"

lemma map_result_Inr_iff:
  "map_result f xs = Inr ys \<longleftrightarrow> list_all2 (\<lambda>x y. f x = Inr y) xs ys"
  by (induction xs arbitrary: ys) (auto simp: list_all2_Cons1)

subsection \<open>Go's strings package\<close>

definition is_space :: "char \<Rightarrow> bool" where
  "is_space c \<longleftrightarrow> (let n = of_char c :: nat in n = 32 \<or> (9 \<le> n \<and> n \<le> 13))"

definition TrimLeftSpace :: "string \<Rightarrow> string" where
  "TrimLeftSpace s = dropWhile is_space s"

definition TrimSpace :: "string \<Rightarrow> string" where
  "TrimSpace s = rev (dropWhile is_space (rev (dropWhile is_space s)))"

definition lower_char :: "char \<Rightarrow> char" where
  "lower_char c = (let n = of_char c :: nat in if 65 \<le> n \<and> n \<le> 90 then char_of (n + 32) else c)"

definition ToLower :: "string \<Rightarrow> string" where
  "ToLower s = map lower_char s"

definition EqualFold :: "string \<Rightarrow> string \<Rightarrow> bool" where
  "EqualFold s t \<longleftrightarrow> ToLower s = ToLower t"

definition HasPrefix :: "string \<Rightarrow> string \<Rightarrow> bool" where
  "HasPrefix s p \<longleftrightarrow> take (length p) s = p"

definition HasSuffix :: "string \<Rightarrow> string \<Rightarrow> bool" where
  "HasSuffix s p \<longleftrightarrow> length p \<le> length s \<and> drop (length s - length p) s = p"

definition TrimPrefix :: "string \<Rightarrow> string \<Rightarrow> string" where
  "TrimPrefix s p = (if HasPrefix s p then drop (length p) s else s)"

definition TrimSuffix :: "string \<Rightarrow> string \<Rightarrow> string" where
  "TrimSuffix s p = (if HasSuffix s p then take (length s - length p) s else s)"

fun Contains :: "string \<Rightarrow> string \<Rightarrow> bool" where
  "Contains [] sub = (sub = [])"
| "Contains (c # s) sub = (HasPrefix (c # s) sub \<or> Contains s sub)"

text \<open>\<open>strings.Cut\<close> with a one-byte separator: before, after, found.\<close>

definition Cut :: "char \<Rightarrow> string \<Rightarrow> string \<times> string \<times> bool" where
  "Cut c s = (case dropWhile (\<lambda>x. x \<noteq> c) s of
       [] \<Rightarrow> (s, [], False)
     | _ # rest \<Rightarrow> (takeWhile (\<lambda>x. x \<noteq> c) s, rest, True))"

fun Split :: "char \<Rightarrow> string \<Rightarrow> string list" where
  "Split c [] = [[]]"
| "Split c (x # s) =
     (if x = c then [] # Split c s
      else case Split c s of [] \<Rightarrow> [[x]] | w # ws \<Rightarrow> (x # w) # ws)"

fun IndexByte :: "string \<Rightarrow> char \<Rightarrow> int" where
  "IndexByte [] c = -1"
| "IndexByte (x # s) c = (if x = c then 0 else let i = IndexByte s c in if i < 0 then -1 else i + 1)"

text \<open>
  \<open>strings.ReplaceAll\<close>: the non-overlapping occurrences from the left; an empty pattern
  matches before every byte and at the end.
\<close>

function ReplaceAll :: "string \<Rightarrow> string \<Rightarrow> string \<Rightarrow> string" where
  "ReplaceAll s old new =
     (if old = [] then new @ concat (map (\<lambda>c. c # new) s)
      else case s of
          [] \<Rightarrow> []
        | c # r \<Rightarrow> if HasPrefix s old then new @ ReplaceAll (drop (length old) s) old new
                   else c # ReplaceAll r old new)"
  by auto
termination by (relation "measure (\<lambda>(s, _, _). length s)") auto

declare ReplaceAll.simps [simp del]

fun Join :: "string list \<Rightarrow> string \<Rightarrow> string" where
  "Join [] sep = []"
| "Join [w] sep = w"
| "Join (w # ws) sep = w @ sep @ Join ws sep"

text \<open>The decimal rendering of the verb \<open>%d\<close>.\<close>

definition digit_char :: "nat \<Rightarrow> char" where
  "digit_char n = char_of (48 + n)"

fun nat_dec :: "nat \<Rightarrow> string" where
  "nat_dec n = (if n < 10 then [digit_char n] else nat_dec (n div 10) @ [digit_char (n mod 10)])"

declare nat_dec.simps [simp del]

definition int_dec :: "int \<Rightarrow> string" where
  "int_dec i = (if i < 0 then CHR ''-'' # nat_dec (nat (- i)) else nat_dec (nat i))"

lemma digit_char_simps [simp]:
  "digit_char 0 = CHR ''0''"
  "digit_char (Suc 0) = CHR ''1''"
  "digit_char 2 = CHR ''2''"
  "digit_char 3 = CHR ''3''"
  "digit_char 4 = CHR ''4''"
  "digit_char 5 = CHR ''5''"
  "digit_char 6 = CHR ''6''"
  "digit_char 7 = CHR ''7''"
  "digit_char 8 = CHR ''8''"
  "digit_char 9 = CHR ''9''"
  by (simp_all add: digit_char_def char_of_def bit_0)

subsection \<open>Facts on the string functions\<close>

lemma of_char_lower_char:
  "of_char (lower_char c) = (if 65 \<le> (of_char c :: nat) \<and> (of_char c :: nat) \<le> 90
     then of_char c + 32 else (of_char c :: nat))"
  by (simp add: lower_char_def Let_def)

lemma lower_char_idem [simp]: "lower_char (lower_char c) = lower_char c"
  by (simp add: lower_char_def Let_def)

lemma is_space_lower_char [simp]: "is_space (lower_char c) = is_space c"
  by (auto simp: is_space_def of_char_lower_char Let_def)

lemma ToLower_idem [simp]: "ToLower (ToLower s) = ToLower s"
  by (simp add: ToLower_def)

lemma ToLower_simps [simp]:
  "ToLower [] = []" "ToLower (c # s) = lower_char c # ToLower s" "ToLower (s @ t) = ToLower s @ ToLower t"
  "(ToLower s = []) = (s = [])" "length (ToLower s) = length s" "ToLower (rev s) = rev (ToLower s)"
  by (auto simp: ToLower_def rev_map)

lemma dropWhile_space_ToLower: "dropWhile is_space (ToLower s) = ToLower (dropWhile is_space s)"
  by (induction s) auto

lemma TrimSpace_ToLower: "TrimSpace (ToLower s) = ToLower (TrimSpace s)"
  unfolding TrimSpace_def dropWhile_space_ToLower
  by (metis ToLower_simps(6) dropWhile_space_ToLower)

text \<open>A string is trimmed when it has no white space at either end.\<close>

definition trimmed :: "string \<Rightarrow> bool" where
  "trimmed s \<longleftrightarrow> s = [] \<or> (\<not> is_space (hd s) \<and> \<not> is_space (last s))"

lemma dropWhile_hd_id: "s = [] \<or> \<not> P (hd s) \<Longrightarrow> dropWhile P s = s"
  by (cases s) auto

lemma TrimSpace_id: "trimmed s \<Longrightarrow> TrimSpace s = s"
  by (auto simp: trimmed_def TrimSpace_def dropWhile_hd_id hd_rev)

lemma last_dropWhile: "dropWhile P s \<noteq> [] \<Longrightarrow> last (dropWhile P s) = last s"
  by (induction s) (auto split: if_splits)

lemma trimmed_TrimSpace [simp]: "trimmed (TrimSpace s)"
proof -
  let ?l = "dropWhile is_space s"
  let ?r = "dropWhile is_space (rev ?l)"
  have "?r = [] \<or> \<not> is_space (hd ?r)"
    using hd_dropWhile [of is_space "rev ?l"] by auto
  moreover have "?r \<noteq> [] \<Longrightarrow> last ?r = hd ?l \<and> ?l \<noteq> []"
    using last_dropWhile [of is_space "rev ?l"] by (metis dropWhile.simps(1) last_rev rev.simps(1))
  moreover have "?l \<noteq> [] \<Longrightarrow> \<not> is_space (hd ?l)"
    using hd_dropWhile by blast
  ultimately have "?r = [] \<or> (\<not> is_space (last ?r) \<and> \<not> is_space (hd ?r))" by metis
  then show ?thesis
    unfolding trimmed_def TrimSpace_def by (metis hd_rev last_rev rev_is_Nil_conv)
qed

lemma TrimSpace_idem [simp]: "TrimSpace (TrimSpace s) = TrimSpace s"
  by (rule TrimSpace_id) simp

lemma TrimSpace_Nil [simp]: "TrimSpace [] = []"
  by (simp add: TrimSpace_def)

lemma set_TrimSpace: "set (TrimSpace s) \<subseteq> set s"
  unfolding TrimSpace_def by (metis set_dropWhileD set_rev subsetI)

lemma length_TrimSpace: "length (TrimSpace s) \<le> length s"
  unfolding TrimSpace_def by (metis dual_order.trans length_dropWhile_le length_rev)

lemma trimmed_ToLower [simp]: "trimmed (ToLower s) = trimmed s"
proof (cases "s = []")
  case False
  then show ?thesis
    by (simp add: trimmed_def ToLower_def hd_map last_map)
qed simp

lemma HasPrefix_iff: "HasPrefix s p \<longleftrightarrow> (\<exists>r. s = p @ r)"
  unfolding HasPrefix_def by (metis append_eq_conv_conj append_take_drop_id)

lemma HasPrefix_Cons_Cons [simp]: "HasPrefix (x # s) (y # p) = (x = y \<and> HasPrefix s p)"
  by (auto simp: HasPrefix_def)

lemma HasPrefix_Nil [simp]: "HasPrefix s []" "HasPrefix [] p = (p = [])"
  by (auto simp: HasPrefix_def)

lemma HasPrefix_append [simp]: "HasPrefix (p @ s) p"
  by (simp add: HasPrefix_def)

lemma Contains_iff: "Contains s sub \<longleftrightarrow> (\<exists>p q. s = p @ sub @ q)"
proof (induction s)
  case (Cons c s)
  then show ?case
    by (auto simp: HasPrefix_iff append_eq_Cons_conv Cons_eq_append_conv)
qed auto

lemma Contains_char: "Contains s [c] \<longleftrightarrow> c \<in> set s"
  by (auto simp: Contains_iff in_set_conv_decomp)

lemma set_Split: "set s \<subseteq> insert c (\<Union> (set ` set (Split c s)))"
proof (induction s)
  case (Cons x s)
  then show ?case by (cases "Split c s") auto
qed simp

lemma Cut_found: "Cut c s = (a, b, True) \<Longrightarrow> s = a @ c # b \<and> c \<notin> set a"
  unfolding Cut_def
  by (auto split: list.splits simp: dropWhile_eq_Cons_conv dest: set_takeWhileD)

lemma Cut_not_found: "Cut c s = (a, b, False) \<Longrightarrow> a = s \<and> b = [] \<and> c \<notin> set s"
  unfolding Cut_def by (auto split: list.splits simp: dropWhile_eq_Nil_conv)

lemma Cut_rest_shorter: "(a, b, True) = Cut c s \<Longrightarrow> length b < length s"
  using Cut_found [of c s a b] by auto

lemma Cut_append: "c \<notin> set a \<Longrightarrow> Cut c (a @ c # b) = (a, b, True)"
  by (induction a) (auto simp: Cut_def split: list.splits)

lemma Cut_absent: "c \<notin> set s \<Longrightarrow> Cut c s = (s, [], False)"
proof -
  assume "c \<notin> set s"
  then have "dropWhile (\<lambda>x. x \<noteq> c) s = []" by auto
  then show ?thesis unfolding Cut_def by (simp only: list.case)
qed

lemma IndexByte_neg_iff: "IndexByte s c < 0 \<longleftrightarrow> c \<notin> set s"
  by (induction s) (auto simp: Let_def)

lemma IndexByte_append: "c \<notin> set a \<Longrightarrow> IndexByte (a @ c # b) c = int (length a)"
  by (induction a) (auto simp: Let_def)

lemma IndexByte_nonneg: "c \<in> set s \<Longrightarrow> \<exists>a b. s = a @ c # b \<and> c \<notin> set a \<and> IndexByte s c = int (length a)"
  by (metis IndexByte_append split_list_first)

lemma Split_nonempty [simp]: "Split c s \<noteq> []"
  by (induction s) (auto split: list.splits)

lemma Split_no_sep: "\<forall>w\<in>set (Split c s). c \<notin> set w"
  by (induction s) (auto split: list.splits)

lemma Split_absent: "c \<notin> set s \<Longrightarrow> Split c s = [s]"
  by (induction s) auto

lemma Join_Cons: "ws \<noteq> [] \<Longrightarrow> Join (w # ws) sep = w @ sep @ Join ws sep"
  by (cases ws) auto

text \<open>\<open>strings.Join\<close> inverts \<open>strings.Split\<close>.\<close>

lemma Join_Split: "Join (Split c s) [c] = s"
proof (induction s)
  case (Cons x s)
  obtain w ws where *: "Split c s = w # ws"
    by (meson Split_nonempty list.exhaust)
  from Cons * show ?case
    by (cases ws) (auto simp: Join_Cons)
qed simp

subsubsection \<open>Replacement\<close>

lemma ReplaceAll_char:
  "ReplaceAll s [c] new = concat (map (\<lambda>x. if x = c then new else [x]) s)"
proof (induction s)
  case Nil
  show ?case by (subst ReplaceAll.simps) simp
next
  case (Cons x s)
  then show ?case by (subst ReplaceAll.simps) simp
qed

lemma set_ReplaceAll_char:
  "c \<notin> set new \<Longrightarrow> set (ReplaceAll s [c] new) \<subseteq> (set s - {c}) \<union> set new \<and> c \<notin> set (ReplaceAll s [c] new)"
  by (auto simp: ReplaceAll_char)

lemma ReplaceAll_Nil [simp]: "old \<noteq> [] \<Longrightarrow> ReplaceAll [] old new = []"
  by (subst ReplaceAll.simps) simp

lemma ReplaceAll_prefix:
  "old \<noteq> [] \<Longrightarrow> ReplaceAll (old @ s) old new = new @ ReplaceAll s old new"
proof (cases "old @ s")
  case (Cons c r)
  assume "old \<noteq> []"
  then show ?thesis
    by (subst ReplaceAll.simps) (simp only: Cons list.case if_False,
        simp only: Cons [symmetric] HasPrefix_append if_True append_eq_conv_conj, simp)
qed simp

lemma ReplaceAll_step:
  "old \<noteq> [] \<Longrightarrow> \<not> HasPrefix (c # s) old \<Longrightarrow> ReplaceAll (c # s) old new = c # ReplaceAll s old new"
  by (subst ReplaceAll.simps) simp

lemma ReplaceAll_absent:
  "old \<noteq> [] \<Longrightarrow> \<not> Contains s old \<Longrightarrow> ReplaceAll s old new = s"
  by (induction s) (auto simp: ReplaceAll_step)

lemma set_ReplaceAll: "old \<noteq> [] \<Longrightarrow> set (ReplaceAll s old new) \<subseteq> set s \<union> set new"
proof (induction s old new rule: ReplaceAll.induct)
  case (1 s old new)
  show ?case
  proof (cases s)
    case (Cons c r)
    have "set (drop (length old) s) \<subseteq> set s" by (rule set_drop_subset)
    with 1 Cons show ?thesis
      by (subst ReplaceAll.simps) (simp; blast)
  qed (use 1 in simp)
qed

subsection \<open>Loops that keep first occurrences\<close>

text \<open>
  The idiom \<open>if skip(v) || seen[v] { continue }; seen[v] = true; out = append(out, v)\<close>: the
  argument \<open>seen\<close> is the map of the loop, as the list of its keys.
\<close>

fun keep_first :: "('a \<Rightarrow> bool) \<Rightarrow> 'a list \<Rightarrow> 'a list \<Rightarrow> 'a list" where
  "keep_first skip seen [] = []"
| "keep_first skip seen (v # vs) =
     (if skip v \<or> v \<in> set seen then keep_first skip seen vs
      else v # keep_first skip (v # seen) vs)"

lemma set_keep_first: "set (keep_first skip seen vs) = {v \<in> set vs. \<not> skip v \<and> v \<notin> set seen}"
  by (induction skip seen vs rule: keep_first.induct) auto

lemma distinct_keep_first [simp]: "distinct (keep_first skip seen vs)"
  by (induction skip seen vs rule: keep_first.induct) (auto simp: set_keep_first)

lemma keep_first_cong_seen: "set s = set t \<Longrightarrow> keep_first skip s vs = keep_first skip t vs"
proof (induction skip s vs arbitrary: t rule: keep_first.induct)
  case (2 skip seen v vs)
  then show ?case
    by auto
qed simp

lemma keep_first_id:
  "distinct vs \<Longrightarrow> \<forall>v\<in>set vs. \<not> skip v \<and> v \<notin> set seen \<Longrightarrow> keep_first skip seen vs = vs"
proof (induction vs arbitrary: seen)
  case (Cons v vs)
  then have "\<forall>w\<in>set vs. \<not> skip w \<and> w \<notin> set (v # seen)" by auto
  with Cons show ?case by simp
qed simp

lemma subseq_keep_first: "subseq (keep_first skip seen vs) vs"
  by (induction skip seen vs rule: keep_first.induct) auto

lemma length_keep_first: "length (keep_first skip seen vs) \<le> length vs"
  by (rule list_emb_length [OF subseq_keep_first])

subsection \<open>Counting rows\<close>

definition count_rows :: "('a \<Rightarrow> bool) \<Rightarrow> 'a list \<Rightarrow> int" where
  "count_rows P rows = int (length (filter P rows))"

lemma count_rows_simps [simp]:
  "count_rows P [] = 0"
  "count_rows P (r # rows) = (if P r then 1 else 0) + count_rows P rows"
  "count_rows P (xs @ ys) = count_rows P xs + count_rows P ys"
  by (auto simp: count_rows_def)

lemma count_rows_nonneg [simp]: "0 \<le> count_rows P rows"
  by (simp add: count_rows_def)

lemma count_rows_mono: "(\<And>r. r \<in> set rows \<Longrightarrow> P r \<Longrightarrow> Q r) \<Longrightarrow> count_rows P rows \<le> count_rows Q rows"
  by (induction rows) (auto intro: add_mono)

lemma count_rows_le_length: "count_rows P rows \<le> int (length rows)"
  by (simp add: count_rows_def)

lemma count_rows_cong: "(\<And>r. r \<in> set rows \<Longrightarrow> P r = Q r) \<Longrightarrow> count_rows P rows = count_rows Q rows"
  by (induction rows) auto

lemma count_rows_split: "count_rows P rows = count_rows (\<lambda>r. P r \<and> Q r) rows + count_rows (\<lambda>r. P r \<and> \<not> Q r) rows"
  by (induction rows) auto

lemma filter_key_unique: "distinct (map f xs) \<Longrightarrow> y \<in> set xs \<Longrightarrow> filter (\<lambda>x. f x = f y) xs = [y]"
proof (induction xs)
  case (Cons a xs)
  then show ?case by (auto simp: filter_empty_conv) (metis image_eqI)
qed simp

end
