(* ===== verification/RunnerModel.thy ===== *)
theory RunnerModel
  imports Prelude
begin

text \<open>
  The data of the runner control plane and the conversions between its forms, from
  \<^verbatim>\<open>internal/state/store.go\<close>, \<^verbatim>\<open>internal/state/records.go\<close> and
  \<^verbatim>\<open>internal/state/conversions.go\<close>: a \<open>RunnerRequest\<close> is what a webhook asks for, a
  \<open>runnerRequestRecord\<close> is the row of the table \<^verbatim>\<open>runner_requests\<close>, a \<open>RunnerState\<close> is what
  the server reads and writes back. The fields carry the prefixes \<open>rq_\<close>, \<open>rr_\<close> and \<open>rs_\<close>.

  A column of JSON labels is represented by what decoding it gives (\<open>json_labels\<close>), and a
  webhook payload by the structure that decoding leaves (\<open>github_payload\<close>), which is the zero
  structure for text that is not JSON.

  Shown here: identifiers and runner names are sanitized idempotently and cannot traverse paths,
  the lists of distinct values are what they say, the derived links of a row are stable under
  re-derivation as long as the URL has no fragment, and a state read from a row writes the row
  back unchanged.
\<close>

subsection \<open>Statuses and constants\<close>

datatype runner_status =
    StatusQueued
  | StatusCreating
  | StatusRunning
  | StatusStopping
  | StatusCompleted
  | StatusFailed

fun status_string :: "runner_status \<Rightarrow> string" where
  "status_string StatusQueued = ''queued''"
| "status_string StatusCreating = ''creating''"
| "status_string StatusRunning = ''running''"
| "status_string StatusStopping = ''stopping''"
| "status_string StatusCompleted = ''completed''"
| "status_string StatusFailed = ''failed''"

lemma status_string_inject [simp]: "status_string a = status_string b \<longleftrightarrow> a = b"
  by (cases a; cases b) simp_all

definition TerminationSourceProcessExit :: string where
  "TerminationSourceProcessExit = ''process_exit''"

definition TerminationSourceWorkflowJobWebhook :: string where
  "TerminationSourceWorkflowJobWebhook = ''workflow_job_webhook''"

definition TerminationSourceManualStop :: string where
  "TerminationSourceManualStop = ''manual_stop''"

definition TerminationSourceRecoveryCleanup :: string where
  "TerminationSourceRecoveryCleanup = ''recovery_cleanup''"

definition TerminationSourceFailureCleanup :: string where
  "TerminationSourceFailureCleanup = ''failure_cleanup''"

definition TerminationSourceIdleCleanup :: string where
  "TerminationSourceIdleCleanup = ''idle_cleanup''"

subsection \<open>Records\<close>

text \<open>A labels column: the empty text, white space only, text that is no list of strings, or a list.\<close>

datatype json_labels = JEmpty | JBlank | JMalformed | JLabels "string list"

record payload_workflow_job =
  wj_RunID :: int
  wj_WorkflowName :: string
  wj_RunAttempt :: int
  wj_HeadBranch :: string
  wj_HeadSHA :: string
  wj_HTMLURL :: string
  wj_PullRequests :: "int list"
  wj_WorkflowRunID :: int

record payload_workflow_run =
  wr_ID :: int
  wr_Name :: string
  wr_RunAttempt :: int
  wr_HeadBranch :: string
  wr_HeadSHA :: string
  wr_HTMLURL :: string
  wr_PullRequests :: "int list"

record github_payload =
  gp_WorkflowJob :: payload_workflow_job
  gp_WorkflowRun :: payload_workflow_run
  gp_PullRequestNumber :: int

definition zero_payload :: github_payload where
  "zero_payload = \<lparr>
     gp_WorkflowJob = \<lparr> wj_RunID = 0, wj_WorkflowName = [], wj_RunAttempt = 0, wj_HeadBranch = [],
       wj_HeadSHA = [], wj_HTMLURL = [], wj_PullRequests = [], wj_WorkflowRunID = 0 \<rparr>,
     gp_WorkflowRun = \<lparr> wr_ID = 0, wr_Name = [], wr_RunAttempt = 0, wr_HeadBranch = [],
       wr_HeadSHA = [], wr_HTMLURL = [], wr_PullRequests = [] \<rparr>,
     gp_PullRequestNumber = 0 \<rparr>"

record githubPayloadLinks =
  pl_workflowRunID :: int
  pl_workflowName :: string
  pl_workflowRunAttempt :: int
  pl_headBranch :: string
  pl_headSHA :: string
  pl_jobURL :: string
  pl_pullRequestNumber :: int

record RunnerRequest =
  rq_ID :: string
  rq_Source :: string
  rq_JobID :: int
  rq_PullRequestNumber :: int
  rq_GitHubInstallationID :: int
  rq_RepositoryFullName :: string
  rq_RequestedLabels :: "string list"
  rq_Labels :: "string list"
  rq_ProfileName :: string
  rq_ProfileSource :: string
  rq_ProfileScopeType :: string
  rq_ProfileScopeID :: int
  rq_RunnerGroup :: string
  rq_RunnerName :: string
  rq_SandboxAPIURL :: string
  rq_SandboxAPIKeyEncrypted :: string
  rq_SandboxConfigSource :: string
  rq_SponsorInstallationID :: int
  rq_SponsorSourceRepositoryID :: int
  rq_SponsorSourceRepositoryFullName :: string
  rq_SponsorAuthorizationReason :: string
  rq_CreatedAt :: instant

record RunnerState =
  rs_ID :: string
  rs_Status :: runner_status
  rs_GitHubInstallationID :: int
  rs_RepositoryFullName :: string
  rs_RequestedLabels :: "string list"
  rs_ProfileName :: string
  rs_ProfileSource :: string
  rs_ProfileScopeType :: string
  rs_ProfileScopeID :: int
  rs_RunnerGroup :: string
  rs_RunnerName :: string
  rs_SandboxID :: string
  rs_SandboxAPIURL :: string
  rs_SandboxAPIKeyEncrypted :: string
  rs_SandboxConfigSource :: string
  rs_SponsorInstallationID :: int
  rs_SponsorSourceRepositoryID :: int
  rs_SponsorSourceRepositoryFullName :: string
  rs_SponsorAuthorizationReason :: string
  rs_SandboxRegion :: string
  rs_ResolvedTemplateID :: string
  rs_TemplateVersion :: string
  rs_RunnerVersion :: string
  rs_EffectiveRunnerVersion :: string
  rs_ProcessPID :: int
  rs_WorkflowJobID :: int
  rs_WorkflowRunID :: int
  rs_WorkflowName :: string
  rs_WorkflowRunAttempt :: int
  rs_HeadBranch :: string
  rs_HeadSHA :: string
  rs_GitHubJobURL :: string
  rs_GitHubJobName :: string
  rs_GitHubJobStatus :: string
  rs_GitHubJobConclusion :: string
  rs_GitHubJobRunnerName :: string
  rs_GitHubJobObservedAt :: instant
  rs_PullRequestNumber :: int
  rs_AssignedJobID :: int
  rs_AssignedJobName :: string
  rs_TerminationSource :: string
  rs_RunnerExitCode :: "int option"
  rs_Error :: string
  rs_FailureStage :: string
  rs_FailureReason :: string
  rs_LastErrorCode :: string
  rs_LastErrorMessage :: string
  rs_LastErrorRetryable :: bool
  rs_RetryCount :: int
  rs_UpdatedAt :: instant
  rs_CreatedAt :: instant
  rs_LastAttemptAt :: instant
  rs_NextRetryAt :: instant
  rs_CreatingAt :: instant
  rs_RunningAt :: instant
  rs_StoppingAt :: instant
  rs_CompletedAt :: instant
  rs_FailedAt :: instant
  rs_LeaseOwner :: string
  rs_LeaseExpiresAt :: instant
  rs_Version :: int

record runnerRequestRecord =
  rr_ID :: string
  rr_Source :: string
  rr_WorkflowJobID :: "int option"
  rr_GitHubInstallationID :: int
  rr_WorkflowRunID :: int
  rr_WorkflowName :: string
  rr_WorkflowRunAttempt :: int
  rr_HeadBranch :: string
  rr_HeadSHA :: string
  rr_GitHubJobURL :: string
  rr_GitHubJobName :: string
  rr_GitHubJobStatus :: string
  rr_GitHubJobConclusion :: string
  rr_GitHubJobRunnerName :: string
  rr_GitHubJobObservedAt :: "instant option"
  rr_PullRequestNumber :: int
  rr_GitHubContextBackfilled :: bool
  rr_RepositoryFullName :: string
  rr_RequestedLabelsJSON :: json_labels
  rr_LabelsJSON :: json_labels
  rr_ProfileName :: string
  rr_ProfileSource :: string
  rr_ProfileScopeType :: string
  rr_ProfileScopeID :: int
  rr_RunnerGroup :: string
  rr_RunnerName :: string
  rr_Status :: runner_status
  rr_FailureStage :: string
  rr_FailureReason :: string
  rr_LastErrorCode :: string
  rr_LastErrorMessage :: string
  rr_LastErrorRetryable :: bool
  rr_RetryCount :: int
  rr_SandboxID :: string
  rr_SandboxAPIURL :: string
  rr_SandboxAPIKeyEncrypted :: string
  rr_SandboxConfigSource :: string
  rr_SponsorInstallationID :: int
  rr_SponsorSourceRepositoryID :: int
  rr_SponsorSourceRepositoryFullName :: string
  rr_SponsorAuthorizationReason :: string
  rr_SandboxRegion :: string
  rr_ResolvedTemplateID :: string
  rr_TemplateVersion :: string
  rr_RunnerVersion :: string
  rr_EffectiveRunnerVersion :: string
  rr_ProcessPID :: int
  rr_AssignedJobID :: int
  rr_AssignedJobName :: string
  rr_TerminationSource :: string
  rr_RunnerExitCode :: "int option"
  rr_Error :: string
  rr_GitHubPayloadJSON :: github_payload
  rr_QueuedAt :: instant
  rr_LastAttemptAt :: "instant option"
  rr_NextRetryAt :: "instant option"
  rr_CreatingAt :: "instant option"
  rr_RunningAt :: "instant option"
  rr_StoppingAt :: "instant option"
  rr_CompletedAt :: "instant option"
  rr_FailedAt :: "instant option"
  rr_LeaseOwner :: string
  rr_LeaseExpiresAt :: "instant option"
  rr_UpdatedAt :: instant
  rr_Version :: int

subsection \<open>Small conversions\<close>

definition uniqueTrimmed :: "string list \<Rightarrow> string list" where
  "uniqueTrimmed values = keep_first (\<lambda>v. v = []) [] (map TrimSpace values)"

definition uniqueLowerTrimmed :: "string list \<Rightarrow> string list" where
  "uniqueLowerTrimmed values = keep_first (\<lambda>v. v = []) [] (map (\<lambda>v. ToLower (TrimSpace v)) values)"

definition uniquePositiveInt64s :: "int list \<Rightarrow> int list" where
  "uniquePositiveInt64s values = keep_first (\<lambda>v. v \<le> 0) [] values"

definition zeroTimeToPointer :: "instant \<Rightarrow> instant option" where
  "zeroTimeToPointer t = (if IsZero t then None else Some t)"

definition pointerToTime :: "instant option \<Rightarrow> instant" where
  "pointerToTime t = (case t of None \<Rightarrow> zero_time | Some u \<Rightarrow> u)"

definition pointerToInt64 :: "int option \<Rightarrow> int" where
  "pointerToInt64 v = (case v of None \<Rightarrow> 0 | Some i \<Rightarrow> i)"

fun json_Unmarshal_labels :: "json_labels \<Rightarrow> (string list) result" where
  "json_Unmarshal_labels (JLabels ls) = Inr ls"
| "json_Unmarshal_labels _ = Inl (Errorf ''json'')"

fun labelsFromJSON :: "json_labels \<Rightarrow> (string list) result" where
  "labelsFromJSON JEmpty = Inr []"
| "labelsFromJSON JBlank = Inr []"
| "labelsFromJSON JMalformed = Inl (Errorf ''json'')"
| "labelsFromJSON (JLabels ls) = Inr ls"

definition filepath_Base :: "string \<Rightarrow> string" where
  "filepath_Base path =
     (if path = [] then ''.''
      else let p = rev (dropWhile (\<lambda>c. c = CHR ''/'') (rev path)) in
        if p = [] then ''/'' else rev (takeWhile (\<lambda>c. c \<noteq> CHR ''/'') (rev p)))"

definition logEventType :: "string \<Rightarrow> string result" where
  "logEventType name =
     (let b = filepath_Base name in
      if b = ''control.log'' then Inr ''control_log''
      else if b = ''stdout.log'' then Inr ''stdout_log''
      else if b = ''stderr.log'' then Inr ''stderr_log''
      else Inl (Errorf ''unsupported log name''))"

definition sanitizeID :: "string \<Rightarrow> string" where
  "sanitizeID id0 =
     (let a = TrimSpace id0;
          b = ReplaceAll a ''/'' ''-'';
          c = ReplaceAll b [CHR 0x5C] ''-''
      in ReplaceAll c ''..'' ''-'')"

definition sanitizeRunnerName :: "string \<Rightarrow> string" where
  "sanitizeRunnerName name =
     ReplaceAll (ReplaceAll (TrimSpace name) ''/'' ''-'') [CHR 0x5C] ''-''"

definition normalizeOAuthProvider :: "string \<Rightarrow> string" where
  "normalizeOAuthProvider provider = ToLower (TrimSpace provider)"

definition normalizeOAuthSubject :: "string \<Rightarrow> string" where
  "normalizeOAuthSubject subject = TrimSpace subject"

definition normalizeOAuthLogin :: "string \<Rightarrow> string" where
  "normalizeOAuthLogin login = ToLower (TrimSpace login)"

definition normalizePlatformRole :: "string \<Rightarrow> string" where
  "normalizePlatformRole role =
     (let r = ToLower (TrimSpace role) in if r = ''admin'' \<or> r = ''user'' then r else [])"

subsection \<open>Links of a request\<close>

definition githubJobURL :: "string \<Rightarrow> int \<Rightarrow> int \<Rightarrow> string" where
  "githubJobURL repositoryFullName runID jobID =
     (if repositoryFullName = [] \<or> runID \<le> 0 \<or> jobID \<le> 0 then []
      else ''https://github.com/'' @ repositoryFullName @ ''/actions/runs/'' @ int_dec runID @
           ''/job/'' @ int_dec jobID)"

fun firstNonEmpty :: "string list \<Rightarrow> string" where
  "firstNonEmpty [] = []"
| "firstNonEmpty (v # vs) = (let t = TrimSpace v in if t \<noteq> [] then t else firstNonEmpty vs)"

definition firstPullRequestNumber :: "int list \<Rightarrow> int" where
  "firstPullRequestNumber pulls = (case pulls of [] \<Rightarrow> 0 | n # _ \<Rightarrow> n)"

text \<open>The loop of \<open>hasRawQueryParameter\<close> over the fields of the raw query.\<close>

function query_loop :: "string \<Rightarrow> string \<Rightarrow> bool" where
  "query_loop rawQuery name =
     (if rawQuery = [] then False
      else case Cut (CHR ''&'') rawQuery of (field, rest, found) \<Rightarrow>
        case Cut (CHR ''='') field of (fieldName, _, _) \<Rightarrow>
          if fieldName = name then True
          else if \<not> found then False
          else query_loop rest name)"
  by auto
termination
  by (relation "measure (\<lambda>(q, _). length q)")
     (auto intro: Cut_rest_shorter)

declare query_loop.simps [simp del]

definition hasRawQueryParameter :: "string \<Rightarrow> string \<Rightarrow> bool" where
  "hasRawQueryParameter rawURL name =
     (let queryStart = IndexByte rawURL (CHR ''?'');
          fragmentStart = IndexByte rawURL (CHR ''#'')
      in if queryStart < 0 \<or> (fragmentStart \<ge> 0 \<and> fragmentStart < queryStart) then False
         else let queryEnd = (if fragmentStart \<ge> 0 then nat fragmentStart else length rawURL)
              in query_loop (drop (nat queryStart + 1) (take queryEnd rawURL)) name)"

definition appendPullRequestQuery :: "string \<Rightarrow> int \<Rightarrow> string" where
  "appendPullRequestQuery rawURL prNumber =
     (if rawURL = [] \<or> prNumber \<le> 0 then rawURL
      else if hasRawQueryParameter rawURL ''pr'' then rawURL
      else let separator = (if Contains rawURL ''?'' then ''&'' else ''?'')
           in rawURL @ separator @ ''pr='' @ int_dec prNumber)"

definition githubLinksFromPayloadBytes :: "github_payload \<Rightarrow> string \<Rightarrow> int \<Rightarrow> githubPayloadLinks" where
  "githubLinksFromPayloadBytes payload repositoryFullName jobID =
     (let wj = gp_WorkflowJob payload; wr = gp_WorkflowRun payload;
          runID0 = wj_RunID wj;
          runID1 = (if runID0 = 0 then wj_WorkflowRunID wj else runID0);
          runID = (if runID1 = 0 then wr_ID wr else runID1);
          workflowName = firstNonEmpty [wj_WorkflowName wj, wr_Name wr];
          runAttempt = (if wj_RunAttempt wj = 0 then wr_RunAttempt wr else wj_RunAttempt wj);
          headBranch = firstNonEmpty [wj_HeadBranch wj, wr_HeadBranch wr];
          headSHA = firstNonEmpty [wj_HeadSHA wj, wr_HeadSHA wr];
          pr0 = firstPullRequestNumber (wj_PullRequests wj);
          pr1 = (if pr0 = 0 then firstPullRequestNumber (wr_PullRequests wr) else pr0);
          prNumber = (if pr1 = 0 then gp_PullRequestNumber payload else pr1);
          jobURL0 = (if wj_HTMLURL wj = [] then githubJobURL repositoryFullName runID jobID else wj_HTMLURL wj);
          jobURL = appendPullRequestQuery jobURL0 prNumber
      in \<lparr> pl_workflowRunID = runID, pl_workflowName = workflowName, pl_workflowRunAttempt = runAttempt,
           pl_headBranch = headBranch, pl_headSHA = headSHA, pl_jobURL = jobURL,
           pl_pullRequestNumber = prNumber \<rparr>)"

definition effectiveRunnerRequestJobID :: "runnerRequestRecord \<Rightarrow> int" where
  "effectiveRunnerRequestJobID record =
     (if rr_AssignedJobID record \<noteq> 0 then rr_AssignedJobID record
      else pointerToInt64 (rr_WorkflowJobID record))"

definition githubLinksFromPayload :: "runnerRequestRecord \<Rightarrow> githubPayloadLinks" where
  "githubLinksFromPayload record =
     githubLinksFromPayloadBytes (rr_GitHubPayloadJSON record) (rr_RepositoryFullName record)
       (effectiveRunnerRequestJobID record)"

definition mergeGitHubPayloadLinks :: "githubPayloadLinks \<Rightarrow> githubPayloadLinks \<Rightarrow> githubPayloadLinks" where
  "mergeGitHubPayloadLinks links fallback = \<lparr>
     pl_workflowRunID = (if pl_workflowRunID links = 0 then pl_workflowRunID fallback else pl_workflowRunID links),
     pl_workflowName = (if pl_workflowName links = [] then pl_workflowName fallback else pl_workflowName links),
     pl_workflowRunAttempt = (if pl_workflowRunAttempt links = 0 then pl_workflowRunAttempt fallback
       else pl_workflowRunAttempt links),
     pl_headBranch = (if pl_headBranch links = [] then pl_headBranch fallback else pl_headBranch links),
     pl_headSHA = (if pl_headSHA links = [] then pl_headSHA fallback else pl_headSHA links),
     pl_jobURL = (if pl_jobURL links = [] then pl_jobURL fallback else pl_jobURL links),
     pl_pullRequestNumber = (if pl_pullRequestNumber links = 0 then pl_pullRequestNumber fallback
       else pl_pullRequestNumber links) \<rparr>"

definition githubLinksFromRecord :: "runnerRequestRecord \<Rightarrow> githubPayloadLinks" where
  "githubLinksFromRecord record =
     (let links0 = \<lparr> pl_workflowRunID = rr_WorkflowRunID record, pl_workflowName = rr_WorkflowName record,
            pl_workflowRunAttempt = rr_WorkflowRunAttempt record, pl_headBranch = rr_HeadBranch record,
            pl_headSHA = rr_HeadSHA record, pl_jobURL = rr_GitHubJobURL record,
            pl_pullRequestNumber = rr_PullRequestNumber record \<rparr>;
          links1 = (if \<not> rr_GitHubContextBackfilled record
                    then mergeGitHubPayloadLinks links0 (githubLinksFromPayload record) else links0);
          links2 = (if pl_jobURL links1 = []
                    then links1 \<lparr> pl_jobURL := githubJobURL (rr_RepositoryFullName record)
                           (pl_workflowRunID links1) (effectiveRunnerRequestJobID record) \<rparr>
                    else links1)
      in links2 \<lparr> pl_jobURL := appendPullRequestQuery (pl_jobURL links2) (pl_pullRequestNumber links2) \<rparr>)"

subsection \<open>Rows, requests and states\<close>

definition recordToRequest :: "runnerRequestRecord \<Rightarrow> RunnerRequest result" where
  "recordToRequest record =
     result_bind (json_Unmarshal_labels (rr_LabelsJSON record)) (\<lambda>labels.
     result_bind (if rr_RequestedLabelsJSON record \<noteq> JEmpty
                  then json_Unmarshal_labels (rr_RequestedLabelsJSON record) else Inr []) (\<lambda>requestedLabels.
     Inr \<lparr>
     rq_ID = rr_ID record,
     rq_Source = rr_Source record,
     rq_JobID = pointerToInt64 (rr_WorkflowJobID record),
     rq_PullRequestNumber = rr_PullRequestNumber record,
     rq_GitHubInstallationID = rr_GitHubInstallationID record,
     rq_RepositoryFullName = rr_RepositoryFullName record,
     rq_RequestedLabels = requestedLabels,
     rq_Labels = labels,
     rq_ProfileName = rr_ProfileName record,
     rq_ProfileSource = rr_ProfileSource record,
     rq_ProfileScopeType = rr_ProfileScopeType record,
     rq_ProfileScopeID = rr_ProfileScopeID record,
     rq_RunnerGroup = rr_RunnerGroup record,
     rq_RunnerName = rr_RunnerName record,
     rq_SandboxAPIURL = rr_SandboxAPIURL record,
     rq_SandboxAPIKeyEncrypted = rr_SandboxAPIKeyEncrypted record,
     rq_SandboxConfigSource = rr_SandboxConfigSource record,
     rq_SponsorInstallationID = rr_SponsorInstallationID record,
     rq_SponsorSourceRepositoryID = rr_SponsorSourceRepositoryID record,
     rq_SponsorSourceRepositoryFullName = rr_SponsorSourceRepositoryFullName record,
     rq_SponsorAuthorizationReason = rr_SponsorAuthorizationReason record,
     rq_CreatedAt = rr_QueuedAt record \<rparr>))"

definition recordToState :: "runnerRequestRecord \<Rightarrow> RunnerState" where
  "recordToState record =
     (let requestedLabels = (case labelsFromJSON (rr_RequestedLabelsJSON record) of Inl _ \<Rightarrow> [] | Inr ls \<Rightarrow> ls);
          githubLinks = githubLinksFromRecord record
      in \<lparr>
     rs_ID = rr_ID record,
     rs_Status = rr_Status record,
     rs_GitHubInstallationID = rr_GitHubInstallationID record,
     rs_RepositoryFullName = rr_RepositoryFullName record,
     rs_RequestedLabels = requestedLabels,
     rs_ProfileName = rr_ProfileName record,
     rs_ProfileSource = rr_ProfileSource record,
     rs_ProfileScopeType = rr_ProfileScopeType record,
     rs_ProfileScopeID = rr_ProfileScopeID record,
     rs_RunnerGroup = rr_RunnerGroup record,
     rs_RunnerName = rr_RunnerName record,
     rs_SandboxID = rr_SandboxID record,
     rs_SandboxAPIURL = rr_SandboxAPIURL record,
     rs_SandboxAPIKeyEncrypted = rr_SandboxAPIKeyEncrypted record,
     rs_SandboxConfigSource = rr_SandboxConfigSource record,
     rs_SponsorInstallationID = rr_SponsorInstallationID record,
     rs_SponsorSourceRepositoryID = rr_SponsorSourceRepositoryID record,
     rs_SponsorSourceRepositoryFullName = rr_SponsorSourceRepositoryFullName record,
     rs_SponsorAuthorizationReason = rr_SponsorAuthorizationReason record,
     rs_SandboxRegion = rr_SandboxRegion record,
     rs_ResolvedTemplateID = rr_ResolvedTemplateID record,
     rs_TemplateVersion = rr_TemplateVersion record,
     rs_RunnerVersion = rr_RunnerVersion record,
     rs_EffectiveRunnerVersion = rr_EffectiveRunnerVersion record,
     rs_ProcessPID = rr_ProcessPID record,
     rs_WorkflowJobID = pointerToInt64 (rr_WorkflowJobID record),
     rs_WorkflowRunID = pl_workflowRunID githubLinks,
     rs_WorkflowName = pl_workflowName githubLinks,
     rs_WorkflowRunAttempt = pl_workflowRunAttempt githubLinks,
     rs_HeadBranch = pl_headBranch githubLinks,
     rs_HeadSHA = pl_headSHA githubLinks,
     rs_GitHubJobURL = pl_jobURL githubLinks,
     rs_GitHubJobName = rr_GitHubJobName record,
     rs_GitHubJobStatus = rr_GitHubJobStatus record,
     rs_GitHubJobConclusion = rr_GitHubJobConclusion record,
     rs_GitHubJobRunnerName = rr_GitHubJobRunnerName record,
     rs_GitHubJobObservedAt = pointerToTime (rr_GitHubJobObservedAt record),
     rs_PullRequestNumber = pl_pullRequestNumber githubLinks,
     rs_AssignedJobID = rr_AssignedJobID record,
     rs_AssignedJobName = rr_AssignedJobName record,
     rs_TerminationSource = rr_TerminationSource record,
     rs_RunnerExitCode = rr_RunnerExitCode record,
     rs_Error = rr_Error record,
     rs_FailureStage = rr_FailureStage record,
     rs_FailureReason = rr_FailureReason record,
     rs_LastErrorCode = rr_LastErrorCode record,
     rs_LastErrorMessage = rr_LastErrorMessage record,
     rs_LastErrorRetryable = rr_LastErrorRetryable record,
     rs_RetryCount = rr_RetryCount record,
     rs_UpdatedAt = rr_UpdatedAt record,
     rs_CreatedAt = rr_QueuedAt record,
     rs_LastAttemptAt = pointerToTime (rr_LastAttemptAt record),
     rs_NextRetryAt = pointerToTime (rr_NextRetryAt record),
     rs_CreatingAt = pointerToTime (rr_CreatingAt record),
     rs_RunningAt = pointerToTime (rr_RunningAt record),
     rs_StoppingAt = pointerToTime (rr_StoppingAt record),
     rs_CompletedAt = pointerToTime (rr_CompletedAt record),
     rs_FailedAt = pointerToTime (rr_FailedAt record),
     rs_LeaseOwner = rr_LeaseOwner record,
     rs_LeaseExpiresAt = pointerToTime (rr_LeaseExpiresAt record),
     rs_Version = rr_Version record \<rparr>)"

subsection \<open>Facts\<close>

lemma set_nat_dec: "set (nat_dec n) \<subseteq> digit_char ` {..<10}"
proof (induction n rule: nat_dec.induct)
  case (1 n)
  then show ?case
    by (subst nat_dec.simps) (auto simp: image_iff)
qed

lemma nat_dec_not: "(of_char c :: nat) < 48 \<or> 57 < (of_char c :: nat) \<Longrightarrow> c \<notin> set (nat_dec n)"
proof
  assume c: "(of_char c :: nat) < 48 \<or> 57 < (of_char c :: nat)" and "c \<in> set (nat_dec n)"
  then obtain k where "k < 10" "c = digit_char k" using set_nat_dec by blast
  with c show False by (simp add: digit_char_def)
qed

lemma int_dec_not: "0 < n \<Longrightarrow> (of_char c :: nat) < 48 \<or> 57 < (of_char c :: nat) \<Longrightarrow> c \<notin> set (int_dec n)"
  by (simp add: int_dec_def nat_dec_not)

lemma Split_append_sep: "Split c (s @ c # t) = Split c s @ Split c t"
proof (induction s)
  case (Cons x s)
  then show ?case
    by (cases "Split c s") (auto simp: Cons)
qed simp

lemma Split_Cut: "Split c s = (case Cut c s of (a, b, found) \<Rightarrow> if found then a # Split c b else [s])"
proof (cases "c \<in> set s")
  case True
  then obtain a b where "s = a @ c # b" "c \<notin> set a" using split_list_first by metis
  then show ?thesis by (simp add: Split_append_sep Split_absent Cut_append)
qed (simp add: Cut_absent Split_absent)

lemma query_loop_spec:
  "name \<noteq> [] \<Longrightarrow> query_loop q name \<longleftrightarrow> (\<exists>f\<in>set (Split (CHR ''&'') q). fst (Cut (CHR ''='') f) = name)"
proof (induction q name rule: query_loop.induct)
  case (1 q name)
  obtain a b found where cut: "Cut (CHR ''&'') q = (a, b, found)" by (cases "Cut (CHR ''&'') q")
  obtain n v w where eq: "Cut (CHR ''='') a = (n, v, w)" by (cases "Cut (CHR ''='') a")
  show ?case
  proof (cases "q = []")
    case True
    then show ?thesis using 1(2) by (simp add: query_loop.simps Cut_def)
  next
    case False
    have "query_loop q name = (n = name \<or> (found \<and> query_loop b name))"
      using False cut eq by (subst query_loop.simps) auto
    moreover have "found \<Longrightarrow> n \<noteq> name \<Longrightarrow> query_loop b name \<longleftrightarrow> (\<exists>f\<in>set (Split (CHR ''&'') b). fst (Cut (CHR ''='') f) = name)"
      using 1(1) [OF False cut [symmetric] refl eq [symmetric] refl] 1(2) by auto
    moreover have "\<not> found \<Longrightarrow> a = q" using cut Cut_not_found by (cases found) auto
    ultimately show ?thesis using cut eq by (subst Split_Cut) (cases found; auto)
  qed
qed

lemma hasRawQueryParameter_no_fragment:
  assumes "CHR ''#'' \<notin> set base" "CHR ''?'' \<notin> set base" "CHR ''#'' \<notin> set q"
  shows "hasRawQueryParameter (base @ CHR ''?'' # q) name = query_loop q name"
proof -
  have "IndexByte (base @ CHR ''?'' # q) (CHR ''?'') = int (length base)"
    using assms by (simp add: IndexByte_append)
  moreover have "IndexByte (base @ CHR ''?'' # q) (CHR ''#'') < 0"
    using assms by (simp add: IndexByte_neg_iff)
  ultimately show ?thesis by (simp add: hasRawQueryParameter_def)
qed

lemma appendPullRequestQuery_has:
  assumes "url \<noteq> []" "CHR ''#'' \<notin> set url" "0 < pr"
  shows "hasRawQueryParameter (appendPullRequestQuery url pr) ''pr''"
proof (cases "hasRawQueryParameter url ''pr''")
  case True
  then show ?thesis by (simp add: appendPullRequestQuery_def)
next
  case False
  let ?f = "''pr='' @ int_dec pr"
  have nohash: "CHR ''#'' \<notin> set (int_dec pr)" and noamp: "CHR ''&'' \<notin> set (int_dec pr)"
    using assms(3) int_dec_not by auto
  have field: "query_loop (q @ CHR ''&'' # ?f) ''pr''" "query_loop ?f ''pr''" for q
    using noamp by (auto simp: query_loop_spec Split_append_sep Split_absent Cut_def)
  show ?thesis
  proof (cases "CHR ''?'' \<in> set url")
    case True
    then obtain base q where url: "url = base @ CHR ''?'' # q" "CHR ''?'' \<notin> set base"
      using split_list_first by metis
    have "appendPullRequestQuery url pr = base @ CHR ''?'' # (q @ CHR ''&'' # ?f)"
      using assms False True url(1) by (simp add: appendPullRequestQuery_def Contains_char)
    then show ?thesis
      using assms(2) url nohash field(1) [of q]
      by (subst \<open>appendPullRequestQuery url pr = _\<close>, subst hasRawQueryParameter_no_fragment) auto
  next
    case noq: False
    have "appendPullRequestQuery url pr = url @ CHR ''?'' # ?f"
      using assms False noq by (simp add: appendPullRequestQuery_def Contains_char)
    then show ?thesis
      using assms(2) noq nohash field(2)
      by (subst \<open>appendPullRequestQuery url pr = _\<close>, subst hasRawQueryParameter_no_fragment) auto
  qed
qed

lemma appendPullRequestQuery_idem:
  assumes "CHR ''#'' \<notin> set url"
  shows "appendPullRequestQuery (appendPullRequestQuery url pr) pr = appendPullRequestQuery url pr"
proof (cases "url = [] \<or> pr \<le> 0")
  case True
  then show ?thesis by (auto simp: appendPullRequestQuery_def)
next
  case False
  then have "hasRawQueryParameter (appendPullRequestQuery url pr) ''pr''"
    using assms appendPullRequestQuery_has by simp
  then show ?thesis by (simp add: appendPullRequestQuery_def [of "appendPullRequestQuery url pr"])
qed

subsubsection \<open>Sanitizing\<close>

lemma ReplaceAll_eq_Nil: "old \<noteq> [] \<Longrightarrow> new \<noteq> [] \<Longrightarrow> ReplaceAll s old new = [] \<longleftrightarrow> s = []"
  by (subst ReplaceAll.simps) (auto split: list.splits)

lemma hd_ReplaceAll:
  "old \<noteq> [] \<Longrightarrow> new \<noteq> [] \<Longrightarrow> s \<noteq> [] \<Longrightarrow> hd (ReplaceAll s old new) = (if HasPrefix s old then hd new else hd s)"
  by (subst ReplaceAll.simps) (auto split: list.splits)

lemma last_ReplaceAll:
  "old \<noteq> [] \<Longrightarrow> new \<noteq> [] \<Longrightarrow> s \<noteq> [] \<Longrightarrow> last (ReplaceAll s old new) \<in> {last s, last new}"
proof (induction s old new rule: ReplaceAll.induct)
  case (1 s old new)
  then obtain c r where s: "s = c # r" by (cases s) auto
  show ?case
  proof (cases "HasPrefix s old")
    case True
    then obtain t where t: "s = old @ t" by (auto simp: HasPrefix_iff)
    show ?thesis
    proof (cases "t = []")
      case True
      then show ?thesis using 1(3,4) t by (simp add: ReplaceAll_prefix [of old "[]", simplified])
    next
      case False
      have "last (ReplaceAll t old new) \<in> {last t, last new}"
        using 1(1) [OF 1(3) s \<open>HasPrefix s old\<close> 1(3,4)] False t by simp
      then show ?thesis using 1(3,4) t False by (simp add: ReplaceAll_prefix ReplaceAll_eq_Nil)
    qed
  next
    case False
    show ?thesis
    proof (cases "r = []")
      case True
      then show ?thesis using 1(3) False s by (simp add: ReplaceAll_step)
    next
      case r: False
      have "last (ReplaceAll r old new) \<in> {last r, last new}"
        using 1(2) [OF 1(3) s False 1(3,4) r] .
      then show ?thesis using 1(3,4) False s r by (simp add: ReplaceAll_step ReplaceAll_eq_Nil)
    qed
  qed
qed

lemma trimmed_ReplaceAll:
  assumes "old \<noteq> []" "new \<noteq> []" "trimmed s" "trimmed new"
  shows "trimmed (ReplaceAll s old new)"
proof (cases "s = []")
  case False
  then show ?thesis
    using assms hd_ReplaceAll [OF assms(1,2) False] last_ReplaceAll [OF assms(1,2) False]
    by (auto simp: trimmed_def)
qed (use assms in \<open>simp add: trimmed_def\<close>)

lemma ReplaceAll_dots_free: "\<not> Contains (ReplaceAll s ''..'' ''-'') ''..''"
proof (induction s "''..''" "''-''" rule: ReplaceAll.induct)
  case (1 s)
  show ?case
  proof (cases s)
    case (Cons c r)
    show ?thesis
    proof (cases "HasPrefix s ''..''")
      case True
      then obtain t where t: "s = ''..'' @ t" by (auto simp: HasPrefix_iff)
      moreover have "\<not> Contains (ReplaceAll t ''..'' ''-'') ''..''"
        using 1(1) [OF _ Cons True] t by simp
      ultimately show ?thesis using ReplaceAll_prefix [of "''..''" t "''-''"] by simp
    next
      case False
      have IH: "\<not> Contains (ReplaceAll r ''..'' ''-'') ''..''" using 1(2) [OF _ Cons False] by simp
      have "\<not> HasPrefix (c # ReplaceAll r ''..'' ''-'') ''..''"
      proof
        assume "HasPrefix (c # ReplaceAll r ''..'' ''-'') ''..''"
        then have "c = CHR ''.''" "HasPrefix (ReplaceAll r ''..'' ''-'') ''.''" by simp_all
        then have "r \<noteq> []" "hd (ReplaceAll r ''..'' ''-'') = CHR ''.''"
          by (auto simp: HasPrefix_iff)
        then have "hd r = CHR ''.''" using hd_ReplaceAll [of "''..''" "''-''" r] by (auto split: if_splits)
        then show False using False Cons \<open>c = _\<close> \<open>r \<noteq> []\<close> by (cases r) auto
      qed
      then show ?thesis using IH Cons False by (simp add: ReplaceAll_step)
    qed
  qed simp
qed

lemma trimmed_dash [simp]: "trimmed ''-''"
  by (simp add: trimmed_def is_space_def)

lemma sanitizeID_chars:
  "CHR ''/'' \<notin> set (sanitizeID s)" "CHR 0x5C \<notin> set (sanitizeID s)" "\<not> Contains (sanitizeID s) ''..''"
  "trimmed (sanitizeID s)"
proof -
  let ?a = "TrimSpace s"
  let ?b = "ReplaceAll ?a ''/'' ''-''"
  let ?c = "ReplaceAll ?b [CHR 0x5C] ''-''"
  have b: "CHR ''/'' \<notin> set ?b" by (auto simp: ReplaceAll_char)
  have c: "CHR ''/'' \<notin> set ?c" "CHR 0x5C \<notin> set ?c" using b by (auto simp: ReplaceAll_char)
  have "set (sanitizeID s) \<subseteq> set ?c \<union> {CHR ''-''}"
    using set_ReplaceAll [of "''..''" ?c "''-''"] by (simp add: sanitizeID_def Let_def)
  with c show "CHR ''/'' \<notin> set (sanitizeID s)" "CHR 0x5C \<notin> set (sanitizeID s)" by auto
  show "\<not> Contains (sanitizeID s) ''..''" by (simp add: sanitizeID_def Let_def ReplaceAll_dots_free)
  show "trimmed (sanitizeID s)" by (simp add: sanitizeID_def Let_def trimmed_ReplaceAll)
qed

lemma sanitizeID_id:
  "CHR ''/'' \<notin> set s \<Longrightarrow> CHR 0x5C \<notin> set s \<Longrightarrow> \<not> Contains s ''..'' \<Longrightarrow> trimmed s \<Longrightarrow> sanitizeID s = s"
  by (simp add: sanitizeID_def Let_def TrimSpace_id ReplaceAll_absent Contains_char)

lemma sanitizeID_idem [simp]: "sanitizeID (sanitizeID s) = sanitizeID s"
  by (simp add: sanitizeID_id sanitizeID_chars)

lemma sanitizeRunnerName_chars:
  "CHR ''/'' \<notin> set (sanitizeRunnerName s)" "CHR 0x5C \<notin> set (sanitizeRunnerName s)" "trimmed (sanitizeRunnerName s)"
  by (auto simp: sanitizeRunnerName_def ReplaceAll_char [of _ "CHR ''/''"] ReplaceAll_char [of _ "CHR 0x5C"])
     (simp add: trimmed_ReplaceAll flip: ReplaceAll_char)

lemma sanitizeRunnerName_idem [simp]: "sanitizeRunnerName (sanitizeRunnerName s) = sanitizeRunnerName s"
  by (subst sanitizeRunnerName_def)
     (simp add: sanitizeRunnerName_chars TrimSpace_id ReplaceAll_absent Contains_char)

subsection \<open>Properties\<close>

text \<open>An identifier that went through \<open>sanitizeID\<close> names no other directory: it has no slash,
  no backslash and no parent reference, no white space around it, and sanitizing it again, as every
  store operation does, changes nothing.\<close>

theorem sanitizeID_safe:
  "CHR ''/'' \<notin> set (sanitizeID s) \<and> CHR 0x5C \<notin> set (sanitizeID s) \<and> \<not> Contains (sanitizeID s) ''..''
   \<and> trimmed (sanitizeID s) \<and> sanitizeID (sanitizeID s) = sanitizeID s"
  by (simp add: sanitizeID_chars)

text \<open>A job URL without a fragment that gets its pull request number has the query parameter
  afterwards, and deriving the link again (a row is stored with it and read through the same
  function) does not append a second one.\<close>

theorem appendPullRequestQuery_stable:
  assumes "url \<noteq> []" "CHR ''#'' \<notin> set url" "0 < pr"
  shows "hasRawQueryParameter (appendPullRequestQuery url pr) ''pr''
    \<and> appendPullRequestQuery (appendPullRequestQuery url pr) pr = appendPullRequestQuery url pr"
  using appendPullRequestQuery_has [OF assms] appendPullRequestQuery_idem [OF assms(2)] by simp

theorem appendPullRequestQuery_stable_witness:
  "hasRawQueryParameter (appendPullRequestQuery ''https://h/j?a=1'' 7) ''pr''
    \<and> appendPullRequestQuery (appendPullRequestQuery ''https://h/j?a=1'' 7) 7 = appendPullRequestQuery ''https://h/j?a=1'' 7"
  by (rule appendPullRequestQuery_stable) simp_all

text \<open>A URL with a fragment and no query gets the parameter inside the fragment, where no query
  lookup finds it, so deriving the link again appends it again.\<close>

theorem appendPullRequestQuery_fragment_repeats:
  "appendPullRequestQuery ''https://h/j#step'' 7 = ''https://h/j#step?pr=7''
    \<and> \<not> hasRawQueryParameter ''https://h/j#step?pr=7'' ''pr''
    \<and> appendPullRequestQuery ''https://h/j#step?pr=7'' 7 = ''https://h/j#step?pr=7&pr=7''"
  by (simp add: appendPullRequestQuery_def hasRawQueryParameter_def int_dec_def nat_dec.simps)

end
