(* ===== verification/Versioned.thy ===== *)
theory Versioned
  imports Main
begin

text \<open>
  The contract of a table whose rows carry a version: a conditional write names a key and the
  version it read, and is accepted only when the row still has that version. The laws are what the
  runner request table and the deployment table promise; from them, the accepted writes of any
  sequence of attempts never include two of the same version of one row, and a row's version
  counts its accepted writes.
\<close>

text \<open>Attempts one after the other: the table at the end, and the accepted writes in order.\<close>

fun run_writes :: "('w \<Rightarrow> 't \<Rightarrow> 't option) \<Rightarrow> 'w list \<Rightarrow> 't \<Rightarrow> 't \<times> 'w list" where
  "run_writes cas [] t = (t, [])"
| "run_writes cas (w # ws) t =
     (case cas w t of
        None \<Rightarrow> run_writes cas ws t
      | Some t1 \<Rightarrow> (case run_writes cas ws t1 of (t2, accepted) \<Rightarrow> (t2, w # accepted)))"

locale versioned_table =
  fixes lookup :: "'t \<Rightarrow> 'k \<Rightarrow> 'r option"
    and version :: "'r \<Rightarrow> int"
    and cas :: "'w \<Rightarrow> 't \<Rightarrow> 't option"
    and key :: "'w \<Rightarrow> 'k"
    and expected :: "'w \<Rightarrow> int"
    and ok :: "'t \<Rightarrow> bool"
  assumes accepted_version:
      "ok t \<Longrightarrow> cas w t = Some t' \<Longrightarrow> \<exists>r. lookup t (key w) = Some r \<and> version r = expected w"
    and write_bumps:
      "ok t \<Longrightarrow> cas w t = Some t' \<Longrightarrow> \<exists>r. lookup t' (key w) = Some r \<and> version r = expected w + 1"
    and write_frame:
      "ok t \<Longrightarrow> cas w t = Some t' \<Longrightarrow> k \<noteq> key w \<Longrightarrow> lookup t' k = lookup t k"
    and write_keeps_ok: "ok t \<Longrightarrow> cas w t = Some t' \<Longrightarrow> ok t'"
begin

lemma stale_refused:
  "ok t \<Longrightarrow> lookup t (key w) = Some r \<Longrightarrow> version r \<noteq> expected w \<Longrightarrow> cas w t = None"
  using accepted_version by (metis not_None_eq option.inject)

lemma run_writes_ok: "ok t \<Longrightarrow> ok (fst (run_writes cas ws t))"
  by (induction ws arbitrary: t) (auto split: option.splits prod.splits, metis fst_conv write_keeps_ok)

lemma accepted_above:
  assumes "ok t" "lookup t k = Some r" "w \<in> set (snd (run_writes cas ws t))" "key w = k"
  shows "version r \<le> expected w"
  using assms
proof (induction ws arbitrary: t r)
  case (Cons v ws)
  show ?case
  proof (cases "cas v t")
    case None
    with Cons show ?thesis by simp
  next
    case (Some t1)
    obtain t2 acc where run: "run_writes cas ws t1 = (t2, acc)" by force
    have ok1: "ok t1" using Cons.prems(1) Some write_keeps_ok by blast
    show ?thesis
    proof (cases "key v = k")
      case True
      obtain r0 where r0: "lookup t k = Some r0" "version r0 = expected v"
        using accepted_version [OF Cons.prems(1) Some] True by auto
      obtain r1 where r1: "lookup t1 k = Some r1" "version r1 = expected v + 1"
        using write_bumps [OF Cons.prems(1) Some] True by auto
      have "w = v \<or> version r1 \<le> expected w"
        using Cons.IH [OF ok1 r1(1)] Cons.prems(3,4) Some run by auto
      then show ?thesis using r0 r1(2) Cons.prems(2) by auto
    next
      case False
      then have "lookup t1 k = Some r"
        using write_frame [OF Cons.prems(1) Some] Cons.prems(2) by metis
      moreover have "w \<in> set acc" using Cons.prems(3,4) Some run False by auto
      ultimately show ?thesis using Cons.IH [OF ok1] run Cons.prems(4) by simp
    qed
  qed
qed simp

lemma one_winner:
  assumes "ok t"
  shows "length (filter (\<lambda>w. key w = k \<and> expected w = v) (snd (run_writes cas ws t))) \<le> 1"
  using assms
proof (induction ws arbitrary: t)
  case (Cons w ws)
  show ?case
  proof (cases "cas w t")
    case None
    with Cons show ?thesis by simp
  next
    case (Some t1)
    obtain t2 acc where run: "run_writes cas ws t1 = (t2, acc)" by force
    have ok1: "ok t1" using Cons.prems Some write_keeps_ok by blast
    show ?thesis
    proof (cases "key w = k \<and> expected w = v")
      case True
      obtain r1 where r1: "lookup t1 k = Some r1" "version r1 = v + 1"
        using write_bumps [OF Cons.prems Some] True by auto
      have "filter (\<lambda>w. key w = k \<and> expected w = v) acc = []"
        using accepted_above [OF ok1 r1(1), of _ ws] r1(2) run by (force simp: filter_empty_conv)
      then show ?thesis using Some run by simp
    next
      case False
      then show ?thesis using Cons.IH [OF ok1] Some run by auto
    qed
  qed
qed simp

lemma version_counts:
  assumes "ok t" "lookup t k = Some r"
  shows "\<exists>r'. lookup (fst (run_writes cas ws t)) k = Some r'
    \<and> version r' = version r + int (length (filter (\<lambda>w. key w = k) (snd (run_writes cas ws t))))"
  using assms
proof (induction ws arbitrary: t r)
  case (Cons w ws)
  show ?case
  proof (cases "cas w t")
    case None
    with Cons show ?thesis by simp
  next
    case (Some t1)
    obtain t2 acc where run: "run_writes cas ws t1 = (t2, acc)" by force
    have ok1: "ok t1" using Cons.prems(1) Some write_keeps_ok by blast
    obtain r0 where r0: "lookup t (key w) = Some r0" "version r0 = expected w"
      using accepted_version [OF Cons.prems(1) Some] by auto
    obtain r1 where r1: "lookup t1 (key w) = Some r1" "version r1 = expected w + 1"
      using write_bumps [OF Cons.prems(1) Some] by auto
    show ?thesis
    proof (cases "key w = k")
      case True
      then show ?thesis using Cons.IH [OF ok1, of r1] r0 r1 Some run Cons.prems(2) by auto
    next
      case False
      then have "lookup t1 k = Some r"
        using write_frame [OF Cons.prems(1) Some] Cons.prems(2) by metis
      then show ?thesis using Cons.IH [OF ok1] Some run False by auto
    qed
  qed
qed simp

end

text \<open>A table that refuses a write for no other reason than its version.\<close>

locale live_versioned_table = versioned_table +
  assumes write_succeeds: "ok t \<Longrightarrow> lookup t (key w) = Some r \<Longrightarrow> version r = expected w \<Longrightarrow> \<exists>t'. cas w t = Some t'"
begin

lemma write_accepted:
  "ok t \<Longrightarrow> (\<exists>t'. cas w t = Some t') \<longleftrightarrow> (\<exists>r. lookup t (key w) = Some r \<and> version r = expected w)"
  using accepted_version write_succeeds by blast

lemma reread_succeeds:
  assumes "ok t" "cas w t = Some t'" "key v = key w" "expected v = expected w + 1"
  shows "\<exists>t''. cas v t' = Some t''"
  using assms write_bumps [OF assms(1,2)] write_keeps_ok [OF assms(1,2)] write_succeeds by metis

end

end
