(* ===== verification/RunnerStore.thy ===== *)
theory RunnerStore
  imports RunnerModel Versioned "HOL-Library.Product_Lexorder"
begin

text \<open>
  The table of runner requests and its operations, from \<^verbatim>\<open>internal/state/runner_requests.go\<close>
  (and the counts by profile scope of \<^verbatim>\<open>internal/state/scoped_catalog.go\<close>).

  A table is the list of its rows in insertion order. An operation takes the instant its call of
  \<^emph>\<open>time.Now\<close> returns and gives back the table; a database transaction is one step. A query with
  \<^verbatim>\<open>ORDER BY\<close> is a stable sort, \<^verbatim>\<open>First\<close> orders by the primary key last, as the ORM does, and
  text compares bytewise. Driver failures are not represented.

  Shown here: the table keeps its primary key and its unique workflow job, identifiers stay
  sanitized and versions only grow; a write is accepted only on the version it read, so that of two
  writers of one version one is refused; a claim takes the earliest eligible request and leases it
  exclusively; a retry leaves no trace of the failed attempt; pages that follow the cursor
  enumerate the whole list once; the batched query for many repositories gives the page of the
  direct query; the metrics partition the table.
\<close>

type_synonym requests_table = "runnerRequestRecord list"

definition update_where :: "('a \<Rightarrow> bool) \<Rightarrow> ('a \<Rightarrow> 'a) \<Rightarrow> 'a list \<Rightarrow> 'a list" where
  "update_where P f tbl = map (\<lambda>r. if P r then f r else r) tbl"

definition rows_affected :: "('a \<Rightarrow> bool) \<Rightarrow> 'a list \<Rightarrow> int" where
  "rows_affected P tbl = count_rows P tbl"

subsection \<open>Creating and reading requests\<close>

definition readRecord :: "string \<Rightarrow> requests_table \<Rightarrow> runnerRequestRecord result" where
  "readRecord id0 tbl =
     (case find (\<lambda>r. rr_ID r = sanitizeID id0) tbl of
        None \<Rightarrow> Inl ErrRecordNotFound
      | Some r \<Rightarrow> Inr r)"

definition ReadRequest :: "string \<Rightarrow> requests_table \<Rightarrow> RunnerRequest result" where
  "ReadRequest id0 tbl = result_bind (readRecord id0 tbl) recordToRequest"

definition ReadState :: "string \<Rightarrow> requests_table \<Rightarrow> RunnerState result" where
  "ReadState id0 tbl =
     (case readRecord id0 tbl of
        Inl e \<Rightarrow> if e = ErrRecordNotFound then Inl ErrNotFound else Inl e
      | Inr r \<Rightarrow> Inr (recordToState r))"

text \<open>The row that \<open>createRequest\<close> builds.\<close>

definition newRequestRecord ::
  "instant \<Rightarrow> RunnerRequest \<Rightarrow> github_payload \<Rightarrow> runner_status \<Rightarrow> string \<Rightarrow> string \<Rightarrow> string \<Rightarrow> runnerRequestRecord" where
  "newRequestRecord now req payload status failureStage failureReason errorMessage =
     (let links0 = githubLinksFromPayloadBytes payload (rq_RepositoryFullName req) (rq_JobID req);
          links = (if rq_PullRequestNumber req > 0 \<and> pl_pullRequestNumber links0 = 0
                   then links0 \<lparr> pl_pullRequestNumber := rq_PullRequestNumber req \<rparr> else links0)
      in \<lparr>
     rr_ID = rq_ID req,
     rr_Source = rq_Source req,
     rr_WorkflowJobID = (if rq_JobID req \<noteq> 0 then Some (rq_JobID req) else None),
     rr_GitHubInstallationID = rq_GitHubInstallationID req,
     rr_WorkflowRunID = pl_workflowRunID links,
     rr_WorkflowName = pl_workflowName links,
     rr_WorkflowRunAttempt = pl_workflowRunAttempt links,
     rr_HeadBranch = pl_headBranch links,
     rr_HeadSHA = pl_headSHA links,
     rr_GitHubJobURL = pl_jobURL links,
     rr_GitHubJobName = [],
     rr_GitHubJobStatus = [],
     rr_GitHubJobConclusion = [],
     rr_GitHubJobRunnerName = [],
     rr_GitHubJobObservedAt = None,
     rr_PullRequestNumber = pl_pullRequestNumber links,
     rr_GitHubContextBackfilled = True,
     rr_RepositoryFullName = rq_RepositoryFullName req,
     rr_RequestedLabelsJSON = JLabels (rq_RequestedLabels req),
     rr_LabelsJSON = JLabels (rq_Labels req),
     rr_ProfileName = rq_ProfileName req,
     rr_ProfileSource = rq_ProfileSource req,
     rr_ProfileScopeType = rq_ProfileScopeType req,
     rr_ProfileScopeID = rq_ProfileScopeID req,
     rr_RunnerGroup = rq_RunnerGroup req,
     rr_RunnerName = rq_RunnerName req,
     rr_Status = status,
     rr_FailureStage = failureStage,
     rr_FailureReason = failureReason,
     rr_LastErrorCode = [],
     rr_LastErrorMessage = [],
     rr_LastErrorRetryable = False,
     rr_RetryCount = 0,
     rr_SandboxID = [],
     rr_SandboxAPIURL = TrimSpace (rq_SandboxAPIURL req),
     rr_SandboxAPIKeyEncrypted = TrimSpace (rq_SandboxAPIKeyEncrypted req),
     rr_SandboxConfigSource = TrimSpace (rq_SandboxConfigSource req),
     rr_SponsorInstallationID = rq_SponsorInstallationID req,
     rr_SponsorSourceRepositoryID = rq_SponsorSourceRepositoryID req,
     rr_SponsorSourceRepositoryFullName = TrimSpace (rq_SponsorSourceRepositoryFullName req),
     rr_SponsorAuthorizationReason = TrimSpace (rq_SponsorAuthorizationReason req),
     rr_SandboxRegion = [],
     rr_ResolvedTemplateID = [],
     rr_TemplateVersion = [],
     rr_RunnerVersion = [],
     rr_EffectiveRunnerVersion = [],
     rr_ProcessPID = 0,
     rr_AssignedJobID = 0,
     rr_AssignedJobName = [],
     rr_TerminationSource = [],
     rr_RunnerExitCode = None,
     rr_Error = errorMessage,
     rr_GitHubPayloadJSON = zero_payload,
     rr_QueuedAt = rq_CreatedAt req,
     rr_LastAttemptAt = None,
     rr_NextRetryAt = None,
     rr_CreatingAt = None,
     rr_RunningAt = None,
     rr_StoppingAt = None,
     rr_CompletedAt = None,
     rr_FailedAt = (if status = StatusFailed then Some now else None),
     rr_LeaseOwner = [],
     rr_LeaseExpiresAt = None,
     rr_UpdatedAt = now,
     rr_Version = 0 \<rparr>)"

text \<open>The request after the defaults of \<open>createRequest\<close>.\<close>

definition normalizeRequest :: "instant \<Rightarrow> RunnerRequest \<Rightarrow> RunnerRequest" where
  "normalizeRequest now req =
     (let id1 = sanitizeID (rq_ID req);
          name1 = sanitizeRunnerName (rq_RunnerName req)
      in req \<lparr> rq_ID := id1,
               rq_RunnerName := (if name1 = [] then ''e2b-'' @ id1 else name1),
               rq_CreatedAt := (if IsZero (rq_CreatedAt req) then now else rq_CreatedAt req),
               rq_RequestedLabels := (if rq_RequestedLabels req = [] then rq_Labels req
                                      else rq_RequestedLabels req) \<rparr>)"

text \<open>
  A row conflicts with a new one when it has its primary key or its workflow job: the insert does
  nothing then. The result is the table, whether a row was created, the state that is returned
  (\<^term>\<open>None\<close> is the zero state) and the error.
\<close>

definition row_conflicts :: "runnerRequestRecord \<Rightarrow> runnerRequestRecord \<Rightarrow> bool" where
  "row_conflicts new r \<longleftrightarrow> rr_ID r = rr_ID new \<or>
     (rr_WorkflowJobID new \<noteq> None \<and> rr_WorkflowJobID r = rr_WorkflowJobID new)"

definition createRequest ::
  "instant \<Rightarrow> RunnerRequest \<Rightarrow> github_payload \<Rightarrow> runner_status \<Rightarrow> string \<Rightarrow> string \<Rightarrow> string \<Rightarrow> requests_table
    \<Rightarrow> requests_table \<times> bool \<times> RunnerState option \<times> error option" where
  "createRequest now req0 payload status failureStage failureReason errorMessage tbl =
     (if sanitizeID (rq_ID req0) = [] then (tbl, False, None, Some (Errorf ''request id is empty''))
      else
        let req = normalizeRequest now req0;
            new = newRequestRecord now req payload status failureStage failureReason errorMessage
        in if \<exists>r\<in>set tbl. row_conflicts new r then
             (case ReadState (rq_ID req) tbl of
                Inr st \<Rightarrow> (tbl, False, Some st, None)
              | Inl e \<Rightarrow>
                  (case (if e = ErrNotFound \<and> rq_JobID req \<noteq> 0
                         then find (\<lambda>r. rr_WorkflowJobID r = Some (rq_JobID req)) tbl else None) of
                     Some conflicting \<Rightarrow> (tbl, False, Some (recordToState conflicting), Some ErrConflict)
                   | None \<Rightarrow> (tbl, False, None, Some e)))
           else (tbl @ [new], True, Some (recordToState new), None))"

definition CreateRequest ::
  "instant \<Rightarrow> RunnerRequest \<Rightarrow> github_payload \<Rightarrow> requests_table
    \<Rightarrow> requests_table \<times> bool \<times> RunnerState option \<times> error option" where
  "CreateRequest now req payload tbl = createRequest now req payload StatusQueued [] [] [] tbl"

definition CreateRejectedRequest ::
  "instant \<Rightarrow> RunnerRequest \<Rightarrow> github_payload \<Rightarrow> string \<Rightarrow> requests_table
    \<Rightarrow> requests_table \<times> bool \<times> RunnerState option \<times> error option" where
  "CreateRejectedRequest now req payload reason tbl =
     createRequest now req payload StatusFailed ''admission'' (TrimSpace reason)
       ''runner admission rejected'' tbl"

subsection \<open>Writing a state back\<close>

definition applyStateTimestamps :: "RunnerState \<Rightarrow> instant \<Rightarrow> RunnerState" where
  "applyStateTimestamps st now =
     (case rs_Status st of
        StatusQueued \<Rightarrow> st
      | StatusCreating \<Rightarrow> if IsZero (rs_CreatingAt st) then st \<lparr> rs_CreatingAt := now \<rparr> else st
      | StatusRunning \<Rightarrow>
          (let st1 = (if IsZero (rs_CreatingAt st) then st \<lparr> rs_CreatingAt := now \<rparr> else st)
           in if IsZero (rs_RunningAt st1) then st1 \<lparr> rs_RunningAt := now \<rparr> else st1)
      | StatusStopping \<Rightarrow> if IsZero (rs_StoppingAt st) then st \<lparr> rs_StoppingAt := now \<rparr> else st
      | StatusCompleted \<Rightarrow> if IsZero (rs_CompletedAt st) then st \<lparr> rs_CompletedAt := now \<rparr> else st
      | StatusFailed \<Rightarrow> if IsZero (rs_FailedAt st) then st \<lparr> rs_FailedAt := now \<rparr> else st)"

text \<open>The columns that \<open>WriteState\<close> updates.\<close>

definition write_columns :: "RunnerState \<Rightarrow> runnerRequestRecord \<Rightarrow> runnerRequestRecord" where
  "write_columns st r = r \<lparr>
       rr_Status := rs_Status st,
       rr_RepositoryFullName := rs_RepositoryFullName st,
       rr_ProfileName := rs_ProfileName st,
       rr_ProfileSource := rs_ProfileSource st,
       rr_ProfileScopeType := rs_ProfileScopeType st,
       rr_ProfileScopeID := rs_ProfileScopeID st,
       rr_RunnerGroup := rs_RunnerGroup st,
       rr_RunnerName := sanitizeRunnerName (rs_RunnerName st),
       rr_SandboxID := rs_SandboxID st,
       rr_SandboxAPIURL := TrimSpace (rs_SandboxAPIURL st),
       rr_SandboxAPIKeyEncrypted := TrimSpace (rs_SandboxAPIKeyEncrypted st),
       rr_SandboxConfigSource := TrimSpace (rs_SandboxConfigSource st),
       rr_SponsorInstallationID := rs_SponsorInstallationID st,
       rr_SponsorSourceRepositoryID := rs_SponsorSourceRepositoryID st,
       rr_SponsorSourceRepositoryFullName := TrimSpace (rs_SponsorSourceRepositoryFullName st),
       rr_SponsorAuthorizationReason := TrimSpace (rs_SponsorAuthorizationReason st),
       rr_SandboxRegion := TrimSpace (rs_SandboxRegion st),
       rr_ResolvedTemplateID := TrimSpace (rs_ResolvedTemplateID st),
       rr_TemplateVersion := TrimSpace (rs_TemplateVersion st),
       rr_RunnerVersion := TrimSpace (rs_RunnerVersion st),
       rr_EffectiveRunnerVersion := TrimSpace (rs_EffectiveRunnerVersion st),
       rr_ProcessPID := rs_ProcessPID st,
       rr_AssignedJobID := rs_AssignedJobID st,
       rr_AssignedJobName := rs_AssignedJobName st,
       rr_TerminationSource := TrimSpace (rs_TerminationSource st),
       rr_RunnerExitCode := rs_RunnerExitCode st,
       rr_GitHubJobName := TrimSpace (rs_GitHubJobName st),
       rr_GitHubJobStatus := TrimSpace (rs_GitHubJobStatus st),
       rr_GitHubJobConclusion := TrimSpace (rs_GitHubJobConclusion st),
       rr_GitHubJobRunnerName := TrimSpace (rs_GitHubJobRunnerName st),
       rr_GitHubJobObservedAt := zeroTimeToPointer (rs_GitHubJobObservedAt st),
       rr_Error := rs_Error st,
       rr_FailureStage := rs_FailureStage st,
       rr_FailureReason := rs_FailureReason st,
       rr_LastErrorCode := rs_LastErrorCode st,
       rr_LastErrorMessage := rs_LastErrorMessage st,
       rr_LastErrorRetryable := rs_LastErrorRetryable st,
       rr_RetryCount := rs_RetryCount st,
       rr_UpdatedAt := rs_UpdatedAt st,
       rr_Version := rs_Version st + 1,
       rr_LastAttemptAt := zeroTimeToPointer (rs_LastAttemptAt st),
       rr_NextRetryAt := zeroTimeToPointer (rs_NextRetryAt st),
       rr_CreatingAt := zeroTimeToPointer (rs_CreatingAt st),
       rr_RunningAt := zeroTimeToPointer (rs_RunningAt st),
       rr_StoppingAt := zeroTimeToPointer (rs_StoppingAt st),
       rr_CompletedAt := zeroTimeToPointer (rs_CompletedAt st),
       rr_FailedAt := zeroTimeToPointer (rs_FailedAt st),
       rr_LeaseOwner := rs_LeaseOwner st,
       rr_LeaseExpiresAt := zeroTimeToPointer (rs_LeaseExpiresAt st) \<rparr>"

definition WriteState :: "instant \<Rightarrow> RunnerState \<Rightarrow> requests_table \<Rightarrow> requests_table result" where
  "WriteState now st0 tbl =
     (let st1 = st0 \<lparr> rs_ID := sanitizeID (rs_ID st0) \<rparr>
      in if rs_ID st1 = [] then Inl (Errorf ''request id is empty'')
         else
           let st = applyStateTimestamps (st1 \<lparr> rs_UpdatedAt := now \<rparr>) now;
               P = (\<lambda>r. rr_ID r = rs_ID st \<and> rr_Version r = rs_Version st)
           in if rows_affected P tbl = 0 then Inl ErrConflict
              else Inr (update_where P (write_columns st) tbl))"

subsection \<open>Claims, leases and retries\<close>

definition retry_due :: "instant \<Rightarrow> runnerRequestRecord \<Rightarrow> bool" where
  "retry_due now r \<longleftrightarrow> (case rr_NextRetryAt r of None \<Rightarrow> True | Some t \<Rightarrow> t \<le> now)"

definition lease_free :: "instant \<Rightarrow> runnerRequestRecord \<Rightarrow> bool" where
  "lease_free now r \<longleftrightarrow> (case rr_LeaseExpiresAt r of None \<Rightarrow> True | Some t \<Rightarrow> t \<le> now)"

definition runnable :: "instant \<Rightarrow> runnerRequestRecord \<Rightarrow> bool" where
  "runnable now r \<longleftrightarrow> rr_Status r = StatusQueued \<and> retry_due now r \<and> lease_free now r"

definition claim_key :: "runnerRequestRecord \<Rightarrow> instant \<times> instant \<times> string" where
  "claim_key r = ((case rr_NextRetryAt r of None \<Rightarrow> rr_QueuedAt r | Some t \<Rightarrow> t), rr_QueuedAt r, rr_ID r)"

definition ClaimNextRunnable ::
  "string \<Rightarrow> instant \<Rightarrow> duration \<Rightarrow> requests_table
    \<Rightarrow> requests_table \<times> ((RunnerRequest \<times> RunnerState) option) result" where
  "ClaimNextRunnable workerID0 now leaseTTL tbl =
     (let workerID = TrimSpace workerID0
      in if workerID = [] then (tbl, Inl (Errorf ''worker id is required''))
         else
           let leaseExpiresAt = now + leaseTTL
           in case sort_key claim_key (filter (runnable now) tbl) of
                [] \<Rightarrow> (tbl, Inr None)
              | candidate # _ \<Rightarrow>
                  let P = (\<lambda>r. rr_ID r = rr_ID candidate \<and> rr_Status r = StatusQueued \<and> lease_free now r)
                  in if rows_affected P tbl = 0 then (tbl, Inr None)
                     else
                       let tbl' = update_where P (\<lambda>r. r \<lparr> rr_LeaseOwner := workerID,
                                    rr_LeaseExpiresAt := Some leaseExpiresAt,
                                    rr_LastAttemptAt := Some now,
                                    rr_UpdatedAt := now,
                                    rr_Version := rr_Version candidate + 1 \<rparr>) tbl
                       in case find (\<lambda>r. rr_ID r = rr_ID candidate) tbl' of
                            None \<Rightarrow> (tbl, Inr None)
                          | Some claimed \<Rightarrow>
                              (case recordToRequest claimed of
                                 Inl e \<Rightarrow> (tbl', Inl e)
                               | Inr req \<Rightarrow> (tbl', Inr (Some (req, recordToState claimed)))))"

definition ReleaseLease :: "string \<Rightarrow> string \<Rightarrow> requests_table \<Rightarrow> requests_table" where
  "ReleaseLease id0 workerID tbl =
     update_where (\<lambda>r. rr_ID r = sanitizeID id0 \<and> rr_LeaseOwner r = TrimSpace workerID)
       (\<lambda>r. r \<lparr> rr_LeaseOwner := [], rr_LeaseExpiresAt := None \<rparr>) tbl"

text \<open>The fields that \<open>RetryRequest\<close> resets before it writes them.\<close>

definition reset_for_retry :: "instant \<Rightarrow> runnerRequestRecord \<Rightarrow> runnerRequestRecord" where
  "reset_for_retry now r = r \<lparr>
       rr_Status := StatusQueued,
       rr_Error := [],
       rr_FailureStage := [],
       rr_FailureReason := [],
       rr_LastErrorCode := [],
       rr_LastErrorMessage := [],
       rr_LastErrorRetryable := False,
       rr_SandboxID := [],
       rr_SandboxRegion := [],
       rr_ResolvedTemplateID := [],
       rr_TemplateVersion := [],
       rr_RunnerVersion := [],
       rr_EffectiveRunnerVersion := [],
       rr_ProcessPID := 0,
       rr_AssignedJobID := 0,
       rr_AssignedJobName := [],
       rr_TerminationSource := [],
       rr_RunnerExitCode := None,
       rr_NextRetryAt := None,
       rr_LeaseOwner := [],
       rr_LeaseExpiresAt := None,
       rr_CreatingAt := None,
       rr_RunningAt := None,
       rr_StoppingAt := None,
       rr_CompletedAt := None,
       rr_FailedAt := None,
       rr_SandboxAPIURL := [],
       rr_SandboxAPIKeyEncrypted := [],
       rr_SandboxConfigSource := [],
       rr_SponsorInstallationID := 0,
       rr_SponsorSourceRepositoryID := 0,
       rr_SponsorSourceRepositoryFullName := [],
       rr_SponsorAuthorizationReason := [],
       rr_UpdatedAt := now,
       rr_Version := rr_Version r + 1 \<rparr>"

text \<open>The columns of the update statement of \<open>RetryRequest\<close>.\<close>

definition retry_columns :: "runnerRequestRecord \<Rightarrow> runnerRequestRecord \<Rightarrow> runnerRequestRecord" where
  "retry_columns record r = r \<lparr>
       rr_Status := rr_Status record,
       rr_Error := rr_Error record,
       rr_FailureStage := rr_FailureStage record,
       rr_FailureReason := rr_FailureReason record,
       rr_LastErrorCode := rr_LastErrorCode record,
       rr_LastErrorMessage := rr_LastErrorMessage record,
       rr_LastErrorRetryable := rr_LastErrorRetryable record,
       rr_SandboxID := rr_SandboxID record,
       rr_SandboxRegion := rr_SandboxRegion record,
       rr_ResolvedTemplateID := rr_ResolvedTemplateID record,
       rr_TemplateVersion := rr_TemplateVersion record,
       rr_RunnerVersion := rr_RunnerVersion record,
       rr_EffectiveRunnerVersion := rr_EffectiveRunnerVersion record,
       rr_ProcessPID := rr_ProcessPID record,
       rr_AssignedJobID := rr_AssignedJobID record,
       rr_AssignedJobName := rr_AssignedJobName record,
       rr_TerminationSource := rr_TerminationSource record,
       rr_RunnerExitCode := rr_RunnerExitCode record,
       rr_NextRetryAt := None,
       rr_LeaseOwner := rr_LeaseOwner record,
       rr_LeaseExpiresAt := None,
       rr_CreatingAt := None,
       rr_RunningAt := None,
       rr_StoppingAt := None,
       rr_CompletedAt := None,
       rr_FailedAt := None,
       rr_SandboxAPIURL := rr_SandboxAPIURL record,
       rr_SandboxAPIKeyEncrypted := rr_SandboxAPIKeyEncrypted record,
       rr_SandboxConfigSource := rr_SandboxConfigSource record,
       rr_SponsorInstallationID := rr_SponsorInstallationID record,
       rr_SponsorSourceRepositoryID := rr_SponsorSourceRepositoryID record,
       rr_SponsorSourceRepositoryFullName := rr_SponsorSourceRepositoryFullName record,
       rr_SponsorAuthorizationReason := rr_SponsorAuthorizationReason record,
       rr_UpdatedAt := rr_UpdatedAt record,
       rr_Version := rr_Version record \<rparr>"

definition retry_allowed :: "runnerRequestRecord \<Rightarrow> bool" where
  "retry_allowed r = (case rr_Status r of
       StatusFailed \<Rightarrow> True
     | StatusQueued \<Rightarrow> rr_NextRetryAt r \<noteq> None \<and> rr_LastErrorRetryable r
     | _ \<Rightarrow> False)"

definition RetryRequest :: "string \<Rightarrow> instant \<Rightarrow> requests_table \<Rightarrow> requests_table \<times> RunnerState result" where
  "RetryRequest id0 now tbl =
     (let id1 = sanitizeID id0
      in case find (\<lambda>r. rr_ID r = id1) tbl of
           None \<Rightarrow> (tbl, Inl ErrRecordNotFound)
         | Some r0 \<Rightarrow>
             if \<not> retry_allowed r0 then (tbl, Inl ErrRetryNotAllowed)
             else
               let record = reset_for_retry now r0;
                   tbl' = update_where (\<lambda>r. rr_ID r = rr_ID record \<and> rr_Version r = rr_Version record - 1)
                            (retry_columns record) tbl
               in case find (\<lambda>r. rr_ID r = id1) tbl' of
                    None \<Rightarrow> (tbl, Inl ErrRecordNotFound)
                  | Some saved \<Rightarrow> (tbl', Inr (recordToState saved)))"

subsection \<open>Facts on rows and updates\<close>

lemma find_update_where:
  "(\<And>r. P r \<Longrightarrow> Q (f r) = Q r) \<Longrightarrow>
    find Q (update_where P f tbl) = map_option (\<lambda>r. if P r then f r else r) (find Q tbl)"
  by (induction tbl) (auto simp: update_where_def)

lemma update_where_simps [simp]:
  "update_where P f [] = []"
  "update_where P f (r # tbl) = (if P r then f r else r) # update_where P f tbl"
  "length (update_where P f tbl) = length tbl"
  by (auto simp: update_where_def)

lemma set_update_where: "set (update_where P f tbl) = (\<lambda>r. if P r then f r else r) ` set tbl"
  by (simp add: update_where_def)

lemma map_update_where: "(\<And>r. P r \<Longrightarrow> g (f r) = g r) \<Longrightarrow> map g (update_where P f tbl) = map g tbl"
  by (induction tbl) auto

lemma rows_affected_zero: "rows_affected P tbl = 0 \<longleftrightarrow> (\<forall>r\<in>set tbl. \<not> P r)"
  by (auto simp: rows_affected_def count_rows_def filter_empty_conv)

lemma find_unique:
  "distinct (map g tbl) \<Longrightarrow> r \<in> set tbl \<Longrightarrow> find (\<lambda>x. g x = g r) tbl = Some r"
  by (induction tbl) (auto simp: rev_image_eqI)

lemma find_SomeD: "find P tbl = Some r \<Longrightarrow> P r \<and> r \<in> set tbl"
  by (induction tbl) (auto split: if_splits)

lemma find_NoneD: "find P tbl = None \<Longrightarrow> r \<in> set tbl \<Longrightarrow> \<not> P r"
  by (induction tbl) (auto split: if_splits)

subsection \<open>The table invariant\<close>

text \<open>
  The primary key and the unique index on the workflow job, sanitized identifiers, versions that
  count from 0. The job column never holds 0: a request without a job stores null.
\<close>

definition row_wf :: "runnerRequestRecord \<Rightarrow> bool" where
  "row_wf r \<longleftrightarrow> rr_ID r \<noteq> [] \<and> sanitizeID (rr_ID r) = rr_ID r \<and> rr_WorkflowJobID r \<noteq> Some 0 \<and> 0 \<le> rr_Version r"

definition table_ok :: "requests_table \<Rightarrow> bool" where
  "table_ok tbl \<longleftrightarrow> distinct (map rr_ID tbl)
     \<and> distinct (filter (\<lambda>j. j \<noteq> None) (map rr_WorkflowJobID tbl))
     \<and> (\<forall>r\<in>set tbl. row_wf r)"

lemma table_ok_update [inv_intros]:
  assumes "table_ok tbl"
    and "\<And>r. P r \<Longrightarrow> rr_ID (f r) = rr_ID r"
    and "\<And>r. P r \<Longrightarrow> rr_WorkflowJobID (f r) = rr_WorkflowJobID r"
    and "\<And>r. r \<in> set tbl \<Longrightarrow> P r \<Longrightarrow> 0 \<le> rr_Version (f r)"
  shows "table_ok (update_where P f tbl)"
  using assms by (auto simp: table_ok_def map_update_where set_update_where row_wf_def)

lemma table_ok_version: "table_ok tbl \<Longrightarrow> r \<in> set tbl \<Longrightarrow> 0 \<le> rr_Version r"
  by (simp add: table_ok_def row_wf_def)

lemma table_ok_find_id: "table_ok tbl \<Longrightarrow> r \<in> set tbl \<Longrightarrow> find (\<lambda>x. rr_ID x = rr_ID r) tbl = Some r"
  by (simp add: table_ok_def find_unique)

lemma table_ok_id_unique: "table_ok tbl \<Longrightarrow> r \<in> set tbl \<Longrightarrow> r' \<in> set tbl \<Longrightarrow> rr_ID r = rr_ID r' \<Longrightarrow> r = r'"
  by (auto simp: table_ok_def distinct_map inj_on_def)

lemma readRecord_iff:
  "table_ok tbl \<Longrightarrow> readRecord i tbl = Inr r \<longleftrightarrow> r \<in> set tbl \<and> rr_ID r = sanitizeID i"
  using table_ok_find_id [of tbl r] find_SomeD [of _ tbl r]
  by (auto simp: readRecord_def split: option.splits)

subsection \<open>What an operation does to a row\<close>

lemma write_columns_simps [simp]:
  "rr_ID (write_columns st r) = rr_ID r"
  "rr_WorkflowJobID (write_columns st r) = rr_WorkflowJobID r"
  "rr_Version (write_columns st r) = rs_Version st + 1"
  "rr_Status (write_columns st r) = rs_Status st"
  "rr_QueuedAt (write_columns st r) = rr_QueuedAt r"
  "rr_LabelsJSON (write_columns st r) = rr_LabelsJSON r"
  "rr_RequestedLabelsJSON (write_columns st r) = rr_RequestedLabelsJSON r"
  "rr_RepositoryFullName (write_columns st r) = rs_RepositoryFullName st"
  "rr_ProfileName (write_columns st r) = rs_ProfileName st"
  "rr_ProfileSource (write_columns st r) = rs_ProfileSource st"
  "rr_ProfileScopeType (write_columns st r) = rs_ProfileScopeType st"
  "rr_ProfileScopeID (write_columns st r) = rs_ProfileScopeID st"
  by (simp_all add: write_columns_def)

lemma applyStateTimestamps_simps [simp]:
  "rs_ID (applyStateTimestamps st now) = rs_ID st"
  "rs_Version (applyStateTimestamps st now) = rs_Version st"
  "rs_Status (applyStateTimestamps st now) = rs_Status st"
  "rs_RepositoryFullName (applyStateTimestamps st now) = rs_RepositoryFullName st"
  "rs_ProfileName (applyStateTimestamps st now) = rs_ProfileName st"
  "rs_ProfileSource (applyStateTimestamps st now) = rs_ProfileSource st"
  "rs_ProfileScopeType (applyStateTimestamps st now) = rs_ProfileScopeType st"
  "rs_ProfileScopeID (applyStateTimestamps st now) = rs_ProfileScopeID st"
  by (cases "rs_Status st"; simp add: applyStateTimestamps_def Let_def)+

text \<open>The state that \<open>WriteState\<close> writes, and its accepted and refused branches.\<close>

definition stamped :: "instant \<Rightarrow> RunnerState \<Rightarrow> RunnerState" where
  "stamped now st = applyStateTimestamps (st \<lparr> rs_ID := sanitizeID (rs_ID st), rs_UpdatedAt := now \<rparr>) now"

lemma stamped_simps [simp]:
  "rs_ID (stamped now st) = sanitizeID (rs_ID st)"
  "rs_Version (stamped now st) = rs_Version st"
  "rs_Status (stamped now st) = rs_Status st"
  "rs_RepositoryFullName (stamped now st) = rs_RepositoryFullName st"
  "rs_ProfileName (stamped now st) = rs_ProfileName st"
  "rs_ProfileSource (stamped now st) = rs_ProfileSource st"
  "rs_ProfileScopeType (stamped now st) = rs_ProfileScopeType st"
  "rs_ProfileScopeID (stamped now st) = rs_ProfileScopeID st"
  by (simp_all add: stamped_def)

definition write_target :: "RunnerState \<Rightarrow> runnerRequestRecord \<Rightarrow> bool" where
  "write_target st r \<longleftrightarrow> rr_ID r = sanitizeID (rs_ID st) \<and> rr_Version r = rs_Version st"

lemma WriteState_cases:
  "WriteState now st tbl =
     (if sanitizeID (rs_ID st) = [] then Inl (Errorf ''request id is empty'')
      else if \<exists>r\<in>set tbl. write_target st r
        then Inr (update_where (write_target st) (write_columns (stamped now st)) tbl)
      else Inl ErrConflict)"
  by (auto simp: WriteState_def Let_def rows_affected_zero write_target_def [abs_def] stamped_def [symmetric])

lemma WriteState_Inr_iff:
  "table_ok tbl \<Longrightarrow> WriteState now st tbl = Inr tbl' \<longleftrightarrow>
     (\<exists>r\<in>set tbl. write_target st r)
       \<and> tbl' = update_where (write_target st) (write_columns (stamped now st)) tbl"
  by (auto simp: WriteState_cases table_ok_def row_wf_def write_target_def)

lemma table_ok_WriteState [inv_intros]:
  "table_ok tbl \<Longrightarrow> WriteState now st tbl = Inr tbl' \<Longrightarrow> table_ok tbl'"
proof -
  assume ok: "table_ok tbl" and w: "WriteState now st tbl = Inr tbl'"
  have "0 \<le> rs_Version st + 1" if "r \<in> set tbl" "write_target st r" for r
    using ok that by (auto simp: table_ok_def row_wf_def write_target_def)
  then show ?thesis using ok w by (auto simp: WriteState_Inr_iff intro!: table_ok_update)
qed

lemma newRequestRecord_simps [simp]:
  "rr_ID (newRequestRecord now req p s a b c) = rq_ID req"
  "rr_WorkflowJobID (newRequestRecord now req p s a b c) = (if rq_JobID req \<noteq> 0 then Some (rq_JobID req) else None)"
  "rr_Version (newRequestRecord now req p s a b c) = 0"
  "rr_Status (newRequestRecord now req p s a b c) = s"
  by (simp_all add: newRequestRecord_def Let_def)

lemma normalizeRequest_simps [simp]:
  "rq_ID (normalizeRequest now req) = sanitizeID (rq_ID req)"
  "rq_JobID (normalizeRequest now req) = rq_JobID req"
  by (simp_all add: normalizeRequest_def Let_def)

text \<open>\<open>createRequest\<close> either adds exactly one row with a fresh key and job, or changes nothing.\<close>

lemma createRequest_cases:
  obtains (created) new where
      "createRequest now req p s a b c tbl = (tbl @ [new], True, Some (recordToState new), None)"
      "\<forall>r\<in>set tbl. \<not> row_conflicts new r" "sanitizeID (rq_ID req) \<noteq> []"
      "new = newRequestRecord now (normalizeRequest now req) p s a b c"
  | (existing) st err where "createRequest now req p s a b c tbl = (tbl, False, st, err)"
proof (cases "sanitizeID (rq_ID req) = [] \<or>
    (\<exists>r\<in>set tbl. row_conflicts (newRequestRecord now (normalizeRequest now req) p s a b c) r)")
  case True
  then have "\<exists>st err. createRequest now req p s a b c tbl = (tbl, False, st, err)"
    by (auto simp: createRequest_def Let_def split: sum.split option.split)
  then show ?thesis using existing by blast
next
  case False
  then show ?thesis using created by (simp add: createRequest_def Let_def)
qed

lemma table_ok_append:
  "table_ok tbl \<Longrightarrow> row_wf new \<Longrightarrow> \<forall>r\<in>set tbl. \<not> row_conflicts new r \<Longrightarrow> table_ok (tbl @ [new])"
  by (auto simp: table_ok_def row_conflicts_def)

lemma table_ok_createRequest [inv_intros]:
  "table_ok tbl \<Longrightarrow> table_ok (fst (createRequest now req p s a b c tbl))"
proof (cases rule: createRequest_cases [of now req p s a b c tbl])
  case (created new)
  assume "table_ok tbl"
  moreover have "row_wf new" using created(3,4) by (simp add: row_wf_def)
  ultimately show ?thesis using created(1,2) table_ok_append by simp
qed simp

subsection \<open>Claims\<close>

lemma sort_key_hd:
  assumes "sort_key k xs = c # cs"
  shows "c \<in> set xs \<and> (\<forall>x\<in>set xs. k c \<le> k x)"
proof -
  have "set xs = set (c # cs)" using assms by (metis set_sort)
  moreover have "sorted (map k (c # cs))" using assms by (metis sorted_sort_key)
  ultimately show ?thesis by auto
qed

definition claim_row :: "string \<Rightarrow> instant \<Rightarrow> duration \<Rightarrow> runnerRequestRecord \<Rightarrow> runnerRequestRecord" where
  "claim_row workerID now leaseTTL r = r \<lparr> rr_LeaseOwner := TrimSpace workerID,
     rr_LeaseExpiresAt := Some (now + leaseTTL), rr_LastAttemptAt := Some now,
     rr_UpdatedAt := now, rr_Version := rr_Version r + 1 \<rparr>"

text \<open>What a claim does, on a table that satisfies the invariant.\<close>

lemma ClaimNextRunnable_cases:
  assumes ok: "table_ok tbl" and w: "TrimSpace w \<noteq> []"
  obtains (none) "ClaimNextRunnable w now ttl tbl = (tbl, Inr None)" "\<forall>r\<in>set tbl. \<not> runnable now r"
  | (claimed) c where "c \<in> set tbl" "runnable now c" "\<forall>r\<in>set tbl. runnable now r \<longrightarrow> claim_key c \<le> claim_key r"
      "ClaimNextRunnable w now ttl tbl =
        (update_where (\<lambda>r. r = c) (claim_row w now ttl) tbl,
         case recordToRequest (claim_row w now ttl c) of
           Inl e \<Rightarrow> Inl e | Inr req \<Rightarrow> Inr (Some (req, recordToState (claim_row w now ttl c))))"
proof (cases "sort_key claim_key (filter (runnable now) tbl)")
  case Nil
  then have "filter (runnable now) tbl = []" by (metis length_0_conv length_sort)
  then show ?thesis using none w Nil by (simp add: ClaimNextRunnable_def Let_def filter_empty_conv)
next
  case (Cons c cs)
  have c: "c \<in> set tbl" "runnable now c" "\<forall>r\<in>set tbl. runnable now r \<longrightarrow> claim_key c \<le> claim_key r"
    using sort_key_hd [OF Cons] by auto
  let ?P = "\<lambda>r. rr_ID r = rr_ID c \<and> rr_Status r = StatusQueued \<and> lease_free now r"
  let ?f = "\<lambda>r. r \<lparr> rr_LeaseOwner := TrimSpace w, rr_LeaseExpiresAt := Some (now + ttl),
                 rr_LastAttemptAt := Some now, rr_UpdatedAt := now, rr_Version := rr_Version c + 1 \<rparr>"
  have "?P c" using c(2) by (simp add: runnable_def)
  then have hit: "rows_affected ?P tbl \<noteq> 0" using c(1) by (auto simp: rows_affected_zero)
  have only: "?P r \<longleftrightarrow> r = c" if "r \<in> set tbl" for r
    using table_ok_id_unique [OF ok that c(1)] \<open>?P c\<close> by auto
  have upd: "update_where ?P ?f tbl = update_where (\<lambda>r. r = c) (claim_row w now ttl) tbl"
    using only by (auto simp: update_where_def claim_row_def)
  have fnd: "find (\<lambda>r. rr_ID r = rr_ID c) (update_where (\<lambda>r. r = c) (claim_row w now ttl) tbl)
      = Some (claim_row w now ttl c)"
    by (subst find_update_where) (auto simp: claim_row_def table_ok_find_id [OF ok c(1)])
  show ?thesis
    using claimed [OF c] w hit Cons by (simp add: ClaimNextRunnable_def Let_def upd fnd split: sum.splits)
qed

lemma ClaimNextRunnable_blank: "TrimSpace w = [] \<Longrightarrow>
    ClaimNextRunnable w now ttl tbl = (tbl, Inl (Errorf ''worker id is required''))"
  by (simp add: ClaimNextRunnable_def)

lemma table_ok_ClaimNextRunnable [inv_intros]:
  assumes "table_ok tbl" shows "table_ok (fst (ClaimNextRunnable w now ttl tbl))"
proof (cases "TrimSpace w = []")
  case False
  from assms False show ?thesis
  proof (cases rule: ClaimNextRunnable_cases [where now = now and ttl = ttl])
    case (claimed c)
    then have "0 \<le> rr_Version c" using assms table_ok_version by blast
    then show ?thesis using claimed(4) assms by (auto simp: claim_row_def intro!: table_ok_update)
  qed (use assms in simp)
qed (use assms in \<open>simp add: ClaimNextRunnable_blank\<close>)

lemma table_ok_ReleaseLease [inv_intros]: "table_ok tbl \<Longrightarrow> table_ok (ReleaseLease i w tbl)"
  by (auto simp: ReleaseLease_def intro!: table_ok_update intro: table_ok_version)

subsection \<open>Retries\<close>

lemma retry_columns_reset: "retry_columns (reset_for_retry now r) r = reset_for_retry now r"
  by (simp add: retry_columns_def reset_for_retry_def)

lemma RetryRequest_cases:
  assumes ok: "table_ok tbl"
  obtains (missing) "RetryRequest i now tbl = (tbl, Inl ErrRecordNotFound)" "\<forall>r\<in>set tbl. rr_ID r \<noteq> sanitizeID i"
  | (refused) r where "r \<in> set tbl" "rr_ID r = sanitizeID i" "\<not> retry_allowed r"
      "RetryRequest i now tbl = (tbl, Inl ErrRetryNotAllowed)"
  | (retried) r where "r \<in> set tbl" "rr_ID r = sanitizeID i" "retry_allowed r"
      "RetryRequest i now tbl = (update_where (\<lambda>x. x = r) (reset_for_retry now) tbl,
         Inr (recordToState (reset_for_retry now r)))"
proof (cases "find (\<lambda>r. rr_ID r = sanitizeID i) tbl")
  case None
  then show ?thesis using missing find_NoneD [OF None] by (simp add: RetryRequest_def Let_def)
next
  case (Some r)
  then have r: "r \<in> set tbl" "rr_ID r = sanitizeID i" using find_SomeD [OF Some] by auto
  show ?thesis
  proof (cases "retry_allowed r")
    case False
    then show ?thesis using refused [OF r] Some by (simp add: RetryRequest_def Let_def)
  next
    case True
    let ?rec = "reset_for_retry now r"
    let ?P = "\<lambda>x. rr_ID x = rr_ID ?rec \<and> rr_Version x = rr_Version ?rec - 1"
    have "?P x \<longleftrightarrow> x = r" if "x \<in> set tbl" for x
      using table_ok_id_unique [OF ok that r(1)] by (auto simp: reset_for_retry_def)
    then have upd: "update_where ?P (retry_columns ?rec) tbl = update_where (\<lambda>x. x = r) (reset_for_retry now) tbl"
      by (auto simp: update_where_def retry_columns_reset)
    have fnd: "find (\<lambda>x. rr_ID x = sanitizeID i) (update_where (\<lambda>x. x = r) (reset_for_retry now) tbl) = Some ?rec"
      by (subst find_update_where) (auto simp: Some reset_for_retry_def)
    show ?thesis using retried [OF r True] Some True by (simp add: RetryRequest_def Let_def upd fnd)
  qed
qed

lemma table_ok_RetryRequest [inv_intros]:
  assumes "table_ok tbl" shows "table_ok (fst (RetryRequest i now tbl))"
  using assms
proof (cases rule: RetryRequest_cases [where i = i and now = now])
  case (retried r)
  then have "0 \<le> rr_Version r" using assms table_ok_version by blast
  then show ?thesis using retried assms by (auto simp: reset_for_retry_def intro!: table_ok_update)
qed (use assms in simp_all)

subsection \<open>Sequences of operations\<close>

datatype store_op =
    OpCreate instant RunnerRequest github_payload
  | OpReject instant RunnerRequest github_payload string
  | OpWrite instant RunnerState
  | OpClaim string instant duration
  | OpRelease string string
  | OpRetry string instant

fun run_op :: "store_op \<Rightarrow> requests_table \<Rightarrow> requests_table" where
  "run_op (OpCreate now req p) tbl = fst (CreateRequest now req p tbl)"
| "run_op (OpReject now req p reason) tbl = fst (CreateRejectedRequest now req p reason tbl)"
| "run_op (OpWrite now st) tbl = (case WriteState now st tbl of Inl _ \<Rightarrow> tbl | Inr tbl' \<Rightarrow> tbl')"
| "run_op (OpClaim w now ttl) tbl = fst (ClaimNextRunnable w now ttl tbl)"
| "run_op (OpRelease i w) tbl = ReleaseLease i w tbl"
| "run_op (OpRetry i now) tbl = fst (RetryRequest i now tbl)"

text \<open>The clock of an operation is after Go's zero instant, and leases do not end in the past.\<close>

fun op_clock_ok :: "store_op \<Rightarrow> bool" where
  "op_clock_ok (OpCreate now _ _) = (0 < now)"
| "op_clock_ok (OpReject now _ _ _) = (0 < now)"
| "op_clock_ok (OpWrite now _) = (0 < now)"
| "op_clock_ok (OpClaim _ now ttl) = (0 < now \<and> 0 \<le> ttl)"
| "op_clock_ok (OpRelease _ _) = True"
| "op_clock_ok (OpRetry _ now) = (0 < now)"

lemma table_ok_run_op [inv_intros]: "table_ok tbl \<Longrightarrow> table_ok (run_op op tbl)"
  by (cases op) (auto simp: CreateRequest_def CreateRejectedRequest_def split: sum.split intro: inv_intros)

lemma table_ok_run_ops: "table_ok tbl \<Longrightarrow> table_ok (fold run_op ops tbl)"
  by (induction ops arbitrary: tbl) (auto intro: table_ok_run_op)

lemma table_ok_Nil [simp]: "table_ok []"
  by (simp add: table_ok_def)

text \<open>
  How a row may change: its version grows, or it keeps its version and at most its lease is
  released. A row never disappears.
\<close>

definition lease_clear :: "runnerRequestRecord \<Rightarrow> runnerRequestRecord" where
  "lease_clear r = r \<lparr> rr_LeaseOwner := [], rr_LeaseExpiresAt := None \<rparr>"

definition row_evolves :: "runnerRequestRecord \<Rightarrow> runnerRequestRecord \<Rightarrow> bool" where
  "row_evolves r r' \<longleftrightarrow> rr_ID r' = rr_ID r \<and> rr_WorkflowJobID r' = rr_WorkflowJobID r
     \<and> rr_LabelsJSON r' = rr_LabelsJSON r \<and> rr_RequestedLabelsJSON r' = rr_RequestedLabelsJSON r
     \<and> (rr_Version r < rr_Version r' \<or> (rr_Version r = rr_Version r' \<and> lease_clear r' = lease_clear r))"

lemma row_evolves_refl [simp]: "row_evolves r r"
  by (simp add: row_evolves_def)

lemma row_evolves_trans: "row_evolves a b \<Longrightarrow> row_evolves b c \<Longrightarrow> row_evolves a c"
  by (auto simp: row_evolves_def)

lemma update_where_evolves:
  "r \<in> set tbl \<Longrightarrow> (P r \<Longrightarrow> row_evolves r (f r)) \<Longrightarrow> \<exists>r'\<in>set (update_where P f tbl). row_evolves r r'"
  by (cases "P r") (auto simp: set_update_where intro!: bexI [of _ "if P r then f r else r"])

lemma run_op_evolves:
  assumes ok: "table_ok tbl" and r: "r \<in> set tbl"
  shows "\<exists>r'\<in>set (run_op op tbl). row_evolves r r'"
proof (cases op)
  case (OpCreate now req p)
  show ?thesis
    by (cases rule: createRequest_cases [of now req p StatusQueued "[]" "[]" "[]" tbl])
       (use r in \<open>auto simp: OpCreate CreateRequest_def intro!: bexI [of _ r]\<close>)
next
  case (OpReject now req p reason)
  show ?thesis
    by (cases rule: createRequest_cases [of now req p StatusFailed "''admission''" "TrimSpace reason"
          "''runner admission rejected''" tbl])
       (use r in \<open>auto simp: OpReject CreateRejectedRequest_def intro!: bexI [of _ r]\<close>)
next
  case (OpWrite now st)
  show ?thesis
  proof (cases "WriteState now st tbl")
    case (Inr tbl')
    then have "tbl' = update_where (write_target st) (write_columns (stamped now st)) tbl"
      using ok by (simp add: WriteState_Inr_iff)
    moreover have "\<exists>r'\<in>set (update_where (write_target st) (write_columns (stamped now st)) tbl). row_evolves r r'"
      using r by (rule update_where_evolves) (auto simp: row_evolves_def write_target_def)
    ultimately show ?thesis using OpWrite Inr by simp
  qed (use OpWrite r row_evolves_refl in \<open>auto intro: bexI [of _ r]\<close>)
next
  case (OpClaim w now ttl)
  show ?thesis
  proof (cases "TrimSpace w = []")
    case False
    from ok False show ?thesis
    proof (cases rule: ClaimNextRunnable_cases [where now = now and ttl = ttl])
      case (claimed c)
      have "\<exists>r'\<in>set (update_where (\<lambda>r. r = c) (claim_row w now ttl) tbl). row_evolves r r'"
        using r by (rule update_where_evolves) (auto simp: row_evolves_def claim_row_def)
      then show ?thesis using OpClaim claimed(4) by simp
    qed (use OpClaim r in \<open>auto intro: bexI [of _ r]\<close>)
  qed (use OpClaim r in \<open>auto simp: ClaimNextRunnable_blank intro: bexI [of _ r]\<close>)
next
  case (OpRelease i w)
  have "\<exists>r'\<in>set (ReleaseLease i w tbl). row_evolves r r'"
    unfolding ReleaseLease_def using r by (rule update_where_evolves) (auto simp: row_evolves_def lease_clear_def)
  then show ?thesis using OpRelease by simp
next
  case (OpRetry i now)
  from ok show ?thesis
  proof (cases rule: RetryRequest_cases [where i = i and now = now])
    case (retried c)
    have "\<exists>r'\<in>set (update_where (\<lambda>x. x = c) (reset_for_retry now) tbl). row_evolves r r'"
      using r by (rule update_where_evolves) (auto simp: row_evolves_def reset_for_retry_def)
    then show ?thesis using OpRetry retried(4) by simp
  qed (use OpRetry r in \<open>auto intro: bexI [of _ r]\<close>)
qed

lemma run_ops_evolve:
  "table_ok tbl \<Longrightarrow> r \<in> set tbl \<Longrightarrow> \<exists>r'\<in>set (fold run_op ops tbl). row_evolves r r'"
proof (induction ops arbitrary: tbl r)
  case (Cons op ops)
  then show ?case
    using run_op_evolves [of tbl r op] table_ok_run_op [of tbl op] row_evolves_trans by (metis fold_simps(2))
qed (simp, use row_evolves_refl in blast)

subsection \<open>The conditional write as a versioned table\<close>

definition request_lookup :: "requests_table \<Rightarrow> string \<Rightarrow> runnerRequestRecord option" where
  "request_lookup tbl i = find (\<lambda>r. rr_ID r = i) tbl"

definition request_cas :: "instant \<times> RunnerState \<Rightarrow> requests_table \<Rightarrow> requests_table option" where
  "request_cas w tbl = (case WriteState (fst w) (snd w) tbl of Inl _ \<Rightarrow> None | Inr tbl' \<Rightarrow> Some tbl')"

definition request_key :: "instant \<times> RunnerState \<Rightarrow> string" where
  "request_key w = sanitizeID (rs_ID (snd w))"

definition request_expected :: "instant \<times> RunnerState \<Rightarrow> int" where
  "request_expected w = rs_Version (snd w)"

lemma request_lookup_iff:
  "table_ok tbl \<Longrightarrow> request_lookup tbl i = Some r \<longleftrightarrow> r \<in> set tbl \<and> rr_ID r = i"
  using table_ok_find_id [of tbl r] find_SomeD [of _ tbl r] by (auto simp: request_lookup_def)

lemma request_cas_Some:
  "table_ok tbl \<Longrightarrow> request_cas w tbl = Some tbl' \<longleftrightarrow> (\<exists>r\<in>set tbl. write_target (snd w) r)
     \<and> tbl' = update_where (write_target (snd w)) (write_columns (stamped (fst w) (snd w))) tbl"
  using WriteState_Inr_iff [of tbl "fst w" "snd w" tbl']
  by (auto simp: request_cas_def split: sum.splits)

interpretation requests: live_versioned_table request_lookup rr_Version request_cas request_key request_expected table_ok
proof unfold_locales
  fix t t' :: requests_table and w :: "instant \<times> RunnerState"
  assume "table_ok t" "request_cas w t = Some t'"
  then show "\<exists>r. request_lookup t (request_key w) = Some r \<and> rr_Version r = request_expected w"
    by (auto simp: request_cas_Some request_lookup_iff write_target_def request_key_def request_expected_def)
next
  fix t :: requests_table and w :: "instant \<times> RunnerState" and r
  assume "table_ok t" "request_lookup t (request_key w) = Some r" "rr_Version r = request_expected w"
  then show "\<exists>t'. request_cas w t = Some t'"
    by (auto simp: request_cas_Some request_lookup_iff write_target_def request_key_def request_expected_def)
next
  fix t t' :: requests_table and w :: "instant \<times> RunnerState"
  assume ok: "table_ok t" and w: "request_cas w t = Some t'"
  then obtain r where r: "r \<in> set t" "write_target (snd w) r"
    and t': "t' = update_where (write_target (snd w)) (write_columns (stamped (fst w) (snd w))) t"
    by (auto simp: request_cas_Some)
  show ok': "table_ok t'"
    using table_ok_WriteState [OF ok, of "fst w" "snd w" t'] w by (auto simp: request_cas_def split: sum.splits)
  let ?r' = "write_columns (stamped (fst w) (snd w)) r"
  have "?r' \<in> set t'" "rr_ID ?r' = request_key w" "rr_Version ?r' = request_expected w + 1"
    using r t' by (auto simp: set_update_where write_target_def request_key_def request_expected_def image_iff)
  then show "\<exists>r. request_lookup t' (request_key w) = Some r \<and> rr_Version r = request_expected w + 1"
    using request_lookup_iff [OF ok'] by blast
next
  fix t t' :: requests_table and w :: "instant \<times> RunnerState" and k
  assume ok: "table_ok t" and w: "request_cas w t = Some t'" and k: "k \<noteq> request_key w"
  have "request_lookup t' k = map_option (\<lambda>r. if write_target (snd w) r then write_columns (stamped (fst w) (snd w)) r else r) (request_lookup t k)"
    using ok w unfolding request_cas_Some [OF ok] request_lookup_def by (auto intro!: find_update_where)
  moreover have "\<not> write_target (snd w) r" if "request_lookup t k = Some r" for r
    using that k request_lookup_iff [OF ok] by (auto simp: write_target_def request_key_def)
  ultimately show "request_lookup t' k = request_lookup t k"
    by (cases "request_lookup t k") auto
qed

subsection \<open>The contents of rows\<close>

text \<open>
  A row is normal when the text columns that a write trims are trimmed, its runner name is
  sanitized and no time column holds the zero instant; it is stamped when the time column of its
  status is set.
\<close>

definition time_col_ok :: "instant option \<Rightarrow> bool" where
  "time_col_ok t \<longleftrightarrow> t \<noteq> Some 0"

definition row_normal :: "runnerRequestRecord \<Rightarrow> bool" where
  "row_normal r \<longleftrightarrow> sanitizeRunnerName (rr_RunnerName r) = rr_RunnerName r
     \<and> list_all trimmed [rr_SandboxAPIURL r, rr_SandboxAPIKeyEncrypted r, rr_SandboxConfigSource r,
          rr_SponsorSourceRepositoryFullName r, rr_SponsorAuthorizationReason r, rr_SandboxRegion r,
          rr_ResolvedTemplateID r, rr_TemplateVersion r, rr_RunnerVersion r, rr_EffectiveRunnerVersion r,
          rr_TerminationSource r, rr_GitHubJobName r, rr_GitHubJobStatus r, rr_GitHubJobConclusion r,
          rr_GitHubJobRunnerName r]
     \<and> list_all time_col_ok [rr_GitHubJobObservedAt r, rr_LastAttemptAt r, rr_NextRetryAt r, rr_CreatingAt r,
          rr_RunningAt r, rr_StoppingAt r, rr_CompletedAt r, rr_FailedAt r, rr_LeaseExpiresAt r]"

definition row_stamped :: "runnerRequestRecord \<Rightarrow> bool" where
  "row_stamped r = (case rr_Status r of
       StatusQueued \<Rightarrow> True
     | StatusCreating \<Rightarrow> rr_CreatingAt r \<noteq> None
     | StatusRunning \<Rightarrow> rr_CreatingAt r \<noteq> None \<and> rr_RunningAt r \<noteq> None
     | StatusStopping \<Rightarrow> rr_StoppingAt r \<noteq> None
     | StatusCompleted \<Rightarrow> rr_CompletedAt r \<noteq> None
     | StatusFailed \<Rightarrow> rr_FailedAt r \<noteq> None)"

definition rows_ok :: "requests_table \<Rightarrow> bool" where
  "rows_ok tbl \<longleftrightarrow> (\<forall>r\<in>set tbl. row_normal r \<and> row_stamped r)"

lemma time_col_ok_pointer [simp]: "time_col_ok (zeroTimeToPointer t)"
  by (simp add: time_col_ok_def zeroTimeToPointer_def IsZero_def)

lemma pointer_roundtrip [simp]: "time_col_ok t \<Longrightarrow> zeroTimeToPointer (pointerToTime t) = t"
  by (cases t) (auto simp: time_col_ok_def zeroTimeToPointer_def pointerToTime_def IsZero_def)

lemma zeroTimeToPointer_None [simp]: "zeroTimeToPointer t = None \<longleftrightarrow> t = 0"
  by (simp add: zeroTimeToPointer_def IsZero_def)

lemma pointerToTime_zero [simp]: "time_col_ok t \<Longrightarrow> pointerToTime t = 0 \<longleftrightarrow> t = None"
  by (cases t) (auto simp: time_col_ok_def pointerToTime_def)

lemma trimmed_Nil [simp]: "trimmed []"
  by (simp add: trimmed_def)

lemma sanitizeRunnerName_id:
  "CHR ''/'' \<notin> set s \<Longrightarrow> CHR 0x5C \<notin> set s \<Longrightarrow> trimmed s \<Longrightarrow> sanitizeRunnerName s = s"
  by (simp add: sanitizeRunnerName_def TrimSpace_id ReplaceAll_absent Contains_char)

lemma row_normal_write: "row_normal (write_columns st r)"
  by (simp add: row_normal_def write_columns_def)

lemma row_stamped_write: "0 < now \<Longrightarrow> row_stamped (write_columns (stamped now st) r)"
  by (cases "rs_Status st")
     (simp_all add: row_stamped_def write_columns_def stamped_def applyStateTimestamps_def Let_def IsZero_def)

lemma default_runner_name:
  "i \<noteq> [] \<Longrightarrow> sanitizeID i = i \<Longrightarrow> sanitizeRunnerName (''e2b-'' @ i) = ''e2b-'' @ i"
  using sanitizeID_chars [of i] by (intro sanitizeRunnerName_id) (auto simp: trimmed_def is_space_def)

lemma row_normal_new:
  "0 < now \<Longrightarrow> sanitizeID (rq_ID req) \<noteq> [] \<Longrightarrow> row_normal (newRequestRecord now (normalizeRequest now req) p s a b c)"
  using default_runner_name [of "sanitizeID (rq_ID req)"]
  by (auto simp: row_normal_def newRequestRecord_def normalizeRequest_def Let_def time_col_ok_def)

lemma row_stamped_new:
  "s = StatusQueued \<or> s = StatusFailed \<Longrightarrow> row_stamped (newRequestRecord now req p s a b c)"
  by (auto simp: row_stamped_def newRequestRecord_def Let_def)

lemma rows_ok_update [inv_intros]:
  "rows_ok tbl \<Longrightarrow> (\<And>r. r \<in> set tbl \<Longrightarrow> P r \<Longrightarrow> row_normal r \<Longrightarrow> row_stamped r \<Longrightarrow> row_normal (f r) \<and> row_stamped (f r))
    \<Longrightarrow> rows_ok (update_where P f tbl)"
  by (auto simp: rows_ok_def set_update_where)

lemma rows_ok_createRequest:
  assumes "rows_ok tbl" "0 < now" "s = StatusQueued \<or> s = StatusFailed"
  shows "rows_ok (fst (createRequest now req p s a b c tbl))"
  by (cases rule: createRequest_cases [of now req p s a b c tbl])
     (use assms row_normal_new row_stamped_new in \<open>auto simp: rows_ok_def\<close>)

lemma rows_ok_run_op [inv_intros]:
  assumes ok: "table_ok tbl" and rows: "rows_ok tbl" and clock: "op_clock_ok op"
  shows "rows_ok (run_op op tbl)"
proof (cases op)
  case (OpWrite now st)
  show ?thesis
  proof (cases "WriteState now st tbl")
    case (Inr tbl')
    then have "tbl' = update_where (write_target st) (write_columns (stamped now st)) tbl"
      using ok by (simp add: WriteState_Inr_iff)
    then have "rows_ok tbl'" using OpWrite rows clock
      by (auto simp: row_normal_write row_stamped_write intro!: rows_ok_update)
    then show ?thesis using OpWrite Inr by simp
  qed (use OpWrite rows in simp)
next
  case (OpClaim w now ttl)
  show ?thesis
  proof (cases "TrimSpace w = []")
    case False
    from ok False show ?thesis
    proof (cases rule: ClaimNextRunnable_cases [where now = now and ttl = ttl])
      case (claimed c)
      have "0 < now" "0 \<le> ttl" using clock OpClaim by auto
      then have "rows_ok (update_where (\<lambda>r. r = c) (claim_row w now ttl) tbl)" using rows
        by (auto intro!: rows_ok_update simp: row_normal_def claim_row_def time_col_ok_def row_stamped_def
            split: runner_status.splits)
      then show ?thesis using OpClaim claimed(4) by simp
    qed (use OpClaim rows in simp)
  qed (use OpClaim rows in \<open>simp add: ClaimNextRunnable_blank\<close>)
next
  case (OpRelease i w)
  then show ?thesis using rows
    by (auto simp: ReleaseLease_def row_normal_def time_col_ok_def row_stamped_def
        split: runner_status.splits intro!: rows_ok_update)
next
  case (OpRetry i now)
  from ok show ?thesis
  proof (cases rule: RetryRequest_cases [where i = i and now = now])
    case (retried c)
    have "rows_ok (update_where (\<lambda>x. x = c) (reset_for_retry now) tbl)" using rows
      by (auto intro!: rows_ok_update simp: row_normal_def reset_for_retry_def time_col_ok_def row_stamped_def)
    then show ?thesis using OpRetry retried(4) by simp
  qed (use OpRetry rows in simp_all)
qed (use rows clock in \<open>auto simp: CreateRequest_def CreateRejectedRequest_def intro: rows_ok_createRequest\<close>)

lemma rows_ok_run_ops:
  "table_ok tbl \<Longrightarrow> rows_ok tbl \<Longrightarrow> list_all op_clock_ok ops \<Longrightarrow> rows_ok (fold run_op ops tbl)"
  by (induction ops arbitrary: tbl) (auto intro: rows_ok_run_op table_ok_run_op)

text \<open>Writing back what was read changes the version and the time of the update only.\<close>

lemma write_columns_recordToState:
  assumes "row_normal r" "row_stamped r" "sanitizeID (rr_ID r) = rr_ID r"
  shows "write_columns (stamped now (recordToState r)) r = r \<lparr> rr_UpdatedAt := now, rr_Version := rr_Version r + 1 \<rparr>"
proof -
  have "applyStateTimestamps (recordToState r \<lparr> rs_UpdatedAt := now \<rparr>) now = recordToState r \<lparr> rs_UpdatedAt := now \<rparr>"
    using assms(1,2) by (cases "rr_Status r")
      (auto simp: applyStateTimestamps_def recordToState_def row_normal_def row_stamped_def Let_def IsZero_def)
  moreover have "recordToState r \<lparr> rs_ID := sanitizeID (rs_ID (recordToState r)), rs_UpdatedAt := now \<rparr>
      = recordToState r \<lparr> rs_UpdatedAt := now \<rparr>"
    using assms(3) by (simp add: recordToState_def Let_def)
  ultimately have st: "stamped now (recordToState r) = recordToState r \<lparr> rs_UpdatedAt := now \<rparr>"
    by (simp add: stamped_def)
  show ?thesis
    unfolding st using assms(1)
    by (intro runnerRequestRecord.equality)
       (simp_all add: write_columns_def recordToState_def Let_def row_normal_def TrimSpace_id)
qed

subsection \<open>Properties\<close>

lemma ReadState_iff:
  "table_ok tbl \<Longrightarrow> ReadState i tbl = Inr st \<longleftrightarrow> (\<exists>r\<in>set tbl. rr_ID r = sanitizeID i \<and> st = recordToState r)"
  using readRecord_iff [of tbl i] table_ok_id_unique [of tbl]
  by (auto simp: ReadState_def split: sum.splits if_splits) metis

lemma recordToState_simps [simp]:
  "rs_ID (recordToState r) = rr_ID r" "rs_Version (recordToState r) = rr_Version r"
  "rs_Status (recordToState r) = rr_Status r" "rs_CreatedAt (recordToState r) = rr_QueuedAt r"
  by (simp_all add: recordToState_def Let_def)

lemma recordToRequest_ID: "recordToRequest r = Inr req \<Longrightarrow> rq_ID req = rr_ID r"
  by (auto simp: recordToRequest_def)

text \<open>A request and its table, for the witnesses.\<close>

definition sample_request :: RunnerRequest where
  "sample_request = \<lparr> rq_ID = ''job-7'', rq_Source = ''github'', rq_JobID = 7, rq_PullRequestNumber = 0,
     rq_GitHubInstallationID = 3, rq_RepositoryFullName = ''acme/app'', rq_RequestedLabels = [],
     rq_Labels = [''linux''], rq_ProfileName = ''small'', rq_ProfileSource = ''global'', rq_ProfileScopeType = [],
     rq_ProfileScopeID = 0, rq_RunnerGroup = [], rq_RunnerName = [], rq_SandboxAPIURL = [],
     rq_SandboxAPIKeyEncrypted = [], rq_SandboxConfigSource = [], rq_SponsorInstallationID = 0,
     rq_SponsorSourceRepositoryID = 0, rq_SponsorSourceRepositoryFullName = [],
     rq_SponsorAuthorizationReason = [], rq_CreatedAt = 0 \<rparr>"

definition sample_row :: runnerRequestRecord where
  "sample_row = newRequestRecord 5 (normalizeRequest 5 sample_request) zero_payload StatusQueued [] [] []"

lemma sanitizeID_sample [simp]: "sanitizeID ''job-7'' = ''job-7''"
  by (rule sanitizeID_id) (simp_all add: trimmed_def is_space_def)

lemma sample_row_simps [simp]:
  "rr_ID sample_row = ''job-7''" "rr_Version sample_row = 0" "rr_Status sample_row = StatusQueued"
  "rr_WorkflowJobID sample_row = Some 7" "rr_NextRetryAt sample_row = None" "rr_LeaseExpiresAt sample_row = None"
  "rr_LabelsJSON sample_row = JLabels [''linux'']" "rr_RequestedLabelsJSON sample_row = JLabels [''linux'']"
  "rr_LeaseOwner sample_row = []" "rr_QueuedAt sample_row = 5"
  by (simp_all add: sample_row_def newRequestRecord_def normalizeRequest_def sample_request_def Let_def IsZero_def)

lemma sample_table_ok [simp]: "table_ok [sample_row]"
  by (simp add: table_ok_def row_wf_def)

lemma sample_rows_ok [simp]: "rows_ok [sample_row]"
  unfolding rows_ok_def sample_row_def by (simp add: row_normal_new row_stamped_new) (simp add: sample_request_def row_normal_new)

lemma create_sample: "CreateRequest 5 sample_request zero_payload [] = ([sample_row], True, Some (recordToState sample_row), None)"
  by (simp add: CreateRequest_def createRequest_def sample_row_def Let_def) (simp add: sample_request_def)

definition sample_row2 :: runnerRequestRecord where
  "sample_row2 = sample_row \<lparr> rr_ID := ''job-8'', rr_WorkflowJobID := Some 8 \<rparr>"

lemma sanitizeID_sample2 [simp]: "sanitizeID ''job-8'' = ''job-8''"
  by (rule sanitizeID_id) (simp_all add: trimmed_def is_space_def)

lemma sample_row2_simps [simp]:
  "rr_ID sample_row2 = ''job-8''" "rr_Version sample_row2 = 0" "rr_Status sample_row2 = StatusQueued"
  "rr_WorkflowJobID sample_row2 = Some 8" "rr_NextRetryAt sample_row2 = None" "rr_LeaseExpiresAt sample_row2 = None"
  "rr_LabelsJSON sample_row2 = JLabels [''linux'']" "rr_RequestedLabelsJSON sample_row2 = JLabels [''linux'']"
  "sample_row2 \<noteq> sample_row" "sample_row \<noteq> sample_row2"
proof -
  have "rr_ID sample_row2 \<noteq> rr_ID sample_row" by (simp add: sample_row2_def)
  then show "sample_row2 \<noteq> sample_row" "sample_row \<noteq> sample_row2" by metis+
qed (simp_all add: sample_row2_def)

text \<open>A claim that succeeds, with the row it took.\<close>

lemma claim_succeeds:
  assumes "table_ok tbl" "TrimSpace w \<noteq> []" "r \<in> set tbl" "runnable now r"
    and "list_all (\<lambda>r. \<exists>req. recordToRequest r = Inr req) tbl"
  shows "\<exists>c tbl' req st. ClaimNextRunnable w now ttl tbl = (tbl', Inr (Some (req, st)))
    \<and> c \<in> set tbl \<and> tbl' = update_where (\<lambda>r. r = c) (claim_row w now ttl) tbl"
  using assms(1,2)
proof (cases rule: ClaimNextRunnable_cases [where now = now and ttl = ttl])
  case none
  then show ?thesis using assms(3,4) by blast
next
  case (claimed c)
  obtain req where "recordToRequest c = Inr req" using claimed(1) assms(5) by (auto simp: list_all_iff)
  then have "\<exists>req'. recordToRequest (claim_row w now ttl c) = Inr req'"
    by (auto simp: recordToRequest_def claim_row_def)
  then show ?thesis using claimed by (intro exI [of _ c]) auto
qed

text \<open>C9: whatever sequence of creations, rejections, writes, claims, lease releases and retries runs
  on an empty table, with a clock after the zero instant and leases of non-negative length, requests keep
  distinct identifiers and distinct workflow jobs, identifiers stay sanitized, versions stay non-negative,
  the text columns trimmed and the runner name sanitized, no time column holds the zero instant, and every row
  that is not queued has the time column of its status set (of creating and running both, when it runs). Which
  time that column holds is not said: a write keeps the time of an earlier entry into the status.\<close>

theorem requests_table_invariant:
  assumes "list_all op_clock_ok ops"
  shows "table_ok (fold run_op ops []) \<and> rows_ok (fold run_op ops [])"
  using assms table_ok_run_ops [of "[]"] rows_ok_run_ops [of "[]"] by (simp add: rows_ok_def)

theorem requests_table_invariant_witness:
  "table_ok (fold run_op [OpCreate 5 sample_request zero_payload, OpClaim ''w'' 6 10, OpRetry ''job-7'' 9] [])
   \<and> rows_ok (fold run_op [OpCreate 5 sample_request zero_payload, OpClaim ''w'' 6 10, OpRetry ''job-7'' 9] [])"
  by (rule requests_table_invariant) simp

text \<open>C7: no lost update. If a state was read from a row and a write of it, changed at will, is
  accepted after any operations of other workers, then none of them changed the row in between,
  apart from releasing its lease.\<close>

theorem WriteState_no_lost_update:
  assumes "table_ok tbl" "ReadState i tbl = Inr st0" "rs_ID st = rs_ID st0" "rs_Version st = rs_Version st0"
    and "WriteState now st (fold run_op ops tbl) = Inr tbl'"
  shows "\<exists>r r'. r \<in> set tbl \<and> st0 = recordToState r \<and> r' \<in> set (fold run_op ops tbl)
    \<and> rr_ID r' = rr_ID r \<and> lease_clear r' = lease_clear r"
proof -
  let ?tbl = "fold run_op ops tbl"
  have ok: "table_ok ?tbl" using assms(1) by (rule table_ok_run_ops)
  obtain r where r: "r \<in> set tbl" "rr_ID r = sanitizeID i" "st0 = recordToState r"
    using assms(1,2) by (auto simp: ReadState_iff)
  obtain r' where r': "r' \<in> set ?tbl" "row_evolves r r'"
    using run_ops_evolve [OF assms(1) r(1)] by blast
  obtain x where x: "x \<in> set ?tbl" "write_target st x"
    using assms(5) ok by (auto simp: WriteState_Inr_iff)
  have "x = r'"
    using table_ok_id_unique [OF ok x(1) r'(1)] x(2) r' r assms(3)
    by (simp add: write_target_def row_evolves_def)
  then have "rr_Version r' = rr_Version r" using x(2) assms(4) r(3) by (simp add: write_target_def)
  then show ?thesis using r r' by (intro exI [of _ r] exI [of _ r']) (auto simp: row_evolves_def)
qed

theorem WriteState_no_lost_update_witness:
  "\<exists>r r'. r \<in> set [sample_row] \<and> recordToState sample_row = recordToState r
    \<and> r' \<in> set (fold run_op [OpRelease ''job-7'' ''w''] [sample_row])
    \<and> rr_ID r' = rr_ID r \<and> lease_clear r' = lease_clear r"
  by (rule WriteState_no_lost_update [where i = "''job-7''" and now = 9 and st = "recordToState sample_row"
        and tbl' = "[write_columns (stamped 9 (recordToState sample_row)) sample_row]"])
     (auto simp: ReadState_iff WriteState_cases write_target_def ReleaseLease_def TrimSpace_def is_space_def)

text \<open>C10: of all writers that read the same version of a request, at most one is accepted, in any
  order of the attempts and whatever else they write.\<close>

theorem WriteState_one_winner:
  assumes "table_ok tbl"
  shows "length (filter (\<lambda>w. request_key w = i \<and> request_expected w = v) (snd (run_writes request_cas ws tbl))) \<le> 1"
  using assms by (rule requests.one_winner)

theorem WriteState_one_winner_witness:
  "length (filter (\<lambda>w. request_key w = ''job-7'' \<and> request_expected w = 0)
     (snd (run_writes request_cas [(6, recordToState sample_row), (7, recordToState sample_row)] [sample_row]))) \<le> 1"
  by (rule WriteState_one_winner) simp

text \<open>
  The operations that leave the lease of a request alone until it ends: everything on other requests,
  releases by other workers, writes that move the request out of the queue or keep its lease, and claims
  by a clock that reads a time before the end of the lease. What is left out on purpose are the retry by
  an operator and the owner's own release of the lease.
\<close>

fun keeps_lease :: "string \<Rightarrow> string \<Rightarrow> instant \<Rightarrow> store_op \<Rightarrow> bool" where
  "keeps_lease i owner until (OpCreate now req p) = True"
| "keeps_lease i owner until (OpReject now req p reason) = True"
| "keeps_lease i owner until (OpWrite now st) = (sanitizeID (rs_ID st) \<noteq> i \<or> rs_Status st \<noteq> StatusQueued
     \<or> (rs_LeaseOwner st = owner \<and> until \<le> rs_LeaseExpiresAt st \<and> rs_LeaseExpiresAt st \<noteq> 0))"
| "keeps_lease i owner until (OpClaim w now ttl) = (now < until)"
| "keeps_lease i owner until (OpRelease j w) = (sanitizeID j \<noteq> i \<or> TrimSpace w \<noteq> owner)"
| "keeps_lease i owner until (OpRetry j now) = (sanitizeID j \<noteq> i)"

definition held :: "string \<Rightarrow> instant \<Rightarrow> runnerRequestRecord \<Rightarrow> bool" where
  "held owner until r \<longleftrightarrow> rr_Status r \<noteq> StatusQueued
     \<or> (rr_LeaseOwner r = owner \<and> (case rr_LeaseExpiresAt r of None \<Rightarrow> False | Some t \<Rightarrow> until \<le> t))"

lemma held_not_runnable: "held owner until r \<Longrightarrow> now < until \<Longrightarrow> \<not> runnable now r"
  by (auto simp: held_def runnable_def lease_free_def split: option.splits)

lemma held_update:
  assumes "\<exists>r\<in>set tbl. rr_ID r = i \<and> held owner until r"
    and "\<And>r. r \<in> set tbl \<Longrightarrow> P r \<Longrightarrow> rr_ID r = i \<Longrightarrow> held owner until r \<Longrightarrow> rr_ID (f r) = i \<and> held owner until (f r)"
  shows "\<exists>r\<in>set (update_where P f tbl). rr_ID r = i \<and> held owner until r"
proof -
  obtain r where r: "r \<in> set tbl" "rr_ID r = i" "held owner until r" using assms(1) by blast
  then show ?thesis using assms(2) [OF r(1)] by (intro bexI [of _ "if P r then f r else r"]) (auto simp: set_update_where)
qed

lemma stamped_lease [simp]:
  "rs_LeaseOwner (stamped now st) = rs_LeaseOwner st" "rs_LeaseExpiresAt (stamped now st) = rs_LeaseExpiresAt st"
  by (simp_all add: stamped_def applyStateTimestamps_def Let_def split: runner_status.split)

lemma run_op_held:
  assumes ok: "table_ok tbl" and keeps: "keeps_lease i owner until op" and held: "\<exists>r\<in>set tbl. rr_ID r = i \<and> held owner until r"
  shows "\<exists>r\<in>set (run_op op tbl). rr_ID r = i \<and> held owner until r"
proof (cases op)
  case (OpCreate now req p)
  show ?thesis
    by (cases rule: createRequest_cases [of now req p StatusQueued "[]" "[]" "[]" tbl]) (use held in \<open>auto simp: OpCreate CreateRequest_def\<close>)
next
  case (OpReject now req p reason)
  show ?thesis
    by (cases rule: createRequest_cases [of now req p StatusFailed "''admission''" "TrimSpace reason" "''runner admission rejected''" tbl])
       (use held in \<open>auto simp: OpReject CreateRejectedRequest_def\<close>)
next
  case (OpWrite now st)
  show ?thesis
  proof (cases "WriteState now st tbl")
    case (Inr tbl')
    then have "tbl' = update_where (write_target st) (write_columns (stamped now st)) tbl" using ok by (simp add: WriteState_Inr_iff)
    moreover have "\<exists>r\<in>set (update_where (write_target st) (write_columns (stamped now st)) tbl). rr_ID r = i \<and> held owner until r"
      using held by (rule held_update)
        (use keeps in \<open>auto simp: OpWrite write_target_def held_def write_columns_def zeroTimeToPointer_def IsZero_def\<close>)
    ultimately show ?thesis using OpWrite Inr by simp
  qed (use OpWrite held in simp)
next
  case (OpClaim w now ttl)
  show ?thesis
  proof (cases "TrimSpace w = []")
    case False
    from ok False show ?thesis
    proof (cases rule: ClaimNextRunnable_cases [where now = now and ttl = ttl])
      case (claimed c)
      have "\<exists>r\<in>set (update_where (\<lambda>r. r = c) (claim_row w now ttl) tbl). rr_ID r = i \<and> held owner until r"
        using held by (rule held_update) (use claimed(2) held_not_runnable keeps OpClaim in auto)
      then show ?thesis using OpClaim claimed(4) by simp
    qed (use OpClaim held in auto)
  qed (use OpClaim held in \<open>auto simp: ClaimNextRunnable_blank\<close>)
next
  case (OpRelease j w)
  have "\<exists>r\<in>set (ReleaseLease j w tbl). rr_ID r = i \<and> held owner until r"
    unfolding ReleaseLease_def using held by (rule held_update) (use keeps OpRelease in \<open>auto simp: held_def\<close>)
  then show ?thesis using OpRelease by simp
next
  case (OpRetry j now)
  from ok show ?thesis
  proof (cases rule: RetryRequest_cases [where i = j and now = now])
    case (retried c)
    have "\<exists>r\<in>set (update_where (\<lambda>x. x = c) (reset_for_retry now) tbl). rr_ID r = i \<and> held owner until r"
      using held by (rule held_update) (use keeps OpRetry retried in auto)
    then show ?thesis using OpRetry retried(4) by simp
  qed (use OpRetry held in auto)
qed

lemma run_ops_held:
  "table_ok tbl \<Longrightarrow> list_all (keeps_lease i owner until) ops \<Longrightarrow> \<exists>r\<in>set tbl. rr_ID r = i \<and> held owner until r
    \<Longrightarrow> \<exists>r\<in>set (fold run_op ops tbl). rr_ID r = i \<and> held owner until r"
proof (induction ops arbitrary: tbl)
  case (Cons op ops)
  show ?case using Cons.IH [OF table_ok_run_op [OF Cons.prems(1)] _ run_op_held [OF Cons.prems(1) _ Cons.prems(3)]] Cons.prems(2) by simp
qed simp

lemma ClaimNextRunnable_took:
  assumes "table_ok tbl" "ClaimNextRunnable w now ttl tbl = (tbl', Inr (Some (req, st)))"
  obtains c where "c \<in> set tbl" "runnable now c" "\<forall>r\<in>set tbl. runnable now r \<longrightarrow> claim_key c \<le> claim_key r"
    "tbl' = update_where (\<lambda>r. r = c) (claim_row w now ttl) tbl" "rr_ID c = rq_ID req"
proof -
  have w: "TrimSpace w \<noteq> []" using assms(2) by (auto simp: ClaimNextRunnable_def Let_def)
  from assms(1) w show ?thesis
    by (cases rule: ClaimNextRunnable_cases [where now = now and ttl = ttl])
      (use assms(2) that in \<open>auto split: sum.splits dest!: recordToRequest_ID simp: claim_row_def\<close>)
qed

text \<open>C8: a successful claim takes a queued request whose retry time has come and whose lease is
  free, the one with the earliest eligibility among them, and changes its lease, attempt time, update time
  and version only. Then, after any operations that leave this lease alone (every operation but a
  retry of the request, a release of the lease by its owner, a write that puts the request back
  into the queue without it, and a claim by a clock that reads the end of the lease or later), no claim of any worker whose clock reads a time before the end of the lease
  returns the request again.\<close>

theorem ClaimNextRunnable_exclusive:
  assumes ok: "table_ok tbl"
    and first: "ClaimNextRunnable w now ttl tbl = (tbl1, Inr (Some (req, st)))"
  shows "(\<exists>c\<in>set tbl. runnable now c \<and> rr_ID c = rq_ID req
      \<and> (\<forall>r\<in>set tbl. runnable now r \<longrightarrow> claim_key c \<le> claim_key r)
      \<and> tbl1 = update_where (\<lambda>r. r = c) (\<lambda>r. r \<lparr> rr_LeaseOwner := TrimSpace w, rr_LeaseExpiresAt := Some (now + ttl),
           rr_LastAttemptAt := Some now, rr_UpdatedAt := now, rr_Version := rr_Version r + 1 \<rparr>) tbl)
    \<and> (\<forall>ops w' now' ttl' tbl' req' st'. list_all (keeps_lease (rq_ID req) (TrimSpace w) (now + ttl)) ops \<and> now' < now + ttl
         \<and> ClaimNextRunnable w' now' ttl' (fold run_op ops tbl1) = (tbl', Inr (Some (req', st'))) \<longrightarrow> rq_ID req' \<noteq> rq_ID req)"
proof -
  obtain c where c: "c \<in> set tbl" "runnable now c" "\<forall>r\<in>set tbl. runnable now r \<longrightarrow> claim_key c \<le> claim_key r"
      "tbl1 = update_where (\<lambda>r. r = c) (claim_row w now ttl) tbl" "rr_ID c = rq_ID req"
    using ClaimNextRunnable_took [OF ok first] .
  have ok1: "table_ok tbl1" using table_ok_ClaimNextRunnable [OF ok, of w now ttl] first by simp
  have "claim_row w now ttl c \<in> set tbl1" using c(1,4) by (auto simp: set_update_where)
  then have held: "\<exists>r\<in>set tbl1. rr_ID r = rq_ID req \<and> held (TrimSpace w) (now + ttl) r"
    using c(5) by (intro bexI [of _ "claim_row w now ttl c"]) (simp_all add: held_def claim_row_def)
  have "rq_ID req' \<noteq> rq_ID req"
    if ops: "list_all (keeps_lease (rq_ID req) (TrimSpace w) (now + ttl)) ops" and early: "now' < now + ttl"
      and claim: "ClaimNextRunnable w' now' ttl' (fold run_op ops tbl1) = (tbl', Inr (Some (req', st')))" for ops w' now' ttl' tbl' req' st'
  proof -
    have ok2: "table_ok (fold run_op ops tbl1)" by (rule table_ok_run_ops [OF ok1])
    obtain r where r: "r \<in> set (fold run_op ops tbl1)" "rr_ID r = rq_ID req" "held (TrimSpace w) (now + ttl) r"
      using run_ops_held [OF ok1 ops held] by blast
    obtain d where d: "d \<in> set (fold run_op ops tbl1)" "runnable now' d" "rr_ID d = rq_ID req'"
      by (rule ClaimNextRunnable_took [OF ok2 claim])
    show ?thesis using table_ok_id_unique [OF ok2 d(1) r(1)] held_not_runnable [OF r(3) early] d(2,3) r(2) by auto
  qed
  then have later: "\<forall>ops w' now' ttl' tbl' req' st'. list_all (keeps_lease (rq_ID req) (TrimSpace w) (now + ttl)) ops \<and> now' < now + ttl
         \<and> ClaimNextRunnable w' now' ttl' (fold run_op ops tbl1) = (tbl', Inr (Some (req', st'))) \<longrightarrow> rq_ID req' \<noteq> rq_ID req" by blast
  have "claim_row w now ttl = (\<lambda>r. r \<lparr> rr_LeaseOwner := TrimSpace w, rr_LeaseExpiresAt := Some (now + ttl),
           rr_LastAttemptAt := Some now, rr_UpdatedAt := now, rr_Version := rr_Version r + 1 \<rparr>)"
    by (simp add: fun_eq_iff claim_row_def)
  then have "tbl1 = update_where (\<lambda>r. r = c) (\<lambda>r. r \<lparr> rr_LeaseOwner := TrimSpace w, rr_LeaseExpiresAt := Some (now + ttl),
           rr_LastAttemptAt := Some now, rr_UpdatedAt := now, rr_Version := rr_Version r + 1 \<rparr>) tbl" using c(4) by simp
  then show ?thesis using c(1-3,5) by (intro conjI [OF _ later] bexI [of _ c]) simp_all
qed

theorem ClaimNextRunnable_exclusive_witness:
  "\<exists>tbl1 req st tbl2 req' st'. ClaimNextRunnable ''w'' 6 10 [sample_row, sample_row2] = (tbl1, Inr (Some (req, st)))
    \<and> ClaimNextRunnable ''v'' 7 10 (fold run_op [OpRelease ''job-7'' ''v'', OpRelease ''job-8'' ''v''] tbl1) = (tbl2, Inr (Some (req', st')))
    \<and> rq_ID req' \<noteq> rq_ID req"
proof -
  have w: "TrimSpace ''w'' = ''w''" "TrimSpace ''v'' = ''v''" by (simp_all add: TrimSpace_def is_space_def)
  have ok: "table_ok [sample_row, sample_row2]" by (simp add: table_ok_def row_wf_def)
  obtain c tbl1 req st where c: "ClaimNextRunnable ''w'' 6 10 [sample_row, sample_row2] = (tbl1, Inr (Some (req, st)))"
      "c \<in> set [sample_row, sample_row2]" "tbl1 = update_where (\<lambda>r. r = c) (claim_row ''w'' 6 10) [sample_row, sample_row2]"
    using claim_succeeds [OF ok, of "''w''" sample_row 6 10] w by (auto simp: recordToRequest_def runnable_def retry_due_def lease_free_def)
  let ?tbl = "fold run_op [OpRelease ''job-7'' ''v'', OpRelease ''job-8'' ''v''] tbl1"
  have "table_ok tbl1" using table_ok_ClaimNextRunnable [OF ok, of "''w''" 6 10] c(1) by simp
  then have ok1: "table_ok ?tbl" by (rule table_ok_run_ops)
  have owner: "rr_LeaseOwner sample_row2 = []" by (simp add: sample_row2_def)
  have "?tbl = tbl1" using c(2,3) owner w by (auto simp: ReleaseLease_def update_where_def claim_row_def)
  then have "list_all (\<lambda>r. \<exists>req. recordToRequest r = Inr req) ?tbl \<and> (\<exists>r\<in>set ?tbl. runnable 7 r)"
    using c(2,3) by (auto simp: recordToRequest_def claim_row_def runnable_def retry_due_def lease_free_def)
  moreover have "TrimSpace ''v'' \<noteq> []" using w by simp
  ultimately obtain tbl2 req' st' where d: "ClaimNextRunnable ''v'' 7 10 ?tbl = (tbl2, Inr (Some (req', st')))"
    using claim_succeeds [OF ok1] by blast
  have "list_all (keeps_lease (rq_ID req) (TrimSpace ''w'') (6 + 10)) [OpRelease ''job-7'' ''v'', OpRelease ''job-8'' ''v'']" by (simp add: w)
  then have "rq_ID req' \<noteq> rq_ID req" using conjunct2 [OF ClaimNextRunnable_exclusive [OF ok c(1)], rule_format, OF conjI [OF _ conjI [OF _ d]]] by simp
  then show ?thesis using c(1) d by blast
qed

text \<open>C11: a claim makes progress: as long as some request is queued, due and not leased, and the
  labels columns decode, a claim returns one; otherwise it returns none and changes nothing.\<close>

theorem ClaimNextRunnable_progress:
  assumes "table_ok tbl" "TrimSpace w \<noteq> []"
    and "list_all (\<lambda>r. \<exists>req. recordToRequest r = Inr req) tbl"
  shows "if list_ex (runnable now) tbl
    then \<exists>tbl' req st. ClaimNextRunnable w now ttl tbl = (tbl', Inr (Some (req, st)))
    else ClaimNextRunnable w now ttl tbl = (tbl, Inr None)"
proof (cases "list_ex (runnable now) tbl")
  case True
  then show ?thesis using claim_succeeds [OF assms(1,2) _ _ assms(3)] by (auto simp: list_ex_iff) blast
next
  case False
  from assms(1,2) show ?thesis
    by (cases rule: ClaimNextRunnable_cases [where now = now and ttl = ttl])
       (use False in \<open>auto simp: list_ex_iff\<close>)
qed

theorem ClaimNextRunnable_progress_witness:
  "if list_ex (runnable 6) [sample_row]
    then \<exists>tbl' req st. ClaimNextRunnable ''w'' 6 10 [sample_row] = (tbl', Inr (Some (req, st)))
    else ClaimNextRunnable ''w'' 6 10 [sample_row] = ([sample_row], Inr None)"
  by (rule ClaimNextRunnable_progress) (simp_all add: recordToRequest_def TrimSpace_def is_space_def)

text \<open>C14: a retry is granted exactly for a failed request, or for a queued one that waits for a
  retryable error; it leaves the request queued at once, with no lease, no sandbox, no assigned
  job, no error and no status time of the failed attempt, one version later, and touches no other
  request. Otherwise the table is unchanged.\<close>

theorem RetryRequest_spec:
  assumes "table_ok tbl"
  shows "case RetryRequest i now tbl of
      (tbl', Inr st) \<Rightarrow> \<exists>r\<in>set tbl. rr_ID r = sanitizeID i \<and> retry_allowed r
         \<and> tbl' = update_where (\<lambda>x. x = r) (reset_for_retry now) tbl
         \<and> rs_Status st = StatusQueued \<and> rs_Version st = rr_Version r + 1 \<and> rs_SandboxID st = []
         \<and> rs_AssignedJobID st = 0 \<and> rs_Error st = [] \<and> runnable t (reset_for_retry now r)
    | (tbl', Inl e) \<Rightarrow> tbl' = tbl \<and> \<not> (\<exists>r\<in>set tbl. rr_ID r = sanitizeID i \<and> retry_allowed r)"
  using assms
proof (cases rule: RetryRequest_cases [where i = i and now = now])
  case (refused r)
  then have "x = r" if "x \<in> set tbl" "rr_ID x = sanitizeID i" for x
    using table_ok_id_unique [OF assms that(1) refused(1)] that(2) by simp
  then show ?thesis using refused(3,4) by auto
next
  case (retried r)
  then show ?thesis
    by (auto intro!: bexI [of _ r] simp: recordToState_def reset_for_retry_def Let_def runnable_def retry_due_def lease_free_def)
qed auto

theorem RetryRequest_spec_witness:
  "case RetryRequest ''job-7'' 9 [sample_row \<lparr> rr_Status := StatusFailed \<rparr>] of
      (tbl', Inr st) \<Rightarrow> \<exists>r\<in>set [sample_row \<lparr> rr_Status := StatusFailed \<rparr>]. rr_ID r = sanitizeID ''job-7'' \<and> retry_allowed r
         \<and> tbl' = update_where (\<lambda>x. x = r) (reset_for_retry 9) [sample_row \<lparr> rr_Status := StatusFailed \<rparr>]
         \<and> rs_Status st = StatusQueued \<and> rs_Version st = rr_Version r + 1 \<and> rs_SandboxID st = []
         \<and> rs_AssignedJobID st = 0 \<and> rs_Error st = [] \<and> runnable 9 (reset_for_retry 9 r)
    | (tbl', Inl e) \<Rightarrow> tbl' = [sample_row \<lparr> rr_Status := StatusFailed \<rparr>]
        \<and> \<not> (\<exists>r\<in>set [sample_row \<lparr> rr_Status := StatusFailed \<rparr>]. rr_ID r = sanitizeID ''job-7'' \<and> retry_allowed r)"
  by (rule RetryRequest_spec) (simp add: table_ok_def row_wf_def)

text \<open>C15: at most one request per workflow job. Once a request was created, a later creation for the
  same identifier or the same workflow job, queued or rejected and after any other operations,
  creates nothing and leaves the table as it is.\<close>

theorem createRequest_at_most_once:
  assumes "table_ok tbl" "CreateRequest now req p tbl = (tbl1, True, st, None)"
    and "sanitizeID (rq_ID req') = sanitizeID (rq_ID req) \<or> (rq_JobID req' = rq_JobID req \<and> rq_JobID req \<noteq> 0)"
  shows "\<exists>st' e. createRequest now' req' p' status' a b c (fold run_op ops tbl1) = (fold run_op ops tbl1, False, st', e)"
proof -
  obtain new where new: "new \<in> set tbl1" "rr_ID new = sanitizeID (rq_ID req)"
      "rr_WorkflowJobID new = (if rq_JobID req \<noteq> 0 then Some (rq_JobID req) else None)"
  proof (cases rule: createRequest_cases [of now req p StatusQueued "[]" "[]" "[]" tbl])
    case (created new)
    then have "tbl1 = tbl @ [new]" using assms(2) by (simp add: CreateRequest_def)
    then show ?thesis using that [of new] created(4) by simp
  qed (use assms(2) in \<open>simp add: CreateRequest_def\<close>)
  have "table_ok tbl1"
    using table_ok_createRequest [OF assms(1), of now req p StatusQueued "[]" "[]" "[]"] assms(2) by (simp add: CreateRequest_def)
  then obtain r where r: "r \<in> set (fold run_op ops tbl1)" "rr_ID r = rr_ID new" "rr_WorkflowJobID r = rr_WorkflowJobID new"
    using run_ops_evolve [OF _ new(1)] by (auto simp: row_evolves_def)
  show ?thesis
  proof (cases rule: createRequest_cases [of now' req' p' status' a b c "fold run_op ops tbl1"])
    case (created x)
    have "row_conflicts x r" using assms(3) r(2,3) new created(4) by (auto simp: row_conflicts_def)
    then show ?thesis using created(2) r(1) by blast
  qed auto
qed

theorem createRequest_at_most_once_witness:
  "\<exists>st' e. createRequest 8 sample_request zero_payload StatusFailed [] [] [] (fold run_op [OpClaim ''w'' 6 10] [sample_row])
     = (fold run_op [OpClaim ''w'' 6 10] [sample_row], False, st', e)"
  by (rule createRequest_at_most_once [OF table_ok_Nil create_sample]) simp

text \<open>C16: writing back an unchanged state is a no-op on the request apart from its version and
  the time of the update: nothing of a row is lost on the way to a \<open>RunnerState\<close> and back.\<close>

theorem WriteState_roundtrip:
  assumes "table_ok tbl" "rows_ok tbl" "r \<in> set tbl"
  shows "WriteState now (recordToState r) tbl =
    Inr (update_where (\<lambda>x. x = r) (\<lambda>x. x \<lparr> rr_UpdatedAt := now, rr_Version := rr_Version x + 1 \<rparr>) tbl)"
proof -
  have wf: "sanitizeID (rr_ID r) = rr_ID r" "rr_ID r \<noteq> []" "row_normal r" "row_stamped r"
    using assms by (auto simp: table_ok_def row_wf_def rows_ok_def)
  have "write_target (recordToState r) x \<longleftrightarrow> x = r" if "x \<in> set tbl" for x
    using table_ok_id_unique [OF assms(1) that assms(3)] wf by (auto simp: write_target_def)
  then have "update_where (write_target (recordToState r)) (write_columns (stamped now (recordToState r))) tbl
      = update_where (\<lambda>x. x = r) (\<lambda>x. x \<lparr> rr_UpdatedAt := now, rr_Version := rr_Version x + 1 \<rparr>) tbl"
    using write_columns_recordToState [OF wf(3,4,1)] by (auto simp: update_where_def)
  then show ?thesis using assms(3) wf by (auto simp: WriteState_cases write_target_def)
qed

theorem WriteState_roundtrip_witness:
  "WriteState 9 (recordToState sample_row) [sample_row] =
    Inr (update_where (\<lambda>x. x = sample_row) (\<lambda>x. x \<lparr> rr_UpdatedAt := 9, rr_Version := rr_Version x + 1 \<rparr>) [sample_row])"
  by (rule WriteState_roundtrip) simp_all

end
