(* ===== verification/RunnerQueries.thy ===== *)
theory RunnerQueries
  imports RunnerStore
begin

text \<open>
  The read side of the request table: lists, pages, cursors, counts, metrics and the log events,
  from \<^verbatim>\<open>internal/state/runner_requests.go\<close> and the counts of
  \<^verbatim>\<open>internal/state/scoped_catalog.go\<close>.

  The list queries select a subset of the columns; \<open>list_projection\<close> is the row as such a query
  loads it. \<open>like\<close> is the SQL operator with the escape character the code names.
\<close>

subsection \<open>Lists and pages\<close>

definition list_projection :: "runnerRequestRecord \<Rightarrow> runnerRequestRecord" where
  "list_projection r = r \<lparr> rr_Source := [], rr_LabelsJSON := JEmpty, rr_SandboxAPIURL := [],
     rr_SandboxAPIKeyEncrypted := [], rr_SandboxRegion := [], rr_ResolvedTemplateID := [],
     rr_TemplateVersion := [], rr_RunnerVersion := [], rr_EffectiveRunnerVersion := [],
     rr_GitHubPayloadJSON := zero_payload \<rparr>"

definition list_state :: "runnerRequestRecord \<Rightarrow> RunnerState" where
  "list_state r = recordToState (list_projection r)"

definition activeStatuses :: "runner_status list" where
  "activeStatuses = [StatusQueued, StatusCreating, StatusRunning, StatusStopping]"

definition inFlightStatuses :: "runner_status list" where
  "inFlightStatuses = [StatusCreating, StatusRunning, StatusStopping]"

definition newest_first :: "requests_table \<Rightarrow> requests_table" where
  "newest_first rows = sort_key (\<lambda>r. (- rr_QueuedAt r, rr_ID r)) rows"

definition ListStates :: "requests_table \<Rightarrow> RunnerState list" where
  "ListStates tbl = map list_state (sort_key (\<lambda>r. - rr_QueuedAt r) tbl)"

definition ListActiveStates :: "requests_table \<Rightarrow> RunnerState list" where
  "ListActiveStates tbl =
     map list_state (sort_key (\<lambda>r. - rr_QueuedAt r) (filter (\<lambda>r. rr_Status r \<in> set activeStatuses) tbl))"

definition ListMismatchedCompletedStates :: "int \<Rightarrow> requests_table \<Rightarrow> RunnerState list" where
  "ListMismatchedCompletedStates limit0 tbl =
     (let limit = (if limit0 \<le> 0 then 50 else limit0)
      in map list_state (take (nat limit) (sort_key (\<lambda>r. - rr_UpdatedAt r)
           (filter (\<lambda>r. rr_Status r = StatusCompleted
              \<and> rr_WorkflowJobID r \<noteq> None \<and> rr_WorkflowJobID r \<noteq> Some 0
              \<and> rr_AssignedJobID r \<noteq> 0 \<and> Some (rr_AssignedJobID r) \<noteq> rr_WorkflowJobID r) tbl))))"

definition ListFailedWorkflowJobStates :: "int \<Rightarrow> requests_table \<Rightarrow> RunnerState list" where
  "ListFailedWorkflowJobStates limit0 tbl =
     (let limit = (if limit0 \<le> 0 then 50 else limit0)
      in map list_state (take (nat limit) (sort_key (\<lambda>r. - rr_UpdatedAt r)
           (filter (\<lambda>r. rr_Status r = StatusFailed
              \<and> rr_WorkflowJobID r \<noteq> None \<and> rr_WorkflowJobID r \<noteq> Some 0
              \<and> rr_FailureStage r \<in> {''recovery'', ''cleanup''}) tbl))))"

record RunnerRequestListOptions =
  lo_RepositoryFullName :: string
  lo_ProfileName :: string
  lo_DisplayStatus :: string
  lo_Limit :: int
  lo_Offset :: int

record RunnerRequestCursor =
  cu_QueuedAt :: instant
  cu_ID :: string

definition unmatched_row :: "runnerRequestRecord \<Rightarrow> bool" where
  "unmatched_row r \<longleftrightarrow> rr_FailureStage r = ''admission'' \<and> rr_FailureReason r = ''profile_labels_not_matched''"

definition display_status_filter :: "string \<Rightarrow> (runnerRequestRecord \<Rightarrow> bool) result" where
  "display_status_filter display =
     (let status = ToLower (TrimSpace display)
      in if status = [] then Inr (\<lambda>r. True)
         else if status \<in> set (map status_string
                   [StatusQueued, StatusCreating, StatusRunning, StatusStopping, StatusCompleted])
           then Inr (\<lambda>r. status_string (rr_Status r) = status)
         else if status = ''unmatched'' then Inr (\<lambda>r. rr_Status r = StatusFailed \<and> unmatched_row r)
         else if status = status_string StatusFailed
           then Inr (\<lambda>r. rr_Status r = StatusFailed \<and> \<not> unmatched_row r)
         else Inl (Errorf ''unsupported Runner request display status''))"

definition filterRunnerRequestList ::
  "requests_table \<Rightarrow> RunnerRequestListOptions \<Rightarrow> requests_table result" where
  "filterRunnerRequestList query options =
     (let repository = TrimSpace (lo_RepositoryFullName options);
          profile = TrimSpace (lo_ProfileName options);
          q1 = (if repository \<noteq> [] then filter (\<lambda>r. rr_RepositoryFullName r = repository) query else query);
          q2 = (if profile \<noteq> [] then filter (\<lambda>r. rr_ProfileName r = profile) q1 else q1)
      in result_bind (display_status_filter (lo_DisplayStatus options)) (\<lambda>P. Inr (filter P q2)))"

definition ListStatesPage ::
  "RunnerRequestListOptions \<Rightarrow> requests_table \<Rightarrow> (RunnerState list \<times> int) result" where
  "ListStatesPage options tbl =
     (let limit = (if lo_Limit options \<le> 0 then 100 else lo_Limit options)
      in if lo_Offset options < 0 then Inl (Errorf ''offset must be a non-negative integer'')
         else result_bind (filterRunnerRequestList tbl options) (\<lambda>q.
           Inr (map list_state (take (nat limit) (drop (nat (lo_Offset options)) (newest_first q))),
                int (length q))))"

text \<open>The rows of a cursor page, before their conversion to states.\<close>

definition cursor_rows ::
  "RunnerRequestListOptions \<Rightarrow> RunnerRequestCursor option \<Rightarrow> requests_table \<Rightarrow> (requests_table \<times> bool) result" where
  "cursor_rows options after tbl =
     (let limit = (if lo_Limit options \<le> 0 then 100 else lo_Limit options)
      in result_bind (filterRunnerRequestList tbl options) (\<lambda>q.
         result_bind
           (case after of
              None \<Rightarrow> Inr q
            | Some cur \<Rightarrow>
                if cu_ID cur = [] \<or> IsZero (cu_QueuedAt cur) then Inl (Errorf ''invalid Runner request cursor'')
                else Inr (filter (\<lambda>r. rr_QueuedAt r < cu_QueuedAt cur \<or>
                       (rr_QueuedAt r = cu_QueuedAt cur \<and> rr_ID r > cu_ID cur)) q)) (\<lambda>q1.
         let records = take (nat limit + 1) (newest_first q1);
             hasMore = length records > nat limit
         in Inr (if hasMore then take (nat limit) records else records, hasMore))))"

definition ListStatesCursor ::
  "RunnerRequestListOptions \<Rightarrow> RunnerRequestCursor option \<Rightarrow> requests_table \<Rightarrow> (RunnerState list \<times> bool) result" where
  "ListStatesCursor options after tbl =
     result_bind (cursor_rows options after tbl) (\<lambda>(records, hasMore). Inr (map list_state records, hasMore))"

text \<open>
  The cursor that the handler of the runner list hands out, from the last state of a page with
  more behind it, and a client that follows it until it gets none. The first argument bounds the
  number of pages.
\<close>

definition next_cursor :: "RunnerState list \<Rightarrow> bool \<Rightarrow> RunnerRequestCursor option" where
  "next_cursor states hasMore =
     (if hasMore \<and> states \<noteq> []
      then Some \<lparr> cu_QueuedAt = rs_CreatedAt (last states), cu_ID = rs_ID (last states) \<rparr> else None)"

fun follow_pages :: "nat \<Rightarrow> RunnerRequestListOptions \<Rightarrow> RunnerRequestCursor option \<Rightarrow> requests_table \<Rightarrow>
    (RunnerState list) result" where
  "follow_pages 0 options after tbl = Inl (Errorf ''too many pages'')"
| "follow_pages (Suc n) options after tbl =
     result_bind (ListStatesCursor options after tbl) (\<lambda>(states, hasMore).
       case next_cursor states hasMore of
         None \<Rightarrow> Inr states
       | Some cur \<Rightarrow> result_bind (follow_pages n options (Some cur) tbl) (\<lambda>rest. Inr (states @ rest)))"

subsection \<open>Metrics\<close>

record RunnerRequestMetrics =
  rm_Queued :: int
  rm_Creating :: int
  rm_Running :: int
  rm_Stopping :: int
  rm_Completed :: int
  rm_Failed :: int
  rm_Unmatched :: int
  rm_RunnerSpecs :: int

text \<open>The inner query groups the rows by status, stage and reason; the outer one sums the groups.\<close>

definition metrics_groups :: "requests_table \<Rightarrow> ((runner_status \<times> string \<times> string) \<times> int) list" where
  "metrics_groups tbl =
     (let key = (\<lambda>r. (rr_Status r, rr_FailureStage r, rr_FailureReason r))
      in map (\<lambda>k. (k, count_rows (\<lambda>r. key r = k) tbl)) (remdups (map key tbl)))"

definition sum_groups :: "(runner_status \<times> string \<times> string \<Rightarrow> bool) \<Rightarrow>
    ((runner_status \<times> string \<times> string) \<times> int) list \<Rightarrow> int" where
  "sum_groups P gs = sum_list (map (\<lambda>(k, n). if P k then n else 0) gs)"

definition GetRunnerRequestMetrics :: "requests_table \<Rightarrow> int \<Rightarrow> RunnerRequestMetrics" where
  "GetRunnerRequestMetrics tbl runnerSpecs =
     (let gs = metrics_groups tbl;
          unmatched = (\<lambda>(s, stage, reason). s = StatusFailed \<and> stage = ''admission'' \<and> reason = ''profile_labels_not_matched'');
          by_status = (\<lambda>s0. sum_groups (\<lambda>(s, _, _). s = s0) gs)
      in \<lparr> rm_Queued = by_status StatusQueued, rm_Creating = by_status StatusCreating,
           rm_Running = by_status StatusRunning, rm_Stopping = by_status StatusStopping,
           rm_Completed = by_status StatusCompleted,
           rm_Failed = sum_groups (\<lambda>(s, stage, reason). s = StatusFailed \<and>
              (stage \<noteq> ''admission'' \<or> reason \<noteq> ''profile_labels_not_matched'')) gs,
           rm_Unmatched = sum_groups unmatched gs,
           rm_RunnerSpecs = runnerSpecs \<rparr>)"

subsection \<open>Pattern matching and counts\<close>

text \<open>SQL \<^verbatim>\<open>text LIKE pattern ESCAPE '!'\<close>.\<close>

fun like :: "string \<Rightarrow> string \<Rightarrow> bool" where
  "like [] t = (t = [])"
| "like (p # ps) t =
     (if p = CHR ''!'' then
        (case (ps, t) of (q # qs, c # cs) \<Rightarrow> c = q \<and> like qs cs | _ \<Rightarrow> False)
      else if p = CHR ''%'' then
        like ps t \<or> (case t of [] \<Rightarrow> False | c # cs \<Rightarrow> like (p # ps) cs)
      else if p = CHR ''_'' then (case t of [] \<Rightarrow> False | c # cs \<Rightarrow> like ps cs)
      else (case t of [] \<Rightarrow> False | c # cs \<Rightarrow> c = p \<and> like ps cs))"

text \<open>\<^verbatim>\<open>strings.NewReplacer("!", "!!", "%", "!%", "_", "!_")\<close>.\<close>

definition escape_like :: "string \<Rightarrow> string" where
  "escape_like s = concat (map (\<lambda>c. if c = CHR ''!'' \<or> c = CHR ''%'' \<or> c = CHR ''_'' then [CHR ''!'', c] else [c]) s)"

definition ListRunnerRequestRepositories :: "string \<Rightarrow> int \<Rightarrow> requests_table \<Rightarrow> string list \<times> bool" where
  "ListRunnerRequestRepositories query limit0 tbl =
     (let limit = nat (if limit0 \<le> 0 then 50 else limit0);
          search = ToLower (TrimSpace query);
          rows = filter (\<lambda>r. rr_RepositoryFullName r \<noteq> [] \<and>
                   (search = [] \<or> like (''%'' @ escape_like search @ ''%'') (ToLower (rr_RepositoryFullName r)))) tbl;
          repositories = take (limit + 1) (sort (remdups (map rr_RepositoryFullName rows)));
          hasMore = length repositories > limit
      in (if hasMore then take limit repositories else repositories, hasMore))"

definition ActiveCount :: "requests_table \<Rightarrow> int" where
  "ActiveCount tbl = count_rows (\<lambda>r. rr_Status r \<in> set activeStatuses) tbl"

definition InFlightCount :: "requests_table \<Rightarrow> int" where
  "InFlightCount tbl = count_rows (\<lambda>r. rr_Status r \<in> set inFlightStatuses) tbl"

definition InFlightCountForRepositoryOwner :: "string \<Rightarrow> requests_table \<Rightarrow> int" where
  "InFlightCountForRepositoryOwner owner0 tbl =
     (let owner = ToLower (TrimSpace owner0)
      in if owner = [] then 0
         else count_rows (\<lambda>r. like (escape_like owner @ ''/%'') (ToLower (rr_RepositoryFullName r))
                \<and> rr_Status r \<in> set inFlightStatuses) tbl)"

definition InFlightCountForRepository :: "string \<Rightarrow> requests_table \<Rightarrow> int" where
  "InFlightCountForRepository repositoryFullName0 tbl =
     (let repositoryFullName = TrimSpace repositoryFullName0
      in if repositoryFullName = [] then 0
         else count_rows (\<lambda>r. ToLower (rr_RepositoryFullName r) = ToLower repositoryFullName
                \<and> rr_Status r \<in> set inFlightStatuses) tbl)"

definition countStatesForProfileSource ::
  "string \<Rightarrow> string list \<Rightarrow> runner_status list \<Rightarrow> requests_table \<Rightarrow> int" where
  "countStatesForProfileSource name sources statuses tbl =
     count_rows (\<lambda>r. rr_ProfileName r = TrimSpace name \<and> rr_ProfileSource r \<in> set sources
       \<and> rr_Status r \<in> set statuses) tbl"

definition ActiveCountForProfile :: "string \<Rightarrow> requests_table \<Rightarrow> int" where
  "ActiveCountForProfile name tbl = countStatesForProfileSource name [[], ''global''] activeStatuses tbl"

definition InFlightCountForProfile :: "string \<Rightarrow> requests_table \<Rightarrow> int" where
  "InFlightCountForProfile name tbl = countStatesForProfileSource name [[], ''global''] inFlightStatuses tbl"

record RunnerProfileScope =
  sc_Type :: string
  sc_ID :: int

definition RunnerProfileScopeAccount :: string where
  "RunnerProfileScopeAccount = ''account''"

definition RunnerProfileScopeGitHubInstallation :: string where
  "RunnerProfileScopeGitHubInstallation = ''github_installation''"

definition ValidateRunnerProfileScope :: "RunnerProfileScope \<Rightarrow> unit result" where
  "ValidateRunnerProfileScope scope =
     (if sc_Type scope \<noteq> RunnerProfileScopeAccount \<and> sc_Type scope \<noteq> RunnerProfileScopeGitHubInstallation
      then Inl (Errorf ''invalid runner profile scope type'')
      else if sc_ID scope \<le> 0 then Inl (Errorf ''invalid runner profile scope id'')
      else Inr ())"

definition countStatesForProfileScope ::
  "string \<Rightarrow> RunnerProfileScope \<Rightarrow> string \<Rightarrow> runner_status list \<Rightarrow> requests_table \<Rightarrow> int result" where
  "countStatesForProfileScope source scope name statuses tbl =
     result_bind (ValidateRunnerProfileScope scope) (\<lambda>_.
       Inr (count_rows (\<lambda>r. rr_ProfileSource r = source \<and> rr_ProfileScopeType r = sc_Type scope
         \<and> rr_ProfileScopeID r = sc_ID scope \<and> rr_ProfileName r = TrimSpace name
         \<and> rr_Status r \<in> set statuses) tbl))"

definition ActiveCountForProfileScope ::
  "string \<Rightarrow> RunnerProfileScope \<Rightarrow> string \<Rightarrow> requests_table \<Rightarrow> int result" where
  "ActiveCountForProfileScope source scope name tbl =
     countStatesForProfileScope source scope name activeStatuses tbl"

definition InFlightCountForProfileScope ::
  "string \<Rightarrow> RunnerProfileScope \<Rightarrow> string \<Rightarrow> requests_table \<Rightarrow> int result" where
  "InFlightCountForProfileScope source scope name tbl =
     countStatesForProfileScope source scope name inFlightStatuses tbl"

subsection \<open>Queries for repositories and installations\<close>

definition ListStatesForRepositories :: "string list \<Rightarrow> int \<Rightarrow> requests_table \<Rightarrow> RunnerState list" where
  "ListStatesForRepositories repositories0 limit0 tbl =
     (let repositories = uniqueTrimmed repositories0;
          limit = (if limit0 \<le> 0 \<or> limit0 > 500 then 500 else limit0)
      in if repositories = [] then []
         else map list_state (take (nat limit) (sort_key (\<lambda>r. - rr_QueuedAt r)
                (filter (\<lambda>r. rr_RepositoryFullName r \<in> set repositories) tbl))))"

definition ListStatesForGitHubInstallations :: "int list \<Rightarrow> int \<Rightarrow> requests_table \<Rightarrow> RunnerState list" where
  "ListStatesForGitHubInstallations ids0 limit0 tbl =
     (let ids = uniquePositiveInt64s ids0;
          limit = (if limit0 \<le> 0 \<or> limit0 > 500 then 500 else limit0)
      in if ids = [] then []
         else map list_state (take (nat limit) (sort_key (\<lambda>r. - rr_QueuedAt r)
                (filter (\<lambda>r. rr_GitHubInstallationID r \<in> set ids) tbl))))"

record GitHubInstallationRepositoryAccess =
  ra_InstallationID :: int
  ra_Repositories :: "string list"

text \<open>
  The map of sets that \<open>normalizeGitHubInstallationRepositoryAccess\<close> fills is read through its
  sorted keys, so it is given here by them: the repositories of one installation, and the
  installations that have any.
\<close>

definition access_repositories :: "GitHubInstallationRepositoryAccess list \<Rightarrow> int \<Rightarrow> string list" where
  "access_repositories access i =
     sort (remdups (concat (map (\<lambda>a. uniqueLowerTrimmed (ra_Repositories a))
       (filter (\<lambda>a. ra_InstallationID a = i) access))))"

definition normalizeGitHubInstallationRepositoryAccess ::
  "GitHubInstallationRepositoryAccess list \<Rightarrow> GitHubInstallationRepositoryAccess list" where
  "normalizeGitHubInstallationRepositoryAccess access =
     (let ids = sort (remdups (map ra_InstallationID (filter (\<lambda>a. ra_InstallationID a > 0) access)))
      in map (\<lambda>i. \<lparr> ra_InstallationID = i, ra_Repositories = access_repositories access i \<rparr>)
           (filter (\<lambda>i. access_repositories access i \<noteq> []) ids))"

record githubInstallationRepositoryAccessQueryBatch =
  qb_installation :: int
  qb_repositories :: "string list"
  qb_parameterCount :: int

function batch_loop :: "nat \<Rightarrow> int \<Rightarrow> string list \<Rightarrow> githubInstallationRepositoryAccessQueryBatch list" where
  "batch_loop chunk i repositories =
     (if repositories = [] \<or> chunk = 0 then []
      else let repositoryCount = min (length repositories) chunk
           in \<lparr> qb_installation = i, qb_repositories = take repositoryCount repositories,
                qb_parameterCount = 1 + int repositoryCount \<rparr>
              # batch_loop chunk i (drop repositoryCount repositories))"
  by auto
termination by (relation "measure (\<lambda>(_, _, rs). length rs)") (auto simp: min_def)

declare batch_loop.simps [simp del]

definition githubInstallationRepositoryAccessQueryBatches ::
  "GitHubInstallationRepositoryAccess list \<Rightarrow> int \<Rightarrow> githubInstallationRepositoryAccessQueryBatch list" where
  "githubInstallationRepositoryAccessQueryBatches access maxParameters0 =
     (let maxParameters = (if maxParameters0 < 2 then 2 else maxParameters0)
      in concat (map (\<lambda>item. batch_loop (nat (maxParameters - 1)) (ra_InstallationID item) (ra_Repositories item))
           (normalizeGitHubInstallationRepositoryAccess access)))"

definition maxRunnerRequestRepositoryAccessQueryParameters :: int where
  "maxRunnerRequestRepositoryAccessQueryParameters = 900"

definition batch_matches :: "githubInstallationRepositoryAccessQueryBatch \<Rightarrow> runnerRequestRecord \<Rightarrow> bool" where
  "batch_matches b r \<longleftrightarrow> rr_GitHubInstallationID r = qb_installation b
     \<and> ToLower (rr_RepositoryFullName r) \<in> set (qb_repositories b)"

text \<open>The assignments \<open>recordsByID[record.ID] = record\<close>: a later row replaces one of the same key.\<close>

definition records_by_id :: "requests_table \<Rightarrow> requests_table" where
  "records_by_id rows = fold (\<lambda>r acc. r # filter (\<lambda>x. rr_ID x \<noteq> rr_ID r) acc) rows []"

definition installation_page_rows ::
  "GitHubInstallationRepositoryAccess list \<Rightarrow> int \<Rightarrow> int \<Rightarrow> requests_table \<Rightarrow> requests_table \<times> int" where
  "installation_page_rows access limit0 offset0 tbl =
     (let batches = githubInstallationRepositoryAccessQueryBatches access
            maxRunnerRequestRepositoryAccessQueryParameters
      in if batches = [] then ([], 0)
         else
           let limit = (if limit0 \<le> 0 \<or> limit0 > 500 then 500 else limit0);
               offset = (if offset0 < 0 then 0 else offset0);
               total1 = sum_list (map (\<lambda>b. count_rows (batch_matches b) tbl) batches)
           in if offset \<ge> total1 then ([], total1)
              else
                let queryLimit = (if limit \<le> total1 - offset then offset + limit else total1);
                    records = newest_first (records_by_id (concat (map (\<lambda>b.
                      take (nat queryLimit) (newest_first (filter (batch_matches b) tbl))) batches)))
                in (take (nat limit) (drop (nat offset) records), total1))"

definition ListStatesForGitHubInstallationRepositories ::
  "GitHubInstallationRepositoryAccess list \<Rightarrow> int \<Rightarrow> int \<Rightarrow> requests_table \<Rightarrow> RunnerState list \<times> int" where
  "ListStatesForGitHubInstallationRepositories access limit offset tbl =
     (case installation_page_rows access limit offset tbl of (rows, total1) \<Rightarrow> (map list_state rows, total1))"

subsection \<open>Log events\<close>

record runnerEventRecord =
  re_ID :: int
  re_RequestID :: string
  re_EventType :: string
  re_Stage :: string
  re_Message :: string
  re_CreatedAt :: instant

record RunnerEvent =
  ev_ID :: int
  ev_EventType :: string
  ev_Stage :: string
  ev_Message :: string
  ev_CreatedAt :: instant

type_synonym events_table = "runnerEventRecord list"

definition next_event_id :: "events_table \<Rightarrow> int" where
  "next_event_id evs = 1 + fold max (map re_ID evs) 0"

definition AppendStagedLog :: "instant \<Rightarrow> string \<Rightarrow> string \<Rightarrow> string \<Rightarrow> string \<Rightarrow> events_table \<Rightarrow> events_table" where
  "AppendStagedLog now id0 name stage data evs =
     (if data = [] then evs
      else case logEventType name of
             Inl _ \<Rightarrow> evs
           | Inr eventType \<Rightarrow> evs @ [\<lparr> re_ID = next_event_id evs, re_RequestID = sanitizeID id0,
               re_EventType = eventType, re_Stage = stage, re_Message = data, re_CreatedAt = now \<rparr>])"

definition AppendLog :: "instant \<Rightarrow> string \<Rightarrow> string \<Rightarrow> string \<Rightarrow> events_table \<Rightarrow> events_table" where
  "AppendLog now id0 name data evs = AppendStagedLog now id0 name [] data evs"

definition ReadLog :: "string \<Rightarrow> string \<Rightarrow> int \<Rightarrow> events_table \<Rightarrow> string result" where
  "ReadLog id0 name maxBytes evs =
     (case logEventType name of
        Inl e \<Rightarrow> Inl e
      | Inr eventType \<Rightarrow>
          let events = sort_key re_ID (filter (\<lambda>e. re_RequestID e = sanitizeID id0 \<and> re_EventType e = eventType) evs)
          in if events = [] then Inl ErrNotExist
             else let data = concat (map re_Message events)
                  in if maxBytes > 0 \<and> int (length data) > maxBytes
                     then Inr (drop (length data - nat maxBytes) data) else Inr data)"

definition to_RunnerEvent :: "runnerEventRecord \<Rightarrow> RunnerEvent" where
  "to_RunnerEvent e = \<lparr> ev_ID = re_ID e, ev_EventType = re_EventType e, ev_Stage = re_Stage e,
     ev_Message = re_Message e, ev_CreatedAt = re_CreatedAt e \<rparr>"

definition ListRunnerEvents ::
  "string \<Rightarrow> int \<Rightarrow> int \<Rightarrow> string list \<Rightarrow> events_table \<Rightarrow> RunnerEvent list \<times> bool" where
  "ListRunnerEvents id0 beforeID limit0 eventTypes evs =
     (let limit = nat (min (max limit0 1) 500);
          q0 = filter (\<lambda>e. re_RequestID e = sanitizeID id0) evs;
          q1 = (if beforeID > 0 then filter (\<lambda>e. re_ID e < beforeID) q0 else q0);
          q2 = (if eventTypes \<noteq> [] then filter (\<lambda>e. re_EventType e \<in> set eventTypes) q1 else q1);
          records = take (limit + 1) (sort_key (\<lambda>e. - re_ID e) q2);
          truncated = length records > limit;
          kept = (if truncated then take limit records else records)
      in (map to_RunnerEvent (rev kept), truncated))"

definition ListRunnerEventsAfter ::
  "string \<Rightarrow> int \<Rightarrow> int \<Rightarrow> string list \<Rightarrow> events_table \<Rightarrow> RunnerEvent list \<times> bool" where
  "ListRunnerEventsAfter id0 afterID limit0 eventTypes evs =
     (let limit = nat (min (max limit0 1) 500);
          q0 = filter (\<lambda>e. re_RequestID e = sanitizeID id0 \<and> re_ID e > afterID) evs;
          q1 = (if eventTypes \<noteq> [] then filter (\<lambda>e. re_EventType e \<in> set eventTypes) q0 else q0);
          records = take (limit + 1) (sort_key re_ID q1);
          hasMore = length records > limit
      in (map to_RunnerEvent (if hasMore then take limit records else records), hasMore))"

subsection \<open>Facts on sorted rows\<close>

definition list_key :: "runnerRequestRecord \<Rightarrow> instant \<times> string" where
  "list_key r = (- rr_QueuedAt r, rr_ID r)"

lemma newest_first_list_key: "newest_first = sort_key list_key"
  by (simp add: newest_first_def [abs_def] list_key_def [abs_def])

lemma table_ok_list_key_inj: "table_ok tbl \<Longrightarrow> set rows \<subseteq> set tbl \<Longrightarrow> inj_on list_key (set rows)"
  using table_ok_id_unique [of tbl] by (auto simp: inj_on_def list_key_def)

lemma table_ok_distinct: "table_ok tbl \<Longrightarrow> distinct tbl"
  by (simp add: table_ok_def distinct_map)

lemma sorted_strict_append:
  assumes "sorted (map k (p @ s))" "distinct (map k (p @ s))" "x \<in> set p" "y \<in> set s"
  shows "k x < (k y :: 'b :: linorder)"
  using assms by (auto simp: sorted_append order.strict_iff_order)

text \<open>Rows after the last row of a prefix are exactly the rest.\<close>

lemma filter_after_prefix:
  fixes k :: "'a \<Rightarrow> 'b :: linorder"
  assumes "sorted (map k (p @ s))" "distinct (map k (p @ s))" "p \<noteq> []"
  shows "filter (\<lambda>x. k (last p) < k x) (p @ s) = s"
proof -
  have "filter (\<lambda>x. k (last p) < k x) p = []"
  proof (rule filter_False, rule ballI)
    fix x assume x: "x \<in> set p"
    have "sorted (map k p)" using assms(1) by (simp add: sorted_append)
    then have "k x \<le> k (last p)"
      using x assms(3) by (induction p rule: rev_induct) (auto simp: sorted_append)
    then show "\<not> k (last p) < k x" by simp
  qed
  moreover have "filter (\<lambda>x. k (last p) < k x) s = s"
    using sorted_strict_append [OF assms(1,2)] assms(3) by (auto intro!: filter_True)
  ultimately show ?thesis by simp
qed

lemma cursor_rows_prefix:
  assumes ok: "table_ok tbl" and flt: "filterRunnerRequestList tbl options = Inr q"
    and pos: "list_all (\<lambda>r. rr_QueuedAt r \<noteq> 0) tbl"
    and split: "newest_first q = p @ s"
    and lim: "lim = nat (if lo_Limit options \<le> 0 then 100 else lo_Limit options)"
    and after: "after = (if p = [] then None else Some \<lparr> cu_QueuedAt = rr_QueuedAt (last p), cu_ID = rr_ID (last p) \<rparr>)"
  shows "cursor_rows options after tbl = Inr (take lim s, length s > lim)"
proof -
  have sub: "set q \<subseteq> set tbl"
    using flt by (auto simp: filterRunnerRequestList_def Let_def split: if_splits)
  have setps: "set (p @ s) = set q" using split by (metis newest_first_list_key set_sort)
  have "distinct q"
    using flt table_ok_distinct [OF ok] by (auto simp: filterRunnerRequestList_def Let_def split: if_splits)
  then have dist: "distinct (map list_key (p @ s))"
    using table_ok_list_key_inj [OF ok sub] split setps
    by (metis distinct_map distinct_sort newest_first_list_key)
  have srt: "sorted (map list_key (p @ s))" using split by (metis newest_first_list_key sorted_sort_key)
  have page: "newest_first (if p = [] then q else filter (\<lambda>r. list_key (last p) < list_key r) q) = s"
  proof (cases "p = []")
    case False
    have "newest_first (filter (\<lambda>r. list_key (last p) < list_key r) q) = filter (\<lambda>r. list_key (last p) < list_key r) (p @ s)"
      using split by (simp add: newest_first_list_key flip: filter_sort)
    then show ?thesis using filter_after_prefix [OF srt dist False] False by simp
  qed (use split in simp)
  have cond: "(rr_QueuedAt r < rr_QueuedAt (last p) \<or> rr_QueuedAt r = rr_QueuedAt (last p) \<and> rr_ID (last p) < rr_ID r)
      = (list_key (last p) < list_key r)" for r
    by (auto simp: list_key_def)
  have valid: "p \<noteq> [] \<Longrightarrow> rr_ID (last p) \<noteq> [] \<and> rr_QueuedAt (last p) \<noteq> 0"
    using ok pos sub setps by (auto simp: table_ok_def row_wf_def list_all_iff dest!: last_in_set)
  have len: "length (take (Suc lim) s) > lim \<longleftrightarrow> length s > lim" by auto
  have "cursor_rows options after tbl = Inr (if length s > lim then take lim (take (Suc lim) s) else take (Suc lim) s, length s > lim)"
    using flt after valid page lim
    by (auto simp: cursor_rows_def Let_def IsZero_def cond len)
  then show ?thesis by (auto simp: min_def)
qed

lemma list_state_simps [simp]:
  "rs_ID (list_state r) = rr_ID r" "rs_CreatedAt (list_state r) = rr_QueuedAt r"
  by (simp_all add: list_state_def list_projection_def)

lemma follow_pages_suffix:
  assumes ok: "table_ok tbl" and flt: "filterRunnerRequestList tbl options = Inr q"
    and pos: "list_all (\<lambda>r. rr_QueuedAt r \<noteq> 0) tbl"
  shows "newest_first q = p @ s \<Longrightarrow> length s < n \<Longrightarrow>
    follow_pages n options (if p = [] then None else Some \<lparr> cu_QueuedAt = rr_QueuedAt (last p), cu_ID = rr_ID (last p) \<rparr>) tbl
      = Inr (map list_state s)"
proof (induction n arbitrary: p s)
  case (Suc n)
  let ?after = "if p = [] then None else Some \<lparr> cu_QueuedAt = rr_QueuedAt (last p), cu_ID = rr_ID (last p) \<rparr>"
  define lim where "lim = nat (if lo_Limit options \<le> 0 then 100 else lo_Limit options)"
  have "0 < lim" by (simp add: lim_def)
  have rows: "ListStatesCursor options ?after tbl = Inr (map list_state (take lim s), length s > lim)"
    using cursor_rows_prefix [OF ok flt pos Suc.prems(1) lim_def refl] by (simp add: ListStatesCursor_def)
  show ?case
  proof (cases "length s > lim")
    case False
    then show ?thesis using rows by (simp add: next_cursor_def)
  next
    case True
    let ?p = "p @ take lim s"
    have ne: "take lim s \<noteq> []" using True \<open>0 < lim\<close> by auto
    have nc: "next_cursor (map list_state (take lim s)) True = (if ?p = [] then None
        else Some \<lparr> cu_QueuedAt = rr_QueuedAt (last ?p), cu_ID = rr_ID (last ?p) \<rparr>)"
      using ne by (simp add: next_cursor_def last_map)
    have "follow_pages n options (next_cursor (map list_state (take lim s)) True) tbl = Inr (map list_state (drop lim s))"
      unfolding nc using Suc.prems True \<open>0 < lim\<close> by (intro Suc.IH) auto
    then show ?thesis using rows True ne
      by (simp add: next_cursor_def flip: map_append)
  qed
qed simp

subsection \<open>Facts on the metrics\<close>

lemma sum_counts_by_key:
  assumes "finite K" "key ` set tbl \<subseteq> K"
  shows "(\<Sum>k\<in>K. if P k then count_rows (\<lambda>r. key r = k) tbl else 0) = count_rows (\<lambda>r. P (key r)) tbl"
  using assms(2)
proof (induction tbl)
  case (Cons r tbl)
  have "(\<Sum>k\<in>K. if P k then count_rows (\<lambda>r. key r = k) (r # tbl) else 0)
      = (\<Sum>k\<in>K. (if k = key r then (if P k then 1 else 0) else 0) + (if P k then count_rows (\<lambda>r. key r = k) tbl else 0))"
    by (intro sum.cong) auto
  also have "\<dots> = (if P (key r) then 1 else 0) + count_rows (\<lambda>r. P (key r)) tbl"
    using Cons assms(1) by (simp add: sum.distrib)
  finally show ?case by simp
qed (auto intro!: sum.neutral)

lemma sum_groups_metrics:
  "sum_groups P (metrics_groups tbl) = count_rows (\<lambda>r. P (rr_Status r, rr_FailureStage r, rr_FailureReason r)) tbl"
proof -
  let ?key = "\<lambda>r. (rr_Status r, rr_FailureStage r, rr_FailureReason r)"
  have "sum_groups P (metrics_groups tbl)
      = sum_list (map (\<lambda>k. if P k then count_rows (\<lambda>r. ?key r = k) tbl else 0) (remdups (map ?key tbl)))"
    by (simp add: sum_groups_def metrics_groups_def Let_def comp_def)
  also have "\<dots> = (\<Sum>k\<in>set (map ?key tbl). if P k then count_rows (\<lambda>r. ?key r = k) tbl else 0)"
    by (subst sum_list_distinct_conv_sum_set) simp_all
  also have "\<dots> = count_rows (\<lambda>r. P (?key r)) tbl"
    by (rule sum_counts_by_key) auto
  finally show ?thesis .
qed

lemma count_rows_total:
  "count_rows (\<lambda>r. rr_Status r = StatusQueued) tbl + count_rows (\<lambda>r. rr_Status r = StatusCreating) tbl
   + count_rows (\<lambda>r. rr_Status r = StatusRunning) tbl + count_rows (\<lambda>r. rr_Status r = StatusStopping) tbl
   + count_rows (\<lambda>r. rr_Status r = StatusCompleted) tbl
   + count_rows (\<lambda>r. rr_Status r = StatusFailed \<and> \<not> unmatched_row r) tbl
   + count_rows (\<lambda>r. rr_Status r = StatusFailed \<and> unmatched_row r) tbl = int (length tbl)"
  by (induction tbl) (auto split: if_splits, (metis runner_status.exhaust)+)

subsection \<open>Facts on the patterns\<close>

lemma like_literal [simp]:
  "c \<noteq> CHR ''!'' \<Longrightarrow> c \<noteq> CHR ''%'' \<Longrightarrow> c \<noteq> CHR ''_'' \<Longrightarrow>
    like (c # ps) t \<longleftrightarrow> (\<exists>t'. t = c # t' \<and> like ps t')"
  by (cases t) auto

lemma like_escape: "like (escape_like s @ ps) t \<longleftrightarrow> (\<exists>t'. t = s @ t' \<and> like ps t')"
proof (induction s arbitrary: t)
  case (Cons c s)
  have "escape_like (c # s) = (if c = CHR ''!'' \<or> c = CHR ''%'' \<or> c = CHR ''_'' then [CHR ''!'', c] else [c]) @ escape_like s"
    by (simp add: escape_like_def)
  then show ?case using Cons by (cases t) auto
qed (simp add: escape_like_def)

lemma like_all [simp]: "like ''%'' t"
  by (induction t) auto

lemma like_anywhere: "like (CHR ''%'' # ps) t \<longleftrightarrow> (\<exists>u v. t = u @ v \<and> like ps v)"
proof (induction t)
  case (Cons c t)
  have "like (CHR ''%'' # ps) (c # t) \<longleftrightarrow> like ps (c # t) \<or> like (CHR ''%'' # ps) t" by simp
  then show ?case using Cons by (auto simp: Cons_eq_append_conv)
qed simp

declare like.simps(2) [simp del]

lemma like_owner: "like (escape_like owner @ ''/%'') t \<longleftrightarrow> HasPrefix t (owner @ ''/'')"
  by (auto simp: like_escape HasPrefix_iff)

lemma like_contains: "like (''%'' @ escape_like s @ ''%'') t \<longleftrightarrow> Contains t s"
  by (auto simp: like_anywhere like_escape Contains_iff)


subsection \<open>Facts on the batches\<close>

lemma batch_loop_Nil [simp]: "batch_loop chunk i [] = []"
  by (subst batch_loop.simps) simp

lemma batch_loop_step:
  "rs \<noteq> [] \<Longrightarrow> 0 < chunk \<Longrightarrow> batch_loop chunk i rs =
    \<lparr> qb_installation = i, qb_repositories = take chunk rs, qb_parameterCount = 1 + int (min (length rs) chunk) \<rparr>
      # batch_loop chunk i (drop chunk rs)"
  by (subst batch_loop.simps) (auto simp: Let_def min_def)

lemma batch_loop_induct [consumes 1, case_names empty chunk]:
  assumes "0 < chunk" "P []" "\<And>rs. rs \<noteq> [] \<Longrightarrow> P (drop chunk rs) \<Longrightarrow> P rs"
  shows "P (rs :: string list)"
proof (induction "length rs" arbitrary: rs rule: less_induct)
  case less
  show ?case
  proof (cases "rs = []")
    case False
    then have "length (drop chunk rs) < length rs" using assms(1) by simp
    then show ?thesis using assms(3) [OF False] less by blast
  qed (use assms(2) in simp)
qed

lemma batch_loop_concat:
  assumes "0 < chunk" shows "concat (map qb_repositories (batch_loop chunk i rs)) = rs"
  using assms
proof (induction rs rule: batch_loop_induct)
  case (chunk rs)
  then show ?case using assms by (subst batch_loop_step) simp_all
qed simp

lemma batch_loop_members:
  assumes "0 < chunk"
  shows "b \<in> set (batch_loop chunk i rs) \<Longrightarrow>
    qb_installation b = i \<and> qb_parameterCount b = 1 + int (length (qb_repositories b))
      \<and> length (qb_repositories b) \<le> chunk \<and> qb_repositories b \<noteq> []"
  using assms
proof (induction rs rule: batch_loop_induct)
  case (chunk rs)
  from chunk(3) consider "b = \<lparr> qb_installation = i, qb_repositories = take chunk rs, qb_parameterCount = 1 + int (min (length rs) chunk) \<rparr>"
    | "b \<in> set (batch_loop chunk i (drop chunk rs))"
    by (subst (asm) batch_loop_step [OF chunk(1) assms]) auto
  then show ?case using chunk(1,2) assms by cases auto
qed simp

definition access_match :: "GitHubInstallationRepositoryAccess list \<Rightarrow> runnerRequestRecord \<Rightarrow> bool" where
  "access_match access r \<longleftrightarrow> (\<exists>a\<in>set access. ra_InstallationID a > 0 \<and> rr_GitHubInstallationID r = ra_InstallationID a
     \<and> ToLower (rr_RepositoryFullName r) \<in> set (uniqueLowerTrimmed (ra_Repositories a)))"

lemma set_access_repositories:
  "set (access_repositories access i) = (\<Union>a\<in>{a \<in> set access. ra_InstallationID a = i}. set (uniqueLowerTrimmed (ra_Repositories a)))"
  by (auto simp: access_repositories_def)

lemma in_normalize:
  "item \<in> set (normalizeGitHubInstallationRepositoryAccess access) \<longleftrightarrow>
    (\<exists>a\<in>set access. ra_InstallationID a > 0 \<and> access_repositories access (ra_InstallationID a) \<noteq> []
      \<and> item = \<lparr> ra_InstallationID = ra_InstallationID a, ra_Repositories = access_repositories access (ra_InstallationID a) \<rparr>)"
  by (auto simp: normalizeGitHubInstallationRepositoryAccess_def Let_def image_iff)

lemma normalize_match:
  "(\<exists>item\<in>set (normalizeGitHubInstallationRepositoryAccess access).
      rr_GitHubInstallationID r = ra_InstallationID item \<and> ToLower (rr_RepositoryFullName r) \<in> set (ra_Repositories item))
    \<longleftrightarrow> access_match access r" (is "?l \<longleftrightarrow> ?r")
proof
  assume ?l
  then show ?r by (auto simp: in_normalize set_access_repositories access_match_def) metis
next
  assume ?r
  then obtain a where a: "a \<in> set access" "ra_InstallationID a > 0" "rr_GitHubInstallationID r = ra_InstallationID a"
      "ToLower (rr_RepositoryFullName r) \<in> set (access_repositories access (ra_InstallationID a))"
    by (auto simp: access_match_def set_access_repositories)
  then have "access_repositories access (ra_InstallationID a) \<noteq> []" by auto
  with a show ?l
    by (intro bexI [of _ "\<lparr> ra_InstallationID = ra_InstallationID a, ra_Repositories = access_repositories access (ra_InstallationID a) \<rparr>"])
       (auto simp: in_normalize)
qed

lemma normalize_distinct:
  "distinct (map ra_InstallationID (normalizeGitHubInstallationRepositoryAccess access))"
  "item \<in> set (normalizeGitHubInstallationRepositoryAccess access) \<Longrightarrow> distinct (ra_Repositories item)"
  by (auto simp: normalizeGitHubInstallationRepositoryAccess_def access_repositories_def Let_def comp_def)

lemma sum_list_sum_lists: "sum_list (concat xss) = sum_list (map sum_list (xss :: int list list))"
  by (induction xss) simp_all

lemma count_concat_chunks:
  "distinct (concat rss) \<Longrightarrow>
    sum_list (map (\<lambda>rs. count_rows (\<lambda>r. P r \<and> f r \<in> set rs) tbl) rss) = count_rows (\<lambda>r. P r \<and> f r \<in> set (concat rss)) tbl"
proof (induction rss)
  case (Cons rs rss)
  have "count_rows (\<lambda>r. P r \<and> f r \<in> set (concat (rs # rss))) tbl
      = count_rows (\<lambda>r. P r \<and> f r \<in> set rs) tbl + count_rows (\<lambda>r. P r \<and> f r \<in> set (concat rss)) tbl"
    using Cons.prems by (subst count_rows_split [where Q = "\<lambda>r. f r \<in> set rs"])
      (auto intro!: arg_cong2 [where f = "(+)"] count_rows_cong)
  then show ?case using Cons by simp
qed (simp add: count_rows_def)

lemma count_batch_loop:
  assumes "0 < chunk" "distinct rs"
  shows "sum_list (map (\<lambda>b. count_rows (batch_matches b) tbl) (batch_loop chunk i rs))
    = count_rows (\<lambda>r. rr_GitHubInstallationID r = i \<and> ToLower (rr_RepositoryFullName r) \<in> set rs) tbl"
proof -
  let ?n = "\<lambda>rs. count_rows (\<lambda>r. rr_GitHubInstallationID r = i \<and> ToLower (rr_RepositoryFullName r) \<in> set rs) tbl"
  have eq: "map (\<lambda>b. count_rows (batch_matches b) tbl) (batch_loop chunk i rs) = map ?n (map qb_repositories (batch_loop chunk i rs))"
    using batch_loop_members [OF assms(1)] by (auto simp: batch_matches_def [abs_def])
  have "sum_list (map ?n (map qb_repositories (batch_loop chunk i rs))) = ?n (concat (map qb_repositories (batch_loop chunk i rs)))"
    by (rule count_concat_chunks) (simp add: batch_loop_concat assms)
  then show ?thesis unfolding eq batch_loop_concat [OF assms(1)] .
qed

lemma count_disjoint_items:
  "distinct (map ra_InstallationID items) \<Longrightarrow>
    sum_list (map (\<lambda>item. count_rows (\<lambda>r. rr_GitHubInstallationID r = ra_InstallationID item
        \<and> ToLower (rr_RepositoryFullName r) \<in> set (ra_Repositories item)) tbl) items)
    = count_rows (\<lambda>r. \<exists>item\<in>set items. rr_GitHubInstallationID r = ra_InstallationID item
        \<and> ToLower (rr_RepositoryFullName r) \<in> set (ra_Repositories item)) tbl"
proof (induction items)
  case (Cons x items)
  let ?m = "\<lambda>item r. rr_GitHubInstallationID r = ra_InstallationID item \<and> ToLower (rr_RepositoryFullName r) \<in> set (ra_Repositories item)"
  have "count_rows (\<lambda>r. \<exists>item\<in>set (x # items). ?m item r) tbl
      = count_rows (?m x) tbl + count_rows (\<lambda>r. \<exists>item\<in>set items. ?m item r) tbl"
    using Cons.prems by (subst count_rows_split [where Q = "?m x"])
      (auto intro!: arg_cong2 [where f = "(+)"] count_rows_cong simp: image_iff)
  then show ?case using Cons by simp
qed (simp add: count_rows_def)

lemma batches_cover:
  "(\<exists>b\<in>set (githubInstallationRepositoryAccessQueryBatches access m). batch_matches b r) \<longleftrightarrow> access_match access r"
proof -
  let ?c = "nat ((if m < 2 then 2 else m) - 1)"
  have c: "0 < ?c" by simp
  have one: "(\<exists>b\<in>set (batch_loop ?c i rs). batch_matches b r) \<longleftrightarrow> rr_GitHubInstallationID r = i \<and> ToLower (rr_RepositoryFullName r) \<in> set rs" for i rs
  proof -
    have "set rs = (\<Union>b\<in>set (batch_loop ?c i rs). set (qb_repositories b))"
      using arg_cong [OF batch_loop_concat [OF c, of i rs], of set] by simp
    then show ?thesis using batch_loop_members [OF c, of _ i rs] by (auto simp: batch_matches_def)
  qed
  then show ?thesis
    unfolding githubInstallationRepositoryAccessQueryBatches_def Let_def normalize_match [symmetric]
    by auto
qed

lemma batches_total:
  "sum_list (map (\<lambda>b. count_rows (batch_matches b) tbl) (githubInstallationRepositoryAccessQueryBatches access m))
    = count_rows (access_match access) tbl"
proof -
  let ?c = "nat ((if m < 2 then 2 else m) - 1)"
  let ?items = "normalizeGitHubInstallationRepositoryAccess access"
  have c: "0 < ?c" by simp
  have "sum_list (map (\<lambda>b. count_rows (batch_matches b) tbl) (githubInstallationRepositoryAccessQueryBatches access m))
      = sum_list (map (\<lambda>item. sum_list (map (\<lambda>b. count_rows (batch_matches b) tbl)
          (batch_loop ?c (ra_InstallationID item) (ra_Repositories item)))) ?items)"
    by (simp add: githubInstallationRepositoryAccessQueryBatches_def Let_def map_concat sum_list_sum_lists comp_def)
  also have "\<dots> = sum_list (map (\<lambda>item. count_rows (\<lambda>r. rr_GitHubInstallationID r = ra_InstallationID item
      \<and> ToLower (rr_RepositoryFullName r) \<in> set (ra_Repositories item)) tbl) ?items)"
    using count_batch_loop [OF c] normalize_distinct(2) by (intro arg_cong [where f = sum_list] map_cong) auto
  also have "\<dots> = count_rows (\<lambda>r. access_match access r) tbl"
    by (simp only: count_disjoint_items [OF normalize_distinct(1)] normalize_match)
  finally show ?thesis .
qed

subsubsection \<open>The first rows of the merged batches\<close>

lemma filter_take_subset: "set (filter P (take n xs)) \<subseteq> set (take n (filter P xs))"
proof -
  have "filter P xs = filter P (take n xs) @ filter P (drop n xs)"
    by (metis append_take_drop_id filter_append)
  moreover have "length (filter P (take n xs)) \<le> n"
    using length_filter_le [of P "take n xs"] by simp
  ultimately show ?thesis by (auto simp: take_append)
qed

lemma sort_key_subset:
  fixes k :: "'a \<Rightarrow> 'b :: linorder"
  assumes "distinct xs" "inj_on k (set xs)" "distinct ys" "set ys \<subseteq> set xs"
  shows "sort_key k ys = filter (\<lambda>x. x \<in> set ys) (sort_key k xs)"
proof -
  have "set (sort_key k ys) = set (filter (\<lambda>x. x \<in> set ys) (sort_key k xs))" using assms(4) by auto
  moreover have "sorted (map k (filter (\<lambda>x. x \<in> set ys) (sort_key k xs)))" by (simp add: sorted_filter)
  moreover have "inj_on k (set (sort_key k ys) \<union> set (filter (\<lambda>x. x \<in> set ys) (sort_key k xs)))"
    using assms(2,4) by (auto simp: inj_on_def)
  ultimately show ?thesis
    using assms(1,3) by (intro map_sorted_distinct_set_unique) (auto simp: distinct_map inj_on_def)
qed

lemma take_sort_key_superset:
  fixes k :: "'a \<Rightarrow> 'b :: linorder"
  assumes "distinct xs" "inj_on k (set xs)" "distinct ys" "set ys \<subseteq> set xs" "set (take n (sort_key k xs)) \<subseteq> set ys"
  shows "take n (sort_key k ys) = take n (sort_key k xs)"
proof -
  let ?L = "sort_key k xs"
  let ?f = "filter (\<lambda>x. x \<in> set ys)"
  have "?f (take n ?L) = take n ?L" using assms(5) by (intro filter_True) auto
  then have "?f ?L = take n ?L @ ?f (drop n ?L)" by (metis append_take_drop_id filter_append)
  moreover have "n \<le> length ?L \<or> drop n ?L = []" by auto
  ultimately have "take n (?f ?L) = take n ?L" by (auto simp: min_def)
  then show ?thesis using sort_key_subset [OF assms(1-4)] by simp
qed

lemma records_by_id_spec:
  assumes "inj_on rr_ID (set rows)"
  shows "set (records_by_id rows) = set rows \<and> distinct (map rr_ID (records_by_id rows))"
  using assms
proof (induction rows rule: rev_induct)
  case (snoc r rows)
  then have IH: "set (records_by_id rows) = set rows" "distinct (map rr_ID (records_by_id rows))"
    by (auto simp: inj_on_def)
  have step: "records_by_id (rows @ [r]) = r # filter (\<lambda>x. rr_ID x \<noteq> rr_ID r) (records_by_id rows)"
    by (simp add: records_by_id_def)
  have "x \<in> set rows \<Longrightarrow> rr_ID x = rr_ID r \<Longrightarrow> x = r" for x
    using snoc.prems by (auto simp: inj_on_def)
  then show ?case using IH unfolding step by (auto simp: distinct_map_filter)
qed (simp add: records_by_id_def)

lemma merged_batches:
  assumes ok: "table_ok tbl" and cover: "\<And>r. (\<exists>b\<in>set bs. M b r) \<longleftrightarrow> P r"
  shows "take n (newest_first (records_by_id (concat (map (\<lambda>b. take n (newest_first (filter (M b) tbl))) bs))))
      = take n (newest_first (filter P tbl))
    \<and> length (records_by_id (concat (map (\<lambda>b. take n (newest_first (filter (M b) tbl))) bs))) \<le> length (filter P tbl)"
proof -
  let ?S = "filter P tbl"
  let ?rows = "concat (map (\<lambda>b. take n (newest_first (filter (M b) tbl))) bs)"
  have M: "b \<in> set bs \<Longrightarrow> M b r \<Longrightarrow> P r" for b r using cover by blast
  have sub: "set ?rows \<subseteq> set ?S"
    using M by (auto dest!: in_set_takeD simp: newest_first_list_key)
  have inj: "inj_on rr_ID (set ?rows)"
    using inj_on_subset [of rr_ID "set tbl" "set ?rows"] ok sub by (auto simp: table_ok_def distinct_map)
  have recs: "set (records_by_id ?rows) = set ?rows" "distinct (records_by_id ?rows)"
    using records_by_id_spec [OF inj] by (auto simp: distinct_map)
  have top: "set (take n (newest_first ?S)) \<subseteq> set ?rows"
  proof
    fix r assume r: "r \<in> set (take n (newest_first ?S))"
    then have "P r" by (auto dest!: in_set_takeD simp: newest_first_list_key)
    then obtain b where b: "b \<in> set bs" "M b r" using cover by blast
    have "filter (M b) (newest_first ?S) = newest_first (filter (M b) tbl)"
      using M b(1) by (auto simp: newest_first_list_key filter_sort intro!: arg_cong [where f = "sort_key list_key"] filter_cong)
    then have "r \<in> set (take n (newest_first (filter (M b) tbl)))"
      using filter_take_subset [of "M b" n "newest_first ?S"] r b(2) by auto
    then show "r \<in> set ?rows" using b(1) by auto
  qed
  have "length (records_by_id ?rows) \<le> length ?S"
    using recs sub table_ok_distinct [OF ok] by (metis card_mono distinct_card distinct_filter List.finite_set)
  moreover have "take n (newest_first (records_by_id ?rows)) = take n (newest_first ?S)"
    unfolding newest_first_list_key
    using table_ok_distinct [OF ok] table_ok_list_key_inj [OF ok, of ?S] recs sub top
    by (intro take_sort_key_superset) (auto simp: newest_first_list_key)
  ultimately show ?thesis by blast
qed

lemma page_of_prefix:
  assumes "take q xs = take q rows" "length xs \<le> length rows" "q = off + lim \<or> q = length rows"
  shows "take lim (drop off xs) = take lim (drop off rows)"
  using assms(3)
proof
  assume "q = off + lim"
  then show ?thesis using assms(1) by (simp add: take_drop add.commute)
next
  assume "q = length rows"
  then show ?thesis using assms(1,2) by simp
qed

subsection \<open>Facts on the log events\<close>

lemma fold_max_ge: "a \<le> fold max xs (a :: int) \<and> (\<forall>x\<in>set xs. x \<le> fold max xs a)"
proof (induction xs arbitrary: a)
  case (Cons y xs)
  have "max y a \<le> fold max xs (max y a)" using Cons by blast
  then have "y \<le> fold max xs (max y a)" "a \<le> fold max xs (max y a)" by (meson max.boundedE)+
  then show ?case using Cons by simp
qed simp

lemma next_event_id_fresh: "e \<in> set evs \<Longrightarrow> re_ID e < next_event_id evs"
  using fold_max_ge [of 0 "map re_ID evs"] by (auto simp: next_event_id_def)

lemma sort_key_snoc_max: "(\<And>x. x \<in> set xs \<Longrightarrow> k x \<le> k y) \<Longrightarrow> sort_key k (xs @ [y]) = sort_key k xs @ [y]"
proof (induction xs)
  case (Cons x xs)
  have "insort_key k x (zs @ [y]) = insort_key k x zs @ [y]" for zs
    using Cons.prems [of x] by (induction zs) auto
  then show ?case using Cons by simp
qed simp

definition log_text :: "string \<Rightarrow> string \<Rightarrow> events_table \<Rightarrow> string" where
  "log_text i name evs = (case ReadLog i name 0 evs of Inl _ \<Rightarrow> [] | Inr data \<Rightarrow> data)"

lemma ReadLog_AppendLog:
  assumes "logEventType name = Inr ty" "data \<noteq> []"
  shows "ReadLog i name 0 (AppendLog now i name data evs) = Inr (log_text i name evs @ data)"
proof -
  let ?P = "\<lambda>e. re_RequestID e = sanitizeID i \<and> re_EventType e = ty"
  let ?new = "\<lparr> re_ID = next_event_id evs, re_RequestID = sanitizeID i, re_EventType = ty, re_Stage = [],
               re_Message = data, re_CreatedAt = now \<rparr>"
  have app: "AppendLog now i name data evs = evs @ [?new]"
    using assms by (simp add: AppendLog_def AppendStagedLog_def)
  have "sort_key re_ID (filter ?P evs @ [?new]) = sort_key re_ID (filter ?P evs) @ [?new]"
    by (rule sort_key_snoc_max) (use next_event_id_fresh in force)
  then show ?thesis
    unfolding app using assms(1) by (auto simp: ReadLog_def log_text_def Let_def)
qed

subsection \<open>Properties\<close>

definition any_request :: RunnerRequestListOptions where
  "any_request = \<lparr> lo_RepositoryFullName = [], lo_ProfileName = [], lo_DisplayStatus = [], lo_Limit = 1, lo_Offset = 0 \<rparr>"

text \<open>C13: a client that follows the cursor of the runner list page by page gets every request of the
  filtered list exactly once, newest first, and reaches the last page: one page more than there are
  requests always suffices.\<close>

theorem cursor_pages_enumerate:
  assumes "table_ok tbl" "filterRunnerRequestList tbl options = Inr q"
    and "list_all (\<lambda>r. rr_QueuedAt r \<noteq> 0) tbl" "length q < n"
  shows "follow_pages n options None tbl = Inr (map list_state (newest_first q))"
proof -
  have "length (newest_first q) = length q" by (simp add: newest_first_def)
  then show ?thesis using follow_pages_suffix [OF assms(1-3), of "[]" "newest_first q" n] assms(4) by simp
qed

theorem cursor_pages_enumerate_witness:
  "follow_pages 3 any_request None [sample_row, sample_row2] = Inr (map list_state (newest_first [sample_row, sample_row2]))"
  by (rule cursor_pages_enumerate)
     (simp_all add: table_ok_def row_wf_def filterRunnerRequestList_def display_status_filter_def any_request_def sample_row2_def)

text \<open>The metrics query, which groups the rows before it evaluates the buckets, gives the direct
  counts: every request is in exactly one of the seven buckets, and the buckets for failed and
  unmatched requests count what the list filters of these names show.\<close>

theorem metrics_partition:
  "let m = GetRunnerRequestMetrics tbl specs in
     rm_Queued m + rm_Creating m + rm_Running m + rm_Stopping m + rm_Completed m + rm_Failed m + rm_Unmatched m
       = int (length tbl)
     \<and> display_status_filter ''failed'' = Inr (\<lambda>r. rr_Status r = StatusFailed \<and> \<not> unmatched_row r)
     \<and> rm_Failed m = count_rows (\<lambda>r. rr_Status r = StatusFailed \<and> \<not> unmatched_row r) tbl
     \<and> display_status_filter ''unmatched'' = Inr (\<lambda>r. rr_Status r = StatusFailed \<and> unmatched_row r)
     \<and> rm_Unmatched m = count_rows (\<lambda>r. rr_Status r = StatusFailed \<and> unmatched_row r) tbl
     \<and> rm_Creating m + rm_Running m + rm_Stopping m = InFlightCount tbl"
proof -
  have failed: "count_rows (\<lambda>r. rr_Status r = StatusFailed \<and>
      (rr_FailureStage r = ''admission'' \<longrightarrow> rr_FailureReason r \<noteq> ''profile_labels_not_matched'')) tbl
    = count_rows (\<lambda>r. rr_Status r = StatusFailed \<and> \<not> unmatched_row r) tbl"
    by (rule count_rows_cong) (auto simp: unmatched_row_def)
  have unmatched: "count_rows (\<lambda>r. rr_Status r = StatusFailed \<and> rr_FailureStage r = ''admission'' \<and>
      rr_FailureReason r = ''profile_labels_not_matched'') tbl
    = count_rows (\<lambda>r. rr_Status r = StatusFailed \<and> unmatched_row r) tbl"
    by (rule count_rows_cong) (auto simp: unmatched_row_def)
  have inflight: "count_rows (\<lambda>r. rr_Status r = StatusCreating) tbl + count_rows (\<lambda>r. rr_Status r = StatusRunning) tbl
     + count_rows (\<lambda>r. rr_Status r = StatusStopping) tbl = InFlightCount tbl"
    unfolding InFlightCount_def inFlightStatuses_def by (induction tbl) auto
  have filters: "display_status_filter ''failed'' = Inr (\<lambda>r. rr_Status r = StatusFailed \<and> \<not> unmatched_row r)"
    "display_status_filter ''unmatched'' = Inr (\<lambda>r. rr_Status r = StatusFailed \<and> unmatched_row r)"
    by (simp_all add: display_status_filter_def TrimSpace_def is_space_def lower_char_def)
  show ?thesis
    using count_rows_total [of tbl]
    by (simp add: GetRunnerRequestMetrics_def Let_def sum_groups_metrics failed unmatched inflight filters)
qed

text \<open>C17: the query for the repositories of many installations, split so that no statement has more
  than the allowed number of parameters, returns the page and the total of the direct query over all
  of them.\<close>

theorem installation_pages_direct:
  assumes "table_ok tbl"
  shows "installation_page_rows access limit0 offset0 tbl =
     (let limit = (if limit0 \<le> 0 \<or> limit0 > 500 then 500 else limit0);
          offset = (if offset0 < 0 then 0 else offset0);
          rows = newest_first (filter (access_match access) tbl)
      in (take (nat limit) (drop (nat offset) rows), int (length rows)))
   \<and> list_all (\<lambda>b. qb_parameterCount b \<le> maxRunnerRequestRepositoryAccessQueryParameters)
        (githubInstallationRepositoryAccessQueryBatches access maxRunnerRequestRepositoryAccessQueryParameters)"
proof
  let ?bs = "githubInstallationRepositoryAccessQueryBatches access maxRunnerRequestRepositoryAccessQueryParameters"
  let ?lim = "if limit0 \<le> 0 \<or> limit0 > 500 then 500 else limit0"
  let ?off = "if offset0 < 0 then 0 else offset0"
  let ?rows = "newest_first (filter (access_match access) tbl)"
  let ?q = "nat (if ?lim \<le> int (length ?rows) - ?off then ?off + ?lim else int (length ?rows))"
  have len: "length ?rows = length (filter (access_match access) tbl)" by (simp add: newest_first_def)
  have cnt: "sum_list (map (\<lambda>b. count_rows (batch_matches b) tbl) ?bs) = int (length ?rows)"
    unfolding batches_total by (simp add: count_rows_def len)
  let ?xs = "newest_first (records_by_id (concat (map (\<lambda>b. take ?q (newest_first (filter (batch_matches b) tbl))) ?bs)))"
  have merged: "take ?q ?xs = take ?q ?rows" "length ?xs \<le> length ?rows"
    using merged_batches [OF assms batches_cover, of ?q] len by (simp_all add: newest_first_def)
  have q: "nat (if l \<le> int n - k then k + l else int n) = nat k + nat l \<or> nat (if l \<le> int n - k then k + l else int n) = n"
    if "0 \<le> l" "0 \<le> k" for l k n using that by (auto simp: nat_add_distrib)
  have cut: "take (nat ?lim) (drop (nat ?off) ?xs) = take (nat ?lim) (drop (nat ?off) ?rows)"
    by (rule page_of_prefix [OF merged], rule q) simp_all
  show "installation_page_rows access limit0 offset0 tbl = (let limit = ?lim; offset = ?off; rows = ?rows
      in (take (nat limit) (drop (nat offset) rows), int (length rows)))"
  proof (cases "?bs = []")
    case True
    then have "filter (access_match access) tbl = []" using batches_cover [of access maxRunnerRequestRepositoryAccessQueryParameters] by (simp add: filter_empty_conv)
    then show ?thesis using True by (simp add: installation_page_rows_def newest_first_def)
  next
    case False
    show ?thesis
    proof (cases "?off < int (length ?rows)")
      case True
      then show ?thesis unfolding installation_page_rows_def Let_def cnt if_not_P [OF False] using cut by simp
    next
      case ge: False
      then show ?thesis unfolding installation_page_rows_def Let_def cnt if_not_P [OF False] by simp
    qed
  qed
next
  show "list_all (\<lambda>b. qb_parameterCount b \<le> maxRunnerRequestRepositoryAccessQueryParameters)
        (githubInstallationRepositoryAccessQueryBatches access maxRunnerRequestRepositoryAccessQueryParameters)"
    using batch_loop_members [of 899]
    by (fastforce simp: list_all_iff githubInstallationRepositoryAccessQueryBatches_def maxRunnerRequestRepositoryAccessQueryParameters_def)
qed

theorem installation_pages_direct_witness:
  "installation_page_rows [\<lparr> ra_InstallationID = 3, ra_Repositories = [''Acme/App''] \<rparr>] 1 0 [sample_row, sample_row2] =
     (let limit = (if (1::int) \<le> 0 \<or> (1::int) > 500 then 500 else 1);
          offset = (if (0::int) < 0 then 0 else 0);
          rows = newest_first (filter (access_match [\<lparr> ra_InstallationID = 3, ra_Repositories = [''Acme/App''] \<rparr>]) [sample_row, sample_row2])
      in (take (nat limit) (drop (nat offset) rows), int (length rows)))
   \<and> list_all (\<lambda>b. qb_parameterCount b \<le> maxRunnerRequestRepositoryAccessQueryParameters)
        (githubInstallationRepositoryAccessQueryBatches [\<lparr> ra_InstallationID = 3, ra_Repositories = [''Acme/App''] \<rparr>] maxRunnerRequestRepositoryAccessQueryParameters)"
  by (rule installation_pages_direct) (simp add: table_ok_def row_wf_def)

text \<open>Log text round trip. What is appended to a log of a request is what reading that log gives
  at its end, after everything read before, and a bounded read returns the last bytes.\<close>

theorem log_roundtrip:
  assumes "logEventType name = Inr ty" "data \<noteq> []" "0 < maxBytes"
  shows "ReadLog i name 0 (AppendLog now i name data evs) = Inr (log_text i name evs @ data)
    \<and> ReadLog i name maxBytes (AppendLog now i name data evs)
      = Inr (let t = log_text i name evs @ data in drop (length t - nat maxBytes) t)"
proof -
  let ?evs = "AppendLog now i name data evs"
  have full: "ReadLog i name 0 ?evs = Inr (log_text i name evs @ data)"
    using assms(1,2) by (rule ReadLog_AppendLog)
  then have "ReadLog i name maxBytes ?evs = Inr (let t = log_text i name evs @ data in drop (length t - nat maxBytes) t)"
    using assms(1,3) by (auto simp: ReadLog_def Let_def split: if_splits)
  with full show ?thesis by simp
qed

theorem log_roundtrip_witness:
  "ReadLog ''job-7'' ''stdout.log'' 0 (AppendLog 9 ''job-7'' ''stdout.log'' ''hello'' []) = Inr (log_text ''job-7'' ''stdout.log'' [] @ ''hello'')
    \<and> ReadLog ''job-7'' ''stdout.log'' 2 (AppendLog 9 ''job-7'' ''stdout.log'' ''hello'' [])
      = Inr (let t = log_text ''job-7'' ''stdout.log'' [] @ ''hello'' in drop (length t - nat 2) t)"
  by (rule log_roundtrip [where ty = "''stdout_log''"]) (simp_all add: logEventType_def filepath_Base_def)

text \<open>The escaped patterns mean what they should: the count for a repository owner counts exactly
  the requests in flight whose repository starts with that owner and a slash, whatever wildcard
  characters the owner has, and the repository search finds exactly the repositories that contain
  the search text.\<close>

theorem owner_pattern_exact:
  "InFlightCountForRepositoryOwner owner tbl =
     (if TrimSpace owner = [] then 0
      else count_rows (\<lambda>r. HasPrefix (ToLower (rr_RepositoryFullName r)) (ToLower (TrimSpace owner) @ ''/'')
             \<and> rr_Status r \<in> {StatusCreating, StatusRunning, StatusStopping}) tbl)
   \<and> (like (''%'' @ escape_like search @ ''%'') name \<longleftrightarrow> Contains name search)"
proof -
  have "like (escape_like o1 @ ''/%'') = (\<lambda>t. HasPrefix t (o1 @ ''/''))" for o1
    by (simp add: fun_eq_iff like_owner)
  then show ?thesis
    unfolding like_contains by (simp add: InFlightCountForRepositoryOwner_def inFlightStatuses_def Let_def)
qed

end
