(* ===== verification/Catalog.thy ===== *)
theory Catalog
  imports RunnerQueries
begin

text \<open>
  Runner profiles and how a job's labels select one: \<^verbatim>\<open>internal/labelutil/labels.go\<close>,
  \<^verbatim>\<open>internal/state/catalog.go\<close>, \<^verbatim>\<open>internal/state/scoped_catalog.go\<close>,
  \<^verbatim>\<open>internal/state/profile_policy.go\<close>, \<^verbatim>\<open>internal/runnercatalog/public_templates.go\<close>,
  \<^verbatim>\<open>internal/server/server_default_templates.go\<close> and the profile lookups of
  \<^verbatim>\<open>internal/server/server_runner_lifecycle.go\<close>.

  The hash of a label set (SHA-256 of its JSON) is a parameter \<open>h\<close> of the definitions that use it.
  Tables are lists of rows as in the theory of the request table.
\<close>

subsection \<open>Labels\<close>

definition canonical_label :: "string \<Rightarrow> string" where
  "canonical_label l = ToLower (TrimSpace l)"

definition Match :: "string list \<Rightarrow> string list \<Rightarrow> bool" where
  "Match jobLabels required =
     (if jobLabels = [] then True
      else let available = map canonical_label required
           in list_all (\<lambda>label. canonical_label label \<in> set available) jobLabels)"

definition labelsMatch :: "string list \<Rightarrow> string list \<Rightarrow> bool" where
  "labelsMatch jobLabels required = Match jobLabels required"

text \<open>The first loop of \<open>NormalizeWorkflowLabels\<close>; the map \<open>seen\<close> as the list of its keys.\<close>

fun distinct_labels :: "string list \<Rightarrow> string list \<Rightarrow> string list" where
  "distinct_labels seen [] = []"
| "distinct_labels seen (raw # rest) =
     (let label = TrimSpace raw; canonical = ToLower label
      in if label = [] \<or> canonical \<in> set seen then distinct_labels seen rest
         else label # distinct_labels (canonical # seen) rest)"

definition NormalizeWorkflowLabels :: "(string list \<Rightarrow> string) \<Rightarrow> string list \<Rightarrow> (string list \<times> string) result" where
  "NormalizeWorkflowLabels h labels =
     (let normalized = sort_key ToLower (distinct_labels [] labels)
      in if normalized = [] then Inl (Errorf ''workflow labels are required'')
         else Inr (normalized, h (map ToLower normalized)))"

subsection \<open>Profiles and their policy\<close>

record RunnerProfile =
  rp_TemplateSource :: string
  rp_Published :: bool
  rp_Name :: string
  rp_Labels :: "string list"
  rp_RequiredLabels :: "string list"
  rp_TemplateID :: string
  rp_DefaultTemplateName :: string
  rp_RunnerGroup :: string
  rp_MaxConcurrency :: int
  rp_MinIdle :: int
  rp_Priority :: int
  rp_Enabled :: bool
  rp_ManagedBy :: string
  rp_CatalogRevision :: int
  rp_CreatedAt :: instant
  rp_UpdatedAt :: instant

record runnerProfileRecord =
  pr_TemplateSource :: string
  pr_Published :: bool
  pr_Name :: string
  pr_LabelsJSON :: json_labels
  pr_RequiredLabelsJSON :: "json_labels option"
  pr_TemplateID :: string
  pr_DefaultTemplateName :: string
  pr_RunnerGroup :: string
  pr_MaxConcurrency :: int
  pr_MinIdle :: int
  pr_Priority :: int
  pr_Enabled :: bool
  pr_DefaultAvailable :: bool
  pr_ManagedBy :: string
  pr_CatalogRevision :: int
  pr_CreatedAt :: instant
  pr_UpdatedAt :: instant

type_synonym profiles_table = "runnerProfileRecord list"

definition TemplateSourcePublic :: string where
  "TemplateSourcePublic = ''public''"

definition TemplateSourcePrivate :: string where
  "TemplateSourcePrivate = ''private''"

definition NormalizeProfilePolicy :: "RunnerProfile \<Rightarrow> RunnerProfile" where
  "NormalizeProfilePolicy p =
     (if rp_TemplateSource p = [] then
        (if TrimSpace (rp_ManagedBy p) \<noteq> [] then
           (let p1 = p \<lparr> rp_TemplateSource := TemplateSourcePublic, rp_TemplateID := [] \<rparr>
            in if TrimSpace (rp_DefaultTemplateName p) \<noteq> [] then p1 \<lparr> rp_Published := True \<rparr> else p1)
         else p \<lparr> rp_TemplateSource := TemplateSourcePrivate \<rparr>)
      else p)"

definition ValidateProfilePolicy :: "RunnerProfile \<Rightarrow> unit result" where
  "ValidateProfilePolicy p =
     result_bind
       (if rp_TemplateSource p = TemplateSourcePublic then
          (if rp_Labels p = [] then Inl (Errorf ''public template specs require workflow labels'')
           else if TrimSpace (rp_DefaultTemplateName p) = [] \<or> TrimSpace (rp_TemplateID p) \<noteq> []
             then Inl (Errorf ''public templates require a stable template name and no physical template ID'')
           else Inr ())
        else if rp_TemplateSource p = TemplateSourcePrivate then
          (if TrimSpace (rp_DefaultTemplateName p) \<noteq> []
             then Inl (Errorf ''ID references must use a physical template ID, not a public template name'')
           else Inr ())
        else Inl (Errorf ''invalid template source''))
       (\<lambda>_. if rp_MaxConcurrency p < 0 \<or> rp_MinIdle p < 0
            then Inl (Errorf ''capacity values must not be negative'') else Inr ())"

definition validateProfileName :: "string \<Rightarrow> unit result" where
  "validateProfileName name =
     (if Contains name ''/'' \<or> name = ''.'' \<or> name = ''..''
      then Inl (Errorf ''profile name must not contain a slash or be a dot reference'') else Inr ())"

definition ValidateProfile :: "RunnerProfile \<Rightarrow> unit result" where
  "ValidateProfile profile =
     (let name = TrimSpace (rp_Name profile)
      in if name = [] then Inl (Errorf ''profile name is required'')
         else result_bind (validateProfileName name) (\<lambda>_.
           if \<not> labelsMatch (rp_RequiredLabels profile) (rp_Labels profile)
           then Inl (Errorf ''required labels must be a subset of labels'')
           else ValidateProfilePolicy (NormalizeProfilePolicy profile)))"

definition recordToProfile :: "runnerProfileRecord \<Rightarrow> RunnerProfile result" where
  "recordToProfile record =
     result_bind (json_Unmarshal_labels (pr_LabelsJSON record)) (\<lambda>labels.
     result_bind (case pr_RequiredLabelsJSON record of
                    None \<Rightarrow> Inr []
                  | Some data \<Rightarrow> if data = JEmpty \<or> data = JBlank then Inr [] else json_Unmarshal_labels data) (\<lambda>requiredLabels.
     Inr (NormalizeProfilePolicy \<lparr>
       rp_TemplateSource = pr_TemplateSource record,
       rp_Published = pr_Published record,
       rp_Name = pr_Name record,
       rp_Labels = labels,
       rp_RequiredLabels = requiredLabels,
       rp_TemplateID = pr_TemplateID record,
       rp_DefaultTemplateName = pr_DefaultTemplateName record,
       rp_RunnerGroup = pr_RunnerGroup record,
       rp_MaxConcurrency = pr_MaxConcurrency record,
       rp_MinIdle = pr_MinIdle record,
       rp_Priority = pr_Priority record,
       rp_Enabled = pr_Enabled record,
       rp_ManagedBy = pr_ManagedBy record,
       rp_CatalogRevision = pr_CatalogRevision record,
       rp_CreatedAt = pr_CreatedAt record,
       rp_UpdatedAt = pr_UpdatedAt record \<rparr>)))"

definition ListProfiles :: "profiles_table \<Rightarrow> (RunnerProfile list) result" where
  "ListProfiles tbl =
     map_result recordToProfile (sort_key (\<lambda>r. (- pr_Priority r, pr_Name r)) tbl)"

definition GetProfile :: "string \<Rightarrow> profiles_table \<Rightarrow> RunnerProfile result" where
  "GetProfile name tbl =
     (case find (\<lambda>r. pr_Name r = TrimSpace name) tbl of
        None \<Rightarrow> Inl ErrNotFound
      | Some r \<Rightarrow> recordToProfile r)"

text \<open>The row that \<open>saveProfile\<close> inserts and the columns it updates.\<close>

definition profileRecord :: "instant \<Rightarrow> RunnerProfile \<Rightarrow> runnerProfileRecord" where
  "profileRecord now p = \<lparr>
     pr_TemplateSource = rp_TemplateSource p,
     pr_Published = rp_Published p,
     pr_Name = rp_Name p,
     pr_LabelsJSON = JLabels (rp_Labels p),
     pr_RequiredLabelsJSON = Some (JLabels (rp_RequiredLabels p)),
     pr_TemplateID = rp_TemplateID p,
     pr_DefaultTemplateName = rp_DefaultTemplateName p,
     pr_RunnerGroup = rp_RunnerGroup p,
     pr_MaxConcurrency = rp_MaxConcurrency p,
     pr_MinIdle = rp_MinIdle p,
     pr_Priority = rp_Priority p,
     pr_Enabled = rp_Enabled p,
     pr_DefaultAvailable = True,
     pr_ManagedBy = rp_ManagedBy p,
     pr_CatalogRevision = rp_CatalogRevision p,
     pr_CreatedAt = (if IsZero (rp_CreatedAt p) then now else rp_CreatedAt p),
     pr_UpdatedAt = now \<rparr>"

definition profile_columns :: "runnerProfileRecord \<Rightarrow> runnerProfileRecord \<Rightarrow> runnerProfileRecord" where
  "profile_columns record r = r \<lparr>
     pr_LabelsJSON := pr_LabelsJSON record,
     pr_RequiredLabelsJSON := pr_RequiredLabelsJSON record,
     pr_TemplateID := pr_TemplateID record,
     pr_DefaultTemplateName := pr_DefaultTemplateName record,
     pr_TemplateSource := pr_TemplateSource record,
     pr_Published := pr_Published record,
     pr_RunnerGroup := pr_RunnerGroup record,
     pr_MaxConcurrency := pr_MaxConcurrency record,
     pr_MinIdle := pr_MinIdle record,
     pr_Priority := pr_Priority record,
     pr_Enabled := pr_Enabled record,
     pr_ManagedBy := pr_ManagedBy record,
     pr_CatalogRevision := pr_CatalogRevision record,
     pr_UpdatedAt := pr_UpdatedAt record \<rparr>"

definition saveProfile ::
  "instant \<Rightarrow> RunnerProfile \<Rightarrow> bool \<Rightarrow> instant option \<Rightarrow> profiles_table \<Rightarrow> profiles_table \<times> RunnerProfile result" where
  "saveProfile clock profile0 conditional expectedUpdatedAt tbl =
     (let profile = NormalizeProfilePolicy profile0 \<lparr> rp_Name := TrimSpace (rp_Name profile0) \<rparr>
      in case ValidateProfile profile of
           Inl e \<Rightarrow> (tbl, Inl e)
         | Inr _ \<Rightarrow>
             let now = (case (conditional, expectedUpdatedAt) of
                          (True, Some e) \<Rightarrow> if clock < e + Millisecond then e + Millisecond else clock
                        | _ \<Rightarrow> clock);
                 record = profileRecord now profile;
                 exists_row = list_ex (\<lambda>r. pr_Name r = pr_Name record) tbl
             in case (conditional, expectedUpdatedAt) of
                  (True, Some e) \<Rightarrow>
                    let P = (\<lambda>r. pr_Name r = pr_Name record \<and> pr_UpdatedAt r = e)
                    in if rows_affected P tbl = 0 then (tbl, Inl ErrConflict)
                       else let tbl' = update_where P (profile_columns record) tbl
                            in (tbl', GetProfile (pr_Name record) tbl')
                | (True, None) \<Rightarrow>
                    if exists_row then (tbl, Inl ErrConflict)
                    else (tbl @ [record], GetProfile (pr_Name record) (tbl @ [record]))
                | (False, _) \<Rightarrow>
                    let tbl' = (if exists_row
                                then update_where (\<lambda>r. pr_Name r = pr_Name record) (profile_columns record) tbl
                                else tbl @ [record])
                    in (tbl', GetProfile (pr_Name record) tbl'))"

definition UpsertProfile :: "instant \<Rightarrow> RunnerProfile \<Rightarrow> profiles_table \<Rightarrow> profiles_table \<times> RunnerProfile result" where
  "UpsertProfile clock profile tbl = saveProfile clock profile False None tbl"

definition UpsertProfileIfUnchanged ::
  "instant \<Rightarrow> RunnerProfile \<Rightarrow> instant option \<Rightarrow> profiles_table \<Rightarrow> profiles_table \<times> RunnerProfile result" where
  "UpsertProfileIfUnchanged clock profile expected tbl = saveProfile clock profile True expected tbl"

definition DeleteProfile :: "string \<Rightarrow> profiles_table \<Rightarrow> profiles_table" where
  "DeleteProfile name tbl = filter (\<lambda>r. pr_Name r \<noteq> TrimSpace name) tbl"

subsection \<open>Matching\<close>

definition profile_matches :: "string list \<Rightarrow> RunnerProfile \<Rightarrow> bool" where
  "profile_matches labels p \<longleftrightarrow> rp_Enabled p \<and> labelsMatch (rp_RequiredLabels p) labels \<and> labelsMatch labels (rp_Labels p)"

definition profile_rank :: "RunnerProfile \<Rightarrow> int \<times> int \<times> string" where
  "profile_rank p = (- rp_Priority p, - int (length (rp_Labels p)), rp_Name p)"

definition selectMatchingProfile :: "RunnerProfile list \<Rightarrow> string list \<Rightarrow> RunnerProfile option" where
  "selectMatchingProfile profiles labels =
     (case sort_key profile_rank (filter (profile_matches labels) profiles) of
        [] \<Rightarrow> None
      | selected # _ \<Rightarrow> Some selected)"

record ProfileMatch =
  pm_RepositoryFullName :: string
  pm_Labels :: "string list"
  pm_Profile :: "RunnerProfile option"
  pm_Source :: string
  pm_ScopeType :: string
  pm_ScopeID :: int
  pm_Reason :: string

definition profileMatchFromCandidates :: "string \<Rightarrow> string list \<Rightarrow> RunnerProfile list \<Rightarrow> ProfileMatch" where
  "profileMatchFromCandidates repositoryFullName labels profiles =
     (let selected = selectMatchingProfile profiles labels
      in \<lparr> pm_RepositoryFullName = repositoryFullName, pm_Labels = labels, pm_Profile = selected,
           pm_Source = [], pm_ScopeType = [], pm_ScopeID = 0,
           pm_Reason = (if selected = None then ''profile_labels_not_matched'' else []) \<rparr>)"

definition MatchProfile :: "string \<Rightarrow> string list \<Rightarrow> profiles_table \<Rightarrow> ProfileMatch result" where
  "MatchProfile repositoryFullName labels tbl =
     result_bind (ListProfiles tbl) (\<lambda>profiles.
       Inr (profileMatchFromCandidates repositoryFullName labels profiles \<lparr> pm_Source := ''global'' \<rparr>))"

subsection \<open>Scoped profiles\<close>

record ScopedRunnerProfile =
  sp_ScopeType :: string
  sp_ScopeID :: int
  sp_Name :: string
  sp_WorkflowLabels :: "string list"
  sp_LabelKey :: string
  sp_TemplateID :: string
  sp_RunnerGroup :: string
  sp_MaxConcurrency :: int
  sp_Enabled :: bool
  sp_CreatedAt :: instant
  sp_UpdatedAt :: instant

record scopedRunnerProfileRecord =
  sr_ScopeType :: string
  sr_ScopeID :: int
  sr_Name :: string
  sr_WorkflowLabelsJSON :: json_labels
  sr_LabelKey :: string
  sr_TemplateID :: string
  sr_RunnerGroup :: string
  sr_MaxConcurrency :: int
  sr_Enabled :: bool
  sr_CreatedAt :: instant
  sr_UpdatedAt :: instant

type_synonym scoped_table = "scopedRunnerProfileRecord list"

definition scopedProfileFromRecord :: "scopedRunnerProfileRecord \<Rightarrow> ScopedRunnerProfile result" where
  "scopedProfileFromRecord record =
     result_bind (json_Unmarshal_labels (sr_WorkflowLabelsJSON record)) (\<lambda>labels.
       Inr \<lparr> sp_ScopeType = sr_ScopeType record, sp_ScopeID = sr_ScopeID record, sp_Name = sr_Name record,
             sp_WorkflowLabels = labels, sp_LabelKey = sr_LabelKey record, sp_TemplateID = sr_TemplateID record,
             sp_RunnerGroup = sr_RunnerGroup record, sp_MaxConcurrency = sr_MaxConcurrency record,
             sp_Enabled = sr_Enabled record, sp_CreatedAt = sr_CreatedAt record, sp_UpdatedAt = sr_UpdatedAt record \<rparr>)"

definition in_scope :: "RunnerProfileScope \<Rightarrow> scopedRunnerProfileRecord \<Rightarrow> bool" where
  "in_scope scope r \<longleftrightarrow> sr_ScopeType r = sc_Type scope \<and> sr_ScopeID r = sc_ID scope"

definition ListScopedProfiles :: "RunnerProfileScope \<Rightarrow> scoped_table \<Rightarrow> (ScopedRunnerProfile list) result" where
  "ListScopedProfiles scope tbl =
     result_bind (ValidateRunnerProfileScope scope) (\<lambda>_.
       map_result scopedProfileFromRecord (sort_key sr_Name (filter (in_scope scope) tbl)))"

definition GetScopedProfile :: "RunnerProfileScope \<Rightarrow> string \<Rightarrow> scoped_table \<Rightarrow> ScopedRunnerProfile result" where
  "GetScopedProfile scope name tbl =
     result_bind (ValidateRunnerProfileScope scope) (\<lambda>_.
       case find (\<lambda>r. in_scope scope r \<and> sr_Name r = TrimSpace name) tbl of
         None \<Rightarrow> Inl ErrNotFound
       | Some r \<Rightarrow> scopedProfileFromRecord r)"

definition UpsertScopedProfileIfUnchanged ::
  "(string list \<Rightarrow> string) \<Rightarrow> instant \<Rightarrow> ScopedRunnerProfile \<Rightarrow> instant option \<Rightarrow> profiles_table \<Rightarrow> scoped_table
    \<Rightarrow> scoped_table \<times> ScopedRunnerProfile result" where
  "UpsertScopedProfileIfUnchanged h clock profile expectedUpdatedAt globals tbl =
     (let scope = \<lparr> sc_Type = sp_ScopeType profile, sc_ID = sp_ScopeID profile \<rparr>;
          name = TrimSpace (sp_Name profile)
      in case ValidateRunnerProfileScope scope of Inl e \<Rightarrow> (tbl, Inl e) | Inr _ \<Rightarrow>
         if name = [] \<or> Contains name ''/'' \<or> name = ''.'' \<or> name = ''..'' \<or> sp_MaxConcurrency profile < 0
         then (tbl, Inl (Errorf ''invalid scoped runner profile''))
         else
         let globalErr = (case GetProfile name globals of
            Inr global \<Rightarrow> if rp_Enabled global then Some ErrRunnerProfileNameConflict else None
          | Inl e \<Rightarrow> if e = ErrNotFound then None else Some e)
         in
         case globalErr of Some e \<Rightarrow> (tbl, Inl e) | None \<Rightarrow>
         case NormalizeWorkflowLabels h (sp_WorkflowLabels profile) of Inl e \<Rightarrow> (tbl, Inl e) | Inr (labels, labelKey) \<Rightarrow>
         let now = (case expectedUpdatedAt of
                      Some e \<Rightarrow> if clock < e + Millisecond then e + Millisecond else clock
                    | None \<Rightarrow> clock);
             record = \<lparr> sr_ScopeType = sc_Type scope, sr_ScopeID = sc_ID scope, sr_Name = name,
               sr_WorkflowLabelsJSON = JLabels labels, sr_LabelKey = labelKey,
               sr_TemplateID = TrimSpace (sp_TemplateID profile), sr_RunnerGroup = TrimSpace (sp_RunnerGroup profile),
               sr_MaxConcurrency = sp_MaxConcurrency profile, sr_Enabled = sp_Enabled profile,
               sr_CreatedAt = (if IsZero (sp_CreatedAt profile) then now else sp_CreatedAt profile),
               sr_UpdatedAt = now \<rparr>;
             same_key = (\<lambda>r. in_scope scope r \<and> sr_LabelKey r = labelKey)
         in case expectedUpdatedAt of
              Some e \<Rightarrow>
                let P = (\<lambda>r. in_scope scope r \<and> sr_Name r = name \<and> sr_UpdatedAt r = e)
                in if rows_affected P tbl > 0 \<and> list_ex (\<lambda>r. same_key r \<and> \<not> P r) tbl
                   then (tbl, Inl ErrRunnerProfileLabelsConflict)
                   else if rows_affected P tbl = 0 then (tbl, Inl ErrConflict)
                   else let tbl' = update_where P (\<lambda>r. r \<lparr> sr_WorkflowLabelsJSON := sr_WorkflowLabelsJSON record,
                          sr_LabelKey := labelKey, sr_TemplateID := sr_TemplateID record,
                          sr_RunnerGroup := sr_RunnerGroup record, sr_MaxConcurrency := sr_MaxConcurrency record,
                          sr_Enabled := sr_Enabled record, sr_UpdatedAt := now \<rparr>) tbl
                        in (tbl', GetScopedProfile scope name tbl')
            | None \<Rightarrow>
                if list_ex (\<lambda>r. in_scope scope r \<and> sr_Name r = name) tbl then (tbl, Inl ErrConflict)
                else if list_ex same_key tbl then (tbl, Inl ErrRunnerProfileLabelsConflict)
                else (tbl @ [record], GetScopedProfile scope name (tbl @ [record])))"

definition DeleteScopedProfileIfUnchanged ::
  "RunnerProfileScope \<Rightarrow> string \<Rightarrow> instant option \<Rightarrow> scoped_table \<Rightarrow> scoped_table result" where
  "DeleteScopedProfileIfUnchanged scope name expectedUpdatedAt tbl =
     result_bind (ValidateRunnerProfileScope scope) (\<lambda>_.
       let P = (\<lambda>r. in_scope scope r \<and> sr_Name r = TrimSpace name \<and>
                 (case expectedUpdatedAt of None \<Rightarrow> True | Some e \<Rightarrow> sr_UpdatedAt r = e))
       in if rows_affected P tbl = 0 then Inl ErrConflict else Inr (filter (\<lambda>r. \<not> P r) tbl))"

text \<open>The profile that a scoped one stands for, with the given enabled flag.\<close>

definition scoped_runner_profile :: "ScopedRunnerProfile \<Rightarrow> bool \<Rightarrow> RunnerProfile" where
  "scoped_runner_profile profile enabled = \<lparr>
     rp_TemplateSource = [], rp_Published = False, rp_Name = sp_Name profile,
     rp_Labels = sp_WorkflowLabels profile, rp_RequiredLabels = sp_WorkflowLabels profile,
     rp_TemplateID = sp_TemplateID profile, rp_DefaultTemplateName = [], rp_RunnerGroup = sp_RunnerGroup profile,
     rp_MaxConcurrency = sp_MaxConcurrency profile, rp_MinIdle = 0, rp_Priority = 0, rp_Enabled = enabled,
     rp_ManagedBy = [], rp_CatalogRevision = 0,
     rp_CreatedAt = sp_CreatedAt profile, rp_UpdatedAt = sp_UpdatedAt profile \<rparr>"

record EffectiveRunnerProfile =
  ep_Source :: string
  ep_ScopeType :: string
  ep_ScopeID :: int
  ep_Profile :: RunnerProfile
  ep_WorkflowLabels :: "string list"
  ep_OverridesGlobal :: bool

definition ListEffectiveProfiles ::
  "(string list \<Rightarrow> string) \<Rightarrow> RunnerProfileScope \<Rightarrow> profiles_table \<Rightarrow> scoped_table \<Rightarrow> (EffectiveRunnerProfile list) result" where
  "ListEffectiveProfiles h scope globals_tbl tbl =
     result_bind (ValidateRunnerProfileScope scope) (\<lambda>_.
     result_bind (ListProfiles globals_tbl) (\<lambda>globals.
     let globalLabelKeys = concat (map (\<lambda>p. case NormalizeWorkflowLabels h (rp_Labels p) of
                             Inl _ \<Rightarrow> [] | Inr (_, labelKey) \<Rightarrow> [labelKey]) globals);
         global_items = map (\<lambda>p. \<lparr> ep_Source = (if rp_TemplateSource p = TemplateSourcePublic
                            then ''platform_public'' else ''platform_custom''),
                          ep_ScopeType = sc_Type scope, ep_ScopeID = sc_ID scope, ep_Profile = p,
                          ep_WorkflowLabels = rp_Labels p, ep_OverridesGlobal = False \<rparr>) globals
     in result_bind (ListScopedProfiles scope tbl) (\<lambda>scoped.
        Inr (global_items @ map (\<lambda>p. \<lparr> ep_Source = ''scoped_custom'', ep_ScopeType = sc_Type scope,
               ep_ScopeID = sc_ID scope, ep_Profile = scoped_runner_profile p (sp_Enabled p),
               ep_WorkflowLabels = sp_WorkflowLabels p,
               ep_OverridesGlobal = (sp_LabelKey p \<in> set globalLabelKeys) \<rparr>) scoped))))"

definition MatchProfileForScope ::
  "(string list \<Rightarrow> string) \<Rightarrow> RunnerProfileScope \<Rightarrow> string \<Rightarrow> string list \<Rightarrow> profiles_table \<Rightarrow> scoped_table \<Rightarrow> ProfileMatch result" where
  "MatchProfileForScope h scope repositoryFullName labels globals_tbl tbl =
     result_bind (ValidateRunnerProfileScope scope) (\<lambda>_.
     result_bind (ListScopedProfiles scope tbl) (\<lambda>scoped.
     let match = \<lparr> pm_RepositoryFullName = repositoryFullName, pm_Labels = labels, pm_Profile = None,
                   pm_Source = [], pm_ScopeType = sc_Type scope, pm_ScopeID = sc_ID scope, pm_Reason = [] \<rparr>;
         found = (case NormalizeWorkflowLabels h labels of
                    Inl _ \<Rightarrow> None
                  | Inr (_, labelKey) \<Rightarrow> find (\<lambda>p. sp_LabelKey p = labelKey) scoped)
     in case found of
          Some profile \<Rightarrow>
            if \<not> sp_Enabled profile
            then Inr (match \<lparr> pm_Source := ''scoped_custom'', pm_Reason := ''profile_scope_disabled'' \<rparr>)
            else Inr (match \<lparr> pm_Source := ''scoped_custom'',
                   pm_Profile := Some (scoped_runner_profile profile True) \<rparr>)
        | None \<Rightarrow>
            result_bind (ListProfiles globals_tbl) (\<lambda>globals.
              Inr (profileMatchFromCandidates repositoryFullName labels globals
                \<lparr> pm_Source := ''global'', pm_ScopeType := sc_Type scope, pm_ScopeID := sc_ID scope \<rparr>))))"

subsection \<open>Profiles of requests\<close>

definition profileForRunnerRequest :: "RunnerRequest \<Rightarrow> profiles_table \<Rightarrow> scoped_table \<Rightarrow> RunnerProfile result" where
  "profileForRunnerRequest req globals tbl =
     (let source = rq_ProfileSource req
      in if source = [] \<or> source = ''global'' then GetProfile (rq_ProfileName req) globals
         else if source = ''scoped_custom'' \<and> rq_ProfileScopeType req \<noteq> [] \<and> rq_ProfileScopeID req > 0
           then result_bind (GetScopedProfile \<lparr> sc_Type = rq_ProfileScopeType req, sc_ID = rq_ProfileScopeID req \<rparr>
                  (rq_ProfileName req) tbl) (\<lambda>p. Inr (scoped_runner_profile p (sp_Enabled p)))
         else Inl ErrNotFound)"

definition validateRequestedProfile :: "(string \<Rightarrow> string) \<Rightarrow> RunnerProfile \<Rightarrow> string list \<Rightarrow> unit result" where
  "validateRequestedProfile quote profile requestedLabels =
     (if \<not> rp_Enabled profile then Inl (Errorf (''profile '' @ quote (rp_Name profile) @ '' is disabled''))
      else if requestedLabels \<noteq> [] \<and> (\<not> Match (rp_RequiredLabels profile) requestedLabels
              \<or> \<not> Match requestedLabels (rp_Labels profile))
        then Inl (Errorf (''requested labels do not satisfy profile '' @ quote (rp_Name profile)))
      else Inr ())"

subsection \<open>Public templates\<close>

record PublicTemplate =
  pt_DefaultTemplateName :: string
  pt_RunnerSpecNames :: "string list"
  pt_WorkflowLabels :: "(string list) list"

definition published_public :: "RunnerProfile \<Rightarrow> bool" where
  "published_public p \<longleftrightarrow> rp_Enabled p \<and> rp_Published p \<and> rp_TemplateSource p = TemplateSourcePublic
     \<and> rp_DefaultTemplateName p \<noteq> []"

text \<open>One step of the loop over the profiles; the map by template name as an association list.\<close>

fun add_public_template :: "RunnerProfile \<Rightarrow> (string \<times> PublicTemplate) list \<Rightarrow> (string \<times> PublicTemplate) list" where
  "add_public_template profile [] =
     [(rp_DefaultTemplateName profile, \<lparr> pt_DefaultTemplateName = rp_DefaultTemplateName profile,
        pt_RunnerSpecNames = [rp_Name profile],
        pt_WorkflowLabels = [if rp_RequiredLabels profile = [] then rp_Labels profile else rp_RequiredLabels profile] \<rparr>)]"
| "add_public_template profile ((n, t) # m) =
     (if n = rp_DefaultTemplateName profile
      then (n, t \<lparr> pt_RunnerSpecNames := pt_RunnerSpecNames t @ [rp_Name profile],
               pt_WorkflowLabels := pt_WorkflowLabels t @
                 [if rp_RequiredLabels profile = [] then rp_Labels profile else rp_RequiredLabels profile] \<rparr>) # m
      else (n, t) # add_public_template profile m)"

definition PublicTemplates :: "RunnerProfile list \<Rightarrow> PublicTemplate list" where
  "PublicTemplates profiles =
     sort_key pt_DefaultTemplateName
       (map snd (fold (\<lambda>p m. if published_public p then add_public_template p m else m)
          (sort_key rp_Name profiles) []))"

record CatalogTemplate =
  ct_TemplateID :: string
  ct_Names :: "string list"
  ct_BuildID :: string
  ct_Public :: bool

definition Runnable :: "CatalogTemplate \<Rightarrow> bool" where
  "Runnable t \<longleftrightarrow> TrimSpace (ct_TemplateID t) \<noteq> [] \<and> TrimSpace (ct_BuildID t) \<noteq> []
     \<and> TrimSpace (ct_BuildID t) \<noteq> ''00000000-0000-0000-0000-000000000000''"

datatype template_error =
    TemplateMissing | TemplateDuplicate | TemplatePrivate | TemplateNonRunnable | TemplateEmptyID

definition template_named :: "string \<Rightarrow> CatalogTemplate \<Rightarrow> bool" where
  "template_named requestedName t \<longleftrightarrow>
     list_ex (\<lambda>n. TrimSpace n = requestedName \<or> HasSuffix (TrimSpace n) (''/'' @ requestedName)) (ct_Names t)"

definition findDefaultTemplate :: "string \<Rightarrow> CatalogTemplate list \<Rightarrow> template_error + CatalogTemplate" where
  "findDefaultTemplate requestedName0 templates =
     (let requestedName = TrimSpace requestedName0
      in if requestedName = [] then Inl TemplateMissing
         else case filter (template_named requestedName) templates of
                [] \<Rightarrow> Inl TemplateMissing
              | [t] \<Rightarrow> Inr t
              | _ \<Rightarrow> Inl TemplateDuplicate)"

definition resolveDefaultTemplateID :: "string \<Rightarrow> CatalogTemplate list \<Rightarrow> template_error + string" where
  "resolveDefaultTemplateID requestedName0 templates =
     (case findDefaultTemplate (TrimSpace requestedName0) templates of
        Inl e \<Rightarrow> Inl e
      | Inr t \<Rightarrow>
          if \<not> ct_Public t then Inl TemplatePrivate
          else if TrimSpace (ct_TemplateID t) = [] then Inl TemplateEmptyID
          else if \<not> Runnable t then Inl TemplateNonRunnable
          else Inr (TrimSpace (ct_TemplateID t)))"

subsection \<open>Selection\<close>

lemma hd_sort_key_min: "sort_key f xs = y # ys \<Longrightarrow> y \<in> set xs \<and> (\<forall>x\<in>set xs. f y \<le> f x)"
proof -
  assume s: "sort_key f xs = y # ys"
  have "sorted (map f (y # ys))" using sorted_sort_key [of f xs] s by simp
  moreover have "set xs = set (y # ys)" using set_sort [of f xs] s by simp
  ultimately show ?thesis by auto
qed

lemma selectMatchingProfile_None: "selectMatchingProfile ps labels = None \<longleftrightarrow> \<not> list_ex (profile_matches labels) ps"
proof -
  have "sort_key profile_rank (filter (profile_matches labels) ps) = [] \<longleftrightarrow> filter (profile_matches labels) ps = []"
    by (metis length_0_conv length_sort)
  then show ?thesis
    by (auto simp: selectMatchingProfile_def filter_empty_conv list_ex_iff split: list.splits)
qed

lemma selectMatchingProfile_Some:
  assumes "selectMatchingProfile ps labels = Some p"
  shows "p \<in> set ps \<and> profile_matches labels p \<and> (\<forall>q\<in>set ps. profile_matches labels q \<longrightarrow> profile_rank p \<le> profile_rank q)"
proof -
  obtain rest where "sort_key profile_rank (filter (profile_matches labels) ps) = p # rest"
    using assms by (auto simp: selectMatchingProfile_def split: list.splits)
  from hd_sort_key_min [OF this] show ?thesis by auto
qed

lemma selectMatchingProfile_unique:
  assumes "inj_on rp_Name (set ps)" "p \<in> set ps" "profile_matches labels p"
    "\<And>q. q \<in> set ps \<Longrightarrow> profile_matches labels q \<Longrightarrow> profile_rank p \<le> profile_rank q"
  shows "selectMatchingProfile ps labels = Some p"
proof (cases "selectMatchingProfile ps labels")
  case None
  then show ?thesis using assms(2,3) by (auto simp: selectMatchingProfile_None list_ex_iff)
next
  case (Some p')
  note p' = selectMatchingProfile_Some [OF Some]
  then have "profile_rank p = profile_rank p'" using assms(2-4) by (metis order_antisym)
  then have "rp_Name p = rp_Name p'" by (simp add: profile_rank_def)
  then show ?thesis using Some p' assms(1,2) by (auto dest: inj_onD)
qed

text \<open>C18: the profile that a label set selects is an enabled one whose required labels the job has and
  whose labels cover the job's; among those it has the highest priority, then the most labels, then
  the first name. None is selected exactly when none matches, and with distinct names the order in
  which the profiles are listed does not matter.\<close>

theorem selectMatchingProfile_best:
  assumes "inj_on rp_Name (set ps)" "set qs = set ps"
  shows "(selectMatchingProfile ps labels = Some p \<longleftrightarrow>
       p \<in> set ps \<and> profile_matches labels p \<and> list_all (\<lambda>q. profile_matches labels q \<longrightarrow> profile_rank p \<le> profile_rank q) ps)
    \<and> selectMatchingProfile qs labels = selectMatchingProfile ps labels"
proof
  show iff: "selectMatchingProfile ps labels = Some p \<longleftrightarrow>
       p \<in> set ps \<and> profile_matches labels p \<and> list_all (\<lambda>q. profile_matches labels q \<longrightarrow> profile_rank p \<le> profile_rank q) ps"
    using selectMatchingProfile_Some [of ps labels p] selectMatchingProfile_unique [OF assms(1), of p labels]
    by (auto simp: list_all_iff)
  show "selectMatchingProfile qs labels = selectMatchingProfile ps labels"
  proof (cases "selectMatchingProfile ps labels")
    case None
    then have "selectMatchingProfile qs labels = None" using assms(2) by (simp add: selectMatchingProfile_None list_ex_iff)
    then show ?thesis using None by simp
  next
    case (Some p')
    then show ?thesis
      using selectMatchingProfile_Some [OF Some] assms by (intro trans [OF selectMatchingProfile_unique [of qs p']]) auto
  qed
qed

definition sample_profile :: RunnerProfile where
  "sample_profile = \<lparr> rp_TemplateSource = ''private'', rp_Published = False, rp_Name = ''small'', rp_Labels = [''linux''],
     rp_RequiredLabels = [], rp_TemplateID = ''t-1'', rp_DefaultTemplateName = [], rp_RunnerGroup = [], rp_MaxConcurrency = 0,
     rp_MinIdle = 0, rp_Priority = 0, rp_Enabled = True, rp_ManagedBy = [], rp_CatalogRevision = 0, rp_CreatedAt = 5, rp_UpdatedAt = 5 \<rparr>"

lemma label_linux: "canonical_label ''linux'' = ''linux''" "canonical_label ''Linux'' = ''linux''"
  by code_simp+

lemma sample_profile_matches: "profile_matches [''Linux''] sample_profile"
  by (simp add: profile_matches_def sample_profile_def labelsMatch_def Match_def label_linux)

theorem selectMatchingProfile_best_witness:
  "selectMatchingProfile [sample_profile, sample_profile \<lparr> rp_Name := ''big'', rp_Priority := 2 \<rparr>] [''Linux'']
     = Some (sample_profile \<lparr> rp_Name := ''big'', rp_Priority := 2 \<rparr>)"
proof -
  let ?b = "sample_profile \<lparr> rp_Name := ''big'', rp_Priority := 2 \<rparr>"
  have m: "profile_matches [''Linux''] ?b" using sample_profile_matches by (simp add: profile_matches_def)
  have n: "rp_Name sample_profile = ''small''" by (simp add: sample_profile_def)
  have inj: "inj_on rp_Name (set [sample_profile, ?b])" by (rule inj_onI) (auto simp: n)
  have r: "profile_rank ?b \<le> profile_rank sample_profile" by (simp add: profile_rank_def sample_profile_def)
  show ?thesis
    using selectMatchingProfile_best [OF inj refl, of "[''Linux'']" ?b] m r by simp
qed

subsection \<open>Label keys\<close>

text \<open>The canonical labels of a list: trimmed, in lower case, without the blank ones.\<close>

definition canon :: "string list \<Rightarrow> string set" where
  "canon labels = set (map canonical_label (filter (\<lambda>l. TrimSpace l \<noteq> []) labels))"

lemma distinct_labels_spec:
  "ToLower ` set (distinct_labels seen labels) = canon labels - set seen
   \<and> distinct (map ToLower (distinct_labels seen labels))"
proof (induction seen labels rule: distinct_labels.induct)
  case (1 seen)
  then show ?case by (simp add: canon_def)
next
  case (2 seen raw rest)
  let ?l = "TrimSpace raw" and ?c = "ToLower (TrimSpace raw)"
  have canon: "canon (raw # rest) = (if ?l = [] then canon rest else insert ?c (canon rest))"
    by (auto simp: canon_def canonical_label_def)
  show ?case
  proof (cases "?l = [] \<or> ?c \<in> set seen")
    case True
    then show ?thesis using 2(1) canon by (auto simp: Let_def)
  next
    case False
    then show ?thesis using 2(2) canon by (auto simp: Let_def)
  qed
qed

lemma canonical_sorted:
  assumes "NormalizeWorkflowLabels h xs = Inr (ls, k)"
  shows "k = h (map ToLower ls) \<and> sorted (map ToLower ls) \<and> distinct (map ToLower ls) \<and> set (map ToLower ls) = canon xs \<and> canon xs \<noteq> {}"
proof -
  have ls: "ls = sort_key ToLower (distinct_labels [] xs)" "ls \<noteq> []" "k = h (map ToLower ls)"
    using assms by (auto simp: NormalizeWorkflowLabels_def Let_def split: if_splits)
  have "inj_on ToLower (set (distinct_labels [] xs))" "distinct (distinct_labels [] xs)"
    using distinct_labels_spec [of "[]" xs] by (auto simp: distinct_map)
  then have "distinct (map ToLower ls)" using ls(1) by (simp add: distinct_map)
  moreover have s: "set (map ToLower ls) = canon xs" using distinct_labels_spec [of "[]" xs] ls(1) by simp
  moreover have "canon xs \<noteq> {}" using s ls(2) by auto
  ultimately show ?thesis using ls by simp
qed

lemma NormalizeWorkflowLabels_Inl: "(\<exists>e. NormalizeWorkflowLabels h xs = Inl e) \<longleftrightarrow> canon xs = {}"
proof
  assume "\<exists>e. NormalizeWorkflowLabels h xs = Inl e"
  then have "distinct_labels [] xs = []" by (auto simp: NormalizeWorkflowLabels_def Let_def split: if_splits) (metis length_0_conv length_sort)
  then show "canon xs = {}" using distinct_labels_spec [of "[]" xs] by simp
next
  assume "canon xs = {}"
  then show "\<exists>e. NormalizeWorkflowLabels h xs = Inl e"
    using canonical_sorted [of h xs] by (cases "NormalizeWorkflowLabels h xs") auto
qed

text \<open>The label key depends on the set of labels only, up to case and surrounding blanks: not on
  their order, their repetitions or blank entries. Conversely, where the hash does not collide, equal
  keys mean equal sets. The call fails exactly when no label is left.\<close>

theorem NormalizeWorkflowLabels_key:
  assumes "inj_on h {sorted_list_of_set (canon xs), sorted_list_of_set (canon ys)}"
  shows "(canon xs = {} \<longleftrightarrow> (\<exists>e. NormalizeWorkflowLabels h xs = Inl e))
    \<and> (canon xs \<noteq> {} \<longrightarrow> map_sum id snd (NormalizeWorkflowLabels h xs) = map_sum id snd (NormalizeWorkflowLabels h ys)
         \<longleftrightarrow> canon xs = canon ys)"
  (is "?A \<and> (_ \<longrightarrow> ?B \<longleftrightarrow> _)")
proof (intro conjI impI)
  show ?A using NormalizeWorkflowLabels_Inl by metis
  assume ne: "canon xs \<noteq> {}"
  obtain ls k where x: "NormalizeWorkflowLabels h xs = Inr (ls, k)"
    using ne NormalizeWorkflowLabels_Inl [of h xs] by (cases "NormalizeWorkflowLabels h xs") auto
  note cx = canonical_sorted [OF x]
  show "?B \<longleftrightarrow> canon xs = canon ys"
  proof
    assume ?B
    then obtain ls' where y: "NormalizeWorkflowLabels h ys = Inr (ls', k)"
      using x by (cases "NormalizeWorkflowLabels h ys") auto
    note cy = canonical_sorted [OF y]
    have "map ToLower ls = sorted_list_of_set (canon xs)" "map ToLower ls' = sorted_list_of_set (canon ys)"
      using cx cy sorted_list_of_set.idem_if_sorted_distinct [of "map ToLower ls"]
        sorted_list_of_set.idem_if_sorted_distinct [of "map ToLower ls'"] by simp_all
    moreover have "h (map ToLower ls) = h (map ToLower ls')" using cx cy by metis
    ultimately have "map ToLower ls = map ToLower ls'"
      using inj_onD [OF assms, of "sorted_list_of_set (canon xs)" "sorted_list_of_set (canon ys)"] by simp
    then show "canon xs = canon ys" using cx cy by metis
  next
    assume e: "canon xs = canon ys"
    then obtain ls' k' where y: "NormalizeWorkflowLabels h ys = Inr (ls', k')"
      using ne NormalizeWorkflowLabels_Inl [of h ys] by (cases "NormalizeWorkflowLabels h ys") auto
    note cy = canonical_sorted [OF y]
    have "map ToLower ls = map ToLower ls'" using cx cy e by (intro sorted_distinct_set_unique) simp_all
    then show ?B using x y cx cy by simp
  qed
qed

lemma canon_linux: "canon [''Linux'', '' ''] = {''linux''}" "canon [''linux'', ''LINUX''] = {''linux''}"
  by code_simp+

theorem NormalizeWorkflowLabels_key_witness:
  "map_sum id snd (NormalizeWorkflowLabels concat [''Linux'', '' '']) = map_sum id snd (NormalizeWorkflowLabels concat [''linux'', ''LINUX''])"
  using NormalizeWorkflowLabels_key [of concat "[''Linux'', '' '']" "[''linux'', ''LINUX'']"] by (simp add: canon_linux)

subsection \<open>Saving profiles\<close>

text \<open>\<open>name\<close> is the primary key of the profiles.\<close>

definition profiles_ok :: "profiles_table \<Rightarrow> bool" where
  "profiles_ok tbl \<longleftrightarrow> distinct (map pr_Name tbl)"

definition normalized_profile :: "RunnerProfile \<Rightarrow> RunnerProfile" where
  "normalized_profile p = NormalizeProfilePolicy p \<lparr> rp_Name := TrimSpace (rp_Name p) \<rparr>"

lemma NormalizeProfilePolicy_name [simp]: "rp_Name (NormalizeProfilePolicy p) = rp_Name p"
  by (simp add: NormalizeProfilePolicy_def Let_def)

lemma NormalizeProfilePolicy_source: "rp_TemplateSource (NormalizeProfilePolicy p) \<noteq> []"
  by (simp add: NormalizeProfilePolicy_def Let_def TemplateSourcePublic_def TemplateSourcePrivate_def)

lemma NormalizeProfilePolicy_id: "rp_TemplateSource p \<noteq> [] \<Longrightarrow> NormalizeProfilePolicy p = p"
  by (simp add: NormalizeProfilePolicy_def)

lemma find_profile:
  assumes "profiles_ok tbl" "r \<in> set tbl"
  shows "find (\<lambda>x. pr_Name x = pr_Name r) tbl = Some r"
  using assms
proof (induction tbl)
  case (Cons x tbl)
  then show ?case by (force simp: profiles_ok_def)
qed simp

lemma find_profile_None: "find (\<lambda>x. pr_Name x = n) tbl = None \<longleftrightarrow> n \<notin> pr_Name ` set tbl"
  by (auto simp: find_None_iff)

lemma profile_columns_name [simp]: "pr_Name (profile_columns rec r) = pr_Name r"
  by (simp add: profile_columns_def)

lemma pr_Name_update_where: "map pr_Name (update_where P (profile_columns rec) tbl) = map pr_Name tbl"
  by (auto simp: update_where_def)

text \<open>The two ways in which a save succeeds: an update of the row with that name, or an insertion.\<close>

lemma saveProfile_cases:
  assumes ok: "profiles_ok tbl" and save: "saveProfile clock p c e tbl = (tbl', Inr q)"
  shows "ValidateProfile (normalized_profile p) = Inr () \<and> GetProfile (rp_Name (normalized_profile p)) tbl' = Inr q
    \<and> (\<exists>now. clock \<le> now \<and>
        ((\<exists>r\<in>set tbl. pr_Name r = rp_Name (normalized_profile p)
            \<and> (c \<longrightarrow> e = Some (pr_UpdatedAt r) \<and> pr_UpdatedAt r + Millisecond \<le> now)
            \<and> tbl' = update_where (\<lambda>x. x = r) (profile_columns (profileRecord now (normalized_profile p))) tbl)
         \<or> ((c \<longrightarrow> e = None) \<and> rp_Name (normalized_profile p) \<notin> pr_Name ` set tbl
            \<and> tbl' = tbl @ [profileRecord now (normalized_profile p)])))"
proof -
  let ?p = "normalized_profile p"
  have val: "ValidateProfile ?p = Inr ()"
    using save by (auto simp: saveProfile_def normalized_profile_def Let_def split: sum.splits)
  have nm: "pr_Name (profileRecord now ?p) = rp_Name ?p" for now by (simp add: profileRecord_def)
  have upd: "update_where P f tbl = update_where (\<lambda>x. x = r) f tbl"
    if "r \<in> set tbl" "P r" "\<And>x. P x \<Longrightarrow> pr_Name x = pr_Name r" for P f r
    unfolding update_where_def using that find_profile [OF ok] by (intro map_cong refl) (metis option.inject)
  show ?thesis
  proof (cases c)
    case False
    then have t: "tbl' = (if list_ex (\<lambda>r. pr_Name r = rp_Name ?p) tbl
          then update_where (\<lambda>r. pr_Name r = rp_Name ?p) (profile_columns (profileRecord clock ?p)) tbl else tbl @ [profileRecord clock ?p])"
      and g: "GetProfile (rp_Name ?p) tbl' = Inr q"
      using save val unfolding saveProfile_def normalized_profile_def [symmetric] Let_def by (auto simp: nm)
    show ?thesis
    proof (cases "list_ex (\<lambda>r. pr_Name r = rp_Name ?p) tbl")
      case True
      then obtain r where r: "r \<in> set tbl" "pr_Name r = rp_Name ?p" by (auto simp: list_ex_iff)
      have "tbl' = update_where (\<lambda>x. x = r) (profile_columns (profileRecord clock ?p)) tbl"
        using t True upd [OF r(1), of "\<lambda>x. pr_Name x = rp_Name ?p"] r(2) by simp
      then show ?thesis using val g r False by blast
    next
      case new: False
      then have "rp_Name ?p \<notin> pr_Name ` set tbl" "tbl' = tbl @ [profileRecord clock ?p]" using t by (auto simp: list_ex_iff)
      then show ?thesis using val g False by blast
    qed
  next
    case True
    show ?thesis
    proof (cases e)
      case None
      then have "\<not> list_ex (\<lambda>r. pr_Name r = rp_Name ?p) tbl" "tbl' = tbl @ [profileRecord clock ?p]"
        "GetProfile (rp_Name ?p) tbl' = Inr q"
        using save val True unfolding saveProfile_def normalized_profile_def [symmetric] Let_def by (auto simp: nm split: if_splits)
      moreover from this have "rp_Name ?p \<notin> pr_Name ` set tbl" by (auto simp: list_ex_iff)
      ultimately show ?thesis using val None by blast
    next
      case (Some x)
      let ?now = "if clock < x + Millisecond then x + Millisecond else clock"
      let ?P = "\<lambda>r. pr_Name r = rp_Name ?p \<and> pr_UpdatedAt r = x"
      have "rows_affected ?P tbl \<noteq> 0" and t: "tbl' = update_where ?P (profile_columns (profileRecord ?now ?p)) tbl"
        and g: "GetProfile (rp_Name ?p) tbl' = Inr q"
        using save val True Some unfolding saveProfile_def normalized_profile_def [symmetric] Let_def by (auto simp: nm split: if_splits)
      then obtain r where r: "r \<in> set tbl" "?P r" by (auto simp: rows_affected_zero)
      then have "tbl' = update_where (\<lambda>x. x = r) (profile_columns (profileRecord ?now ?p)) tbl"
        using t upd [of r ?P] by auto
      then show ?thesis using val g r Some True by (intro conjI exI [of _ ?now] disjI1 bexI [of _ r]) auto
    qed
  qed
qed

lemma profiles_ok_save:
  assumes "profiles_ok tbl" "saveProfile clock p c e tbl = (tbl', Inr q)"
  shows "profiles_ok tbl'"
  using saveProfile_cases [OF assms] assms(1)
  by (auto simp: profiles_ok_def pr_Name_update_where profileRecord_def)

lemma recordToProfile_profileRecord:
  assumes "rp_TemplateSource p \<noteq> []"
  shows "recordToProfile (profileRecord now p) = Inr (p \<lparr> rp_CreatedAt := (if IsZero (rp_CreatedAt p) then now else rp_CreatedAt p), rp_UpdatedAt := now \<rparr>)"
  using assms by (simp add: recordToProfile_def profileRecord_def NormalizeProfilePolicy_id)

lemma recordToProfile_columns:
  assumes "rp_TemplateSource p \<noteq> []" "pr_Name r = rp_Name p"
  shows "recordToProfile (profile_columns (profileRecord now p) r) = Inr (p \<lparr> rp_CreatedAt := pr_CreatedAt r, rp_UpdatedAt := now \<rparr>)"
  using assms by (simp add: recordToProfile_def profileRecord_def profile_columns_def NormalizeProfilePolicy_id)

lemma saved_row:
  assumes ok: "profiles_ok tbl" and save: "saveProfile clock p c e tbl = (tbl', Inr q)"
  shows "\<exists>row\<in>set tbl'. pr_Name row = rp_Name (normalized_profile p)
    \<and> (\<exists>t u. recordToProfile row = Inr (normalized_profile p \<lparr> rp_CreatedAt := t, rp_UpdatedAt := u \<rparr>) \<and> pr_UpdatedAt row = u
         \<and> (c \<longrightarrow> (\<forall>x. e = Some x \<longrightarrow> x + Millisecond \<le> u)))"
proof -
  let ?p = "normalized_profile p"
  have src: "rp_TemplateSource ?p \<noteq> []" using NormalizeProfilePolicy_source by (simp add: normalized_profile_def)
  consider (up) now r where "r \<in> set tbl" "pr_Name r = rp_Name ?p" "c \<longrightarrow> e = Some (pr_UpdatedAt r) \<and> pr_UpdatedAt r + Millisecond \<le> now"
      "tbl' = update_where (\<lambda>x. x = r) (profile_columns (profileRecord now ?p)) tbl"
    | (ins) now where "c \<longrightarrow> e = None" "tbl' = tbl @ [profileRecord now ?p]" using saveProfile_cases [OF ok save] by blast
  then show ?thesis
  proof cases
    case up
    let ?r = "profile_columns (profileRecord now ?p) r"
    have "?r \<in> set tbl'" "pr_Name ?r = rp_Name ?p" "pr_UpdatedAt ?r = now"
      using up by (auto simp: set_update_where profile_columns_def profileRecord_def)
    then show ?thesis using recordToProfile_columns [OF src up(2), of now] up(3) by (intro bexI [of _ ?r]) auto
  next
    case ins
    let ?r = "profileRecord now ?p"
    have "?r \<in> set tbl'" "pr_Name ?r = rp_Name ?p" "pr_UpdatedAt ?r = now" using ins(2) by (simp_all add: profileRecord_def)
    moreover have "\<exists>t. recordToProfile ?r = Inr (?p \<lparr> rp_CreatedAt := t, rp_UpdatedAt := now \<rparr>)"
      using recordToProfile_profileRecord [OF src, of now] by (rule exI)
    ultimately show ?thesis using ins(1) by (intro bexI [of _ ?r]) auto
  qed
qed

lemma find_append: "find P (xs @ ys) = (case find P xs of None \<Rightarrow> find P ys | Some x \<Rightarrow> Some x)"
  by (induction xs) auto

lemma saveProfile_others:
  assumes ok: "profiles_ok tbl" and save: "saveProfile clock p c e tbl = (tbl', Inr q)" and n: "TrimSpace n \<noteq> TrimSpace (rp_Name p)"
  shows "GetProfile n tbl' = GetProfile n tbl"
proof -
  let ?p = "normalized_profile p"
  have nm: "rp_Name ?p = TrimSpace (rp_Name p)" by (simp add: normalized_profile_def)
  have upd: "find (\<lambda>x. pr_Name x = TrimSpace n) (update_where (\<lambda>x. x = r) (profile_columns rec) t) = find (\<lambda>x. pr_Name x = TrimSpace n) t"
    if "pr_Name r = rp_Name ?p" for r rec t
    using that n nm by (induction t) (auto simp: update_where_def)
  consider (up) now r where "pr_Name r = rp_Name ?p" "tbl' = update_where (\<lambda>x. x = r) (profile_columns (profileRecord now ?p)) tbl"
    | (ins) now where "tbl' = tbl @ [profileRecord now ?p]" using saveProfile_cases [OF ok save] by blast
  then have "find (\<lambda>x. pr_Name x = TrimSpace n) tbl' = find (\<lambda>x. pr_Name x = TrimSpace n) tbl"
  proof cases
    case up
    then show ?thesis using upd by simp
  next
    case ins
    then show ?thesis using n nm by (simp add: find_append profileRecord_def split: option.splits)
  qed
  then show ?thesis by (simp add: GetProfile_def)
qed

text \<open>A save that succeeds stores the profile as it was normalized and validated, only the two times
  are the store's, \<open>GetProfile\<close> returns just that, names stay unique and no other profile changes.\<close>

theorem saveProfile_roundtrip:
  assumes ok: "profiles_ok tbl" and save: "saveProfile clock p c e tbl = (tbl', Inr q)"
  shows "q \<lparr> rp_CreatedAt := 0, rp_UpdatedAt := 0 \<rparr> = normalized_profile p \<lparr> rp_CreatedAt := 0, rp_UpdatedAt := 0 \<rparr>
    \<and> ValidateProfile (normalized_profile p) = Inr () \<and> GetProfile (rp_Name p) tbl' = Inr q \<and> profiles_ok tbl'
    \<and> (\<forall>n. TrimSpace n \<noteq> TrimSpace (rp_Name p) \<longrightarrow> GetProfile n tbl' = GetProfile n tbl)"
proof (intro conjI allI impI)
  let ?p = "normalized_profile p"
  note C = saveProfile_cases [OF ok save]
  have nm: "rp_Name ?p = TrimSpace (rp_Name p)" by (simp add: normalized_profile_def)
  show "ValidateProfile ?p = Inr ()" "profiles_ok tbl'" using C profiles_ok_save [OF ok save] by simp_all
  show get: "GetProfile (rp_Name p) tbl' = Inr q" using C nm by (simp add: GetProfile_def)
  obtain row t u where row: "row \<in> set tbl'" "pr_Name row = rp_Name ?p" "recordToProfile row = Inr (?p \<lparr> rp_CreatedAt := t, rp_UpdatedAt := u \<rparr>)"
    using saved_row [OF ok save] by blast
  have "find (\<lambda>x. pr_Name x = rp_Name ?p) tbl' = Some row" using find_profile [OF profiles_ok_save [OF ok save] row(1)] row(2) by simp
  then have "q = ?p \<lparr> rp_CreatedAt := t, rp_UpdatedAt := u \<rparr>" using get nm row(3) by (simp add: GetProfile_def)
  then show "q \<lparr> rp_CreatedAt := 0, rp_UpdatedAt := 0 \<rparr> = ?p \<lparr> rp_CreatedAt := 0, rp_UpdatedAt := 0 \<rparr>" by simp
  fix n assume "TrimSpace n \<noteq> TrimSpace (rp_Name p)"
  then show "GetProfile n tbl' = GetProfile n tbl" using saveProfile_others [OF ok save] by simp
qed

lemma sample_profile_normal:
  "normalized_profile sample_profile = sample_profile" "ValidateProfile sample_profile = Inr ()" "TrimSpace ''small'' = ''small''"
  "rp_Name sample_profile = ''small''" "rp_TemplateSource sample_profile \<noteq> []"
proof -
  show t: "TrimSpace ''small'' = ''small''" by code_simp
  show "ValidateProfile sample_profile = Inr ()" by code_simp
  show "normalized_profile sample_profile = sample_profile"
    by (simp add: normalized_profile_def NormalizeProfilePolicy_def sample_profile_def t)
qed (simp_all add: sample_profile_def)

lemma sample_save: "\<exists>tbl q. saveProfile 9 sample_profile False None [] = (tbl, Inr q)"
  unfolding saveProfile_def normalized_profile_def [symmetric] Let_def
  by (simp add: sample_profile_normal GetProfile_def recordToProfile_profileRecord) (simp add: profileRecord_def sample_profile_normal)

theorem saveProfile_roundtrip_witness:
  "\<exists>tbl q. saveProfile 9 sample_profile False None [] = (tbl, Inr q) \<and> GetProfile ''small'' tbl = Inr q"
proof -
  obtain tbl q where s: "saveProfile 9 sample_profile False None [] = (tbl, Inr q)" using sample_save by blast
  show ?thesis using saveProfile_roundtrip [OF _ s] s by (auto simp: profiles_ok_def sample_profile_normal)
qed

text \<open>
  The writes of the table of profiles, and which of them leave a profile with a time after a given one:
  every conditional save, unconditional saves of other profiles or by a clock after that time, and deletions
  of other profiles.
\<close>

datatype catalog_op =
    CatalogSave instant RunnerProfile
  | CatalogSaveIf instant RunnerProfile "instant option"
  | CatalogDelete string

fun run_catalog :: "catalog_op \<Rightarrow> profiles_table \<Rightarrow> profiles_table" where
  "run_catalog (CatalogSave clock p) tbl = fst (UpsertProfile clock p tbl)"
| "run_catalog (CatalogSaveIf clock p expected) tbl = fst (UpsertProfileIfUnchanged clock p expected tbl)"
| "run_catalog (CatalogDelete name) tbl = DeleteProfile name tbl"

fun stays_newer :: "string \<Rightarrow> instant \<Rightarrow> catalog_op \<Rightarrow> bool" where
  "stays_newer n x (CatalogSave clock p) \<longleftrightarrow> TrimSpace (rp_Name p) \<noteq> n \<or> x < clock"
| "stays_newer n x (CatalogSaveIf clock p expected) \<longleftrightarrow> True"
| "stays_newer n x (CatalogDelete name) \<longleftrightarrow> TrimSpace name \<noteq> n"

definition newer :: "string \<Rightarrow> instant \<Rightarrow> profiles_table \<Rightarrow> bool" where
  "newer n x tbl \<longleftrightarrow> n \<in> pr_Name ` set tbl \<and> (\<forall>r\<in>set tbl. pr_Name r = n \<longrightarrow> x < pr_UpdatedAt r)"

lemma newer_update:
  assumes "newer n x tbl" "\<And>r. r \<in> set tbl \<Longrightarrow> pr_Name r = n \<Longrightarrow> P r \<Longrightarrow> x < pr_UpdatedAt rec"
  shows "newer n x (update_where P (profile_columns rec) tbl)"
proof -
  have "map pr_Name (update_where P (profile_columns rec) tbl) = map pr_Name tbl" by (simp add: update_where_def profile_columns_def)
  then have "pr_Name ` set (update_where P (profile_columns rec) tbl) = pr_Name ` set tbl" by (metis list.set_map)
  moreover have "x < pr_UpdatedAt r" if "r \<in> set (update_where P (profile_columns rec) tbl)" "pr_Name r = n" for r
    using that assms by (auto simp: set_update_where profile_columns_def newer_def split: if_splits)
  ultimately show ?thesis using assms(1) by (simp add: newer_def)
qed

lemma newer_saveProfile:
  assumes "newer n x tbl" "c \<or> rp_Name (normalized_profile p) \<noteq> n \<or> x < clock"
  shows "newer n x (fst (saveProfile clock p c e tbl))"
proof -
  let ?p = "normalized_profile p"
  have nm: "pr_Name (profileRecord now ?p) = rp_Name ?p" for now by (simp add: profileRecord_def)
  have add: "newer n x (tbl @ [profileRecord now ?p])" if "\<not> list_ex (\<lambda>r. pr_Name r = rp_Name ?p) tbl" for now
    using assms(1) that by (auto simp: newer_def list_ex_iff profileRecord_def)
  have up: "newer n x (update_where P (profile_columns (profileRecord now ?p)) tbl)"
    if "\<And>r. r \<in> set tbl \<Longrightarrow> pr_Name r = n \<Longrightarrow> P r \<Longrightarrow> x < now" for P now
    by (rule newer_update [OF assms(1)]) (use that in \<open>simp add: profileRecord_def\<close>)
  have now: "x < pr_UpdatedAt r" if "r \<in> set tbl" "pr_Name r = n" for r using assms(1) that by (simp add: newer_def)
  show ?thesis
  proof (cases "c \<and> e \<noteq> None")
    case True
    then obtain y where y: "c" "e = Some y" by auto
    have "newer n x (update_where (\<lambda>r. pr_Name r = rp_Name ?p \<and> pr_UpdatedAt r = y)
        (profile_columns (profileRecord (if clock < y + Millisecond then y + Millisecond else clock) ?p)) tbl)"
      by (rule up) (use now in fastforce)
    then show ?thesis
      unfolding saveProfile_def normalized_profile_def [symmetric] Let_def using y assms(1) by (simp add: nm split: sum.split)
  next
    case False
    have "newer n x (update_where (\<lambda>r. pr_Name r = rp_Name ?p) (profile_columns (profileRecord clock ?p)) tbl)" if "\<not> c"
      by (rule up) (use that assms(2) in auto)
    then show ?thesis
      unfolding saveProfile_def normalized_profile_def [symmetric] Let_def using False assms(1) add
      by (cases c; cases e) (auto simp: nm split: sum.split)
  qed
qed

lemma newer_run: "newer n x tbl \<Longrightarrow> list_all (stays_newer n x) ops \<Longrightarrow> newer n x (fold run_catalog ops tbl)"
proof (induction ops arbitrary: tbl)
  case (Cons op ops)
  have "newer n x (run_catalog op tbl)"
  proof (cases op)
    case (CatalogDelete name)
    then show ?thesis using Cons.prems by (auto simp: newer_def DeleteProfile_def image_iff)
  qed (use Cons.prems newer_saveProfile in \<open>auto simp: UpsertProfile_def UpsertProfileIfUnchanged_def normalized_profile_def\<close>)
  then show ?case using Cons by simp
qed simp

lemma newer_refused:
  assumes "newer n x tbl" "TrimSpace (rp_Name p) = n"
  shows "\<exists>err. UpsertProfileIfUnchanged clock p (Some x) tbl = (tbl, Inl err) \<and> (ValidateProfile (normalized_profile p) = Inr () \<longrightarrow> err = ErrConflict)"
proof -
  have nm: "rp_Name (normalized_profile p) = n" using assms(2) by (simp add: normalized_profile_def)
  have "rows_affected (\<lambda>r. pr_Name r = n \<and> pr_UpdatedAt r = x) tbl = 0" using assms(1) by (auto simp: rows_affected_zero newer_def)
  then show ?thesis
    unfolding UpsertProfileIfUnchanged_def saveProfile_def normalized_profile_def [symmetric] Let_def
    by (auto simp: profileRecord_def nm split: sum.split)
qed

text \<open>C20: conditional saves are optimistic. One that is accepted found the profile unchanged since the
  time it expected, and moves the time strictly forward. From then on every save that expects the old time is
  refused and changes nothing, whatever its clock reads and whatever it wants to store, with a conflict
  when the profile is valid: after any number of conditional saves in between, unconditional saves of
  other profiles or by a clock after the old time, and deletions of other profiles. (An
  unconditional save by a clock that reads the old time again, or a deletion, would forget that the profile changed.)\<close>

theorem UpsertProfileIfUnchanged_stale:
  assumes ok: "profiles_ok tbl" and save: "UpsertProfileIfUnchanged clock p (Some x) tbl = (tbl', Inr q)"
  shows "list_ex (\<lambda>r. pr_Name r = TrimSpace (rp_Name p) \<and> pr_UpdatedAt r = x) tbl \<and> x < rp_UpdatedAt q
    \<and> (\<forall>ops clock' p'. list_all (stays_newer (TrimSpace (rp_Name p)) x) ops \<and> TrimSpace (rp_Name p') = TrimSpace (rp_Name p) \<longrightarrow>
         (\<exists>err. UpsertProfileIfUnchanged clock' p' (Some x) (fold run_catalog ops tbl') = (fold run_catalog ops tbl', Inl err)
            \<and> (ValidateProfile (normalized_profile p') = Inr () \<longrightarrow> err = ErrConflict)))"
proof (intro conjI allI impI)
  let ?p = "normalized_profile p"
  have nm: "rp_Name ?p = TrimSpace (rp_Name p)" by (simp add: normalized_profile_def)
  note save' = save [unfolded UpsertProfileIfUnchanged_def]
  note C = saveProfile_cases [OF ok save']
  show "list_ex (\<lambda>r. pr_Name r = TrimSpace (rp_Name p) \<and> pr_UpdatedAt r = x) tbl" using C nm by (auto simp: list_ex_iff)
  obtain row t u where row: "row \<in> set tbl'" "pr_Name row = rp_Name ?p" "pr_UpdatedAt row = u"
    "recordToProfile row = Inr (?p \<lparr> rp_CreatedAt := t, rp_UpdatedAt := u \<rparr>)" "x + Millisecond \<le> u"
    using saved_row [OF ok save'] by blast
  note f = find_profile [OF profiles_ok_save [OF ok save']]
  have lt: "x < u" using row(5) by simp
  have "GetProfile (rp_Name ?p) tbl' = Inr q" using C by simp
  then have "q = ?p \<lparr> rp_CreatedAt := t, rp_UpdatedAt := u \<rparr>" using f [OF row(1)] row(2,4) nm by (simp add: GetProfile_def)
  then show "x < rp_UpdatedAt q" using lt by simp
  have "newer (TrimSpace (rp_Name p)) x tbl'"
    using f f [OF row(1)] row(1-3) nm lt unfolding newer_def by (metis image_eqI option.inject)
  then show "\<exists>err. UpsertProfileIfUnchanged clock' p' (Some x) (fold run_catalog ops tbl') = (fold run_catalog ops tbl', Inl err)
      \<and> (ValidateProfile (normalized_profile p') = Inr () \<longrightarrow> err = ErrConflict)"
    if "list_all (stays_newer (TrimSpace (rp_Name p)) x) ops \<and> TrimSpace (rp_Name p') = TrimSpace (rp_Name p)" for ops clock' p'
    using that newer_refused [OF newer_run] by blast
qed

lemma sample_update:
  "\<exists>tbl q. UpsertProfileIfUnchanged 9 sample_profile (Some 5) [profileRecord 5 sample_profile] = (tbl, Inr q)"
  unfolding UpsertProfileIfUnchanged_def saveProfile_def normalized_profile_def [symmetric] Let_def
  by (simp add: sample_profile_normal GetProfile_def rows_affected_def update_where_def profile_columns_def recordToProfile_def
      profileRecord_def)

theorem UpsertProfileIfUnchanged_stale_witness:
  "\<exists>tbl q. UpsertProfileIfUnchanged 9 sample_profile (Some 5) [profileRecord 5 sample_profile] = (tbl, Inr q)
     \<and> UpsertProfileIfUnchanged 5 sample_profile (Some 5) (fold run_catalog [CatalogSave 7 sample_profile, CatalogDelete ''large''] tbl)
         = (fold run_catalog [CatalogSave 7 sample_profile, CatalogDelete ''large''] tbl, Inl ErrConflict)"
proof -
  obtain tbl q where s: "UpsertProfileIfUnchanged 9 sample_profile (Some 5) [profileRecord 5 sample_profile] = (tbl, Inr q)"
    using sample_update by blast
  have large: "TrimSpace ''large'' \<noteq> ''small''" by code_simp
  have "profiles_ok [profileRecord 5 sample_profile]" by (simp add: profiles_ok_def)
  note conjunct2 [OF conjunct2 [OF UpsertProfileIfUnchanged_stale [OF this s]], rule_format,
      of "[CatalogSave 7 sample_profile, CatalogDelete ''large'']" sample_profile 5]
  then show ?thesis using s large by (auto simp: sample_profile_normal)
qed

subsection \<open>Scoped profiles\<close>

definition scoped_ok :: "scoped_table \<Rightarrow> bool" where
  "scoped_ok tbl \<longleftrightarrow> distinct (map (\<lambda>r. (sr_ScopeType r, sr_ScopeID r, sr_Name r)) tbl)
     \<and> distinct (map (\<lambda>r. (sr_ScopeType r, sr_ScopeID r, sr_LabelKey r)) tbl)"

datatype scoped_op =
    ScopedUpsert "string list \<Rightarrow> string" instant ScopedRunnerProfile "instant option" profiles_table
  | ScopedDelete RunnerProfileScope string "instant option"

fun run_scoped :: "scoped_op \<Rightarrow> scoped_table \<Rightarrow> scoped_table" where
  "run_scoped (ScopedUpsert h clock p e globals) tbl = fst (UpsertScopedProfileIfUnchanged h clock p e globals tbl)"
| "run_scoped (ScopedDelete scope name e) tbl =
     (case DeleteScopedProfileIfUnchanged scope name e tbl of Inl _ \<Rightarrow> tbl | Inr tbl' \<Rightarrow> tbl')"

lemma distinct_map_update:
  assumes "distinct (map g tbl)" "distinct (map n tbl)" "\<And>x y. x \<in> set tbl \<Longrightarrow> y \<in> set tbl \<Longrightarrow> P x \<Longrightarrow> P y \<Longrightarrow> n x = n y"
    and "\<And>x y. x \<in> set tbl \<Longrightarrow> y \<in> set tbl \<Longrightarrow> P x \<Longrightarrow> \<not> P y \<Longrightarrow> g (f x) \<noteq> g y"
  shows "distinct (map g (update_where P f tbl))"
  using assms
proof (induction tbl)
  case (Cons a tbl)
  have inj: "x = a" if "x \<in> set (a # tbl)" "P x" "P a" for x
    using Cons.prems(3) [of x a] Cons.prems(2) that by (auto simp: image_iff)
  have IH: "distinct (map g (update_where P f tbl))" using Cons by simp
  have "g (if P a then f a else a) \<notin> g ` set (update_where P f tbl)"
  proof
    assume "g (if P a then f a else a) \<in> g ` set (update_where P f tbl)"
    then obtain y where y: "y \<in> set tbl" "g (if P a then f a else a) = g (if P y then f y else y)" by (auto simp: set_update_where)
    have ya: "y \<noteq> a" "g y \<noteq> g a" using y(1) Cons.prems(1) by (auto simp: image_iff)
    then show False
      using y inj [of y] Cons.prems(4) [of a y] Cons.prems(4) [of y a] by (auto split: if_splits)
  qed
  moreover have "update_where P f (a # tbl) = (if P a then f a else a) # update_where P f tbl" by (simp add: update_where_def)
  ultimately show ?case using IH by simp
qed (simp add: update_where_def)

lemma scoped_ok_filter: "scoped_ok tbl \<Longrightarrow> scoped_ok (filter P tbl)"
  by (simp add: scoped_ok_def distinct_map_filter)

lemma scoped_ok_upsert:
  assumes ok: "scoped_ok tbl"
  shows "scoped_ok (fst (UpsertScopedProfileIfUnchanged h clock p e globals tbl))"
proof -
  let ?scope = "\<lparr> sc_Type = sp_ScopeType p, sc_ID = sp_ScopeID p \<rparr>" and ?n = "TrimSpace (sp_Name p)"
  have ins: "scoped_ok (tbl @ [r])"
    if "\<not> list_ex (\<lambda>x. in_scope ?scope x \<and> sr_Name x = ?n) tbl" "\<not> list_ex (\<lambda>x. in_scope ?scope x \<and> sr_LabelKey x = sr_LabelKey r) tbl"
      "sr_ScopeType r = sp_ScopeType p" "sr_ScopeID r = sp_ScopeID p" "sr_Name r = ?n" for r
    using ok that by (auto simp: scoped_ok_def in_scope_def list_ex_iff)
  have upd: "scoped_ok (update_where (\<lambda>r. in_scope ?scope r \<and> sr_Name r = ?n \<and> sr_UpdatedAt r = t)
      (\<lambda>r. r \<lparr> sr_WorkflowLabelsJSON := a, sr_LabelKey := k, sr_TemplateID := b, sr_RunnerGroup := c, sr_MaxConcurrency := d,
              sr_Enabled := en, sr_UpdatedAt := u \<rparr>) tbl)" (is "scoped_ok (update_where ?P ?f tbl)")
    if "\<not> list_ex (\<lambda>r. (in_scope ?scope r \<and> sr_LabelKey r = k) \<and> \<not> (in_scope ?scope r \<and> sr_Name r = ?n \<and> sr_UpdatedAt r = t)) tbl" for t a k b c d en u
  proof -
    have "map (\<lambda>r. (sr_ScopeType r, sr_ScopeID r, sr_Name r)) (update_where ?P ?f tbl) = map (\<lambda>r. (sr_ScopeType r, sr_ScopeID r, sr_Name r)) tbl"
      by (rule map_update_where) simp
    moreover have "distinct (map (\<lambda>r. (sr_ScopeType r, sr_ScopeID r, sr_LabelKey r)) (update_where ?P ?f tbl))"
      by (rule distinct_map_update [where n = "\<lambda>r. (sr_ScopeType r, sr_ScopeID r, sr_Name r)"])
         (use ok that in \<open>auto simp: scoped_ok_def in_scope_def list_ex_iff\<close>)
    ultimately show ?thesis using ok by (simp add: scoped_ok_def)
  qed
  have pos: "0 < rows_affected P tbl \<longleftrightarrow> rows_affected P tbl \<noteq> 0" for P by (auto simp: rows_affected_def count_rows_def)
  show ?thesis
    unfolding UpsertScopedProfileIfUnchanged_def Let_def
    using ok ins upd by (auto simp: pos split: sum.splits option.splits if_splits)
qed

text \<open>Within a scope, profile names and label keys stay unique, whatever saves and deletions run.\<close>

theorem scoped_table_unique:
  "scoped_ok (fold run_scoped ops [])"
proof -
  have "scoped_ok (run_scoped op tbl)" if "scoped_ok tbl" for op tbl
    using that by (cases op) (auto simp: scoped_ok_upsert scoped_ok_filter DeleteScopedProfileIfUnchanged_def result_bind_Inr_iff
        Let_def split: sum.splits if_splits)
  then have "scoped_ok tbl \<Longrightarrow> scoped_ok (fold run_scoped ops tbl)" for tbl
    by (induction ops arbitrary: tbl) auto
  then show ?thesis by (simp add: scoped_ok_def)
qed

lemma scoped_keys_distinct:
  assumes "scoped_ok tbl" "ListScopedProfiles scope tbl = Inr ps"
  shows "distinct (map sp_LabelKey ps)"
proof -
  let ?rows = "sort_key sr_Name (filter (in_scope scope) tbl)"
  have rel: "list_all2 (\<lambda>r p. scopedProfileFromRecord r = Inr p) ?rows ps"
    using assms(2) by (auto simp: ListScopedProfiles_def result_bind_Inr_iff map_result_Inr_iff split: sum.splits)
  have "map sp_LabelKey ps = map sr_LabelKey ?rows"
    using rel by (induction rule: list_all2_induct) (auto simp: scopedProfileFromRecord_def result_bind_Inr_iff split: sum.splits)
  moreover have "distinct (map sr_LabelKey (filter (in_scope scope) tbl))"
    using assms(1) by (auto simp: scoped_ok_def distinct_map inj_on_def in_scope_def)
  ultimately show ?thesis by (simp add: distinct_map inj_on_def)
qed

lemma find_key: "distinct (map f ps) \<Longrightarrow> p \<in> set ps \<Longrightarrow> find (\<lambda>x. f x = f p) ps = Some p"
  by (induction ps) force+

text \<open>C19: a scoped profile whose label key is the job's decides alone, whatever the global profiles are:
  enabled it is the match, disabled it refuses the job. Only when no scoped profile has the key does
  the best global profile match.\<close>

theorem MatchProfileForScope_precedence:
  assumes ok: "scoped_ok tbl" and ps: "ListScopedProfiles scope tbl = Inr ps"
    and key: "NormalizeWorkflowLabels h labels = Inr (ls, k)"
  shows "(\<forall>p\<in>set ps. sp_LabelKey p = k \<longrightarrow>
      (\<exists>m. MatchProfileForScope h scope repo labels globals tbl = Inr m \<and> pm_Source m = ''scoped_custom''
        \<and> pm_Profile m = (if sp_Enabled p then Some (scoped_runner_profile p True) else None)
        \<and> pm_Reason m = (if sp_Enabled p then [] else ''profile_scope_disabled'')))
    \<and> (k \<notin> sp_LabelKey ` set ps \<longrightarrow> (\<forall>gs. ListProfiles globals = Inr gs \<longrightarrow>
      (\<exists>m. MatchProfileForScope h scope repo labels globals tbl = Inr m \<and> pm_Source m = ''global''
        \<and> pm_Profile m = selectMatchingProfile gs labels)))"
proof (intro conjI ballI allI impI)
  have scope: "ValidateRunnerProfileScope scope = Inr ()"
    using ps by (auto simp: ListScopedProfiles_def result_bind_Inr_iff split: sum.splits)
  fix p assume p: "p \<in> set ps" "sp_LabelKey p = k"
  have "find (\<lambda>x. sp_LabelKey x = k) ps = Some p" using find_key [OF scoped_keys_distinct [OF ok ps] p(1)] p(2) by simp
  then show "\<exists>m. MatchProfileForScope h scope repo labels globals tbl = Inr m \<and> pm_Source m = ''scoped_custom''
        \<and> pm_Profile m = (if sp_Enabled p then Some (scoped_runner_profile p True) else None)
        \<and> pm_Reason m = (if sp_Enabled p then [] else ''profile_scope_disabled'')"
    using scope ps key by (simp add: MatchProfileForScope_def Let_def)
next
  have scope: "ValidateRunnerProfileScope scope = Inr ()"
    using ps by (auto simp: ListScopedProfiles_def result_bind_Inr_iff split: sum.splits)
  fix gs assume "k \<notin> sp_LabelKey ` set ps" "ListProfiles globals = Inr gs"
  then show "\<exists>m. MatchProfileForScope h scope repo labels globals tbl = Inr m \<and> pm_Source m = ''global''
        \<and> pm_Profile m = selectMatchingProfile gs labels"
    using scope ps key find_None_iff [of "\<lambda>x. sp_LabelKey x = k" ps]
    by (auto simp: MatchProfileForScope_def Let_def profileMatchFromCandidates_def split: option.splits)
qed

definition scoped_row :: scopedRunnerProfileRecord where
  "scoped_row = \<lparr> sr_ScopeType = ''account'', sr_ScopeID = 4, sr_Name = ''mine'', sr_WorkflowLabelsJSON = JLabels [''linux''],
     sr_LabelKey = ''linux'', sr_TemplateID = ''t-2'', sr_RunnerGroup = [], sr_MaxConcurrency = 1, sr_Enabled = False,
     sr_CreatedAt = 5, sr_UpdatedAt = 5 \<rparr>"

theorem MatchProfileForScope_precedence_witness:
  "\<exists>m. MatchProfileForScope concat \<lparr> sc_Type = ''account'', sc_ID = 4 \<rparr> ''acme/app'' [''linux''] [profileRecord 5 sample_profile] [scoped_row] = Inr m
     \<and> pm_Profile m = None \<and> pm_Reason m = ''profile_scope_disabled''"
proof -
  have key: "NormalizeWorkflowLabels concat [''linux''] = Inr ([''linux''], ''linux'')" by code_simp
  have "ListScopedProfiles \<lparr> sc_Type = ''account'', sc_ID = 4 \<rparr> [scoped_row] = Inr [\<lparr> sp_ScopeType = ''account'', sp_ScopeID = 4, sp_Name = ''mine'',
      sp_WorkflowLabels = [''linux''], sp_LabelKey = ''linux'', sp_TemplateID = ''t-2'', sp_RunnerGroup = [], sp_MaxConcurrency = 1,
      sp_Enabled = False, sp_CreatedAt = 5, sp_UpdatedAt = 5 \<rparr>]"
    by (simp add: ListScopedProfiles_def scoped_row_def scopedProfileFromRecord_def in_scope_def ValidateRunnerProfileScope_def
        RunnerProfileScopeAccount_def)
  from MatchProfileForScope_precedence [OF _ this key, of "''acme/app''" "[profileRecord 5 sample_profile]"]
  show ?thesis by (auto simp: scoped_ok_def)
qed

text \<open>A default template resolves to an identifier exactly when one template only carries the name,
  it is public and it can run; the identifier is then that template's, without blanks.\<close>

theorem resolveDefaultTemplateID_iff:
  "resolveDefaultTemplateID name templates = Inr i \<longleftrightarrow>
     TrimSpace name \<noteq> [] \<and> (\<exists>t. filter (template_named (TrimSpace name)) templates = [t] \<and> ct_Public t \<and> Runnable t
       \<and> i = TrimSpace (ct_TemplateID t))"
  by (auto simp: resolveDefaultTemplateID_def findDefaultTemplate_def Let_def Runnable_def split: list.splits if_splits)

end
