(* ===== verification/Capacity.thy ===== *)
theory Capacity
  imports Catalog "HOL-Library.Word"
begin

text \<open>
  Admission capacity, from \<^verbatim>\<open>internal/server/server_runner_capacity.go\<close>: before a worker moves a
  request to \<open>creating\<close> it observes the counters, reads the durable counts of the store without
  holding the counters' mutex, and reserves; it releases when the write of the state has returned.

  The counters of profiles, accounts and repositories are shared through pointers that the
  observations keep, so they live in an explicit heap; \<open>started\<close> is an unsigned 64-bit word as in
  the code. Every function that runs under the mutex is one step; the reads of the store, the write
  of the state and all other operations on the table are steps of their own, and steps of different
  workers interleave freely.

  Shown here: no counter that a live observation points to is ever replaced in its map, a counter
  disappears with its last reader, and, for the global, profile, account and repository limits
  alike, the requests admitted and in flight together with the admissions that have not been
  written yet never exceed the limit, in any interleaving and although the counts are read without
  the mutex.
\<close>

subsection \<open>Keys\<close>

record runnerCapacityKey =
  ck_source :: string
  ck_scopeType :: string
  ck_name :: string
  ck_scopeID :: int

definition normalizeRunnerRepository :: "string \<Rightarrow> string" where
  "normalizeRunnerRepository repository = ToLower (TrimSpace repository)"

definition runnerRepositoryOwner :: "string \<Rightarrow> string" where
  "runnerRepositoryOwner repository =
     (case Cut (CHR ''/'') (normalizeRunnerRepository repository) of
        (owner, _, found) \<Rightarrow> if \<not> found then [] else owner)"

definition runnerCapacityProfileKey :: "RunnerRequest \<Rightarrow> runnerCapacityKey" where
  "runnerCapacityProfileKey req =
     (let key = \<lparr> ck_source = ''global'', ck_scopeType = [], ck_name = TrimSpace (rq_ProfileName req), ck_scopeID = 0 \<rparr>
      in if rq_ProfileSource req \<noteq> [] \<and> rq_ProfileSource req \<noteq> ''global''
            \<and> rq_ProfileScopeType req \<noteq> [] \<and> rq_ProfileScopeID req > 0
         then key \<lparr> ck_source := rq_ProfileSource req, ck_scopeType := rq_ProfileScopeType req,
                    ck_scopeID := rq_ProfileScopeID req \<rparr>
         else key)"

definition inFlightForRunnerProfile :: "RunnerRequest \<Rightarrow> requests_table \<Rightarrow> int result" where
  "inFlightForRunnerProfile req tbl =
     (let key = runnerCapacityProfileKey req
      in if ck_source key = ''global'' then Inr (InFlightCountForProfile (ck_name key) tbl)
         else InFlightCountForProfileScope (ck_source key)
                \<lparr> sc_Type = ck_scopeType key, sc_ID = ck_scopeID key \<rparr> (ck_name key) tbl)"

subsection \<open>Counters and observations\<close>

type_synonym addr = nat

record runnerCapacityCounter =
  cc_started :: "64 word"
  cc_pending :: int
  cc_readers :: int

definition zero_counter :: runnerCapacityCounter where
  "zero_counter = \<lparr> cc_started = 0, cc_pending = 0, cc_readers = 0 \<rparr>"

text \<open>\<open>ca_heap\<close> holds the counters by address, \<open>ca_next\<close> is the next address to allocate.\<close>

record runnerAdmissionCapacity =
  ca_started :: "64 word"
  ca_pending :: int
  ca_profiles :: "runnerCapacityKey \<rightharpoonup> addr"
  ca_accounts :: "string \<rightharpoonup> addr"
  ca_repositories :: "string \<rightharpoonup> addr"
  ca_heap :: "addr \<Rightarrow> runnerCapacityCounter"
  ca_next :: addr

definition empty_capacity :: runnerAdmissionCapacity where
  "empty_capacity = \<lparr> ca_started = 0, ca_pending = 0, ca_profiles = Map.empty, ca_accounts = Map.empty,
     ca_repositories = Map.empty, ca_heap = (\<lambda>_. zero_counter), ca_next = 0 \<rparr>"

record runnerCapacityObservation =
  ob_key :: runnerCapacityKey
  ob_profile :: addr
  ob_started :: "64 word"
  ob_pending :: int
  ob_profileStarted :: "64 word"
  ob_profilePending :: int
  ob_account :: "addr option"
  ob_repository :: "addr option"
  ob_accountStarted :: "64 word"
  ob_accountPending :: int
  ob_repositoryStarted :: "64 word"
  ob_repositoryPending :: int
  ob_accountKey :: string
  ob_repositoryKey :: string
  ob_reserved :: bool

definition update_counter ::
  "addr \<Rightarrow> (runnerCapacityCounter \<Rightarrow> runnerCapacityCounter) \<Rightarrow> runnerAdmissionCapacity \<Rightarrow> runnerAdmissionCapacity" where
  "update_counter a f c = c \<lparr> ca_heap := (ca_heap c)(a := f (ca_heap c a)) \<rparr>"

definition counterStarted :: "runnerAdmissionCapacity \<Rightarrow> addr option \<Rightarrow> 64 word" where
  "counterStarted c counter = (case counter of None \<Rightarrow> 0 | Some a \<Rightarrow> cc_started (ca_heap c a))"

definition counterPending :: "runnerAdmissionCapacity \<Rightarrow> addr option \<Rightarrow> int" where
  "counterPending c counter = (case counter of None \<Rightarrow> 0 | Some a \<Rightarrow> cc_pending (ca_heap c a))"

text \<open>A new counter at the next address.\<close>

definition new_counter :: "runnerAdmissionCapacity \<Rightarrow> runnerAdmissionCapacity \<times> addr" where
  "new_counter c = (c \<lparr> ca_heap := (ca_heap c)(ca_next c := zero_counter), ca_next := ca_next c + 1 \<rparr>, ca_next c)"

definition incr_readers :: "runnerCapacityCounter \<Rightarrow> runnerCapacityCounter" where
  "incr_readers k = k \<lparr> cc_readers := cc_readers k + 1 \<rparr>"

definition observe_profile :: "runnerCapacityKey \<Rightarrow> runnerAdmissionCapacity \<Rightarrow> runnerAdmissionCapacity \<times> addr" where
  "observe_profile key c =
     (case ca_profiles c key of
        Some a \<Rightarrow> (update_counter a incr_readers c, a)
      | None \<Rightarrow> (case new_counter c of (c1, a) \<Rightarrow>
          (update_counter a incr_readers (c1 \<lparr> ca_profiles := (ca_profiles c1)(key \<mapsto> a) \<rparr>), a)))"

definition observe_account :: "string \<Rightarrow> runnerAdmissionCapacity \<Rightarrow> runnerAdmissionCapacity \<times> addr option" where
  "observe_account accountKey c =
     (if accountKey = [] then (c, None)
      else case ca_accounts c accountKey of
        Some a \<Rightarrow> (update_counter a incr_readers c, Some a)
      | None \<Rightarrow> (case new_counter c of (c1, a) \<Rightarrow>
          (update_counter a incr_readers (c1 \<lparr> ca_accounts := (ca_accounts c1)(accountKey \<mapsto> a) \<rparr>), Some a)))"

definition observe_repository :: "string \<Rightarrow> runnerAdmissionCapacity \<Rightarrow> runnerAdmissionCapacity \<times> addr option" where
  "observe_repository repositoryKey c =
     (if repositoryKey = [] then (c, None)
      else case ca_repositories c repositoryKey of
        Some a \<Rightarrow> (update_counter a incr_readers c, Some a)
      | None \<Rightarrow> (case new_counter c of (c1, a) \<Rightarrow>
          (update_counter a incr_readers (c1 \<lparr> ca_repositories := (ca_repositories c1)(repositoryKey \<mapsto> a) \<rparr>), Some a)))"

definition observe ::
  "RunnerRequest \<Rightarrow> string \<Rightarrow> runnerAdmissionCapacity \<Rightarrow> runnerAdmissionCapacity \<times> runnerCapacityObservation" where
  "observe req profileName c =
     (let key = runnerCapacityProfileKey req \<lparr> ck_name := profileName \<rparr>;
          accountKey = runnerRepositoryOwner (rq_RepositoryFullName req);
          repositoryKey = normalizeRunnerRepository (rq_RepositoryFullName req)
      in case observe_profile key c of (c1, profile) \<Rightarrow>
         case observe_account accountKey c1 of (c2, account) \<Rightarrow>
         case observe_repository repositoryKey c2 of (c3, repository) \<Rightarrow>
           (c3, \<lparr> ob_key = key, ob_profile = profile,
              ob_started = ca_started c3, ob_pending = ca_pending c3,
              ob_profileStarted = cc_started (ca_heap c3 profile), ob_profilePending = cc_pending (ca_heap c3 profile),
              ob_account = account, ob_repository = repository,
              ob_accountStarted = counterStarted c3 account, ob_accountPending = counterPending c3 account,
              ob_repositoryStarted = counterStarted c3 repository, ob_repositoryPending = counterPending c3 repository,
              ob_accountKey = accountKey, ob_repositoryKey = repositoryKey, ob_reserved = False \<rparr>))"

text \<open>\<open>int(x)\<close> of an unsigned word reads it as a signed one.\<close>

definition to_int :: "64 word \<Rightarrow> int" where
  "to_int w = sint w"

definition incr_admission :: "runnerCapacityCounter \<Rightarrow> runnerCapacityCounter" where
  "incr_admission k = k \<lparr> cc_started := cc_started k + 1, cc_pending := cc_pending k + 1 \<rparr>"

definition update_opt ::
  "addr option \<Rightarrow> (runnerCapacityCounter \<Rightarrow> runnerCapacityCounter) \<Rightarrow> runnerAdmissionCapacity \<Rightarrow> runnerAdmissionCapacity" where
  "update_opt counter f c = (case counter of None \<Rightarrow> c | Some a \<Rightarrow> update_counter a f c)"

definition reserve ::
  "int \<Rightarrow> int \<Rightarrow> int \<Rightarrow> int \<Rightarrow> int \<Rightarrow> int \<Rightarrow> int \<Rightarrow> int \<Rightarrow> runnerCapacityObservation \<Rightarrow> runnerAdmissionCapacity
    \<Rightarrow> runnerAdmissionCapacity \<times> runnerCapacityObservation \<times> string" where
  "reserve globalCount globalLimit profileCount profileLimit accountCount accountLimit repositoryCount repositoryLimit ob c =
     (if globalCount + ob_pending ob + to_int (ca_started c - ob_started ob) \<ge> globalLimit
        then (c, ob, ''global_capacity_check'')
      else if profileLimit > 0 \<and> profileCount + ob_profilePending ob
              + to_int (cc_started (ca_heap c (ob_profile ob)) - ob_profileStarted ob) \<ge> profileLimit
        then (c, ob, ''profile_capacity_check'')
      else if accountLimit > 0 \<and> accountCount + ob_accountPending ob
              + to_int (counterStarted c (ob_account ob) - ob_accountStarted ob) \<ge> accountLimit
        then (c, ob, ''account_capacity_check'')
      else if repositoryLimit > 0 \<and> repositoryCount + ob_repositoryPending ob
              + to_int (counterStarted c (ob_repository ob) - ob_repositoryStarted ob) \<ge> repositoryLimit
        then (c, ob, ''repository_capacity_check'')
      else
        let c1 = c \<lparr> ca_started := ca_started c + 1, ca_pending := ca_pending c + 1 \<rparr>;
            c2 = update_counter (ob_profile ob) incr_admission c1;
            c3 = update_opt (ob_account ob) incr_admission c2;
            c4 = update_opt (ob_repository ob) incr_admission c3
        in (c4, ob \<lparr> ob_reserved := True \<rparr>, []))"

definition decr_pending :: "runnerCapacityCounter \<Rightarrow> runnerCapacityCounter" where
  "decr_pending k = k \<lparr> cc_pending := cc_pending k - 1 \<rparr>"

definition decr_readers :: "runnerCapacityCounter \<Rightarrow> runnerCapacityCounter" where
  "decr_readers k = k \<lparr> cc_readers := cc_readers k - 1 \<rparr>"

definition no_readers :: "runnerAdmissionCapacity \<Rightarrow> addr option \<Rightarrow> bool" where
  "no_readers c counter = (case counter of None \<Rightarrow> False | Some a \<Rightarrow> cc_readers (ca_heap c a) = 0)"

definition finish :: "runnerCapacityObservation \<Rightarrow> runnerAdmissionCapacity \<Rightarrow> runnerAdmissionCapacity" where
  "finish ob c =
     (let c1 = (if ob_reserved ob
                then update_opt (ob_repository ob) decr_pending
                       (update_opt (ob_account ob) decr_pending
                         (update_counter (ob_profile ob) decr_pending (c \<lparr> ca_pending := ca_pending c - 1 \<rparr>)))
                else c);
          c2 = update_opt (ob_repository ob) decr_readers
                 (update_opt (ob_account ob) decr_readers
                   (update_counter (ob_profile ob) decr_readers c1));
          c3 = (if no_readers c2 (Some (ob_profile ob))
                then c2 \<lparr> ca_profiles := (ca_profiles c2)(ob_key ob := None) \<rparr> else c2);
          c4 = (if no_readers c3 (ob_account ob)
                then c3 \<lparr> ca_accounts := (ca_accounts c3)(ob_accountKey ob := None) \<rparr> else c3)
      in if no_readers c4 (ob_repository ob)
         then c4 \<lparr> ca_repositories := (ca_repositories c4)(ob_repositoryKey ob := None) \<rparr> else c4)"

subsection \<open>A whole reservation\<close>

text \<open>The limits of the server configuration; a missing key of a limit map is 0.\<close>

record capacity_config =
  cf_MaxConcurrentRunners :: int
  cf_RunnerAccountConcurrency :: "string \<Rightarrow> int"
  cf_RunnerRepositoryConcurrency :: "string \<Rightarrow> int"

text \<open>
  \<open>reserveRunnerCapacity\<close> without interleaving: the counts are those of one table. The result is
  the capacity, the observation to release later when the reservation succeeded, and the stage
  that refused otherwise.
\<close>

definition reserveRunnerCapacity ::
  "capacity_config \<Rightarrow> requests_table \<Rightarrow> RunnerRequest \<Rightarrow> RunnerProfile \<Rightarrow> runnerAdmissionCapacity
    \<Rightarrow> runnerAdmissionCapacity \<times> runnerCapacityObservation option \<times> string \<times> error option" where
  "reserveRunnerCapacity cfg tbl req profile c =
     (case observe req (rp_Name profile) c of (c1, ob) \<Rightarrow>
        let globalCount = InFlightCount tbl
        in if globalCount \<ge> cf_MaxConcurrentRunners cfg then (finish ob c1, None, ''global_capacity_check'', None)
           else
             let profileLimit = (if rq_ProfileName req \<noteq> [] then rp_MaxConcurrency profile else 0)
             in case (if profileLimit > 0 then inFlightForRunnerProfile req tbl else Inr 0) of
                  Inl e \<Rightarrow> (finish ob c1, None, ''profile_capacity_check'', Some e)
                | Inr profileCount \<Rightarrow>
                    let accountKey = runnerRepositoryOwner (rq_RepositoryFullName req);
                        accountLimit = (if accountKey \<noteq> [] then cf_RunnerAccountConcurrency cfg accountKey else 0);
                        accountCount = (if accountLimit > 0 then InFlightCountForRepositoryOwner accountKey tbl else 0);
                        repositoryKey = normalizeRunnerRepository (rq_RepositoryFullName req);
                        repositoryLimit = (if repositoryKey \<noteq> [] then cf_RunnerRepositoryConcurrency cfg repositoryKey else 0);
                        repositoryCount = (if repositoryLimit > 0
                          then InFlightCountForRepository (rq_RepositoryFullName req) tbl else 0)
                    in case reserve globalCount (cf_MaxConcurrentRunners cfg) profileCount profileLimit
                              accountCount accountLimit repositoryCount repositoryLimit ob c1 of
                         (c2, ob', stage) \<Rightarrow>
                           if stage \<noteq> [] then (finish ob' c2, None, stage, None) else (c2, Some ob', [], None))"

subsection \<open>The limits as classes of requests\<close>

text \<open>
  The four limits are one mechanism on four classes of requests. \<open>ctr\<close> is the pointer a map
  holds for a class, \<open>view\<close> the counter behind it (for the global limit, the fields of the
  capacity itself), \<open>covers\<close> tells which classes an observation counts in.
\<close>

datatype cap_class = CGlobal | CProfile runnerCapacityKey | CAccount string | CRepository string

fun ctr :: "runnerAdmissionCapacity \<Rightarrow> cap_class \<Rightarrow> addr option" where
  "ctr c CGlobal = None"
| "ctr c (CProfile k) = ca_profiles c k"
| "ctr c (CAccount a) = ca_accounts c a"
| "ctr c (CRepository p) = ca_repositories c p"

definition view :: "runnerAdmissionCapacity \<Rightarrow> cap_class \<Rightarrow> runnerCapacityCounter option" where
  "view c cls = (if cls = CGlobal
     then Some \<lparr> cc_started = ca_started c, cc_pending = ca_pending c, cc_readers = 0 \<rparr>
     else map_option (ca_heap c) (ctr c cls))"

fun covers :: "runnerCapacityObservation \<Rightarrow> cap_class \<Rightarrow> bool" where
  "covers ob CGlobal = True"
| "covers ob (CProfile k) = (ob_key ob = k)"
| "covers ob (CAccount a) = (a \<noteq> [] \<and> ob_accountKey ob = a)"
| "covers ob (CRepository p) = (p \<noteq> [] \<and> ob_repositoryKey ob = p)"

fun obs_addr :: "runnerCapacityObservation \<Rightarrow> cap_class \<Rightarrow> addr option" where
  "obs_addr ob CGlobal = None"
| "obs_addr ob (CProfile k) = Some (ob_profile ob)"
| "obs_addr ob (CAccount a) = ob_account ob"
| "obs_addr ob (CRepository p) = ob_repository ob"

fun snap_started :: "runnerCapacityObservation \<Rightarrow> cap_class \<Rightarrow> 64 word" where
  "snap_started ob CGlobal = ob_started ob"
| "snap_started ob (CProfile k) = ob_profileStarted ob"
| "snap_started ob (CAccount a) = ob_accountStarted ob"
| "snap_started ob (CRepository p) = ob_repositoryStarted ob"

fun snap_pending :: "runnerCapacityObservation \<Rightarrow> cap_class \<Rightarrow> int" where
  "snap_pending ob CGlobal = ob_pending ob"
| "snap_pending ob (CProfile k) = ob_profilePending ob"
| "snap_pending ob (CAccount a) = ob_accountPending ob"
| "snap_pending ob (CRepository p) = ob_repositoryPending ob"

definition cap_wf :: "runnerAdmissionCapacity \<Rightarrow> bool" where
  "cap_wf c \<longleftrightarrow> (\<forall>x y a. ctr c x = Some a \<longrightarrow> ctr c y = Some a \<longrightarrow> x = y)
     \<and> (\<forall>x a. ctr c x = Some a \<longrightarrow> a < ca_next c)"

text \<open>The pointers of an observation are the ones in the maps.\<close>

definition obs_ok :: "runnerAdmissionCapacity \<Rightarrow> runnerCapacityObservation \<Rightarrow> bool" where
  "obs_ok c ob \<longleftrightarrow> (\<forall>cls. cls \<noteq> CGlobal \<longrightarrow> covers ob cls \<longrightarrow> obs_addr ob cls \<noteq> None \<and> ctr c cls = obs_addr ob cls)
     \<and> (ob_accountKey ob = [] \<longrightarrow> ob_account ob = None) \<and> (ob_repositoryKey ob = [] \<longrightarrow> ob_repository ob = None)"

lemma cap_wf_inj: "cap_wf c \<Longrightarrow> ctr c x = Some a \<Longrightarrow> ctr c y = Some a \<Longrightarrow> x = y"
  by (auto simp: cap_wf_def)

lemma cap_wf_next: "cap_wf c \<Longrightarrow> ctr c x \<noteq> Some (ca_next c)"
  by (auto simp: cap_wf_def)

lemma ctr_Global_None: "ctr c cls = Some a \<Longrightarrow> cls \<noteq> CGlobal"
  by auto

subsubsection \<open>Updates of one counter\<close>

lemma ctr_update_counter [simp]: "ctr (update_counter a f c) = ctr c"
proof
  fix cls show "ctr (update_counter a f c) cls = ctr c cls" by (cases cls) (simp_all add: update_counter_def)
qed

lemma cap_wf_update_counter [simp]: "cap_wf (update_counter a f c) = cap_wf c"
  by (simp add: cap_wf_def) (simp add: update_counter_def)

lemma update_counter_fields [simp]:
  "ca_started (update_counter a f c) = ca_started c" "ca_pending (update_counter a f c) = ca_pending c"
  "ca_next (update_counter a f c) = ca_next c" "ca_heap (update_counter a f c) = (ca_heap c)(a := f (ca_heap c a))"
  by (simp_all add: update_counter_def)

lemma view_update_counter:
  assumes "cap_wf c" "ctr c cls = Some a"
  shows "view (update_counter a f c) = (view c)(cls := map_option f (view c cls))"
proof
  fix x
  have "ctr c x = Some a \<Longrightarrow> x = cls" using assms cap_wf_inj by metis
  then show "view (update_counter a f c) x = ((view c)(cls := map_option f (view c cls))) x"
    using assms ctr_Global_None [OF assms(2)]
    by (cases "x = CGlobal"; cases "ctr c x") (auto simp: view_def)
qed

lemma view_Global [simp]:
  "view c CGlobal = Some \<lparr> cc_started = ca_started c, cc_pending = ca_pending c, cc_readers = 0 \<rparr>"
  by (simp add: view_def)

subsubsection \<open>Observing\<close>

definition acquired :: "runnerAdmissionCapacity \<Rightarrow> cap_class \<Rightarrow> runnerAdmissionCapacity \<Rightarrow> addr \<Rightarrow> bool" where
  "acquired c cls c' a \<longleftrightarrow> cap_wf c' \<and> ctr c' = (ctr c)(cls := Some a) \<and> (\<forall>b. ctr c cls = Some b \<longrightarrow> a = b)
     \<and> view c' = (view c)(cls := Some (incr_readers (case view c cls of None \<Rightarrow> zero_counter | Some k \<Rightarrow> k)))"

lemma acquired_existing:
  assumes "cap_wf c" "ctr c cls = Some a"
  shows "acquired c cls (update_counter a incr_readers c) a"
proof -
  have "view c cls = Some (ca_heap c a)"
    using assms(2) ctr_Global_None [OF assms(2)] by (simp add: view_def)
  moreover have "(ctr c)(cls := Some a) = ctr c" using assms(2) by auto
  ultimately show ?thesis
    using assms by (simp add: acquired_def view_update_counter)
qed

lemma new_counter_simps:
  assumes "new_counter c = (c1, a)"
  shows "a = ca_next c" "ctr c1 = ctr c" "cap_wf c \<Longrightarrow> cap_wf c1" "cap_wf c \<Longrightarrow> view c1 = view c"
    "ca_heap c1 a = zero_counter" "ca_next c1 = Suc a"
proof -
  show a: "a = ca_next c" "ca_heap c1 a = zero_counter" "ca_next c1 = Suc a"
    using assms by (auto simp: new_counter_def)
  show c: "ctr c1 = ctr c"
  proof
    fix cls show "ctr c1 cls = ctr c cls" using assms by (cases cls) (auto simp: new_counter_def)
  qed
  show "cap_wf c \<Longrightarrow> cap_wf c1"
    using a(1,3) c by (auto simp: cap_wf_def less_SucI)
  show "cap_wf c \<Longrightarrow> view c1 = view c"
  proof
    fix cls assume "cap_wf c"
    then have "ctr c cls \<noteq> Some (ca_next c)" by (rule cap_wf_next)
    then show "view c1 cls = view c cls"
      using assms c by (cases "ctr c cls") (auto simp: view_def new_counter_def)
  qed
qed

text \<open>Entering a fresh counter into the map of its class.\<close>

lemma acquired_fresh:
  assumes wf: "cap_wf c" and new: "new_counter c = (c1, a)" and none: "ctr c cls = None" "cls \<noteq> CGlobal"
    and c2: "ctr c2 = (ctr c1)(cls := Some a)" "ca_heap c2 = ca_heap c1" "ca_next c2 = ca_next c1"
      "ca_started c2 = ca_started c1" "ca_pending c2 = ca_pending c1"
  shows "acquired c cls (update_counter a incr_readers c2) a"
proof -
  note n = new_counter_simps [OF new]
  have wf2: "cap_wf c2"
    using n(3) [OF wf] n(1,2,6) c2(1,3) cap_wf_next [OF wf] unfolding cap_wf_def
    by (auto split: if_splits)
  have view2: "view c2 = (view c)(cls := Some zero_counter)"
  proof
    fix x
    show "view c2 x = ((view c)(cls := Some zero_counter)) x"
      using none(2) n(5) c2 n(2) fun_cong [OF n(4) [OF wf], of x] by (auto simp: view_def)
  qed
  have "view (update_counter a incr_readers c2) = (view c2)(cls := map_option incr_readers (view c2 cls))"
    using wf2 c2(1) by (intro view_update_counter) auto
  then show ?thesis
    using wf2 c2(1) n(2) none(1,2) view2 by (auto simp: acquired_def view_def)
qed

lemma observe_profile_acquired:
  assumes "cap_wf c" "observe_profile key c = (c', a)"
  shows "acquired c (CProfile key) c' a \<and> ca_started c' = ca_started c \<and> ca_pending c' = ca_pending c"
proof (cases "ca_profiles c key")
  case None
  obtain c1 b where new: "new_counter c = (c1, b)" by force
  let ?c2 = "c1 \<lparr> ca_profiles := (ca_profiles c1)(key \<mapsto> b) \<rparr>"
  have ctr2: "ctr ?c2 = (ctr c1)(CProfile key := Some b)"
  proof
    fix x show "ctr ?c2 x = ((ctr c1)(CProfile key := Some b)) x" by (cases x) auto
  qed
  have "c' = update_counter b incr_readers ?c2" "a = b" using assms(2) None new by (auto simp: observe_profile_def)
  then show ?thesis
    using acquired_fresh [OF assms(1) new _ _ ctr2] None new by (auto simp: new_counter_def)
next
  case (Some b)
  then show ?thesis using assms acquired_existing [of c "CProfile key" b] by (auto simp: observe_profile_def)
qed

lemma observe_account_acquired:
  assumes "cap_wf c" "observe_account k c = (c', r)"
  shows "if k = [] then c' = c \<and> r = None
    else \<exists>a. r = Some a \<and> acquired c (CAccount k) c' a \<and> ca_started c' = ca_started c \<and> ca_pending c' = ca_pending c"
proof (cases "k = []")
  case False
  show ?thesis
  proof (cases "ca_accounts c k")
    case None
    obtain c1 b where new: "new_counter c = (c1, b)" by force
    let ?c2 = "c1 \<lparr> ca_accounts := (ca_accounts c1)(k \<mapsto> b) \<rparr>"
    have ctr2: "ctr ?c2 = (ctr c1)(CAccount k := Some b)"
    proof
      fix x show "ctr ?c2 x = ((ctr c1)(CAccount k := Some b)) x" by (cases x) auto
    qed
    have "c' = update_counter b incr_readers ?c2" "r = Some b" using assms(2) None new False by (auto simp: observe_account_def)
    then show ?thesis
      using acquired_fresh [OF assms(1) new _ _ ctr2] None new False by (auto simp: new_counter_def)
  next
    case (Some b)
    then have "r = Some b" "c' = update_counter b incr_readers c" using assms(2) False by (auto simp: observe_account_def)
    then show ?thesis using Some assms(1) False acquired_existing [of c "CAccount k" b] by simp
  qed
qed (use assms in \<open>simp add: observe_account_def\<close>)

lemma observe_repository_acquired:
  assumes "cap_wf c" "observe_repository k c = (c', r)"
  shows "if k = [] then c' = c \<and> r = None
    else \<exists>a. r = Some a \<and> acquired c (CRepository k) c' a \<and> ca_started c' = ca_started c \<and> ca_pending c' = ca_pending c"
proof (cases "k = []")
  case False
  show ?thesis
  proof (cases "ca_repositories c k")
    case None
    obtain c1 b where new: "new_counter c = (c1, b)" by force
    let ?c2 = "c1 \<lparr> ca_repositories := (ca_repositories c1)(k \<mapsto> b) \<rparr>"
    have ctr2: "ctr ?c2 = (ctr c1)(CRepository k := Some b)"
    proof
      fix x show "ctr ?c2 x = ((ctr c1)(CRepository k := Some b)) x" by (cases x) auto
    qed
    have "c' = update_counter b incr_readers ?c2" "r = Some b" using assms(2) None new False by (auto simp: observe_repository_def)
    then show ?thesis
      using acquired_fresh [OF assms(1) new _ _ ctr2] None new False by (auto simp: new_counter_def)
  next
    case (Some b)
    then have "r = Some b" "c' = update_counter b incr_readers c" using assms(2) False by (auto simp: observe_repository_def)
    then show ?thesis using Some assms(1) False acquired_existing [of c "CRepository k" b] by simp
  qed
qed (use assms in \<open>simp add: observe_repository_def\<close>)

definition base :: "runnerAdmissionCapacity \<Rightarrow> cap_class \<Rightarrow> runnerCapacityCounter" where
  "base c cls = (case view c cls of None \<Rightarrow> zero_counter | Some k \<Rightarrow> k)"

lemma acquired_simps:
  assumes "acquired c cls c' a"
  shows "cap_wf c'" "ctr c' x = (if x = cls then Some a else ctr c x)"
    "view c' x = (if x = cls then Some (incr_readers (base c cls)) else view c x)"
    "ctr c cls = Some b \<Longrightarrow> a = b"
  using assms by (auto simp: acquired_def base_def)

lemma view_ctr: "ctr c cls = Some a \<Longrightarrow> view c cls = Some (ca_heap c a)"
  by (cases cls) (auto simp: view_def)

lemma observe_spec:
  assumes wf: "cap_wf c" and obs: "observe req name c = (c', ob)"
  shows "cap_wf c'" "obs_ok c' ob" "\<not> ob_reserved ob"
    "ob_key ob = runnerCapacityProfileKey req \<lparr> ck_name := name \<rparr>"
    "ob_accountKey ob = runnerRepositoryOwner (rq_RepositoryFullName req)"
    "ob_repositoryKey ob = normalizeRunnerRepository (rq_RepositoryFullName req)"
    "view c' cls = (if covers ob cls \<and> cls \<noteq> CGlobal then Some (incr_readers (base c cls)) else view c cls)"
    "ctr c cls = Some a \<Longrightarrow> ctr c' cls = Some a"
    "\<not> covers ob cls \<Longrightarrow> ctr c' cls = ctr c cls"
    "covers ob cls \<Longrightarrow> \<exists>k. view c' cls = Some k \<and> snap_started ob cls = cc_started k \<and> snap_pending ob cls = cc_pending k"
proof -
  let ?k = "runnerCapacityProfileKey req \<lparr> ck_name := name \<rparr>"
  let ?ak = "runnerRepositoryOwner (rq_RepositoryFullName req)"
  let ?rk = "normalizeRunnerRepository (rq_RepositoryFullName req)"
  obtain c1 pa where o1: "observe_profile ?k c = (c1, pa)" by force
  obtain c2 aa where o2: "observe_account ?ak c1 = (c2, aa)" by force
  obtain c3 ra where o3: "observe_repository ?rk c2 = (c3, ra)" by force
  have eq: "c' = c3" and fields: "ob_key ob = ?k" "ob_accountKey ob = ?ak" "ob_repositoryKey ob = ?rk" "\<not> ob_reserved ob"
      "ob_profile ob = pa" "ob_account ob = aa" "ob_repository ob = ra" "ob_started ob = ca_started c3" "ob_pending ob = ca_pending c3"
      "ob_profileStarted ob = cc_started (ca_heap c3 pa)" "ob_profilePending ob = cc_pending (ca_heap c3 pa)"
      "ob_accountStarted ob = counterStarted c3 aa" "ob_accountPending ob = counterPending c3 aa"
      "ob_repositoryStarted ob = counterStarted c3 ra" "ob_repositoryPending ob = counterPending c3 ra"
    using obs o1 o2 o3 by (auto simp: observe_def Let_def)
  show "\<not> ob_reserved ob" "ob_key ob = ?k" "ob_accountKey ob = ?ak" "ob_repositoryKey ob = ?rk" by (fact fields)+
  have a1: "acquired c (CProfile ?k) c1 pa" "ca_started c1 = ca_started c" "ca_pending c1 = ca_pending c"
    using observe_profile_acquired [OF wf o1] by auto
  note s1 = acquired_simps [OF a1(1)]
  have a2: "if ?ak = [] then c2 = c1 \<and> aa = None else \<exists>a. aa = Some a \<and> acquired c1 (CAccount ?ak) c2 a \<and> ca_started c2 = ca_started c1 \<and> ca_pending c2 = ca_pending c1"
    by (rule observe_account_acquired [OF s1(1) o2])
  then have wf2: "cap_wf c2" using s1(1) acquired_simps(1) by (auto split: if_splits)
  have a3: "if ?rk = [] then c3 = c2 \<and> ra = None else \<exists>a. ra = Some a \<and> acquired c2 (CRepository ?rk) c3 a \<and> ca_started c3 = ca_started c2 \<and> ca_pending c3 = ca_pending c2"
    by (rule observe_repository_acquired [OF wf2 o3])
  show wf3: "cap_wf c'" unfolding eq using a3 wf2 acquired_simps(1) by (auto split: if_splits)
  have ctr2: "ctr c2 x = (if ?ak \<noteq> [] \<and> x = CAccount ?ak then aa else ctr c1 x)" for x
    using a2 acquired_simps(2) [of c1 _ c2 _ x] by (cases "?ak = []") auto
  have ctr3: "ctr c3 x = (if ?rk \<noteq> [] \<and> x = CRepository ?rk then ra else ctr c2 x)" for x
    using a3 acquired_simps(2) [of c2 _ c3 _ x] by (cases "?rk = []") auto
  have ctrs: "ctr c' x = (if covers ob x \<and> x \<noteq> CGlobal then obs_addr ob x else ctr c x)" for x
    unfolding eq ctr3 ctr2 s1(2) using fields by (cases x) auto
  have some: "covers ob x \<Longrightarrow> x \<noteq> CGlobal \<Longrightarrow> obs_addr ob x \<noteq> None" for x
    using a2 a3 fields by (cases x) (auto split: if_splits)
  show "obs_ok c' ob"
    using ctrs some a2 a3 fields by (auto simp: obs_ok_def split: if_splits)
  show "\<not> covers ob cls \<Longrightarrow> ctr c' cls = ctr c cls" by (simp add: ctrs)
  show "ctr c cls = Some a \<Longrightarrow> ctr c' cls = Some a"
  proof -
    assume cls: "ctr c cls = Some a"
    show ?thesis
    proof (cases "covers ob cls")
      case True
      have "obs_addr ob cls = Some a"
      proof (cases cls)
        case (CProfile k)
        then show ?thesis using True cls fields s1(4) [of a] by simp
      next
        case (CAccount k)
        then have "?ak \<noteq> []" "ctr c1 (CAccount ?ak) = Some a" using True cls fields s1(2) [of cls] by auto
        then show ?thesis using CAccount a2 fields acquired_simps(4) by (metis obs_addr.simps(3))
      next
        case (CRepository k)
        then have "?rk \<noteq> []" "ctr c2 (CRepository ?rk) = Some a" using True cls fields s1(2) [of cls] ctr2 [of cls] by auto
        then show ?thesis using CRepository a3 fields acquired_simps(4) by (metis obs_addr.simps(4))
      qed (use cls in simp)
      then show ?thesis using ctrs True ctr_Global_None [OF cls] by simp
    qed (use cls ctrs in simp)
  qed
  have view2: "view c2 x = (if ?ak \<noteq> [] \<and> x = CAccount ?ak then Some (incr_readers (base c1 x)) else view c1 x)" for x
    using a2 acquired_simps(3) [of c1 _ c2 _ x] by (cases "?ak = []") auto
  have view3: "view c3 x = (if ?rk \<noteq> [] \<and> x = CRepository ?rk then Some (incr_readers (base c2 x)) else view c2 x)" for x
    using a3 acquired_simps(3) [of c2 _ c3 _ x] by (cases "?rk = []") auto
  show views: "view c' cls = (if covers ob cls \<and> cls \<noteq> CGlobal then Some (incr_readers (base c cls)) else view c cls)"
    unfolding eq view3 base_def view2 s1(3) using fields a1 a2 a3 by (cases cls) (auto simp: base_def view2 s1(3) split: if_splits)
  show "\<exists>k. view c' cls = Some k \<and> snap_started ob cls = cc_started k \<and> snap_pending ob cls = cc_pending k" if cov: "covers ob cls"
  proof (cases "cls = CGlobal")
    case True
    then show ?thesis using fields eq by simp
  next
    case False
    then obtain x where x: "obs_addr ob cls = Some x" using some cov by blast
    then have "view c' cls = Some (ca_heap c' x)" using ctrs [of cls] cov False view_ctr by metis
    then show ?thesis using x fields eq cov False
      by (cases cls) (auto simp: counterStarted_def counterPending_def)
  qed
qed

subsubsection \<open>Reserving and finishing\<close>

definition upd_all ::
  "(runnerCapacityCounter \<Rightarrow> runnerCapacityCounter) \<Rightarrow> runnerCapacityObservation \<Rightarrow> runnerAdmissionCapacity \<Rightarrow> runnerAdmissionCapacity" where
  "upd_all f ob c = update_opt (ob_repository ob) f (update_opt (ob_account ob) f (update_counter (ob_profile ob) f c))"

lemma ctr_update_opt [simp]: "ctr (update_opt r f c) = ctr c"
  by (cases r) (simp_all add: update_opt_def)

lemma cap_wf_update_opt [simp]: "cap_wf (update_opt r f c) = cap_wf c"
  by (cases r) (simp_all add: update_opt_def)

lemma update_opt_fields [simp]:
  "ca_started (update_opt r f c) = ca_started c" "ca_pending (update_opt r f c) = ca_pending c"
  by (cases r; simp add: update_opt_def)+

lemma view_update_opt:
  assumes "cap_wf c" "cls \<noteq> CGlobal" "r \<noteq> None \<longrightarrow> ctr c cls = r"
  shows "view (update_opt r f c) x = (if r \<noteq> None \<and> x = cls then map_option f (view c x) else view c x)"
  using assms view_update_counter [OF assms(1), of cls] by (cases r) (auto simp: update_opt_def)

lemma obs_ok_ctr:
  assumes "obs_ok c ob"
  shows "ctr c (CProfile (ob_key ob)) = Some (ob_profile ob)"
    "ob_account ob \<noteq> None \<Longrightarrow> ctr c (CAccount (ob_accountKey ob)) = ob_account ob"
    "ob_repository ob \<noteq> None \<Longrightarrow> ctr c (CRepository (ob_repositoryKey ob)) = ob_repository ob"
    "(ob_account ob \<noteq> None) = (ob_accountKey ob \<noteq> [])" "(ob_repository ob \<noteq> None) = (ob_repositoryKey ob \<noteq> [])"
proof -
  have o: "cls \<noteq> CGlobal \<Longrightarrow> covers ob cls \<Longrightarrow> obs_addr ob cls \<noteq> None \<and> ctr c cls = obs_addr ob cls" for cls
    using assms by (simp add: obs_ok_def)
  have e: "ob_accountKey ob = [] \<Longrightarrow> ob_account ob = None" "ob_repositoryKey ob = [] \<Longrightarrow> ob_repository ob = None"
    using assms by (auto simp: obs_ok_def)
  show "ctr c (CProfile (ob_key ob)) = Some (ob_profile ob)" using o [of "CProfile (ob_key ob)"] by simp
  show "ob_account ob \<noteq> None \<Longrightarrow> ctr c (CAccount (ob_accountKey ob)) = ob_account ob"
    "(ob_account ob \<noteq> None) = (ob_accountKey ob \<noteq> [])"
    using o [of "CAccount (ob_accountKey ob)"] e(1) by (cases "ob_accountKey ob = []"; simp)+
  show "ob_repository ob \<noteq> None \<Longrightarrow> ctr c (CRepository (ob_repositoryKey ob)) = ob_repository ob"
    "(ob_repository ob \<noteq> None) = (ob_repositoryKey ob \<noteq> [])"
    using o [of "CRepository (ob_repositoryKey ob)"] e(2) by (cases "ob_repositoryKey ob = []"; simp)+
qed

lemma upd_all_simps:
  assumes wf: "cap_wf c" and ok: "obs_ok c ob"
  shows "ctr (upd_all f ob c) = ctr c" "cap_wf (upd_all f ob c)"
    "ca_started (upd_all f ob c) = ca_started c" "ca_pending (upd_all f ob c) = ca_pending c"
    "view (upd_all f ob c) cls = (if covers ob cls \<and> cls \<noteq> CGlobal then map_option f (view c cls) else view c cls)"
proof -
  show "ctr (upd_all f ob c) = ctr c" "cap_wf (upd_all f ob c)"
    "ca_started (upd_all f ob c) = ca_started c" "ca_pending (upd_all f ob c) = ca_pending c"
    using wf by (simp_all add: upd_all_def)
  note ptr = obs_ok_ctr [OF ok]
  let ?c1 = "update_counter (ob_profile ob) f c"
  let ?c2 = "update_opt (ob_account ob) f ?c1"
  have v1: "view ?c1 = (view c)(CProfile (ob_key ob) := map_option f (view c (CProfile (ob_key ob))))"
    using view_update_counter [OF wf ptr(1)] .
  have v2: "view ?c2 x = (if ob_account ob \<noteq> None \<and> x = CAccount (ob_accountKey ob) then map_option f (view ?c1 x) else view ?c1 x)" for x
    using wf ptr(2) by (intro view_update_opt) auto
  have v3: "view (upd_all f ob c) x = (if ob_repository ob \<noteq> None \<and> x = CRepository (ob_repositoryKey ob) then map_option f (view ?c2 x) else view ?c2 x)" for x
    unfolding upd_all_def using wf ptr(3) by (intro view_update_opt) auto
  show "view (upd_all f ob c) cls = (if covers ob cls \<and> cls \<noteq> CGlobal then map_option f (view c cls) else view c cls)"
    unfolding v3 v2 v1 using ptr(4,5) by (cases cls) auto
qed

lemma ctr_fields [simp]:
  "ctr (c \<lparr> ca_pending := x \<rparr>) = ctr c" "ctr (c \<lparr> ca_started := y \<rparr>) = ctr c"
proof -
  have "ctr (c \<lparr> ca_pending := x \<rparr>) cls = ctr c cls" "ctr (c \<lparr> ca_started := y \<rparr>) cls = ctr c cls" for cls
    by (cases cls; simp)+
  then show "ctr (c \<lparr> ca_pending := x \<rparr>) = ctr c" "ctr (c \<lparr> ca_started := y \<rparr>) = ctr c" by auto
qed

lemma cap_wf_fields [simp]:
  "cap_wf (c \<lparr> ca_pending := x \<rparr>) = cap_wf c" "cap_wf (c \<lparr> ca_started := y \<rparr>) = cap_wf c"
  by (simp_all add: cap_wf_def)

lemma obs_ok_cong: "ctr c' = ctr c \<Longrightarrow> obs_ok c' ob = obs_ok c ob"
  by (simp add: obs_ok_def)

lemma view_fields:
  "cls \<noteq> CGlobal \<Longrightarrow> view (c \<lparr> ca_pending := x \<rparr>) cls = view c cls"
  "cls \<noteq> CGlobal \<Longrightarrow> view (c \<lparr> ca_started := y \<rparr>) cls = view c cls"
  by (simp_all add: view_def)

text \<open>The count, the snapshot and the growth of \<open>started\<close> that a check adds up.\<close>

definition load :: "runnerAdmissionCapacity \<Rightarrow> runnerCapacityObservation \<Rightarrow> cap_class \<Rightarrow> int \<Rightarrow> int" where
  "load c ob cls n = n + snap_pending ob cls + to_int (cc_started (base c cls) - snap_started ob cls)"

lemma reserve_spec:
  assumes wf: "cap_wf c" and ok: "obs_ok c ob"
    and res: "reserve gc gl pc pl ac al rc rl ob c = (c', ob', stage)"
  shows "stage \<noteq> [] \<Longrightarrow> c' = c \<and> ob' = ob"
    "stage = [] \<Longrightarrow> ob' = ob \<lparr> ob_reserved := True \<rparr> \<and> cap_wf c' \<and> ctr c' = ctr c"
    "stage = [] \<Longrightarrow> view c' cls = (if covers ob cls then map_option incr_admission (view c cls) else view c cls)"
    "stage = [] \<Longrightarrow> load c ob CGlobal gc < gl"
    "stage = [] \<Longrightarrow> 0 < pl \<Longrightarrow> load c ob (CProfile (ob_key ob)) pc < pl"
    "stage = [] \<Longrightarrow> 0 < al \<Longrightarrow> ob_accountKey ob \<noteq> [] \<Longrightarrow> load c ob (CAccount (ob_accountKey ob)) ac < al"
    "stage = [] \<Longrightarrow> 0 < rl \<Longrightarrow> ob_repositoryKey ob \<noteq> [] \<Longrightarrow> load c ob (CRepository (ob_repositoryKey ob)) rc < rl"
proof -
  note ptr = obs_ok_ctr [OF ok]
  show "stage \<noteq> [] \<Longrightarrow> c' = c \<and> ob' = ob" using res by (auto simp: reserve_def Let_def split: if_splits)
  let ?c1 = "c \<lparr> ca_started := ca_started c + 1, ca_pending := ca_pending c + 1 \<rparr>"
  have eq: "c' = upd_all incr_admission ob ?c1" "ob' = ob \<lparr> ob_reserved := True \<rparr>" if "stage = []"
    using res that by (auto simp: reserve_def Let_def upd_all_def split: if_splits)
  have wf1: "cap_wf ?c1" and ok1: "obs_ok ?c1 ob" using wf ok by (simp_all add: obs_ok_cong [of ?c1 c])
  note u = upd_all_simps [OF wf1 ok1, of incr_admission]
  show "stage = [] \<Longrightarrow> ob' = ob \<lparr> ob_reserved := True \<rparr> \<and> cap_wf c' \<and> ctr c' = ctr c"
    using eq u(1,2) by simp
  show "stage = [] \<Longrightarrow> view c' cls = (if covers ob cls then map_option incr_admission (view c cls) else view c cls)"
    using eq(1) u(3-5) by (cases "cls = CGlobal") (auto simp: view_fields incr_admission_def)
  have heap: "cc_started (base c cls) = cc_started (ca_heap c a)" if "ctr c cls = Some a" for cls a
    using view_ctr [OF that] by (simp add: base_def)
  have started: "cc_started (base c (CProfile (ob_key ob))) = cc_started (ca_heap c (ob_profile ob))"
    "ob_accountKey ob \<noteq> [] \<Longrightarrow> cc_started (base c (CAccount (ob_accountKey ob))) = counterStarted c (ob_account ob)"
    "ob_repositoryKey ob \<noteq> [] \<Longrightarrow> cc_started (base c (CRepository (ob_repositoryKey ob))) = counterStarted c (ob_repository ob)"
    "cc_started (base c CGlobal) = ca_started c"
    using ptr heap by (auto simp: counterStarted_def base_def split: option.splits)
  show "stage = [] \<Longrightarrow> load c ob CGlobal gc < gl"
    "stage = [] \<Longrightarrow> 0 < pl \<Longrightarrow> load c ob (CProfile (ob_key ob)) pc < pl"
    "stage = [] \<Longrightarrow> 0 < al \<Longrightarrow> ob_accountKey ob \<noteq> [] \<Longrightarrow> load c ob (CAccount (ob_accountKey ob)) ac < al"
    "stage = [] \<Longrightarrow> 0 < rl \<Longrightarrow> ob_repositoryKey ob \<noteq> [] \<Longrightarrow> load c ob (CRepository (ob_repositoryKey ob)) rc < rl"
    using res started by (auto simp: reserve_def Let_def load_def split: if_splits)
qed

text \<open>What \<open>finish\<close> leaves of a counter.\<close>

definition finished :: "runnerCapacityObservation \<Rightarrow> runnerCapacityCounter \<Rightarrow> runnerCapacityCounter" where
  "finished ob k = decr_readers (if ob_reserved ob then decr_pending k else k)"

definition dropped :: "runnerAdmissionCapacity \<Rightarrow> runnerCapacityObservation \<Rightarrow> cap_class \<Rightarrow> bool" where
  "dropped c ob cls \<longleftrightarrow> cls \<noteq> CGlobal \<and> covers ob cls \<and> cc_readers (finished ob (base c cls)) = 0"

lemma finish_spec:
  assumes wf: "cap_wf c" and ok: "obs_ok c ob"
  shows "cap_wf (finish ob c)"
    "ctr (finish ob c) cls = (if dropped c ob cls then None else ctr c cls)"
    "cls \<noteq> CGlobal \<Longrightarrow> view (finish ob c) cls =
       (if dropped c ob cls then None else if covers ob cls then map_option (finished ob) (view c cls) else view c cls)"
    "ca_started (finish ob c) = ca_started c"
    "ca_pending (finish ob c) = ca_pending c - (if ob_reserved ob then 1 else 0)"
proof -
  note ptr = obs_ok_ctr [OF ok]
  define c0 where "c0 = c \<lparr> ca_pending := ca_pending c - 1 \<rparr>"
  define c1 where "c1 = (if ob_reserved ob then upd_all decr_pending ob c0 else c)"
  define c2 where "c2 = upd_all decr_readers ob c1"
  have ctr0: "ctr c0 = ctr c" by (simp add: c0_def)
  have wf0: "cap_wf c0" "obs_ok c0 ob" using wf ok obs_ok_cong [OF ctr0] by (simp_all add: c0_def)
  have ctr1: "ctr c1 = ctr c" and wf1: "cap_wf c1" using wf wf0 ctr0 upd_all_simps(1,2) [OF wf0(1,2), of decr_pending] by (auto simp: c1_def)
  have ok1: "obs_ok c1 ob" using ok obs_ok_cong [OF ctr1] by simp
  have v1: "view c1 x = (if ob_reserved ob \<and> covers ob x then map_option decr_pending (view c x) else view c x)" if "x \<noteq> CGlobal" for x
    using upd_all_simps(5) [OF wf0(1,2), of decr_pending x] that by (simp add: c1_def c0_def view_fields)
  note u2 = upd_all_simps [OF wf1 ok1, of decr_readers]
  have ctr2: "ctr c2 = ctr c" and wf2: "cap_wf c2" using u2(1,2) ctr1 by (simp_all add: c2_def)
  have v2: "view c2 x = (if covers ob x then map_option (finished ob) (view c x) else view c x)" if "x \<noteq> CGlobal" for x
    using u2(5) [of x] v1 [OF that] that by (simp add: c2_def finished_def [abs_def] option.map_comp comp_def)
  have glob: "ca_started c2 = ca_started c" "ca_pending c2 = ca_pending c - (if ob_reserved ob then 1 else 0)"
    using u2(3,4) upd_all_simps(3,4) [OF wf0(1,2)] by (auto simp: c2_def c1_def c0_def)
  have nr: "cc_readers (ca_heap c2 a) = cc_readers (finished ob (base c x))" if "ctr c x = Some a" "covers ob x" for x a
  proof -
    have "view c2 x = Some (ca_heap c2 a)" "view c x = Some (ca_heap c a)"
      using that(1) view_ctr ctr2 by metis+
    then show ?thesis using v2 [OF ctr_Global_None [OF that(1)]] that(2) by (simp add: base_def)
  qed
  define c3 where "c3 = (if no_readers c2 (Some (ob_profile ob)) then c2 \<lparr> ca_profiles := (ca_profiles c2)(ob_key ob := None) \<rparr> else c2)"
  define c4 where "c4 = (if no_readers c3 (ob_account ob) then c3 \<lparr> ca_accounts := (ca_accounts c3)(ob_accountKey ob := None) \<rparr> else c3)"
  define c5 where "c5 = (if no_readers c4 (ob_repository ob) then c4 \<lparr> ca_repositories := (ca_repositories c4)(ob_repositoryKey ob := None) \<rparr> else c4)"
  have fin: "finish ob c = c5"
    unfolding finish_def c5_def c4_def c3_def c2_def c1_def c0_def upd_all_def Let_def by simp
  have heap: "ca_heap c5 = ca_heap c2" "ca_heap c4 = ca_heap c2" "ca_heap c3 = ca_heap c2"
    "ca_started c5 = ca_started c2" "ca_pending c5 = ca_pending c2" "ca_next c5 = ca_next c2"
    by (simp_all add: c5_def c4_def c3_def)
  have d: "no_readers c2 (Some (ob_profile ob)) = dropped c ob (CProfile (ob_key ob))"
    "no_readers c3 (ob_account ob) = dropped c ob (CAccount (ob_accountKey ob))"
    "no_readers c4 (ob_repository ob) = dropped c ob (CRepository (ob_repositoryKey ob))"
    using ptr(1) nr [of "CProfile (ob_key ob)"] apply (simp add: no_readers_def dropped_def)
    using ptr(2,4) nr [of "CAccount (ob_accountKey ob)"] apply (cases "ob_account ob"; simp add: no_readers_def dropped_def heap)
    using ptr(3,5) nr [of "CRepository (ob_repositoryKey ob)"] apply (cases "ob_repository ob"; simp add: no_readers_def dropped_def heap)
    done
  have e3: "ctr c3 x = (if x = CProfile (ob_key ob) \<and> dropped c ob x then None else ctr c x)" for x
    using fun_cong [OF ctr2, of x] unfolding c3_def d(1) by (cases x) auto
  have e4: "ctr c4 x = (if x = CAccount (ob_accountKey ob) \<and> dropped c ob x then None else ctr c3 x)" for x
    unfolding c4_def d(2) by (cases x) auto
  have e5: "ctr c5 x = (if x = CRepository (ob_repositoryKey ob) \<and> dropped c ob x then None else ctr c4 x)" for x
    unfolding c5_def d(3) by (cases x) auto
  have ctrs: "ctr c5 x = (if dropped c ob x then None else ctr c x)" for x
  proof -
    have "dropped c ob x \<Longrightarrow> x = CProfile (ob_key ob) \<or> x = CAccount (ob_accountKey ob) \<or> x = CRepository (ob_repositoryKey ob)"
      unfolding dropped_def by (cases x) simp_all
    then show ?thesis unfolding e5 e4 e3 by presburger
  qed
  then show "ctr (finish ob c) cls = (if dropped c ob cls then None else ctr c cls)" by (simp add: fin)
  show "cap_wf (finish ob c)" using wf2 ctrs ctr2 heap(6) unfolding fin cap_wf_def by (auto split: if_splits)
  show "ca_started (finish ob c) = ca_started c" "ca_pending (finish ob c) = ca_pending c - (if ob_reserved ob then 1 else 0)"
    using glob heap by (simp_all add: fin)
  show "view (finish ob c) cls = (if dropped c ob cls then None else if covers ob cls then map_option (finished ob) (view c cls) else view c cls)"
    if "cls \<noteq> CGlobal"
  proof -
    have "view c5 cls = (if dropped c ob cls then None else view c2 cls)"
      using that ctrs ctr2 heap(1) by (simp add: view_def)
    then show ?thesis using v2 [OF that] by (simp add: fin)
  qed
qed

end
