(* ===== verification/Admission.thy ===== *)
theory Admission
  imports Capacity
begin

text \<open>
  The admission protocol of src/internal/server/server_runner_capacity.go as a system of workers
  that share the counters and the requests table. The steps are the critical sections of
  \<open>reserveRunnerCapacity\<close> and of its callers: \<open>observe\<close>, each count that is read, \<open>reserve\<close>, the
  write of the state, \<open>finish\<close>. Between two steps of a worker anything else can run. The invariant
  \<open>adm_inv\<close> is kept by every step, and gives the limits.
\<close>

subsection \<open>Workers and the table\<close>

text \<open>
  A worker is inside the window that opens with \<open>observe\<close> and closes with \<open>finish\<close>. Its
  program counter follows \<open>reserveRunnerCapacity\<close>: the four reads in their order (a limit that
  is not set is not read), the reservation, and then the write of the state. A worker can finish
  at any point: on a failed read, on a count at the limit, on a refused reservation, after a
  failed write and after a successful one.
\<close>

datatype adm_pc = ReadGlobal | ReadProfile | ReadAccount | ReadRepository | Reserving | AdmReserved | AdmWritten

record adm_worker =
  aw_req :: RunnerRequest
  aw_profile :: RunnerProfile
  aw_obs :: runnerCapacityObservation
  aw_pc :: adm_pc
  aw_global :: "int option"
  aw_profileCount :: "int option"
  aw_accountCount :: "int option"
  aw_repositoryCount :: "int option"
  aw_base :: "cap_class \<Rightarrow> nat"

text \<open>
  The state: the counters, the table, the identifiers of the requests whose way into flight was
  a reservation, the workers, and the number of admissions so far of every class. The last one
  and \<open>aw_base\<close>, its value when the worker observed, are for the proofs: no step reads them.
\<close>

record adm_world =
  cw_cap :: runnerAdmissionCapacity
  cw_tbl :: requests_table
  cw_admitted :: "string set"
  cw_workers :: "nat \<rightharpoonup> adm_worker"
  cw_starts :: "cap_class \<Rightarrow> nat"

definition in_flight :: "runnerRequestRecord \<Rightarrow> bool" where
  "in_flight r \<longleftrightarrow> rr_Status r \<in> set inFlightStatuses"

fun row_in :: "cap_class \<Rightarrow> runnerRequestRecord \<Rightarrow> bool" where
  "row_in CGlobal r = True"
| "row_in (CProfile k) r = (rr_ProfileName r = ck_name k \<and>
     (if ck_source k = ''global'' then rr_ProfileSource r \<in> set [[], ''global'']
      else rr_ProfileSource r = ck_source k \<and> rr_ProfileScopeType r = ck_scopeType k \<and> rr_ProfileScopeID r = ck_scopeID k))"
| "row_in (CAccount a) r = HasPrefix (ToLower (rr_RepositoryFullName r)) (a @ ''/'')"
| "row_in (CRepository p) r = (ToLower (rr_RepositoryFullName r) = p)"

text \<open>The classes that keys can name: normalized names, and scopes that are complete or absent.\<close>

fun class_valid :: "cap_class \<Rightarrow> bool" where
  "class_valid CGlobal = True"
| "class_valid (CProfile k) = (trimmed (ck_name k) \<and> ck_name k \<noteq> [] \<and>
     (if ck_source k = ''global'' then ck_scopeType k = [] \<and> ck_scopeID k = 0
      else ck_source k \<noteq> [] \<and> ck_scopeType k \<noteq> [] \<and> ck_scopeID k > 0))"
| "class_valid (CAccount a) = (trimmed a \<and> a \<noteq> [] \<and> CHR ''/'' \<notin> set a)"
| "class_valid (CRepository p) = (trimmed p \<and> p \<noteq> [])"

definition same_row_fields :: "RunnerState \<Rightarrow> runnerRequestRecord \<Rightarrow> bool" where
  "same_row_fields st r \<longleftrightarrow> rs_RepositoryFullName st = rr_RepositoryFullName r \<and> rs_ProfileName st = rr_ProfileName r
     \<and> rs_ProfileSource st = rr_ProfileSource r \<and> rs_ProfileScopeType st = rr_ProfileScopeType r
     \<and> rs_ProfileScopeID st = rr_ProfileScopeID r"

definition state_for_request :: "RunnerState \<Rightarrow> RunnerRequest \<Rightarrow> bool" where
  "state_for_request st req \<longleftrightarrow> rs_RepositoryFullName st = rq_RepositoryFullName req \<and> rs_ProfileName st = rq_ProfileName req
     \<and> rs_ProfileSource st = rq_ProfileSource req \<and> rs_ProfileScopeType st = rq_ProfileScopeType req
     \<and> rs_ProfileScopeID st = rq_ProfileScopeID req"

text \<open>An operation of the rest of the server keeps the repository and the profile of the row it writes.\<close>

fun op_keeps_class :: "store_op \<Rightarrow> requests_table \<Rightarrow> bool" where
  "op_keeps_class (OpWrite now st) tbl = list_all (\<lambda>r. write_target st r \<longrightarrow> same_row_fields st r) tbl"
| "op_keeps_class _ tbl = True"

definition still_in_flight :: "requests_table \<Rightarrow> string \<Rightarrow> bool" where
  "still_in_flight tbl i \<longleftrightarrow> list_ex (\<lambda>r. rr_ID r = i \<and> in_flight r) tbl"

definition profile_limit :: "adm_worker \<Rightarrow> int" where
  "profile_limit w = (if rq_ProfileName (aw_req w) \<noteq> [] then rp_MaxConcurrency (aw_profile w) else 0)"

definition account_limit :: "capacity_config \<Rightarrow> adm_worker \<Rightarrow> int" where
  "account_limit cfg w = (let k = runnerRepositoryOwner (rq_RepositoryFullName (aw_req w))
     in if k \<noteq> [] then cf_RunnerAccountConcurrency cfg k else 0)"

definition repository_limit :: "capacity_config \<Rightarrow> adm_worker \<Rightarrow> int" where
  "repository_limit cfg w = (let k = normalizeRunnerRepository (rq_RepositoryFullName (aw_req w))
     in if k \<noteq> [] then cf_RunnerRepositoryConcurrency cfg k else 0)"

definition count_or_zero :: "int option \<Rightarrow> int" where
  "count_or_zero n = (case n of None \<Rightarrow> 0 | Some i \<Rightarrow> i)"

definition set_worker :: "nat \<Rightarrow> adm_worker \<Rightarrow> adm_world \<Rightarrow> adm_world" where
  "set_worker i w s = s \<lparr> cw_workers := (cw_workers s)(i \<mapsto> w) \<rparr>"

text \<open>
  One step of the system. \<open>plim\<close> gives the concurrency limits of the profiles, which do not
  change while the admission lock is held; a reloaded profile has the name that was looked up.
\<close>

inductive adm_step :: "capacity_config \<Rightarrow> (runnerCapacityKey \<Rightarrow> int) \<Rightarrow> adm_world \<Rightarrow> adm_world \<Rightarrow> bool"
  for cfg :: capacity_config and plim :: "runnerCapacityKey \<Rightarrow> int" where
  Observe: "cw_workers s i = None \<Longrightarrow> rp_Name prof = TrimSpace (rq_ProfileName req) \<Longrightarrow>
      observe req (rp_Name prof) (cw_cap s) = (c, ob) \<Longrightarrow> rp_MaxConcurrency prof = plim (ob_key ob) \<Longrightarrow>
      adm_step cfg plim s (set_worker i \<lparr> aw_req = req, aw_profile = prof, aw_obs = ob, aw_pc = ReadGlobal,
        aw_global = None, aw_profileCount = None, aw_accountCount = None, aw_repositoryCount = None,
        aw_base = cw_starts s \<rparr> (s \<lparr> cw_cap := c \<rparr>))"
| CountGlobal: "cw_workers s i = Some w \<Longrightarrow> aw_pc w = ReadGlobal \<Longrightarrow>
      InFlightCount (cw_tbl s) < cf_MaxConcurrentRunners cfg \<Longrightarrow>
      adm_step cfg plim s (set_worker i (w \<lparr> aw_pc := ReadProfile, aw_global := Some (InFlightCount (cw_tbl s)) \<rparr>) s)"
| CountProfile: "cw_workers s i = Some w \<Longrightarrow> aw_pc w = ReadProfile \<Longrightarrow> profile_limit w > 0 \<Longrightarrow>
      inFlightForRunnerProfile (aw_req w) (cw_tbl s) = Inr n \<Longrightarrow>
      adm_step cfg plim s (set_worker i (w \<lparr> aw_pc := ReadAccount, aw_profileCount := Some n \<rparr>) s)"
| SkipProfile: "cw_workers s i = Some w \<Longrightarrow> aw_pc w = ReadProfile \<Longrightarrow> \<not> profile_limit w > 0 \<Longrightarrow>
      adm_step cfg plim s (set_worker i (w \<lparr> aw_pc := ReadAccount \<rparr>) s)"
| CountAccount: "cw_workers s i = Some w \<Longrightarrow> aw_pc w = ReadAccount \<Longrightarrow> account_limit cfg w > 0 \<Longrightarrow>
      n = InFlightCountForRepositoryOwner (runnerRepositoryOwner (rq_RepositoryFullName (aw_req w))) (cw_tbl s) \<Longrightarrow>
      adm_step cfg plim s (set_worker i (w \<lparr> aw_pc := ReadRepository, aw_accountCount := Some n \<rparr>) s)"
| SkipAccount: "cw_workers s i = Some w \<Longrightarrow> aw_pc w = ReadAccount \<Longrightarrow> \<not> account_limit cfg w > 0 \<Longrightarrow>
      adm_step cfg plim s (set_worker i (w \<lparr> aw_pc := ReadRepository \<rparr>) s)"
| CountRepository: "cw_workers s i = Some w \<Longrightarrow> aw_pc w = ReadRepository \<Longrightarrow> repository_limit cfg w > 0 \<Longrightarrow>
      n = InFlightCountForRepository (rq_RepositoryFullName (aw_req w)) (cw_tbl s) \<Longrightarrow>
      adm_step cfg plim s (set_worker i (w \<lparr> aw_pc := Reserving, aw_repositoryCount := Some n \<rparr>) s)"
| SkipRepository: "cw_workers s i = Some w \<Longrightarrow> aw_pc w = ReadRepository \<Longrightarrow> \<not> repository_limit cfg w > 0 \<Longrightarrow>
      adm_step cfg plim s (set_worker i (w \<lparr> aw_pc := Reserving \<rparr>) s)"
| Reserve: "cw_workers s i = Some w \<Longrightarrow> aw_pc w = Reserving \<Longrightarrow>
      reserve (count_or_zero (aw_global w)) (cf_MaxConcurrentRunners cfg) (count_or_zero (aw_profileCount w)) (profile_limit w)
        (count_or_zero (aw_accountCount w)) (account_limit cfg w) (count_or_zero (aw_repositoryCount w)) (repository_limit cfg w)
        (aw_obs w) (cw_cap s) = (c, ob, []) \<Longrightarrow>
      adm_step cfg plim s (set_worker i (w \<lparr> aw_pc := AdmReserved, aw_obs := ob \<rparr>)
        (s \<lparr> cw_cap := c, cw_starts := (\<lambda>cls. cw_starts s cls + (if covers ob cls then 1 else 0)) \<rparr>))"
| WriteCreating: "cw_workers s i = Some w \<Longrightarrow> aw_pc w = AdmReserved \<Longrightarrow>
      WriteState now st (cw_tbl s) = Inr tbl \<Longrightarrow> rs_Status st = StatusCreating \<Longrightarrow>
      sanitizeID (rs_ID st) = sanitizeID (rq_ID (aw_req w)) \<Longrightarrow> state_for_request st (aw_req w) \<Longrightarrow>
      adm_step cfg plim s (set_worker i (w \<lparr> aw_pc := AdmWritten \<rparr>)
        (s \<lparr> cw_tbl := tbl, cw_admitted := insert (sanitizeID (rs_ID st)) (cw_admitted s) \<rparr>))"
| Finish: "cw_workers s i = Some w \<Longrightarrow>
      adm_step cfg plim s (s \<lparr> cw_cap := finish (aw_obs w) (cw_cap s), cw_workers := (cw_workers s)(i := None) \<rparr>)"
| Other: "op_keeps_class op (cw_tbl s) \<Longrightarrow> tbl = run_op op (cw_tbl s) \<Longrightarrow>
      adm_step cfg plim s (s \<lparr> cw_tbl := tbl, cw_admitted := {j \<in> cw_admitted s. still_in_flight tbl j} \<rparr>)"

subsection \<open>What is counted\<close>

definition numw :: "(nat \<rightharpoonup> adm_worker) \<Rightarrow> (adm_worker \<Rightarrow> bool) \<Rightarrow> int" where
  "numw m P = int (card {i. \<exists>w. m i = Some w \<and> P w})"

text \<open>Requests of a class that were admitted and are in flight, and admissions not yet written.\<close>

definition admitted_in :: "adm_world \<Rightarrow> cap_class \<Rightarrow> int" where
  "admitted_in s cls = count_rows (\<lambda>r. in_flight r \<and> rr_ID r \<in> cw_admitted s \<and> row_in cls r) (cw_tbl s)"

definition unwritten :: "adm_world \<Rightarrow> cap_class \<Rightarrow> int" where
  "unwritten s cls = numw (cw_workers s) (\<lambda>w. aw_pc w = AdmReserved \<and> covers (aw_obs w) cls)"

fun limit_of :: "capacity_config \<Rightarrow> (runnerCapacityKey \<Rightarrow> int) \<Rightarrow> cap_class \<Rightarrow> int" where
  "limit_of cfg plim CGlobal = cf_MaxConcurrentRunners cfg"
| "limit_of cfg plim (CProfile k) = plim k"
| "limit_of cfg plim (CAccount a) = cf_RunnerAccountConcurrency cfg a"
| "limit_of cfg plim (CRepository p) = cf_RunnerRepositoryConcurrency cfg p"

text \<open>A class is limited when its limit is set; the global limit always is.\<close>

definition limited :: "capacity_config \<Rightarrow> (runnerCapacityKey \<Rightarrow> int) \<Rightarrow> cap_class \<Rightarrow> bool" where
  "limited cfg plim cls \<longleftrightarrow> class_valid cls \<and> (cls = CGlobal \<or> limit_of cfg plim cls > 0)"

definition within_limits :: "capacity_config \<Rightarrow> (runnerCapacityKey \<Rightarrow> int) \<Rightarrow> adm_world \<Rightarrow> bool" where
  "within_limits cfg plim s \<longleftrightarrow>
     (\<forall>cls. limited cfg plim cls \<longrightarrow> admitted_in s cls + unwritten s cls \<le> max 0 (limit_of cfg plim cls))"

text \<open>
  Reachable states with the number of steps. The server starts with no worker on a table that may
  hold requests in flight from before, within the limits; those count as admitted.
\<close>

inductive adm_reach :: "capacity_config \<Rightarrow> (runnerCapacityKey \<Rightarrow> int) \<Rightarrow> nat \<Rightarrow> adm_world \<Rightarrow> bool"
  for cfg :: capacity_config and plim :: "runnerCapacityKey \<Rightarrow> int" where
  Start: "s = \<lparr> cw_cap = empty_capacity, cw_tbl = tbl, cw_admitted = {j. still_in_flight tbl j}, cw_workers = Map.empty, cw_starts = (\<lambda>_. 0) \<rparr> \<Longrightarrow>
      table_ok tbl \<Longrightarrow> within_limits cfg plim s \<Longrightarrow> adm_reach cfg plim 0 s"
| Step: "adm_reach cfg plim n s \<Longrightarrow> adm_step cfg plim s s' \<Longrightarrow> adm_reach cfg plim (Suc n) s'"

subsubsection \<open>Facts on the counts\<close>

lemma finite_numw: "finite (dom m) \<Longrightarrow> finite {i. \<exists>w. m i = Some w \<and> P w}"
  by (rule finite_subset [of _ "dom m"]) auto

lemma numw_upd:
  assumes "finite (dom m)"
  shows "numw (m(i \<mapsto> w)) P = numw (m(i := None)) P + (if P w then 1 else 0)"
proof -
  let ?A = "{j. \<exists>v. (m(i := None)) j = Some v \<and> P v}"
  have "{j. \<exists>v. (m(i \<mapsto> w)) j = Some v \<and> P v} = (if P w then insert i ?A else ?A)" by auto
  moreover have "finite ?A" using assms by (rule finite_subset [of _ "dom m", rotated]) auto
  moreover have "i \<notin> ?A" by simp
  ultimately show ?thesis by (simp add: numw_def)
qed

lemma numw_remove:
  assumes "finite (dom m)" "m i = Some w"
  shows "numw m P = numw (m(i := None)) P + (if P w then 1 else 0)"
proof -
  have "m = m(i \<mapsto> w)" using assms(2) by auto
  then have "numw m P = numw (m(i \<mapsto> w)) P" by simp
  also have "\<dots> = numw (m(i := None)) P + (if P w then 1 else 0)" by (rule numw_upd [OF assms(1)])
  finally show ?thesis .
qed

lemma numw_change:
  assumes "finite (dom m)" "m i = Some w"
  shows "numw (m(i \<mapsto> w')) P = numw m P - (if P w then 1 else 0) + (if P w' then 1 else 0)"
  using numw_upd [OF assms(1), of i w' P] numw_remove [OF assms, of P] by simp

lemma numw_new:
  assumes "finite (dom m)" "m i = None"
  shows "numw (m(i \<mapsto> w)) P = numw m P + (if P w then 1 else 0)"
proof -
  have "m(i := None) = m" using assms(2) by auto
  then show ?thesis using numw_upd [OF assms(1), of i w P] by simp
qed

lemma numw_nonneg [simp]: "0 \<le> numw m P"
  by (simp add: numw_def)

lemma numw_mono: "finite (dom m) \<Longrightarrow> (\<And>i w. m i = Some w \<Longrightarrow> P w \<Longrightarrow> Q w) \<Longrightarrow> numw m P \<le> numw m Q"
  unfolding numw_def by (auto intro!: card_mono finite_numw)

lemma numw_pos: "finite (dom m) \<Longrightarrow> numw m P \<noteq> 0 \<longleftrightarrow> (\<exists>i w. m i = Some w \<and> P w)"
  using finite_numw [of m P] by (auto simp: numw_def card_eq_0_iff)

lemma numw_zero:
  assumes "\<And>i w. m i = Some w \<Longrightarrow> \<not> P w" shows "numw m P = 0"
proof -
  have "{i. \<exists>w. m i = Some w \<and> P w} = {}" using assms by auto
  then show ?thesis by (simp only: numw_def card.empty of_nat_0)
qed

lemma count_rows_card: "table_ok tbl \<Longrightarrow> count_rows P tbl = int (card (rr_ID ` {r \<in> set tbl. P r}))"
proof -
  assume ok: "table_ok tbl"
  have "inj_on rr_ID {r \<in> set tbl. P r}" using table_ok_id_unique [OF ok] by (auto simp: inj_on_def)
  then have "card (rr_ID ` {r \<in> set tbl. P r}) = card (set (filter P tbl))" by (simp add: card_image)
  also have "\<dots> = length (filter P tbl)"
    using table_ok_distinct [OF ok] by (intro distinct_card) simp
  finally show ?thesis by (simp add: count_rows_def)
qed

lemma count_rows_ids_le:
  assumes "table_ok tbl" "table_ok tbl'" "finite X"
    and "\<And>r'. r' \<in> set tbl' \<Longrightarrow> P' r' \<Longrightarrow> rr_ID r' \<in> X \<or> (\<exists>r\<in>set tbl. P r \<and> rr_ID r = rr_ID r')"
  shows "count_rows P' tbl' \<le> count_rows P tbl + int (card X)"
proof -
  have "rr_ID ` {r \<in> set tbl'. P' r} \<subseteq> X \<union> rr_ID ` {r \<in> set tbl. P r}"
  proof
    fix i assume "i \<in> rr_ID ` {r \<in> set tbl'. P' r}"
    then obtain r' where "r' \<in> set tbl'" "P' r'" "i = rr_ID r'" by auto
    then show "i \<in> X \<union> rr_ID ` {r \<in> set tbl. P r}" using assms(4) [of r'] by (auto simp: image_iff)
  qed
  then have "card (rr_ID ` {r \<in> set tbl'. P' r}) \<le> card (X \<union> rr_ID ` {r \<in> set tbl. P r})"
    using assms(3) by (intro card_mono) auto
  also have "\<dots> \<le> card X + card (rr_ID ` {r \<in> set tbl. P r})" by (rule card_Un_le)
  finally show ?thesis using assms(1,2) by (simp add: count_rows_card)
qed

text \<open>The rest of the server keeps the class of every row.\<close>

definition class_fields :: "runnerRequestRecord \<Rightarrow> string \<times> string \<times> string \<times> string \<times> int" where
  "class_fields r = (rr_RepositoryFullName r, rr_ProfileName r, rr_ProfileSource r, rr_ProfileScopeType r, rr_ProfileScopeID r)"

lemma row_in_class_fields: "class_fields r = class_fields r' \<Longrightarrow> row_in cls r = row_in cls r'"
  by (cases cls) (auto simp: class_fields_def)

lemma update_where_class:
  assumes "table_ok tbl" "r \<in> set tbl" "r' \<in> set (update_where P f tbl)" "rr_ID r' = rr_ID r"
    and "\<And>x. x \<in> set tbl \<Longrightarrow> P x \<Longrightarrow> rr_ID (f x) = rr_ID x \<and> class_fields (f x) = class_fields x"
  shows "class_fields r' = class_fields r"
proof -
  obtain x where x: "x \<in> set tbl" "r' = (if P x then f x else x)" using assms(3) by (auto simp: set_update_where)
  then have "rr_ID x = rr_ID r" using assms(4,5) by (auto split: if_splits)
  then have "x = r" using table_ok_id_unique [OF assms(1) x(1) assms(2)] by simp
  then show ?thesis using x assms(5) by auto
qed

lemma createRequest_class:
  assumes "table_ok tbl" "r \<in> set tbl" "r' \<in> set (fst (createRequest now req p s a b c tbl))" "rr_ID r' = rr_ID r"
  shows "class_fields r' = class_fields r"
proof -
  have "r' = r"
  proof (cases rule: createRequest_cases [of now req p s a b c tbl])
    case (created new)
    then have "r' \<in> set tbl \<or> r' = new" using assms(3) by auto
    moreover have "r' \<noteq> new" using created(2) assms(2,4) by (auto simp: row_conflicts_def)
    ultimately show ?thesis using table_ok_id_unique [OF assms(1) _ assms(2)] assms(4) by blast
  next
    case existing
    then show ?thesis using assms table_ok_id_unique by force
  qed
  then show ?thesis by simp
qed

lemma run_op_class:
  assumes ok: "table_ok tbl" and keep: "op_keeps_class op tbl" and r: "r \<in> set tbl"
    and r': "r' \<in> set (run_op op tbl)" "rr_ID r' = rr_ID r"
  shows "class_fields r' = class_fields r"
proof (cases op)
  case (OpWrite now st)
  show ?thesis
  proof (cases "WriteState now st tbl")
    case (Inl e)
    then show ?thesis using OpWrite r' r table_ok_id_unique [OF ok] by (metis run_op.simps(3) sum.case(1))
  next
    case (Inr tbl')
    then have "tbl' = update_where (write_target st) (write_columns (stamped now st)) tbl"
      using ok by (simp add: WriteState_Inr_iff)
    then have mem: "r' \<in> set (update_where (write_target st) (write_columns (stamped now st)) tbl)"
      using OpWrite r' Inr by simp
    show ?thesis
      by (rule update_where_class [OF ok r mem r'(2)])
         (use keep OpWrite in \<open>auto simp: class_fields_def same_row_fields_def list_all_iff\<close>)
  qed
next
  case (OpClaim w now ttl)
  show ?thesis
  proof (cases "TrimSpace w = []")
    case True
    then show ?thesis using OpClaim r' r table_ok_id_unique [OF ok] by (metis ClaimNextRunnable_blank fst_conv run_op.simps(4))
  next
    case False
    from ok False show ?thesis
    proof (cases rule: ClaimNextRunnable_cases [where now = now and ttl = ttl])
      case none
      then show ?thesis using OpClaim r' r table_ok_id_unique [OF ok] by (metis fst_conv run_op.simps(4))
    next
      case (claimed c)
      then have mem: "r' \<in> set (update_where (\<lambda>r. r = c) (claim_row w now ttl) tbl)" using OpClaim r' by simp
      show ?thesis by (rule update_where_class [OF ok r mem r'(2)]) (auto simp: class_fields_def claim_row_def)
    qed
  qed
next
  case (OpRelease i w)
  then have mem: "r' \<in> set (ReleaseLease i w tbl)" using r' by simp
  show ?thesis
    by (rule update_where_class [OF ok r mem [unfolded ReleaseLease_def] r'(2)]) (auto simp: class_fields_def)
next
  case (OpRetry i now)
  from ok show ?thesis
  proof (cases rule: RetryRequest_cases [where i = i and now = now])
    case (retried c)
    then have mem: "r' \<in> set (update_where (\<lambda>x. x = c) (reset_for_retry now) tbl)" using OpRetry r' by simp
    show ?thesis by (rule update_where_class [OF ok r mem r'(2)]) (auto simp: class_fields_def reset_for_retry_def)
  qed (use OpRetry r' r table_ok_id_unique [OF ok] in \<open>metis fst_conv run_op.simps(6)\<close>)+
qed (use r' createRequest_class [OF ok r] in \<open>auto simp: CreateRequest_def CreateRejectedRequest_def\<close>)

lemma in_flight_simps: "in_flight r \<longleftrightarrow> rr_Status r = StatusCreating \<or> rr_Status r = StatusRunning \<or> rr_Status r = StatusStopping"
  by (auto simp: in_flight_def inFlightStatuses_def)

text \<open>The counts that the store returns are at least the admitted requests of the class.\<close>

lemma InFlightCount_ge: "admitted_in s CGlobal \<le> InFlightCount (cw_tbl s)"
  unfolding admitted_in_def InFlightCount_def by (rule count_rows_mono) (auto simp: in_flight_def)

lemma InFlightForRunnerProfile_ge:
  assumes "inFlightForRunnerProfile req (cw_tbl s) = Inr n" "k = runnerCapacityProfileKey req"
  shows "admitted_in s (CProfile k) \<le> n"
proof (cases "ck_source k = ''global''")
  case True
  then have "n = InFlightCountForProfile (ck_name k) (cw_tbl s)" using assms by (simp add: inFlightForRunnerProfile_def Let_def)
  moreover have "TrimSpace (ck_name k) = ck_name k" using assms(2) by (auto simp: runnerCapacityProfileKey_def Let_def)
  ultimately show ?thesis using True
    unfolding admitted_in_def InFlightCountForProfile_def countStatesForProfileSource_def
    by (auto intro!: count_rows_mono simp: in_flight_def)
next
  case False
  then have "n = count_rows (\<lambda>r. rr_ProfileSource r = ck_source k \<and> rr_ProfileScopeType r = ck_scopeType k
         \<and> rr_ProfileScopeID r = ck_scopeID k \<and> rr_ProfileName r = TrimSpace (ck_name k) \<and> rr_Status r \<in> set inFlightStatuses) (cw_tbl s)"
    using assms by (auto simp: inFlightForRunnerProfile_def Let_def InFlightCountForProfileScope_def countStatesForProfileScope_def)
  moreover have "TrimSpace (ck_name k) = ck_name k" using assms(2) by (auto simp: runnerCapacityProfileKey_def Let_def)
  ultimately show ?thesis using False unfolding admitted_in_def
    by (auto intro!: count_rows_mono simp: in_flight_def)
qed

lemma ToLower_owner: "ToLower (runnerRepositoryOwner repo) = runnerRepositoryOwner repo"
proof (cases "Cut (CHR ''/'') (normalizeRunnerRepository repo)")
  case (fields a b found)
  show ?thesis
  proof (cases found)
    case True
    then have "normalizeRunnerRepository repo = a @ CHR ''/'' # b" using Cut_found [of _ _ a b] fields by simp
    then have "ToLower (a @ CHR ''/'' # b) = a @ CHR ''/'' # b" by (metis ToLower_idem normalizeRunnerRepository_def)
    then have "ToLower a = a" by (simp add: append_eq_append_conv)
    then show ?thesis using True fields by (simp add: runnerRepositoryOwner_def)
  qed (use fields in \<open>simp add: runnerRepositoryOwner_def\<close>)
qed

lemma InFlightOwner_ge:
  assumes "a = runnerRepositoryOwner repo" "trimmed a" "a \<noteq> []"
  shows "admitted_in s (CAccount a) \<le> InFlightCountForRepositoryOwner a (cw_tbl s)"
proof -
  have "ToLower (TrimSpace a) = a" using assms ToLower_owner TrimSpace_id by simp
  then show ?thesis using assms(3) unfolding admitted_in_def InFlightCountForRepositoryOwner_def Let_def
    by (auto intro!: count_rows_mono simp: in_flight_def like_owner)
qed

lemma InFlightRepository_ge:
  assumes "p = normalizeRunnerRepository repo" "p \<noteq> []"
  shows "admitted_in s (CRepository p) \<le> InFlightCountForRepository repo (cw_tbl s)"
  using assms unfolding admitted_in_def InFlightCountForRepository_def Let_def
  by (auto intro!: count_rows_mono simp: in_flight_def normalizeRunnerRepository_def)

subsection \<open>The invariant\<close>

fun known :: "adm_worker \<Rightarrow> cap_class \<Rightarrow> int option" where
  "known w CGlobal = aw_global w"
| "known w (CProfile k) = aw_profileCount w"
| "known w (CAccount a) = aw_accountCount w"
| "known w (CRepository p) = aw_repositoryCount w"

text \<open>What a worker carries: its keys are those of its request, and the counts that its program
  counter says it has read.\<close>

definition worker_wf :: "capacity_config \<Rightarrow> (runnerCapacityKey \<Rightarrow> int) \<Rightarrow> adm_worker \<Rightarrow> bool" where
  "worker_wf cfg plim w \<longleftrightarrow>
     ob_key (aw_obs w) = runnerCapacityProfileKey (aw_req w) \<lparr> ck_name := rp_Name (aw_profile w) \<rparr>
     \<and> rp_Name (aw_profile w) = TrimSpace (rq_ProfileName (aw_req w))
     \<and> rp_MaxConcurrency (aw_profile w) = plim (ob_key (aw_obs w))
     \<and> ob_accountKey (aw_obs w) = runnerRepositoryOwner (rq_RepositoryFullName (aw_req w))
     \<and> ob_repositoryKey (aw_obs w) = normalizeRunnerRepository (rq_RepositoryFullName (aw_req w))
     \<and> (ob_reserved (aw_obs w) \<longleftrightarrow> aw_pc w \<in> {AdmReserved, AdmWritten})
     \<and> (aw_pc w \<noteq> ReadGlobal \<longrightarrow> aw_global w \<noteq> None)
     \<and> (aw_pc w \<notin> {ReadGlobal, ReadProfile} \<longrightarrow> profile_limit w > 0 \<longrightarrow> aw_profileCount w \<noteq> None)
     \<and> (aw_pc w \<notin> {ReadGlobal, ReadProfile, ReadAccount} \<longrightarrow> account_limit cfg w > 0 \<longrightarrow> aw_accountCount w \<noteq> None)
     \<and> (aw_pc w \<notin> {ReadGlobal, ReadProfile, ReadAccount, ReadRepository} \<longrightarrow> repository_limit cfg w > 0 \<longrightarrow> aw_repositoryCount w \<noteq> None)"

definition grown :: "adm_world \<Rightarrow> adm_worker \<Rightarrow> cap_class \<Rightarrow> int" where
  "grown s w cls = int (cw_starts s cls) - int (aw_base w cls)"

definition total_in :: "adm_world \<Rightarrow> cap_class \<Rightarrow> int" where
  "total_in s cls = admitted_in s cls + unwritten s cls"

text \<open>
  The bound that a reading worker holds: the reservations pending when it observed and the
  admissions since cover every admission that is not written, and with a count that it has read
  they cover the whole class.
\<close>

definition worker_bound :: "adm_world \<Rightarrow> adm_worker \<Rightarrow> bool" where
  "worker_bound s w \<longleftrightarrow> (\<forall>cls. covers (aw_obs w) cls \<longrightarrow>
     (\<not> ob_reserved (aw_obs w) \<longrightarrow> unwritten s cls \<le> snap_pending (aw_obs w) cls + grown s w cls
        \<and> (\<forall>n. known w cls = Some n \<longrightarrow> class_valid cls \<longrightarrow>
             total_in s cls \<le> n + snap_pending (aw_obs w) cls + grown s w cls))
     \<and> aw_base w cls \<le> cw_starts s cls
     \<and> cc_started (base (cw_cap s) cls) - snap_started (aw_obs w) cls = of_nat (cw_starts s cls - aw_base w cls))"

definition counters_ok :: "runnerAdmissionCapacity \<Rightarrow> (nat \<rightharpoonup> adm_worker) \<Rightarrow> bool" where
  "counters_ok c m \<longleftrightarrow>
     (\<forall>cls k. view c cls = Some k \<longrightarrow>
        cc_pending k = numw m (\<lambda>w. ob_reserved (aw_obs w) \<and> covers (aw_obs w) cls)
        \<and> (cls \<noteq> CGlobal \<longrightarrow> cc_readers k = numw m (\<lambda>w. covers (aw_obs w) cls)))
     \<and> (\<forall>cls. cls \<noteq> CGlobal \<longrightarrow> ctr c cls \<noteq> None \<longrightarrow> (\<exists>i w. m i = Some w \<and> covers (aw_obs w) cls))"

definition adm_inv :: "capacity_config \<Rightarrow> (runnerCapacityKey \<Rightarrow> int) \<Rightarrow> nat \<Rightarrow> adm_world \<Rightarrow> bool" where
  "adm_inv cfg plim n s \<longleftrightarrow>
     table_ok (cw_tbl s) \<and> finite (dom (cw_workers s)) \<and> cap_wf (cw_cap s)
     \<and> (\<forall>i w. cw_workers s i = Some w \<longrightarrow> worker_wf cfg plim w \<and> obs_ok (cw_cap s) (aw_obs w) \<and> worker_bound s w)
     \<and> (\<forall>cls. cw_starts s cls \<le> n) \<and> counters_ok (cw_cap s) (cw_workers s)
     \<and> (\<forall>j\<in>cw_admitted s. still_in_flight (cw_tbl s) j) \<and> within_limits cfg plim s"

lemma adm_invD:
  assumes "adm_inv cfg plim n s"
  shows "table_ok (cw_tbl s)" "finite (dom (cw_workers s))" "cap_wf (cw_cap s)"
    "cw_workers s i = Some w \<Longrightarrow> worker_wf cfg plim w" "cw_workers s i = Some w \<Longrightarrow> obs_ok (cw_cap s) (aw_obs w)"
    "cw_workers s i = Some w \<Longrightarrow> worker_bound s w" "cw_starts s cls \<le> n" "counters_ok (cw_cap s) (cw_workers s)"
    "j \<in> cw_admitted s \<Longrightarrow> still_in_flight (cw_tbl s) j" "within_limits cfg plim s"
  using assms unfolding adm_inv_def by blast+

lemma within_limits_total: "within_limits cfg plim s \<longleftrightarrow> (\<forall>cls. limited cfg plim cls \<longrightarrow> total_in s cls \<le> max 0 (limit_of cfg plim cls))"
  by (simp add: within_limits_def total_in_def)

text \<open>A step that moves no admission: the bounds of the other workers stay.\<close>

lemma worker_bound_mono:
  assumes "worker_bound s w" "cw_starts s' = cw_starts s"
    and "\<And>cls. covers (aw_obs w) cls \<Longrightarrow> cc_started (base (cw_cap s') cls) = cc_started (base (cw_cap s) cls)"
    and "\<And>cls. unwritten s' cls \<le> unwritten s cls" "\<And>cls. class_valid cls \<Longrightarrow> total_in s' cls \<le> total_in s cls"
  shows "worker_bound s' w"
  unfolding worker_bound_def
proof (intro allI impI)
  fix cls assume c: "covers (aw_obs w) cls"
  have "grown s' w cls = grown s w cls" using assms(2) by (simp add: grown_def)
  then show "(\<not> ob_reserved (aw_obs w) \<longrightarrow> unwritten s' cls \<le> snap_pending (aw_obs w) cls + grown s' w cls
        \<and> (\<forall>n. known w cls = Some n \<longrightarrow> class_valid cls \<longrightarrow> total_in s' cls \<le> n + snap_pending (aw_obs w) cls + grown s' w cls))
     \<and> aw_base w cls \<le> cw_starts s' cls
     \<and> cc_started (base (cw_cap s') cls) - snap_started (aw_obs w) cls = of_nat (cw_starts s' cls - aw_base w cls)"
    using assms(1,2) assms(3) [OF c] assms(4) [of cls] assms(5) [of cls] c unfolding worker_bound_def
    by (smt (verit, best))
qed

lemma within_limits_mono:
  "within_limits cfg plim s \<Longrightarrow> (\<And>cls. class_valid cls \<Longrightarrow> total_in s' cls \<le> total_in s cls) \<Longrightarrow> within_limits cfg plim s'"
  unfolding within_limits_total limited_def by (metis order_trans)

lemma set_worker_simps [simp]:
  "cw_cap (set_worker i w s) = cw_cap s" "cw_tbl (set_worker i w s) = cw_tbl s"
  "cw_admitted (set_worker i w s) = cw_admitted s" "cw_starts (set_worker i w s) = cw_starts s"
  "cw_workers (set_worker i w s) = (cw_workers s)(i \<mapsto> w)"
  "admitted_in (set_worker i w s) = admitted_in s"
  by (simp_all add: set_worker_def admitted_in_def fun_eq_iff)

lemma admitted_in_cong [simp]:
  "admitted_in (s \<lparr> cw_cap := c \<rparr>) = admitted_in s" "admitted_in (s \<lparr> cw_starts := g \<rparr>) = admitted_in s"
  "admitted_in (s \<lparr> cw_workers := m \<rparr>) = admitted_in s"
  by (simp_all add: admitted_in_def fun_eq_iff)

lemma unwritten_cong [simp]:
  "unwritten (s \<lparr> cw_cap := c \<rparr>) = unwritten s" "unwritten (s \<lparr> cw_starts := g \<rparr>) = unwritten s"
  "unwritten (s \<lparr> cw_tbl := t \<rparr>) = unwritten s" "unwritten (s \<lparr> cw_admitted := d \<rparr>) = unwritten s"
  by (simp_all add: unwritten_def fun_eq_iff)

subsection \<open>Preservation\<close>

lemma inv_observe:
  assumes inv: "adm_inv cfg plim n s" and free: "cw_workers s i = None"
    and name: "rp_Name prof = TrimSpace (rq_ProfileName req)"
    and obs: "observe req (rp_Name prof) (cw_cap s) = (c, ob)" and lim: "rp_MaxConcurrency prof = plim (ob_key ob)"
  shows "adm_inv cfg plim (Suc n) (set_worker i \<lparr> aw_req = req, aw_profile = prof, aw_obs = ob, aw_pc = ReadGlobal,
        aw_global = None, aw_profileCount = None, aw_accountCount = None, aw_repositoryCount = None,
        aw_base = cw_starts s \<rparr> (s \<lparr> cw_cap := c \<rparr>))" (is "adm_inv cfg plim _ ?s'")
proof -
  note I = adm_invD [OF inv]
  note O = observe_spec [OF I(3) obs]
  let ?w = "\<lparr> aw_req = req, aw_profile = prof, aw_obs = ob, aw_pc = ReadGlobal, aw_global = None, aw_profileCount = None,
      aw_accountCount = None, aw_repositoryCount = None, aw_base = cw_starts s \<rparr>"
  have unw: "unwritten ?s' cls = unwritten s cls" for cls
    using numw_new [OF I(2) free] by (simp add: unwritten_def)
  have tot: "total_in ?s' cls = total_in s cls" for cls using unw by (simp add: total_in_def)
  have started: "cc_started (base c cls) = cc_started (base (cw_cap s) cls)" for cls
    using O(7) [of cls] by (cases "view (cw_cap s) cls") (auto simp: base_def incr_readers_def zero_counter_def)
  have pend: "cc_pending k = numw (cw_workers s) (\<lambda>w. ob_reserved (aw_obs w) \<and> covers (aw_obs w) cls)
      \<and> (cls \<noteq> CGlobal \<longrightarrow> cc_readers k = numw (cw_workers s) (\<lambda>w. covers (aw_obs w) cls) + (if covers ob cls then 1 else 0))"
    if "view c cls = Some k" for cls k
  proof (cases "view (cw_cap s) cls")
    case None
    then have "cls \<noteq> CGlobal" "ctr (cw_cap s) cls = None" by (auto simp: view_def split: if_splits)
    then have no: "\<not> covers (aw_obs w) cls" if "cw_workers s j = Some w" for j w
      using I(5) [OF that] by (auto simp: obs_ok_def)
    have "covers ob cls" using that None O(7) [of cls] by (auto split: if_splits)
    then have "k = incr_readers zero_counter" using that None O(7) [of cls] \<open>cls \<noteq> CGlobal\<close> by (simp add: base_def)
    then show ?thesis using no numw_zero [of "cw_workers s"] \<open>covers ob cls\<close> by (simp add: incr_readers_def zero_counter_def)
  next
    case (Some k0)
    then have "cc_pending k0 = numw (cw_workers s) (\<lambda>w. ob_reserved (aw_obs w) \<and> covers (aw_obs w) cls)
        \<and> (cls \<noteq> CGlobal \<longrightarrow> cc_readers k0 = numw (cw_workers s) (\<lambda>w. covers (aw_obs w) cls))"
      using I(8) by (simp add: counters_ok_def)
    moreover have "k = (if covers ob cls \<and> cls \<noteq> CGlobal then incr_readers k0 else k0)"
      using that Some O(7) [of cls] by (auto simp: base_def split: if_splits)
    ultimately show ?thesis by (auto simp: incr_readers_def)
  qed
  have "counters_ok c ((cw_workers s)(i \<mapsto> ?w))"
    unfolding counters_ok_def
  proof (intro conjI allI impI)
    fix cls k assume v: "view c cls = Some k"
    show "cc_pending k = numw ((cw_workers s)(i \<mapsto> ?w)) (\<lambda>w. ob_reserved (aw_obs w) \<and> covers (aw_obs w) cls)"
      using pend [OF v] numw_new [OF I(2) free] O(3) by simp
    show "cls \<noteq> CGlobal \<Longrightarrow> cc_readers k = numw ((cw_workers s)(i \<mapsto> ?w)) (\<lambda>w. covers (aw_obs w) cls)"
      using pend [OF v] numw_new [OF I(2) free] by simp
  next
    fix cls assume "cls \<noteq> CGlobal" "ctr c cls \<noteq> None"
    then show "\<exists>j w. ((cw_workers s)(i \<mapsto> ?w)) j = Some w \<and> covers (aw_obs w) cls"
    proof (cases "covers ob cls")
      case False
      then obtain j w where "cw_workers s j = Some w" "covers (aw_obs w) cls"
        using \<open>cls \<noteq> CGlobal\<close> \<open>ctr c cls \<noteq> None\<close> O(9) [of cls] I(8) by (auto simp: counters_ok_def)
      then show ?thesis using free by (intro exI [of _ j] exI [of _ w]) auto
    qed (auto intro!: exI [of _ i])
  qed
  moreover have "worker_bound ?s' ?w"
    unfolding worker_bound_def
  proof (intro allI impI)
    fix cls assume cov: "covers (aw_obs ?w) cls"
    then obtain k where k: "view c cls = Some k" "snap_started ob cls = cc_started k" "snap_pending ob cls = cc_pending k"
      using O(10) [of cls] by auto
    have "unwritten s cls \<le> cc_pending k"
      using pend [OF k(1)] I(4) unfolding unwritten_def
      by (auto intro!: numw_mono [OF I(2)] simp: worker_wf_def)
    then show "(\<not> ob_reserved (aw_obs ?w) \<longrightarrow> unwritten ?s' cls \<le> snap_pending (aw_obs ?w) cls + grown ?s' ?w cls
        \<and> (\<forall>n. known ?w cls = Some n \<longrightarrow> class_valid cls \<longrightarrow> total_in ?s' cls \<le> n + snap_pending (aw_obs ?w) cls + grown ?s' ?w cls))
     \<and> aw_base ?w cls \<le> cw_starts ?s' cls
     \<and> cc_started (base (cw_cap ?s') cls) - snap_started (aw_obs ?w) cls = of_nat (cw_starts ?s' cls - aw_base ?w cls)"
      using k unw by (cases cls) (auto simp: grown_def base_def)
  qed
  moreover have "worker_bound ?s' w \<and> obs_ok c (aw_obs w)" if "cw_workers s j = Some w" for j w
  proof
    show "worker_bound ?s' w"
      by (rule worker_bound_mono [OF I(6) [OF that]]) (simp_all add: started unw tot)
    show "obs_ok c (aw_obs w)"
      using I(5) [OF that] O(8) by (auto simp: obs_ok_def)
  qed
  moreover have "worker_wf cfg plim ?w"
    using O(3-6) name lim by (simp add: worker_wf_def)
  moreover have "within_limits cfg plim ?s'" using I(10) by (rule within_limits_mono) (simp add: tot)
  ultimately show ?thesis
    unfolding adm_inv_def using I O(1,2) by (auto simp: le_SucI)
qed

lemma adm_invI:
  assumes "table_ok (cw_tbl s)" "finite (dom (cw_workers s))" "cap_wf (cw_cap s)"
    "\<And>i w. cw_workers s i = Some w \<Longrightarrow> worker_wf cfg plim w \<and> obs_ok (cw_cap s) (aw_obs w) \<and> worker_bound s w"
    "\<And>cls. cw_starts s cls \<le> n" "counters_ok (cw_cap s) (cw_workers s)"
    "\<And>j. j \<in> cw_admitted s \<Longrightarrow> still_in_flight (cw_tbl s) j" "within_limits cfg plim s"
  shows "adm_inv cfg plim n s"
  using assms unfolding adm_inv_def by blast

text \<open>A read of the table, or a read that is skipped.\<close>

lemma inv_count:
  assumes inv: "adm_inv cfg plim n s" and w: "cw_workers s i = Some w"
    and same: "aw_obs w' = aw_obs w" "aw_base w' = aw_base w"
    and pc: "aw_pc w \<noteq> AdmReserved" "aw_pc w' \<noteq> AdmReserved" and wf: "worker_wf cfg plim w'"
    and kn: "\<And>cls m. covers (aw_obs w) cls \<Longrightarrow> known w' cls = Some m \<Longrightarrow> class_valid cls \<Longrightarrow>
        known w cls = Some m \<or> admitted_in s cls \<le> m"
  shows "adm_inv cfg plim (Suc n) (set_worker i w' s)" (is "adm_inv _ _ _ ?s'")
proof -
  note I = adm_invD [OF inv]
  have num: "numw ((cw_workers s)(i \<mapsto> w')) P = numw (cw_workers s) P" if "P w' = P w" for P
    using numw_change [OF I(2) w, of w' P] that by simp
  have unw: "unwritten ?s' cls = unwritten s cls" for cls
    unfolding unwritten_def using num pc by simp
  have tot: "total_in ?s' cls = total_in s cls" for cls using unw by (simp add: total_in_def)
  have other: "worker_bound ?s' v" if "cw_workers s j = Some v" for j v
    by (rule worker_bound_mono [OF I(6) [OF that]]) (simp_all add: unw tot)
  have "worker_bound ?s' w'"
    unfolding worker_bound_def
  proof (intro allI impI)
    fix cls assume cov: "covers (aw_obs w') cls"
    have g: "grown ?s' w' cls = grown s w cls" using same by (simp add: grown_def)
    have b: "(\<not> ob_reserved (aw_obs w) \<longrightarrow> unwritten s cls \<le> snap_pending (aw_obs w) cls + grown s w cls
        \<and> (\<forall>n. known w cls = Some n \<longrightarrow> class_valid cls \<longrightarrow> total_in s cls \<le> n + snap_pending (aw_obs w) cls + grown s w cls))
        \<and> aw_base w cls \<le> cw_starts s cls
        \<and> cc_started (base (cw_cap s) cls) - snap_started (aw_obs w) cls = of_nat (cw_starts s cls - aw_base w cls)"
      using I(6) [OF w] cov same(1) unfolding worker_bound_def by simp
    have "total_in s cls \<le> m + snap_pending (aw_obs w) cls + grown s w cls"
      if "known w' cls = Some m" "class_valid cls" "\<not> ob_reserved (aw_obs w)" for m
      using kn [of cls m] that b cov same(1) by (auto simp: total_in_def)
    then show "(\<not> ob_reserved (aw_obs w') \<longrightarrow> unwritten ?s' cls \<le> snap_pending (aw_obs w') cls + grown ?s' w' cls
        \<and> (\<forall>n. known w' cls = Some n \<longrightarrow> class_valid cls \<longrightarrow> total_in ?s' cls \<le> n + snap_pending (aw_obs w') cls + grown ?s' w' cls))
        \<and> aw_base w' cls \<le> cw_starts ?s' cls
        \<and> cc_started (base (cw_cap ?s') cls) - snap_started (aw_obs w') cls = of_nat (cw_starts ?s' cls - aw_base w' cls)"
      using b unw tot g same by simp
  qed
  moreover have "counters_ok (cw_cap s) ((cw_workers s)(i \<mapsto> w'))"
    unfolding counters_ok_def
  proof (intro conjI allI impI)
    fix cls k assume "view (cw_cap s) cls = Some k"
    then show "cc_pending k = numw ((cw_workers s)(i \<mapsto> w')) (\<lambda>w. ob_reserved (aw_obs w) \<and> covers (aw_obs w) cls)"
      "cls \<noteq> CGlobal \<Longrightarrow> cc_readers k = numw ((cw_workers s)(i \<mapsto> w')) (\<lambda>w. covers (aw_obs w) cls)"
      using I(8) num same(1) by (simp_all add: counters_ok_def)
  next
    fix cls assume "cls \<noteq> CGlobal" "ctr (cw_cap s) cls \<noteq> None"
    then obtain j v where "cw_workers s j = Some v" "covers (aw_obs v) cls" using I(8) unfolding counters_ok_def by blast
    then show "\<exists>j v. ((cw_workers s)(i \<mapsto> w')) j = Some v \<and> covers (aw_obs v) cls"
      using w same(1) by (intro exI [of _ j] exI [of _ "if j = i then w' else v"]) auto
  qed
  moreover have "within_limits cfg plim ?s'" using I(10) by (rule within_limits_mono) (simp add: tot)
  moreover have "worker_wf cfg plim v \<and> obs_ok (cw_cap ?s') (aw_obs v) \<and> worker_bound ?s' v" if "cw_workers ?s' j = Some v" for j v
  proof (cases "j = i")
    case True
    then have "v = w'" using that by simp
    then show ?thesis using wf I(5) [OF w] same(1) \<open>worker_bound ?s' w'\<close> by simp
  next
    case False
    then have "cw_workers s j = Some v" using that by simp
    then show ?thesis using I(4) I(5) other by simp
  qed
  ultimately show ?thesis
    using I(1,2,3,7,9) by (intro adm_invI) (simp_all add: le_SucI)
qed

lemma profile_key_name: "runnerCapacityProfileKey req \<lparr> ck_name := TrimSpace (rq_ProfileName req) \<rparr> = runnerCapacityProfileKey req"
  by (simp add: runnerCapacityProfileKey_def Let_def)

lemma worker_wf_key: "worker_wf cfg plim w \<Longrightarrow> ob_key (aw_obs w) = runnerCapacityProfileKey (aw_req w)"
  unfolding worker_wf_def by (elim conjE) (simp add: profile_key_name)

lemma profile_key_covered:
  assumes "worker_wf cfg plim w" "covers (aw_obs w) (CProfile k)"
  shows "k = runnerCapacityProfileKey (aw_req w)"
  using assms worker_wf_key by simp

lemma inv_count_global:
  assumes inv: "adm_inv cfg plim n s" and w: "cw_workers s i = Some w" "aw_pc w = ReadGlobal"
  shows "adm_inv cfg plim (Suc n) (set_worker i (w \<lparr> aw_pc := ReadProfile, aw_global := Some (InFlightCount (cw_tbl s)) \<rparr>) s)"
proof (rule inv_count [OF inv w(1)])
  fix cls m
  assume "known (w \<lparr> aw_pc := ReadProfile, aw_global := Some (InFlightCount (cw_tbl s)) \<rparr>) cls = Some m"
  then show "known w cls = Some m \<or> admitted_in s cls \<le> m" using InFlightCount_ge [of s] by (cases cls) auto
qed (use adm_invD(4) [OF inv w(1)] w(2) in \<open>auto simp: worker_wf_def profile_limit_def account_limit_def repository_limit_def\<close>)

lemma inv_count_profile:
  assumes inv: "adm_inv cfg plim n s" and w: "cw_workers s i = Some w" "aw_pc w = ReadProfile"
    and r: "inFlightForRunnerProfile (aw_req w) (cw_tbl s) = Inr k"
  shows "adm_inv cfg plim (Suc n) (set_worker i (w \<lparr> aw_pc := ReadAccount, aw_profileCount := Some k \<rparr>) s)"
proof (rule inv_count [OF inv w(1)])
  fix cls m
  assume "covers (aw_obs w) cls" "known (w \<lparr> aw_pc := ReadAccount, aw_profileCount := Some k \<rparr>) cls = Some m"
  then show "known w cls = Some m \<or> admitted_in s cls \<le> m"
    using InFlightForRunnerProfile_ge [OF r] profile_key_covered [OF adm_invD(4) [OF inv w(1)]] by (cases cls) auto
qed (use adm_invD(4) [OF inv w(1)] w(2) in \<open>auto simp: worker_wf_def profile_limit_def account_limit_def repository_limit_def\<close>)

lemma inv_count_account:
  assumes inv: "adm_inv cfg plim n s" and w: "cw_workers s i = Some w" "aw_pc w = ReadAccount"
    and r: "k = InFlightCountForRepositoryOwner (runnerRepositoryOwner (rq_RepositoryFullName (aw_req w))) (cw_tbl s)"
  shows "adm_inv cfg plim (Suc n) (set_worker i (w \<lparr> aw_pc := ReadRepository, aw_accountCount := Some k \<rparr>) s)"
proof (rule inv_count [OF inv w(1)])
  fix cls m
  assume "covers (aw_obs w) cls" "class_valid cls" "known (w \<lparr> aw_pc := ReadRepository, aw_accountCount := Some k \<rparr>) cls = Some m"
  then show "known w cls = Some m \<or> admitted_in s cls \<le> m"
    using InFlightOwner_ge [of _ "rq_RepositoryFullName (aw_req w)" s] adm_invD(4) [OF inv w(1)] r
    by (cases cls) (auto simp: worker_wf_def)
qed (use adm_invD(4) [OF inv w(1)] w(2) in \<open>auto simp: worker_wf_def profile_limit_def account_limit_def repository_limit_def\<close>)

lemma inv_count_repository:
  assumes inv: "adm_inv cfg plim n s" and w: "cw_workers s i = Some w" "aw_pc w = ReadRepository"
    and r: "k = InFlightCountForRepository (rq_RepositoryFullName (aw_req w)) (cw_tbl s)"
  shows "adm_inv cfg plim (Suc n) (set_worker i (w \<lparr> aw_pc := Reserving, aw_repositoryCount := Some k \<rparr>) s)"
proof (rule inv_count [OF inv w(1)])
  fix cls m
  assume "covers (aw_obs w) cls" "class_valid cls" "known (w \<lparr> aw_pc := Reserving, aw_repositoryCount := Some k \<rparr>) cls = Some m"
  then show "known w cls = Some m \<or> admitted_in s cls \<le> m"
    using InFlightRepository_ge [of _ "rq_RepositoryFullName (aw_req w)" s] adm_invD(4) [OF inv w(1)] r
    by (cases cls) (auto simp: worker_wf_def)
qed (use adm_invD(4) [OF inv w(1)] w(2) in \<open>auto simp: worker_wf_def profile_limit_def account_limit_def repository_limit_def\<close>)

lemma known_pc [simp]: "known (w \<lparr> aw_pc := p \<rparr>) cls = known w cls"
  by (cases cls) auto

lemma limits_pc [simp]:
  "profile_limit (w \<lparr> aw_pc := p \<rparr>) = profile_limit w" "account_limit cfg (w \<lparr> aw_pc := p \<rparr>) = account_limit cfg w"
  "repository_limit cfg (w \<lparr> aw_pc := p \<rparr>) = repository_limit cfg w"
  by (simp_all add: profile_limit_def account_limit_def repository_limit_def)

lemma inv_skip:
  assumes inv: "adm_inv cfg plim n s" and w: "cw_workers s i = Some w"
    and pc: "(aw_pc w, p) \<in> {(ReadProfile, ReadAccount), (ReadAccount, ReadRepository), (ReadRepository, Reserving)}"
    and skip: "aw_pc w = ReadProfile \<Longrightarrow> \<not> profile_limit w > 0" "aw_pc w = ReadAccount \<Longrightarrow> \<not> account_limit cfg w > 0"
      "aw_pc w = ReadRepository \<Longrightarrow> \<not> repository_limit cfg w > 0"
  shows "adm_inv cfg plim (Suc n) (set_worker i (w \<lparr> aw_pc := p \<rparr>) s)"
proof (rule inv_count [OF inv w])
  show "worker_wf cfg plim (w \<lparr> aw_pc := p \<rparr>)"
    using adm_invD(4) [OF inv w] pc skip unfolding worker_wf_def
    by (elim conjE insertE emptyE) (auto)
qed (use pc in auto)

text \<open>The row that an admitted request becomes lies in classes that its observation covers.\<close>

lemma TrimSpace_prefix:
  assumes "\<not> is_space (hd (a @ [c]))" "\<not> is_space c" "HasPrefix s (a @ [c])"
  shows "HasPrefix (TrimSpace s) (a @ [c])"
proof -
  obtain r where s: "s = a @ c # r" using assms(3) by (auto simp: HasPrefix_iff)
  have "dropWhile is_space s = s" using assms(1) s by (cases a) auto
  moreover have "dropWhile is_space (rev r @ c # rev a) = dropWhile is_space (rev r) @ c # rev a"
    using assms(2) by (induction "rev r" rule: rev_induct) (auto simp: dropWhile_append)
  ultimately have "TrimSpace s = a @ c # rev (dropWhile is_space (rev r))"
    using s by (simp add: TrimSpace_def)
  then show ?thesis by (auto simp: HasPrefix_iff)
qed

lemma owner_of_prefix:
  assumes "HasPrefix (ToLower repo) (a @ ''/'')" "trimmed a" "a \<noteq> []" "CHR ''/'' \<notin> set a"
  shows "runnerRepositoryOwner repo = a"
proof -
  have "\<not> is_space (hd a)" using assms(2,3) by (auto simp: trimmed_def)
  then have "HasPrefix (TrimSpace (ToLower repo)) (a @ [CHR ''/''])"
    using assms(1,3) by (intro TrimSpace_prefix) (auto simp: is_space_def)
  then obtain r where "normalizeRunnerRepository repo = a @ CHR ''/'' # r"
    by (auto simp: HasPrefix_iff normalizeRunnerRepository_def TrimSpace_ToLower)
  then show ?thesis using Cut_append [OF assms(4), of r] by (simp add: runnerRepositoryOwner_def)
qed

lemma row_in_covers:
  assumes wf: "worker_wf cfg plim w" and v: "class_valid cls" and r: "row_in cls r"
    and same: "rr_RepositoryFullName r = rq_RepositoryFullName (aw_req w)" "rr_ProfileName r = rq_ProfileName (aw_req w)"
      "rr_ProfileSource r = rq_ProfileSource (aw_req w)" "rr_ProfileScopeType r = rq_ProfileScopeType (aw_req w)"
      "rr_ProfileScopeID r = rq_ProfileScopeID (aw_req w)"
  shows "covers (aw_obs w) cls"
proof (cases cls)
  case (CProfile k)
  have "TrimSpace (ck_name k) = ck_name k" using v CProfile by (intro TrimSpace_id) simp
  then have "runnerCapacityProfileKey (aw_req w) = k"
    using v r same unfolding CProfile
    by (cases k) (auto simp: runnerCapacityProfileKey_def Let_def split: if_splits)
  then show ?thesis using CProfile worker_wf_key [OF wf] by simp
next
  case (CAccount a)
  have "runnerRepositoryOwner (rq_RepositoryFullName (aw_req w)) = a"
    using owner_of_prefix [of "rq_RepositoryFullName (aw_req w)" a] r v same(1) CAccount by simp
  then show ?thesis using CAccount v wf unfolding worker_wf_def by simp
next
  case (CRepository p)
  have "normalizeRunnerRepository (rq_RepositoryFullName (aw_req w)) = p"
    using r v same(1) CRepository TrimSpace_id [of p] by (auto simp: normalizeRunnerRepository_def TrimSpace_ToLower [symmetric])
  then show ?thesis using CRepository v wf unfolding worker_wf_def by simp
qed simp

text \<open>A write of an admission turns it from an unwritten one into an admitted row.\<close>

lemma write_rows:
  assumes ok: "table_ok tbl" and wr: "WriteState now st tbl = Inr tbl'" and r': "r' \<in> set tbl'"
  shows "(rr_ID r' \<noteq> sanitizeID (rs_ID st) \<and> r' \<in> set tbl)
    \<or> (rr_ID r' = sanitizeID (rs_ID st) \<and> rr_Status r' = rs_Status st \<and> rr_RepositoryFullName r' = rs_RepositoryFullName st
        \<and> rr_ProfileName r' = rs_ProfileName st \<and> rr_ProfileSource r' = rs_ProfileSource st
        \<and> rr_ProfileScopeType r' = rs_ProfileScopeType st \<and> rr_ProfileScopeID r' = rs_ProfileScopeID st)"
proof -
  obtain t where t: "t \<in> set tbl" "write_target st t"
    and tbl': "tbl' = update_where (write_target st) (write_columns (stamped now st)) tbl"
    using wr WriteState_Inr_iff [OF ok] by blast
  obtain x where x: "x \<in> set tbl" "r' = (if write_target st x then write_columns (stamped now st) x else x)"
    using r' tbl' by (auto simp: set_update_where)
  show ?thesis
  proof (cases "write_target st x")
    case True
    then show ?thesis using x(2) by (simp add: write_columns_def write_target_def)
  next
    case False
    then have "rr_ID x \<noteq> sanitizeID (rs_ID st)"
      using table_ok_id_unique [OF ok x(1) t(1)] t(2) by (auto simp: write_target_def)
    then show ?thesis using x False by simp
  qed
qed

lemma write_still:
  assumes ok: "table_ok tbl" and wr: "WriteState now st tbl = Inr tbl'" and "rs_Status st = StatusCreating"
    and "j = sanitizeID (rs_ID st) \<or> still_in_flight tbl j"
  shows "still_in_flight tbl' j"
proof -
  obtain t where t: "t \<in> set tbl" "write_target st t"
    and tbl': "tbl' = update_where (write_target st) (write_columns (stamped now st)) tbl"
    using wr WriteState_Inr_iff [OF ok] by blast
  let ?f = "\<lambda>x. if write_target st x then write_columns (stamped now st) x else x"
  have f: "rr_ID (?f x) = rr_ID x" "in_flight x \<Longrightarrow> in_flight (?f x)" "in_flight (?f t)" for x
    using assms(3) t(2) by (simp_all add: write_columns_def in_flight_simps)
  obtain x where "x \<in> set tbl" "rr_ID x = j" "in_flight (?f x)"
  proof (cases "j = sanitizeID (rs_ID st)")
    case True
    then show thesis using that t f(3) by (auto simp: write_target_def)
  next
    case False
    then show thesis using that assms(4) f(2) by (auto simp: still_in_flight_def list_ex_iff)
  qed
  then have "?f x \<in> set tbl'" "rr_ID (?f x) = j" "in_flight (?f x)" using tbl' f(1) by (auto simp: set_update_where)
  then show ?thesis unfolding still_in_flight_def list_ex_iff by blast
qed

lemma inv_write:
  assumes inv: "adm_inv cfg plim n s" and w: "cw_workers s i = Some w" "aw_pc w = AdmReserved"
    and wr: "WriteState now st (cw_tbl s) = Inr tbl" "rs_Status st = StatusCreating" and req: "state_for_request st (aw_req w)"
  shows "adm_inv cfg plim (Suc n) (set_worker i (w \<lparr> aw_pc := AdmWritten \<rparr>)
        (s \<lparr> cw_tbl := tbl, cw_admitted := insert (sanitizeID (rs_ID st)) (cw_admitted s) \<rparr>))" (is "adm_inv _ _ _ ?s'")
proof -
  let ?w = "w \<lparr> aw_pc := AdmWritten \<rparr>" and ?id = "sanitizeID (rs_ID st)"
  note I = adm_invD [OF inv]
  have ok': "table_ok tbl" using table_ok_WriteState [OF I(1) wr(1)] .
  have num: "numw ((cw_workers s)(i \<mapsto> ?w)) P = numw (cw_workers s) P" if "P ?w = P w" for P
    using numw_change [OF I(2) w(1), of ?w P] that by simp
  have unw: "unwritten ?s' cls = unwritten s cls - (if covers (aw_obs w) cls then 1 else 0)" for cls
    using numw_change [OF I(2) w(1), of ?w "\<lambda>w. aw_pc w = AdmReserved \<and> covers (aw_obs w) cls"] w(2)
    by (simp add: unwritten_def)
  have adm: "admitted_in ?s' cls \<le> admitted_in s cls + (if covers (aw_obs w) cls then 1 else 0)" if v: "class_valid cls" for cls
  proof -
    let ?X = "if covers (aw_obs w) cls then {?id} else {}"
    have "rr_ID r' \<in> ?X \<or> (\<exists>r\<in>set (cw_tbl s). (in_flight r \<and> rr_ID r \<in> cw_admitted s \<and> row_in cls r) \<and> rr_ID r = rr_ID r')"
      if r': "r' \<in> set tbl" "in_flight r' \<and> rr_ID r' \<in> insert ?id (cw_admitted s) \<and> row_in cls r'" for r'
      using write_rows [OF I(1) wr(1) r'(1)]
    proof
      assume "rr_ID r' \<noteq> ?id \<and> r' \<in> set (cw_tbl s)"
      then show ?thesis using r' by auto
    next
      assume a: "rr_ID r' = ?id \<and> rr_Status r' = rs_Status st \<and> rr_RepositoryFullName r' = rs_RepositoryFullName st
        \<and> rr_ProfileName r' = rs_ProfileName st \<and> rr_ProfileSource r' = rs_ProfileSource st
        \<and> rr_ProfileScopeType r' = rs_ProfileScopeType st \<and> rr_ProfileScopeID r' = rs_ProfileScopeID st"
      then have "covers (aw_obs w) cls"
        using row_in_covers [OF I(4) [OF w(1)] v, of r'] r' req by (simp add: state_for_request_def)
      then show ?thesis using a by simp
    qed
    then have "count_rows (\<lambda>r. in_flight r \<and> rr_ID r \<in> insert ?id (cw_admitted s) \<and> row_in cls r) tbl
        \<le> count_rows (\<lambda>r. in_flight r \<and> rr_ID r \<in> cw_admitted s \<and> row_in cls r) (cw_tbl s) + int (card ?X)"
      by (intro count_rows_ids_le [OF I(1) ok']) auto
    then show ?thesis by (simp add: admitted_in_def split: if_splits)
  qed
  have tot: "total_in ?s' cls \<le> total_in s cls" if "class_valid cls" for cls
    using adm [OF that] unw [of cls] by (simp add: total_in_def split: if_splits)
  have bound: "worker_bound ?s' v" if "cw_workers s j = Some v" for j v
    by (rule worker_bound_mono [OF I(6) [OF that]]) (simp_all add: unw tot)
  have "ob_reserved (aw_obs w)" using I(4) [OF w(1)] w(2) unfolding worker_wf_def by simp
  then have new: "worker_bound ?s' ?w" using bound [OF w(1)] by (simp add: worker_bound_def)
  have wf: "worker_wf cfg plim ?w"
    using I(4) [OF w(1)] w(2) unfolding worker_wf_def by simp
  have cnt: "counters_ok (cw_cap s) ((cw_workers s)(i \<mapsto> ?w))"
    unfolding counters_ok_def
  proof (intro conjI allI impI)
    fix cls k assume "view (cw_cap s) cls = Some k"
    then show "cc_pending k = numw ((cw_workers s)(i \<mapsto> ?w)) (\<lambda>w. ob_reserved (aw_obs w) \<and> covers (aw_obs w) cls)"
      "cls \<noteq> CGlobal \<Longrightarrow> cc_readers k = numw ((cw_workers s)(i \<mapsto> ?w)) (\<lambda>w. covers (aw_obs w) cls)"
      using I(8) num by (simp_all add: counters_ok_def)
  next
    fix cls assume "cls \<noteq> CGlobal" "ctr (cw_cap s) cls \<noteq> None"
    then obtain j v where "cw_workers s j = Some v" "covers (aw_obs v) cls" using I(8) unfolding counters_ok_def by blast
    then show "\<exists>j v. ((cw_workers s)(i \<mapsto> ?w)) j = Some v \<and> covers (aw_obs v) cls"
      using w(1) by (intro exI [of _ j] exI [of _ "if j = i then ?w else v"]) auto
  qed
  show ?thesis
  proof (rule adm_invI)
    fix j v assume jv: "cw_workers ?s' j = Some v"
    show "worker_wf cfg plim v \<and> obs_ok (cw_cap ?s') (aw_obs v) \<and> worker_bound ?s' v"
    proof (cases "j = i")
      case True
      then have "v = ?w" using jv by simp
      then show ?thesis using wf new I(5) [OF w(1)] by simp
    next
      case False
      then have "cw_workers s j = Some v" using jv by simp
      then show ?thesis using I(4) I(5) bound by simp
    qed
  next
    show "within_limits cfg plim ?s'" using I(10) tot by (rule within_limits_mono)
  next
    fix j assume "j \<in> cw_admitted ?s'"
    then show "still_in_flight (cw_tbl ?s') j" using write_still [OF I(1) wr] I(9) by auto
  qed (use ok' I cnt in \<open>simp_all add: le_SucI\<close>)
qed

text \<open>Another operation of the server on the table.\<close>

lemma inv_other:
  assumes inv: "adm_inv cfg plim n s" and keep: "op_keeps_class op (cw_tbl s)" and tbl: "tbl = run_op op (cw_tbl s)"
  shows "adm_inv cfg plim (Suc n) (s \<lparr> cw_tbl := tbl, cw_admitted := {j \<in> cw_admitted s. still_in_flight tbl j} \<rparr>)"
    (is "adm_inv _ _ _ ?s'")
proof -
  note I = adm_invD [OF inv]
  have ok': "table_ok tbl" using table_ok_run_op [OF I(1)] tbl by simp
  have adm: "admitted_in ?s' cls \<le> admitted_in s cls" for cls
  proof -
    have "\<exists>r\<in>set (cw_tbl s). (in_flight r \<and> rr_ID r \<in> cw_admitted s \<and> row_in cls r) \<and> rr_ID r = rr_ID r'"
      if r': "r' \<in> set tbl" "in_flight r' \<and> rr_ID r' \<in> {j \<in> cw_admitted s. still_in_flight tbl j} \<and> row_in cls r'" for r'
    proof -
      obtain r where r: "r \<in> set (cw_tbl s)" "rr_ID r = rr_ID r'" "in_flight r"
        using I(9) [of "rr_ID r'"] r'(2) by (auto simp: still_in_flight_def list_ex_iff)
      then have "class_fields r' = class_fields r" using run_op_class [OF I(1) keep r(1), of r'] r' tbl by simp
      then have "row_in cls r' = row_in cls r" by (rule row_in_class_fields)
      then show ?thesis using r r'(2) by (intro bexI [of _ r]) auto
    qed
    then have "count_rows (\<lambda>r. in_flight r \<and> rr_ID r \<in> {j \<in> cw_admitted s. still_in_flight tbl j} \<and> row_in cls r) tbl
        \<le> count_rows (\<lambda>r. in_flight r \<and> rr_ID r \<in> cw_admitted s \<and> row_in cls r) (cw_tbl s) + int (card ({} :: string set))"
      by (intro count_rows_ids_le [OF I(1) ok']) auto
    then show ?thesis by (simp add: admitted_in_def)
  qed
  then have tot: "total_in ?s' cls \<le> total_in s cls" for cls by (simp add: total_in_def)
  have bound: "worker_bound ?s' v" if "cw_workers s j = Some v" for j v
    by (rule worker_bound_mono [OF I(6) [OF that]]) (simp_all add: tot)
  show ?thesis
  proof (rule adm_invI)
    show "within_limits cfg plim ?s'" using I(10) tot by (rule within_limits_mono)
  qed (use ok' I bound in \<open>simp_all add: le_SucI\<close>)
qed

text \<open>Leaving the window. A counter that another worker still uses has a second reader.\<close>

lemma finish_keeps:
  assumes inv: "adm_inv cfg plim n s" and w: "cw_workers s i = Some w"
    and v: "cw_workers s j = Some v" "j \<noteq> i" "covers (aw_obs v) cls" "cls \<noteq> CGlobal"
  shows "\<not> dropped (cw_cap s) (aw_obs w) cls"
proof
  note I = adm_invD [OF inv]
  assume d: "dropped (cw_cap s) (aw_obs w) cls"
  obtain k where k: "view (cw_cap s) cls = Some k"
    using I(5) [OF v(1)] v(3,4) by (auto simp: obs_ok_def view_def)
  then have "cc_readers k = numw (cw_workers s) (\<lambda>w. covers (aw_obs w) cls)" using I(8) v(4) by (simp add: counters_ok_def)
  also have "\<dots> = numw ((cw_workers s)(i := None)) (\<lambda>w. covers (aw_obs w) cls) + 1"
    using numw_remove [OF I(2) w, of "\<lambda>w. covers (aw_obs w) cls"] d by (simp add: dropped_def)
  finally have "cc_readers k = numw ((cw_workers s)(i := None)) (\<lambda>w. covers (aw_obs w) cls) + 1" .
  moreover have "numw ((cw_workers s)(i := None)) (\<lambda>w. covers (aw_obs w) cls) \<noteq> 0"
    using v I(2) by (subst numw_pos) (auto intro!: exI [of _ j])
  ultimately show False using d k by (auto simp: dropped_def base_def finished_def decr_readers_def decr_pending_def split: if_splits)
qed

lemma counters_ok_global:
  assumes "counters_ok c m" shows "ca_pending c = numw m (\<lambda>w. ob_reserved (aw_obs w) \<and> covers (aw_obs w) CGlobal)"
proof -
  have "view c CGlobal = Some k \<Longrightarrow> cc_pending k = numw m (\<lambda>w. ob_reserved (aw_obs w) \<and> covers (aw_obs w) CGlobal)" for k
    using assms unfolding counters_ok_def by blast
  then show ?thesis using view_Global [of c] by force
qed

lemma inv_finish:
  assumes inv: "adm_inv cfg plim n s" and w: "cw_workers s i = Some w"
  shows "adm_inv cfg plim (Suc n) (s \<lparr> cw_cap := finish (aw_obs w) (cw_cap s), cw_workers := (cw_workers s)(i := None) \<rparr>)"
    (is "adm_inv _ _ _ ?s'")
proof -
  note I = adm_invD [OF inv]
  let ?c = "finish (aw_obs w) (cw_cap s)" and ?m = "(cw_workers s)(i := None)"
  note F = finish_spec [OF I(3) I(5) [OF w]]
  have fin: "finite (dom ?m)" using I(2) by simp
  have rem: "numw (cw_workers s) P = numw ?m P + (if P w then 1 else 0)" for P by (rule numw_remove [OF I(2) w])
  have unw: "unwritten ?s' cls \<le> unwritten s cls" for cls
    using rem [of "\<lambda>w. aw_pc w = AdmReserved \<and> covers (aw_obs w) cls"] by (simp add: unwritten_def)
  have tot: "total_in ?s' cls \<le> total_in s cls" for cls using unw [of cls] by (simp add: total_in_def)
  have others: "cc_started (base ?c cls) = cc_started (base (cw_cap s) cls)"
    if "cw_workers s j = Some v" "j \<noteq> i" "covers (aw_obs v) cls" for j v cls
  proof (cases "cls = CGlobal")
    case True
    then show ?thesis using F(4) by (simp add: base_def)
  next
    case False
    then show ?thesis using F(3) [of cls] finish_keeps [OF inv w that False]
      by (cases "view (cw_cap s) cls") (auto simp: base_def finished_def decr_readers_def decr_pending_def)
  qed
  have bound: "worker_bound ?s' v \<and> obs_ok ?c (aw_obs v)" if v: "cw_workers s j = Some v" "j \<noteq> i" for j v
  proof
    show "worker_bound ?s' v"
      by (rule worker_bound_mono [OF I(6) [OF v(1)]]) (simp_all add: others [OF v] unw tot)
    have "ctr ?c cls = ctr (cw_cap s) cls" if "cls \<noteq> CGlobal" "covers (aw_obs v) cls" for cls
      using F(2) [of cls] finish_keeps [OF inv w v that(2,1)] by simp
    then show "obs_ok ?c (aw_obs v)" using I(5) [OF v(1)] by (simp add: obs_ok_def)
  qed
  have glob: "ca_pending ?c = numw ?m (\<lambda>w. ob_reserved (aw_obs w) \<and> covers (aw_obs w) CGlobal)"
    using F(5) rem [of "\<lambda>w. ob_reserved (aw_obs w) \<and> covers (aw_obs w) CGlobal"] counters_ok_global [OF I(8)] by simp
  have cnt: "counters_ok ?c ?m"
    unfolding counters_ok_def
  proof (intro conjI allI impI)
    fix cls k assume k: "view ?c cls = Some k"
    have ne: "\<exists>k0. view (cw_cap s) cls = Some k0 \<and> k = (if covers (aw_obs w) cls then finished (aw_obs w) k0 else k0)" if "cls \<noteq> CGlobal"
      using F(3) [OF that] k by (cases "view (cw_cap s) cls") (auto split: if_splits)
    show "cc_pending k = numw ?m (\<lambda>w. ob_reserved (aw_obs w) \<and> covers (aw_obs w) cls)"
    proof (cases "cls = CGlobal")
      case True
      then show ?thesis using glob k by auto
    next
      case False
      obtain k0 where "view (cw_cap s) cls = Some k0" "k = (if covers (aw_obs w) cls then finished (aw_obs w) k0 else k0)"
        using ne [OF False] by blast
      moreover from this have "cc_pending k0 = numw (cw_workers s) (\<lambda>w. ob_reserved (aw_obs w) \<and> covers (aw_obs w) cls)"
        using I(8) by (simp add: counters_ok_def)
      ultimately show ?thesis using rem [of "\<lambda>w. ob_reserved (aw_obs w) \<and> covers (aw_obs w) cls"]
        by (simp add: finished_def decr_readers_def decr_pending_def split: if_splits)
    qed
    assume "cls \<noteq> CGlobal"
    then obtain k0 where "view (cw_cap s) cls = Some k0" "k = (if covers (aw_obs w) cls then finished (aw_obs w) k0 else k0)"
      using ne by blast
    moreover from this have "cc_readers k0 = numw (cw_workers s) (\<lambda>w. covers (aw_obs w) cls)"
      using I(8) \<open>cls \<noteq> CGlobal\<close> by (simp add: counters_ok_def)
    ultimately show "cc_readers k = numw ?m (\<lambda>w. covers (aw_obs w) cls)"
      using rem [of "\<lambda>w. covers (aw_obs w) cls"]
      by (simp add: finished_def decr_readers_def decr_pending_def split: if_splits)
  next
    fix cls assume c: "cls \<noteq> CGlobal" "ctr ?c cls \<noteq> None"
    then have nd: "\<not> dropped (cw_cap s) (aw_obs w) cls" "ctr (cw_cap s) cls \<noteq> None" using F(2) [of cls] by (auto split: if_splits)
    then obtain k where k: "view (cw_cap s) cls = Some k" using c(1) by (auto simp: view_def)
    obtain j v where v: "cw_workers s j = Some v" "covers (aw_obs v) cls" using I(8) c(1) nd(2) unfolding counters_ok_def by blast
    show "\<exists>j v. ?m j = Some v \<and> covers (aw_obs v) cls"
    proof (cases "j = i")
      case True
      then have "covers (aw_obs w) cls" using v w by simp
      moreover have "cc_readers k = numw (cw_workers s) (\<lambda>w. covers (aw_obs w) cls)"
        using I(8) k c(1) by (simp add: counters_ok_def)
      ultimately have "numw ?m (\<lambda>w. covers (aw_obs w) cls) \<noteq> 0"
        using nd(1) c(1) k rem [of "\<lambda>w. covers (aw_obs w) cls"]
        by (simp add: dropped_def base_def finished_def decr_readers_def decr_pending_def split: if_splits)
      then show ?thesis unfolding numw_pos [OF fin] .
    next
      case False
      then show ?thesis using v by (intro exI [of _ j] exI [of _ v]) simp
    qed
  qed
  show ?thesis
  proof (rule adm_invI)
    show "within_limits cfg plim ?s'" using I(10) tot by (rule within_limits_mono)
  next
    fix j v assume "cw_workers ?s' j = Some v"
    then have "cw_workers s j = Some v" "j \<noteq> i" by (auto split: if_splits)
    then show "worker_wf cfg plim v \<and> obs_ok (cw_cap ?s') (aw_obs v) \<and> worker_bound ?s' v"
      using I(4) bound by simp
  qed (use I F(1) cnt fin in \<open>simp_all add: le_SucI\<close>)
qed

text \<open>The counter of admissions wraps around at \<open>2 ^ 64\<close>; its growth since an observation reads
  correctly as long as it stays below \<open>2 ^ 63\<close>.\<close>

lemma to_int_of_nat: "d < 2 ^ 63 \<Longrightarrow> to_int (of_nat d) = int d"
proof -
  assume "d < 2 ^ 63"
  then have "int d < 2 ^ 63" by (metis of_nat_less_numeral_power_cancel_iff)
  then show ?thesis by (simp add: to_int_def signed_of_nat signed_take_bit_int_eq_self)
qed

lemma load_le:
  assumes "worker_bound s w" "covers (aw_obs w) cls" "cw_starts s cls < 2 ^ 63"
  shows "load (cw_cap s) (aw_obs w) cls m = m + snap_pending (aw_obs w) cls + grown s w cls"
proof -
  have "aw_base w cls \<le> cw_starts s cls"
    and d: "cc_started (base (cw_cap s) cls) - snap_started (aw_obs w) cls = of_nat (cw_starts s cls - aw_base w cls)"
    using assms(1,2) by (simp_all add: worker_bound_def)
  then show ?thesis using to_int_of_nat [of "cw_starts s cls - aw_base w cls"] assms(3)
    by (simp add: load_def grown_def)
qed

lemma reserve_within:
  assumes bound: "worker_bound s w" and cov: "covers (aw_obs w) cls" and small: "cw_starts s cls < 2 ^ 63"
    and "\<not> ob_reserved (aw_obs w)" "known w cls = Some m" "class_valid cls" and load: "load (cw_cap s) (aw_obs w) cls m < lim"
  shows "total_in s cls < lim"
proof -
  have "total_in s cls \<le> m + snap_pending (aw_obs w) cls + grown s w cls"
    using bound cov assms(4-6) unfolding worker_bound_def by blast
  then show ?thesis using load load_le [OF bound cov small] by simp
qed

text \<open>A reservation is accepted only when every limited class it enters has room.\<close>

lemma reserve_room:
  assumes inv: "adm_inv cfg plim n s" and small: "n < 2 ^ 63" and w: "cw_workers s i = Some w" "aw_pc w = Reserving"
    and res: "reserve (count_or_zero (aw_global w)) (cf_MaxConcurrentRunners cfg) (count_or_zero (aw_profileCount w)) (profile_limit w)
        (count_or_zero (aw_accountCount w)) (account_limit cfg w) (count_or_zero (aw_repositoryCount w)) (repository_limit cfg w)
        (aw_obs w) (cw_cap s) = (c, ob, [])"
    and cls: "covers (aw_obs w) cls" "limited cfg plim cls"
  shows "total_in s cls < limit_of cfg plim cls"
proof -
  note I = adm_invD [OF inv]
  note R = reserve_spec [OF I(3) I(5) [OF w(1)] res]
  have wf: "worker_wf cfg plim w" using I(4) [OF w(1)] .
  have nr: "\<not> ob_reserved (aw_obs w)" using wf w(2) unfolding worker_wf_def by simp
  have st: "cw_starts s cls < 2 ^ 63" using I(7) [of cls] small by simp
  have v: "class_valid cls" using cls(2) by (simp add: limited_def)
  have go: "total_in s cls < lim" if "known w cls = Some m" "load (cw_cap s) (aw_obs w) cls m < lim" for m lim
    using reserve_within [OF I(6) [OF w(1)] cls(1) st nr that(1) v that(2)] .
  show ?thesis
  proof (cases cls)
    case CGlobal
    have "aw_global w \<noteq> None" using wf w(2) unfolding worker_wf_def by simp
    then obtain m where "aw_global w = Some m" by auto
    then show ?thesis using go [of m] R(4) CGlobal by (simp add: count_or_zero_def)
  next
    case (CProfile k)
    have k: "k = ob_key (aw_obs w)" using cls(1) CProfile by simp
    have "ck_name k = TrimSpace (rq_ProfileName (aw_req w))"
      using wf k worker_wf_key [OF wf] by (simp add: runnerCapacityProfileKey_def Let_def)
    then have "rq_ProfileName (aw_req w) \<noteq> []" using v CProfile by auto
    then have lim: "profile_limit w = plim k" using wf k unfolding worker_wf_def by (simp add: profile_limit_def)
    then have "aw_profileCount w \<noteq> None" using wf w(2) cls(2) CProfile unfolding worker_wf_def by (simp add: limited_def)
    then obtain m where "aw_profileCount w = Some m" by auto
    then show ?thesis using go [of m] R(5) CProfile cls(2) k lim by (simp add: count_or_zero_def limited_def)
  next
    case (CAccount a)
    have a: "a \<noteq> []" "ob_accountKey (aw_obs w) = a" using cls(1) CAccount by simp_all
    have lim: "account_limit cfg w = cf_RunnerAccountConcurrency cfg a"
      using wf a unfolding worker_wf_def by (simp add: account_limit_def)
    then have "aw_accountCount w \<noteq> None" using wf w(2) cls(2) CAccount unfolding worker_wf_def by (simp add: limited_def)
    then obtain m where "aw_accountCount w = Some m" by auto
    then show ?thesis using go [of m] R(6) CAccount cls(2) a lim by (simp add: count_or_zero_def limited_def)
  next
    case (CRepository p)
    have a: "p \<noteq> []" "ob_repositoryKey (aw_obs w) = p" using cls(1) CRepository by simp_all
    have lim: "repository_limit cfg w = cf_RunnerRepositoryConcurrency cfg p"
      using wf a unfolding worker_wf_def by (simp add: repository_limit_def)
    then have "aw_repositoryCount w \<noteq> None" using wf w(2) cls(2) CRepository unfolding worker_wf_def by (simp add: limited_def)
    then obtain m where "aw_repositoryCount w = Some m" by auto
    then show ?thesis using go [of m] R(7) CRepository cls(2) a lim by (simp add: count_or_zero_def limited_def)
  qed
qed

lemma reserved_simps [simp]:
  "covers (ob \<lparr> ob_reserved := b \<rparr>) cls = covers ob cls" "obs_addr (ob \<lparr> ob_reserved := b \<rparr>) cls = obs_addr ob cls"
  "snap_started (ob \<lparr> ob_reserved := b \<rparr>) cls = snap_started ob cls"
  "snap_pending (ob \<lparr> ob_reserved := b \<rparr>) cls = snap_pending ob cls"
  by (cases cls; simp)+

lemma obs_ok_reserved [simp]: "obs_ok c (ob \<lparr> ob_reserved := b \<rparr>) = obs_ok c ob"
  by (simp add: obs_ok_def)

lemma known_reserved [simp]: "known (w \<lparr> aw_pc := p, aw_obs := ob \<rparr>) cls = known w cls"
  by (cases cls) simp_all

text \<open>An admission counts in the classes that its observation covers: one more start, one more pending.\<close>

lemma reserve_bound:
  assumes wb: "worker_bound s v"
    and "cw_starts s' = (\<lambda>cls. cw_starts s cls + (if C cls then 1 else 0))"
    and st: "\<And>cls. covers (aw_obs v) cls \<Longrightarrow>
        cc_started (base (cw_cap s') cls) = cc_started (base (cw_cap s) cls) + (if C cls then 1 else 0)"
    and unw: "\<And>cls. unwritten s' cls = unwritten s cls + (if C cls then 1 else 0)"
    and tot: "\<And>cls. total_in s' cls = total_in s cls + (if C cls then 1 else 0)"
  shows "worker_bound s' v"
  unfolding worker_bound_def
proof (intro allI impI)
  fix cls assume cov: "covers (aw_obs v) cls"
  have b: "aw_base v cls \<le> cw_starts s cls"
      "cc_started (base (cw_cap s) cls) - snap_started (aw_obs v) cls = of_nat (cw_starts s cls - aw_base v cls)"
      "\<not> ob_reserved (aw_obs v) \<Longrightarrow> unwritten s cls \<le> snap_pending (aw_obs v) cls + grown s v cls"
      "\<not> ob_reserved (aw_obs v) \<Longrightarrow> known v cls = Some m \<Longrightarrow> class_valid cls \<Longrightarrow>
         total_in s cls \<le> m + snap_pending (aw_obs v) cls + grown s v cls" for m
    using wb cov unfolding worker_bound_def by blast+
  have g: "grown s' v cls = grown s v cls + (if C cls then 1 else 0)" using assms(2) by (simp add: grown_def)
  have d: "cc_started (base (cw_cap s') cls) - snap_started (aw_obs v) cls = of_nat (cw_starts s' cls - aw_base v cls)"
    using b(1,2) st [OF cov] assms(2) by (simp add: Suc_diff_le diff_add_eq [symmetric])
  show "(\<not> ob_reserved (aw_obs v) \<longrightarrow> unwritten s' cls \<le> snap_pending (aw_obs v) cls + grown s' v cls
        \<and> (\<forall>n. known v cls = Some n \<longrightarrow> class_valid cls \<longrightarrow> total_in s' cls \<le> n + snap_pending (aw_obs v) cls + grown s' v cls))
     \<and> aw_base v cls \<le> cw_starts s' cls
     \<and> cc_started (base (cw_cap s') cls) - snap_started (aw_obs v) cls = of_nat (cw_starts s' cls - aw_base v cls)"
    using b(1,3) b(4) d g unw [of cls] tot [of cls] assms(2) by auto
qed

lemma inv_reserve:
  assumes inv: "adm_inv cfg plim n s" and small: "n < 2 ^ 63" and w: "cw_workers s i = Some w" "aw_pc w = Reserving"
    and res: "reserve (count_or_zero (aw_global w)) (cf_MaxConcurrentRunners cfg) (count_or_zero (aw_profileCount w)) (profile_limit w)
        (count_or_zero (aw_accountCount w)) (account_limit cfg w) (count_or_zero (aw_repositoryCount w)) (repository_limit cfg w)
        (aw_obs w) (cw_cap s) = (c, ob, [])"
  shows "adm_inv cfg plim (Suc n) (set_worker i (w \<lparr> aw_pc := AdmReserved, aw_obs := ob \<rparr>)
        (s \<lparr> cw_cap := c, cw_starts := (\<lambda>cls. cw_starts s cls + (if covers ob cls then 1 else 0)) \<rparr>))"
    (is "adm_inv _ _ _ ?s'")
proof -
  note I = adm_invD [OF inv]
  note R = reserve_spec [OF I(3) I(5) [OF w(1)] res]
  let ?w = "w \<lparr> aw_pc := AdmReserved, aw_obs := ob \<rparr>" and ?C = "covers (aw_obs w)"
  have ob: "ob = aw_obs w \<lparr> ob_reserved := True \<rparr>" and c: "cap_wf c" "ctr c = ctr (cw_cap s)" using R(2) by simp_all
  have wf: "worker_wf cfg plim w" using I(4) [OF w(1)] .
  have nr: "\<not> ob_reserved (aw_obs w)" using wf w(2) unfolding worker_wf_def by simp
  have num: "numw ((cw_workers s)(i \<mapsto> ?w)) P = numw (cw_workers s) P - (if P w then 1 else 0) + (if P ?w then 1 else 0)" for P
    by (rule numw_change [OF I(2) w(1)])
  have unw: "unwritten ?s' cls = unwritten s cls + (if ?C cls then 1 else 0)" for cls
    using num [of "\<lambda>w. aw_pc w = AdmReserved \<and> covers (aw_obs w) cls"] w(2) ob by (simp add: unwritten_def)
  have tot: "total_in ?s' cls = total_in s cls + (if ?C cls then 1 else 0)" for cls
    using unw by (simp add: total_in_def)
  have started: "cc_started (base c cls) = cc_started (base (cw_cap s) cls) + (if ?C cls then 1 else 0)" if "ctr (cw_cap s) cls \<noteq> None \<or> cls = CGlobal" for cls
    using R(3) [of cls] that by (auto simp: base_def incr_admission_def view_def)
  have bound: "worker_bound ?s' v" if "cw_workers s j = Some v" for j v
  proof (rule reserve_bound [OF I(6) [OF that], where C = ?C])
    fix cls assume "covers (aw_obs v) cls"
    then have "ctr (cw_cap s) cls \<noteq> None \<or> cls = CGlobal" using I(5) [OF that] unfolding obs_ok_def by metis
    then show "cc_started (base (cw_cap ?s') cls) = cc_started (base (cw_cap s) cls) + (if ?C cls then 1 else 0)"
      using started by simp
  next
    show "cw_starts ?s' = (\<lambda>cls. cw_starts s cls + (if ?C cls then 1 else 0))" by (simp add: ob)
  qed (rule unw, rule tot)
  have new: "worker_bound ?s' ?w"
    using bound [OF w(1)] ob unfolding worker_bound_def by (simp add: grown_def)
  have wf': "worker_wf cfg plim ?w"
    using wf w(2) ob unfolding worker_wf_def by (simp add: profile_limit_def account_limit_def repository_limit_def)
  have cnt: "counters_ok c ((cw_workers s)(i \<mapsto> ?w))"
    unfolding counters_ok_def
  proof (intro conjI allI impI)
    fix cls k assume k: "view c cls = Some k"
    obtain k0 where k0: "view (cw_cap s) cls = Some k0" "k = (if ?C cls then incr_admission k0 else k0)"
      using k R(3) [of cls] by (cases "view (cw_cap s) cls") (auto split: if_splits)
    have "cc_pending k0 = numw (cw_workers s) (\<lambda>w. ob_reserved (aw_obs w) \<and> covers (aw_obs w) cls)"
      using I(8) k0(1) by (simp add: counters_ok_def)
    then show "cc_pending k = numw ((cw_workers s)(i \<mapsto> ?w)) (\<lambda>w. ob_reserved (aw_obs w) \<and> covers (aw_obs w) cls)"
      using k0(2) num [of "\<lambda>w. ob_reserved (aw_obs w) \<and> covers (aw_obs w) cls"] nr ob by (simp add: incr_admission_def)
    assume "cls \<noteq> CGlobal"
    then have "cc_readers k0 = numw (cw_workers s) (\<lambda>w. covers (aw_obs w) cls)"
      using I(8) k0(1) by (simp add: counters_ok_def)
    then show "cc_readers k = numw ((cw_workers s)(i \<mapsto> ?w)) (\<lambda>w. covers (aw_obs w) cls)"
      using k0(2) num [of "\<lambda>w. covers (aw_obs w) cls"] ob by (simp add: incr_admission_def)
  next
    fix cls assume "cls \<noteq> CGlobal" "ctr c cls \<noteq> None"
    then obtain j v where "cw_workers s j = Some v" "covers (aw_obs v) cls" using I(8) c(2) unfolding counters_ok_def by metis
    then show "\<exists>j v. ((cw_workers s)(i \<mapsto> ?w)) j = Some v \<and> covers (aw_obs v) cls"
      using w(1) ob by (intro exI [of _ j] exI [of _ "if j = i then ?w else v"]) auto
  qed
  have "within_limits cfg plim ?s'"
    unfolding within_limits_total
  proof (intro allI impI)
    fix cls assume l: "limited cfg plim cls"
    then have "total_in s cls \<le> max 0 (limit_of cfg plim cls)" using I(10) unfolding within_limits_total by blast
    moreover have "?C cls \<Longrightarrow> total_in s cls < limit_of cfg plim cls"
      using reserve_room [OF inv small w res _ l] .
    ultimately show "total_in ?s' cls \<le> max 0 (limit_of cfg plim cls)" unfolding tot by (auto split: if_splits)
  qed
  then show ?thesis
  proof (intro adm_invI)
    fix j v assume jv: "cw_workers ?s' j = Some v"
    show "worker_wf cfg plim v \<and> obs_ok (cw_cap ?s') (aw_obs v) \<and> worker_bound ?s' v"
    proof (cases "j = i")
      case True
      then have "v = ?w" using jv by simp
      then show ?thesis using wf' new I(5) [OF w(1)] ob obs_ok_cong [OF c(2)] by simp
    next
      case False
      then have "cw_workers s j = Some v" using jv by simp
      then show ?thesis using I(4) I(5) bound obs_ok_cong [OF c(2)] by simp
    qed
  qed (use I c(1) cnt in \<open>simp_all add: le_SucI\<close>)
qed

subsection \<open>Every reachable state\<close>

lemma adm_inv_step:
  assumes "adm_step cfg plim s s'" "adm_inv cfg plim n s" "n < 2 ^ 63"
  shows "adm_inv cfg plim (Suc n) s'"
  using assms
proof (cases rule: adm_step.cases)
  case (Observe i prof req c ob)
  then show ?thesis using inv_observe [OF assms(2)] by blast
next
  case (CountGlobal i w)
  then show ?thesis using inv_count_global [OF assms(2)] by blast
next
  case (CountProfile i w k)
  then show ?thesis using inv_count_profile [OF assms(2)] by blast
next
  case (SkipProfile i w)
  then show ?thesis using inv_skip [OF assms(2), of i w ReadAccount] by simp
next
  case (CountAccount i w k)
  then show ?thesis using inv_count_account [OF assms(2)] by blast
next
  case (SkipAccount i w)
  then show ?thesis using inv_skip [OF assms(2), of i w ReadRepository] by simp
next
  case (CountRepository i w k)
  then show ?thesis using inv_count_repository [OF assms(2)] by blast
next
  case (SkipRepository i w)
  then show ?thesis using inv_skip [OF assms(2), of i w Reserving] by simp
next
  case (Reserve i w c ob)
  then show ?thesis using inv_reserve [OF assms(2,3)] by blast
next
  case (WriteCreating i w now st tbl)
  then show ?thesis using inv_write [OF assms(2)] by blast
next
  case (Finish i w)
  then show ?thesis using inv_finish [OF assms(2)] by blast
next
  case (Other op tbl)
  then show ?thesis using inv_other [OF assms(2)] by blast
qed

lemma adm_inv_start:
  assumes "s = \<lparr> cw_cap = empty_capacity, cw_tbl = tbl, cw_admitted = {j. still_in_flight tbl j}, cw_workers = Map.empty, cw_starts = (\<lambda>_. 0) \<rparr>"
    "table_ok tbl" "within_limits cfg plim s"
  shows "adm_inv cfg plim n s"
proof (rule adm_invI)
  have none: "ctr empty_capacity cls = None" for cls by (cases cls) (simp_all add: empty_capacity_def)
  then show "cap_wf (cw_cap s)" using assms(1) by (simp add: cap_wf_def)
  have "numw Map.empty P = 0" for P by (simp add: numw_def)
  then show "counters_ok (cw_cap s) (cw_workers s)"
    using assms(1) none by (auto simp: counters_ok_def view_def empty_capacity_def split: if_splits)
qed (use assms in simp_all)

lemma adm_reach_inv: "adm_reach cfg plim n s \<Longrightarrow> n \<le> 2 ^ 63 \<Longrightarrow> adm_inv cfg plim n s"
proof (induction rule: adm_reach.induct)
  case (Start s tbl)
  then show ?case by (intro adm_inv_start) auto
next
  case (Step n s s')
  then show ?case using adm_inv_step by simp
qed

subsection \<open>The admission decision as a whole\<close>

lemma observe_finish:
  assumes inv: "adm_inv cfg plim n s" and obs: "observe req name (cw_cap s) = (c, ob)"
  shows "view (finish ob c) cls = view (cw_cap s) cls \<and> (ctr (finish ob c) cls = None) = (ctr (cw_cap s) cls = None)"
proof -
  note I = adm_invD [OF inv]
  note O = observe_spec [OF I(3) obs]
  note F = finish_spec [OF O(1,2)]
  consider "cls = CGlobal" | "cls \<noteq> CGlobal" "\<not> covers ob cls" | "cls \<noteq> CGlobal" "covers ob cls" "ctr (cw_cap s) cls = None"
    | "cls \<noteq> CGlobal" "covers ob cls" "ctr (cw_cap s) cls \<noteq> None" by blast
  then show ?thesis
  proof cases
    case 1
    then show ?thesis using F(4,5) O(3) O(7) [of CGlobal] by simp
  next
    case 2
    then show ?thesis using F(2) [of cls] F(3) [of cls] O(7,9) [of cls] by (simp add: dropped_def)
  next
    case 3
    then have "view (cw_cap s) cls = None" by (simp add: view_def)
    then have "dropped c ob cls"
      using 3 O(3) O(7) [of cls] by (simp add: dropped_def base_def finished_def decr_readers_def incr_readers_def zero_counter_def)
    then show ?thesis using 3 F(2) [of cls] F(3) [of cls] \<open>view (cw_cap s) cls = None\<close> by simp
  next
    case 4
    then obtain k where k: "view (cw_cap s) cls = Some k" by (auto simp: view_def)
    have "\<exists>j v. cw_workers s j = Some v \<and> covers (aw_obs v) cls" using I(8) 4(1,3) unfolding counters_ok_def by blast
    then have "numw (cw_workers s) (\<lambda>w. covers (aw_obs w) cls) \<noteq> 0" unfolding numw_pos [OF I(2)] .
    then have "cc_readers k \<noteq> 0" using I(8) k 4(1) unfolding counters_ok_def by auto
    moreover have v: "view c cls = Some (incr_readers k)" using O(7) [of cls] 4(1,2) k by (simp add: base_def)
    ultimately have nd: "\<not> dropped c ob cls"
      using O(3) by (simp add: dropped_def base_def finished_def decr_readers_def incr_readers_def)
    have "finished ob (incr_readers k) = k"
      using O(3) by (simp add: finished_def decr_readers_def incr_readers_def)
    then show ?thesis using nd F(2,3) [of cls] v k 4 O(8) [of cls] by auto
  qed
qed

lemma reserveRunnerCapacity_refused:
  assumes inv: "adm_inv cfg plim n s"
    and ref: "reserveRunnerCapacity cfg (cw_tbl s) req prof (cw_cap s) = (c, None, stage, err)"
  shows "view c cls = view (cw_cap s) cls \<and> (ctr c cls = None) = (ctr (cw_cap s) cls = None)"
proof -
  obtain c1 ob where obs: "observe req (rp_Name prof) (cw_cap s) = (c1, ob)" by force
  note O = observe_spec [OF adm_invD(3) [OF inv] obs]
  have keep: "c2 = c1 \<and> ob' = ob" if "reserve a b d e f g h k ob c1 = (c2, ob', st)" "st \<noteq> []" for a b d e f g h k c2 ob' st
    using reserve_spec(1) [OF O(1,2) that] .
  have "c = finish ob c1"
    using ref obs unfolding reserveRunnerCapacity_def Let_def
    by (auto split: if_splits sum.splits prod.splits dest: keep)
  then show ?thesis using observe_finish [OF inv obs] by simp
qed

text \<open>Alone, the decision is the sequence of the worker's steps.\<close>

lemma set_worker_twice [simp]: "set_worker i w' (set_worker i w s) = set_worker i w' s"
  by (simp add: set_worker_def)

lemma step_global:
  assumes "aw_pc w = ReadGlobal" "InFlightCount (cw_tbl s) < cf_MaxConcurrentRunners cfg"
  shows "adm_step cfg plim (set_worker i w s)
     (set_worker i (w \<lparr> aw_pc := ReadProfile, aw_global := Some (InFlightCount (cw_tbl s)) \<rparr>) s)"
  using adm_step.CountGlobal [of "set_worker i w s" i w cfg plim] assms by simp

lemma step_profile:
  assumes "aw_pc w = ReadProfile" "(if profile_limit w > 0 then inFlightForRunnerProfile (aw_req w) (cw_tbl s) else Inr 0) = Inr n"
  shows "adm_step cfg plim (set_worker i w s)
     (set_worker i (w \<lparr> aw_pc := ReadAccount, aw_profileCount := (if profile_limit w > 0 then Some n else aw_profileCount w) \<rparr>) s)"
  using adm_step.CountProfile [of "set_worker i w s" i w n cfg plim] adm_step.SkipProfile [of "set_worker i w s" i w cfg plim] assms
  by (cases "profile_limit w > 0") simp_all

lemma step_account:
  assumes "aw_pc w = ReadAccount"
  shows "adm_step cfg plim (set_worker i w s)
     (set_worker i (w \<lparr> aw_pc := ReadRepository, aw_accountCount := (if account_limit cfg w > 0
        then Some (InFlightCountForRepositoryOwner (runnerRepositoryOwner (rq_RepositoryFullName (aw_req w))) (cw_tbl s))
        else aw_accountCount w) \<rparr>) s)"
  using adm_step.CountAccount [of "set_worker i w s" i w cfg _ plim] adm_step.SkipAccount [of "set_worker i w s" i w cfg plim] assms
  by (cases "account_limit cfg w > 0") simp_all

lemma step_repository:
  assumes "aw_pc w = ReadRepository"
  shows "adm_step cfg plim (set_worker i w s)
     (set_worker i (w \<lparr> aw_pc := Reserving, aw_repositoryCount := (if repository_limit cfg w > 0
        then Some (InFlightCountForRepository (rq_RepositoryFullName (aw_req w)) (cw_tbl s)) else aw_repositoryCount w) \<rparr>) s)"
  using adm_step.CountRepository [of "set_worker i w s" i w cfg _ plim] adm_step.SkipRepository [of "set_worker i w s" i w cfg plim] assms
  by (cases "repository_limit cfg w > 0") simp_all

lemma reserveRunnerCapacity_run:
  assumes free: "cw_workers s i = None" and name: "rp_Name prof = TrimSpace (rq_ProfileName req)"
    and lim: "rp_MaxConcurrency prof = plim (runnerCapacityProfileKey req)"
    and wf: "cap_wf (cw_cap s)"
    and acc: "reserveRunnerCapacity cfg (cw_tbl s) req prof (cw_cap s) = (c, Some ob, stage, err)"
  shows "\<exists>w s'. (adm_step cfg plim)\<^sup>*\<^sup>* s s' \<and> cw_cap s' = c \<and> cw_tbl s' = cw_tbl s \<and> cw_workers s' = (cw_workers s)(i \<mapsto> w)
     \<and> aw_pc w = AdmReserved \<and> aw_obs w = ob \<and> aw_req w = req"
proof -
  let ?step = "adm_step cfg plim"
  obtain c1 ob1 where obs: "observe req (rp_Name prof) (cw_cap s) = (c1, ob1)" by force
  have key: "ob_key ob1 = runnerCapacityProfileKey req"
    using observe_spec(4) [OF wf obs] name by (simp add: profile_key_name)
  have g: "InFlightCount (cw_tbl s) < cf_MaxConcurrentRunners cfg"
    using acc obs by (auto simp: reserveRunnerCapacity_def Let_def split: if_splits)
  define s1 where "s1 = s \<lparr> cw_cap := c1 \<rparr>"
  define w0 where "w0 = \<lparr> aw_req = req, aw_profile = prof, aw_obs = ob1, aw_pc = ReadGlobal,
        aw_global = None, aw_profileCount = None, aw_accountCount = None, aw_repositoryCount = None, aw_base = cw_starts s \<rparr>"
  have limits: "profile_limit w0 = (if rq_ProfileName req \<noteq> [] then rp_MaxConcurrency prof else 0)"
    by (simp add: w0_def profile_limit_def)
  obtain pc where pc: "(if profile_limit w0 > 0 then inFlightForRunnerProfile req (cw_tbl s) else Inr 0) = Inr pc"
    using acc obs g limits by (auto simp: reserveRunnerCapacity_def Let_def split: if_splits sum.splits)
  define w1 where "w1 = w0 \<lparr> aw_pc := ReadProfile, aw_global := Some (InFlightCount (cw_tbl s)) \<rparr>"
  define w2 where "w2 = w1 \<lparr> aw_pc := ReadAccount, aw_profileCount := (if profile_limit w1 > 0 then Some pc else aw_profileCount w1) \<rparr>"
  define w3 where "w3 = w2 \<lparr> aw_pc := ReadRepository, aw_accountCount := (if account_limit cfg w2 > 0
        then Some (InFlightCountForRepositoryOwner (runnerRepositoryOwner (rq_RepositoryFullName (aw_req w2))) (cw_tbl s1))
        else aw_accountCount w2) \<rparr>"
  define w4 where "w4 = w3 \<lparr> aw_pc := Reserving, aw_repositoryCount := (if repository_limit cfg w3 > 0
        then Some (InFlightCountForRepository (rq_RepositoryFullName (aw_req w3)) (cw_tbl s1)) else aw_repositoryCount w3) \<rparr>"
  have "?step s (set_worker i w0 s1)"
    unfolding s1_def w0_def using obs key lim by (intro adm_step.Observe [OF free name]) simp_all
  also have "?step\<^sup>*\<^sup>* (set_worker i w0 s1) (set_worker i w1 s1)"
    using step_global [of w0 s1 cfg plim i] g by (simp add: w1_def s1_def) (simp add: w0_def)
  finally have r1: "?step\<^sup>*\<^sup>* s (set_worker i w1 s1)" by simp
  have "profile_limit w1 = profile_limit w0" by (simp add: w1_def profile_limit_def)
  then have r2: "?step (set_worker i w1 s1) (set_worker i w2 s1)"
    unfolding w2_def using pc by (intro step_profile) (auto simp: w1_def w0_def s1_def split: if_splits)
  have r3: "?step (set_worker i w2 s1) (set_worker i w3 s1)"
    unfolding w3_def by (rule step_account) (simp add: w2_def)
  have r4: "?step (set_worker i w3 s1) (set_worker i w4 s1)"
    unfolding w4_def by (rule step_repository) (simp add: w3_def)
  have res: "reserve (count_or_zero (aw_global w4)) (cf_MaxConcurrentRunners cfg) (count_or_zero (aw_profileCount w4)) (profile_limit w4)
        (count_or_zero (aw_accountCount w4)) (account_limit cfg w4) (count_or_zero (aw_repositoryCount w4)) (repository_limit cfg w4)
        (aw_obs w4) (cw_cap s1) = (c, ob, [])"
    using acc obs g pc unfolding reserveRunnerCapacity_def Let_def s1_def w4_def w3_def w2_def w1_def w0_def
    by (auto simp: count_or_zero_def profile_limit_def account_limit_def repository_limit_def Let_def split: if_splits prod.splits)
  let ?s5 = "set_worker i (w4 \<lparr> aw_pc := AdmReserved, aw_obs := ob \<rparr>)
      (s1 \<lparr> cw_cap := c, cw_starts := (\<lambda>cls. cw_starts s1 cls + (if covers ob cls then 1 else 0)) \<rparr>)"
  have "?step (set_worker i w4 s1) ?s5"
    using adm_step.Reserve [of "set_worker i w4 s1" i w4 cfg c ob plim] res by (simp add: w4_def set_worker_def)
  then have "?step\<^sup>*\<^sup>* s ?s5" using r1 r2 r3 r4 by (meson rtranclp.rtrancl_into_rtrancl)
  moreover have "cw_cap ?s5 = c \<and> cw_tbl ?s5 = cw_tbl s \<and> cw_workers ?s5 = (cw_workers s)(i \<mapsto> w4 \<lparr> aw_pc := AdmReserved, aw_obs := ob \<rparr>)"
    by (simp add: s1_def)
  moreover have "aw_req w4 = req" by (simp add: w4_def w3_def w2_def w1_def w0_def)
  ultimately show ?thesis by (intro exI [of _ "w4 \<lparr> aw_pc := AdmReserved, aw_obs := ob \<rparr>"] exI [of _ ?s5]) simp
qed

subsection \<open>Properties\<close>

definition start_world :: "requests_table \<Rightarrow> adm_world" where
  "start_world tbl = \<lparr> cw_cap = empty_capacity, cw_tbl = tbl, cw_admitted = {j. still_in_flight tbl j}, cw_workers = Map.empty,
     cw_starts = (\<lambda>_. 0) \<rparr>"

definition one_runner :: capacity_config where
  "one_runner = \<lparr> cf_MaxConcurrentRunners = 1, cf_RunnerAccountConcurrency = (\<lambda>_. 0), cf_RunnerRepositoryConcurrency = (\<lambda>_. 0) \<rparr>"

definition creating_row :: runnerRequestRecord where
  "creating_row = sample_row \<lparr> rr_Status := StatusCreating \<rparr>"

lemma start_world_reach:
  assumes "table_ok tbl" "length tbl \<le> 1"
  shows "adm_reach one_runner (\<lambda>_. 0) 0 (start_world tbl)"
proof (rule adm_reach.Start [OF start_world_def assms(1)])
  have "admitted_in (start_world tbl) cls \<le> 1" for cls
  proof -
    have "length (filter P tbl) \<le> 1" for P by (rule order_trans [OF length_filter_le assms(2)])
    then show ?thesis by (simp add: admitted_in_def start_world_def count_rows_def)
  qed
  moreover have "unwritten (start_world tbl) cls = 0" for cls
    by (simp add: unwritten_def start_world_def numw_def)
  ultimately have "admitted_in (start_world tbl) cls + unwritten (start_world tbl) cls \<le> max 0 (limit_of one_runner (\<lambda>_. 0) cls)"
    if "limited one_runner (\<lambda>_. 0) cls" for cls
    using that by (cases cls) (simp_all add: one_runner_def limited_def)
  then show "within_limits one_runner (\<lambda>_. 0) (start_world tbl)" by (simp add: within_limits_def)
qed

lemma creating_row_ok: "table_ok [creating_row]"
  using sample_table_ok by (simp add: creating_row_def table_ok_def row_wf_def)

text \<open>C1: the concurrency limits hold under every interleaving of the workers, of the reads and the
  write inside each admission, and of every other operation on the table. For every class of
  requests that has a limit (all, one profile, one account, one repository), the requests in flight
  that were admitted and the reservations not yet written stay within the limit. The counters wrap
  around at 64 bits, which the bound on the number of steps keeps out of reach.\<close>

theorem capacity_never_oversubscribed:
  assumes "adm_reach cfg plim n s" "n \<le> 2 ^ 63" "limited cfg plim cls"
  shows "admitted_in s cls + unwritten s cls \<le> max 0 (limit_of cfg plim cls)"
  using adm_invD(10) [OF adm_reach_inv [OF assms(1,2)]] assms(3) by (simp add: within_limits_def)

theorem capacity_never_oversubscribed_witness:
  "admitted_in (start_world [creating_row]) CGlobal = 1
   \<and> admitted_in (start_world [creating_row]) CGlobal + unwritten (start_world [creating_row]) CGlobal
     \<le> max 0 (limit_of one_runner (\<lambda>_. 0) CGlobal)"
proof
  show "admitted_in (start_world [creating_row]) CGlobal = 1"
    by (simp add: admitted_in_def start_world_def creating_row_def count_rows_def still_in_flight_def in_flight_simps)
  show "admitted_in (start_world [creating_row]) CGlobal + unwritten (start_world [creating_row]) CGlobal
     \<le> max 0 (limit_of one_runner (\<lambda>_. 0) CGlobal)"
    by (rule capacity_never_oversubscribed [OF start_world_reach [OF creating_row_ok]]) (simp_all add: limited_def)
qed

text \<open>C12: the counters neither leak nor go missing. A profile, account or repository has a counter
  exactly while some worker that counts in it is inside the window between \<open>observe\<close> and
  \<open>finish\<close>, every such worker holds the pointer that the map holds, and the pending admissions are
  the workers with a reservation.\<close>

theorem capacity_counters_exact:
  assumes "adm_reach cfg plim n s" "n \<le> 2 ^ 63" "cls \<noteq> CGlobal"
  shows "(ctr (cw_cap s) cls \<noteq> None) = (\<exists>i w. cw_workers s i = Some w \<and> covers (aw_obs w) cls)
    \<and> ca_pending (cw_cap s) = numw (cw_workers s) (\<lambda>w. ob_reserved (aw_obs w))
    \<and> (\<forall>i w. cw_workers s i = Some w \<longrightarrow> covers (aw_obs w) cls \<longrightarrow> ctr (cw_cap s) cls = obs_addr (aw_obs w) cls)"
proof (intro conjI)
  note I = adm_invD [OF adm_reach_inv [OF assms(1,2)]]
  show ptr: "\<forall>i w. cw_workers s i = Some w \<longrightarrow> covers (aw_obs w) cls \<longrightarrow> ctr (cw_cap s) cls = obs_addr (aw_obs w) cls"
    using I(5) assms(3) unfolding obs_ok_def by blast
  have "ctr (cw_cap s) cls \<noteq> None" if "cw_workers s i = Some w" "covers (aw_obs w) cls" for i w
    using I(5) [OF that(1)] that(2) assms(3) unfolding obs_ok_def by metis
  then show "(ctr (cw_cap s) cls \<noteq> None) = (\<exists>i w. cw_workers s i = Some w \<and> covers (aw_obs w) cls)"
    using I(8) assms(3) unfolding counters_ok_def by blast
  show "ca_pending (cw_cap s) = numw (cw_workers s) (\<lambda>w. ob_reserved (aw_obs w))"
    using counters_ok_global [OF I(8)] by simp
qed

theorem capacity_counters_exact_witness:
  "(ctr (cw_cap (start_world [creating_row])) (CAccount ''acme'') \<noteq> None)
     = (\<exists>i w. cw_workers (start_world [creating_row]) i = Some w \<and> covers (aw_obs w) (CAccount ''acme''))"
  using capacity_counters_exact [OF start_world_reach [OF creating_row_ok], of "CAccount ''acme''"] by simp

text \<open>A decision taken without interruption is the sequence of the worker's steps, so that what
  holds of the steps holds of \<open>reserveRunnerCapacity\<close>; a refusal, at whatever stage and for whatever
  reason, leaves every counter as it was.\<close>

theorem reserveRunnerCapacity_decision:
  assumes "adm_reach cfg plim n s" "n \<le> 2 ^ 63" "cw_workers s i = None"
    and "rp_Name prof = TrimSpace (rq_ProfileName req)" "rp_MaxConcurrency prof = plim (runnerCapacityProfileKey req)"
    and "reserveRunnerCapacity cfg (cw_tbl s) req prof (cw_cap s) = (c, res, stage, err)"
  shows "case res of
      Some ob \<Rightarrow> \<exists>w s'. (adm_step cfg plim)\<^sup>*\<^sup>* s s' \<and> cw_cap s' = c \<and> cw_tbl s' = cw_tbl s
        \<and> cw_workers s' = (cw_workers s)(i \<mapsto> w) \<and> aw_pc w = AdmReserved \<and> aw_obs w = ob \<and> aw_req w = req
    | None \<Rightarrow> \<forall>cls. view c cls = view (cw_cap s) cls"
proof -
  note inv = adm_reach_inv [OF assms(1,2)]
  show ?thesis
  proof (cases res)
    case None
    then show ?thesis using reserveRunnerCapacity_refused [OF inv] assms(6) by simp
  next
    case (Some ob)
    then show ?thesis using reserveRunnerCapacity_run [where plim = plim, OF assms(3-5) adm_invD(3) [OF inv]] assms(6) by simp
  qed
qed

lemma small_decision:
  "\<exists>c ob. reserveRunnerCapacity one_runner [sample_row] sample_request sample_profile empty_capacity = (c, Some ob, [], None)"
  by (simp add: reserveRunnerCapacity_def one_runner_def sample_profile_def sample_request_def observe_def observe_profile_def
      observe_account_def observe_repository_def reserve_def Let_def to_int_def InFlightCount_def count_rows_def inFlightStatuses_def
      empty_capacity_def zero_counter_def new_counter_def update_counter_def counterStarted_def counterPending_def incr_readers_def
      split: prod.splits)

theorem reserveRunnerCapacity_decision_witness:
  "\<exists>c ob w s'. reserveRunnerCapacity one_runner [sample_row] sample_request sample_profile empty_capacity = (c, Some ob, [], None)
     \<and> (adm_step one_runner (\<lambda>_. 0))\<^sup>*\<^sup>* (start_world [sample_row]) s' \<and> cw_cap s' = c \<and> aw_pc w = AdmReserved \<and> cw_workers s' 3 = Some w"
proof -
  obtain c ob where d: "reserveRunnerCapacity one_runner [sample_row] sample_request sample_profile empty_capacity = (c, Some ob, [], None)"
    using small_decision by blast
  have "TrimSpace ''small'' = ''small''" by (rule TrimSpace_id) (simp add: trimmed_def is_space_def)
  then have "\<exists>w s'. (adm_step one_runner (\<lambda>_. 0))\<^sup>*\<^sup>* (start_world [sample_row]) s' \<and> cw_cap s' = c \<and> cw_tbl s' = cw_tbl (start_world [sample_row])
      \<and> cw_workers s' = (cw_workers (start_world [sample_row]))(3 \<mapsto> w) \<and> aw_pc w = AdmReserved \<and> aw_obs w = ob \<and> aw_req w = sample_request"
    using reserveRunnerCapacity_decision [OF start_world_reach [OF sample_table_ok], of 3 sample_profile sample_request c "Some ob" "[]" None] d
    by (simp add: start_world_def sample_profile_def sample_request_def)
  then show ?thesis using d by fastforce
qed

end
