(* ===== verification/Tables.thy ===== *)
theory Tables
  imports RunnerQueries
begin

text \<open>
  What the small tables of the store have in common: rows under a unique key that an
  \<^verbatim>\<open>INSERT ... ON CONFLICT DO UPDATE\<close> writes, and identifiers that the database hands out. The interface
  \<open>keyed_table\<close> is stated once and interpreted by every table that is written this way.
\<close>

definition fresh_id :: "int list \<Rightarrow> int" where
  "fresh_id ids = 1 + fold max ids 0"

text \<open>\<open>merge new old\<close> is the row after the update: the columns that the statement assigns from the new row.\<close>

definition upsert_by :: "('r \<Rightarrow> 'k) \<Rightarrow> ('r \<Rightarrow> 'r \<Rightarrow> 'r) \<Rightarrow> 'r \<Rightarrow> 'r list \<Rightarrow> 'r list" where
  "upsert_by key merge new tbl =
     (if list_ex (\<lambda>r. key r = key new) tbl then update_where (\<lambda>r. key r = key new) (merge new) tbl else tbl @ [new])"

definition lookup_by :: "('r \<Rightarrow> 'k) \<Rightarrow> 'k \<Rightarrow> 'r list \<Rightarrow> 'r option" where
  "lookup_by key k tbl = find (\<lambda>r. key r = k) tbl"

definition delete_where :: "('r \<Rightarrow> bool) \<Rightarrow> 'r list \<Rightarrow> 'r list" where
  "delete_where P tbl = filter (\<lambda>r. \<not> P r) tbl"

definition keys_unique :: "('r \<Rightarrow> 'k) \<Rightarrow> 'r list \<Rightarrow> bool" where
  "keys_unique key tbl \<longleftrightarrow> distinct (map key tbl)"

lemma fold_max_eq: "fold max ids (a :: int) = Max (insert a (set ids))"
  by (simp add: Max.set_eq_fold [symmetric])

lemma fresh_id_new: "fresh_id ids \<notin> set ids" "0 < fresh_id ids"
proof -
  have "\<forall>x\<in>insert 0 (set ids). x \<le> fold max ids 0" by (simp add: fold_max_eq)
  then show "fresh_id ids \<notin> set ids" "0 < fresh_id ids" by (auto simp: fresh_id_def)
qed

lemma keys_unique_delete [inv_intros]: "keys_unique key tbl \<Longrightarrow> keys_unique key (delete_where P tbl)"
  by (simp add: keys_unique_def delete_where_def distinct_map_filter)

lemma keys_unique_Nil [simp]: "keys_unique key []"
  by (simp add: keys_unique_def)

lemma keys_unique_append: "keys_unique key tbl \<Longrightarrow> key r \<notin> key ` set tbl \<Longrightarrow> keys_unique key (tbl @ [r])"
  by (simp add: keys_unique_def)

lemma keys_unique_update [inv_intros]:
  "keys_unique key tbl \<Longrightarrow> (\<And>r. P r \<Longrightarrow> key (f r) = key r) \<Longrightarrow> keys_unique key (update_where P f tbl)"
  by (simp add: keys_unique_def map_update_where)

lemma lookup_by_in: "lookup_by key k tbl = Some r \<Longrightarrow> r \<in> set tbl \<and> key r = k"
  by (auto simp: lookup_by_def dest: find_SomeD)

lemma lookup_by_unique: "keys_unique key tbl \<Longrightarrow> r \<in> set tbl \<Longrightarrow> lookup_by key (key r) tbl = Some r"
  unfolding lookup_by_def keys_unique_def
proof (induction tbl)
  case (Cons x tbl)
  then show ?case by (auto simp: image_iff)
qed simp

lemma lookup_by_delete: "lookup_by key k (delete_where (\<lambda>r. key r = k') tbl) = (if k = k' then None else lookup_by key k tbl)"
  by (induction tbl) (auto simp: lookup_by_def delete_where_def)

locale keyed_table =
  fixes key :: "'r \<Rightarrow> 'k" and merge :: "'r \<Rightarrow> 'r \<Rightarrow> 'r"
  assumes key_merge: "key (merge new old) = key old"
begin

lemma unique_upsert: "keys_unique key tbl \<Longrightarrow> keys_unique key (upsert_by key merge new tbl)"
  by (auto simp: upsert_by_def list_ex_iff key_merge intro!: keys_unique_update keys_unique_append)

lemma lookup_upsert_same:
  "lookup_by key (key new) (upsert_by key merge new tbl)
     = Some (case lookup_by key (key new) tbl of None \<Rightarrow> new | Some old \<Rightarrow> merge new old)"
  by (induction tbl) (auto simp: upsert_by_def lookup_by_def update_where_def key_merge split: option.splits)

lemma lookup_update_other:
  "k \<noteq> k' \<Longrightarrow> lookup_by key k (update_where (\<lambda>r. key r = k') (merge new) tbl) = lookup_by key k tbl"
  by (induction tbl) (auto simp: lookup_by_def update_where_def key_merge)

lemma lookup_append_other: "k \<noteq> key new \<Longrightarrow> lookup_by key k (tbl @ [new]) = lookup_by key k tbl"
  by (induction tbl) (auto simp: lookup_by_def)

lemma lookup_upsert_other: "k \<noteq> key new \<Longrightarrow> lookup_by key k (upsert_by key merge new tbl) = lookup_by key k tbl"
  by (simp add: upsert_by_def lookup_update_other lookup_append_other)

lemma upsert_length: "length (upsert_by key merge new tbl) \<le> Suc (length tbl)"
  by (simp add: upsert_by_def update_where_def)

end

end
