(* ===== verification/Failure.thy ===== *)
theory Failure
  imports RunnerQueries
begin

text \<open>
  The decisions of \<^verbatim>\<open>internal/server/server_runner_lifecycle.go\<close> that are functions of one
  request: how an error is classified, when a retry is due, what a failure does to the state, what
  the state keeps of a GitHub job, and whether a job may stop a runner.

  An error is a value with the property that the code asks for by \<open>errors.As\<close> or \<open>errors.Is\<close> (in the
  order of the code, the first that applies) and its text. Durations are signed 64-bit integers of
  nanoseconds: the doubling of a delay is written with the wrap-around. The text of a time
  (\<open>time.RFC3339\<close>) and a quoted string (\<open>%q\<close>) are functions \<open>lc_rfc3339\<close> and \<open>lc_quote\<close> beside the
  configuration; they occur in log lines only.
\<close>

subsection \<open>Errors\<close>

datatype go_error =
    RunnerGroupFailure string bool string
  | TemplateResolution string string
  | RunnerExitedWithoutJob string
  | DeadlineExceeded string
  | PlainError string

fun err_text :: "go_error \<Rightarrow> string" where
  "err_text (RunnerGroupFailure _ _ msg) = msg"
| "err_text (TemplateResolution _ msg) = msg"
| "err_text (RunnerExitedWithoutJob msg) = msg"
| "err_text (DeadlineExceeded msg) = msg"
| "err_text (PlainError msg) = msg"

fun error_text :: "error \<Rightarrow> string" where
  "error_text ErrConflict = ''state conflict''"
| "error_text ErrNotFound = ''state record not found''"
| "error_text ErrRetryNotAllowed = ''retry not allowed for current state''"
| "error_text ErrDeploymentQuotaExceeded = ''deployment scope concurrency limit exceeded''"
| "error_text ErrSandboxServiceDefaultAPIKeyRequired = ''sandbox service default api key is required''"
| "error_text ErrCacheServiceNotConfigured = ''cache service not configured''"
| "error_text ErrAuditEventPersistence = ''audit event persistence failed''"
| "error_text ErrRunnerProfileNameConflict = ''runner profile name conflicts with enabled global profile''"
| "error_text ErrRunnerProfileLabelsConflict = ''runner profile labels conflict''"
| "error_text ErrNotExist = ''file does not exist''"
| "error_text ErrRecordNotFound = ''record not found''"
| "error_text (Errorf msg) = msg"

definition isGitHubRunnerBusyCleanup :: "go_error \<Rightarrow> bool" where
  "isGitHubRunnerBusyCleanup err =
     (let msg = ToLower (err_text err)
      in Contains msg ''github remove runner: status 422'' \<and> Contains msg ''currently running a job''
         \<and> Contains msg ''cannot be deleted'')"

definition isSandboxGone :: "go_error \<Rightarrow> bool" where
  "isSandboxGone err =
     (let msg = err_text err
      in Contains msg ''status 404'' \<or> Contains msg (''Sandbox can'' @ [CHR 0x27] @ ''t be resumed'')
         \<or> Contains msg ''SandboxNotFound'')"

definition classifyMessage :: "string \<Rightarrow> go_error \<Rightarrow> string \<times> bool" where
  "classifyMessage stage err =
     (let msg = ToLower (err_text err)
      in if isGitHubRunnerBusyCleanup err then (''github_runner_busy'', True)
         else if Contains msg ''failed to place sandbox'' then (''sandbox_capacity'', True)
         else if Contains msg ''secondary rate limit'' then (''github_secondary_rate_limit'', True)
         else if Contains msg ''status 429'' then (''http_rate_limited'', True)
         else if Contains msg ''status 408'' \<or> Contains msg ''status 409'' \<or> Contains msg ''status 425''
           then (''http_retryable_status'', True)
         else if Contains msg ''status 5''
           then (if Contains stage ''github'' then (''github_server_error'', True) else (''backend_server_error'', True))
         else if Contains msg ''timeout'' \<or> Contains msg ''timed out'' \<or> Contains msg ''i/o timeout''
              \<or> Contains msg ''connection reset'' \<or> Contains msg ''temporary'' \<or> Contains msg ''eof''
           then (''temporary_network_error'', True)
         else if Contains msg ''status 401'' \<or> Contains msg ''status 403'' then (''auth_error'', False)
         else (stage, False))"

definition classifyRetryableError :: "string \<Rightarrow> go_error option \<Rightarrow> string \<times> bool" where
  "classifyRetryableError stage err =
     (case err of
        None \<Rightarrow> ([], False)
      | Some (RunnerGroupFailure code retryable _) \<Rightarrow> (code, retryable)
      | Some (TemplateResolution reason _) \<Rightarrow> (reason, False)
      | Some (RunnerExitedWithoutJob _) \<Rightarrow> (''runner_exited_without_job'', True)
      | Some (DeadlineExceeded _) \<Rightarrow> (''timeout'', True)
      | Some (PlainError msg) \<Rightarrow> classifyMessage stage (PlainError msg))"

definition isQueueDeferFailure :: "string \<Rightarrow> bool" where
  "isQueueDeferFailure code \<longleftrightarrow> code \<in> {''sandbox_capacity'', ''http_rate_limited'', ''github_secondary_rate_limit''}"

definition appendError :: "string \<Rightarrow> string \<Rightarrow> string" where
  "appendError current0 extra0 =
     (let current = TrimSpace current0; extra = TrimSpace extra0
      in if current = [] then extra else if extra = [] then current else current @ ''; '' @ extra)"

subsection \<open>Retry times\<close>

record lifecycle_config =
  lc_RetryMaxAttempts :: int
  lc_RetryBaseDelay :: duration
  lc_RetryMaxDelay :: duration
  lc_SandboxCreateTimeout :: duration
  lc_SandboxTimeout :: duration
  lc_SandboxStopTimeout :: duration
  lc_RunnerIdleTimeout :: duration
  lc_WorkerLeaseTTL :: duration
  lc_rfc3339 :: "instant \<Rightarrow> string"
  lc_quote :: "string \<Rightarrow> string"

definition wrap64 :: "int \<Rightarrow> int" where
  "wrap64 x = (x + 2 ^ 63) mod 2 ^ 64 - 2 ^ 63"

text \<open>The loop that doubles the delay, with the number of rounds left.\<close>

fun backoff_loop :: "duration \<Rightarrow> nat \<Rightarrow> duration \<Rightarrow> duration" where
  "backoff_loop maxDelay 0 delay = delay"
| "backoff_loop maxDelay (Suc n) delay =
     (let delay' = wrap64 (delay * 2)
      in if delay' \<ge> maxDelay then maxDelay else backoff_loop maxDelay n delay')"

definition nextRetryAt :: "lifecycle_config \<Rightarrow> int \<Rightarrow> instant \<Rightarrow> instant" where
  "nextRetryAt cfg retryCount now =
     (let delay = backoff_loop (lc_RetryMaxDelay cfg) (nat (retryCount - 1)) (lc_RetryBaseDelay cfg)
      in now + (if delay > lc_RetryMaxDelay cfg then lc_RetryMaxDelay cfg else delay))"

subsection \<open>Failures\<close>

definition clearRunnerEnvironmentSnapshot :: "RunnerState \<Rightarrow> RunnerState" where
  "clearRunnerEnvironmentSnapshot st = st \<lparr> rs_SandboxRegion := [], rs_ResolvedTemplateID := [], rs_TemplateVersion := [],
     rs_RunnerVersion := [], rs_EffectiveRunnerVersion := [] \<rparr>"

definition clearSandboxServiceSnapshot :: "RunnerState \<Rightarrow> RunnerState" where
  "clearSandboxServiceSnapshot st = st \<lparr> rs_SandboxAPIURL := [], rs_SandboxAPIKeyEncrypted := [], rs_SandboxConfigSource := [],
     rs_SponsorInstallationID := 0, rs_SponsorSourceRepositoryID := 0, rs_SponsorSourceRepositoryFullName := [],
     rs_SponsorAuthorizationReason := [] \<rparr>"

record failureResult =
  fr_metricResult :: string
  fr_logLine :: string

text \<open>The assignments before the first decision, and those of the two requeueing branches.\<close>

definition record_failure :: "string \<Rightarrow> go_error \<Rightarrow> RunnerState \<Rightarrow> RunnerState" where
  "record_failure stage err st =
     (case classifyRetryableError stage (Some err) of (code, retryable) \<Rightarrow>
        st \<lparr> rs_Error := err_text err, rs_FailureStage := stage, rs_FailureReason := code, rs_LastErrorCode := code,
             rs_LastErrorMessage := err_text err, rs_LastErrorRetryable := retryable, rs_LeaseOwner := [],
             rs_LeaseExpiresAt := zero_time, rs_SandboxID := [], rs_ProcessPID := 0, rs_CompletedAt := zero_time \<rparr>)"

definition requeued :: "int \<Rightarrow> instant \<Rightarrow> RunnerState \<Rightarrow> RunnerState" where
  "requeued retryCount retryAt st =
     (clearSandboxServiceSnapshot (clearRunnerEnvironmentSnapshot (st \<lparr> rs_Status := StatusQueued \<rparr>)))
       \<lparr> rs_RetryCount := retryCount, rs_NextRetryAt := retryAt, rs_CreatingAt := zero_time, rs_RunningAt := zero_time,
         rs_StoppingAt := zero_time, rs_FailedAt := zero_time \<rparr>"

definition applyFailure ::
  "lifecycle_config \<Rightarrow> instant \<Rightarrow> string \<Rightarrow> go_error \<Rightarrow> bool \<Rightarrow> RunnerState \<Rightarrow> RunnerState \<times> failureResult" where
  "applyFailure cfg now stage err allowRetry st0 =
     (case classifyRetryableError stage (Some err) of (code, retryable) \<Rightarrow>
        let st = record_failure stage err st0;
            limit = lc_RetryMaxAttempts cfg
        in if allowRetry \<and> retryable \<and> isQueueDeferFailure code then
             (let retryCount = (if rs_RetryCount st < limit then rs_RetryCount st + 1 else rs_RetryCount st);
                  st' = requeued retryCount (nextRetryAt cfg (max retryCount 1) now) st
              in (st', \<lparr> fr_metricResult = ''retry'', fr_logLine = ''runner deferred at '' @ stage @ '' due to '' @ code
                   @ '', next retry scheduled for '' @ lc_rfc3339 cfg (rs_NextRetryAt st') @ '': '' @ err_text err \<rparr>))
           else if allowRetry \<and> retryable \<and> rs_RetryCount st < limit then
             (let st' = requeued (rs_RetryCount st + 1) (nextRetryAt cfg (rs_RetryCount st + 1) now) st
              in (st', \<lparr> fr_metricResult = ''retry'', fr_logLine = ''runner failed at '' @ stage @ '', retry ''
                   @ int_dec (rs_RetryCount st') @ ''/'' @ int_dec limit @ '' scheduled for ''
                   @ lc_rfc3339 cfg (rs_NextRetryAt st') @ '': '' @ err_text err \<rparr>))
           else (st \<lparr> rs_Status := StatusFailed, rs_NextRetryAt := zero_time \<rparr>,
                 \<lparr> fr_metricResult = ''failed'', fr_logLine = ''runner failed at '' @ stage @ '': '' @ err_text err \<rparr>))"

definition scheduleStopRetry :: "lifecycle_config \<Rightarrow> instant \<Rightarrow> go_error \<Rightarrow> RunnerState \<Rightarrow> RunnerState \<times> bool" where
  "scheduleStopRetry cfg now err st =
     (case classifyRetryableError ''stop'' (Some err) of (code, retryable) \<Rightarrow>
        if \<not> retryable \<or> rs_RetryCount st \<ge> lc_RetryMaxAttempts cfg then (st, False)
        else (st \<lparr> rs_RetryCount := rs_RetryCount st + 1, rs_Status := StatusStopping, rs_FailureStage := ''stop'',
                   rs_FailureReason := code, rs_LastErrorCode := code, rs_LastErrorMessage := err_text err,
                   rs_LastErrorRetryable := True, rs_Error := err_text err,
                   rs_NextRetryAt := nextRetryAt cfg (rs_RetryCount st + 1) now \<rparr>, True))"

definition scheduleCleanupRetry :: "lifecycle_config \<Rightarrow> instant \<Rightarrow> go_error \<Rightarrow> RunnerState \<Rightarrow> RunnerState \<times> bool" where
  "scheduleCleanupRetry cfg now err st =
     (case classifyRetryableError ''github_cleanup'' (Some err) of (code, retryable) \<Rightarrow>
        if \<not> retryable \<or> (\<not> isGitHubRunnerBusyCleanup err \<and> rs_RetryCount st \<ge> lc_RetryMaxAttempts cfg) then (st, False)
        else
          (let n = (if rs_RetryCount st < lc_RetryMaxAttempts cfg then rs_RetryCount st + 1 else rs_RetryCount st);
               st1 = st \<lparr> rs_RetryCount := n, rs_Status := StatusStopping \<rparr>;
               st2 = (if rs_FailureStage st1 = []
                      then st1 \<lparr> rs_FailureStage := ''cleanup'', rs_FailureReason := code, rs_Error := err_text err \<rparr> else st1)
           in (st2 \<lparr> rs_LastErrorCode := code, rs_LastErrorMessage := err_text err, rs_LastErrorRetryable := True,
                     rs_NextRetryAt := nextRetryAt cfg n now \<rparr>, True)))"

subsection \<open>Jobs\<close>

record WorkflowJob =
  wj_ID :: int
  wj_Name :: string
  wj_Status :: string
  wj_Conclusion :: string
  wj_RunnerName :: string
  wj_PullRequests :: "int list"
  wj_Labels :: "string list"

definition zero_job :: WorkflowJob where
  "zero_job = \<lparr> wj_ID = 0, wj_Name = [], wj_Status = [], wj_Conclusion = [], wj_RunnerName = [], wj_PullRequests = [], wj_Labels = [] \<rparr>"

definition runnerJobStartedMarker :: string where
  "runnerJobStartedMarker = ''__runner_job_started__''"

definition shouldRecordAssignedJob :: "RunnerState \<Rightarrow> WorkflowJob \<Rightarrow> bool" where
  "shouldRecordAssignedJob st job \<longleftrightarrow>
     (if wj_ID job = 0 then False else rs_AssignedJobID st \<noteq> wj_ID job \<or> rs_AssignedJobName st \<noteq> wj_Name job)"

definition workflowJobStopConflictsWithAssignment :: "RunnerState \<Rightarrow> WorkflowJob \<Rightarrow> bool" where
  "workflowJobStopConflictsWithAssignment st job \<longleftrightarrow>
     (if wj_ID job = 0 then False
      else if TrimSpace (wj_RunnerName job) \<noteq> [] \<and> TrimSpace (wj_RunnerName job) = TrimSpace (rs_RunnerName st) then False
      else if rs_AssignedJobID st \<noteq> 0 then rs_AssignedJobID st \<noteq> wj_ID job
      else rs_AssignedJobName st = runnerJobStartedMarker \<and> rs_WorkflowJobID st = wj_ID job)"

definition workflowJobMismatch :: "RunnerState \<Rightarrow> WorkflowJob \<Rightarrow> bool" where
  "workflowJobMismatch st job \<longleftrightarrow> rs_WorkflowJobID st \<noteq> 0 \<and> wj_ID job \<noteq> 0 \<and> rs_WorkflowJobID st \<noteq> wj_ID job"

text \<open>The four fields of the result: a value that is there and new replaces the one before.\<close>

definition retain_fields :: "string \<Rightarrow> string \<Rightarrow> string \<Rightarrow> string \<Rightarrow> RunnerState \<Rightarrow> RunnerState \<times> bool" where
  "retain_fields name status conclusion runnerName st =
     (let c1 = (name \<noteq> [] \<and> rs_GitHubJobName st \<noteq> name);
          st1 = (if c1 then st \<lparr> rs_GitHubJobName := name \<rparr> else st);
          c2 = (status \<noteq> [] \<and> rs_GitHubJobStatus st1 \<noteq> status);
          st2 = (if c2 then st1 \<lparr> rs_GitHubJobStatus := status \<rparr> else st1);
          c3 = (conclusion \<noteq> [] \<and> rs_GitHubJobConclusion st2 \<noteq> conclusion);
          st3 = (if c3 then st2 \<lparr> rs_GitHubJobConclusion := conclusion \<rparr> else st2);
          c4 = (runnerName \<noteq> [] \<and> rs_GitHubJobRunnerName st3 \<noteq> runnerName);
          st4 = (if c4 then st3 \<lparr> rs_GitHubJobRunnerName := runnerName \<rparr> else st3)
      in (st4, c1 \<or> c2 \<or> c3 \<or> c4))"

definition retainWorkflowJobResult :: "instant \<Rightarrow> WorkflowJob \<Rightarrow> instant \<Rightarrow> RunnerState \<Rightarrow> RunnerState \<times> bool" where
  "retainWorkflowJobResult now job observedAt0 st =
     (if wj_ID job = 0 \<or> rs_WorkflowJobID st = 0 \<or> wj_ID job \<noteq> rs_WorkflowJobID st then (st, False)
      else
        let status0 = TrimSpace (wj_Status job);
            conclusion = TrimSpace (wj_Conclusion job);
            status = (if status0 = [] \<and> conclusion \<noteq> [] then ''completed'' else status0)
        in if \<not> (EqualFold status ''completed'' \<or> conclusion \<noteq> []) then (st, False)
           else case retain_fields (TrimSpace (wj_Name job)) status conclusion (TrimSpace (wj_RunnerName job)) st of
             (st4, changed) \<Rightarrow>
               let observedAt = (if IsZero observedAt0 then now else observedAt0)
               in if \<not> changed \<and> rs_GitHubJobName st4 = [] \<and> rs_GitHubJobStatus st4 = [] \<and> rs_GitHubJobConclusion st4 = []
                       \<and> rs_GitHubJobRunnerName st4 = [] then (st4, False)
                  else if \<not> changed \<and> \<not> IsZero (rs_GitHubJobObservedAt st4) then (st4, False)
                  else if rs_GitHubJobObservedAt st4 \<noteq> observedAt
                    then (st4 \<lparr> rs_GitHubJobObservedAt := observedAt \<rparr>, True)
                  else (st4, changed))"

definition setTerminationSource :: "string \<Rightarrow> RunnerState \<Rightarrow> RunnerState" where
  "setTerminationSource source st =
     (if TrimSpace (rs_TerminationSource st) \<noteq> [] then st else st \<lparr> rs_TerminationSource := TrimSpace source \<rparr>)"

definition markRunnerCleanupStarted :: "instant \<Rightarrow> RunnerState \<Rightarrow> RunnerState" where
  "markRunnerCleanupStarted startedAt st =
     (let st1 = st \<lparr> rs_Status := StatusStopping \<rparr>
      in if IsZero (rs_StoppingAt st1) then st1 \<lparr> rs_StoppingAt := startedAt \<rparr> else st1)"

definition isTerminalRunnerStatus :: "runner_status \<Rightarrow> bool" where
  "isTerminalRunnerStatus status \<longleftrightarrow> status = StatusCompleted \<or> status = StatusFailed"

definition isActiveStatus :: "runner_status \<Rightarrow> bool" where
  "isActiveStatus status \<longleftrightarrow> status \<in> {StatusQueued, StatusCreating, StatusRunning, StatusStopping}"

definition isWorkflowJobWaiting :: "string \<Rightarrow> bool" where
  "isWorkflowJobWaiting status \<longleftrightarrow> status \<in> {''waiting'', ''pending'', ''requested''}"

definition shouldStopIdleRunner :: "lifecycle_config \<Rightarrow> RunnerState \<Rightarrow> instant \<Rightarrow> bool" where
  "shouldStopIdleRunner cfg st now \<longleftrightarrow>
     (if lc_RunnerIdleTimeout cfg \<le> 0 \<or> IsZero (rs_RunningAt st) then False
      else if rs_AssignedJobID st \<noteq> 0 \<or> rs_AssignedJobName st = runnerJobStartedMarker then False
      else now - rs_RunningAt st > lc_RunnerIdleTimeout cfg)"

definition remainingSandboxTimeout :: "lifecycle_config \<Rightarrow> RunnerState \<Rightarrow> instant \<Rightarrow> duration" where
  "remainingSandboxTimeout cfg st now =
     (let startedAt = (if IsZero (rs_RunningAt st) then rs_CreatingAt st else rs_RunningAt st)
      in if IsZero startedAt then lc_SandboxTimeout cfg
         else min (lc_SandboxTimeout cfg - (now - startedAt)) (lc_SandboxTimeout cfg))"

subsection \<open>Backoff\<close>

lemma wrap64_id: "- (2 ^ 63) \<le> x \<Longrightarrow> x < 2 ^ 63 \<Longrightarrow> wrap64 x = x"
  by (simp add: wrap64_def)

lemma backoff_loop_closed:
  assumes "0 \<le> d" "d < 2 ^ 62" "0 \<le> m" "m \<le> 2 ^ 62"
  shows "min m (backoff_loop m n d) = min m (d * 2 ^ n)"
  using assms
proof (induction m n d rule: backoff_loop.induct)
  case (2 m n d)
  have w: "wrap64 (d * 2) = d * 2" using 2(2-5) by (intro wrap64_id) auto
  show ?case
  proof (cases "d * 2 \<ge> m")
    case True
    have "d * 2 \<le> d * 2 ^ Suc n" using 2(2) by (intro mult_left_mono) auto
    then show ?thesis using True w by (simp add: Let_def min_def)
  next
    case False
    then have "min m (backoff_loop m n (d * 2)) = min m (d * 2 * 2 ^ n)" using 2(1) w 2(2-5) by simp
    then show ?thesis using False w by (simp add: Let_def mult.assoc)
  qed
qed simp

text \<open>C21: the delay before a retry doubles from the base delay with every attempt and stops at the
  maximum; it never overflows, so that it is never in the past and never decreases.\<close>

theorem nextRetryAt_backoff:
  assumes "0 \<le> lc_RetryBaseDelay cfg" "lc_RetryBaseDelay cfg < 2 ^ 62" "0 \<le> lc_RetryMaxDelay cfg" "lc_RetryMaxDelay cfg \<le> 2 ^ 62"
  shows "nextRetryAt cfg n now = now + min (lc_RetryMaxDelay cfg) (lc_RetryBaseDelay cfg * 2 ^ nat (n - 1))"
proof -
  have "(if x > y then y else x) = min y x" for x y :: int by (simp add: min_def)
  then show ?thesis using backoff_loop_closed [OF assms, of "nat (n - 1)"] by (simp add: nextRetryAt_def Let_def)
qed

definition sample_config :: lifecycle_config where
  "sample_config = \<lparr> lc_RetryMaxAttempts = 3, lc_RetryBaseDelay = 5 * Second, lc_RetryMaxDelay = 60 * Second,
     lc_SandboxCreateTimeout = 10 * Minute, lc_SandboxTimeout = 60 * Minute, lc_SandboxStopTimeout = Minute,
     lc_RunnerIdleTimeout = 5 * Minute, lc_WorkerLeaseTTL = Minute, lc_rfc3339 = int_dec, lc_quote = id \<rparr>"

theorem nextRetryAt_backoff_witness:
  "nextRetryAt sample_config 4 100 = 100 + min (60 * Second) (5 * Second * 2 ^ nat (4 - 1))"
  using nextRetryAt_backoff [of sample_config 4 100] by (simp add: sample_config_def)

subsection \<open>Failures and their budget\<close>

lemma record_failure_simps [simp]:
  "rs_RetryCount (record_failure stage err st) = rs_RetryCount st" "rs_ID (record_failure stage err st) = rs_ID st"
  "rs_Version (record_failure stage err st) = rs_Version st"
  "rs_SandboxID (record_failure stage err st) = []" "rs_ProcessPID (record_failure stage err st) = 0"
  "rs_LeaseOwner (record_failure stage err st) = []" "IsZero (rs_LeaseExpiresAt (record_failure stage err st))"
  "IsZero (rs_CompletedAt (record_failure stage err st))"
  by (simp_all add: record_failure_def IsZero_def split: prod.splits)

lemma requeued_simps [simp]:
  "rs_Status (requeued n t st) = StatusQueued" "rs_RetryCount (requeued n t st) = n" "rs_NextRetryAt (requeued n t st) = t"
  "rs_SandboxAPIKeyEncrypted (requeued n t st) = []" "rs_SandboxID (requeued n t st) = rs_SandboxID st"
  "rs_ProcessPID (requeued n t st) = rs_ProcessPID st" "rs_LeaseOwner (requeued n t st) = rs_LeaseOwner st"
  "rs_LeaseExpiresAt (requeued n t st) = rs_LeaseExpiresAt st" "rs_CompletedAt (requeued n t st) = rs_CompletedAt st"
  "rs_ID (requeued n t st) = rs_ID st" "rs_Version (requeued n t st) = rs_Version st"
  by (simp_all add: requeued_def clearSandboxServiceSnapshot_def clearRunnerEnvironmentSnapshot_def)

text \<open>The three outcomes of a failure.\<close>

lemma applyFailure_cases:
  assumes "applyFailure cfg now stage err allowRetry st = (st', r)"
  obtains (deferred) "allowRetry" "snd (classifyRetryableError stage (Some err))" "isQueueDeferFailure (fst (classifyRetryableError stage (Some err)))"
      "st' = requeued (if rs_RetryCount st < lc_RetryMaxAttempts cfg then rs_RetryCount st + 1 else rs_RetryCount st)
        (nextRetryAt cfg (max (if rs_RetryCount st < lc_RetryMaxAttempts cfg then rs_RetryCount st + 1 else rs_RetryCount st) 1) now)
        (record_failure stage err st)"
    | (retry) "allowRetry" "snd (classifyRetryableError stage (Some err))" "\<not> isQueueDeferFailure (fst (classifyRetryableError stage (Some err)))"
      "rs_RetryCount st < lc_RetryMaxAttempts cfg"
      "st' = requeued (rs_RetryCount st + 1) (nextRetryAt cfg (rs_RetryCount st + 1) now) (record_failure stage err st)"
    | (failed) "\<not> allowRetry \<or> \<not> snd (classifyRetryableError stage (Some err))
        \<or> (\<not> isQueueDeferFailure (fst (classifyRetryableError stage (Some err))) \<and> rs_RetryCount st \<ge> lc_RetryMaxAttempts cfg)"
      "st' = record_failure stage err st \<lparr> rs_Status := StatusFailed, rs_NextRetryAt := zero_time \<rparr>"
proof -
  obtain code retryable where c: "classifyRetryableError stage (Some err) = (code, retryable)" by force
  show thesis
    using assms c that unfolding applyFailure_def Let_def by (auto split: if_splits)
qed

text \<open>C22: after a failure no lease, sandbox or process is left on the request. It is queued again exactly
  when retrying is allowed, the error is a retryable one, and either the error is one of capacity or
  rate limits or the retry budget is not spent; it then waits for a time that is not in the past and
  carries no credentials. Otherwise it is failed and no retry is scheduled. The retry counter never
  passes the budget and never decreases.\<close>

theorem applyFailure_outcome:
  assumes res: "applyFailure cfg now stage err allowRetry st = (st', r)"
    and cfg: "0 \<le> lc_RetryBaseDelay cfg" "lc_RetryBaseDelay cfg < 2 ^ 62" "0 \<le> lc_RetryMaxDelay cfg" "lc_RetryMaxDelay cfg \<le> 2 ^ 62"
  shows "rs_LeaseOwner st' = [] \<and> rs_SandboxID st' = [] \<and> rs_ProcessPID st' = 0
    \<and> rs_RetryCount st \<le> rs_RetryCount st' \<and> rs_RetryCount st' \<le> max (rs_RetryCount st) (lc_RetryMaxAttempts cfg)
    \<and> (if allowRetry \<and> snd (classifyRetryableError stage (Some err))
          \<and> (isQueueDeferFailure (fst (classifyRetryableError stage (Some err))) \<or> rs_RetryCount st < lc_RetryMaxAttempts cfg)
       then rs_Status st' = StatusQueued \<and> now \<le> rs_NextRetryAt st' \<and> rs_NextRetryAt st' \<le> now + lc_RetryMaxDelay cfg
         \<and> rs_SandboxAPIKeyEncrypted st' = []
       else rs_Status st' = StatusFailed \<and> IsZero (rs_NextRetryAt st'))"
proof -
  have next_at: "now \<le> nextRetryAt cfg k now \<and> nextRetryAt cfg k now \<le> now + lc_RetryMaxDelay cfg" for k
    unfolding nextRetryAt_def Let_def min_def [symmetric]
    using backoff_loop_closed [OF cfg, of "nat (k - 1)"] cfg by (auto simp: min_def split: if_splits)
  from res show ?thesis
  proof (cases rule: applyFailure_cases)
    case deferred
    then show ?thesis using next_at by auto
  next
    case retry
    then show ?thesis using next_at by auto
  next
    case failed
    then show ?thesis by (auto simp: IsZero_def)
  qed
qed

theorem applyFailure_outcome_witness:
  "\<exists>st' r. applyFailure sample_config 100 ''start_sandbox'' (PlainError ''status 503'') True (recordToState sample_row) = (st', r)
     \<and> rs_Status st' = StatusQueued \<and> 100 \<le> rs_NextRetryAt st'"
proof -
  obtain st' r where s: "applyFailure sample_config 100 ''start_sandbox'' (PlainError ''status 503'') True (recordToState sample_row) = (st', r)" by force
  have "classifyRetryableError ''start_sandbox'' (Some (PlainError ''status 503'')) = (''backend_server_error'', True)" by code_simp
  moreover have "rs_RetryCount (recordToState sample_row) = 0"
    by (simp add: recordToState_def sample_row_def newRequestRecord_def Let_def split: prod.splits)
  ultimately show ?thesis using applyFailure_outcome [OF s] s by (auto simp: sample_config_def)
qed

text \<open>The requeues of a run of failures that count against the budget.\<close>

fun counted_retries :: "lifecycle_config \<Rightarrow> (instant \<times> string \<times> go_error) list \<Rightarrow> RunnerState \<Rightarrow> int" where
  "counted_retries cfg [] st = 0"
| "counted_retries cfg ((now, stage, err) # fs) st =
     (let st' = fst (applyFailure cfg now stage err True st)
      in if rs_Status st' \<noteq> StatusQueued then 0
         else (if isQueueDeferFailure (fst (classifyRetryableError stage (Some err))) then 0 else 1) + counted_retries cfg fs st')"

text \<open>C23: the retry budget bounds the work: over any run of failures, the requeues for errors that are
  not capacity or rate limits number at most the attempts that were left.\<close>

theorem retry_budget_bounds_requeues:
  "0 \<le> counted_retries cfg fs st \<and> counted_retries cfg fs st \<le> max 0 (lc_RetryMaxAttempts cfg - rs_RetryCount st)"
proof (induction cfg fs st rule: counted_retries.induct)
  case (2 cfg now stage err fs st)
  obtain st' r where res: "applyFailure cfg now stage err True st = (st', r)" by force
  then show ?case
  proof (cases rule: applyFailure_cases)
    case deferred
    then show ?thesis using 2 res by (auto simp: Let_def split: if_splits)
  next
    case retry
    then show ?thesis using 2 res by (auto simp: Let_def split: if_splits)
  next
    case failed
    then show ?thesis using res by (simp add: Let_def)
  qed
qed simp

subsection \<open>Retained results\<close>

definition pick :: "string \<Rightarrow> string \<Rightarrow> string" where
  "pick new old = (if new \<noteq> [] then new else old)"

lemma pick_simps [simp]: "pick n (pick n p) = pick n p" "\<not> (n \<noteq> [] \<and> pick n p \<noteq> n)"
  by (simp_all add: pick_def)

text \<open>The fields that the call keeps of a job, and whether they differ from those before.\<close>

lemma retain_fields_eq:
  "retain_fields n s c r st =
     (st \<lparr> rs_GitHubJobName := pick n (rs_GitHubJobName st), rs_GitHubJobStatus := pick s (rs_GitHubJobStatus st),
           rs_GitHubJobConclusion := pick c (rs_GitHubJobConclusion st), rs_GitHubJobRunnerName := pick r (rs_GitHubJobRunnerName st) \<rparr>,
      pick n (rs_GitHubJobName st) \<noteq> rs_GitHubJobName st \<or> pick s (rs_GitHubJobStatus st) \<noteq> rs_GitHubJobStatus st
      \<or> pick c (rs_GitHubJobConclusion st) \<noteq> rs_GitHubJobConclusion st \<or> pick r (rs_GitHubJobRunnerName st) \<noteq> rs_GitHubJobRunnerName st)"
proof -
  have upd:
    "(if x \<noteq> [] \<and> rs_GitHubJobName u \<noteq> x then u \<lparr> rs_GitHubJobName := x \<rparr> else u) = u \<lparr> rs_GitHubJobName := pick x (rs_GitHubJobName u) \<rparr>"
    "(if x \<noteq> [] \<and> rs_GitHubJobStatus u \<noteq> x then u \<lparr> rs_GitHubJobStatus := x \<rparr> else u) = u \<lparr> rs_GitHubJobStatus := pick x (rs_GitHubJobStatus u) \<rparr>"
    "(if x \<noteq> [] \<and> rs_GitHubJobConclusion u \<noteq> x then u \<lparr> rs_GitHubJobConclusion := x \<rparr> else u) = u \<lparr> rs_GitHubJobConclusion := pick x (rs_GitHubJobConclusion u) \<rparr>"
    "(if x \<noteq> [] \<and> rs_GitHubJobRunnerName u \<noteq> x then u \<lparr> rs_GitHubJobRunnerName := x \<rparr> else u) = u \<lparr> rs_GitHubJobRunnerName := pick x (rs_GitHubJobRunnerName u) \<rparr>"
    for x and u :: RunnerState
    by (simp_all add: pick_def)
  have ch: "(x \<noteq> [] \<and> y \<noteq> x) = (pick x y \<noteq> y)" for x y :: string by (auto simp: pick_def)
  show ?thesis unfolding retain_fields_def Let_def upd by (simp add: ch)
qed

definition with_result :: "WorkflowJob \<Rightarrow> RunnerState \<Rightarrow> RunnerState" where
  "with_result job st = (let status0 = TrimSpace (wj_Status job); conclusion = TrimSpace (wj_Conclusion job)
     in fst (retain_fields (TrimSpace (wj_Name job)) (if status0 = [] \<and> conclusion \<noteq> [] then ''completed'' else status0)
          conclusion (TrimSpace (wj_RunnerName job)) st))"

lemma with_result_simps:
  "rs_WorkflowJobID (with_result job st) = rs_WorkflowJobID st" "rs_GitHubJobObservedAt (with_result job st) = rs_GitHubJobObservedAt st"
  "with_result job (with_result job st \<lparr> rs_GitHubJobObservedAt := t \<rparr>) = with_result job st \<lparr> rs_GitHubJobObservedAt := t \<rparr>"
  "with_result job (with_result job st) = with_result job st"
  by (simp_all add: with_result_def retain_fields_eq Let_def)

lemma with_result_frame:
  "with_result job st \<lparr> rs_GitHubJobName := a, rs_GitHubJobStatus := b, rs_GitHubJobConclusion := c, rs_GitHubJobRunnerName := d, rs_GitHubJobObservedAt := e \<rparr>
   = st \<lparr> rs_GitHubJobName := a, rs_GitHubJobStatus := b, rs_GitHubJobConclusion := c, rs_GitHubJobRunnerName := d, rs_GitHubJobObservedAt := e \<rparr>"
  by (simp add: with_result_def retain_fields_eq Let_def)

definition result_relevant :: "WorkflowJob \<Rightarrow> RunnerState \<Rightarrow> bool" where
  "result_relevant job st \<longleftrightarrow> \<not> (wj_ID job = 0 \<or> rs_WorkflowJobID st = 0 \<or> wj_ID job \<noteq> rs_WorkflowJobID st)
     \<and> (EqualFold (if TrimSpace (wj_Status job) = [] \<and> TrimSpace (wj_Conclusion job) \<noteq> [] then ''completed'' else TrimSpace (wj_Status job)) ''completed''
        \<or> TrimSpace (wj_Conclusion job) \<noteq> [])"

lemma retain_fields_changed:
  "snd (retain_fields n s c r st) = (fst (retain_fields n s c r st) \<noteq> st)"
proof
  assume "snd (retain_fields n s c r st)"
  then show "fst (retain_fields n s c r st) \<noteq> st"
  proof (rule contrapos_pn)
    assume e: "fst (retain_fields n s c r st) = st"
    have "rs_GitHubJobName (fst (retain_fields n s c r st)) = rs_GitHubJobName st" "rs_GitHubJobStatus (fst (retain_fields n s c r st)) = rs_GitHubJobStatus st"
      "rs_GitHubJobConclusion (fst (retain_fields n s c r st)) = rs_GitHubJobConclusion st" "rs_GitHubJobRunnerName (fst (retain_fields n s c r st)) = rs_GitHubJobRunnerName st"
      by (simp_all only: e)
    then show "\<not> snd (retain_fields n s c r st)" by (simp add: retain_fields_eq)
  qed
next
  assume "fst (retain_fields n s c r st) \<noteq> st"
  then show "snd (retain_fields n s c r st)" by (rule contrapos_np) (simp add: retain_fields_eq)
qed

text \<open>The call in the cases that matter: an irrelevant job, a result that is there already, a new one.\<close>

lemma retain_cases:
  "retainWorkflowJobResult now job t st =
     (if \<not> result_relevant job st then (st, False)
      else if with_result job st = st \<and> (rs_GitHubJobName st = [] \<and> rs_GitHubJobStatus st = [] \<and> rs_GitHubJobConclusion st = []
           \<and> rs_GitHubJobRunnerName st = [] \<or> \<not> IsZero (rs_GitHubJobObservedAt st)) then (st, False)
      else if rs_GitHubJobObservedAt st \<noteq> (if IsZero t then now else t)
        then (with_result job st \<lparr> rs_GitHubJobObservedAt := (if IsZero t then now else t) \<rparr>, True)
      else (with_result job st, with_result job st \<noteq> st))"
proof -
  let ?s0 = "TrimSpace (wj_Status job)" and ?c = "TrimSpace (wj_Conclusion job)"
  obtain st4 ch where f: "retain_fields (TrimSpace (wj_Name job)) (if ?s0 = [] \<and> ?c \<noteq> [] then ''completed'' else ?s0) ?c (TrimSpace (wj_RunnerName job)) st = (st4, ch)"
    by force
  have w: "with_result job st = st4" using f by (simp add: with_result_def Let_def)
  have ch: "ch = (st4 \<noteq> st)"
    using retain_fields_changed [of "TrimSpace (wj_Name job)" "if ?s0 = [] \<and> ?c \<noteq> [] then ''completed'' else ?s0" ?c "TrimSpace (wj_RunnerName job)" st] f by simp
  have o: "rs_GitHubJobObservedAt st4 = rs_GitHubJobObservedAt st" using with_result_simps(2) [of job st] w by simp
  show ?thesis
    unfolding retainWorkflowJobResult_def Let_def f prod.case w o ch result_relevant_def by auto
qed

text \<open>Retaining a job's result is idempotent: a second delivery of the same result changes nothing and
  asks for no write, at whatever time it comes. Only a result of the request's own job is retained,
  nothing but the five result fields changes, and the caller is told of every change.\<close>

theorem retainWorkflowJobResult_idempotent:
  assumes res: "retainWorkflowJobResult now job t st = (st', changed)" and t: "\<not> IsZero t"
  shows "retainWorkflowJobResult now' job t' st' = (st', False)
    \<and> st' \<lparr> rs_GitHubJobName := a, rs_GitHubJobStatus := b, rs_GitHubJobConclusion := c, rs_GitHubJobRunnerName := d, rs_GitHubJobObservedAt := e \<rparr>
      = st \<lparr> rs_GitHubJobName := a, rs_GitHubJobStatus := b, rs_GitHubJobConclusion := c, rs_GitHubJobRunnerName := d, rs_GitHubJobObservedAt := e \<rparr>
    \<and> (st' \<noteq> st \<longrightarrow> changed \<and> wj_ID job = rs_WorkflowJobID st)"
proof -
  define known where "known = (with_result job st = st \<and> (rs_GitHubJobName st = [] \<and> rs_GitHubJobStatus st = []
        \<and> rs_GitHubJobConclusion st = [] \<and> rs_GitHubJobRunnerName st = [] \<or> \<not> IsZero (rs_GitHubJobObservedAt st)))"
  define w where "w = with_result job st"
  define timed where "timed = w \<lparr> rs_GitHubJobObservedAt := t \<rparr>"
  have eq: "(st', changed) = (if \<not> result_relevant job st then (st, False) else if known then (st, False)
      else if rs_GitHubJobObservedAt st \<noteq> t then (timed, True) else (w, w \<noteq> st))"
    using res retain_cases [of now job t st] t by (simp only: known_def w_def timed_def if_False)
  consider (same) "st' = st" "\<not> changed" "\<not> result_relevant job st \<or> known"
    | (timed) "result_relevant job st" "st' = timed" "changed"
    | (plain) "result_relevant job st" "st' = w" "changed = (w \<noteq> st)" "rs_GitHubJobObservedAt st = t"
    using eq by (cases "result_relevant job st"; cases known; cases "rs_GitHubJobObservedAt st = t") (simp_all only: prod.inject if_True if_False not_True_eq_False not_False_eq_True simp_thms)
  then show ?thesis
  proof cases
    case same
    then have "retainWorkflowJobResult now' job t' st' = (st', False)" unfolding retain_cases known_def by (simp only: if_True if_False simp_thms) auto
    then show ?thesis using same(1) by simp
  next
    case timed
    have "with_result job st' = st'" unfolding timed(2) timed_def w_def by (rule with_result_simps(3))
    moreover have "\<not> IsZero (rs_GitHubJobObservedAt st')" using t by (simp add: timed(2) timed_def)
    ultimately have "retainWorkflowJobResult now' job t' st' = (st', False)" unfolding retain_cases by simp
    then show ?thesis using timed(1,3) with_result_frame [where job = job and st = st] by (simp add: timed(2) timed_def w_def result_relevant_def)
  next
    case plain
    have "with_result job st' = st'" unfolding plain(2) w_def by (rule with_result_simps(4))
    moreover have "\<not> IsZero (rs_GitHubJobObservedAt st')" using t plain(4) with_result_simps(2) [of job st] by (simp add: plain(2) w_def)
    ultimately have "retainWorkflowJobResult now' job t' st' = (st', False)" unfolding retain_cases by simp
    then show ?thesis using plain(1,3) with_result_frame [where job = job and st = st] by (simp add: plain(2) w_def result_relevant_def)
  qed
qed

definition ended_job :: WorkflowJob where
  "ended_job = zero_job \<lparr> wj_ID := 7, wj_Name := ''build'', wj_Status := ''completed'', wj_Conclusion := ''success'' \<rparr>"

theorem retainWorkflowJobResult_idempotent_witness:
  "\<exists>st' changed. retainWorkflowJobResult 3 ended_job 4 (recordToState sample_row) = (st', changed)
     \<and> retainWorkflowJobResult 8 ended_job 9 st' = (st', False)"
proof -
  obtain st' changed where r: "retainWorkflowJobResult 3 ended_job 4 (recordToState sample_row) = (st', changed)" by force
  have "\<not> IsZero 4" by (simp add: IsZero_def)
  then show ?thesis using retainWorkflowJobResult_idempotent [OF r, of 8 9] r by blast
qed

end
