(* ===== verification/Accounts.thy ===== *)
theory Accounts
  imports Tables Failure
begin

text \<open>
  Accounts, the OAuth identities linked to them, the audit log and the GitHub installations:
  \<^verbatim>\<open>internal/state/identity_audit.go\<close> and \<^verbatim>\<open>internal/state/github_installations.go\<close>.

  A transaction is one function of the tables that returns them unchanged with its error. Where
  the isolation level lets another transaction commit between two statements, \<open>other\<close> is what it does.
  The role change runs serializable, so nothing happens in between; a fault of the database (a
  lock, a serialization failure) aborts an attempt and is given per attempt.
\<close>

subsection \<open>Tables\<close>

record accountRecord =
  ac_ID :: int
  ac_Role :: string
  ac_CreatedAt :: instant
  ac_UpdatedAt :: instant

record oauthIdentityRecord =
  oi_ID :: int
  oi_AccountID :: int
  oi_OAuthProvider :: string
  oi_OAuthSubject :: string
  oi_OAuthLogin :: string
  oi_CreatedAt :: instant
  oi_UpdatedAt :: instant

record auditEventRecord =
  au_ID :: int
  au_Actor :: string
  au_Action :: string
  au_ResourceType :: string
  au_ResourceID :: string
  au_PayloadJSON :: string
  au_CreatedAt :: instant

record identity_db =
  db_accounts :: "accountRecord list"
  db_identities :: "oauthIdentityRecord list"
  db_audit :: "auditEventRecord list"

definition identity_key :: "oauthIdentityRecord \<Rightarrow> string \<times> string" where
  "identity_key r = (oi_OAuthProvider r, oi_OAuthSubject r)"

subsection \<open>Reading\<close>

definition GetAccount :: "int \<Rightarrow> identity_db \<Rightarrow> accountRecord result" where
  "GetAccount accountID db =
     (if accountID \<le> 0 then Inl ErrNotFound
      else case lookup_by ac_ID accountID (db_accounts db) of None \<Rightarrow> Inl ErrNotFound | Some r \<Rightarrow> Inr r)"

definition accountFromIdentity :: "oauthIdentityRecord \<Rightarrow> identity_db \<Rightarrow> (accountRecord \<times> oauthIdentityRecord) result" where
  "accountFromIdentity identity db =
     (case lookup_by ac_ID (oi_AccountID identity) (db_accounts db) of
        None \<Rightarrow> Inl ErrNotFound
      | Some account \<Rightarrow> Inr (account, identity))"

definition GetAccountByOAuthIdentity :: "string \<Rightarrow> string \<Rightarrow> identity_db \<Rightarrow> (accountRecord \<times> oauthIdentityRecord) result" where
  "GetAccountByOAuthIdentity provider0 subject0 db =
     (let provider = normalizeOAuthProvider provider0; subject = normalizeOAuthSubject subject0
      in if provider = [] \<or> subject = [] then Inl ErrNotFound
         else case lookup_by identity_key (provider, subject) (db_identities db) of
           None \<Rightarrow> Inl ErrNotFound
         | Some identity \<Rightarrow> accountFromIdentity identity db)"

definition GetOAuthIdentityForAccount :: "int \<Rightarrow> string \<Rightarrow> identity_db \<Rightarrow> oauthIdentityRecord result" where
  "GetOAuthIdentityForAccount accountID provider0 db =
     (let provider = normalizeOAuthProvider provider0
      in if accountID \<le> 0 \<or> provider = [] then Inl ErrNotFound
         else case find (\<lambda>r. oi_AccountID r = accountID \<and> oi_OAuthProvider r = provider) (sort_key oi_ID (db_identities db)) of
           None \<Rightarrow> Inl ErrNotFound
         | Some identity \<Rightarrow> Inr identity)"

record AccountStats =
  st_TotalAccounts :: int
  st_AdminAccounts :: int
  st_UserAccounts :: int
  st_OAuthIdentities :: int

definition role_counts :: "accountRecord list \<Rightarrow> (string \<times> int) list" where
  "role_counts accounts = map (\<lambda>role. (role, count_rows (\<lambda>r. ac_Role r = role) accounts)) (remdups (map ac_Role accounts))"

definition add_role_count :: "string \<times> int \<Rightarrow> AccountStats \<Rightarrow> AccountStats" where
  "add_role_count rc stats =
     (let s = stats \<lparr> st_TotalAccounts := st_TotalAccounts stats + snd rc \<rparr>
      in if fst rc = ''admin'' then s \<lparr> st_AdminAccounts := snd rc \<rparr>
         else if fst rc = ''user'' then s \<lparr> st_UserAccounts := snd rc \<rparr> else s)"

definition GetAccountStats :: "identity_db \<Rightarrow> AccountStats" where
  "GetAccountStats db =
     (fold add_role_count (role_counts (db_accounts db))
        \<lparr> st_TotalAccounts = 0, st_AdminAccounts = 0, st_UserAccounts = 0, st_OAuthIdentities = 0 \<rparr>)
        \<lparr> st_OAuthIdentities := count_rows (\<lambda>_. True) (db_identities db) \<rparr>"

definition ListAuditEvents :: "int \<Rightarrow> identity_db \<Rightarrow> auditEventRecord list" where
  "ListAuditEvents limit0 db =
     (let limit = (if limit0 \<le> 0 then 100 else limit0)
      in take (nat limit) (sort_key (\<lambda>r. - au_CreatedAt r) (db_audit db)))"

subsection \<open>The audit log\<close>

definition appendAuditEvent :: "instant \<Rightarrow> auditEventRecord \<Rightarrow> identity_db \<Rightarrow> identity_db \<times> auditEventRecord" where
  "appendAuditEvent now event db =
     (let r = event \<lparr> au_ID := fresh_id (map au_ID (db_audit db)), au_Actor := TrimSpace (au_Actor event),
            au_Action := TrimSpace (au_Action event), au_ResourceType := TrimSpace (au_ResourceType event),
            au_ResourceID := TrimSpace (au_ResourceID event),
            au_CreatedAt := (if IsZero (au_CreatedAt event) then now else au_CreatedAt event) \<rparr>
      in (db \<lparr> db_audit := db_audit db @ [r] \<rparr>, r))"

text \<open>A mutation and its audit event in one transaction; the event may fail to be written.\<close>

definition ApplyMutationWithAudit ::
  "instant \<Rightarrow> error option \<Rightarrow> auditEventRecord \<Rightarrow> (identity_db \<Rightarrow> error + identity_db) \<Rightarrow> identity_db \<Rightarrow> identity_db \<times> auditEventRecord result" where
  "ApplyMutationWithAudit now auditFault event mutation db =
     (case mutation db of
        Inl e \<Rightarrow> (db, Inl e)
      | Inr db1 \<Rightarrow>
          (case auditFault of
             Some e \<Rightarrow> (db, Inl ErrAuditEventPersistence)
           | None \<Rightarrow> (case appendAuditEvent now event db1 of (db2, saved) \<Rightarrow> (db2, Inr saved))))"

subsection \<open>Changing a role\<close>

definition isTransientStoreError :: "error \<Rightarrow> bool" where
  "isTransientStoreError e =
     (let message = ToLower (error_text e)
      in list_ex (Contains message) [''database is locked'', ''sqlite_busy'', ''40001'', ''40p01'', ''sqlstate 40001'', ''sqlstate 40p01'',
           ''serialization_failure'', ''deadlock'', ''deadlock_detected'', ''concurrent update'', ''lock wait timeout''])"

text \<open>Up to twenty attempts: the rounds left, the number of the attempt, the faults, the transaction.\<close>

fun retry_transaction ::
  "nat \<Rightarrow> nat \<Rightarrow> (nat \<Rightarrow> error option) \<Rightarrow> ('s \<Rightarrow> 's \<times> 'a result) \<Rightarrow> 's \<Rightarrow> error \<Rightarrow> 's \<times> 'a result" where
  "retry_transaction 0 k fault tx s lastErr = (s, Inl lastErr)"
| "retry_transaction (Suc n) k fault tx s lastErr =
     (case (case fault k of Some e \<Rightarrow> (s, Inl e) | None \<Rightarrow> tx s) of
        (s', Inr x) \<Rightarrow> (s', Inr x)
      | (s', Inl e) \<Rightarrow> if isTransientStoreError e then retry_transaction n (Suc k) fault tx s' e else (s', Inl e))"

definition role_payload :: "string \<Rightarrow> string \<Rightarrow> string" where
  "role_payload old new =
     (let q = [CHR 0x22]
      in ''{'' @ q @ ''new_role'' @ q @ '':'' @ q @ new @ q @ '','' @ q @ ''old_role'' @ q @ '':'' @ q @ old @ q @ ''}'')"

definition role_event :: "instant \<Rightarrow> string \<Rightarrow> string \<Rightarrow> accountRecord \<Rightarrow> auditEventRecord" where
  "role_event now auditActor role target =
     \<lparr> au_ID = 0, au_Actor = auditActor, au_Action = ''account.role.update'', au_ResourceType = ''account'',
       au_ResourceID = int_dec (ac_ID target), au_PayloadJSON = role_payload (ac_Role target) role, au_CreatedAt = now \<rparr>"

definition admin_count :: "identity_db \<Rightarrow> int" where
  "admin_count db = count_rows (\<lambda>r. ac_Role r = ''admin'') (db_accounts db)"

definition updateAccountRoleWithAuditOnce ::
  "instant \<Rightarrow> int \<Rightarrow> int \<Rightarrow> string \<Rightarrow> string \<Rightarrow> identity_db \<Rightarrow> identity_db \<times> accountRecord result" where
  "updateAccountRoleWithAuditOnce now actorAccountID accountID role auditActor db =
     (case lookup_by ac_ID actorAccountID (db_accounts db) of
        None \<Rightarrow> (db, Inl ErrNotFound)
      | Some actor \<Rightarrow>
          if ac_Role actor \<noteq> ''admin'' then (db, Inl ErrConflict)
          else case lookup_by ac_ID accountID (db_accounts db) of
            None \<Rightarrow> (db, Inl ErrNotFound)
          | Some target \<Rightarrow>
              if ac_ID target = ac_ID actor then (db, Inl ErrConflict)
              else if ac_Role target = role then (db, Inr target)
              else if ac_Role target = ''admin'' \<and> role = ''user'' \<and> admin_count db \<le> 1 then (db, Inl ErrConflict)
              else
                let hit = (\<lambda>r. ac_ID r = ac_ID target \<and> ac_Role r = ac_Role target);
                    changed = (\<lambda>r. r \<lparr> ac_Role := role, ac_UpdatedAt := now \<rparr>)
                in if rows_affected hit (db_accounts db) \<noteq> 1 then (db, Inl ErrConflict)
                   else case appendAuditEvent now (role_event now auditActor role target)
                          (db \<lparr> db_accounts := update_where hit changed (db_accounts db) \<rparr>) of
                     (db1, _) \<Rightarrow> (db1, Inr (changed target)))"

definition UpdateAccountRoleWithAudit ::
  "instant \<Rightarrow> (nat \<Rightarrow> error option) \<Rightarrow> int \<Rightarrow> int \<Rightarrow> string \<Rightarrow> string \<Rightarrow> identity_db \<Rightarrow> identity_db \<times> accountRecord result" where
  "UpdateAccountRoleWithAudit now fault actorAccountID accountID role0 auditActor0 db =
     (if actorAccountID \<le> 0 \<or> accountID \<le> 0 then (db, Inl ErrNotFound)
      else if actorAccountID = accountID then (db, Inl ErrConflict)
      else
        let role = normalizePlatformRole role0; auditActor = TrimSpace auditActor0
        in if role = [] then (db, Inl (Errorf ''role must be admin or user''))
           else if auditActor = [] then (db, Inl (Errorf ''audit actor is required''))
           else retry_transaction 20 0 fault (updateAccountRoleWithAuditOnce now actorAccountID accountID role auditActor) db ErrConflict)"

subsection \<open>Linking identities\<close>

definition touch_login :: "instant \<Rightarrow> string \<Rightarrow> oauthIdentityRecord \<Rightarrow> oauthIdentityRecord" where
  "touch_login now login r = r \<lparr> oi_OAuthLogin := login, oi_UpdatedAt := now \<rparr>"

definition set_role :: "instant \<Rightarrow> int \<Rightarrow> string \<Rightarrow> identity_db \<Rightarrow> identity_db" where
  "set_role now accountID role db =
     db \<lparr> db_accounts := update_where (\<lambda>r. ac_ID r = accountID) (\<lambda>r. r \<lparr> ac_Role := role, ac_UpdatedAt := now \<rparr>) (db_accounts db) \<rparr>"

text \<open>The update of an identity that is there.\<close>

definition update_identity ::
  "instant \<Rightarrow> string \<Rightarrow> string \<Rightarrow> bool \<Rightarrow> int \<Rightarrow> oauthIdentityRecord \<Rightarrow> identity_db
    \<Rightarrow> error + identity_db \<times> accountRecord \<times> oauthIdentityRecord" where
  "update_identity now login role updateExisting accountID identity db =
     (if accountID \<noteq> 0 \<and> oi_AccountID identity \<noteq> accountID then Inl ErrConflict
      else
        let db1 = db \<lparr> db_identities := update_where (\<lambda>r. oi_ID r = oi_ID identity) (touch_login now login) (db_identities db) \<rparr>;
            db2 = (if updateExisting then set_role now (oi_AccountID identity) role db1 else db1)
        in case accountFromIdentity (touch_login now login identity) db2 of
             Inl e \<Rightarrow> Inl e
           | Inr (account, saved) \<Rightarrow> Inr (db2, account, saved))"

definition saveOAuthIdentityOnce ::
  "instant \<Rightarrow> (identity_db \<Rightarrow> identity_db) \<Rightarrow> string \<Rightarrow> string \<Rightarrow> string \<Rightarrow> string \<Rightarrow> instant \<Rightarrow> bool \<Rightarrow> int \<Rightarrow> identity_db
    \<Rightarrow> identity_db \<times> (accountRecord \<times> oauthIdentityRecord) result" where
  "saveOAuthIdentityOnce now other provider subject login role createdAt updateExisting accountID db =
     (case lookup_by identity_key (provider, subject) (db_identities db) of
        Some identity \<Rightarrow>
          (case update_identity now login role updateExisting accountID identity db of
             Inl e \<Rightarrow> (db, Inl e)
           | Inr (db1, r) \<Rightarrow> (db1, Inr r))
      | None \<Rightarrow>
          if accountID \<noteq> 0 \<and> lookup_by ac_ID accountID (db_accounts db) = None then (db, Inl ErrNotFound)
          else
            let db0 = other db;
                newID = fresh_id (map ac_ID (db_accounts db0));
                db1 = (if accountID = 0
                       then db0 \<lparr> db_accounts := db_accounts db0 @ [\<lparr> ac_ID = newID, ac_Role = role, ac_CreatedAt = now, ac_UpdatedAt = now \<rparr>] \<rparr>
                       else db0);
                identity = \<lparr> oi_ID = fresh_id (map oi_ID (db_identities db0)), oi_AccountID = (if accountID = 0 then newID else accountID),
                  oi_OAuthProvider = provider, oi_OAuthSubject = subject, oi_OAuthLogin = login,
                  oi_CreatedAt = (if IsZero createdAt then now else createdAt), oi_UpdatedAt = now \<rparr>
            in case lookup_by identity_key (provider, subject) (db_identities db0) of
                 Some concurrent \<Rightarrow>
                   (case update_identity now login role updateExisting accountID concurrent db0 of
                      Inl e \<Rightarrow> (db0, Inl e)
                    | Inr (db2, r) \<Rightarrow> (db2, Inr r))
               | None \<Rightarrow>
                   let db2 = db1 \<lparr> db_identities := db_identities db1 @ [identity] \<rparr>
                   in (case accountFromIdentity identity db2 of
                         Inl e \<Rightarrow> (db0, Inl e)
                       | Inr r \<Rightarrow> (db2, Inr r)))"

definition saveOAuthIdentity ::
  "instant \<Rightarrow> (nat \<Rightarrow> error option) \<Rightarrow> (identity_db \<Rightarrow> identity_db) \<Rightarrow> oauthIdentityRecord \<Rightarrow> string \<Rightarrow> bool \<Rightarrow> int \<Rightarrow> identity_db
    \<Rightarrow> identity_db \<times> (accountRecord \<times> oauthIdentityRecord) result" where
  "saveOAuthIdentity now fault other identity role0 updateExisting accountID db =
     (let provider = normalizeOAuthProvider (oi_OAuthProvider identity);
          subject = normalizeOAuthSubject (oi_OAuthSubject identity);
          login = normalizeOAuthLogin (oi_OAuthLogin identity);
          role = normalizePlatformRole role0
      in if provider = [] then (db, Inl (Errorf ''oauth_provider is required''))
         else if subject = [] then (db, Inl (Errorf ''oauth_subject is required''))
         else if login = [] then (db, Inl (Errorf ''oauth_login is required''))
         else if accountID = 0 \<and> role = [] then (db, Inl (Errorf ''role must be admin or user''))
         else retry_transaction 20 0 fault
                (saveOAuthIdentityOnce now other provider subject login role (oi_CreatedAt identity) updateExisting accountID) db ErrConflict)"

definition UpsertAccountForOAuthIdentity ::
  "instant \<Rightarrow> (nat \<Rightarrow> error option) \<Rightarrow> (identity_db \<Rightarrow> identity_db) \<Rightarrow> oauthIdentityRecord \<Rightarrow> string \<Rightarrow> identity_db
    \<Rightarrow> identity_db \<times> (accountRecord \<times> oauthIdentityRecord) result" where
  "UpsertAccountForOAuthIdentity now fault other identity role db = saveOAuthIdentity now fault other identity role True 0 db"

definition EnsureAccountForOAuthIdentity ::
  "instant \<Rightarrow> (nat \<Rightarrow> error option) \<Rightarrow> (identity_db \<Rightarrow> identity_db) \<Rightarrow> oauthIdentityRecord \<Rightarrow> string \<Rightarrow> identity_db
    \<Rightarrow> identity_db \<times> (accountRecord \<times> oauthIdentityRecord) result" where
  "EnsureAccountForOAuthIdentity now fault other identity role db = saveOAuthIdentity now fault other identity role False 0 db"

definition LinkOAuthIdentityToAccount ::
  "instant \<Rightarrow> (nat \<Rightarrow> error option) \<Rightarrow> (identity_db \<Rightarrow> identity_db) \<Rightarrow> int \<Rightarrow> oauthIdentityRecord \<Rightarrow> identity_db
    \<Rightarrow> identity_db \<times> (accountRecord \<times> oauthIdentityRecord) result" where
  "LinkOAuthIdentityToAccount now fault other accountID identity db = saveOAuthIdentity now fault other identity [] False accountID db"

subsection \<open>Invariant\<close>

definition identity_ok :: "identity_db \<Rightarrow> bool" where
  "identity_ok db \<longleftrightarrow> keys_unique ac_ID (db_accounts db) \<and> keys_unique oi_ID (db_identities db)
     \<and> keys_unique identity_key (db_identities db)
     \<and> oi_AccountID ` set (db_identities db) \<subseteq> ac_ID ` set (db_accounts db)"

text \<open>What every transaction may do to the tables: accounts and identities stay, identities stay with their account.\<close>

definition identity_link :: "oauthIdentityRecord \<Rightarrow> int \<times> (string \<times> string) \<times> int" where
  "identity_link r = (oi_ID r, identity_key r, oi_AccountID r)"

definition identity_extends :: "identity_db \<Rightarrow> identity_db \<Rightarrow> bool" where
  "identity_extends db db' \<longleftrightarrow>
     ac_ID ` set (db_accounts db) \<subseteq> ac_ID ` set (db_accounts db') \<and> identity_link ` set (db_identities db) \<subseteq> identity_link ` set (db_identities db')"

lemma identity_extends_refl [simp]: "identity_extends db db"
  by (simp add: identity_extends_def)

lemma identity_extends_trans: "identity_extends a b \<Longrightarrow> identity_extends b c \<Longrightarrow> identity_extends a c"
  unfolding identity_extends_def by (meson order_trans)

lemma retry_transaction_induct:
  assumes "\<And>s. P s s" "\<And>a b c. P a b \<Longrightarrow> P b c \<Longrightarrow> P a c" "\<And>s. I s \<Longrightarrow> P s (fst (tx s)) \<and> I (fst (tx s))" "I s"
  shows "P s (fst (retry_transaction n k fault tx s e)) \<and> I (fst (retry_transaction n k fault tx s e))"
  using assms(4)
proof (induction n arbitrary: k s e)
  case (Suc n)
  obtain s' r where step: "(case fault k of Some e \<Rightarrow> (s, Inl e) | None \<Rightarrow> tx s) = (s', r)" by force
  have s': "P s s' \<and> I s'" using step assms(1,3) [of s] Suc.prems by (cases "fault k") auto
  show ?case
  proof (cases r)
    case (Inl e')
    show ?thesis
    proof (cases "isTransientStoreError e'")
      case True
      then have "retry_transaction (Suc n) k fault tx s e = retry_transaction n (Suc k) fault tx s' e'"
        using step Inl by simp
      then show ?thesis using Suc.IH [of s' "Suc k" e'] s' assms(2) by metis
    next
      case False
      then show ?thesis using step Inl s' by simp
    qed
  next
    case (Inr x)
    then show ?thesis using step s' by simp
  qed
qed (use assms(1) in simp)

lemma touch_login_simps [simp]:
  "identity_key (touch_login now l r) = identity_key r" "oi_ID (touch_login now l r) = oi_ID r"
  "oi_AccountID (touch_login now l r) = oi_AccountID r"
  by (simp_all add: touch_login_def identity_key_def)

lemma update_accounts_ok:
  assumes "identity_ok db" "\<And>r. ac_ID (f r) = ac_ID r"
  shows "identity_ok (db \<lparr> db_accounts := update_where Q f (db_accounts db) \<rparr>)
    \<and> identity_extends db (db \<lparr> db_accounts := update_where Q f (db_accounts db) \<rparr>)"
proof -
  have ids: "ac_ID ` set (update_where Q f (db_accounts db)) = ac_ID ` set (db_accounts db)"
    using map_update_where [of Q ac_ID f "db_accounts db"] assms(2) by (metis set_map)
  then show ?thesis
    using assms by (auto simp: identity_ok_def identity_extends_def intro!: keys_unique_update)
qed

lemma update_identities_ok:
  assumes "identity_ok db" "\<And>r. identity_link (f r) = identity_link r"
  shows "identity_ok (db \<lparr> db_identities := update_where Q f (db_identities db) \<rparr>)
    \<and> identity_extends db (db \<lparr> db_identities := update_where Q f (db_identities db) \<rparr>)"
proof -
  let ?t = "update_where Q f (db_identities db)"
  have eqs: "oi_ID (f r) = oi_ID r" "identity_key (f r) = identity_key r" "oi_AccountID (f r) = oi_AccountID r" for r
    using assms(2) [of r] by (simp_all add: identity_link_def)
  have "identity_link ` set ?t = identity_link ` set (db_identities db)"
    using map_update_where [of Q identity_link f "db_identities db"] assms(2) by (metis set_map)
  moreover have "oi_AccountID ` set ?t = oi_AccountID ` set (db_identities db)"
    using map_update_where [of Q oi_AccountID f "db_identities db"] eqs by (metis set_map)
  ultimately show ?thesis
    using assms(1) eqs by (simp add: identity_ok_def identity_extends_def keys_unique_update flip: image_subset_iff)
qed

lemma set_role_ok:
  "identity_ok db \<Longrightarrow> identity_ok (set_role now a role db) \<and> identity_extends db (set_role now a role db)"
  unfolding set_role_def by (rule update_accounts_ok) simp_all

lemma update_identity_ok:
  assumes "identity_ok db" "update_identity now login role upd a identity db = Inr (db', r)"
  shows "identity_ok db' \<and> identity_extends db db'"
proof -
  define db1 where "db1 = db \<lparr> db_identities := update_where (\<lambda>r. oi_ID r = oi_ID identity) (touch_login now login) (db_identities db) \<rparr>"
  have 1: "identity_ok db1 \<and> identity_extends db db1"
    unfolding db1_def using assms(1) by (rule update_identities_ok) (simp add: identity_link_def)
  have "db' = (if upd then set_role now (oi_AccountID identity) role db1 else db1)"
    using assms(2) by (auto simp: update_identity_def db1_def Let_def split: if_splits sum.splits)
  then show ?thesis using 1 set_role_ok identity_extends_trans by metis
qed

lemma append_account_ok:
  assumes "identity_ok db" "ac_ID a = fresh_id (map ac_ID (db_accounts db))"
  shows "identity_ok (db \<lparr> db_accounts := db_accounts db @ [a] \<rparr>) \<and> identity_extends db (db \<lparr> db_accounts := db_accounts db @ [a] \<rparr>)"
  using assms fresh_id_new(1) [of "map ac_ID (db_accounts db)"] keys_unique_append [of ac_ID "db_accounts db" a]
  by (simp add: identity_ok_def identity_extends_def) blast

lemma append_identity_ok:
  assumes "identity_ok db" "oi_ID i = fresh_id (map oi_ID (db_identities db))"
    and "lookup_by identity_key (identity_key i) (db_identities db) = None" "oi_AccountID i \<in> ac_ID ` set (db_accounts db)"
  shows "identity_ok (db \<lparr> db_identities := db_identities db @ [i] \<rparr>) \<and> identity_extends db (db \<lparr> db_identities := db_identities db @ [i] \<rparr>)"
proof -
  have "identity_key i \<notin> identity_key ` set (db_identities db)"
    using assms(3) by (auto simp: lookup_by_def find_None_iff image_iff)
  then show ?thesis
    using assms fresh_id_new(1) [of "map oi_ID (db_identities db)"] keys_unique_append [of oi_ID "db_identities db" i]
      keys_unique_append [of identity_key "db_identities db" i]
    by (simp add: identity_ok_def identity_extends_def) blast
qed

lemma saveOAuthIdentityOnce_ok:
  assumes "identity_ok db" "\<And>d. identity_ok d \<Longrightarrow> identity_ok (other d) \<and> identity_extends d (other d)"
  shows "identity_ok (fst (saveOAuthIdentityOnce now other p s l role c upd a db))
    \<and> identity_extends db (fst (saveOAuthIdentityOnce now other p s l role c upd a db))"
proof (cases "lookup_by identity_key (p, s) (db_identities db)")
  case (Some identity)
  then show ?thesis
    using assms(1) update_identity_ok [OF assms(1)]
    by (auto simp: saveOAuthIdentityOnce_def split: sum.splits)
next
  case None
  define db0 where "db0 = other db"
  have o: "identity_ok db0" "identity_extends db db0" using assms db0_def by auto
  define acc where "acc = \<lparr> ac_ID = fresh_id (map ac_ID (db_accounts db0)), ac_Role = role, ac_CreatedAt = now, ac_UpdatedAt = now \<rparr>"
  define db1 where "db1 = (if a = 0 then db0 \<lparr> db_accounts := db_accounts db0 @ [acc] \<rparr> else db0)"
  define i where "i = \<lparr> oi_ID = fresh_id (map oi_ID (db_identities db0)), oi_AccountID = (if a = 0 then ac_ID acc else a),
      oi_OAuthProvider = p, oi_OAuthSubject = s, oi_OAuthLogin = l, oi_CreatedAt = (if IsZero c then now else c), oi_UpdatedAt = now \<rparr>"
  have 1: "identity_ok db1 \<and> identity_extends db0 db1"
    unfolding db1_def using append_account_ok [OF o(1), of acc] o(1) by (simp add: acc_def)
  show ?thesis
  proof (cases "a \<noteq> 0 \<and> lookup_by ac_ID a (db_accounts db) = None")
    case True
    then show ?thesis using None assms(1) by (simp add: saveOAuthIdentityOnce_def)
  next
    case False
    have acc_in: "(if a = 0 then ac_ID acc else a) \<in> ac_ID ` set (db_accounts db1)"
    proof (cases "a = 0")
      case False
      with \<open>\<not> (a \<noteq> 0 \<and> lookup_by ac_ID a (db_accounts db) = None)\<close> obtain r where "r \<in> set (db_accounts db)" "ac_ID r = a"
        by (auto dest: lookup_by_in)
      then show ?thesis using o(2) False by (auto simp: identity_extends_def db1_def)
    qed (simp add: db1_def)
    have eq: "saveOAuthIdentityOnce now other p s l role c upd a db =
      (case lookup_by identity_key (p, s) (db_identities db0) of
         Some concurrent \<Rightarrow>
           (case update_identity now l role upd a concurrent db0 of Inl e \<Rightarrow> (db0, Inl e) | Inr (db2, r) \<Rightarrow> (db2, Inr r))
       | None \<Rightarrow>
           (case accountFromIdentity i (db1 \<lparr> db_identities := db_identities db1 @ [i] \<rparr>) of
              Inl e \<Rightarrow> (db0, Inl e) | Inr r \<Rightarrow> (db1 \<lparr> db_identities := db_identities db1 @ [i] \<rparr>, Inr r)))"
      by (simp only: saveOAuthIdentityOnce_def Let_def db0_def db1_def acc_def i_def None False option.case if_False accountRecord.select_convs)
    have ids: "db_identities db1 = db_identities db0" by (simp add: db1_def)
    show ?thesis
    proof (cases "lookup_by identity_key (p, s) (db_identities db0)")
      case (Some concurrent)
      then show ?thesis
        using eq o update_identity_ok [OF o(1)] identity_extends_trans [OF o(2)] by (auto split: sum.splits)
    next
      case None
      then have 2: "identity_ok (db1 \<lparr> db_identities := db_identities db1 @ [i] \<rparr>)
          \<and> identity_extends db1 (db1 \<lparr> db_identities := db_identities db1 @ [i] \<rparr>)"
        using 1 acc_in ids by (intro append_identity_ok) (simp_all add: i_def identity_key_def)
      define db2 where "db2 = db1 \<lparr> db_identities := db_identities db1 @ [i] \<rparr>"
      have "identity_extends db db2" "identity_ok db2"
        using 2 1 o(2) identity_extends_trans unfolding db2_def by blast+
      moreover have "fst (saveOAuthIdentityOnce now other p s l role c upd a db) \<in> {db0, db2}"
        using eq None by (simp add: db2_def split: sum.splits)
      ultimately show ?thesis using o by auto
    qed
  qed
qed

subsection \<open>Sequences of transactions\<close>

text \<open>The transactions; a save of an identity carries what commits between its statements.\<close>

datatype identity_op =
    ChangeRole instant "nat \<Rightarrow> error option" int int string string
  | SaveIdentity instant "nat \<Rightarrow> error option" "identity_op list" oauthIdentityRecord string bool int

fun run_identity :: "identity_op \<Rightarrow> identity_db \<Rightarrow> identity_db" where
  "run_identity (ChangeRole now fault actor target role who) = (\<lambda>db. fst (UpdateAccountRoleWithAudit now fault actor target role who db))"
| "run_identity (SaveIdentity now fault ops identity role updateExisting accountID) =
     (\<lambda>db. fst (saveOAuthIdentity now fault (fold id (map run_identity ops)) identity role updateExisting accountID db))"

lemma appendAuditEvent_simps [simp]:
  "db_accounts (fst (appendAuditEvent now e db)) = db_accounts db" "db_identities (fst (appendAuditEvent now e db)) = db_identities db"
  by (simp_all add: appendAuditEvent_def Let_def)

lemma identity_ok_audit: "db_accounts d = db_accounts e \<Longrightarrow> db_identities d = db_identities e \<Longrightarrow> identity_ok d = identity_ok e"
  by (simp add: identity_ok_def)

text \<open>The cases of one role change.\<close>

lemma updateAccountRole_cases:
  assumes "updateAccountRoleWithAuditOnce now actor target role who db = (db', r)"
  shows "(db' = db) \<or> (\<exists>a t. lookup_by ac_ID actor (db_accounts db) = Some a \<and> ac_Role a = ''admin''
      \<and> lookup_by ac_ID target (db_accounts db) = Some t \<and> ac_ID t \<noteq> ac_ID a \<and> ac_Role t \<noteq> role
      \<and> db' = fst (appendAuditEvent now (role_event now who role t)
          (db \<lparr> db_accounts := update_where (\<lambda>r. ac_ID r = ac_ID t \<and> ac_Role r = ac_Role t)
            (\<lambda>r. r \<lparr> ac_Role := role, ac_UpdatedAt := now \<rparr>) (db_accounts db) \<rparr>))
      \<and> r = Inr (t \<lparr> ac_Role := role, ac_UpdatedAt := now \<rparr>))"
  using assms unfolding updateAccountRoleWithAuditOnce_def
  by (auto simp: Let_def split: option.splits if_splits prod.splits)

lemma updateAccountRole_ok:
  assumes "identity_ok db"
  shows "identity_ok (fst (updateAccountRoleWithAuditOnce now actor target role who db))
    \<and> identity_extends db (fst (updateAccountRoleWithAuditOnce now actor target role who db))"
proof (rule disjE [OF updateAccountRole_cases [OF surjective_pairing]])
  assume "fst (updateAccountRoleWithAuditOnce now actor target role who db) = db"
  then show ?thesis using assms by simp
next
  let ?db = "fst (updateAccountRoleWithAuditOnce now actor target role who db)"
  assume "\<exists>a t. lookup_by ac_ID actor (db_accounts db) = Some a \<and> ac_Role a = ''admin''
      \<and> lookup_by ac_ID target (db_accounts db) = Some t \<and> ac_ID t \<noteq> ac_ID a \<and> ac_Role t \<noteq> role
      \<and> ?db = fst (appendAuditEvent now (role_event now who role t)
          (db \<lparr> db_accounts := update_where (\<lambda>r. ac_ID r = ac_ID t \<and> ac_Role r = ac_Role t)
            (\<lambda>r. r \<lparr> ac_Role := role, ac_UpdatedAt := now \<rparr>) (db_accounts db) \<rparr>))
      \<and> snd (updateAccountRoleWithAuditOnce now actor target role who db) = Inr (t \<lparr> ac_Role := role, ac_UpdatedAt := now \<rparr>)"
  then obtain t where eq: "?db = fst (appendAuditEvent now (role_event now who role t)
          (db \<lparr> db_accounts := update_where (\<lambda>r. ac_ID r = ac_ID t \<and> ac_Role r = ac_Role t)
            (\<lambda>r. r \<lparr> ac_Role := role, ac_UpdatedAt := now \<rparr>) (db_accounts db) \<rparr>))" by blast
  define db1 where "db1 = db \<lparr> db_accounts := update_where (\<lambda>r. ac_ID r = ac_ID t \<and> ac_Role r = ac_Role t)
            (\<lambda>r. r \<lparr> ac_Role := role, ac_UpdatedAt := now \<rparr>) (db_accounts db) \<rparr>"
  have "identity_ok db1 \<and> identity_extends db db1"
    unfolding db1_def using assms by (rule update_accounts_ok) simp
  then show ?thesis unfolding eq db1_def [symmetric] by (simp add: identity_ok_def identity_extends_def)
qed

lemma UpdateAccountRole_ok:
  assumes "identity_ok db"
  shows "identity_extends db (fst (UpdateAccountRoleWithAudit now fault actor target role who db))
    \<and> identity_ok (fst (UpdateAccountRoleWithAudit now fault actor target role who db))"
proof -
  have "identity_extends db (fst (retry_transaction n k fault (updateAccountRoleWithAuditOnce now actor target ro w) db e))
      \<and> identity_ok (fst (retry_transaction n k fault (updateAccountRoleWithAuditOnce now actor target ro w) db e))" for n k ro w e
    using assms updateAccountRole_ok
    by (intro retry_transaction_induct [where P = identity_extends and I = identity_ok]) (auto intro: identity_extends_trans)
  then show ?thesis using assms by (simp add: UpdateAccountRoleWithAudit_def Let_def)
qed

lemma saveOAuthIdentity_ok:
  assumes "identity_ok db" "\<And>d. identity_ok d \<Longrightarrow> identity_ok (other d) \<and> identity_extends d (other d)"
  shows "identity_extends db (fst (saveOAuthIdentity now fault other identity role upd a db))
    \<and> identity_ok (fst (saveOAuthIdentity now fault other identity role upd a db))"
proof -
  have "identity_extends db (fst (retry_transaction n k fault (saveOAuthIdentityOnce now other p s l ro c upd a) db e))
      \<and> identity_ok (fst (retry_transaction n k fault (saveOAuthIdentityOnce now other p s l ro c upd a) db e))" for n k p s l ro c e
    using assms saveOAuthIdentityOnce_ok [OF _ assms(2)]
    by (intro retry_transaction_induct [where P = identity_extends and I = identity_ok]) (auto intro: identity_extends_trans)
  then show ?thesis using assms(1) by (simp add: saveOAuthIdentity_def Let_def)
qed

lemma fold_identity_ok:
  assumes "\<And>op d. op \<in> set ops \<Longrightarrow> identity_ok d \<Longrightarrow> identity_ok (run_identity op d) \<and> identity_extends d (run_identity op d)" "identity_ok db"
  shows "identity_ok (fold run_identity ops db) \<and> identity_extends db (fold run_identity ops db)"
  using assms
proof (induction ops arbitrary: db)
  case (Cons op ops)
  have step: "identity_ok (run_identity op db) \<and> identity_extends db (run_identity op db)" using Cons.prems by simp
  then have "identity_ok (fold run_identity ops (run_identity op db)) \<and> identity_extends (run_identity op db) (fold run_identity ops (run_identity op db))"
    using Cons.IH Cons.prems(1) by simp
  with step show ?case using identity_extends_trans by auto
qed simp

lemma run_identity_ok:
  "identity_ok db \<Longrightarrow> identity_ok (run_identity op db) \<and> identity_extends db (run_identity op db)"
proof (induction op arbitrary: db)
  case (ChangeRole now fault actor target role who)
  then show ?case using UpdateAccountRole_ok by simp
next
  case (SaveIdentity now fault ops identity role upd a)
  have "identity_ok (fold run_identity ops d) \<and> identity_extends d (fold run_identity ops d)" if "identity_ok d" for d
    using SaveIdentity.IH that by (intro fold_identity_ok) auto
  then show ?case using saveOAuthIdentity_ok [OF SaveIdentity.prems] by (simp add: fold_map)
qed

lemma lookup_by_map:
  assumes "keys_unique key tbl" "keys_unique key tbl'" "lookup_by key k tbl = Some r" "g ` set tbl \<subseteq> g ` set tbl'" "\<And>x y. g x = g y \<Longrightarrow> key x = key y"
  shows "\<exists>r'. lookup_by key k tbl' = Some r' \<and> g r' = g r"
proof -
  have r: "r \<in> set tbl" "key r = k" using lookup_by_in [OF assms(3)] by auto
  then obtain r' where r': "r' \<in> set tbl'" "g r' = g r" using assms(4) by (metis image_iff subsetD)
  then show ?thesis using lookup_by_unique [OF assms(2)] assms(5) r by metis
qed

text \<open>C26: Whatever sequence of logins, links and role changes runs, with whatever committing in between and
  whatever faults of the database: the keys of the tables stay unique, every identity belongs to
  an account that exists, and an identity that is found under a provider and subject is found
  there ever after, as the same identity of the same account.\<close>
theorem identities_stay_linked:
  assumes "identity_ok db" and "GetAccountByOAuthIdentity provider subject db = Inr (account, identity)"
  shows "identity_ok (fold run_identity ops db)
    \<and> (\<exists>account' identity'. GetAccountByOAuthIdentity provider subject (fold run_identity ops db) = Inr (account', identity')
        \<and> ac_ID account' = ac_ID account \<and> identity_link identity' = identity_link identity)"
proof -
  define p where "p = normalizeOAuthProvider provider"
  define s where "s = normalizeOAuthSubject subject"
  let ?db = "fold run_identity ops db"
  have ok: "identity_ok ?db" and ext: "identity_extends db ?db"
    using fold_identity_ok [OF run_identity_ok assms(1)] by auto
  have found: "p \<noteq> []" "s \<noteq> []" "lookup_by identity_key (p, s) (db_identities db) = Some identity"
    "lookup_by ac_ID (oi_AccountID identity) (db_accounts db) = Some account"
    using assms(2) by (auto simp: GetAccountByOAuthIdentity_def accountFromIdentity_def p_def s_def Let_def split: if_splits option.splits)
  have u: "keys_unique identity_key (db_identities db)" "keys_unique identity_key (db_identities ?db)"
    "keys_unique ac_ID (db_accounts db)" "keys_unique ac_ID (db_accounts ?db)"
    and sub: "identity_link ` set (db_identities db) \<subseteq> identity_link ` set (db_identities ?db)"
      "ac_ID ` set (db_accounts db) \<subseteq> ac_ID ` set (db_accounts ?db)"
    using assms(1) ok ext unfolding identity_ok_def identity_extends_def by blast+
  obtain identity' where i: "lookup_by identity_key (p, s) (db_identities ?db) = Some identity'" "identity_link identity' = identity_link identity"
    using lookup_by_map [OF u(1,2) found(3) sub(1)] by (auto simp: identity_link_def)
  have acc: "oi_AccountID identity' = oi_AccountID identity" using i(2) by (simp add: identity_link_def)
  obtain account' where a: "lookup_by ac_ID (oi_AccountID identity) (db_accounts ?db) = Some account'" "ac_ID account' = ac_ID account"
    using lookup_by_map [OF u(3,4) found(4) sub(2)] by auto
  show ?thesis
    using ok found(1,2) i a acc by (simp add: GetAccountByOAuthIdentity_def accountFromIdentity_def Let_def flip: p_def s_def)
qed

definition two_admins :: identity_db where
  "two_admins = \<lparr> db_accounts = [\<lparr> ac_ID = 1, ac_Role = ''admin'', ac_CreatedAt = 1, ac_UpdatedAt = 1 \<rparr>,
                                \<lparr> ac_ID = 2, ac_Role = ''admin'', ac_CreatedAt = 1, ac_UpdatedAt = 1 \<rparr>],
     db_identities = [\<lparr> oi_ID = 1, oi_AccountID = 1, oi_OAuthProvider = ''github'', oi_OAuthSubject = ''77'', oi_OAuthLogin = ''ann'',
                        oi_CreatedAt = 1, oi_UpdatedAt = 1 \<rparr>], db_audit = [] \<rparr>"

theorem identities_stay_linked_witness:
  "identity_ok (fold run_identity [ChangeRole 5 (\<lambda>_. None) 1 2 ''user'' ''ann''] two_admins)
    \<and> (\<exists>account' identity'. GetAccountByOAuthIdentity ''github'' ''77'' (fold run_identity [ChangeRole 5 (\<lambda>_. None) 1 2 ''user'' ''ann''] two_admins)
          = Inr (account', identity')
        \<and> ac_ID account' = ac_ID (hd (db_accounts two_admins)) \<and> identity_link identity' = identity_link (hd (db_identities two_admins)))"
proof (rule identities_stay_linked)
  show "identity_ok two_admins" by code_simp
  show "GetAccountByOAuthIdentity ''github'' ''77'' two_admins = Inr (hd (db_accounts two_admins), hd (db_identities two_admins))" by code_simp
qed

subsection \<open>Role changes\<close>

lemma retry_transaction_cases:
  assumes "\<And>s s' e. tx s = (s', Inl e) \<Longrightarrow> s' = s" "retry_transaction n k fault tx s e0 = (s', r)"
  shows "(s' = s \<and> (\<exists>e. r = Inl e)) \<or> (tx s = (s', r) \<and> (\<exists>x. r = Inr x))"
  using assms(2)
proof (induction n arbitrary: k e0)
  case (Suc n)
  show ?case
  proof (cases "fault k")
    case (Some e)
    then show ?thesis using Suc by (auto split: if_splits)
  next
    case None
    obtain s1 r1 where tx: "tx s = (s1, r1)" by force
    show ?thesis
    proof (cases r1)
      case (Inl e)
      then have "s1 = s" using assms(1) tx by blast
      then show ?thesis using None tx Inl Suc by (auto split: if_splits)
    qed (use None tx Suc.prems in auto)
  qed
qed auto

lemma updateAccountRole_error: "updateAccountRoleWithAuditOnce now actor target role who db = (db', Inl e) \<Longrightarrow> db' = db"
  using updateAccountRole_cases [of now actor target role who db db' "Inl e"] by auto

lemma updateAccountRole_success:
  assumes "updateAccountRoleWithAuditOnce now actor target role who db = (db', Inr a)"
  obtains act t where "lookup_by ac_ID actor (db_accounts db) = Some act" "ac_Role act = ''admin''"
    "lookup_by ac_ID target (db_accounts db) = Some t" "ac_ID t \<noteq> ac_ID act" "ac_ID a = target" "ac_Role a = role"
    "(ac_Role t = role \<and> db' = db) \<or> (ac_Role t \<noteq> role \<and> db' = fst (appendAuditEvent now (role_event now who role t)
          (db \<lparr> db_accounts := update_where (\<lambda>r. ac_ID r = ac_ID t \<and> ac_Role r = ac_Role t)
            (\<lambda>r. r \<lparr> ac_Role := role, ac_UpdatedAt := now \<rparr>) (db_accounts db) \<rparr>)))"
  using assms unfolding updateAccountRoleWithAuditOnce_def
  by (auto simp: Let_def split: option.splits if_splits prod.splits dest: lookup_by_in)

lemma admin_count_pos: "1 \<le> admin_count db \<longleftrightarrow> (\<exists>r\<in>set (db_accounts db). ac_Role r = ''admin'')"
  by (induction "db_accounts db" arbitrary: db rule: list.induct)
     (auto simp: admin_count_def count_rows_def filter_empty_conv Suc_le_eq)

text \<open>A role change gives the account \<open>t\<close> its new role, leaves the other rows alone and makes one entry.\<close>

definition role_changed :: "instant \<Rightarrow> string \<Rightarrow> string \<Rightarrow> accountRecord \<Rightarrow> identity_db \<Rightarrow> identity_db \<Rightarrow> bool" where
  "role_changed now who role t db db' \<longleftrightarrow>
     (\<exists>target e. target = ac_ID t \<and> lookup_by ac_ID target (db_accounts db') = Some (t \<lparr> ac_Role := role, ac_UpdatedAt := now \<rparr>)
        \<and> filter (\<lambda>r. ac_ID r \<noteq> target) (db_accounts db') = filter (\<lambda>r. ac_ID r \<noteq> target) (db_accounts db)
        \<and> db_identities db' = db_identities db \<and> db_audit db' = db_audit db @ [e]
        \<and> au_Actor e = who \<and> au_Action e = ''account.role.update'' \<and> au_ResourceID e = TrimSpace (int_dec target)
        \<and> au_PayloadJSON e = role_payload (ac_Role t) role)"

lemma filter_update_other: "filter (\<lambda>r. ac_ID r \<noteq> t) (update_where (\<lambda>r. ac_ID r = t \<and> Q r) (\<lambda>r. r \<lparr> ac_Role := x, ac_UpdatedAt := y \<rparr>) tbl)
    = filter (\<lambda>r. ac_ID r \<noteq> t) tbl"
  by (induction tbl) (auto simp: update_where_def)

lemma lookup_by_update:
  "lookup_by ac_ID i tbl = Some t \<Longrightarrow> lookup_by ac_ID i (update_where (\<lambda>r. ac_ID r = i \<and> ac_Role r = ac_Role t) (\<lambda>r. r \<lparr> ac_Role := x, ac_UpdatedAt := y \<rparr>) tbl)
    = Some (t \<lparr> ac_Role := x, ac_UpdatedAt := y \<rparr>)"
  by (induction tbl) (auto simp: lookup_by_def update_where_def)

text \<open>C27: \<open>UpdateAccountRoleWithAudit\<close>, the way in which administrators change roles, is carried out for an
  administrator only, never on one's own account, and with an entry in the audit log in the same
  transaction: when the change fails - a fault of the database in the middle included - no table
  changes; when it succeeds and the account had the role already, nothing changes; when it succeeds and
  the role was another one, the account has the new role, exactly one entry naming the actor, the account
  and both roles is added and no other account changes. An administrator always remains. (The
  roles that the configuration gives at the start of the service are written by
  \<open>UpsertAccountForOAuthIdentity\<close>, which neither asks for an administrator nor makes an entry.)\<close>
theorem role_change_audited:
  assumes "UpdateAccountRoleWithAudit now fault actor target role who db = (db', r)"
  shows "(case r of Inl _ \<Rightarrow> db' = db
      | Inr a \<Rightarrow> actor \<noteq> target \<and> ac_ID a = target \<and> ac_Role a = normalizePlatformRole role
          \<and> (\<exists>act. lookup_by ac_ID actor (db_accounts db) = Some act \<and> ac_Role act = ''admin'')
          \<and> (\<exists>t. lookup_by ac_ID target (db_accounts db) = Some t
               \<and> (if ac_Role t = normalizePlatformRole role then db' = db
                  else role_changed now (TrimSpace who) (normalizePlatformRole role) t db db')))
    \<and> (1 \<le> admin_count db \<longrightarrow> 1 \<le> admin_count db')"
proof (cases r)
  case (Inl e)
  have "db' = db"
    using assms retry_transaction_cases [OF updateAccountRole_error] unfolding UpdateAccountRoleWithAudit_def Inl
    by (fastforce simp: Let_def split: if_splits)
  then show ?thesis by (simp add: Inl)
next
  case (Inr a)
  let ?role = "normalizePlatformRole role" and ?who = "TrimSpace who"
  have ne: "actor \<noteq> target" and once: "updateAccountRoleWithAuditOnce now actor target ?role ?who db = (db', Inr a)"
    using assms retry_transaction_cases [OF updateAccountRole_error] unfolding UpdateAccountRoleWithAudit_def Inr
    by (fastforce simp: Let_def split: if_splits)+
  obtain act t where act: "lookup_by ac_ID actor (db_accounts db) = Some act" "ac_Role act = ''admin''"
    and t: "lookup_by ac_ID target (db_accounts db) = Some t" "ac_ID t \<noteq> ac_ID act"
    and a: "ac_ID a = target" "ac_Role a = ?role"
    and db': "(ac_Role t = ?role \<and> db' = db) \<or> (ac_Role t \<noteq> ?role \<and> db' = fst (appendAuditEvent now (role_event now ?who ?role t)
          (db \<lparr> db_accounts := update_where (\<lambda>r. ac_ID r = ac_ID t \<and> ac_Role r = ac_Role t)
            (\<lambda>r. r \<lparr> ac_Role := ?role, ac_UpdatedAt := now \<rparr>) (db_accounts db) \<rparr>)))"
    using once by (rule updateAccountRole_success)
  have tid: "ac_ID t = target" using lookup_by_in [OF t(1)] by simp
  have changed: "role_changed now ?who ?role t db db'" if "ac_Role t \<noteq> ?role"
  proof -
    have eq: "db' = fst (appendAuditEvent now (role_event now ?who ?role t)
          (db \<lparr> db_accounts := update_where (\<lambda>r. ac_ID r = ac_ID t \<and> ac_Role r = ac_Role t)
            (\<lambda>r. r \<lparr> ac_Role := ?role, ac_UpdatedAt := now \<rparr>) (db_accounts db) \<rparr>))"
      using db' that by auto
    then show ?thesis
      using tid filter_update_other [of target] lookup_by_update [OF t(1)] unfolding role_changed_def
      by (simp add: appendAuditEvent_def role_event_def Let_def TrimSpace_id trimmed_def is_space_def)
  qed
  have admin: "\<exists>r\<in>set (db_accounts db'). ac_Role r = ''admin''"
  proof -
    have "act \<in> set (db_accounts db)" using lookup_by_in [OF act(1)] by simp
    then have "act \<in> set (db_accounts db')" using db' t(2) by (auto simp: set_update_where)
    then show ?thesis using act(2) by blast
  qed
  show ?thesis
    unfolding Inr using ne a act t(1) db' changed admin by (auto simp: admin_count_pos)
qed

theorem role_change_audited_witness:
  "\<exists>t. lookup_by ac_ID 2 (db_accounts two_admins) = Some t
     \<and> role_changed 5 ''ann'' ''user'' t two_admins (fst (UpdateAccountRoleWithAudit 5 (\<lambda>_. None) 1 2 ''user'' ''ann'' two_admins))
     \<and> 1 \<le> admin_count (fst (UpdateAccountRoleWithAudit 5 (\<lambda>_. None) 1 2 ''user'' ''ann'' two_admins))"
proof -
  have a: "1 \<le> admin_count two_admins" by code_simp
  have n: "normalizePlatformRole ''user'' = ''user''" "TrimSpace ''ann'' = ''ann''" by code_simp+
  have "case snd (UpdateAccountRoleWithAudit 5 (\<lambda>_. None) 1 2 ''user'' ''ann'' two_admins) of Inl _ \<Rightarrow> False | Inr _ \<Rightarrow> True" by code_simp
  moreover have "case lookup_by ac_ID 2 (db_accounts two_admins) of None \<Rightarrow> False | Some t \<Rightarrow> ac_Role t \<noteq> ''user''" by code_simp
  ultimately show ?thesis
    using role_change_audited [OF prod.collapse [symmetric], of 5 "\<lambda>_. None" 1 2 "''user''" "''ann''" two_admins] a
    by (auto simp: n split: sum.splits option.splits)
qed

end
