(* ===== verification/Installations.thy ===== *)
theory Installations
  imports Accounts
begin

text \<open>
  The GitHub installations that accounts have linked and the owners behind them:
  \<^verbatim>\<open>internal/state/github_installations.go\<close>, and the scope of runner profiles that an installation
  maps to (\<^verbatim>\<open>server_runner_profile_scope.go\<close>).
\<close>

record githubInstallationRecord =
  gi_ID :: int
  gi_AccountID :: int
  gi_InstallationID :: int
  gi_GitHubAccountID :: int
  gi_AccountType :: string
  gi_AccountLogin :: string
  gi_AccountName :: string
  gi_AccountAvatar :: string
  gi_CreatedAt :: instant
  gi_UpdatedAt :: instant

record githubInstallationOwnerRecord =
  gw_InstallationID :: int
  gw_GitHubAccountID :: int
  gw_AccountType :: string
  gw_AccountLogin :: string
  gw_AccountName :: string
  gw_AccountAvatar :: string
  gw_CreatedAt :: instant
  gw_UpdatedAt :: instant

record GitHubInstallationAccount =
  gt_GitHubAccountID :: int
  gt_AccountType :: string
  gt_AccountLogin :: string
  gt_AccountName :: string
  gt_AccountAvatar :: string

record GitHubInstallation =
  gn_record :: githubInstallationRecord
  gn_Repositories :: "string list"

record installation_db =
  in_installations :: "githubInstallationRecord list"
  in_owners :: "githubInstallationOwnerRecord list"

definition normalizeGitHubAccountType :: "string \<Rightarrow> string" where
  "normalizeGitHubAccountType value =
     (let v = ToLower (TrimSpace value)
      in if v = ''user'' then ''user'' else if v = ''organization'' \<or> v = ''org'' then ''organization'' else [])"

definition normalizeRepositories :: "string list \<Rightarrow> string list" where
  "normalizeRepositories repositories =
     keep_first (\<lambda>r. r = [] \<or> Contains r ''*'' \<or> \<not> Contains r ''/'') [] (map TrimSpace repositories)"

definition recordToGitHubInstallation :: "githubInstallationRecord \<Rightarrow> string list \<Rightarrow> GitHubInstallation" where
  "recordToGitHubInstallation r repositories =
     \<lparr> gn_record = r \<lparr> gi_AccountType := normalizeGitHubAccountType (gi_AccountType r) \<rparr>, gn_Repositories = normalizeRepositories repositories \<rparr>"

definition recordToGitHubInstallationAccount :: "githubInstallationRecord \<Rightarrow> GitHubInstallationAccount" where
  "recordToGitHubInstallationAccount r =
     \<lparr> gt_GitHubAccountID = gi_GitHubAccountID r, gt_AccountType = normalizeGitHubAccountType (gi_AccountType r),
       gt_AccountLogin = gi_AccountLogin r, gt_AccountName = gi_AccountName r, gt_AccountAvatar = gi_AccountAvatar r \<rparr>"

definition ownerRecordToGitHubInstallationAccount :: "githubInstallationOwnerRecord \<Rightarrow> GitHubInstallationAccount" where
  "ownerRecordToGitHubInstallationAccount r =
     \<lparr> gt_GitHubAccountID = gw_GitHubAccountID r, gt_AccountType = normalizeGitHubAccountType (gw_AccountType r),
       gt_AccountLogin = gw_AccountLogin r, gt_AccountName = gw_AccountName r, gt_AccountAvatar = gw_AccountAvatar r \<rparr>"

text \<open>The repositories of the requests of an installation, as \<open>GROUP BY\<close> and \<open>ORDER BY\<close> give them.\<close>

definition installation_repositories :: "githubInstallationRecord list \<Rightarrow> requests_table \<Rightarrow> int \<Rightarrow> string list" where
  "installation_repositories records requests installationID =
     (if installationID \<in> set (uniquePositiveInt64s (map gi_InstallationID records))
      then sort_key id (remdups (map rr_RepositoryFullName
        (filter (\<lambda>r. rr_GitHubInstallationID r = installationID \<and> rr_RepositoryFullName r \<noteq> []) requests)))
      else [])"

definition repositoriesForGitHubInstallations :: "githubInstallationRecord list \<Rightarrow> requests_table \<Rightarrow> int \<Rightarrow> string list" where
  "repositoriesForGitHubInstallations records requests localID =
     (case find (\<lambda>r. gi_ID r = localID) records of
        None \<Rightarrow> []
      | Some r \<Rightarrow> installation_repositories records requests (gi_InstallationID r))"

definition ListGitHubInstallations :: "int \<Rightarrow> requests_table \<Rightarrow> installation_db \<Rightarrow> (GitHubInstallation list) result" where
  "ListGitHubInstallations accountID requests db =
     (if accountID \<le> 0 then Inl ErrNotFound
      else
        let records = sort_key gi_AccountLogin (sort_key gi_InstallationID (filter (\<lambda>r. gi_AccountID r = accountID) (in_installations db)))
        in Inr (map (\<lambda>r. recordToGitHubInstallation r (repositoriesForGitHubInstallations records requests (gi_ID r))) records))"

definition AccountScopeForPersonalGitHubInstallation :: "int \<Rightarrow> identity_db \<Rightarrow> installation_db \<Rightarrow> (int \<times> bool) result" where
  "AccountScopeForPersonalGitHubInstallation installationID identities db =
     (if installationID \<le> 0 then Inl ErrNotFound
      else
        case find (\<lambda>gi. gi_InstallationID gi = installationID \<and> gi_AccountLogin gi \<noteq> []
               \<and> list_ex (\<lambda>oi. oi_AccountID oi = gi_AccountID gi \<and> oi_OAuthProvider oi = ''github''
                    \<and> ToLower (oi_OAuthLogin oi) = ToLower (gi_AccountLogin gi)) (db_identities identities)) (in_installations db) of
          None \<Rightarrow> Inr (0, False)
        | Some gi \<Rightarrow> if gi_AccountID gi \<le> 0 then Inr (0, False) else Inr (gi_AccountID gi, True))"

definition account_key :: "GitHubInstallationAccount \<Rightarrow> string \<times> int" where
  "account_key a = (gt_AccountType a, gt_GitHubAccountID a)"

fun first_by_key :: "(string \<times> int) list \<Rightarrow> GitHubInstallationAccount list \<Rightarrow> GitHubInstallationAccount list" where
  "first_by_key seen [] = []"
| "first_by_key seen (a # as) =
     (if account_key a \<in> set seen then first_by_key seen as else a # first_by_key (account_key a # seen) as)"

definition ListGitHubInstallationAccounts :: "installation_db \<Rightarrow> GitHubInstallationAccount list" where
  "ListGitHubInstallationAccounts db =
     (let records = sort_key (\<lambda>r. (- gi_UpdatedAt r)) (sort_key (\<lambda>r. - gi_ID r)
            (filter (\<lambda>r. gi_GitHubAccountID r > 0 \<and> gi_AccountType r \<noteq> []) (in_installations db)));
          owners = sort_key (\<lambda>r. - gw_UpdatedAt r) (sort_key (\<lambda>r. - gw_InstallationID r) (in_owners db))
      in sort_key (\<lambda>a. ToLower (gt_AccountLogin a))
           (first_by_key [] (map ownerRecordToGitHubInstallationAccount owners @ map recordToGitHubInstallationAccount records)))"

definition GetGitHubInstallationOwner :: "int \<Rightarrow> installation_db \<Rightarrow> GitHubInstallationAccount result" where
  "GetGitHubInstallationOwner installationID db =
     (if installationID \<le> 0 then Inl ErrNotFound
      else case lookup_by gw_InstallationID installationID (in_owners db) of
        None \<Rightarrow> Inl ErrNotFound
      | Some r \<Rightarrow> Inr (ownerRecordToGitHubInstallationAccount r))"

definition owner_columns :: "githubInstallationOwnerRecord \<Rightarrow> githubInstallationOwnerRecord \<Rightarrow> githubInstallationOwnerRecord" where
  "owner_columns new old = old \<lparr> gw_GitHubAccountID := gw_GitHubAccountID new, gw_AccountType := gw_AccountType new,
     gw_AccountLogin := gw_AccountLogin new, gw_AccountName := gw_AccountName new, gw_AccountAvatar := gw_AccountAvatar new,
     gw_UpdatedAt := gw_UpdatedAt new \<rparr>"

definition upsertGitHubInstallationOwner ::
  "instant \<Rightarrow> int \<Rightarrow> GitHubInstallationAccount \<Rightarrow> installation_db \<Rightarrow> error + installation_db \<times> githubInstallationOwnerRecord" where
  "upsertGitHubInstallationOwner now installationID owner db =
     (let accountType = normalizeGitHubAccountType (gt_AccountType owner);
          accountLogin = TrimSpace (gt_AccountLogin owner)
      in if installationID \<le> 0 then Inl (Errorf ''installation_id is required'')
         else if gt_GitHubAccountID owner \<le> 0 \<or> accountType = [] \<or> accountLogin = []
           then Inl (Errorf ''stable github installation owner identity is required'')
         else
           let new = \<lparr> gw_InstallationID = installationID, gw_GitHubAccountID = gt_GitHubAccountID owner, gw_AccountType = accountType,
                 gw_AccountLogin = accountLogin, gw_AccountName = TrimSpace (gt_AccountName owner),
                 gw_AccountAvatar = TrimSpace (gt_AccountAvatar owner), gw_CreatedAt = now, gw_UpdatedAt = now \<rparr>;
               owners = upsert_by gw_InstallationID owner_columns new (in_owners db)
           in case lookup_by gw_InstallationID installationID owners of
                None \<Rightarrow> Inl ErrRecordNotFound
              | Some saved \<Rightarrow> Inr (db \<lparr> in_owners := owners \<rparr>, saved))"

definition UpsertGitHubInstallationOwner ::
  "instant \<Rightarrow> int \<Rightarrow> GitHubInstallationAccount \<Rightarrow> installation_db \<Rightarrow> installation_db \<times> GitHubInstallationAccount result" where
  "UpsertGitHubInstallationOwner now installationID owner db =
     (case upsertGitHubInstallationOwner now installationID owner db of
        Inl e \<Rightarrow> (db, Inl e)
      | Inr (db1, r) \<Rightarrow> (db1, Inr (ownerRecordToGitHubInstallationAccount r)))"

definition usable_owner :: "githubInstallationRecord \<Rightarrow> bool" where
  "usable_owner r \<longleftrightarrow> gi_GitHubAccountID r > 0 \<and> gi_AccountType r \<noteq> []"

definition latest_installation :: "(githubInstallationRecord \<Rightarrow> bool) \<Rightarrow> installation_db \<Rightarrow> githubInstallationRecord option" where
  "latest_installation P db =
     (case sort_key (\<lambda>r. - gi_UpdatedAt r) (sort_key (\<lambda>r. - gi_ID r) (filter P (in_installations db))) of [] \<Rightarrow> None | r # _ \<Rightarrow> Some r)"

definition GitHubInstallationAccountForInstallation :: "int \<Rightarrow> installation_db \<Rightarrow> GitHubInstallationAccount result" where
  "GitHubInstallationAccountForInstallation installationID db =
     (case latest_installation (\<lambda>r. gi_InstallationID r = installationID \<and> usable_owner r) db of
        None \<Rightarrow> Inl ErrNotFound
      | Some r \<Rightarrow> Inr (recordToGitHubInstallationAccount r))"

definition GitHubInstallationAccountForLogin :: "string \<Rightarrow> installation_db \<Rightarrow> GitHubInstallationAccount result" where
  "GitHubInstallationAccountForLogin accountLogin0 db =
     (let accountLogin = TrimSpace accountLogin0
      in if accountLogin = [] then Inl ErrNotFound
         else case latest_installation (\<lambda>r. ToLower (gi_AccountLogin r) = ToLower accountLogin \<and> usable_owner r) db of
           None \<Rightarrow> Inl ErrNotFound
         | Some r \<Rightarrow> Inr (recordToGitHubInstallationAccount r))"

definition GitHubInstallationScopeForAccountLogin :: "string \<Rightarrow> installation_db \<Rightarrow> (int \<times> bool) result" where
  "GitHubInstallationScopeForAccountLogin accountLogin0 db =
     (let accountLogin = TrimSpace accountLogin0
      in if accountLogin = [] then Inl ErrNotFound
         else case sort_key (\<lambda>r. - gi_UpdatedAt r) (sort_key gi_InstallationID
                     (filter (\<lambda>r. ToLower (gi_AccountLogin r) = ToLower accountLogin) (in_installations db))) of
           [] \<Rightarrow> Inr (0, False)
         | r # _ \<Rightarrow> Inr (gi_InstallationID r, True))"

definition installation_key :: "githubInstallationRecord \<Rightarrow> int \<times> int" where
  "installation_key r = (gi_AccountID r, gi_InstallationID r)"

definition installation_columns :: "githubInstallationRecord \<Rightarrow> githubInstallationRecord \<Rightarrow> githubInstallationRecord" where
  "installation_columns new old = old \<lparr> gi_GitHubAccountID := gi_GitHubAccountID new, gi_AccountType := gi_AccountType new,
     gi_AccountLogin := gi_AccountLogin new, gi_AccountName := gi_AccountName new, gi_AccountAvatar := gi_AccountAvatar new,
     gi_UpdatedAt := gi_UpdatedAt new \<rparr>"

definition UpsertGitHubInstallation ::
  "instant \<Rightarrow> githubInstallationRecord \<Rightarrow> installation_db \<Rightarrow> installation_db \<times> GitHubInstallation result" where
  "UpsertGitHubInstallation now installation db =
     (if gi_AccountID installation \<le> 0 then (db, Inl (Errorf ''account_id is required''))
      else if gi_InstallationID installation \<le> 0 then (db, Inl (Errorf ''installation_id is required''))
      else
        let new = \<lparr> gi_ID = fresh_id (map gi_ID (in_installations db)), gi_AccountID = gi_AccountID installation,
              gi_InstallationID = gi_InstallationID installation, gi_GitHubAccountID = gi_GitHubAccountID installation,
              gi_AccountType = normalizeGitHubAccountType (gi_AccountType installation), gi_AccountLogin = TrimSpace (gi_AccountLogin installation),
              gi_AccountName = TrimSpace (gi_AccountName installation), gi_AccountAvatar = TrimSpace (gi_AccountAvatar installation),
              gi_CreatedAt = now, gi_UpdatedAt = now \<rparr>;
            db1 = db \<lparr> in_installations := upsert_by installation_key installation_columns new (in_installations db) \<rparr>
        in case (if gi_GitHubAccountID new > 0 \<and> gi_AccountType new \<noteq> [] \<and> gi_AccountLogin new \<noteq> []
                 then (case upsertGitHubInstallationOwner now (gi_InstallationID installation) (recordToGitHubInstallationAccount new) db1 of
                         Inl e \<Rightarrow> Inl e | Inr (d, _) \<Rightarrow> Inr d)
                 else Inr db1) of
             Inl e \<Rightarrow> (db, Inl e)
           | Inr db2 \<Rightarrow>
               (case lookup_by installation_key (installation_key new) (in_installations db2) of
                  None \<Rightarrow> (db2, Inl ErrRecordNotFound)
                | Some r \<Rightarrow> (db2, Inr (recordToGitHubInstallation r []))))"

definition DeleteGitHubInstallation :: "int \<Rightarrow> int \<Rightarrow> installation_db \<Rightarrow> installation_db \<times> unit result" where
  "DeleteGitHubInstallation accountID i db =
     (if accountID \<le> 0 \<or> i \<le> 0 then (db, Inl ErrNotFound)
      else
        let hit = (\<lambda>r. gi_AccountID r = accountID \<and> gi_ID r = i)
        in if rows_affected hit (in_installations db) = 0 then (db, Inl ErrNotFound)
           else (db \<lparr> in_installations := delete_where hit (in_installations db) \<rparr>, Inr ()))"

definition runnerProfileScopeForInstallation :: "int \<Rightarrow> identity_db \<Rightarrow> installation_db \<Rightarrow> (RunnerProfileScope option) result" where
  "runnerProfileScopeForInstallation installationID identities db =
     (if installationID \<le> 0 then Inr None
      else case AccountScopeForPersonalGitHubInstallation installationID identities db of
        Inl e \<Rightarrow> Inl e
      | Inr (accountID, ok) \<Rightarrow>
          if ok \<and> accountID > 0 then Inr (Some \<lparr> sc_Type = RunnerProfileScopeAccount, sc_ID = accountID \<rparr>)
          else (case GetGitHubInstallationOwner installationID db of
                  Inl e \<Rightarrow> if e \<noteq> ErrNotFound then Inl e else Inr None
                | Inr owner \<Rightarrow>
                    if gt_AccountType owner = ''Organization'' \<or> gt_AccountType owner = ''organization''
                    then Inr (Some \<lparr> sc_Type = RunnerProfileScopeGitHubInstallation, sc_ID = installationID \<rparr>)
                    else Inr None))"

interpretation owners: keyed_table gw_InstallationID owner_columns
  by unfold_locales (simp add: owner_columns_def)

interpretation installations: keyed_table installation_key installation_columns
  by unfold_locales (simp add: installation_key_def installation_columns_def)

end
