(* ===== verification/Settings.thy ===== *)
theory Settings
  imports Installations
begin

text \<open>
  The settings of accounts and installations and the default of the administrators:
  \<^verbatim>\<open>internal/state/account_preferences.go\<close>, \<^verbatim>\<open>account_secrets.go\<close> and \<^verbatim>\<open>sandbox_service_defaults.go\<close>.
  Values are opaque texts here; the sandbox component gives the ones it reads their meaning.
\<close>

subsection \<open>Preferences and secrets\<close>

record AccountPreference =
  ap_ID :: int
  ap_ScopeType :: string
  ap_ScopeID :: int
  ap_Namespace :: string
  ap_Key :: string
  ap_ValueJSON :: string
  ap_CreatedAt :: instant
  ap_UpdatedAt :: instant

record AccountSecret =
  as_ID :: int
  as_ScopeType :: string
  as_ScopeID :: int
  as_KeyType :: string
  as_EncryptedValue :: string
  as_CreatedAt :: instant
  as_UpdatedAt :: instant

record settings_db =
  se_preferences :: "AccountPreference list"
  se_secrets :: "AccountSecret list"

definition normalizeAccountScopeType :: "string \<Rightarrow> string" where
  "normalizeAccountScopeType scopeType = ToLower (TrimSpace scopeType)"

definition normalizeAccountPreferencePart :: "string \<Rightarrow> string" where
  "normalizeAccountPreferencePart value = ToLower (TrimSpace value)"

definition normalizeAccountSecretKeyType :: "string \<Rightarrow> string" where
  "normalizeAccountSecretKeyType keyType = ToLower (TrimSpace keyType)"

definition preference_key :: "AccountPreference \<Rightarrow> string \<times> int \<times> string \<times> string" where
  "preference_key r = (ap_ScopeType r, ap_ScopeID r, ap_Namespace r, ap_Key r)"

definition secret_key :: "AccountSecret \<Rightarrow> string \<times> int \<times> string" where
  "secret_key r = (as_ScopeType r, as_ScopeID r, as_KeyType r)"

definition preference_columns :: "AccountPreference \<Rightarrow> AccountPreference \<Rightarrow> AccountPreference" where
  "preference_columns new old = old \<lparr> ap_ValueJSON := ap_ValueJSON new, ap_UpdatedAt := ap_UpdatedAt new \<rparr>"

definition secret_columns :: "AccountSecret \<Rightarrow> AccountSecret \<Rightarrow> AccountSecret" where
  "secret_columns new old = old \<lparr> as_EncryptedValue := as_EncryptedValue new, as_UpdatedAt := as_UpdatedAt new \<rparr>"

definition GetAccountPreference :: "string \<Rightarrow> int \<Rightarrow> string \<Rightarrow> string \<Rightarrow> settings_db \<Rightarrow> AccountPreference result" where
  "GetAccountPreference scopeType0 scopeID namespace0 key0 db =
     (let scopeType = normalizeAccountScopeType scopeType0; ns = normalizeAccountPreferencePart namespace0;
          key = normalizeAccountPreferencePart key0
      in if scopeType = [] \<or> scopeID \<le> 0 \<or> ns = [] \<or> key = [] then Inl ErrNotFound
         else case lookup_by preference_key (scopeType, scopeID, ns, key) (se_preferences db) of
           None \<Rightarrow> Inl ErrNotFound | Some r \<Rightarrow> Inr r)"

definition DeleteAccountPreference :: "string \<Rightarrow> int \<Rightarrow> string \<Rightarrow> string \<Rightarrow> settings_db \<Rightarrow> settings_db \<times> unit result" where
  "DeleteAccountPreference scopeType0 scopeID namespace0 key0 db =
     (let scopeType = normalizeAccountScopeType scopeType0; ns = normalizeAccountPreferencePart namespace0;
          key = normalizeAccountPreferencePart key0;
          hit = (\<lambda>r. preference_key r = (scopeType, scopeID, ns, key))
      in if scopeType = [] \<or> scopeID \<le> 0 \<or> ns = [] \<or> key = [] then (db, Inl ErrNotFound)
         else if rows_affected hit (se_preferences db) = 0 then (db, Inl ErrNotFound)
         else (db \<lparr> se_preferences := delete_where hit (se_preferences db) \<rparr>, Inr ()))"

definition upsertAccountPreference :: "instant \<Rightarrow> AccountPreference \<Rightarrow> settings_db \<Rightarrow> error + settings_db \<times> AccountPreference" where
  "upsertAccountPreference now preference db =
     (let scopeType = normalizeAccountScopeType (ap_ScopeType preference);
          ns = normalizeAccountPreferencePart (ap_Namespace preference);
          key = normalizeAccountPreferencePart (ap_Key preference);
          valueJSON = TrimSpace (ap_ValueJSON preference)
      in if scopeType = [] then Inl (Errorf ''scope_type is required'')
         else if ap_ScopeID preference \<le> 0 then Inl (Errorf ''scope_id is required'')
         else if ns = [] then Inl (Errorf ''namespace is required'')
         else if key = [] then Inl (Errorf ''key is required'')
         else if valueJSON = [] then Inl (Errorf ''value_json is required'')
         else
           let new = \<lparr> ap_ID = fresh_id (map ap_ID (se_preferences db)), ap_ScopeType = scopeType, ap_ScopeID = ap_ScopeID preference,
                 ap_Namespace = ns, ap_Key = key, ap_ValueJSON = valueJSON, ap_CreatedAt = now, ap_UpdatedAt = now \<rparr>;
               rows = upsert_by preference_key preference_columns new (se_preferences db)
           in case lookup_by preference_key (preference_key new) rows of
                None \<Rightarrow> Inl ErrRecordNotFound
              | Some saved \<Rightarrow> Inr (db \<lparr> se_preferences := rows \<rparr>, saved))"

definition GetAccountSecret :: "string \<Rightarrow> int \<Rightarrow> string \<Rightarrow> settings_db \<Rightarrow> AccountSecret result" where
  "GetAccountSecret scopeType0 scopeID keyType0 db =
     (let scopeType = normalizeAccountScopeType scopeType0; keyType = normalizeAccountSecretKeyType keyType0
      in if scopeType = [] \<or> scopeID \<le> 0 \<or> keyType = [] then Inl ErrNotFound
         else case lookup_by secret_key (scopeType, scopeID, keyType) (se_secrets db) of
           None \<Rightarrow> Inl ErrNotFound | Some r \<Rightarrow> Inr r)"

definition upsertAccountSecret :: "instant \<Rightarrow> AccountSecret \<Rightarrow> settings_db \<Rightarrow> error + settings_db \<times> AccountSecret" where
  "upsertAccountSecret now secret db =
     (let scopeType = normalizeAccountScopeType (as_ScopeType secret);
          keyType = normalizeAccountSecretKeyType (as_KeyType secret);
          encryptedValue = TrimSpace (as_EncryptedValue secret)
      in if scopeType = [] then Inl (Errorf ''scope_type is required'')
         else if as_ScopeID secret \<le> 0 then Inl (Errorf ''scope_id is required'')
         else if keyType = [] then Inl (Errorf ''key_type is required'')
         else if encryptedValue = [] then Inl (Errorf ''encrypted_value is required'')
         else
           let new = \<lparr> as_ID = fresh_id (map as_ID (se_secrets db)), as_ScopeType = scopeType, as_ScopeID = as_ScopeID secret,
                 as_KeyType = keyType, as_EncryptedValue = encryptedValue, as_CreatedAt = now, as_UpdatedAt = now \<rparr>;
               rows = upsert_by secret_key secret_columns new (se_secrets db)
           in case lookup_by secret_key (secret_key new) rows of
                None \<Rightarrow> Inl ErrRecordNotFound
              | Some saved \<Rightarrow> Inr (db \<lparr> se_secrets := rows \<rparr>, saved))"

definition deleteAccountSecret :: "string \<Rightarrow> int \<Rightarrow> string \<Rightarrow> settings_db \<Rightarrow> error + settings_db" where
  "deleteAccountSecret scopeType0 scopeID keyType0 db =
     (let scopeType = normalizeAccountScopeType scopeType0; keyType = normalizeAccountSecretKeyType keyType0;
          hit = (\<lambda>r. secret_key r = (scopeType, scopeID, keyType))
      in if scopeType = [] \<or> scopeID \<le> 0 \<or> keyType = [] then Inl ErrNotFound
         else if rows_affected hit (se_secrets db) = 0 then Inl ErrNotFound
         else Inr (db \<lparr> se_secrets := delete_where hit (se_secrets db) \<rparr>))"

text \<open>A transaction: the tables stay as they were when it fails.\<close>

definition transaction :: "'s \<Rightarrow> (error + 's \<times> 'a) \<Rightarrow> 's \<times> 'a result" where
  "transaction db outcome = (case outcome of Inl e \<Rightarrow> (db, Inl e) | Inr (db', x) \<Rightarrow> (db', Inr x))"

definition UpsertAccountPreference :: "instant \<Rightarrow> AccountPreference \<Rightarrow> settings_db \<Rightarrow> settings_db \<times> AccountPreference result" where
  "UpsertAccountPreference now preference db = transaction db (upsertAccountPreference now preference db)"

definition UpsertAccountSecret :: "instant \<Rightarrow> AccountSecret \<Rightarrow> settings_db \<Rightarrow> settings_db \<times> AccountSecret result" where
  "UpsertAccountSecret now secret db = transaction db (upsertAccountSecret now secret db)"

definition DeleteAccountSecret :: "string \<Rightarrow> int \<Rightarrow> string \<Rightarrow> settings_db \<Rightarrow> settings_db \<times> unit result" where
  "DeleteAccountSecret scopeType scopeID keyType db =
     transaction db (case deleteAccountSecret scopeType scopeID keyType db of Inl e \<Rightarrow> Inl e | Inr db1 \<Rightarrow> Inr (db1, ()))"

fun upsert_secrets :: "instant \<Rightarrow> AccountSecret list \<Rightarrow> settings_db \<Rightarrow> error + settings_db" where
  "upsert_secrets now [] db = Inr db"
| "upsert_secrets now (s # ss) db = (case upsertAccountSecret now s db of Inl e \<Rightarrow> Inl e | Inr (db1, _) \<Rightarrow> upsert_secrets now ss db1)"

definition UpsertAccountPreferenceAndSecrets ::
  "instant \<Rightarrow> AccountPreference \<Rightarrow> AccountSecret list \<Rightarrow> settings_db \<Rightarrow> settings_db \<times> AccountPreference result" where
  "UpsertAccountPreferenceAndSecrets now preference secrets db =
     transaction db (case upsertAccountPreference now preference db of
        Inl e \<Rightarrow> Inl e
      | Inr (db1, saved) \<Rightarrow> (case upsert_secrets now secrets db1 of Inl e \<Rightarrow> Inl e | Inr db2 \<Rightarrow> Inr (db2, saved)))"

definition UpsertAccountPreferenceAndSecret ::
  "instant \<Rightarrow> AccountPreference \<Rightarrow> AccountSecret option \<Rightarrow> settings_db \<Rightarrow> settings_db \<times> (AccountPreference \<times> AccountSecret option) result" where
  "UpsertAccountPreferenceAndSecret now preference secret db =
     transaction db (case upsertAccountPreference now preference db of
        Inl e \<Rightarrow> Inl e
      | Inr (db1, saved) \<Rightarrow>
          (case secret of
             None \<Rightarrow> Inr (db1, saved, None)
           | Some s \<Rightarrow> (case upsertAccountSecret now s db1 of Inl e \<Rightarrow> Inl e | Inr (db2, savedSecret) \<Rightarrow> Inr (db2, saved, Some savedSecret))))"

definition UpsertAccountPreferenceAndDeleteSecret ::
  "instant \<Rightarrow> AccountPreference \<Rightarrow> AccountSecret \<Rightarrow> settings_db \<Rightarrow> settings_db \<times> AccountPreference result" where
  "UpsertAccountPreferenceAndDeleteSecret now preference secret db =
     transaction db (case upsertAccountPreference now preference db of
        Inl e \<Rightarrow> Inl e
      | Inr (db1, saved) \<Rightarrow>
          (case deleteAccountSecret (as_ScopeType secret) (as_ScopeID secret) (as_KeyType secret) db1 of
             Inl e \<Rightarrow> if e = ErrNotFound then Inr (db1, saved) else Inl e
           | Inr db2 \<Rightarrow> Inr (db2, saved)))"

subsection \<open>The default of the administrators\<close>

record SandboxServiceDefault =
  sd_ID :: int
  sd_Enabled :: bool
  sd_AudienceMode :: string
  sd_APIURL :: string
  sd_APIKeyEncrypted :: string
  sd_APIKeyUpdatedAt :: "instant option"
  sd_CreatedAt :: instant
  sd_UpdatedAt :: instant

record SandboxServiceDefaultAudience =
  da_ID :: int
  da_GitHubAccountID :: int
  da_AccountType :: string
  da_AccountLogin :: string
  da_AccountName :: string
  da_AccountAvatar :: string
  da_CreatedAt :: instant
  da_UpdatedAt :: instant

record default_db =
  df_defaults :: "SandboxServiceDefault list"
  df_audiences :: "SandboxServiceDefaultAudience list"

definition sandboxServiceDefaultID :: int where
  "sandboxServiceDefaultID = 1"

definition SandboxServiceDefaultAudienceModeAll :: string where
  "SandboxServiceDefaultAudienceModeAll = ''all''"

definition SandboxServiceDefaultAudienceModeSelected :: string where
  "SandboxServiceDefaultAudienceModeSelected = ''selected''"

definition normalizeSandboxServiceDefaultAudienceMode :: "string \<Rightarrow> string" where
  "normalizeSandboxServiceDefaultAudienceMode value =
     (if EqualFold (TrimSpace value) SandboxServiceDefaultAudienceModeSelected then SandboxServiceDefaultAudienceModeSelected
      else SandboxServiceDefaultAudienceModeAll)"

definition recordToSandboxServiceDefault :: "SandboxServiceDefault \<Rightarrow> SandboxServiceDefault" where
  "recordToSandboxServiceDefault r = r \<lparr> sd_AudienceMode := normalizeSandboxServiceDefaultAudienceMode (sd_AudienceMode r) \<rparr>"

definition GetSandboxServiceDefault :: "default_db \<Rightarrow> SandboxServiceDefault result" where
  "GetSandboxServiceDefault db =
     (case lookup_by sd_ID sandboxServiceDefaultID (df_defaults db) of
        None \<Rightarrow> Inl ErrNotFound | Some r \<Rightarrow> Inr (recordToSandboxServiceDefault r))"

definition default_columns :: "SandboxServiceDefault \<Rightarrow> SandboxServiceDefault \<Rightarrow> SandboxServiceDefault" where
  "default_columns new old =
     (let r = old \<lparr> sd_Enabled := sd_Enabled new, sd_AudienceMode := sd_AudienceMode new, sd_APIURL := sd_APIURL new, sd_UpdatedAt := sd_UpdatedAt new \<rparr>
      in if sd_APIKeyEncrypted new \<noteq> []
         then r \<lparr> sd_APIKeyEncrypted := sd_APIKeyEncrypted new, sd_APIKeyUpdatedAt := sd_APIKeyUpdatedAt new \<rparr> else r)"

definition UpsertSandboxServiceDefault :: "instant \<Rightarrow> SandboxServiceDefault \<Rightarrow> default_db \<Rightarrow> default_db \<times> SandboxServiceDefault result" where
  "UpsertSandboxServiceDefault now config db =
     (let key = TrimSpace (sd_APIKeyEncrypted config);
          new = \<lparr> sd_ID = sandboxServiceDefaultID, sd_Enabled = sd_Enabled config,
            sd_AudienceMode = normalizeSandboxServiceDefaultAudienceMode (sd_AudienceMode config), sd_APIURL = TrimSpace (sd_APIURL config),
            sd_APIKeyEncrypted = key,
            sd_APIKeyUpdatedAt = (if key \<noteq> [] \<and> sd_APIKeyUpdatedAt config = None then Some now else sd_APIKeyUpdatedAt config),
            sd_CreatedAt = now, sd_UpdatedAt = now \<rparr>;
          rows = upsert_by sd_ID default_columns new (df_defaults db)
      in case lookup_by sd_ID sandboxServiceDefaultID rows of
           None \<Rightarrow> (db \<lparr> df_defaults := rows \<rparr>, Inl ErrRecordNotFound)
         | Some r \<Rightarrow> (db \<lparr> df_defaults := rows \<rparr>, Inr (recordToSandboxServiceDefault r)))"

definition UpdateSandboxServiceDefaultPreservingAPIKey ::
  "instant \<Rightarrow> SandboxServiceDefault \<Rightarrow> default_db \<Rightarrow> default_db \<times> SandboxServiceDefault result" where
  "UpdateSandboxServiceDefaultPreservingAPIKey now config db =
     (let hit = (\<lambda>r. sd_ID r = sandboxServiceDefaultID \<and> sd_APIKeyEncrypted r \<noteq> []);
          rows = update_where hit (\<lambda>r. r \<lparr> sd_Enabled := sd_Enabled config,
            sd_AudienceMode := normalizeSandboxServiceDefaultAudienceMode (sd_AudienceMode config),
            sd_APIURL := TrimSpace (sd_APIURL config), sd_UpdatedAt := now \<rparr>) (df_defaults db);
          db1 = db \<lparr> df_defaults := rows \<rparr>
      in if rows_affected hit (df_defaults db) = 0
            \<and> (case lookup_by sd_ID sandboxServiceDefaultID (df_defaults db) of None \<Rightarrow> True | Some r \<Rightarrow> TrimSpace (sd_APIKeyEncrypted r) = [])
         then (db1, Inl ErrSandboxServiceDefaultAPIKeyRequired)
         else case lookup_by sd_ID sandboxServiceDefaultID rows of
             None \<Rightarrow> (db1, Inl ErrRecordNotFound)
           | Some r \<Rightarrow> (db1, Inr (recordToSandboxServiceDefault r)))"

definition DeleteSandboxServiceDefaultAPIKey :: "instant \<Rightarrow> default_db \<Rightarrow> default_db" where
  "DeleteSandboxServiceDefaultAPIKey now db =
     db \<lparr> df_defaults := update_where (\<lambda>r. sd_ID r = sandboxServiceDefaultID)
       (\<lambda>r. r \<lparr> sd_APIKeyEncrypted := [], sd_APIKeyUpdatedAt := None, sd_UpdatedAt := now \<rparr>) (df_defaults db) \<rparr>"

definition ListSandboxServiceDefaultAudiences :: "default_db \<Rightarrow> SandboxServiceDefaultAudience list" where
  "ListSandboxServiceDefaultAudiences db = sort_key (\<lambda>r. ToLower (da_AccountLogin r)) (sort_key da_ID (df_audiences db))"

definition audience_key :: "SandboxServiceDefaultAudience \<Rightarrow> string \<times> int" where
  "audience_key r = (da_AccountType r, da_GitHubAccountID r)"

definition audience_columns :: "SandboxServiceDefaultAudience \<Rightarrow> SandboxServiceDefaultAudience \<Rightarrow> SandboxServiceDefaultAudience" where
  "audience_columns new old = old \<lparr> da_AccountLogin := da_AccountLogin new, da_AccountName := da_AccountName new,
     da_AccountAvatar := da_AccountAvatar new, da_UpdatedAt := da_UpdatedAt new \<rparr>"

definition UpsertSandboxServiceDefaultAudience ::
  "instant \<Rightarrow> SandboxServiceDefaultAudience \<Rightarrow> default_db \<Rightarrow> default_db \<times> SandboxServiceDefaultAudience result" where
  "UpsertSandboxServiceDefaultAudience now audience db =
     (let accountType = normalizeGitHubAccountType (da_AccountType audience)
      in if da_GitHubAccountID audience \<le> 0 \<or> accountType = [] then (db, Inl (Errorf ''valid github account identity is required''))
         else
           let new = \<lparr> da_ID = fresh_id (map da_ID (df_audiences db)), da_GitHubAccountID = da_GitHubAccountID audience, da_AccountType = accountType,
                 da_AccountLogin = TrimSpace (da_AccountLogin audience), da_AccountName = TrimSpace (da_AccountName audience),
                 da_AccountAvatar = TrimSpace (da_AccountAvatar audience), da_CreatedAt = now, da_UpdatedAt = now \<rparr>;
               rows = upsert_by audience_key audience_columns new (df_audiences db);
               db1 = db \<lparr> df_audiences := rows \<rparr>
           in case lookup_by audience_key (audience_key new) rows of None \<Rightarrow> (db1, Inl ErrRecordNotFound) | Some r \<Rightarrow> (db1, Inr r))"

definition DeleteSandboxServiceDefaultAudience :: "int \<Rightarrow> default_db \<Rightarrow> default_db" where
  "DeleteSandboxServiceDefaultAudience i db =
     (if i \<le> 0 then db else db \<lparr> df_audiences := delete_where (\<lambda>r. da_ID r = i) (df_audiences db) \<rparr>)"

definition SandboxServiceDefaultAudienceContains :: "int \<Rightarrow> string \<Rightarrow> default_db \<Rightarrow> bool" where
  "SandboxServiceDefaultAudienceContains githubAccountID accountType0 db =
     (let accountType = normalizeGitHubAccountType accountType0
      in if githubAccountID \<le> 0 \<or> accountType = [] then False
         else count_rows (\<lambda>r. da_GitHubAccountID r = githubAccountID \<and> da_AccountType r = accountType) (df_audiences db) > 0)"

interpretation preferences: keyed_table preference_key preference_columns
  by unfold_locales (simp add: preference_key_def preference_columns_def)

interpretation secrets: keyed_table secret_key secret_columns
  by unfold_locales (simp add: secret_key_def secret_columns_def)

interpretation defaults: keyed_table sd_ID default_columns
  by unfold_locales (simp add: default_columns_def Let_def)

interpretation audiences: keyed_table audience_key audience_columns
  by unfold_locales (simp add: audience_key_def audience_columns_def)

end
