(* ===== verification/CacheScopes.thy ===== *)
theory CacheScopes
  imports Failure
begin

text \<open>
  The build cache of a runner: which part of the bucket a workflow may read and write
  (\<^verbatim>\<open>cacheScopesForWorkflow\<close> of \<^verbatim>\<open>server_runner_lifecycle.go\<close>), the cache of workflow runs it asks
  GitHub for, and the session policy that \<^verbatim>\<open>cache_sts.go\<close> requests temporary credentials with.

  GitHub's answers are the fields of the argument \<open>gh\<close>; a server without a GitHub client is one whose
  lookups fail, which the code treats alike. \<open>sha\<close> is the hexadecimal rendering of the first
  sixteen bytes of the SHA-256 digest. A \<^verbatim>\<open>Repository\<close> carries its fork source one level deep.
\<close>

subsection \<open>GitHub's data\<close>

record Account =
  ga_ID :: int
  ga_Login :: string
  ga_Type :: string

record SourceRepository =
  gr_ID :: int
  gr_FullName :: string
  gr_DefaultBranch :: string
  gr_Fork :: bool
  gr_Owner :: Account

record Repository = SourceRepository +
  gr_Source :: "SourceRepository option"

record PullRequestRef =
  pf_Ref :: string
  pf_Repository :: Repository

record PullRequest =
  pq_Number :: int
  pq_Head :: PullRequestRef
  pq_Base :: PullRequestRef

record WorkflowRun =
  wr_ID :: int
  wr_Event :: string
  wr_HeadBranch :: string
  wr_HeadRepository :: Repository
  wr_Repository :: Repository
  wr_PullRequests :: "PullRequest list"

record cache_github =
  cg_GetRepository :: "string \<Rightarrow> go_error + Repository"
  cg_GetWorkflowRun :: "string \<Rightarrow> int \<Rightarrow> go_error + WorkflowRun"
  cg_GetPullRequest :: "string \<Rightarrow> int \<Rightarrow> go_error + PullRequest"

subsection \<open>The cache of workflow runs\<close>

text \<open>The map of the code, in one of its iteration orders, with distinct keys.\<close>

record cachedWorkflowRun =
  cw_run :: WorkflowRun
  cw_expiresAt :: instant

type_synonym run_cache = "(string \<times> cachedWorkflowRun) list"

definition maxWorkflowRunCacheItems :: nat where
  "maxWorkflowRunCacheItems = 1024"

definition workflowRunCacheTTL :: duration where
  "workflowRunCacheTTL = 30 * Second"

definition run_key :: "string \<Rightarrow> int \<Rightarrow> string" where
  "run_key repository runID = repository @ ''#'' @ int_dec runID"

text \<open>The scan for the entry that expires first; the empty string stands for none so far.\<close>

fun oldest_entry :: "run_cache \<Rightarrow> string \<Rightarrow> instant \<Rightarrow> string" where
  "oldest_entry [] oldestKey oldestExpiry = oldestKey"
| "oldest_entry ((k, c) # rest) oldestKey oldestExpiry =
     (if oldestKey = [] \<or> cw_expiresAt c < oldestExpiry then oldest_entry rest k (cw_expiresAt c)
      else oldest_entry rest oldestKey oldestExpiry)"

definition delete_key :: "string \<Rightarrow> run_cache \<Rightarrow> run_cache" where
  "delete_key k cache = filter (\<lambda>e. fst e \<noteq> k) cache"

definition store_run :: "instant \<Rightarrow> string \<Rightarrow> WorkflowRun \<Rightarrow> run_cache \<Rightarrow> run_cache" where
  "store_run now key run cache =
     (let live = filter (\<lambda>e. now < cw_expiresAt (snd e)) cache;
          kept = (if maxWorkflowRunCacheItems \<le> length live
                  then (let k = oldest_entry live [] zero_time in if k \<noteq> [] then delete_key k live else live)
                  else live)
      in (key, \<lparr> cw_run = run, cw_expiresAt = now + workflowRunCacheTTL \<rparr>) # delete_key key kept)"

definition workflowRunForCache ::
  "instant \<Rightarrow> instant \<Rightarrow> cache_github \<Rightarrow> string \<Rightarrow> int \<Rightarrow> run_cache \<Rightarrow> run_cache \<times> (go_error + WorkflowRun)" where
  "workflowRunForCache now1 now2 gh repository runID cache =
     (let key = run_key repository runID
      in case map_of cache key of
           Some cached \<Rightarrow>
             if now1 < cw_expiresAt cached then (cache, Inr (cw_run cached))
             else (case cg_GetWorkflowRun gh repository runID of
                     Inl e \<Rightarrow> (cache, Inl e)
                   | Inr run \<Rightarrow> (store_run now2 key run cache, Inr run))
         | None \<Rightarrow>
             (case cg_GetWorkflowRun gh repository runID of
                Inl e \<Rightarrow> (cache, Inl e)
              | Inr run \<Rightarrow> (store_run now2 key run cache, Inr run)))"

subsection \<open>Scopes\<close>

definition slash :: char where
  "slash = CHR ''/''"

definition TrimRight_slash :: "string \<Rightarrow> string" where
  "TrimRight_slash s = rev (dropWhile (\<lambda>c. c = slash) (rev s))"

definition Trim_slash :: "string \<Rightarrow> string" where
  "Trim_slash s = TrimRight_slash (dropWhile (\<lambda>c. c = slash) s)"

definition ContainsAny :: "string \<Rightarrow> string \<Rightarrow> bool" where
  "ContainsAny s chars \<longleftrightarrow> (\<exists>c\<in>set s. c \<in> set chars)"

definition scopeForBranch :: "(string \<Rightarrow> string) \<Rightarrow> string \<Rightarrow> string" where
  "scopeForBranch sha branch0 =
     (let branch1 = TrimPrefix (TrimSpace branch0) ''refs/heads/'';
          branch = (if branch1 = [] then ''default'' else branch1)
      in ''scopes/branch-'' @ sha branch)"

definition scopeForPR :: "int \<Rightarrow> string" where
  "scopeForPR prNumber = (if prNumber \<le> 0 then ''scopes/pr-unknown'' else ''scopes/pr-'' @ int_dec prNumber)"

definition uniqueCacheScopes :: "string list \<Rightarrow> string list" where
  "uniqueCacheScopes scopes = keep_first (\<lambda>s. s = []) [] (map (\<lambda>s. Trim_slash (TrimSpace s)) scopes)"

definition cacheScopePrefixes :: "string \<Rightarrow> string list \<Rightarrow> string list" where
  "cacheScopePrefixes cacheBasePrefix scopes =
     map (\<lambda>scope. TrimRight_slash cacheBasePrefix @ ''/'' @ scope) (uniqueCacheScopes scopes)"

definition cacheWriteTrustedEvent :: "string \<Rightarrow> bool" where
  "cacheWriteTrustedEvent event \<longleftrightarrow>
     event \<in> {''push'', ''workflow_dispatch'', ''repository_dispatch'', ''delete'', ''registry_package'', ''page_build'', ''schedule''}"

record cacheScopeDecision =
  cd_WriteScope :: string
  cd_ReadScopes :: "string list"
  cd_PullRequest :: int
  cd_Decision :: string

definition readOnly :: "string \<Rightarrow> string \<Rightarrow> cacheScopeDecision" where
  "readOnly defaultScope reason = \<lparr> cd_WriteScope = [], cd_ReadScopes = [defaultScope], cd_PullRequest = 0, cd_Decision = reason \<rparr>"

definition noCache :: "string \<Rightarrow> cacheScopeDecision" where
  "noCache reason = \<lparr> cd_WriteScope = [], cd_ReadScopes = [], cd_PullRequest = 0, cd_Decision = reason \<rparr>"

definition resolveRepositoryDefaultScope ::
  "(string \<Rightarrow> string) \<Rightarrow> cache_github \<Rightarrow> string \<Rightarrow> string \<Rightarrow> cacheScopeDecision + string" where
  "resolveRepositoryDefaultScope sha gh repository reason =
     (case cg_GetRepository gh repository of
        Inl _ \<Rightarrow> Inl (noCache reason)
      | Inr metadata \<Rightarrow>
          if \<not> EqualFold (TrimSpace (gr_FullName metadata)) repository \<or> TrimSpace (gr_DefaultBranch metadata) = []
          then Inl (noCache ''no_cache_untrusted_repository_metadata'')
          else Inr (scopeForBranch sha (gr_DefaultBranch metadata)))"

definition default_or ::
  "(string \<Rightarrow> string) \<Rightarrow> cache_github \<Rightarrow> string \<Rightarrow> (string \<Rightarrow> cacheScopeDecision) \<Rightarrow> cacheScopeDecision" where
  "default_or sha gh repository k =
     (case resolveRepositoryDefaultScope sha gh repository ''no_cache_repository_lookup_failed'' of
        Inl decision \<Rightarrow> decision
      | Inr defaultScope \<Rightarrow> k defaultScope)"

text \<open>The decision for a run of a pull request.\<close>

definition pull_request_scopes ::
  "(string \<Rightarrow> string) \<Rightarrow> cache_github \<Rightarrow> string \<Rightarrow> WorkflowRun \<Rightarrow> string \<Rightarrow> cacheScopeDecision" where
  "pull_request_scopes sha gh repository run defaultScope =
     (case wr_PullRequests run of
        [] \<Rightarrow> readOnly defaultScope ''read_only_missing_pull_request_metadata''
      | first # _ \<Rightarrow>
          if pq_Number first \<le> 0 then readOnly defaultScope ''read_only_missing_pull_request_metadata''
          else case cg_GetPullRequest gh repository (pq_Number first) of
            Inl _ \<Rightarrow> readOnly defaultScope ''read_only_pull_request_lookup_failed''
          | Inr pull \<Rightarrow>
              let baseRepo = TrimSpace (gr_FullName (pf_Repository (pq_Base pull)));
                  baseBranch = TrimSpace (pf_Ref (pq_Base pull));
                  headRepo = TrimSpace (gr_FullName (pf_Repository (pq_Head pull)))
              in if pq_Number pull \<noteq> pq_Number first \<or> baseRepo = [] \<or> baseBranch = [] \<or> headRepo = [] \<or> \<not> EqualFold baseRepo repository
                 then readOnly defaultScope ''read_only_untrusted_pull_request_metadata''
                 else \<lparr> cd_WriteScope = scopeForPR (pq_Number pull),
                        cd_ReadScopes = uniqueCacheScopes [scopeForPR (pq_Number pull), scopeForBranch sha baseBranch, defaultScope],
                        cd_PullRequest = pq_Number pull,
                        cd_Decision = (if EqualFold headRepo baseRepo then ''internal_pull_request'' else ''fork_pull_request'') \<rparr>)"

text \<open>The decision once the run and the default scope are known.\<close>

definition run_scopes ::
  "(string \<Rightarrow> string) \<Rightarrow> cache_github \<Rightarrow> string \<Rightarrow> WorkflowRun \<Rightarrow> string \<Rightarrow> cacheScopeDecision" where
  "run_scopes sha gh repository run defaultScope =
     (let event = ToLower (TrimSpace (wr_Event run));
          headRepo = TrimSpace (gr_FullName (wr_HeadRepository run));
          baseRepo = TrimSpace (gr_FullName (wr_Repository run));
          branch = TrimSpace (wr_HeadBranch run)
      in if event = ''pull_request'' then pull_request_scopes sha gh repository run defaultScope
         else if event = ''pull_request_target'' \<or> event = ''workflow_run'' \<or> event = ''issue_comment''
           then readOnly defaultScope (''read_only_'' @ event)
         else if headRepo = [] \<or> baseRepo = [] \<or> \<not> EqualFold baseRepo repository \<or> \<not> EqualFold headRepo baseRepo
           then readOnly defaultScope ''read_only_untrusted_repository_metadata''
         else if branch = [] then readOnly defaultScope ''read_only_missing_branch''
         else if \<not> cacheWriteTrustedEvent event then readOnly defaultScope ''read_only_untrusted_event''
         else \<lparr> cd_WriteScope = scopeForBranch sha branch,
                cd_ReadScopes = uniqueCacheScopes [scopeForBranch sha branch, defaultScope],
                cd_PullRequest = 0, cd_Decision = ''branch'' \<rparr>)"

definition cacheScopesForWorkflow ::
  "(string \<Rightarrow> string) \<Rightarrow> instant \<Rightarrow> instant \<Rightarrow> cache_github \<Rightarrow> string \<Rightarrow> RunnerState \<Rightarrow> run_cache \<Rightarrow> run_cache \<times> cacheScopeDecision" where
  "cacheScopesForWorkflow sha now1 now2 gh repository st cache =
     (if rs_WorkflowRunID st \<le> 0
      then (cache, default_or sha gh repository (\<lambda>d. readOnly d ''read_only_missing_workflow_run''))
      else case workflowRunForCache now1 now2 gh repository (rs_WorkflowRunID st) cache of
        (cache1, Inl _) \<Rightarrow> (cache1, default_or sha gh repository (\<lambda>d. readOnly d ''read_only_workflow_run_lookup_failed''))
      | (cache1, Inr run) \<Rightarrow>
          (cache1,
           let branch = TrimSpace (gr_DefaultBranch (wr_Repository run))
           in if branch \<noteq> [] then run_scopes sha gh repository run (scopeForBranch sha branch)
              else default_or sha gh repository (run_scopes sha gh repository run)))"

subsection \<open>Credentials\<close>

datatype sts_error =
    BadBucket | PrefixRequired | BadComponent | WildcardComponent | InvalidReadScope string sts_error | NoReadScope
  | InvalidOwnScope string sts_error | DurationNotPositive | EndpointRequired | CallFailed string | BadStatus int
  | ResponseUnparsed | APIError int string string | NoCredential | ExpirationUnparsed string

definition validateCacheBucket :: "string \<Rightarrow> sts_error option" where
  "validateCacheBucket bucket0 =
     (let bucket = TrimSpace bucket0
      in if bucket = [] \<or> bucket = ''.'' \<or> bucket = ''..'' \<or> ContainsAny bucket [slash, CHR 0x5C, CHR ''*'', CHR ''?'']
         then Some BadBucket else None)"

fun check_components :: "string list \<Rightarrow> sts_error option" where
  "check_components [] = None"
| "check_components (w # ws) =
     (if w = [] \<or> w = ''.'' \<or> w = ''..'' then Some BadComponent
      else if ContainsAny w ''*?'' then Some WildcardComponent
      else check_components ws)"

definition validateCachePrefix :: "string \<Rightarrow> sts_error option" where
  "validateCachePrefix p = (if p = [] then Some PrefixRequired else check_components (Split slash p))"

record sts_statement =
  ps_action :: "string list"
  ps_resource :: "string list"
  ps_prefix :: "string list option"

definition bucket_resource :: "string \<Rightarrow> string" where
  "bucket_resource bucket = ''qrn:kodo:::bucket/'' @ bucket"

definition scope_resource :: "string \<Rightarrow> string \<Rightarrow> string \<Rightarrow> string" where
  "scope_resource bucket cachePrefix scope = bucket_resource bucket @ ''/'' @ cachePrefix @ ''/'' @ scope @ ''/*''"

text \<open>The loop over the read scopes: the resources and the prefixes that may be listed.\<close>

fun read_loop :: "string \<Rightarrow> string \<Rightarrow> string list \<Rightarrow> string list \<Rightarrow> string list \<Rightarrow> sts_error + string list \<times> string list" where
  "read_loop bucket cachePrefix [] resources listed = Inr (resources, listed)"
| "read_loop bucket cachePrefix (s # ss) resources listed =
     (let scope = Trim_slash (TrimSpace s);
          res = scope_resource bucket cachePrefix scope
      in if scope = [] then read_loop bucket cachePrefix ss resources listed
         else case validateCachePrefix scope of
           Some e \<Rightarrow> Inl (InvalidReadScope scope e)
         | None \<Rightarrow>
             if res \<in> set resources then read_loop bucket cachePrefix ss resources listed
             else read_loop bucket cachePrefix ss (resources @ [res]) (listed @ [cachePrefix @ ''/'' @ scope @ ''/*'']))"

definition readActions :: "string list" where
  "readActions = [''kodo/stat'', ''kodo/get'']"

definition bucketActions :: "string list" where
  "bucketActions = [''kodo/list'', ''kodo/listMultipartUploads'']"

definition writeActions :: "string list" where
  "writeActions = [''kodo/upload'', ''kodo/mkfile'', ''kodo/listParts'', ''kodo/abortMultipartUpload'', ''kodo/delete'']"

definition cache_policy :: "string \<Rightarrow> string \<Rightarrow> string \<Rightarrow> string list \<Rightarrow> sts_error + sts_statement list" where
  "cache_policy bucket0 cachePrefix0 ownScope0 readScopes =
     (let bucket = TrimSpace bucket0;
          cachePrefix = TrimSuffix (TrimPrefix (TrimSpace cachePrefix0) ''/'') ''/'';
          ownScope = Trim_slash (TrimSpace ownScope0)
      in case validateCacheBucket bucket of Some e \<Rightarrow> Inl e | None \<Rightarrow>
         (case validateCachePrefix cachePrefix of Some e \<Rightarrow> Inl e | None \<Rightarrow>
          (case read_loop bucket cachePrefix readScopes [] [] of Inl e \<Rightarrow> Inl e
           | Inr (resources, listed) \<Rightarrow>
               if resources = [] then Inl NoReadScope
               else
                 let statements =
                   [\<lparr> ps_action = bucketActions, ps_resource = [bucket_resource bucket], ps_prefix = Some listed \<rparr>,
                    \<lparr> ps_action = readActions, ps_resource = resources, ps_prefix = None \<rparr>]
                 in if ownScope = [] then Inr statements
                    else case validateCachePrefix ownScope of
                      Some e \<Rightarrow> Inl (InvalidOwnScope ownScope e)
                    | None \<Rightarrow> Inr (statements @
                        [\<lparr> ps_action = writeActions, ps_resource = [scope_resource bucket cachePrefix ownScope], ps_prefix = None \<rparr>]))))"

record qiniuSTSCredential =
  qc_AccessKey :: string
  qc_SecretKey :: string
  qc_SessionToken :: string
  qc_Expiration :: string

record qiniuSTSResponse =
  qr_Code :: int
  qr_Error :: string
  qr_Message :: string
  qr_Data :: "qiniuSTSCredential option"

record CacheSTSCredentials =
  cc_AccessKeyID :: string
  cc_SecretAccessKey :: string
  cc_SessionToken :: string
  cc_Expiration :: instant

definition sts_url :: "string \<Rightarrow> sts_error + string" where
  "sts_url endpoint0 =
     (let endpoint = TrimRight_slash (TrimSpace endpoint0)
      in if endpoint = [] then Inl EndpointRequired
         else Inr ((if \<not> HasPrefix endpoint ''http://'' \<and> \<not> HasPrefix endpoint ''https://'' then ''https://'' @ endpoint else endpoint)
                   @ ''/sts/federation/token''))"

text \<open>
  The call of the credential service: \<open>client\<close> takes the URL, the duration and the policy and answers
  with an error or the status and the decoded body (none when it is not JSON).
\<close>

definition generateCacheSTSWithClient ::
  "(string \<Rightarrow> int \<Rightarrow> sts_statement list \<Rightarrow> string + int \<times> qiniuSTSResponse option) \<Rightarrow> (string \<Rightarrow> instant option)
    \<Rightarrow> string \<Rightarrow> string \<Rightarrow> string \<Rightarrow> string list \<Rightarrow> string \<Rightarrow> int \<Rightarrow> sts_error + CacheSTSCredentials" where
  "generateCacheSTSWithClient client parse bucket cachePrefix ownScope readScopes endpoint durationSeconds =
     (case cache_policy bucket cachePrefix ownScope readScopes of Inl e \<Rightarrow> Inl e
      | Inr policy \<Rightarrow>
          if durationSeconds \<le> 0 then Inl DurationNotPositive
          else case sts_url endpoint of Inl e \<Rightarrow> Inl e
          | Inr url \<Rightarrow>
              (case client url durationSeconds policy of
                 Inl e \<Rightarrow> Inl (CallFailed e)
               | Inr (status, body) \<Rightarrow>
                   if status < 200 \<or> 300 \<le> status then Inl (BadStatus status)
                   else case body of None \<Rightarrow> Inl ResponseUnparsed
                   | Some resp \<Rightarrow>
                       if qr_Code resp \<noteq> 0 \<or> qr_Error resp \<noteq> [] then Inl (APIError (qr_Code resp) (qr_Error resp) (qr_Message resp))
                       else case qr_Data resp of None \<Rightarrow> Inl NoCredential
                       | Some creds \<Rightarrow>
                           if TrimSpace (qc_AccessKey creds) = [] then Inl NoCredential
                           else case parse (qc_Expiration creds) of None \<Rightarrow> Inl (ExpirationUnparsed (qc_Expiration creds))
                           | Some t \<Rightarrow> Inr \<lparr> cc_AccessKeyID = qc_AccessKey creds, cc_SecretAccessKey = qc_SecretKey creds,
                               cc_SessionToken = qc_SessionToken creds, cc_Expiration = t \<rparr>))"

definition cacheSTSHeadroom :: duration where
  "cacheSTSHeadroom = 5 * Minute"

text \<open>\<open>Duration.Seconds\<close> is a float that \<open>int\<close> cuts off; the whole seconds are exact.\<close>

definition cacheSTSDurationSeconds :: "duration \<Rightarrow> int" where
  "cacheSTSDurationSeconds sandboxTimeout0 =
     (let sandboxTimeout = (if sandboxTimeout0 \<le> 0 then 60 * Minute else sandboxTimeout0)
      in (sandboxTimeout + cacheSTSHeadroom) div Second)"

subsection \<open>What the decisions grant\<close>

lemma readOnly_simps [simp]: "cd_WriteScope (readOnly d r) = []" "cd_ReadScopes (readOnly d r) = [d]" "cd_Decision (readOnly d r) = r"
  by (simp_all add: readOnly_def)

lemma noCache_simps [simp]: "cd_WriteScope (noCache r) = []" "cd_ReadScopes (noCache r) = []" "cd_Decision (noCache r) = r"
  by (simp_all add: noCache_def)

lemma scopeForBranch_trim [simp]: "scopeForBranch sha (TrimSpace b) = scopeForBranch sha b"
  by (simp add: scopeForBranch_def)

text \<open>The two ways to a write scope, given the run.\<close>

definition pull_request_write :: "cache_github \<Rightarrow> string \<Rightarrow> WorkflowRun \<Rightarrow> string \<Rightarrow> bool" where
  "pull_request_write gh repository run scope \<longleftrightarrow>
     ToLower (TrimSpace (wr_Event run)) = ''pull_request''
     \<and> (\<exists>n pull. wr_PullRequests run \<noteq> [] \<and> n = pq_Number (hd (wr_PullRequests run)) \<and> 0 < n
          \<and> cg_GetPullRequest gh repository n = Inr pull \<and> pq_Number pull = n
          \<and> EqualFold (TrimSpace (gr_FullName (pf_Repository (pq_Base pull)))) repository
          \<and> scope = scopeForPR n)"

definition branch_write :: "(string \<Rightarrow> string) \<Rightarrow> string \<Rightarrow> WorkflowRun \<Rightarrow> string \<Rightarrow> bool" where
  "branch_write sha repository run scope \<longleftrightarrow>
     cacheWriteTrustedEvent (ToLower (TrimSpace (wr_Event run)))
     \<and> EqualFold (TrimSpace (gr_FullName (wr_Repository run))) repository
     \<and> EqualFold (TrimSpace (gr_FullName (wr_HeadRepository run))) (TrimSpace (gr_FullName (wr_Repository run)))
     \<and> TrimSpace (wr_HeadBranch run) \<noteq> [] \<and> scope = scopeForBranch sha (wr_HeadBranch run)"

lemma pull_request_scopes_write:
  assumes "cd_WriteScope (pull_request_scopes sha gh repository run d) = w" "w \<noteq> []"
  shows "\<exists>n pull. wr_PullRequests run \<noteq> [] \<and> n = pq_Number (hd (wr_PullRequests run)) \<and> 0 < n
          \<and> cg_GetPullRequest gh repository n = Inr pull \<and> pq_Number pull = n
          \<and> EqualFold (TrimSpace (gr_FullName (pf_Repository (pq_Base pull)))) repository \<and> w = scopeForPR n"
  using assms unfolding pull_request_scopes_def
  by (cases "wr_PullRequests run") (auto simp: Let_def split: if_splits sum.splits)

lemma run_scopes_write:
  assumes "cd_WriteScope (run_scopes sha gh repository run d) = w" "w \<noteq> []"
  shows "pull_request_write gh repository run w \<or> branch_write sha repository run w"
proof (cases "ToLower (TrimSpace (wr_Event run)) = ''pull_request''")
  case True
  then have "cd_WriteScope (pull_request_scopes sha gh repository run d) = w"
    using assms by (simp add: run_scopes_def)
  then show ?thesis
    using pull_request_scopes_write [OF _ assms(2)] True by (auto simp: pull_request_write_def)
next
  case False
  then show ?thesis
    using assms by (auto simp: run_scopes_def branch_write_def Let_def split: if_splits)
qed

lemma default_or_write:
  assumes "cd_WriteScope (default_or sha gh repository k) \<noteq> []"
  obtains d where "default_or sha gh repository k = k d"
  using assms by (auto simp: default_or_def resolveRepositoryDefaultScope_def split: sum.splits if_splits)

lemma cache_write_scope_cases:
  assumes "cacheScopesForWorkflow sha now1 now2 gh repository st cache = (cache', d)"
    and "cd_WriteScope d \<noteq> []"
  shows "\<exists>run. workflowRunForCache now1 now2 gh repository (rs_WorkflowRunID st) cache = (cache', Inr run)
      \<and> (pull_request_write gh repository run (cd_WriteScope d) \<or> branch_write sha repository run (cd_WriteScope d))"
proof -
  have pos: "0 < rs_WorkflowRunID st"
    using assms by (auto simp: cacheScopesForWorkflow_def default_or_def resolveRepositoryDefaultScope_def
        split: if_splits sum.splits)
  obtain answer where lookup: "workflowRunForCache now1 now2 gh repository (rs_WorkflowRunID st) cache = (cache', answer)"
    using assms(1) pos by (auto simp: cacheScopesForWorkflow_def split: prod.splits sum.splits)
  obtain run where run: "answer = Inr run"
    using assms pos lookup
    by (cases answer) (auto simp: cacheScopesForWorkflow_def default_or_def resolveRepositoryDefaultScope_def split: sum.splits if_splits)
  have "\<exists>s. d = run_scopes sha gh repository run s"
  proof (cases "TrimSpace (gr_DefaultBranch (wr_Repository run)) = []")
    case True
    then have "d = default_or sha gh repository (run_scopes sha gh repository run)"
      using assms(1) pos lookup run by (simp add: cacheScopesForWorkflow_def)
    with assms(2) show ?thesis using default_or_write by metis
  next
    case False
    then show ?thesis using assms(1) pos lookup run by (auto simp: cacheScopesForWorkflow_def Let_def)
  qed
  then show ?thesis using lookup run run_scopes_write assms(2) by blast
qed

text \<open>C24: A workflow gets a scope of the build cache to write to in two cases only. Either its run is
  one of a pull request, GitHub confirms that request under the number the run names and its base
  is this repository: then the scope is the one of that pull request. Or the event is one that
  only a writer of the repository can cause, the run's head is this repository itself, and
  the scope is the one of the run's own branch. In every other case - lookups that fail,
  forks, comments, \<open>pull_request_target\<close> - nothing can be written.\<close>
theorem cache_write_scope_trusted:
  assumes "cacheScopesForWorkflow sha now1 now2 gh repository st cache = (cache', d)"
    and "cd_WriteScope d \<noteq> []"
  shows "\<exists>run. workflowRunForCache now1 now2 gh repository (rs_WorkflowRunID st) cache = (cache', Inr run)
      \<and> (pull_request_write gh repository run (cd_WriteScope d) \<or> branch_write sha repository run (cd_WriteScope d))"
  using assms by (rule cache_write_scope_cases)

definition sample_repository :: Repository where
  "sample_repository = \<lparr> gr_ID = 7, gr_FullName = ''acme/app'', gr_DefaultBranch = ''main'', gr_Fork = False,
     gr_Owner = \<lparr> ga_ID = 1, ga_Login = ''acme'', ga_Type = ''Organization'' \<rparr>, gr_Source = None \<rparr>"

definition sample_fork :: Repository where
  "sample_fork = sample_repository \<lparr> gr_ID := 8, gr_FullName := ''mallory/app'', gr_Fork := True \<rparr>"

definition fork_pull :: PullRequest where
  "fork_pull = \<lparr> pq_Number = 12, pq_Head = \<lparr> pf_Ref = ''patch'', pf_Repository = sample_fork \<rparr>,
     pq_Base = \<lparr> pf_Ref = ''main'', pf_Repository = sample_repository \<rparr> \<rparr>"

definition fork_run :: WorkflowRun where
  "fork_run = \<lparr> wr_ID = 5, wr_Event = ''pull_request'', wr_HeadBranch = ''patch'', wr_HeadRepository = sample_fork,
     wr_Repository = sample_repository, wr_PullRequests = [fork_pull] \<rparr>"

definition push_run :: WorkflowRun where
  "push_run = fork_run \<lparr> wr_ID := 6, wr_Event := ''push'', wr_HeadBranch := ''main'', wr_HeadRepository := sample_repository \<rparr>"

definition sample_github :: cache_github where
  "sample_github = \<lparr> cg_GetRepository = (\<lambda>_. Inr sample_repository),
     cg_GetWorkflowRun = (\<lambda>_ i. if i = 5 then Inr fork_run else Inr push_run), cg_GetPullRequest = (\<lambda>_ _. Inr fork_pull) \<rparr>"

definition zero_state :: RunnerState where
  "zero_state = recordToState sample_row"

lemma fork_decision:
  "cacheScopesForWorkflow (\<lambda>_. ''ab'') 0 0 sample_github ''acme/app'' (zero_state \<lparr> rs_WorkflowRunID := 5 \<rparr>) []
   = ([(''acme/app#5'', \<lparr> cw_run = fork_run, cw_expiresAt = 30000000000 \<rparr>)],
      \<lparr> cd_WriteScope = ''scopes/pr-12'', cd_ReadScopes = [''scopes/pr-12'', ''scopes/branch-ab''], cd_PullRequest = 12,
        cd_Decision = ''fork_pull_request'' \<rparr>)"
  by code_simp

theorem cache_write_scope_trusted_witness:
  "\<exists>run. workflowRunForCache 0 0 sample_github ''acme/app'' 5 []
        = ([(''acme/app#5'', \<lparr> cw_run = fork_run, cw_expiresAt = 30000000000 \<rparr>)], Inr run)
      \<and> (pull_request_write sample_github ''acme/app'' run ''scopes/pr-12'' \<or> branch_write (\<lambda>_. ''ab'') ''acme/app'' run ''scopes/pr-12'')"
  using cache_write_scope_trusted [OF fork_decision] by simp

subsection \<open>The cache of runs stays small\<close>

definition run_cache_ok :: "run_cache \<Rightarrow> bool" where
  "run_cache_ok cache \<longleftrightarrow> distinct (map fst cache) \<and> length cache \<le> maxWorkflowRunCacheItems \<and> [] \<notin> set (map fst cache)"

lemma oldest_entry_in: "oldest_entry cache k t \<in> insert k (fst ` set cache)"
  by (induction cache k t rule: oldest_entry.induct) auto

lemma oldest_entry_hd: "cache \<noteq> [] \<Longrightarrow> oldest_entry cache [] t \<in> fst ` set cache"
proof (cases cache)
  case (Cons e rest)
  then show ?thesis
    using oldest_entry_in [of rest "fst e" "cw_expiresAt (snd e)"] by (cases e) auto
qed simp

lemma delete_key_simps:
  "length (delete_key k cache) \<le> length cache" "distinct (map fst cache) \<Longrightarrow> distinct (map fst (delete_key k cache))"
  "set (delete_key k cache) = {e \<in> set cache. fst e \<noteq> k}"
  by (auto simp: delete_key_def distinct_map_filter)

lemma delete_key_shorter: "k \<in> fst ` set cache \<Longrightarrow> length (delete_key k cache) < length cache"
  unfolding delete_key_def by (auto intro: length_filter_less)

lemma run_key_nonempty [simp]: "run_key r i \<noteq> []"
  by (simp add: run_key_def)

lemma store_run_ok:
  assumes "run_cache_ok cache" "key \<noteq> []"
  shows "run_cache_ok (store_run now key run cache)"
proof -
  define live where "live = filter (\<lambda>e. now < cw_expiresAt (snd e)) cache"
  define kept where "kept = (if maxWorkflowRunCacheItems \<le> length live
      then (let k = oldest_entry live [] zero_time in if k \<noteq> [] then delete_key k live else live) else live)"
  have live: "distinct (map fst live)" "length live \<le> maxWorkflowRunCacheItems" "[] \<notin> set (map fst live)"
    using assms(1) unfolding live_def run_cache_ok_def
    by (auto simp: distinct_map_filter intro: le_trans [OF length_filter_le])
  have "length kept < maxWorkflowRunCacheItems"
  proof (cases "maxWorkflowRunCacheItems \<le> length live")
    case True
    then have "live \<noteq> []" by (auto simp: maxWorkflowRunCacheItems_def)
    then have "oldest_entry live [] 0 \<in> fst ` set live" by (rule oldest_entry_hd)
    moreover from this live(3) have "oldest_entry live [] 0 \<noteq> []" by (metis set_map)
    ultimately show ?thesis
      using True live(2) delete_key_shorter [of "oldest_entry live [] 0" live] by (simp add: kept_def Let_def)
  next
    case False then show ?thesis by (simp add: kept_def)
  qed
  moreover have "distinct (map fst kept)" "[] \<notin> set (map fst kept)"
    using live(1,3) delete_key_simps(2,3) unfolding kept_def Let_def by auto
  moreover have "store_run now key run cache
      = (key, \<lparr> cw_run = run, cw_expiresAt = now + workflowRunCacheTTL \<rparr>) # delete_key key kept"
    by (simp add: store_run_def Let_def kept_def live_def)
  ultimately show ?thesis
    using assms(2) delete_key_simps [where k = key and cache = kept] unfolding run_cache_ok_def by (auto simp: Suc_le_eq)
qed

text \<open>The cache of workflow runs keeps its keys apart and never grows beyond 1024 entries, whatever is
  looked up and whenever; a run that comes out of the cache without a call to GitHub was stored
  under its repository and number and has not expired.\<close>
theorem workflowRunForCache_bounded:
  assumes "run_cache_ok cache" and "workflowRunForCache now1 now2 gh repository runID cache = (cache', answer)"
  shows "run_cache_ok cache'
    \<and> (answer = cg_GetWorkflowRun gh repository runID
      \<or> (\<exists>c. map_of cache (run_key repository runID) = Some c \<and> now1 < cw_expiresAt c \<and> answer = Inr (cw_run c) \<and> cache' = cache))"
  using assms(2) store_run_ok [OF assms(1), of "run_key repository runID"] assms(1)
  unfolding workflowRunForCache_def by (auto simp: Let_def split: option.splits if_splits sum.splits)

theorem workflowRunForCache_bounded_witness:
  "run_cache_ok [(''acme/app#5'', \<lparr> cw_run = fork_run, cw_expiresAt = 30000000000 \<rparr>)]
   \<and> (Inr fork_run = cg_GetWorkflowRun sample_github ''acme/app'' 5
      \<or> (\<exists>c. map_of ([] :: run_cache) (run_key ''acme/app'' 5) = Some c \<and> 0 < cw_expiresAt c \<and> Inr fork_run = Inr (cw_run c)
            \<and> [(''acme/app#5'', \<lparr> cw_run = fork_run, cw_expiresAt = 30000000000 \<rparr>)] = []))"
proof -
  have 1: "run_cache_ok []" by (simp add: run_cache_ok_def)
  have 2: "workflowRunForCache 0 0 sample_github ''acme/app'' 5 []
      = ([(''acme/app#5'', \<lparr> cw_run = fork_run, cw_expiresAt = 30000000000 \<rparr>)], Inr fork_run)"
    by code_simp
  show ?thesis using workflowRunForCache_bounded [OF 1 2] by blast
qed

subsection \<open>What a policy allows\<close>

text \<open>The wildcards of resource patterns: any text for a star, any character for a question mark.\<close>

fun glob :: "string \<Rightarrow> string \<Rightarrow> bool" where
  "glob [] t = (t = [])"
| "glob (c # p) [] = (c = CHR ''*'' \<and> glob p [])"
| "glob (c # p) (d # t) =
     (if c = CHR ''*'' then glob p (d # t) \<or> glob (c # p) t
      else (c = CHR ''?'' \<or> c = d) \<and> glob p t)"

definition policy_grants :: "sts_statement list \<Rightarrow> string \<Rightarrow> string \<Rightarrow> bool" where
  "policy_grants policy action res \<longleftrightarrow>
     (\<exists>s\<in>set policy. action \<in> set (ps_action s) \<and> (\<exists>pat\<in>set (ps_resource s). glob pat res))"

definition literal :: "string \<Rightarrow> bool" where
  "literal s \<longleftrightarrow> CHR ''*'' \<notin> set s \<and> CHR ''?'' \<notin> set s"

lemma glob_star: "glob ''*'' t"
  by (induction t) auto

lemma glob_literal_star: "literal p \<Longrightarrow> glob (p @ ''*'') t \<longleftrightarrow> (\<exists>r. t = p @ r)"
proof (induction p arbitrary: t)
  case Nil
  then show ?case by (simp add: glob_star)
next
  case (Cons c p)
  then show ?case by (cases t) (auto simp: literal_def)
qed

lemma literal_simps [simp]:
  "literal (a @ b) \<longleftrightarrow> literal a \<and> literal b" "literal []"
  "literal (c # s) \<longleftrightarrow> c \<noteq> CHR ''*'' \<and> c \<noteq> CHR ''?'' \<and> literal s"
  by (auto simp: literal_def)

lemma check_components_literal: "check_components ws = None \<Longrightarrow> list_all literal ws"
  by (induction ws) (auto simp: literal_def ContainsAny_def split: if_splits)

lemma validateCachePrefix_literal:
  assumes "validateCachePrefix p = None"
  shows "literal p" "p \<noteq> []"
proof -
  have "list_all literal (Split slash p)"
    using assms check_components_literal by (auto simp: validateCachePrefix_def split: if_splits)
  then have "CHR ''*'' \<notin> set p \<and> CHR ''?'' \<notin> set p"
    using set_Split [of p slash] by (fastforce simp: list_all_iff literal_def slash_def)
  then show "literal p" by (simp add: literal_def)
  show "p \<noteq> []" using assms by (auto simp: validateCachePrefix_def)
qed

lemma validateCacheBucket_literal: "validateCacheBucket (TrimSpace b) = None \<Longrightarrow> literal (TrimSpace b)"
  by (auto simp: validateCacheBucket_def literal_def ContainsAny_def slash_def Let_def split: if_splits)

text \<open>The keys below a scope.\<close>

definition scope_keys :: "string \<Rightarrow> string \<Rightarrow> string \<Rightarrow> string set" where
  "scope_keys bucket cachePrefix scope = {bucket_resource bucket @ ''/'' @ cachePrefix @ ''/'' @ scope @ ''/'' @ key |key. True}"

lemma glob_scope_resource:
  assumes "literal bucket" "literal cachePrefix" "literal scope"
  shows "glob (scope_resource bucket cachePrefix scope) res \<longleftrightarrow> res \<in> scope_keys bucket cachePrefix scope"
proof -
  have "literal (bucket_resource bucket @ ''/'' @ cachePrefix @ ''/'' @ scope @ ''/'')"
    using assms by (simp add: bucket_resource_def)
  then show ?thesis
    using glob_literal_star [of "bucket_resource bucket @ ''/'' @ cachePrefix @ ''/'' @ scope @ ''/''" res]
    by (simp add: scope_resource_def scope_keys_def)
qed

definition clean_scope :: "string \<Rightarrow> string" where
  "clean_scope s = Trim_slash (TrimSpace s)"

definition clean_prefix :: "string \<Rightarrow> string" where
  "clean_prefix p = TrimSuffix (TrimPrefix (TrimSpace p) ''/'') ''/''"

lemma set_uniqueCacheScopes: "set (uniqueCacheScopes scopes) = {clean_scope s |s. s \<in> set scopes} - {[]}"
  by (auto simp: uniqueCacheScopes_def set_keep_first clean_scope_def)

lemma read_loop_resources:
  assumes "read_loop bucket p scopes res listed = Inr (res', listed')"
  shows "set res' = set res \<union> {scope_resource bucket p s |s. s \<in> set (uniqueCacheScopes scopes)}
    \<and> (\<forall>s\<in>set (uniqueCacheScopes scopes). literal s)"
  using assms
proof (induction scopes arbitrary: res listed)
  case (Cons s ss)
  show ?case
  proof (cases "clean_scope s = []")
    case True
    then show ?thesis using Cons by (simp add: Let_def set_uniqueCacheScopes clean_scope_def) blast
  next
    case False
    then have valid: "validateCachePrefix (clean_scope s) = None"
      using Cons.prems by (simp add: Let_def clean_scope_def split: option.splits)
    then have lit: "literal (clean_scope s)" by (rule validateCachePrefix_literal)
    obtain res1 listed1 where step: "read_loop bucket p ss res1 listed1 = Inr (res', listed')"
      and res1: "set res1 = insert (scope_resource bucket p (clean_scope s)) (set res)"
      using Cons.prems False valid by (auto simp: Let_def clean_scope_def split: if_splits)
    show ?thesis
      using Cons.IH [OF step] res1 False lit by (auto simp: set_uniqueCacheScopes)
  qed
qed (simp add: uniqueCacheScopes_def)

lemma cache_policy_cases:
  assumes "cache_policy bucket p own reads = Inr policy"
  obtains resources listed where
    "literal (TrimSpace bucket)" "literal (clean_prefix p)"
    "set resources = {scope_resource (TrimSpace bucket) (clean_prefix p) s |s. s \<in> set (uniqueCacheScopes reads)}"
    "\<forall>s\<in>set (uniqueCacheScopes reads). literal s"
    "literal (clean_scope own)"
    "policy = [\<lparr> ps_action = bucketActions, ps_resource = [bucket_resource (TrimSpace bucket)], ps_prefix = Some listed \<rparr>,
               \<lparr> ps_action = readActions, ps_resource = resources, ps_prefix = None \<rparr>]
       @ (if clean_scope own = [] then []
          else [\<lparr> ps_action = writeActions, ps_resource = [scope_resource (TrimSpace bucket) (clean_prefix p) (clean_scope own)], ps_prefix = None \<rparr>])"
proof -
  have bucket: "literal (TrimSpace bucket)"
    using assms validateCacheBucket_literal by (auto simp: cache_policy_def Let_def split: option.splits)
  have pre: "literal (clean_prefix p)"
    using assms validateCachePrefix_literal(1) by (auto simp: cache_policy_def Let_def clean_prefix_def split: option.splits)
  obtain resources listed where loop: "read_loop (TrimSpace bucket) (clean_prefix p) reads [] [] = Inr (resources, listed)"
    using assms by (auto simp: cache_policy_def Let_def clean_prefix_def split: option.splits sum.splits)
  have own: "literal (clean_scope own)"
    using assms validateCachePrefix_literal(1)
    by (auto simp: cache_policy_def Let_def clean_scope_def split: option.splits sum.splits if_splits prod.splits)
  have "set resources = {scope_resource (TrimSpace bucket) (clean_prefix p) s |s. s \<in> set (uniqueCacheScopes reads)}"
    "\<forall>s\<in>set (uniqueCacheScopes reads). literal s"
    using read_loop_resources [OF loop] by auto
  moreover have "policy = [\<lparr> ps_action = bucketActions, ps_resource = [bucket_resource (TrimSpace bucket)], ps_prefix = Some listed \<rparr>,
               \<lparr> ps_action = readActions, ps_resource = resources, ps_prefix = None \<rparr>]
       @ (if clean_scope own = [] then []
          else [\<lparr> ps_action = writeActions, ps_resource = [scope_resource (TrimSpace bucket) (clean_prefix p) (clean_scope own)], ps_prefix = None \<rparr>])"
    using assms loop
    by (auto simp: cache_policy_def Let_def clean_scope_def clean_prefix_def split: option.splits sum.splits if_splits)
  ultimately show thesis using that [OF bucket pre _ _ own] by blast
qed

lemma actions_disjoint [simp]:
  "a \<in> set writeActions \<Longrightarrow> a \<notin> set readActions" "a \<in> set writeActions \<Longrightarrow> a \<notin> set bucketActions"
  "a \<in> set readActions \<Longrightarrow> a \<notin> set writeActions" "a \<in> set readActions \<Longrightarrow> a \<notin> set bucketActions"
  by (auto simp: writeActions_def readActions_def bucketActions_def)

lemma readActions_stat: "''kodo/stat'' \<in> set readActions"
  by (simp add: readActions_def)

lemma cache_policy_grants:
  assumes "cache_policy bucket cachePrefix own reads = Inr policy"
    and "a \<in> set writeActions" and "b \<in> set readActions"
  shows "(policy_grants policy a res \<longleftrightarrow>
        clean_scope own \<noteq> [] \<and> res \<in> scope_keys (TrimSpace bucket) (clean_prefix cachePrefix) (clean_scope own))
    \<and> (policy_grants policy b res \<longleftrightarrow>
        list_ex (\<lambda>s. res \<in> scope_keys (TrimSpace bucket) (clean_prefix cachePrefix) s) (uniqueCacheScopes reads))"
proof -
  obtain resources listed where p: "literal (TrimSpace bucket)" "literal (clean_prefix cachePrefix)"
    "set resources = {scope_resource (TrimSpace bucket) (clean_prefix cachePrefix) s |s. s \<in> set (uniqueCacheScopes reads)}"
    "\<forall>s\<in>set (uniqueCacheScopes reads). literal s" "literal (clean_scope own)"
    "policy = [\<lparr> ps_action = bucketActions, ps_resource = [bucket_resource (TrimSpace bucket)], ps_prefix = Some listed \<rparr>,
               \<lparr> ps_action = readActions, ps_resource = resources, ps_prefix = None \<rparr>]
       @ (if clean_scope own = [] then []
          else [\<lparr> ps_action = writeActions, ps_resource = [scope_resource (TrimSpace bucket) (clean_prefix cachePrefix) (clean_scope own)], ps_prefix = None \<rparr>])"
    using assms(1) by (rule cache_policy_cases)
  note g = glob_scope_resource [OF p(1,2)]
  have "policy_grants policy a res \<longleftrightarrow>
      clean_scope own \<noteq> [] \<and> res \<in> scope_keys (TrimSpace bucket) (clean_prefix cachePrefix) (clean_scope own)"
    using p(5,6) assms(2) g by (simp add: policy_grants_def)
  moreover have "policy_grants policy b res \<longleftrightarrow> (\<exists>pat\<in>set resources. glob pat res)"
    using p(6) assms(3) by (simp add: policy_grants_def)
  moreover have "\<dots> \<longleftrightarrow> list_ex (\<lambda>s. res \<in> scope_keys (TrimSpace bucket) (clean_prefix cachePrefix) s) (uniqueCacheScopes reads)"
    using p(3,4) g by (auto simp: list_ex_iff)
  ultimately show ?thesis by simp
qed

lemmas policy_writes = cache_policy_grants [OF _ _ readActions_stat, THEN conjunct1]

text \<open>C25: The session policy isolates the scopes. Whenever a policy is made at all, an object may be uploaded,
  overwritten or deleted exactly when its key lies below the own scope, and nothing can be when
  there is none; an object may be read exactly when its key lies below one of the read scopes. No
  wildcard of a bucket name, a prefix or a scope reaches further.\<close>
theorem cache_policy_isolates:
  assumes "cache_policy bucket cachePrefix own reads = Inr policy"
    and "a \<in> set writeActions" and "b \<in> set readActions"
  shows "(policy_grants policy a res \<longleftrightarrow>
        clean_scope own \<noteq> [] \<and> res \<in> scope_keys (TrimSpace bucket) (clean_prefix cachePrefix) (clean_scope own))
    \<and> (policy_grants policy b res \<longleftrightarrow>
        list_ex (\<lambda>s. res \<in> scope_keys (TrimSpace bucket) (clean_prefix cachePrefix) s) (uniqueCacheScopes reads))"
  using assms by (rule cache_policy_grants)

definition sample_policy :: "sts_statement list" where
  "sample_policy =
     [\<lparr> ps_action = bucketActions, ps_resource = [''qrn:kodo:::bucket/b''], ps_prefix = Some [''c/acme/app/scopes/pr-12/*''] \<rparr>,
      \<lparr> ps_action = readActions, ps_resource = [''qrn:kodo:::bucket/b/c/acme/app/scopes/pr-12/*''], ps_prefix = None \<rparr>,
      \<lparr> ps_action = writeActions, ps_resource = [''qrn:kodo:::bucket/b/c/acme/app/scopes/pr-12/*''], ps_prefix = None \<rparr>]"

lemma sample_policy_made: "cache_policy ''b'' ''/c/acme/app'' ''scopes/pr-12'' [''scopes/pr-12''] = Inr sample_policy"
  by code_simp

theorem cache_policy_isolates_witness:
  "(policy_grants sample_policy ''kodo/upload'' ''qrn:kodo:::bucket/b/c/acme/app/scopes/branch-ab/k'' \<longleftrightarrow>
        clean_scope ''scopes/pr-12'' \<noteq> []
        \<and> ''qrn:kodo:::bucket/b/c/acme/app/scopes/branch-ab/k'' \<in> scope_keys (TrimSpace ''b'') (clean_prefix ''/c/acme/app'') (clean_scope ''scopes/pr-12''))
    \<and> (policy_grants sample_policy ''kodo/get'' ''qrn:kodo:::bucket/b/c/acme/app/scopes/branch-ab/k'' \<longleftrightarrow>
        list_ex (\<lambda>s. ''qrn:kodo:::bucket/b/c/acme/app/scopes/branch-ab/k'' \<in> scope_keys (TrimSpace ''b'') (clean_prefix ''/c/acme/app'') s)
          (uniqueCacheScopes [''scopes/pr-12'']))"
  by (rule cache_policy_isolates [OF sample_policy_made]) (simp_all add: writeActions_def readActions_def)

subsection \<open>Writers of different scopes\<close>

definition plain_name :: "string \<Rightarrow> bool" where
  "plain_name x \<longleftrightarrow> slash \<notin> set x \<and> (\<forall>c\<in>set x. \<not> is_space c)"

lemma plain_name_simps [simp]:
  "plain_name (x @ y) \<longleftrightarrow> plain_name x \<and> plain_name y" "plain_name []"
  "plain_name (c # x) \<longleftrightarrow> c \<noteq> slash \<and> \<not> is_space c \<and> plain_name x"
  by (auto simp: plain_name_def)

lemma plain_name_int_dec: "0 < n \<Longrightarrow> plain_name (int_dec n)"
  using int_dec_not [of n] by (auto simp: plain_name_def slash_def is_space_def Let_def)

lemma plain_name_scopeForPR: "\<exists>x. scopeForPR n = ''scopes/'' @ x \<and> plain_name x \<and> x \<noteq> []"
proof (cases "n \<le> 0")
  case True
  then have "scopeForPR n = ''scopes/'' @ ''pr-unknown''" by (simp add: scopeForPR_def)
  moreover have "plain_name ''pr-unknown''" by code_simp
  ultimately show ?thesis by (metis list.distinct(1))
next
  case False
  then have "scopeForPR n = ''scopes/'' @ (''pr-'' @ int_dec n)" by (simp add: scopeForPR_def)
  moreover have "plain_name ''pr-''" by code_simp
  moreover have "plain_name (int_dec n)" using False plain_name_int_dec by simp
  ultimately show ?thesis using plain_name_simps(1) by (metis append_is_Nil_conv list.distinct(1))
qed

lemma plain_name_hex: "set x \<subseteq> set ''0123456789abcdef'' \<Longrightarrow> plain_name x"
proof -
  assume "set x \<subseteq> set ''0123456789abcdef''"
  moreover have "plain_name ''0123456789abcdef''" by code_simp
  ultimately show ?thesis unfolding plain_name_def by blast
qed

lemma plain_name_scopeForBranch:
  assumes "\<And>b. set (sha b) \<subseteq> set ''0123456789abcdef''"
  shows "\<exists>x. scopeForBranch sha b = ''scopes/'' @ x \<and> plain_name x \<and> x \<noteq> []"
proof -
  obtain c where "scopeForBranch sha b = ''scopes/'' @ (''branch-'' @ sha c)" by (auto simp: scopeForBranch_def Let_def)
  moreover have "plain_name ''branch-''" by code_simp
  moreover have "plain_name (sha c)" using assms by (rule plain_name_hex)
  ultimately show ?thesis using plain_name_simps(1) by (metis append_is_Nil_conv list.distinct(1))
qed

lemma clean_scope_plain:
  assumes "plain_name x" "x \<noteq> []"
  shows "clean_scope (''scopes/'' @ x) = ''scopes/'' @ x"
proof -
  have l: "last x \<noteq> slash" "\<not> is_space (last x)"
    using assms last_in_set [of x] unfolding plain_name_def by metis+
  then have "trimmed (''scopes/'' @ x)" using assms(2) by (simp add: trimmed_def is_space_def)
  then have "TrimSpace (''scopes/'' @ x) = ''scopes/'' @ x" by (rule TrimSpace_id)
  moreover have "Trim_slash (''scopes/'' @ x) = ''scopes/'' @ x"
    using l assms(2) by (simp add: Trim_slash_def TrimRight_slash_def slash_def dropWhile_hd_id hd_rev)
  ultimately show ?thesis by (simp add: clean_scope_def)
qed

lemma slash_split:
  assumes "slash \<notin> set x" "slash \<notin> set y" "x @ slash # k = y @ slash # l"
  shows "x = y"
proof -
  have "takeWhile (\<lambda>c. c \<noteq> slash) (x @ slash # k) = x" "takeWhile (\<lambda>c. c \<noteq> slash) (y @ slash # l) = y"
    using assms(1,2) by (auto simp: takeWhile_append)
  then show ?thesis using assms(3) by simp
qed

lemma write_scope_shape:
  assumes "cacheScopesForWorkflow sha now1 now2 gh repository st cache = (cache', d)" "cd_WriteScope d \<noteq> []"
    and "\<And>b. set (sha b) \<subseteq> set ''0123456789abcdef''"
  shows "\<exists>x. cd_WriteScope d = ''scopes/'' @ x \<and> plain_name x \<and> x \<noteq> []"
proof -
  obtain run where "pull_request_write gh repository run (cd_WriteScope d) \<or> branch_write sha repository run (cd_WriteScope d)"
    using cache_write_scope_cases [OF assms(1,2)] by blast
  then show ?thesis
  proof
    assume "pull_request_write gh repository run (cd_WriteScope d)"
    then obtain n where "cd_WriteScope d = scopeForPR n" unfolding pull_request_write_def by blast
    then show ?thesis using plain_name_scopeForPR by simp
  next
    assume "branch_write sha repository run (cd_WriteScope d)"
    then have "cd_WriteScope d = scopeForBranch sha (wr_HeadBranch run)" unfolding branch_write_def by blast
    then show ?thesis using plain_name_scopeForBranch [OF assms(3)] by simp
  qed
qed

lemma scope_keys_disjoint:
  assumes "plain_name x" "plain_name y" "x \<noteq> []" "y \<noteq> []"
    and "res \<in> scope_keys b p (''scopes/'' @ x)" "res \<in> scope_keys b p (''scopes/'' @ y)"
  shows "x = y"
proof -
  obtain k l where "x @ slash # k = y @ slash # l"
    using assms(5,6) by (auto simp: scope_keys_def slash_def)
  then show ?thesis using slash_split assms(1,2) by (simp add: plain_name_def)
qed

text \<open>Two workflows that were given different scopes to write can never write, overwrite or delete
  the same object: whatever GitHub answered for each, the policies made from their decisions for
  one bucket and repository grant no write action on a common key. In particular a pull
  request of a fork cannot poison the cache of a branch.\<close>
theorem cache_writers_disjoint:
  assumes "\<And>b. set (sha b) \<subseteq> set ''0123456789abcdef''"
    and "cacheScopesForWorkflow sha s1 s2 gh repository st cache = (cache', d)"
    and "cacheScopesForWorkflow sha t1 t2 gh' repository st' cache1 = (cache1', d')"
    and "cd_WriteScope d \<noteq> cd_WriteScope d'"
    and "cache_policy bucket cachePrefix (cd_WriteScope d) reads = Inr policy"
    and "cache_policy bucket cachePrefix (cd_WriteScope d') reads' = Inr policy'"
    and "a \<in> set writeActions" "a' \<in> set writeActions"
  shows "\<not> (policy_grants policy a res \<and> policy_grants policy' a' res)"
proof
  assume grants: "policy_grants policy a res \<and> policy_grants policy' a' res"
  have clean: "clean_scope (cd_WriteScope d) \<noteq> []" "clean_scope (cd_WriteScope d') \<noteq> []"
    and keys: "res \<in> scope_keys (TrimSpace bucket) (clean_prefix cachePrefix) (clean_scope (cd_WriteScope d))"
      "res \<in> scope_keys (TrimSpace bucket) (clean_prefix cachePrefix) (clean_scope (cd_WriteScope d'))"
    using grants policy_writes [OF assms(5,7)] policy_writes [OF assms(6,8)] by auto
  have "cd_WriteScope d \<noteq> []" "cd_WriteScope d' \<noteq> []"
    using clean by (auto simp: clean_scope_def Trim_slash_def TrimRight_slash_def)
  then obtain x y where x: "cd_WriteScope d = ''scopes/'' @ x" "plain_name x" "x \<noteq> []"
    and y: "cd_WriteScope d' = ''scopes/'' @ y" "plain_name y" "y \<noteq> []"
    using write_scope_shape [OF assms(2)] write_scope_shape [OF assms(3)] assms(1) by metis
  have "x = y"
    using scope_keys_disjoint [OF x(2) y(2) x(3) y(3)] keys x y clean_scope_plain by simp
  with assms(4) x(1) y(1) show False by simp
qed

lemma push_decision:
  "cacheScopesForWorkflow (\<lambda>_. ''ab'') 0 0 sample_github ''acme/app'' (zero_state \<lparr> rs_WorkflowRunID := 6 \<rparr>) []
   = ([(''acme/app#6'', \<lparr> cw_run = push_run, cw_expiresAt = 30000000000 \<rparr>)],
      \<lparr> cd_WriteScope = ''scopes/branch-ab'', cd_ReadScopes = [''scopes/branch-ab''], cd_PullRequest = 0, cd_Decision = ''branch'' \<rparr>)"
  by code_simp

definition branch_policy :: "sts_statement list" where
  "branch_policy =
     [\<lparr> ps_action = bucketActions, ps_resource = [''qrn:kodo:::bucket/b''], ps_prefix = Some [''c/acme/app/scopes/branch-ab/*''] \<rparr>,
      \<lparr> ps_action = readActions, ps_resource = [''qrn:kodo:::bucket/b/c/acme/app/scopes/branch-ab/*''], ps_prefix = None \<rparr>,
      \<lparr> ps_action = writeActions, ps_resource = [''qrn:kodo:::bucket/b/c/acme/app/scopes/branch-ab/*''], ps_prefix = None \<rparr>]"

lemma branch_policy_made: "cache_policy ''b'' ''/c/acme/app'' ''scopes/branch-ab'' [''scopes/branch-ab''] = Inr branch_policy"
  by code_simp

theorem cache_writers_disjoint_witness:
  "\<not> (policy_grants sample_policy ''kodo/upload'' ''qrn:kodo:::bucket/b/c/acme/app/scopes/branch-ab/k''
     \<and> policy_grants branch_policy ''kodo/upload'' ''qrn:kodo:::bucket/b/c/acme/app/scopes/branch-ab/k'')"
proof -
  have p: "cache_policy ''b'' ''/c/acme/app'' (cd_WriteScope \<lparr> cd_WriteScope = ''scopes/pr-12'',
        cd_ReadScopes = [''scopes/pr-12'', ''scopes/branch-ab''], cd_PullRequest = 12, cd_Decision = ''fork_pull_request'' \<rparr>)
        [''scopes/pr-12''] = Inr sample_policy"
    and q: "cache_policy ''b'' ''/c/acme/app'' (cd_WriteScope \<lparr> cd_WriteScope = ''scopes/branch-ab'', cd_ReadScopes = [''scopes/branch-ab''],
        cd_PullRequest = 0, cd_Decision = ''branch'' \<rparr>) [''scopes/branch-ab''] = Inr branch_policy"
    by (simp_all add: sample_policy_made branch_policy_made)
  show ?thesis
    by (rule cache_writers_disjoint [OF _ fork_decision push_decision _ p q]) (simp_all add: writeActions_def)
qed

end
