(* ===== verification/Lifecycle.thy ===== *)
theory Lifecycle
  imports Failure
begin

text \<open>
  The handlers of \<^verbatim>\<open>internal/server/server_runner_lifecycle.go\<close>,
  \<^verbatim>\<open>internal/server/server_workflow_job_queue.go\<close> and \<^verbatim>\<open>internal/server/server_loops.go\<close> that move a
  request through its life: stopping, failing, deferring, requeueing, completing.

  A handler is a function of the server's state: the requests table, the events table with the
  control log, the bit of the queue's channel, the flag of the waiting metrics, and the list of the
  calls that were made to GitHub and to the sandbox service. What these services answer is the
  argument \<open>ex\<close>. A handler runs between \<open>lockRunner\<close> and its unlock and is one step here; where the
  code gives the lock up in the middle, the handler takes a function \<open>other\<close>: what the rest of the
  server did in the meantime. A handler reads the clock once, as \<open>now\<close>. Metrics, the server's own
  log and the timing lines of the control log are left out.
\<close>

subsection \<open>The server's state and its services\<close>

datatype external_call =
    CallStopRunner string int
  | CallRemoveRunner string string string
  | CallGetWorkflowJob string int
  | CallListRunners string string
  | CallCreateRegistrationToken string string
  | CallCreateRunnerJITConfig string string string
  | CallRemoveRunnerByID string string int
  | CallStartRunner string
  | CallRecoverRunner string

record external =
  ex_SandboxService :: "RunnerRequest \<Rightarrow> go_error option"
  ex_StopRunner :: "string \<Rightarrow> int \<Rightarrow> go_error option"
  ex_RemoveRunnerByName :: "string \<Rightarrow> string \<Rightarrow> string \<Rightarrow> go_error + bool"
  ex_GetWorkflowJob :: "string \<Rightarrow> int \<Rightarrow> go_error + WorkflowJob"
  ex_ListRunners :: "string \<Rightarrow> string \<Rightarrow> go_error + (string \<times> bool) list"

record server_state =
  sv_requests :: requests_table
  sv_events :: events_table
  sv_queueNotify :: bool
  sv_waitingMetricsDirty :: bool
  sv_calls :: "external_call list"

abbreviation NL :: char where
  "NL \<equiv> CHR 0x0A"

definition staged_log :: "instant \<Rightarrow> string \<Rightarrow> string \<Rightarrow> string \<Rightarrow> server_state \<Rightarrow> server_state" where
  "staged_log now i stage text sv = sv \<lparr> sv_events := AppendStagedLog now i ''control.log'' stage (text @ [NL]) (sv_events sv) \<rparr>"

definition control_log :: "instant \<Rightarrow> string \<Rightarrow> string \<Rightarrow> server_state \<Rightarrow> server_state" where
  "control_log now i text sv = sv \<lparr> sv_events := AppendLog now i ''control.log'' (text @ [NL]) (sv_events sv) \<rparr>"

definition read_state :: "string \<Rightarrow> server_state \<Rightarrow> RunnerState result" where
  "read_state i sv = ReadState i (sv_requests sv)"

definition write_state :: "instant \<Rightarrow> RunnerState \<Rightarrow> server_state \<Rightarrow> server_state result" where
  "write_state now st sv = result_bind (WriteState now st (sv_requests sv)) (\<lambda>tbl. Inr (sv \<lparr> sv_requests := tbl \<rparr>))"

definition release_lease :: "string \<Rightarrow> string \<Rightarrow> server_state \<Rightarrow> server_state" where
  "release_lease i workerID sv = sv \<lparr> sv_requests := ReleaseLease i workerID (sv_requests sv) \<rparr>"

definition call :: "external_call \<Rightarrow> server_state \<Rightarrow> server_state" where
  "call c sv = sv \<lparr> sv_calls := sv_calls sv @ [c] \<rparr>"

definition signalQueue :: "server_state \<Rightarrow> server_state" where
  "signalQueue sv = sv \<lparr> sv_queueNotify := True \<rparr>"

definition writeStateOrLog :: "instant \<Rightarrow> string \<Rightarrow> RunnerState \<Rightarrow> string \<Rightarrow> server_state \<Rightarrow> server_state" where
  "writeStateOrLog now i st msg sv =
     (case write_state now st sv of
        Inr sv' \<Rightarrow> sv'
      | Inl e \<Rightarrow> control_log now i (msg @ '': '' @ error_text e) sv)"

definition wrap_error :: "string \<Rightarrow> error \<Rightarrow> go_error" where
  "wrap_error what e = PlainError (what @ '': '' @ error_text e)"

text \<open>The stages of the control log.\<close>

definition runnerEventStageRunnerExit :: string where "runnerEventStageRunnerExit = ''runner_exit''"
definition runnerEventStageSandboxCleanup :: string where "runnerEventStageSandboxCleanup = ''sandbox_cleanup''"
definition runnerEventStageGitHubRunnerCleanup :: string where "runnerEventStageGitHubRunnerCleanup = ''github_cleanup''"
definition runnerEventStageRunnerCleanup :: string where "runnerEventStageRunnerCleanup = ''runner_cleanup''"
definition runnerEventStageRunnerRequeue :: string where "runnerEventStageRunnerRequeue = ''runner_requeue''"

subsection \<open>Calls to the services\<close>

definition stopSandboxWithTimeout :: "external \<Rightarrow> string \<Rightarrow> string \<Rightarrow> int \<Rightarrow> server_state \<Rightarrow> server_state \<times> go_error option" where
  "stopSandboxWithTimeout ex i sandboxID pid sv =
     (case ReadRequest i (sv_requests sv) of
        Inl e \<Rightarrow> (sv, Some (wrap_error ''read runner request for sandbox service'' e))
      | Inr req \<Rightarrow>
          (case ex_SandboxService ex req of
             Some e \<Rightarrow> (sv, Some e)
           | None \<Rightarrow> (call (CallStopRunner sandboxID pid) sv, ex_StopRunner ex sandboxID pid)))"

definition cleanupGitHubRunner :: "instant \<Rightarrow> external \<Rightarrow> RunnerState \<Rightarrow> server_state \<Rightarrow> server_state \<times> go_error option" where
  "cleanupGitHubRunner now ex st sv =
     (if TrimSpace (rs_RunnerName st) = [] then (sv, None)
      else if TrimSpace (rs_RepositoryFullName st) = [] then (sv, None)
      else
        let sv1 = call (CallRemoveRunner (rs_RepositoryFullName st) (rs_RunnerGroup st) (rs_RunnerName st)) sv;
            log = (\<lambda>text. staged_log now (rs_ID st) runnerEventStageGitHubRunnerCleanup text sv1)
        in case ex_RemoveRunnerByName ex (rs_RepositoryFullName st) (rs_RunnerGroup st) (rs_RunnerName st) of
             Inl err \<Rightarrow> (log (''github runner cleanup failed: '' @ err_text err), Some err)
           | Inr removed \<Rightarrow>
               (log (if removed then ''github runner registration removed'' else ''github runner registration already absent''), None))"

definition cleanupSandboxAfterExit :: "instant \<Rightarrow> external \<Rightarrow> string \<Rightarrow> RunnerState \<Rightarrow> server_state \<Rightarrow> server_state \<times> go_error option" where
  "cleanupSandboxAfterExit now ex i st sv =
     (if rs_SandboxID st = [] then (sv, None)
      else case stopSandboxWithTimeout ex i (rs_SandboxID st) (rs_ProcessPID st) sv of
        (sv1, Some err) \<Rightarrow>
          if isSandboxGone err
          then (staged_log now i runnerEventStageSandboxCleanup (''sandbox already gone after runner exit: '' @ err_text err) sv1, None)
          else (staged_log now i runnerEventStageSandboxCleanup (''cleanup sandbox after runner exit failed: '' @ err_text err) sv1, Some err)
      | (sv1, None) \<Rightarrow> (staged_log now i runnerEventStageSandboxCleanup ''sandbox cleaned after runner exit'' sv1, None))"

definition originalWorkflowJobQueued :: "external \<Rightarrow> RunnerState \<Rightarrow> server_state \<Rightarrow> server_state \<times> (go_error + bool)" where
  "originalWorkflowJobQueued ex st sv =
     (if rs_WorkflowJobID st = 0 \<or> TrimSpace (rs_RepositoryFullName st) = [] then (sv, Inr False)
      else (call (CallGetWorkflowJob (rs_RepositoryFullName st) (rs_WorkflowJobID st)) sv,
            case ex_GetWorkflowJob ex (rs_RepositoryFullName st) (rs_WorkflowJobID st) of
              Inl err \<Rightarrow> Inl err
            | Inr job \<Rightarrow> Inr (EqualFold (TrimSpace (wj_Status job)) ''queued'')))"

definition githubRunnerBusy :: "external \<Rightarrow> RunnerState \<Rightarrow> server_state \<Rightarrow> server_state \<times> (go_error + bool)" where
  "githubRunnerBusy ex st sv =
     (let runnerName = TrimSpace (rs_RunnerName st)
      in if runnerName = [] \<or> TrimSpace (rs_RepositoryFullName st) = [] then (sv, Inr False)
         else (call (CallListRunners (rs_RepositoryFullName st) (rs_RunnerGroup st)) sv,
               case ex_ListRunners ex (rs_RepositoryFullName st) (rs_RunnerGroup st) of
                 Inl err \<Rightarrow> Inl err
               | Inr runners \<Rightarrow> Inr (case find (\<lambda>r. fst r = runnerName) runners of None \<Rightarrow> False | Some r \<Rightarrow> snd r)))"

subsection \<open>Failing and deferring\<close>

definition retryOrFail :: "lifecycle_config \<Rightarrow> instant \<Rightarrow> RunnerState \<Rightarrow> string \<Rightarrow> go_error \<Rightarrow> server_state \<Rightarrow> server_state" where
  "retryOrFail cfg now st stage err sv =
     (case read_state (rs_ID st) sv of
        Inl _ \<Rightarrow> sv
      | Inr current \<Rightarrow>
          if rs_Status current = StatusCompleted \<or> rs_Status current = StatusFailed then sv
          else case applyFailure cfg now stage err True current of (current', result) \<Rightarrow>
            (case write_state now current' sv of
               Inl _ \<Rightarrow> sv
             | Inr sv1 \<Rightarrow>
                 let sv2 = control_log now (rs_ID st) (fr_logLine result) sv1
                 in if rs_Status current' = StatusQueued then signalQueue sv2 else sv2))"

definition failStartForAttempt ::
  "lifecycle_config \<Rightarrow> instant \<Rightarrow> string \<Rightarrow> string \<Rightarrow> RunnerState \<Rightarrow> string \<Rightarrow> go_error \<Rightarrow> instant option \<Rightarrow> server_state \<Rightarrow> server_state" where
  "failStartForAttempt cfg now workerID i st0 stage err attemptAt sv =
     (let current = read_state i sv;
          superseded = (case attemptAt of
             None \<Rightarrow> False
           | Some t \<Rightarrow> (case current of Inl _ \<Rightarrow> True
               | Inr c \<Rightarrow> rs_LastAttemptAt c \<noteq> t \<or> rs_Status c \<noteq> StatusCreating))
      in if superseded then sv
         else if (case current of Inl _ \<Rightarrow> False | Inr c \<Rightarrow> rs_Status c = StatusCompleted \<or> rs_Status c = StatusStopping)
           then release_lease i workerID sv
         else
           case applyFailure cfg now stage err True (case current of Inl _ \<Rightarrow> st0 | Inr c \<Rightarrow> c) of (st, result) \<Rightarrow>
             let sv1 = control_log now i (fr_logLine result) sv;
                 sv2 = (case write_state now st sv1 of Inl _ \<Rightarrow> sv1 | Inr s \<Rightarrow> s)
             in if rs_Status st = StatusQueued then signalQueue sv2 else sv2)"

definition failStart :: "lifecycle_config \<Rightarrow> instant \<Rightarrow> string \<Rightarrow> string \<Rightarrow> RunnerState \<Rightarrow> string \<Rightarrow> go_error \<Rightarrow> server_state \<Rightarrow> server_state" where
  "failStart cfg now workerID i st stage err sv = failStartForAttempt cfg now workerID i st stage err None sv"

definition deferQueuedRequest :: "instant \<Rightarrow> string \<Rightarrow> string \<Rightarrow> instant \<Rightarrow> string \<Rightarrow> server_state \<Rightarrow> server_state" where
  "deferQueuedRequest now i workerID nextAttempt capacityStage sv =
     (case read_state i sv of
        Inl _ \<Rightarrow> release_lease i workerID sv
      | Inr st \<Rightarrow>
          if rs_Status st \<noteq> StatusQueued \<or> rs_LeaseOwner st \<noteq> workerID then release_lease i workerID sv
          else
            let dimension = TrimSuffix capacityStage ''_capacity_check'';
                code = ''runner_capacity_'' @ dimension;
                changed = (rs_LastErrorCode st \<noteq> code);
                st1 = clearSandboxServiceSnapshot (st \<lparr> rs_LastErrorCode := code,
                  rs_LastErrorMessage := ''Waiting for '' @ dimension @ '' Runner concurrency capacity'',
                  rs_LastErrorRetryable := True, rs_LeaseOwner := [], rs_LeaseExpiresAt := zero_time,
                  rs_NextRetryAt := nextAttempt \<rparr>)
            in case write_state now st1 sv of
                 Inl _ \<Rightarrow> release_lease i workerID sv
               | Inr sv1 \<Rightarrow> if changed then staged_log now i ''runner_capacity'' (rs_LastErrorMessage st1) sv1 else sv1)"

definition deferCreatingRequest :: "instant \<Rightarrow> string \<Rightarrow> string \<Rightarrow> instant \<Rightarrow> server_state \<Rightarrow> server_state" where
  "deferCreatingRequest now i workerID nextAttempt sv =
     (case read_state i sv of
        Inl _ \<Rightarrow> release_lease i workerID sv
      | Inr st \<Rightarrow>
          if rs_Status st \<noteq> StatusCreating \<or> rs_LeaseOwner st \<noteq> workerID \<or> rs_SandboxID st \<noteq> [] then sv
          else
            let st1 = clearSandboxServiceSnapshot (clearRunnerEnvironmentSnapshot (st \<lparr> rs_Status := StatusQueued,
                  rs_CreatingAt := zero_time, rs_LeaseOwner := [], rs_LeaseExpiresAt := zero_time, rs_NextRetryAt := nextAttempt \<rparr>))
            in case write_state now st1 sv of Inl _ \<Rightarrow> sv | Inr sv1 \<Rightarrow> sv1)"

subsection \<open>Jobs that GitHub reports\<close>

definition assign_job :: "WorkflowJob \<Rightarrow> RunnerState \<Rightarrow> RunnerState" where
  "assign_job job st = (if shouldRecordAssignedJob st job
     then st \<lparr> rs_AssignedJobID := wj_ID job, rs_AssignedJobName := wj_Name job \<rparr> else st)"

definition completeWithoutSandbox :: "instant \<Rightarrow> string \<Rightarrow> WorkflowJob \<Rightarrow> string \<Rightarrow> server_state \<Rightarrow> server_state \<times> go_error option" where
  "completeWithoutSandbox now i job reason sv =
     (case read_state i sv of
        Inl e \<Rightarrow> (sv, Some (wrap_error ''read runner state for skip'' e))
      | Inr st \<Rightarrow>
          if rs_Status st = StatusCompleted \<or> rs_Status st = StatusStopping \<or> rs_Status st = StatusRunning then (sv, None)
          else
            let st1 = fst (retainWorkflowJobResult now job now (assign_job job st));
                st2 = st1 \<lparr> rs_Status := StatusCompleted, rs_CompletedAt := now, rs_Error := [], rs_FailureStage := [],
                  rs_FailureReason := [], rs_LeaseOwner := [], rs_LeaseExpiresAt := zero_time, rs_NextRetryAt := zero_time \<rparr>
            in case write_state now st2 sv of
                 Inl e \<Rightarrow> (sv, Some (wrap_error ''write skipped runner state'' e))
               | Inr sv1 \<Rightarrow> (control_log now i (''runner skipped before sandbox start: '' @ reason) sv1, None))"

definition markWorkflowJobInProgress :: "instant \<Rightarrow> string \<Rightarrow> WorkflowJob \<Rightarrow> server_state \<Rightarrow> server_state \<times> (error + RunnerState \<times> bool)" where
  "markWorkflowJobInProgress now i job sv =
     (case read_state i sv of
        Inl e \<Rightarrow> (sv, Inl e)
      | Inr st \<Rightarrow>
          if rs_Status st = StatusCompleted \<or> rs_Status st = StatusStopping then (sv, Inr (st, False))
          else if \<not> shouldRecordAssignedJob st job then (sv, Inr (st, False))
          else
            let mismatched = workflowJobMismatch st job;
                recordMetric = (rs_AssignedJobID st = 0 \<and> rs_AssignedJobName st \<noteq> wj_Name job);
                st1 = assign_job job st
            in case write_state now st1 sv of
                 Inl e \<Rightarrow> (sv, Inl e)
               | Inr sv1 \<Rightarrow>
                   if mismatched
                   then (control_log now i (''runner picked up different workflow job '' @ int_dec (wj_ID job) @ '' ('' @ wj_Name job
                           @ ''); original workflow job is '' @ int_dec (rs_WorkflowJobID st1)) sv1, Inr (st1, False))
                   else (sv1, Inr (st1, recordMetric)))"

definition markRunnerJobStarted :: "instant \<Rightarrow> string \<Rightarrow> server_state \<Rightarrow> server_state" where
  "markRunnerJobStarted now i sv =
     (case read_state i sv of
        Inl _ \<Rightarrow> sv
      | Inr st \<Rightarrow>
          if rs_AssignedJobID st \<noteq> 0 \<or> rs_AssignedJobName st = runnerJobStartedMarker
             \<or> rs_Status st = StatusCompleted \<or> rs_Status st = StatusStopping then sv
          else case write_state now (st \<lparr> rs_AssignedJobName := runnerJobStartedMarker \<rparr>) sv of
                 Inl _ \<Rightarrow> sv
               | Inr sv1 \<Rightarrow> control_log now i ''runner accepted a job'' sv1)"

text \<open>The state that a request goes back to the queue with after its runner served another job.\<close>

definition requeue_mismatched :: "RunnerState \<Rightarrow> RunnerState" where
  "requeue_mismatched st = clearSandboxServiceSnapshot (st \<lparr>
     rs_Status := StatusQueued, rs_SandboxID := [], rs_SandboxRegion := [], rs_ResolvedTemplateID := [], rs_TemplateVersion := [],
     rs_RunnerVersion := [], rs_EffectiveRunnerVersion := [], rs_ProcessPID := 0, rs_AssignedJobID := 0, rs_AssignedJobName := [],
     rs_TerminationSource := [], rs_RunnerExitCode := None, rs_Error := [], rs_FailureStage := [], rs_FailureReason := [],
     rs_LastErrorCode := [], rs_LastErrorMessage := [], rs_LastErrorRetryable := False, rs_LeaseOwner := [],
     rs_LeaseExpiresAt := zero_time, rs_NextRetryAt := zero_time, rs_CreatingAt := zero_time, rs_RunningAt := zero_time,
     rs_StoppingAt := zero_time, rs_CompletedAt := zero_time, rs_FailedAt := zero_time, rs_GitHubJobName := [],
     rs_GitHubJobStatus := [], rs_GitHubJobConclusion := [], rs_GitHubJobRunnerName := [], rs_GitHubJobObservedAt := zero_time \<rparr>)"

definition requeueMismatchedWorkflowJob ::
  "instant \<Rightarrow> RunnerState \<Rightarrow> WorkflowJob \<Rightarrow> bool \<Rightarrow> server_state \<Rightarrow> server_state \<times> (go_error + bool \<times> RunnerState)" where
  "requeueMismatchedWorkflowJob now st observed queued sv =
     (if \<not> queued then
        let next1 = st \<lparr> rs_AssignedJobID := 0, rs_AssignedJobName := [] \<rparr>
        in case write_state now next1 sv of
             Inl e \<Rightarrow> (sv, Inl (wrap_error ''write mismatched workflow job inspection'' e))
           | Inr sv1 \<Rightarrow>
               (staged_log now (rs_ID st) runnerEventStageRunnerRequeue (''runner completed different workflow job '' @ int_dec (wj_ID observed)
                  @ ''; original workflow job '' @ int_dec (rs_WorkflowJobID st) @ '' is no longer queued'') sv1,
                Inr (False, next1 \<lparr> rs_Version := rs_Version next1 + 1 \<rparr>))
      else
        let next1 = requeue_mismatched st
        in case write_state now next1 sv of
             Inl e \<Rightarrow> (sv, Inl (wrap_error ''write mismatched workflow job requeue'' e))
           | Inr sv1 \<Rightarrow>
               (signalQueue (staged_log now (rs_ID st) runnerEventStageRunnerRequeue (''runner completed different workflow job ''
                  @ int_dec (wj_ID observed) @ ''; original workflow job '' @ int_dec (rs_WorkflowJobID st) @ '' is queued, requeued request'') sv1),
                Inr (True, next1 \<lparr> rs_Version := rs_Version next1 + 1 \<rparr>)))"

subsection \<open>Stopping\<close>

type_synonym stop_result = "server_state \<times> (go_error + RunnerState \<times> bool)"

definition bump :: "RunnerState \<Rightarrow> RunnerState" where
  "bump st = st \<lparr> rs_Version := rs_Version st + 1 \<rparr>"

definition workflowConclusion :: "WorkflowJob \<Rightarrow> string" where
  "workflowConclusion job =
     (if TrimSpace (wj_Conclusion job) \<noteq> [] then TrimSpace (wj_Conclusion job)
      else if TrimSpace (wj_Status job) \<noteq> [] then TrimSpace (wj_Status job) else ''unknown'')"

definition clear_last_error :: "RunnerState \<Rightarrow> RunnerState" where
  "clear_last_error st = st \<lparr> rs_NextRetryAt := zero_time, rs_LastErrorCode := [], rs_LastErrorMessage := [], rs_LastErrorRetryable := False \<rparr>"

text \<open>The last part: the request is completed, or failed when it was being stopped for a failure.\<close>

definition stop_conclude :: "instant \<Rightarrow> string \<Rightarrow> WorkflowJob \<Rightarrow> RunnerState \<Rightarrow> server_state \<Rightarrow> stop_result" where
  "stop_conclude now i job st sv =
     (let st1 = clear_last_error
            (if rs_FailureStage st \<noteq> [] \<and> rs_FailureStage st \<noteq> ''cleanup''
             then st \<lparr> rs_Status := StatusFailed, rs_FailedAt := now \<rparr>
             else st \<lparr> rs_Status := StatusCompleted, rs_CompletedAt := now, rs_FailureStage := [], rs_FailureReason := [], rs_Error := [] \<rparr>)
      in case write_state now st1 sv of
           Inl e \<Rightarrow> (sv, Inl (PlainError (error_text e)))
         | Inr sv1 \<Rightarrow>
             ((if wj_ID job \<noteq> 0
               then staged_log now i runnerEventStageRunnerCleanup (''runner cleanup completed: job_id='' @ int_dec (wj_ID job)
                      @ '' conclusion='' @ workflowConclusion job @ '' request_status='' @ status_string (rs_Status st1)) sv1
               else sv1), Inr (st1, True)))"

text \<open>A request that waited for the cleanup of a just-in-time registration.\<close>

definition stop_jit_pending :: "instant \<Rightarrow> external \<Rightarrow> string \<Rightarrow> WorkflowJob \<Rightarrow> RunnerState \<Rightarrow> server_state \<Rightarrow> stop_result" where
  "stop_jit_pending now ex i job st sv =
     (if rs_WorkflowJobID st = 0 then
        let st1 = clear_last_error (st \<lparr> rs_FailureStage := ''github_registration'', rs_FailureReason := ''jit_cleanup_pending'',
              rs_Status := StatusFailed, rs_FailedAt := now \<rparr>)
        in case write_state now st1 sv of
             Inl e \<Rightarrow> (sv, Inl (PlainError (error_text e)))
           | Inr sv1 \<Rightarrow> (sv1, Inr (bump st1, False))
      else case originalWorkflowJobQueued ex st sv of (sv1, answer) \<Rightarrow>
        if (case answer of Inl _ \<Rightarrow> True | Inr queued \<Rightarrow> queued) then
          let st1 = clear_last_error (st \<lparr> rs_Status := StatusQueued, rs_SandboxID := [], rs_ProcessPID := 0, rs_Error := [],
                rs_FailureStage := [], rs_FailureReason := [], rs_LeaseOwner := [], rs_LeaseExpiresAt := zero_time,
                rs_StoppingAt := zero_time \<rparr>)
          in case write_state now st1 sv1 of
               Inl e \<Rightarrow> (sv1, Inl (PlainError (error_text e)))
             | Inr sv2 \<Rightarrow> (signalQueue sv2, Inr (bump st1, False))
        else stop_conclude now i job (st \<lparr> rs_FailureReason := [], rs_FailureStage := [], rs_Error := [] \<rparr>) sv1)"

text \<open>The runner served another job than the one the request was made for.\<close>

definition stop_mismatched :: "instant \<Rightarrow> external \<Rightarrow> WorkflowJob \<Rightarrow> RunnerState \<Rightarrow> server_state \<Rightarrow> stop_result" where
  "stop_mismatched now ex job st sv =
     (case originalWorkflowJobQueued ex st sv of (sv1, answer) \<Rightarrow>
        let queued = (case answer of Inl _ \<Rightarrow> True | Inr q \<Rightarrow> q)
        in case requeueMismatchedWorkflowJob now st job queued sv1 of
             (sv2, Inl e) \<Rightarrow> (sv2, Inl e)
           | (sv2, Inr (True, next1)) \<Rightarrow> (sv2, Inr (next1, False))
           | (sv2, Inr (False, next1)) \<Rightarrow>
               let st1 = clear_last_error (next1 \<lparr> rs_Status := StatusCompleted, rs_CompletedAt := now, rs_FailureStage := [],
                     rs_FailureReason := [], rs_Error := [] \<rparr>)
               in case write_state now st1 sv2 of
                    Inl e \<Rightarrow> (sv2, Inl (PlainError (error_text e)))
                  | Inr sv3 \<Rightarrow> (sv3, Inr (st1, False)))"

text \<open>After the sandbox is stopped: the registration of the runner at GitHub is removed.\<close>

definition stop_cleanup :: "lifecycle_config \<Rightarrow> instant \<Rightarrow> external \<Rightarrow> string \<Rightarrow> WorkflowJob \<Rightarrow> RunnerState \<Rightarrow> server_state \<Rightarrow> stop_result" where
  "stop_cleanup cfg now ex i job st sv =
     (case cleanupGitHubRunner now ex st sv of
        (sv1, Some cleanupErr) \<Rightarrow>
          (case scheduleCleanupRetry cfg now cleanupErr st of
             (st1, True) \<Rightarrow>
               (case write_state now st1 sv1 of
                  Inl e \<Rightarrow> (sv1, Inl (wrap_error (''schedule github runner cleanup retry: '' @ err_text cleanupErr @ ''; write stopping state'') e))
                | Inr sv2 \<Rightarrow>
                    (staged_log now i runnerEventStageGitHubRunnerCleanup (''github runner cleanup retry scheduled for ''
                       @ lc_rfc3339 cfg (rs_NextRetryAt st1) @ '': '' @ err_text cleanupErr) sv2, Inr (bump st1, False)))
           | (st1, False) \<Rightarrow>
               let st2 = st1 \<lparr> rs_Status := StatusFailed, rs_FailureStage := ''cleanup'',
                     rs_FailureReason := ''github_runner_cleanup_failed'', rs_Error := err_text cleanupErr \<rparr>
               in (case write_state now st2 sv1 of
                     Inl e \<Rightarrow> (sv1, Inl (wrap_error (''cleanup github runner: '' @ err_text cleanupErr @ ''; write failed state'') e))
                   | Inr sv2 \<Rightarrow> (sv2, Inl cleanupErr)))
      | (sv1, None) \<Rightarrow>
          if workflowJobMismatch st job then stop_mismatched now ex job st sv1
          else if rs_FailureReason st = ''jit_cleanup_pending'' then stop_jit_pending now ex i job st sv1
          else stop_conclude now i job st sv1)"

text \<open>With the request marked as stopping: the sandbox is stopped.\<close>

definition stop_sandbox :: "lifecycle_config \<Rightarrow> instant \<Rightarrow> external \<Rightarrow> string \<Rightarrow> WorkflowJob \<Rightarrow> RunnerState \<Rightarrow> server_state \<Rightarrow> stop_result" where
  "stop_sandbox cfg now ex i job st sv =
     (if rs_SandboxID st = [] then stop_cleanup cfg now ex i job st sv
      else
        let sv1 = staged_log now i runnerEventStageSandboxCleanup (''sandbox stop requested sandbox_id='' @ rs_SandboxID st
              @ '' pid='' @ int_dec (rs_ProcessPID st)) sv
        in case stopSandboxWithTimeout ex i (rs_SandboxID st) (rs_ProcessPID st) sv1 of
             (sv2, None) \<Rightarrow> stop_cleanup cfg now ex i job st (staged_log now i runnerEventStageSandboxCleanup ''sandbox stop completed'' sv2)
           | (sv2, Some err) \<Rightarrow>
               if isSandboxGone err
               then stop_cleanup cfg now ex i job st
                      (staged_log now i runnerEventStageSandboxCleanup (''sandbox already gone: '' @ err_text err) sv2)
               else case scheduleStopRetry cfg now err st of
                 (st1, True) \<Rightarrow>
                   (case write_state now st1 sv2 of
                      Inl e \<Rightarrow> (sv2, Inl (wrap_error (''schedule stop retry: '' @ err_text err @ ''; write stopping state'') e))
                    | Inr sv3 \<Rightarrow>
                        (staged_log now i runnerEventStageSandboxCleanup (''stop retry scheduled for ''
                           @ lc_rfc3339 cfg (rs_NextRetryAt st1) @ '': '' @ err_text err) sv3, Inr (bump st1, False)))
               | (st1, False) \<Rightarrow>
                   let st2 = st1 \<lparr> rs_Status := StatusFailed, rs_FailureStage := ''stop'', rs_FailureReason := ''stop_failed'',
                         rs_Error := err_text err \<rparr>
                   in (case write_state now st2 sv2 of
                         Inl e \<Rightarrow> (sv2, Inl (wrap_error (''stop sandbox: '' @ err_text err @ ''; write failed state'') e))
                       | Inr sv3 \<Rightarrow> (sv3, Inl err)))"

definition stopRunner :: "lifecycle_config \<Rightarrow> instant \<Rightarrow> external \<Rightarrow> string \<Rightarrow> WorkflowJob \<Rightarrow> string \<Rightarrow> server_state \<Rightarrow> stop_result" where
  "stopRunner cfg now ex i job source sv =
     (case read_state i sv of
        Inl e \<Rightarrow> (sv, Inl (PlainError (error_text e)))
      | Inr st0 \<Rightarrow>
          case retainWorkflowJobResult now job now st0 of (st, resultChanged) \<Rightarrow>
          if workflowJobStopConflictsWithAssignment st job then
            (case (if resultChanged then write_state now st sv else Inr sv) of
               Inl e \<Rightarrow> (sv, Inl (wrap_error ''write completed github job result'' e))
             | Inr sv1 \<Rightarrow>
                 (control_log now i (''runner stop deferred: workflow job '' @ int_dec (wj_ID job)
                    @ '' completed while runner assignment is id='' @ int_dec (rs_AssignedJobID st)
                    @ '' name='' @ lc_quote cfg (rs_AssignedJobName st)) sv1, Inr (st, False)))
          else if rs_Status st = StatusCompleted then
            let recorded = shouldRecordAssignedJob st job;
                st1 = assign_job job st
            in (case (if resultChanged \<or> recorded then write_state now st1 sv else Inr sv) of
                  Inl e \<Rightarrow> (sv, Inl (wrap_error ''write completed job result'' e))
                | Inr sv1 \<Rightarrow> (sv1, Inr (st1, recorded)))
          else
            let st1 = assign_job job st;
                sv1 = (if wj_ID job \<noteq> 0
                       then control_log now i (''workflow job completed on GitHub: job_id='' @ int_dec (wj_ID job) @ '' status=''
                              @ wj_Status job @ '' conclusion='' @ workflowConclusion job) sv
                       else sv);
                st2 = markRunnerCleanupStarted now (setTerminationSource source st1)
            in (case write_state now st2 sv1 of
                  Inl e \<Rightarrow> (sv1, Inl (wrap_error ''write stopping state'' e))
                | Inr sv2 \<Rightarrow> stop_sandbox cfg now ex i job (bump st2) sv2))"

definition stopIfExists :: "lifecycle_config \<Rightarrow> instant \<Rightarrow> external \<Rightarrow> string \<Rightarrow> WorkflowJob \<Rightarrow> string \<Rightarrow> server_state \<Rightarrow> server_state" where
  "stopIfExists cfg now ex i job source sv =
     (case read_state i sv of Inl _ \<Rightarrow> sv | Inr _ \<Rightarrow> fst (stopRunner cfg now ex i job source sv))"

definition failAndStopRunnerVersion ::
  "lifecycle_config \<Rightarrow> instant \<Rightarrow> external \<Rightarrow> string \<Rightarrow> int \<Rightarrow> string \<Rightarrow> string \<Rightarrow> string \<Rightarrow> server_state \<Rightarrow> server_state" where
  "failAndStopRunnerVersion cfg now ex i expectedVersion stage reason message sv =
     (case read_state i sv of
        Inl _ \<Rightarrow> sv
      | Inr st0 \<Rightarrow>
          if expectedVersion \<noteq> 0 \<and> rs_Version st0 \<noteq> expectedVersion then sv
          else if rs_Status st0 = StatusCompleted \<or> rs_Status st0 = StatusFailed then sv
          else
            let st1 = setTerminationSource TerminationSourceFailureCleanup (markRunnerCleanupStarted now st0)
                        \<lparr> rs_FailureStage := stage, rs_FailureReason := reason, rs_Error := message \<rparr>
            in case write_state now st1 sv of
                 Inl _ \<Rightarrow> sv
               | Inr sv1 \<Rightarrow>
                   let st = bump st1;
                       stopped = (if rs_SandboxID st = [] then (sv1, None)
                                  else stopSandboxWithTimeout ex i (rs_SandboxID st) (rs_ProcessPID st) sv1)
                   in case (case snd stopped of None \<Rightarrow> None | Some err \<Rightarrow> if isSandboxGone err then None else Some err) of
                        Some err \<Rightarrow>
                          writeStateOrLog now i (st \<lparr> rs_Status := StatusFailed, rs_FailureStage := ''stop'',
                            rs_FailureReason := ''stop_failed'', rs_Error := ''forced stop failed after '' @ stage @ '': '' @ err_text err \<rparr>)
                            ''write forced stop failed state'' (fst stopped)
                      | None \<Rightarrow>
                          (case cleanupGitHubRunner now ex st (fst stopped) of (sv2, cleanupErr) \<Rightarrow>
                             case (case cleanupErr of None \<Rightarrow> (st, False) | Some err \<Rightarrow> scheduleCleanupRetry cfg now err st) of
                               (st2, True) \<Rightarrow> writeStateOrLog now i st2 ''schedule github runner cleanup retry'' sv2
                             | (st2, False) \<Rightarrow>
                                 let st3 = (case cleanupErr of
                                         None \<Rightarrow> st2
                                       | Some err \<Rightarrow> st2 \<lparr> rs_FailureStage := ''cleanup'', rs_FailureReason := ''github_runner_cleanup_failed'',
                                           rs_Error := appendError message (''github runner cleanup: '' @ err_text err) \<rparr>);
                                     st4 = st3 \<lparr> rs_Status := StatusFailed, rs_FailedAt := now,
                                       rs_FailureStage := (if rs_FailureStage st3 = [] then stage else rs_FailureStage st3),
                                       rs_FailureReason := (if rs_FailureReason st3 = [] then reason else rs_FailureReason st3),
                                       rs_Error := (if rs_Error st3 = [] then message else rs_Error st3),
                                       rs_LeaseOwner := [], rs_LeaseExpiresAt := zero_time \<rparr>
                                 in writeStateOrLog now i st4 ''write forced failed state'' sv2))"

definition failAndStopRunner ::
  "lifecycle_config \<Rightarrow> instant \<Rightarrow> external \<Rightarrow> string \<Rightarrow> string \<Rightarrow> string \<Rightarrow> string \<Rightarrow> server_state \<Rightarrow> server_state" where
  "failAndStopRunner cfg now ex i stage reason message sv = failAndStopRunnerVersion cfg now ex i 0 stage reason message sv"

subsection \<open>Exits\<close>

record runnerAttemptIdentity =
  at_sandboxID :: string
  at_processPID :: int

definition specified :: "runnerAttemptIdentity \<Rightarrow> bool" where
  "specified a \<longleftrightarrow> TrimSpace (at_sandboxID a) \<noteq> [] \<or> at_processPID a \<noteq> 0"

definition attempt_matches :: "runnerAttemptIdentity \<Rightarrow> RunnerState \<Rightarrow> bool" where
  "attempt_matches a st \<longleftrightarrow> TrimSpace (at_sandboxID a) \<noteq> [] \<and> at_processPID a \<noteq> 0
     \<and> at_sandboxID a = rs_SandboxID st \<and> at_processPID a = rs_ProcessPID st"

record ExitResult =
  xr_ExitCode :: int
  xr_Stdout :: string
  xr_Stderr :: string
  xr_Error :: string
  xr_EffectiveRunnerVersion :: string

definition runnerExitMessage :: "ExitResult \<Rightarrow> string" where
  "runnerExitMessage result =
     (let d1 = TrimSpace (xr_Stderr result);
          d2 = (if d1 = [] then TrimSpace (xr_Error result) else d1);
          detail = (if d2 = [] then TrimSpace (xr_Stdout result) else d2);
          text = ''runner process exited with code '' @ int_dec (xr_ExitCode result)
      in if detail = [] then text else text @ '': '' @ detail)"

definition shouldCheckGitHubBusyAfterRunnerExit :: "ExitResult \<Rightarrow> go_error option \<Rightarrow> bool" where
  "shouldCheckGitHubBusyAfterRunnerExit result err = (if err = None \<and> xr_ExitCode result = 0 then False else True)"

definition writeRunnerCleanupStart :: "instant \<Rightarrow> string \<Rightarrow> RunnerState \<Rightarrow> server_state \<Rightarrow> server_state \<times> RunnerState option" where
  "writeRunnerCleanupStart now i st sv =
     (let st1 = markRunnerCleanupStarted now st
      in case write_state now st1 sv of
           Inl e \<Rightarrow> (staged_log now i runnerEventStageRunnerExit (''write stopping state after runner exit failed: '' @ error_text e) sv, None)
         | Inr sv1 \<Rightarrow> (sv1, Some (bump st1)))"

definition retryRunnerExitedWithoutJob :: "lifecycle_config \<Rightarrow> instant \<Rightarrow> string \<Rightarrow> RunnerState \<Rightarrow> server_state \<Rightarrow> server_state \<times> RunnerState" where
  "retryRunnerExitedWithoutJob cfg now i st sv =
     (if rs_WorkflowJobID st = 0 \<or> rs_AssignedJobID st \<noteq> 0 \<or> rs_AssignedJobName st \<noteq> [] then (sv, st)
      else
        let base = ''runner process exited before accepting a job'';
            err = RunnerExitedWithoutJob (if rs_Error st \<noteq> [] then base @ '': '' @ rs_Error st else base)
        in case applyFailure cfg now ''runner_exit'' err True st of (st1, result) \<Rightarrow>
             (staged_log now i runnerEventStageRunnerExit (fr_logLine result) sv,
              if rs_Status st1 = StatusQueued then st1 \<lparr> rs_TerminationSource := [], rs_RunnerExitCode := None \<rparr> else st1))"

definition recordLateRunnerExitEvidence ::
  "instant \<Rightarrow> string \<Rightarrow> RunnerState \<Rightarrow> runnerAttemptIdentity \<Rightarrow> ExitResult \<Rightarrow> go_error option \<Rightarrow> server_state \<Rightarrow> server_state" where
  "recordLateRunnerExitEvidence now i st attempt result err sv =
     (if \<not> attempt_matches attempt st \<or> (rs_Status st \<noteq> StatusStopping \<and> \<not> isTerminalRunnerStatus (rs_Status st)) then sv
      else
        let version = TrimSpace (xr_EffectiveRunnerVersion result);
            versionChanged = (rs_EffectiveRunnerVersion st = [] \<and> version \<noteq> []);
            st1 = (if versionChanged then st \<lparr> rs_EffectiveRunnerVersion := version \<rparr> else st)
        in if err \<noteq> None \<or> rs_RunnerExitCode st1 \<noteq> None then
             (if \<not> versionChanged then sv
              else case write_state now st1 sv of Inl _ \<Rightarrow> sv | Inr sv1 \<Rightarrow> sv1)
           else case write_state now (st1 \<lparr> rs_RunnerExitCode := Some (xr_ExitCode result) \<rparr>) sv of
                  Inl _ \<Rightarrow> sv
                | Inr sv1 \<Rightarrow> staged_log now i runnerEventStageRunnerExit
                    (''runner process exited after cleanup started with code '' @ int_dec (xr_ExitCode result)) sv1)"

text \<open>Taken when the lock is free; \<open>other\<close> is what happens while GitHub answers.\<close>

definition retainWorkflowJobResultAfterRunnerExit ::
  "instant \<Rightarrow> external \<Rightarrow> (server_state \<Rightarrow> server_state) \<Rightarrow> string \<Rightarrow> server_state \<Rightarrow> server_state" where
  "retainWorkflowJobResultAfterRunnerExit now ex other i sv =
     (case read_state i sv of
        Inl _ \<Rightarrow> sv
      | Inr st \<Rightarrow>
          if (rs_Status st \<noteq> StatusStopping \<and> \<not> isTerminalRunnerStatus (rs_Status st)) \<or> rs_WorkflowJobID st = 0
             \<or> TrimSpace (rs_RepositoryFullName st) = [] \<or> \<not> IsZero (rs_GitHubJobObservedAt st) then sv
          else
            let sv1 = other (call (CallGetWorkflowJob (rs_RepositoryFullName st) (rs_WorkflowJobID st)) sv)
            in case ex_GetWorkflowJob ex (rs_RepositoryFullName st) (rs_WorkflowJobID st) of
                 Inl _ \<Rightarrow> sv1
               | Inr job \<Rightarrow>
                   (case read_state i sv1 of
                      Inl _ \<Rightarrow> sv1
                    | Inr latest \<Rightarrow>
                        if rs_WorkflowJobID latest \<noteq> rs_WorkflowJobID st \<or> rs_RepositoryFullName latest \<noteq> rs_RepositoryFullName st
                           \<or> (rs_Status latest \<noteq> StatusStopping \<and> \<not> isTerminalRunnerStatus (rs_Status latest))
                           \<or> \<not> IsZero (rs_GitHubJobObservedAt latest) then sv1
                        else case retainWorkflowJobResult now job now latest of
                               (_, False) \<Rightarrow> sv1
                             | (latest1, True) \<Rightarrow> (case write_state now latest1 sv1 of Inl _ \<Rightarrow> sv1 | Inr sv2 \<Rightarrow> sv2)))"

text \<open>The part for a process that ended with an error of its own.\<close>

definition exit_error :: "lifecycle_config \<Rightarrow> instant \<Rightarrow> external \<Rightarrow> string \<Rightarrow> go_error \<Rightarrow> RunnerState \<Rightarrow> server_state \<Rightarrow> server_state" where
  "exit_error cfg now ex i err st0 sv =
     (let st = st0 \<lparr> rs_Status := StatusFailed, rs_Error := err_text err, rs_FailureStage := ''runner_exit'', rs_FailureReason := ''process_error'' \<rparr>;
          sv1 = staged_log now i runnerEventStageRunnerExit (''runner process exited with error: '' @ err_text err) sv
      in case writeRunnerCleanupStart now i st sv1 of
           (sv2, None) \<Rightarrow> sv2
         | (sv2, Some st1) \<Rightarrow>
             case cleanupSandboxAfterExit now ex i st1 sv2 of (sv3, sandboxErr) \<Rightarrow>
             let st2 = (case sandboxErr of None \<Rightarrow> st1
                        | Some e \<Rightarrow> st1 \<lparr> rs_Error := rs_Error st1 @ ''; cleanup sandbox: '' @ err_text e \<rparr>)
             in case cleanupGitHubRunner now ex st2 sv3 of (sv4, githubErr) \<Rightarrow>
                (case (case githubErr of None \<Rightarrow> (st2, False) | Some e \<Rightarrow> scheduleCleanupRetry cfg now e st2) of
                   (st3, True) \<Rightarrow> writeStateOrLog now i st3 ''schedule github runner cleanup retry'' sv4
                 | (st3, False) \<Rightarrow>
                     let st4 = (case githubErr of None \<Rightarrow> st3
                           | Some e \<Rightarrow> st3 \<lparr> rs_Error := appendError (rs_Error st3) (''github runner cleanup: '' @ err_text e) \<rparr>) \<lparr> rs_Status := StatusFailed \<rparr>
                     in case (if sandboxErr = None \<and> githubErr = None then retryRunnerExitedWithoutJob cfg now i st4 sv4 else (sv4, st4)) of
                          (sv5, st5) \<Rightarrow>
                            let sv6 = writeStateOrLog now i st5 ''write failed exit state'' sv5
                            in if rs_Status st5 = StatusQueued then signalQueue sv6 else sv6))"

text \<open>The part for a process that returned an exit code.\<close>

definition exit_code :: "lifecycle_config \<Rightarrow> instant \<Rightarrow> external \<Rightarrow> string \<Rightarrow> ExitResult \<Rightarrow> RunnerState \<Rightarrow> server_state \<Rightarrow> server_state" where
  "exit_code cfg now ex i result st0 sv =
     (let st = st0 \<lparr> rs_RunnerExitCode := Some (xr_ExitCode result) \<rparr>;
          failed = (xr_ExitCode result \<noteq> 0);
          st1 = (if failed then st \<lparr> rs_Status := StatusFailed, rs_Error := runnerExitMessage result, rs_FailureStage := ''runner_exit'',
                   rs_FailureReason := int_dec (xr_ExitCode result) \<rparr> else st);
          sv1 = staged_log now i runnerEventStageRunnerExit (if failed then rs_Error st1 else ''runner process exited cleanly'') sv
      in case writeRunnerCleanupStart now i st1 sv1 of
           (sv2, None) \<Rightarrow> sv2
         | (sv2, Some st2) \<Rightarrow>
             case cleanupSandboxAfterExit now ex i st2 sv2 of (sv3, sandboxErr) \<Rightarrow>
             let st3 = (case sandboxErr of
                   Some e \<Rightarrow> st2 \<lparr> rs_Status := StatusFailed, rs_Error := ''cleanup sandbox after runner exit: '' @ err_text e \<rparr>
                 | None \<Rightarrow> if failed then st2 \<lparr> rs_Status := StatusFailed \<rparr>
                           else st2 \<lparr> rs_Status := StatusCompleted, rs_CompletedAt := now \<rparr>)
             in case cleanupGitHubRunner now ex st3 sv3 of (sv4, cleanupErr) \<Rightarrow>
                (case (case cleanupErr of None \<Rightarrow> (st3, False) | Some e \<Rightarrow> scheduleCleanupRetry cfg now e st3) of
                   (st4, True) \<Rightarrow> writeStateOrLog now i st4 ''schedule github runner cleanup retry'' sv4
                 | (st4, False) \<Rightarrow>
                     let st5 = (case cleanupErr of None \<Rightarrow> st4
                           | Some e \<Rightarrow> st4 \<lparr> rs_Status := StatusFailed, rs_FailureStage := ''cleanup'', rs_FailureReason := ''github_runner_cleanup_failed'',
                               rs_Error := appendError (rs_Error st4) (''github runner cleanup: '' @ err_text e) \<rparr>)
                     in case (if rs_Status st5 = StatusCompleted \<or> (sandboxErr = None \<and> rs_FailureStage st5 = ''runner_exit'')
                              then retryRunnerExitedWithoutJob cfg now i st5 sv4 else (sv4, st5)) of
                          (sv5, st6) \<Rightarrow>
                            let sv6 = writeStateOrLog now i st6 ''write exited state'' sv5
                            in if rs_Status st6 = StatusQueued then signalQueue sv6 else sv6))"

definition with_version :: "ExitResult \<Rightarrow> RunnerState \<Rightarrow> RunnerState" where
  "with_version result st = (if rs_EffectiveRunnerVersion st = []
     then st \<lparr> rs_EffectiveRunnerVersion := TrimSpace (xr_EffectiveRunnerVersion result) \<rparr> else st)"

definition exit_conclude ::
  "lifecycle_config \<Rightarrow> instant \<Rightarrow> external \<Rightarrow> (server_state \<Rightarrow> server_state) \<Rightarrow> string \<Rightarrow> ExitResult \<Rightarrow> go_error option \<Rightarrow> RunnerState
    \<Rightarrow> server_state \<Rightarrow> server_state" where
  "exit_conclude cfg now ex other i result err st sv =
     (let st1 = setTerminationSource TerminationSourceProcessExit st;
          sv1 = (case err of Some e \<Rightarrow> exit_error cfg now ex i e st1 sv | None \<Rightarrow> exit_code cfg now ex i result st1 sv)
      in retainWorkflowJobResultAfterRunnerExit now ex other i (other sv1))"

text \<open>After the question whether the runner is busy, with the lock taken again.\<close>

definition exit_after_busy ::
  "lifecycle_config \<Rightarrow> instant \<Rightarrow> external \<Rightarrow> (server_state \<Rightarrow> server_state) \<Rightarrow> string \<Rightarrow> runnerAttemptIdentity \<Rightarrow> ExitResult \<Rightarrow> go_error option
    \<Rightarrow> (go_error + bool) \<Rightarrow> server_state \<Rightarrow> server_state" where
  "exit_after_busy cfg now ex other i attempt result err answer sv =
     (case read_state i sv of
        Inl _ \<Rightarrow> sv
      | Inr st0 \<Rightarrow>
          if \<not> attempt_matches attempt st0 then sv
          else if rs_Status st0 \<noteq> StatusCreating \<and> rs_Status st0 \<noteq> StatusRunning
            then recordLateRunnerExitEvidence now i st0 attempt result err sv
          else
            let st = with_version result st0
            in case answer of
                 Inl busyErr \<Rightarrow>
                   exit_conclude cfg now ex other i result err st
                     (staged_log now i runnerEventStageRunnerExit
                       (''could not verify github runner busy state after runner exit: '' @ err_text busyErr) sv)
               | Inr False \<Rightarrow> exit_conclude cfg now ex other i result err st sv
               | Inr True \<Rightarrow>
                   let message = ''runner process stream ended while GitHub still reports the runner is busy: ''
                         @ (case err of Some e \<Rightarrow> err_text e | None \<Rightarrow> runnerExitMessage result);
                       st1 = st \<lparr> rs_Status := StatusRunning, rs_LastErrorCode := ''github_runner_busy'', rs_LastErrorMessage := message,
                         rs_LastErrorRetryable := True, rs_Error := message,
                         rs_AssignedJobName := (if rs_AssignedJobName st = [] then runnerJobStartedMarker else rs_AssignedJobName st) \<rparr>
                   in case write_state now st1 sv of
                        Inr sv1 \<Rightarrow> staged_log now i runnerEventStageRunnerExit (message @ ''; keeping sandbox running'') sv1
                      | Inl e \<Rightarrow>
                          let sv1 = staged_log now i runnerEventStageRunnerExit
                                (''write running state after busy runner exit failed: '' @ error_text e) sv
                          in case read_state i sv1 of
                               Inl _ \<Rightarrow> sv1
                             | Inr st2 \<Rightarrow>
                                 if \<not> attempt_matches attempt st2 \<or> (rs_Status st2 \<noteq> StatusCreating \<and> rs_Status st2 \<noteq> StatusRunning) then sv1
                                 else exit_conclude cfg now ex other i result err st2 sv1)"

definition runnerExitedForAttempt ::
  "lifecycle_config \<Rightarrow> instant \<Rightarrow> external \<Rightarrow> (server_state \<Rightarrow> server_state) \<Rightarrow> string \<Rightarrow> runnerAttemptIdentity \<Rightarrow> ExitResult \<Rightarrow> go_error option
    \<Rightarrow> server_state \<Rightarrow> server_state" where
  "runnerExitedForAttempt cfg now ex other i attempt result err sv =
     (case read_state i sv of
        Inl _ \<Rightarrow> sv
      | Inr st0 \<Rightarrow>
          if specified attempt \<and> \<not> attempt_matches attempt st0 then sv
          else if rs_Status st0 \<noteq> StatusCreating \<and> rs_Status st0 \<noteq> StatusRunning
            then recordLateRunnerExitEvidence now i st0 attempt result err sv
          else
            let st = with_version result st0
            in if shouldCheckGitHubBusyAfterRunnerExit result err
               then case githubRunnerBusy ex st sv of (sv1, answer) \<Rightarrow>
                      exit_after_busy cfg now ex other i attempt result err answer (other sv1)
               else exit_conclude cfg now ex other i result err st sv)"

named_theorems serves_intros "the steps a handler is made of, as functions"
named_theorems serves_elims "the steps a handler is made of, by their results"

subsection \<open>What a handler may do\<close>

text \<open>
  Handlers change the table of requests by operations of the store only, and never take back a call or
  a wake-up of the queue. The rules have the form in which a handler is written: from a state it has
  reached to the next one.
\<close>

definition serves :: "server_state \<Rightarrow> server_state \<Rightarrow> bool" where
  "serves sv sv' \<longleftrightarrow> (\<exists>ops. sv_requests sv' = fold run_op ops (sv_requests sv))
     \<and> (\<exists>cs. sv_calls sv' = sv_calls sv @ cs) \<and> (sv_queueNotify sv \<longrightarrow> sv_queueNotify sv')"

lemma serves_refl [simp]: "serves sv sv"
  by (simp add: serves_def exI [of _ "[]"])

lemma serves_trans: "serves a b \<Longrightarrow> serves b c \<Longrightarrow> serves a c"
  unfolding serves_def by (metis append.assoc fold_append comp_apply)

lemma serves_op:
  assumes "sv_requests sv' = run_op op (sv_requests sv)" "sv_calls sv' = sv_calls sv" "sv_queueNotify sv' = sv_queueNotify sv"
  shows "serves sv sv'"
  using assms by (auto simp: serves_def intro: exI [of _ "[op]"])

lemma sv_requests_simps [simp]:
  "sv_requests (control_log now i text sv) = sv_requests sv" "sv_requests (staged_log now i stage text sv) = sv_requests sv"
  "sv_requests (signalQueue sv) = sv_requests sv" "sv_requests (call c sv) = sv_requests sv"
  by (simp_all add: control_log_def staged_log_def signalQueue_def call_def)

lemma sv_calls_simps [simp]:
  "sv_calls (control_log now i text sv) = sv_calls sv" "sv_calls (staged_log now i stage text sv) = sv_calls sv"
  "sv_calls (signalQueue sv) = sv_calls sv" "sv_calls (call c sv) = sv_calls sv @ [c]" "sv_calls (release_lease i w sv) = sv_calls sv"
  by (simp_all add: control_log_def staged_log_def signalQueue_def call_def release_lease_def)

lemma sv_queueNotify_simps [simp]:
  "sv_queueNotify (control_log now i text sv) = sv_queueNotify sv" "sv_queueNotify (staged_log now i stage text sv) = sv_queueNotify sv"
  "sv_queueNotify (signalQueue sv)" "sv_queueNotify (call c sv) = sv_queueNotify sv" "sv_queueNotify (release_lease i w sv) = sv_queueNotify sv"
  by (simp_all add: control_log_def staged_log_def signalQueue_def call_def release_lease_def)

lemma serves_step [serves_intros]:
  "serves a x \<Longrightarrow> serves a (control_log now i text x)"
  "serves a x \<Longrightarrow> serves a (staged_log now i stage text x)"
  "serves a x \<Longrightarrow> serves a (signalQueue x)"
  "serves a x \<Longrightarrow> serves a (call c x)"
  "serves a x \<Longrightarrow> serves a (x \<lparr> sv_waitingMetricsDirty := b \<rparr>)"
  by (auto simp: serves_def)

lemma serves_release [serves_intros]: "serves a x \<Longrightarrow> serves a (release_lease i w x)"
  by (rule serves_trans, assumption) (rule serves_op [of _ "OpRelease i w"], simp_all add: release_lease_def)

lemma serves_write [serves_elims]: "write_state now st x = Inr y \<Longrightarrow> serves a x \<Longrightarrow> serves a y"
  by (rule serves_trans, assumption)
     (rule serves_op [of _ "OpWrite now st"], auto simp: write_state_def result_bind_Inr_iff)

lemma serves_writeStateOrLog [serves_intros]: "serves a x \<Longrightarrow> serves a (writeStateOrLog now i st msg x)"
  by (auto simp: writeStateOrLog_def split: sum.split;
      (assumption | erule serves_elims | rule serves_intros)+)

lemma serves_fst [serves_elims]:
  "stopSandboxWithTimeout ex i s p x = (y, r1) \<Longrightarrow> serves a x \<Longrightarrow> serves a y"
  "cleanupGitHubRunner now ex st x = (y, r2) \<Longrightarrow> serves a x \<Longrightarrow> serves a y"
  "originalWorkflowJobQueued ex st x = (y, r3) \<Longrightarrow> serves a x \<Longrightarrow> serves a y"
  "githubRunnerBusy ex st x = (y, r4) \<Longrightarrow> serves a x \<Longrightarrow> serves a y"
  by ((auto simp: stopSandboxWithTimeout_def cleanupGitHubRunner_def originalWorkflowJobQueued_def githubRunnerBusy_def Let_def
      split: sum.splits option.splits if_splits;
      (assumption | erule serves_elims | rule serves_intros)+)+)

lemma serves_cleanupSandboxAfterExit [serves_elims]: "cleanupSandboxAfterExit now ex i st x = (y, r) \<Longrightarrow> serves a x \<Longrightarrow> serves a y"
  by (auto simp: cleanupSandboxAfterExit_def split: if_splits prod.splits option.splits;
      (assumption | erule serves_elims | rule serves_intros)+)

lemma serves_failing [serves_intros]:
  "serves a x \<Longrightarrow> serves a (retryOrFail cfg now st stage err x)"
  "serves a x \<Longrightarrow> serves a (failStartForAttempt cfg now w i st stage err attempt x)"
  "serves a x \<Longrightarrow> serves a (deferQueuedRequest now i w t stage x)"
  "serves a x \<Longrightarrow> serves a (deferCreatingRequest now i w t x)"
  by ((auto simp: retryOrFail_def failStartForAttempt_def deferQueuedRequest_def deferCreatingRequest_def Let_def
      split: sum.split prod.split;
      (assumption | erule serves_elims | rule serves_intros)+)+)

lemma serves_jobs [serves_elims]:
  "completeWithoutSandbox now i job reason x = (y, r1) \<Longrightarrow> serves a x \<Longrightarrow> serves a y"
  "markWorkflowJobInProgress now i job x = (y, r2) \<Longrightarrow> serves a x \<Longrightarrow> serves a y"
  "requeueMismatchedWorkflowJob now st job q x = (y, r3) \<Longrightarrow> serves a x \<Longrightarrow> serves a y"
  by ((auto simp: completeWithoutSandbox_def markWorkflowJobInProgress_def requeueMismatchedWorkflowJob_def Let_def
      split: sum.splits if_splits prod.splits;
      (assumption | erule serves_elims | rule serves_intros)+)+)

lemma serves_markRunnerJobStarted [serves_intros]: "serves a x \<Longrightarrow> serves a (markRunnerJobStarted now i x)"
  by (auto simp: markRunnerJobStarted_def split: sum.split;
      (assumption | erule serves_elims | rule serves_intros)+)

lemma serves_stop_parts [serves_elims]:
  "stop_conclude now i job st x = (y, r1) \<Longrightarrow> serves a x \<Longrightarrow> serves a y"
  "stop_mismatched now ex job st x = (y, r2) \<Longrightarrow> serves a x \<Longrightarrow> serves a y"
  by ((auto simp: stop_conclude_def stop_mismatched_def Let_def
      split: sum.splits if_splits prod.splits bool.splits;
      (assumption | erule serves_elims | rule serves_intros)+)+)

lemma serves_stop_jit [serves_elims]: "stop_jit_pending now ex i job st x = (y, r) \<Longrightarrow> serves a x \<Longrightarrow> serves a y"
  by (auto simp: stop_jit_pending_def Let_def
      split: sum.splits if_splits prod.splits;
      (assumption | erule serves_elims | rule serves_intros)+)

lemma serves_stop_cleanup [serves_elims]: "stop_cleanup cfg now ex i job st x = (y, r) \<Longrightarrow> serves a x \<Longrightarrow> serves a y"
  by (auto simp: stop_cleanup_def Let_def
      split: sum.splits if_splits prod.splits option.splits bool.splits;
      (assumption | erule serves_elims | rule serves_intros)+)

lemma serves_stop_sandbox [serves_elims]: "stop_sandbox cfg now ex i job st x = (y, r) \<Longrightarrow> serves a x \<Longrightarrow> serves a y"
  by (auto simp: stop_sandbox_def Let_def
      split: sum.splits if_splits prod.splits option.splits bool.splits;
      (assumption | erule serves_elims | rule serves_intros)+)

lemma serves_stopRunner [serves_elims]: "stopRunner cfg now ex i job source x = (y, r) \<Longrightarrow> serves a x \<Longrightarrow> serves a y"
  by (auto simp: stopRunner_def Let_def
      split: sum.splits if_splits prod.splits;
      (assumption | erule serves_elims | rule serves_intros)+)

lemma serves_stopIfExists [serves_intros]: "serves a x \<Longrightarrow> serves a (stopIfExists cfg now ex i job source x)"
  by (cases "stopRunner cfg now ex i job source x") (auto simp: stopIfExists_def split: sum.split;
      (assumption | erule serves_elims | rule serves_intros)+)

text \<open>The long handlers go by the shape of their text instead.\<close>

lemma serves_cases:
  "(\<And>y r. p = (y, r) \<Longrightarrow> serves a (f1 y r)) \<Longrightarrow> serves a (case p of (y, r) \<Rightarrow> f1 y r)"
  "(\<And>e. s = Inl e \<Longrightarrow> serves a (f2 e)) \<Longrightarrow> (\<And>v. s = Inr v \<Longrightarrow> serves a (g2 v)) \<Longrightarrow> serves a (case s of Inl e \<Rightarrow> f2 e | Inr v \<Rightarrow> g2 v)"
  "(q = None \<Longrightarrow> serves a f3) \<Longrightarrow> (\<And>v. q = Some v \<Longrightarrow> serves a (g3 v)) \<Longrightarrow> serves a (case q of None \<Rightarrow> f3 | Some v \<Rightarrow> g3 v)"
  "serves a f4 \<Longrightarrow> serves a g4 \<Longrightarrow> serves a (if c then f4 else g4)"
  "serves a f5 \<Longrightarrow> serves a g5 \<Longrightarrow> serves a (case b of True \<Rightarrow> f5 | False \<Rightarrow> g5)"
  "serves a x \<Longrightarrow> (\<And>y r. p' = (y, r) \<Longrightarrow> serves a y) \<Longrightarrow> serves a (fst (if c' then (x, r') else p'))"
  by (auto split: prod.split sum.split option.split bool.split) (cases p', simp)

lemma if_pair_elim: "(if c then x else y) = (u, v) \<Longrightarrow> (x = (u, v) \<Longrightarrow> P) \<Longrightarrow> (y = (u, v) \<Longrightarrow> P) \<Longrightarrow> P"
  by (auto split: if_splits)

lemma pair_step: "(x, v) = (y, w) \<Longrightarrow> serves a x \<Longrightarrow> serves a y"
  by simp

lemmas serves_shapes = if_pair_elim pair_step serves_elims

lemma serves_failAndStopRunnerVersion [serves_intros]:
  "serves a x \<Longrightarrow> serves a (failAndStopRunnerVersion cfg now ex i v stage reason message x)"
  unfolding failAndStopRunnerVersion_def Let_def
  by (assumption | erule serves_shapes | rule serves_cases serves_intros)+

lemma serves_failAndStopRunner [serves_intros]: "serves a x \<Longrightarrow> serves a (failAndStopRunner cfg now ex i stage reason message x)"
  unfolding failAndStopRunner_def by (rule serves_intros)

lemma serves_exit_parts [serves_elims]:
  "writeRunnerCleanupStart now i st x = (y, r1) \<Longrightarrow> serves a x \<Longrightarrow> serves a y"
  "retryRunnerExitedWithoutJob cfg now i st x = (y, r2) \<Longrightarrow> serves a x \<Longrightarrow> serves a y"
  by ((auto simp: writeRunnerCleanupStart_def retryRunnerExitedWithoutJob_def Let_def split: sum.splits if_splits prod.splits;
      (assumption | erule serves_elims | rule serves_intros)+)+)

lemma serves_exits [serves_intros]:
  "serves a x \<Longrightarrow> serves a (recordLateRunnerExitEvidence now i st attempt result err x)"
  "serves a x \<Longrightarrow> serves a (exit_error cfg now ex i gerr st x)"
  "serves a x \<Longrightarrow> serves a (exit_code cfg now ex i result st x)"
  unfolding recordLateRunnerExitEvidence_def exit_error_def exit_code_def Let_def
  by (assumption | erule if_pair_elim pair_step serves_elims | rule serves_cases serves_intros)+

text \<open>Handlers that give the lock up: so long as the rest of the server serves, they do.\<close>

lemma serves_other: "(\<And>s. serves s (other s)) \<Longrightarrow> serves a x \<Longrightarrow> serves a (other x)"
  using serves_trans by blast

lemma serves_retain_exit:
  assumes "\<And>s. serves s (other s)" "serves a x" shows "serves a (retainWorkflowJobResultAfterRunnerExit now ex other i x)"
  using assms(2) unfolding retainWorkflowJobResultAfterRunnerExit_def Let_def
  by - (assumption | erule serves_elims | rule serves_cases serves_intros serves_other [OF assms(1)])+

lemma serves_exit_conclude:
  assumes "\<And>s. serves s (other s)" "serves a x" shows "serves a (exit_conclude cfg now ex other i result err st x)"
  using assms(2) unfolding exit_conclude_def Let_def
  by - (assumption | rule serves_retain_exit [OF assms(1)] serves_cases serves_intros serves_other [OF assms(1)])+

lemma serves_exit_after_busy:
  assumes "\<And>s. serves s (other s)" "serves a x" shows "serves a (exit_after_busy cfg now ex other i attempt result err answer x)"
  using assms(2) unfolding exit_after_busy_def Let_def
  by - (assumption | erule serves_elims | rule serves_exit_conclude [OF assms(1)] serves_cases serves_intros)+

lemma serves_runnerExited:
  assumes "\<And>s. serves s (other s)" "serves a x" shows "serves a (runnerExitedForAttempt cfg now ex other i attempt result err x)"
  using assms(2) unfolding runnerExitedForAttempt_def Let_def
  by - (assumption | erule serves_elims | rule serves_exit_after_busy [OF assms(1)] serves_exit_conclude [OF assms(1)] serves_cases serves_intros
      serves_other [OF assms(1)])+

subsection \<open>Sandboxes are not forgotten\<close>

lemma assign_job_simps [simp]:
  "rs_ID (assign_job job st) = rs_ID st" "rs_SandboxID (assign_job job st) = rs_SandboxID st"
  "rs_ProcessPID (assign_job job st) = rs_ProcessPID st" "rs_Status (assign_job job st) = rs_Status st"
  by (simp_all add: assign_job_def)

lemma cleanup_marks_simps [simp]:
  "rs_ID (setTerminationSource s st) = rs_ID st" "rs_SandboxID (setTerminationSource s st) = rs_SandboxID st"
  "rs_ProcessPID (setTerminationSource s st) = rs_ProcessPID st" "rs_Status (setTerminationSource s st) = rs_Status st"
  "rs_ID (markRunnerCleanupStarted t st) = rs_ID st" "rs_SandboxID (markRunnerCleanupStarted t st) = rs_SandboxID st"
  "rs_ProcessPID (markRunnerCleanupStarted t st) = rs_ProcessPID st" "rs_Status (markRunnerCleanupStarted t st) = StatusStopping"
  "rs_ID (bump st) = rs_ID st" "rs_SandboxID (bump st) = rs_SandboxID st" "rs_ProcessPID (bump st) = rs_ProcessPID st"
  "rs_Status (bump st) = rs_Status st"
  by (simp_all add: setTerminationSource_def markRunnerCleanupStarted_def Let_def bump_def)

lemma retain_fields_simps [simp]:
  "rs_ID (fst (retain_fields a b c d st)) = rs_ID st" "rs_SandboxID (fst (retain_fields a b c d st)) = rs_SandboxID st"
  "rs_ProcessPID (fst (retain_fields a b c d st)) = rs_ProcessPID st" "rs_Status (fst (retain_fields a b c d st)) = rs_Status st"
  by (simp_all add: retain_fields_def Let_def)

definition same_run :: "RunnerState \<Rightarrow> RunnerState \<Rightarrow> bool" where
  "same_run st st' \<longleftrightarrow> rs_ID st' = rs_ID st \<and> rs_SandboxID st' = rs_SandboxID st \<and> rs_ProcessPID st' = rs_ProcessPID st \<and> rs_Status st' = rs_Status st"

lemma same_run_intros:
  "same_run st (fst (st, b))" "same_run st (fst (fst (retain_fields n s c d st), b))"
  "same_run st (fst (fst (retain_fields n s c d st) \<lparr> rs_GitHubJobObservedAt := t \<rparr>, b))"
  "same_run st (fst p) \<Longrightarrow> same_run st (fst q) \<Longrightarrow> same_run st (fst (if cond then p else q))"
  by (simp_all add: same_run_def)

lemma same_run_retain: "same_run st (fst (retainWorkflowJobResult now job t st))"
  unfolding retainWorkflowJobResult_def Let_def case_prod_beta by (rule same_run_intros)+

lemma retainWorkflowJobResult_keeps:
  "retainWorkflowJobResult now job t st = (st', ch) \<Longrightarrow>
     rs_ID st' = rs_ID st \<and> rs_SandboxID st' = rs_SandboxID st \<and> rs_ProcessPID st' = rs_ProcessPID st \<and> rs_Status st' = rs_Status st"
  using same_run_retain [of st now job t] by (simp add: same_run_def)

lemma schedule_keeps:
  "scheduleStopRetry cfg now err st = (st1, True) \<Longrightarrow> rs_ID st1 = rs_ID st \<and> rs_Status st1 = StatusStopping
     \<and> rs_SandboxID st1 = rs_SandboxID st \<and> rs_ProcessPID st1 = rs_ProcessPID st"
  "scheduleStopRetry cfg now err st = (st1, False) \<Longrightarrow> st1 = st"
  by (auto simp: scheduleStopRetry_def split: prod.splits if_splits)

lemma read_state_id: "table_ok (sv_requests sv) \<Longrightarrow> read_state i sv = Inr st \<Longrightarrow> rs_ID st = sanitizeID i \<and> sanitizeID (rs_ID st) = sanitizeID i"
  by (auto simp: read_state_def ReadState_iff table_ok_def row_wf_def)

text \<open>A write is read back with the columns it was given.\<close>

lemma write_then_columns:
  assumes "table_ok (sv_requests sv)" "write_state now st sv = Inr sv'" "sanitizeID (rs_ID st) = sanitizeID i"
  shows "\<exists>r. read_state i sv' = Inr (recordToState (write_columns (stamped now st) r))"
proof -
  obtain tbl where w: "WriteState now st (sv_requests sv) = Inr tbl" "sv' = sv \<lparr> sv_requests := tbl \<rparr>"
    using assms(2) by (auto simp: write_state_def result_bind_Inr_iff)
  have ok: "table_ok tbl" using assms(1) w(1) by (rule table_ok_WriteState)
  have t: "\<exists>r\<in>set (sv_requests sv). write_target st r" and e: "tbl = update_where (write_target st) (write_columns (stamped now st)) (sv_requests sv)"
    using w(1) assms(1) by (auto simp: WriteState_Inr_iff)
  obtain r where r: "r \<in> set (sv_requests sv)" "write_target st r" using t by blast
  have "write_columns (stamped now st) r \<in> set tbl" using r by (auto simp: e update_where_def)
  moreover have "rr_ID (write_columns (stamped now st) r) = sanitizeID i" using r(2) assms(3) by (simp add: write_target_def)
  ultimately have "ReadState i tbl = Inr (recordToState (write_columns (stamped now st) r))" using ReadState_iff [OF ok] by blast
  then show ?thesis by (auto simp: read_state_def w(2))
qed

lemma stamped_run [simp]:
  "rs_Status (stamped now st) = rs_Status st" "rs_SandboxID (stamped now st) = rs_SandboxID st" "rs_ProcessPID (stamped now st) = rs_ProcessPID st"
  by (simp_all add: stamped_def applyStateTimestamps_def Let_def split: runner_status.split)

lemma write_columns_run [simp]:
  "rs_SandboxID (recordToState (write_columns st r)) = rs_SandboxID st" "rs_ProcessPID (recordToState (write_columns st r)) = rs_ProcessPID st"
  by (simp_all add: recordToState_def write_columns_def Let_def)

text \<open>The row still names the sandbox and the process of a given state, with one of the given statuses.\<close>

definition sandbox_kept :: "string \<Rightarrow> RunnerState \<Rightarrow> runner_status set \<Rightarrow> server_state \<Rightarrow> bool" where
  "sandbox_kept i st S sv =
     (\<exists>st'. read_state i sv = Inr st' \<and> rs_SandboxID st' = rs_SandboxID st \<and> rs_ProcessPID st' = rs_ProcessPID st \<and> rs_Status st' \<in> S)"

lemma kept_write:
  assumes "table_ok (sv_requests sv)" "write_state now st1 sv = Inr sv1" "sanitizeID (rs_ID st1) = sanitizeID i"
    "rs_SandboxID st1 = rs_SandboxID st" "rs_ProcessPID st1 = rs_ProcessPID st" "rs_Status st1 \<in> S" "sv_requests sv' = sv_requests sv1"
  shows "sandbox_kept i st S sv'"
  using write_then_columns [OF assms(1-3)] assms(4-7) by (auto simp: sandbox_kept_def read_state_def)

lemma kept_same: "sv_requests sv' = sv_requests sv \<Longrightarrow> sandbox_kept i st S sv \<Longrightarrow> sandbox_kept i st S sv'"
  by (simp add: sandbox_kept_def read_state_def)

lemma table_ok_serves: "serves a x \<Longrightarrow> table_ok (sv_requests a) \<Longrightarrow> table_ok (sv_requests x)"
  by (auto simp: serves_def intro: table_ok_run_ops)

lemma table_ok_write: "table_ok (sv_requests sv) \<Longrightarrow> write_state now st sv = Inr sv' \<Longrightarrow> table_ok (sv_requests sv')"
  by (rule table_ok_serves [of sv]) (auto intro: serves_write)

lemma json_error: "json_Unmarshal_labels j = Inl e \<Longrightarrow> e = Errorf ''json''"
  by (cases j) auto

lemma ReadRequest_errors: "ReadRequest i tbl = Inl e \<Longrightarrow> e = ErrRecordNotFound \<or> e = Errorf ''json''"
  by (auto simp: ReadRequest_def readRecord_def recordToRequest_def elim!: result_bind.elims dest: json_error
      split: option.splits if_splits)

lemma read_error_not_gone: "ReadRequest i tbl = Inl e \<Longrightarrow> \<not> isSandboxGone (wrap_error ''read runner request for sandbox service'' e)"
proof -
  have "\<not> isSandboxGone (wrap_error ''read runner request for sandbox service'' ErrRecordNotFound)"
    "\<not> isSandboxGone (wrap_error ''read runner request for sandbox service'' (Errorf ''json''))" by code_simp+
  then show "ReadRequest i tbl = Inl e \<Longrightarrow> ?thesis" using ReadRequest_errors by blast
qed

text \<open>
  The two ways in which the code takes a sandbox for ended: the service was asked to stop it and confirmed
  this, or the lookup of the service failed with an error whose text reads like a missing sandbox.
\<close>

definition stop_confirmed :: "external \<Rightarrow> string \<Rightarrow> int \<Rightarrow> server_state \<Rightarrow> server_state \<Rightarrow> bool" where
  "stop_confirmed ex sid pid sv sv' \<longleftrightarrow> (\<exists>cs. sv_calls sv' = sv_calls sv @ CallStopRunner sid pid # cs)
     \<and> (case ex_StopRunner ex sid pid of None \<Rightarrow> True | Some err \<Rightarrow> isSandboxGone err)"

definition lookup_reads_gone :: "external \<Rightarrow> string \<Rightarrow> requests_table \<Rightarrow> bool" where
  "lookup_reads_gone ex i tbl \<longleftrightarrow> (\<exists>req err. ReadRequest i tbl = Inr req \<and> ex_SandboxService ex req = Some err \<and> isSandboxGone err)"

lemma stopSandbox_ended:
  assumes stop: "stopSandboxWithTimeout ex i sid pid sv = (sv1, answer)" and ended: "case answer of None \<Rightarrow> True | Some err \<Rightarrow> isSandboxGone err"
    and z: "sv_calls sv = sv_calls a" "serves sv1 z"
  shows "stop_confirmed ex sid pid a z \<or> lookup_reads_gone ex i (sv_requests sv)"
proof (cases "ReadRequest i (sv_requests sv)")
  case (Inl e)
  then show ?thesis using stop ended read_error_not_gone by (auto simp: stopSandboxWithTimeout_def)
next
  case (Inr req)
  show ?thesis
  proof (cases "ex_SandboxService ex req")
    case None
    then have "sv_calls sv1 = sv_calls a @ [CallStopRunner sid pid]" "ex_StopRunner ex sid pid = answer"
      using stop Inr z(1) by (auto simp: stopSandboxWithTimeout_def)
    then show ?thesis using ended z(2) by (auto simp: stop_confirmed_def serves_def)
  next
    case (Some err)
    have "stopSandboxWithTimeout ex i sid pid sv = (sv, Some err)" using Inr Some by (simp add: stopSandboxWithTimeout_def)
    then have "isSandboxGone err" using stop ended by simp
    then show ?thesis using Inr Some unfolding lookup_reads_gone_def by blast
  qed
qed

lemma stop_sandbox_cases:
  assumes "stop_sandbox cfg now ex i job st sv = (sv', r)" "rs_SandboxID st \<noteq> []"
  obtains sv0 sv1 answer where
    "sv_requests sv0 = sv_requests sv" "sv_calls sv0 = sv_calls sv" "serves sv sv0"
    "stopSandboxWithTimeout ex i (rs_SandboxID st) (rs_ProcessPID st) sv0 = (sv1, answer)" "serves sv1 sv'"
    "(case answer of None \<Rightarrow> True | Some err \<Rightarrow> isSandboxGone err)
     \<or> sv_requests sv' = sv_requests sv1
     \<or> (\<exists>st1 sv2. write_state now st1 sv1 = Inr sv2 \<and> sv_requests sv' = sv_requests sv2 \<and> rs_ID st1 = rs_ID st
          \<and> rs_SandboxID st1 = rs_SandboxID st \<and> rs_ProcessPID st1 = rs_ProcessPID st \<and> rs_Status st1 \<in> {StatusStopping, StatusFailed})"
proof -
  define sv0 where "sv0 = staged_log now i runnerEventStageSandboxCleanup (''sandbox stop requested sandbox_id='' @ rs_SandboxID st
              @ '' pid='' @ int_dec (rs_ProcessPID st)) sv"
  obtain sv1 answer where stop: "stopSandboxWithTimeout ex i (rs_SandboxID st) (rs_ProcessPID st) sv0 = (sv1, answer)" by fastforce
  note run = assms(1) [unfolded stop_sandbox_def Let_def, folded sv0_def, unfolded stop, simplified assms(2) if_False prod.case]
  have *: "(\<exists>st1 sv2. write_state now st1 sv1 = Inr sv2 \<and> sv_requests sv' = sv_requests sv2 \<and> rs_ID st1 = rs_ID st
          \<and> rs_SandboxID st1 = rs_SandboxID st \<and> rs_ProcessPID st1 = rs_ProcessPID st \<and> rs_Status st1 \<in> {StatusStopping, StatusFailed}
          \<and> serves sv1 sv') \<or> sv' = sv1"
    if err: "answer = Some err" "\<not> isSandboxGone err" for err
  proof (cases "scheduleStopRetry cfg now err st")
    case (Pair st1 again)
    define st2 where "st2 = (if again then st1 else st1 \<lparr> rs_Status := StatusFailed, rs_FailureStage := ''stop'',
        rs_FailureReason := ''stop_failed'', rs_Error := err_text err \<rparr>)"
    have keep: "rs_ID st2 = rs_ID st" "rs_SandboxID st2 = rs_SandboxID st" "rs_ProcessPID st2 = rs_ProcessPID st" "rs_Status st2 \<in> {StatusStopping, StatusFailed}"
      using schedule_keeps [of cfg now err st st1] Pair by (auto simp: st2_def)
    show ?thesis
    proof (cases "write_state now st2 sv1")
      case (Inr y)
      then have "serves sv1 y" by (rule serves_write) simp
      moreover have "\<exists>text. sv' = y \<or> sv' = staged_log now i runnerEventStageSandboxCleanup text y"
        using run err Pair Inr by (auto simp: st2_def split: if_splits bool.splits)
      ultimately show ?thesis using Inr keep by (auto intro!: exI [of _ st2] exI [of _ y] intro: serves_intros)
    qed (use run err Pair in \<open>auto simp: st2_def split: if_splits bool.splits\<close>)
  qed
  have "serves sv1 sv'" if ended: "case answer of None \<Rightarrow> True | Some err \<Rightarrow> isSandboxGone err"
  proof -
    obtain line where "stop_cleanup cfg now ex i job st (staged_log now i runnerEventStageSandboxCleanup line sv1) = (sv', r)"
      using run ended by (cases answer) auto
    then show ?thesis by (rule serves_stop_cleanup) (intro serves_intros serves_refl)
  qed
  then have "serves sv1 sv'" using * by (cases answer) fastforce+
  moreover have "(case answer of None \<Rightarrow> True | Some err \<Rightarrow> isSandboxGone err) \<or> sv_requests sv' = sv_requests sv1
     \<or> (\<exists>st1 sv2. write_state now st1 sv1 = Inr sv2 \<and> sv_requests sv' = sv_requests sv2 \<and> rs_ID st1 = rs_ID st
          \<and> rs_SandboxID st1 = rs_SandboxID st \<and> rs_ProcessPID st1 = rs_ProcessPID st \<and> rs_Status st1 \<in> {StatusStopping, StatusFailed})"
    using * by (cases answer) fastforce+
  moreover have "serves sv sv0" unfolding sv0_def by (intro serves_intros serves_refl)
  ultimately show ?thesis using that [of sv0 sv1 answer] stop by (simp add: sv0_def)
qed

lemma stop_sandbox_ends:
  assumes ok: "table_ok (sv_requests sv)" and run: "stop_sandbox cfg now ex i job st sv = (sv', r)"
    and sid: "rs_SandboxID st \<noteq> []" "sanitizeID (rs_ID st) = sanitizeID i"
    and before: "sandbox_kept i st S sv" "{StatusStopping, StatusFailed} \<subseteq> S"
  shows "sandbox_kept i st S sv' \<or> stop_confirmed ex (rs_SandboxID st) (rs_ProcessPID st) sv sv' \<or> lookup_reads_gone ex i (sv_requests sv)"
proof -
  obtain sv0 sv1 answer where same: "sv_requests sv0 = sv_requests sv" "sv_calls sv0 = sv_calls sv" "serves sv sv0"
    and stop: "stopSandboxWithTimeout ex i (rs_SandboxID st) (rs_ProcessPID st) sv0 = (sv1, answer)" "serves sv1 sv'"
    and cases: "(case answer of None \<Rightarrow> True | Some err \<Rightarrow> isSandboxGone err) \<or> sv_requests sv' = sv_requests sv1
     \<or> (\<exists>st1 sv2. write_state now st1 sv1 = Inr sv2 \<and> sv_requests sv' = sv_requests sv2 \<and> rs_ID st1 = rs_ID st
          \<and> rs_SandboxID st1 = rs_SandboxID st \<and> rs_ProcessPID st1 = rs_ProcessPID st \<and> rs_Status st1 \<in> {StatusStopping, StatusFailed})"
    using run sid(1) by (rule stop_sandbox_cases)
  have keep: "sv_requests sv1 = sv_requests sv"
    using stop(1) same(1) by (auto simp: stopSandboxWithTimeout_def split: sum.splits option.splits)
  show ?thesis
    using cases
  proof (elim disjE exE conjE)
    assume "case answer of None \<Rightarrow> True | Some err \<Rightarrow> isSandboxGone err"
    then show ?thesis using stopSandbox_ended [OF stop(1) _ same(2) stop(2)] same(1) by simp
  next
    assume "sv_requests sv' = sv_requests sv1"
    then show ?thesis using kept_same [OF _ before(1)] keep by simp
  next
    fix st1 sv2
    assume w: "write_state now st1 sv1 = Inr sv2" "sv_requests sv' = sv_requests sv2" "rs_ID st1 = rs_ID st" "rs_SandboxID st1 = rs_SandboxID st"
      "rs_ProcessPID st1 = rs_ProcessPID st" "rs_Status st1 \<in> {StatusStopping, StatusFailed}"
    have "sandbox_kept i st S sv'" using kept_write [OF _ w(1) _ w(4,5) _ w(2)] w(3,6) ok keep sid(2) before(2) by auto
    then show ?thesis ..
  qed
qed

text \<open>The part of \<open>stopRunner\<close> before the sandbox is looked at: the row keeps the sandbox, and the stop goes on from there, with the row marked as stopping.\<close>

definition stop_columns :: "instant \<Rightarrow> WorkflowJob \<Rightarrow> string \<Rightarrow> RunnerState \<Rightarrow> RunnerState" where
  "stop_columns now job source st = markRunnerCleanupStarted now (setTerminationSource source (assign_job job (fst (retainWorkflowJobResult now job now st))))"

lemma stopRunner_cases:
  assumes ok: "table_ok (sv_requests sv)" and st: "read_state i sv = Inr st" and run: "stopRunner cfg now ex i job source sv = (sv', r)"
    and S: "{rs_Status st, StatusStopping, StatusFailed} \<subseteq> S"
  shows "sandbox_kept i st S sv' \<or>
    (\<exists>st2 sv2. stop_sandbox cfg now ex i job st2 sv2 = (sv', r) \<and> rs_ID st2 = rs_ID st \<and> rs_SandboxID st2 = rs_SandboxID st
       \<and> rs_ProcessPID st2 = rs_ProcessPID st \<and> sandbox_kept i st S sv2 \<and> table_ok (sv_requests sv2) \<and> sv_calls sv2 = sv_calls sv
       \<and> WriteState now (stop_columns now job source st) (sv_requests sv) = Inr (sv_requests sv2))"
proof -
  obtain st1 changed where retain: "retainWorkflowJobResult now job now st = (st1, changed)" by fastforce
  note keep = retainWorkflowJobResult_keeps [OF retain]
  note i = read_state_id [OF ok st]
  have kept: "sandbox_kept i st S sv" using st S by (auto simp: sandbox_kept_def)
  have wrote: "sandbox_kept i st S y" if "write_state now s x = Inr z" "sv_requests y = sv_requests z" "sv_requests x = sv_requests sv"
    "rs_ID s = rs_ID st" "rs_SandboxID s = rs_SandboxID st" "rs_ProcessPID s = rs_ProcessPID st" "rs_Status s \<in> S" for s x y z
    using kept_write [of x now s z i st S y] that ok i by simp
  note run' = run [unfolded stopRunner_def st sum.case retain prod.case Let_def]
  consider "workflowJobStopConflictsWithAssignment st1 job" | "\<not> workflowJobStopConflictsWithAssignment st1 job" "rs_Status st1 = StatusCompleted"
    | "\<not> workflowJobStopConflictsWithAssignment st1 job" "rs_Status st1 \<noteq> StatusCompleted" by blast
  then show ?thesis
  proof cases
    case 1
    then show ?thesis using run' kept_same [OF _ kept] wrote [of st1 sv] keep S by (auto split: if_splits sum.splits)
  next
    case 2
    then show ?thesis using run' kept wrote [of "assign_job job st1" sv] keep S by (auto split: if_splits sum.splits)
  next
    case 3
    define st2 where "st2 = markRunnerCleanupStarted now (setTerminationSource source (assign_job job st1))"
    define sv1 where "sv1 = (if wj_ID job \<noteq> 0 then control_log now i (''workflow job completed on GitHub: job_id='' @ int_dec (wj_ID job)
      @ '' status='' @ wj_Status job @ '' conclusion='' @ workflowConclusion job) sv else sv)"
    have st2: "rs_ID st2 = rs_ID st" "rs_SandboxID st2 = rs_SandboxID st" "rs_ProcessPID st2 = rs_ProcessPID st" "rs_Status st2 = StatusStopping"
      using keep by (simp_all add: st2_def)
    have sv1: "sv_requests sv1 = sv_requests sv" "sv_calls sv1 = sv_calls sv" "serves sv sv1"
      using serves_step(1) [OF serves_refl] by (simp_all add: sv1_def serves_refl)
    have go: "(case write_state now st2 sv1 of Inl e \<Rightarrow> (sv1, Inl (wrap_error ''write stopping state'' e))
         | Inr sv2 \<Rightarrow> stop_sandbox cfg now ex i job (bump st2) sv2) = (sv', r)"
      using run' 3 by (simp only: sv1_def st2_def if_False)
    show ?thesis
    proof (cases "write_state now st2 sv1")
      case (Inl e)
      then show ?thesis using go kept_same [OF _ kept] sv1(1) by auto
    next
      case (Inr sv2)
      have "serves sv sv2" by (rule serves_write [OF Inr sv1(3)])
      moreover have "sandbox_kept i st S sv2" using wrote [OF Inr refl sv1(1)] st2 S by simp
      moreover have "sv_calls sv2 = sv_calls sv" using Inr sv1(2) by (auto simp: write_state_def)
      moreover have "stop_sandbox cfg now ex i job (bump st2) sv2 = (sv', r)" using go Inr by simp
      moreover have "WriteState now (stop_columns now job source st) (sv_requests sv) = Inr (sv_requests sv2)"
        using Inr sv1(1) by (auto simp: stop_columns_def retain st2_def [symmetric] write_state_def split: sum.splits)
      ultimately show ?thesis using st2 table_ok_serves [OF _ ok] by (intro disjI2 exI [of _ "bump st2"] exI [of _ sv2]) simp
    qed
  qed
qed


definition sample_job :: WorkflowJob where
  "sample_job = zero_job \<lparr> wj_ID := 7, wj_Status := ''queued'', wj_Labels := [''Linux''] \<rparr>"

definition sample_external :: external where
  "sample_external = \<lparr> ex_SandboxService = (\<lambda>_. None), ex_StopRunner = (\<lambda>_ _. None), ex_RemoveRunnerByName = (\<lambda>_ _ _. Inr True),
     ex_GetWorkflowJob = (\<lambda>_ _. Inr sample_job), ex_ListRunners = (\<lambda>_ _. Inr []) \<rparr>"

definition empty_server :: server_state where
  "empty_server = \<lparr> sv_requests = [], sv_events = [], sv_queueNotify = False, sv_waitingMetricsDirty = False, sv_calls = [] \<rparr>"

definition running_server :: server_state where
  "running_server = empty_server \<lparr> sv_requests := [sample_row \<lparr> rr_Status := StatusRunning, rr_SandboxID := ''sb'', rr_ProcessPID := 4 \<rparr>] \<rparr>"

lemma running_server_ok: "table_ok (sv_requests running_server)"
  using sample_table_ok by (simp add: running_server_def table_ok_def row_wf_def)


end
