(* ===== verification/Sandboxes.thy ===== *)
theory Sandboxes
  imports Settings CacheScopes Admission Lifecycle Catalog
begin

text \<open>
  Which sandbox service, with whose credentials, a request runs on:
  \<^verbatim>\<open>internal/server/server_sandbox_service.go\<close>, the sponsorship of forks of
  \<^verbatim>\<open>internal/state/fork_sponsorships.go\<close>, the cache storage of \<^verbatim>\<open>cache_service.go\<close>.

  A service is named by the configuration snapshot it was made from; \<open>mk\<close> decrypts its key and
  makes it, or fails. \<open>decode\<close> reads the JSON text of a preference. The tables are those of the
  store; the lookups of installation owners may write one, so the installations are threaded
  through. The server's fixed service of tests (\<^verbatim>\<open>s.sandbox\<close>) is absent.
\<close>

subsection \<open>Sponsorships\<close>

record ForkSponsorshipPolicy =
  fp_SponsorInstallationID :: int
  fp_SourceRepositoryID :: int
  fp_SourceRepositoryFullName :: string
  fp_Mode :: string
  fp_Enabled :: bool
  fp_MaxConcurrency :: int
  fp_CreatedAt :: instant
  fp_UpdatedAt :: instant

record ForkSponsorshipApproval =
  fa_SponsorInstallationID :: int
  fa_SourceRepositoryID :: int
  fa_ForkRepositoryID :: int
  fa_ForkRepositoryFullName :: string
  fa_ForkOwnerID :: int
  fa_ForkOwnerLogin :: string
  fa_CreatedAt :: instant
  fa_UpdatedAt :: instant

record sponsorship_db =
  fs_policies :: "ForkSponsorshipPolicy list"
  fs_approvals :: "ForkSponsorshipApproval list"

definition ForkSponsorshipModeApprovalRequired :: string where
  "ForkSponsorshipModeApprovalRequired = ''approval_required''"

definition ForkSponsorshipModeWritePermission :: string where
  "ForkSponsorshipModeWritePermission = ''write_permission''"

definition ForkSponsorshipModeOrganizationMember :: string where
  "ForkSponsorshipModeOrganizationMember = ''organization_member''"

definition policy_key :: "ForkSponsorshipPolicy \<Rightarrow> int \<times> int" where
  "policy_key p = (fp_SponsorInstallationID p, fp_SourceRepositoryID p)"

definition approval_key :: "ForkSponsorshipApproval \<Rightarrow> int \<times> int" where
  "approval_key a = (fa_SourceRepositoryID a, fa_ForkRepositoryID a)"

definition validateForkSponsorshipPolicy :: "ForkSponsorshipPolicy \<Rightarrow> error option" where
  "validateForkSponsorshipPolicy policy =
     (if fp_SponsorInstallationID policy \<le> 0 then Some (Errorf ''sponsor installation id must be positive'')
      else if fp_SourceRepositoryID policy \<le> 0 then Some (Errorf ''source repository id must be positive'')
      else if TrimSpace (fp_SourceRepositoryFullName policy) = [] then Some (Errorf ''source repository full name is required'')
      else if fp_Mode policy \<notin> {ForkSponsorshipModeApprovalRequired, ForkSponsorshipModeWritePermission, ForkSponsorshipModeOrganizationMember}
        then Some (Errorf ''unsupported fork sponsorship mode'')
      else if fp_MaxConcurrency policy \<le> 0 then Some (Errorf ''fork sponsorship max concurrency must be positive'')
      else None)"

definition ListForkSponsorshipPolicies :: "int \<Rightarrow> sponsorship_db \<Rightarrow> ForkSponsorshipPolicy list" where
  "ListForkSponsorshipPolicies sponsorInstallationID db =
     sort_key fp_SourceRepositoryFullName (filter (\<lambda>p. fp_SponsorInstallationID p = sponsorInstallationID) (fs_policies db))"

definition GetForkSponsorshipPolicy :: "int \<Rightarrow> int \<Rightarrow> sponsorship_db \<Rightarrow> ForkSponsorshipPolicy result" where
  "GetForkSponsorshipPolicy sponsorInstallationID sourceRepositoryID db =
     (case lookup_by policy_key (sponsorInstallationID, sourceRepositoryID) (fs_policies db) of None \<Rightarrow> Inl ErrNotFound | Some p \<Rightarrow> Inr p)"

definition GetForkSponsorshipPolicyBySourceRepositoryID :: "int \<Rightarrow> sponsorship_db \<Rightarrow> ForkSponsorshipPolicy result" where
  "GetForkSponsorshipPolicyBySourceRepositoryID sourceRepositoryID db =
     (case lookup_by fp_SourceRepositoryID sourceRepositoryID (fs_policies db) of None \<Rightarrow> Inl ErrNotFound | Some p \<Rightarrow> Inr p)"

definition normalize_policy :: "ForkSponsorshipPolicy \<Rightarrow> ForkSponsorshipPolicy" where
  "normalize_policy p = p \<lparr> fp_SourceRepositoryFullName := TrimSpace (fp_SourceRepositoryFullName p), fp_Mode := TrimSpace (fp_Mode p) \<rparr>"

text \<open>The primary key is the pair of sponsor and source; the source alone is unique as well.\<close>

definition CreateForkSponsorshipPolicy :: "instant \<Rightarrow> ForkSponsorshipPolicy \<Rightarrow> sponsorship_db \<Rightarrow> sponsorship_db \<times> ForkSponsorshipPolicy result" where
  "CreateForkSponsorshipPolicy now policy0 db =
     (let policy = normalize_policy policy0
      in case validateForkSponsorshipPolicy policy of Some e \<Rightarrow> (db, Inl e) | None \<Rightarrow>
         if list_ex (\<lambda>p. policy_key p = policy_key policy \<or> fp_SourceRepositoryID p = fp_SourceRepositoryID policy) (fs_policies db)
         then (db, Inl ErrConflict)
         else
           let db1 = db \<lparr> fs_policies := fs_policies db @ [policy \<lparr> fp_CreatedAt := now, fp_UpdatedAt := now \<rparr>] \<rparr>
           in (db1, GetForkSponsorshipPolicy (fp_SponsorInstallationID policy) (fp_SourceRepositoryID policy) db1))"

definition UpdateForkSponsorshipPolicy :: "instant \<Rightarrow> ForkSponsorshipPolicy \<Rightarrow> sponsorship_db \<Rightarrow> sponsorship_db \<times> ForkSponsorshipPolicy result" where
  "UpdateForkSponsorshipPolicy now policy0 db =
     (let policy = normalize_policy policy0;
          hit = (\<lambda>p. policy_key p = policy_key policy)
      in case validateForkSponsorshipPolicy policy of Some e \<Rightarrow> (db, Inl e) | None \<Rightarrow>
         if rows_affected hit (fs_policies db) = 0 then
           (case GetForkSponsorshipPolicyBySourceRepositoryID (fp_SourceRepositoryID policy) db of
              Inr existing \<Rightarrow> if fp_SponsorInstallationID existing \<noteq> fp_SponsorInstallationID policy then (db, Inl ErrConflict) else (db, Inr existing)
            | Inl e \<Rightarrow> (db, Inl e))
         else
           let db1 = db \<lparr> fs_policies := update_where hit (\<lambda>p. p \<lparr> fp_SourceRepositoryFullName := fp_SourceRepositoryFullName policy,
                 fp_Mode := fp_Mode policy, fp_Enabled := fp_Enabled policy, fp_MaxConcurrency := fp_MaxConcurrency policy, fp_UpdatedAt := now \<rparr>) (fs_policies db) \<rparr>
           in (db1, GetForkSponsorshipPolicy (fp_SponsorInstallationID policy) (fp_SourceRepositoryID policy) db1))"

definition UpsertForkSponsorshipPolicy :: "instant \<Rightarrow> ForkSponsorshipPolicy \<Rightarrow> sponsorship_db \<Rightarrow> sponsorship_db \<times> ForkSponsorshipPolicy result" where
  "UpsertForkSponsorshipPolicy now policy0 db =
     (let policy = normalize_policy policy0
      in case validateForkSponsorshipPolicy policy of Some e \<Rightarrow> (db, Inl e) | None \<Rightarrow>
         (case GetForkSponsorshipPolicyBySourceRepositoryID (fp_SourceRepositoryID policy) db of
            Inr existing \<Rightarrow>
              if fp_SponsorInstallationID existing \<noteq> fp_SponsorInstallationID policy then (db, Inl ErrConflict)
              else UpdateForkSponsorshipPolicy now policy db
          | Inl e \<Rightarrow> if e \<noteq> ErrNotFound then (db, Inl e) else CreateForkSponsorshipPolicy now policy db))"

definition DeleteForkSponsorshipPolicy :: "int \<Rightarrow> int \<Rightarrow> sponsorship_db \<Rightarrow> sponsorship_db \<times> unit result" where
  "DeleteForkSponsorshipPolicy sponsorInstallationID sourceRepositoryID db =
     (if lookup_by policy_key (sponsorInstallationID, sourceRepositoryID) (fs_policies db) = None then (db, Inl ErrNotFound)
      else (db \<lparr> fs_approvals := delete_where (\<lambda>a. fa_SponsorInstallationID a = sponsorInstallationID \<and> fa_SourceRepositoryID a = sourceRepositoryID) (fs_approvals db),
                 fs_policies := delete_where (\<lambda>p. policy_key p = (sponsorInstallationID, sourceRepositoryID)) (fs_policies db) \<rparr>, Inr ()))"

definition ListForkSponsorshipApprovals :: "int \<Rightarrow> int \<Rightarrow> sponsorship_db \<Rightarrow> ForkSponsorshipApproval list" where
  "ListForkSponsorshipApprovals sponsorInstallationID sourceRepositoryID db =
     sort_key fa_ForkRepositoryFullName
       (filter (\<lambda>a. fa_SponsorInstallationID a = sponsorInstallationID \<and> fa_SourceRepositoryID a = sourceRepositoryID) (fs_approvals db))"

definition GetForkSponsorshipApproval :: "int \<Rightarrow> int \<Rightarrow> sponsorship_db \<Rightarrow> ForkSponsorshipApproval result" where
  "GetForkSponsorshipApproval sourceRepositoryID forkRepositoryID db =
     (case lookup_by approval_key (sourceRepositoryID, forkRepositoryID) (fs_approvals db) of None \<Rightarrow> Inl ErrNotFound | Some a \<Rightarrow> Inr a)"

definition approval_columns :: "ForkSponsorshipApproval \<Rightarrow> ForkSponsorshipApproval \<Rightarrow> ForkSponsorshipApproval" where
  "approval_columns new old = old \<lparr> fa_SponsorInstallationID := fa_SponsorInstallationID new, fa_ForkRepositoryFullName := fa_ForkRepositoryFullName new,
     fa_ForkOwnerID := fa_ForkOwnerID new, fa_ForkOwnerLogin := fa_ForkOwnerLogin new, fa_UpdatedAt := fa_UpdatedAt new \<rparr>"

definition UpsertForkSponsorshipApproval :: "instant \<Rightarrow> ForkSponsorshipApproval \<Rightarrow> sponsorship_db \<Rightarrow> sponsorship_db \<times> ForkSponsorshipApproval result" where
  "UpsertForkSponsorshipApproval now approval0 db =
     (let approval = approval0 \<lparr> fa_ForkRepositoryFullName := TrimSpace (fa_ForkRepositoryFullName approval0),
            fa_ForkOwnerLogin := TrimSpace (fa_ForkOwnerLogin approval0) \<rparr>
      in if fa_SponsorInstallationID approval \<le> 0 \<or> fa_SourceRepositoryID approval \<le> 0 \<or> fa_ForkRepositoryID approval \<le> 0
            \<or> fa_ForkOwnerID approval \<le> 0 \<or> fa_ForkRepositoryFullName approval = [] \<or> fa_ForkOwnerLogin approval = []
         then (db, Inl (Errorf ''complete positive fork sponsorship approval identity is required''))
         else if lookup_by policy_key (fa_SponsorInstallationID approval, fa_SourceRepositoryID approval) (fs_policies db) = None then (db, Inl ErrNotFound)
         else
           let db1 = db \<lparr> fs_approvals := upsert_by approval_key approval_columns (approval \<lparr> fa_CreatedAt := now, fa_UpdatedAt := now \<rparr>) (fs_approvals db) \<rparr>
           in (db1, GetForkSponsorshipApproval (fa_SourceRepositoryID approval) (fa_ForkRepositoryID approval) db1))"

definition DeleteForkSponsorshipApproval :: "int \<Rightarrow> int \<Rightarrow> int \<Rightarrow> sponsorship_db \<Rightarrow> sponsorship_db \<times> unit result" where
  "DeleteForkSponsorshipApproval sponsorInstallationID sourceRepositoryID forkRepositoryID db =
     (let hit = (\<lambda>a. fa_SponsorInstallationID a = sponsorInstallationID \<and> fa_SourceRepositoryID a = sourceRepositoryID \<and> fa_ForkRepositoryID a = forkRepositoryID)
      in if rows_affected hit (fs_approvals db) = 0 then (db, Inl ErrNotFound)
         else (db \<lparr> fs_approvals := delete_where hit (fs_approvals db) \<rparr>, Inr ()))"

definition InFlightCountForForkSponsorship :: "int \<Rightarrow> int \<Rightarrow> requests_table \<Rightarrow> int" where
  "InFlightCountForForkSponsorship sponsorInstallationID sourceRepositoryID tbl =
     count_rows (\<lambda>r. rr_SponsorInstallationID r = sponsorInstallationID \<and> rr_SponsorSourceRepositoryID r = sourceRepositoryID
       \<and> rr_Status r \<in> {StatusCreating, StatusRunning, StatusStopping}) tbl"

interpretation approvals: keyed_table approval_key approval_columns
  by unfold_locales (simp add: approval_key_def approval_columns_def)

subsection \<open>Configurations\<close>

record sandboxServiceConfigSnapshot =
  sn_APIURL :: string
  sn_EncryptedAPIKey :: string
  sn_Source :: string
  sn_SponsorInstallationID :: int
  sn_SponsorSourceRepositoryID :: int
  sn_SponsorSourceRepositoryFullName :: string
  sn_SponsorAuthorizationReason :: string
  sn_ForkRepositoryID :: int
  sn_ForkRepositoryFullName :: string
  sn_ForkOwnerID :: int
  sn_ForkOwnerLogin :: string

definition zero_snapshot :: sandboxServiceConfigSnapshot where
  "zero_snapshot = \<lparr> sn_APIURL = [], sn_EncryptedAPIKey = [], sn_Source = [], sn_SponsorInstallationID = 0, sn_SponsorSourceRepositoryID = 0,
     sn_SponsorSourceRepositoryFullName = [], sn_SponsorAuthorizationReason = [], sn_ForkRepositoryID = 0, sn_ForkRepositoryFullName = [],
     sn_ForkOwnerID = 0, sn_ForkOwnerLogin = [] \<rparr>"

definition sandboxConfigSourceRequestSnapshot :: string where "sandboxConfigSourceRequestSnapshot = ''request_snapshot''"
definition sandboxConfigSourceInstallation :: string where "sandboxConfigSourceInstallation = ''installation''"
definition sandboxConfigSourceAccount :: string where "sandboxConfigSourceAccount = ''account''"
definition sandboxConfigSourceInheritedAccount :: string where "sandboxConfigSourceInheritedAccount = ''inherited_account''"
definition sandboxConfigSourceAdminDefault :: string where "sandboxConfigSourceAdminDefault = ''admin_default''"
definition sandboxConfigSourceForkSponsorship :: string where "sandboxConfigSourceForkSponsorship = ''organization_sponsorship''"

definition AccountScopeTypeAccount :: string where "AccountScopeTypeAccount = ''account''"
definition AccountScopeTypeGitHubInstall :: string where "AccountScopeTypeGitHubInstall = ''github_installation''"
definition AccountSecretTypeSandboxAPIKey :: string where "AccountSecretTypeSandboxAPIKey = ''sandbox_api_key''"

record accountPreferenceScope =
  aps_Type :: string
  aps_ID :: int

record accountSandboxServicePreferenceValue =
  apv_Mode :: string
  apv_APIURL :: string
  apv_SourceAccountID :: int

record accountCacheServicePreferenceValue =
  acv_Bucket :: string
  acv_Prefix :: string

record SandboxRegionConfig =
  sr_ID :: string
  sr_SandboxAPIURL :: string
  sr_S3Region :: string
  sr_S3Endpoint :: string

text \<open>
  The errors of the resolution, by what \<^verbatim>\<open>errors.Is\<close> tells apart: nothing configured, nothing found,
  the two sponsorship refusals, and all others.
\<close>

datatype svc_error =
    NotConfigured string
  | NotFoundError string
  | ForkSponsorshipAtCapacity
  | ForkSponsorshipPolicyChanged
  | OtherError go_error

fun state_error :: "error \<Rightarrow> svc_error" where
  "state_error ErrNotFound = NotFoundError (error_text ErrNotFound)"
| "state_error e = OtherError (PlainError (error_text e))"

text \<open>An error wrapped with \<open>fmt.Errorf("...: %w", err)\<close> keeps its class; the error as the failing of a start classifies it.\<close>

fun wrap_go :: "string \<Rightarrow> go_error \<Rightarrow> go_error" where
  "wrap_go p (RunnerGroupFailure code retryable s) = RunnerGroupFailure code retryable (p @ '': '' @ s)"
| "wrap_go p (TemplateResolution reason s) = TemplateResolution reason (p @ '': '' @ s)"
| "wrap_go p (RunnerExitedWithoutJob s) = RunnerExitedWithoutJob (p @ '': '' @ s)"
| "wrap_go p (DeadlineExceeded s) = DeadlineExceeded (p @ '': '' @ s)"
| "wrap_go p (PlainError s) = PlainError (p @ '': '' @ s)"

fun wrap_svc :: "string \<Rightarrow> svc_error \<Rightarrow> svc_error" where
  "wrap_svc p (NotConfigured s) = NotConfigured (p @ '': '' @ s)"
| "wrap_svc p (NotFoundError s) = NotFoundError (p @ '': '' @ s)"
| "wrap_svc p (OtherError e) = OtherError (wrap_go p e)"
| "wrap_svc p e = e"

fun svc_go :: "svc_error \<Rightarrow> go_error" where
  "svc_go (NotConfigured s) = PlainError (s @ '': sandbox service not configured'')"
| "svc_go (NotFoundError s) = PlainError s"
| "svc_go (OtherError e) = e"
| "svc_go ForkSponsorshipAtCapacity = PlainError ''fork sponsorship is at capacity''"
| "svc_go ForkSponsorshipPolicyChanged = PlainError ''fork sponsorship policy changed during startup''"

fun not_configured :: "svc_error \<Rightarrow> bool" where
  "not_configured (NotConfigured _) = True"
| "not_configured _ = False"

fun not_found :: "svc_error \<Rightarrow> bool" where
  "not_found (NotFoundError _) = True"
| "not_found _ = False"

record sandbox_env =
  se_mk :: "sandboxServiceConfigSnapshot \<Rightarrow> svc_error option"
  se_decode :: "string \<Rightarrow> accountSandboxServicePreferenceValue option"
  se_decodeCache :: "string \<Rightarrow> accountCacheServicePreferenceValue option"
  se_decrypt :: "string \<Rightarrow> string option"
  se_regions :: "SandboxRegionConfig list"
  se_settings :: settings_db
  se_default :: default_db
  se_identities :: identity_db
  se_sponsorships :: sponsorship_db
  se_profiles :: profiles_table
  se_scoped :: scoped_table
  se_GetRepository :: "string \<Rightarrow> go_error + Repository"
  se_GetInstallation :: "int \<Rightarrow> go_error + GitHubInstallationAccount"
  se_GetRepositoryCollaboratorPermission :: "string \<Rightarrow> string \<Rightarrow> go_error + string \<times> int \<times> string"
  se_GetOrganizationMembership :: "string \<Rightarrow> string \<Rightarrow> string \<Rightarrow> go_error + string \<times> int \<times> string"

definition sandboxServiceForConfig :: "sandbox_env \<Rightarrow> sandboxServiceConfigSnapshot \<Rightarrow> svc_error + sandboxServiceConfigSnapshot" where
  "sandboxServiceForConfig env snapshot = (case se_mk env snapshot of Some e \<Rightarrow> Inl e | None \<Rightarrow> Inr snapshot)"

definition sandboxConfigSourceForScope :: "accountPreferenceScope \<Rightarrow> string" where
  "sandboxConfigSourceForScope scope = (if aps_Type scope = AccountScopeTypeAccount then sandboxConfigSourceAccount else sandboxConfigSourceInstallation)"

definition normalizeSandboxPreferenceMode :: "string \<Rightarrow> accountPreferenceScope \<Rightarrow> string" where
  "normalizeSandboxPreferenceMode mode scope =
     (if ToLower (TrimSpace mode) = ''inherit'' \<and> aps_Type scope = AccountScopeTypeGitHubInstall then ''inherit'' else ''custom'')"

definition githubInstallationLinkedToAccount :: "int \<Rightarrow> int \<Rightarrow> requests_table \<Rightarrow> installation_db \<Rightarrow> bool result" where
  "githubInstallationLinkedToAccount accountID installationID requests db =
     (case ListGitHubInstallations accountID requests db of
        Inl e \<Rightarrow> Inl e
      | Inr installations \<Rightarrow> Inr (list_ex (\<lambda>i. gi_InstallationID (gn_record i) = installationID) installations))"

definition scope_text :: "accountPreferenceScope \<Rightarrow> string" where
  "scope_text scope = aps_Type scope @ '':'' @ int_dec (aps_ID scope)"

text \<open>The service of a scope that keeps its own address and key.\<close>

definition custom_service :: "sandbox_env \<Rightarrow> accountPreferenceScope \<Rightarrow> accountSandboxServicePreferenceValue \<Rightarrow> svc_error + sandboxServiceConfigSnapshot" where
  "custom_service env scope value =
     (let apiURL = TrimSpace (apv_APIURL value)
      in if apiURL = [] then Inl (NotConfigured (''sandbox service api_url is not configured for '' @ scope_text scope))
         else case GetAccountSecret (aps_Type scope) (aps_ID scope) AccountSecretTypeSandboxAPIKey (se_settings env) of
           Inl e \<Rightarrow> if e = ErrNotFound then Inl (NotConfigured (''sandbox service api key is not configured for '' @ scope_text scope)) else Inl (state_error e)
         | Inr secret \<Rightarrow>
             sandboxServiceForConfig env (zero_snapshot \<lparr> sn_APIURL := apiURL, sn_EncryptedAPIKey := as_EncryptedValue secret,
               sn_Source := sandboxConfigSourceForScope scope \<rparr>))"

definition scope_preference :: "sandbox_env \<Rightarrow> accountPreferenceScope \<Rightarrow> svc_error + accountSandboxServicePreferenceValue" where
  "scope_preference env scope =
     (case GetAccountPreference (aps_Type scope) (aps_ID scope) ''sandbox'' ''service'' (se_settings env) of
        Inl e \<Rightarrow> if e = ErrNotFound then Inl (NotConfigured (''sandbox service is not configured for '' @ scope_text scope)) else Inl (state_error e)
      | Inr preference \<Rightarrow>
          (case se_decode env (ap_ValueJSON preference) of
             None \<Rightarrow> Inl (OtherError (PlainError ''invalid sandbox service preference''))
           | Some value \<Rightarrow> Inr value))"

text \<open>
  An installation may inherit the service of an account. The account's own preference is never
  inherited further (only installations inherit), so the recursion of the code has depth one.
\<close>

definition sandboxServiceForScope ::
  "sandbox_env \<Rightarrow> requests_table \<Rightarrow> installation_db \<Rightarrow> accountPreferenceScope \<Rightarrow> svc_error + sandboxServiceConfigSnapshot" where
  "sandboxServiceForScope env requests installations scope =
     (case scope_preference env scope of
        Inl e \<Rightarrow> Inl e
      | Inr value \<Rightarrow>
          if normalizeSandboxPreferenceMode (apv_Mode value) scope = ''inherit'' then
            (if apv_SourceAccountID value \<le> 0 then Inl (NotConfigured (''sandbox service inherited account is not configured for '' @ scope_text scope))
             else case githubInstallationLinkedToAccount (apv_SourceAccountID value) (aps_ID scope) requests installations of
               Inl e \<Rightarrow> Inl (state_error e)
             | Inr linked \<Rightarrow>
                 if \<not> linked then Inl (NotConfigured (''sandbox service inherited account no longer has github installation '' @ int_dec (aps_ID scope)))
                 else
                   let account = \<lparr> aps_Type = AccountScopeTypeAccount, aps_ID = apv_SourceAccountID value \<rparr>
                   in (case scope_preference env account of
                         Inl e \<Rightarrow> Inl e
                       | Inr inherited \<Rightarrow>
                           (case custom_service env account inherited of
                              Inl e \<Rightarrow> Inl e
                            | Inr snapshot \<Rightarrow> Inr (snapshot \<lparr> sn_Source := sandboxConfigSourceInheritedAccount \<rparr>))))
          else custom_service env scope value)"

definition sandboxServiceForAdminDefault ::
  "sandbox_env \<Rightarrow> (svc_error + GitHubInstallationAccount) \<Rightarrow> svc_error + sandboxServiceConfigSnapshot" where
  "sandboxServiceForAdminDefault env owner =
     (case GetSandboxServiceDefault (se_default env) of
        Inl e \<Rightarrow> if e = ErrNotFound then Inl (NotConfigured ''admin sandbox service default is not configured'') else Inl (state_error e)
      | Inr config \<Rightarrow>
          if \<not> sd_Enabled config then Inl (NotConfigured ''admin sandbox service default is disabled'')
          else
            case (if sd_AudienceMode config = SandboxServiceDefaultAudienceModeSelected
                  then (case owner of
                          Inl e \<Rightarrow> if not_found e then Some (NotConfigured ''github repository owner is not known for admin sandbox service default'') else Some e
                        | Inr account \<Rightarrow>
                            if SandboxServiceDefaultAudienceContains (gt_GitHubAccountID account) (gt_AccountType account) (se_default env) then None
                            else Some (NotConfigured ''github repository owner is not selected for admin sandbox service default''))
                  else None) of
              Some e \<Rightarrow> Inl e
            | None \<Rightarrow>
                if TrimSpace (sd_APIURL config) = [] then Inl (NotConfigured ''admin sandbox service default api_url is not configured'')
                else if TrimSpace (sd_APIKeyEncrypted config) = [] then Inl (NotConfigured ''admin sandbox service default api key is not configured'')
                else sandboxServiceForConfig env (zero_snapshot \<lparr> sn_APIURL := TrimSpace (sd_APIURL config),
                       sn_EncryptedAPIKey := TrimSpace (sd_APIKeyEncrypted config), sn_Source := sandboxConfigSourceAdminDefault \<rparr>))"

text \<open>The owner of an installation, asked from GitHub and kept when the store does not know it.\<close>

definition githubInstallationOwner ::
  "instant \<Rightarrow> sandbox_env \<Rightarrow> int \<Rightarrow> installation_db \<Rightarrow> installation_db \<times> (svc_error + GitHubInstallationAccount)" where
  "githubInstallationOwner now env installationID db =
     (if installationID \<le> 0 then (db, Inl (state_error ErrNotFound))
      else case GitHubInstallationAccountForInstallation installationID db of
        Inr owner \<Rightarrow> (db, Inr owner)
      | Inl e \<Rightarrow>
          if e \<noteq> ErrNotFound then (db, Inl (state_error e))
          else case GetGitHubInstallationOwner installationID db of
            Inr owner \<Rightarrow> (db, Inr owner)
          | Inl e' \<Rightarrow>
              if e' \<noteq> ErrNotFound then (db, Inl (state_error e'))
              else case se_GetInstallation env installationID of
                Inl err \<Rightarrow> (db, Inl (OtherError err))
              | Inr installation \<Rightarrow>
                  (case UpsertGitHubInstallationOwner now installationID installation db of
                     (db1, Inl e'') \<Rightarrow> (db1, Inl (state_error e''))
                   | (db1, Inr owner) \<Rightarrow> (db1, Inr owner)))"

text \<open>\<open>strconv.ParseInt(s, 10, 64)\<close>: an optional sign, digits, and the range of an \<^verbatim>\<open>int64\<close>.\<close>

definition digits_value :: "string \<Rightarrow> int" where
  "digits_value s = fold (\<lambda>c n. 10 * n + (int (of_char c) - 48)) s 0"

definition is_digit :: "char \<Rightarrow> bool" where
  "is_digit c \<longleftrightarrow> 48 \<le> (of_char c :: nat) \<and> (of_char c :: nat) \<le> 57"

definition ParseInt :: "string \<Rightarrow> int option" where
  "ParseInt s =
     (let (neg, digits) = (case s of [] \<Rightarrow> (False, [])
            | c # cs \<Rightarrow> if c = CHR ''-'' then (True, cs) else if c = CHR ''+'' then (False, cs) else (False, s));
          n = (if neg then - digits_value digits else digits_value digits)
      in if digits = [] \<or> \<not> list_all is_digit digits then None
         else if n < - (2 ^ 63) \<or> 2 ^ 63 \<le> n then None
         else Some n)"

definition sandboxDefaultAudienceOwnerForScope ::
  "instant \<Rightarrow> sandbox_env \<Rightarrow> accountPreferenceScope \<Rightarrow> installation_db \<Rightarrow> installation_db \<times> (svc_error + GitHubInstallationAccount)" where
  "sandboxDefaultAudienceOwnerForScope now env scope db =
     (if aps_Type scope = AccountScopeTypeGitHubInstall then githubInstallationOwner now env (aps_ID scope) db
      else if aps_Type scope = AccountScopeTypeAccount then
        (db, case GetOAuthIdentityForAccount (aps_ID scope) ''github'' (se_identities env) of
               Inl e \<Rightarrow> Inl (state_error e)
             | Inr identity \<Rightarrow>
                 (case ParseInt (TrimSpace (oi_OAuthSubject identity)) of
                    None \<Rightarrow> Inl (state_error ErrNotFound)
                  | Some githubAccountID \<Rightarrow>
                      if githubAccountID \<le> 0 then Inl (state_error ErrNotFound)
                      else Inr \<lparr> gt_GitHubAccountID = githubAccountID, gt_AccountType = ''user'', gt_AccountLogin = oi_OAuthLogin identity,
                                 gt_AccountName = [], gt_AccountAvatar = [] \<rparr>))
      else (db, Inl (state_error ErrNotFound)))"

text \<open>
  The owner is only asked for when the default is enabled and restricted to selected accounts; the
  question may write the owner's row.
\<close>

definition asks_owner :: "sandbox_env \<Rightarrow> bool" where
  "asks_owner env =
     (case GetSandboxServiceDefault (se_default env) of
        Inl _ \<Rightarrow> False
      | Inr config \<Rightarrow> sd_Enabled config \<and> sd_AudienceMode config = SandboxServiceDefaultAudienceModeSelected)"

definition admin_default_with ::
  "sandbox_env \<Rightarrow> (installation_db \<Rightarrow> installation_db \<times> (svc_error + GitHubInstallationAccount)) \<Rightarrow> installation_db
     \<Rightarrow> installation_db \<times> (svc_error + sandboxServiceConfigSnapshot)" where
  "admin_default_with env resolveOwner db =
     (if asks_owner env then (case resolveOwner db of (db1, owner) \<Rightarrow> (db1, sandboxServiceForAdminDefault env owner))
      else (db, sandboxServiceForAdminDefault env (Inl (state_error ErrNotFound))))"

definition sandboxServiceForScopeWithDefaultContext ::
  "instant \<Rightarrow> sandbox_env \<Rightarrow> requests_table \<Rightarrow> accountPreferenceScope \<Rightarrow> installation_db \<Rightarrow> installation_db \<times> (svc_error + sandboxServiceConfigSnapshot)" where
  "sandboxServiceForScopeWithDefaultContext now env requests scope db =
     (case sandboxServiceForScope env requests db scope of
        Inr snapshot \<Rightarrow> (db, Inr snapshot)
      | Inl e \<Rightarrow>
          if \<not> not_configured e then (db, Inl e)
          else admin_default_with env (sandboxDefaultAudienceOwnerForScope now env scope) db)"

subsection \<open>Sponsored forks\<close>

definition approval_matches :: "ForkSponsorshipApproval \<Rightarrow> int \<Rightarrow> int \<Rightarrow> string \<Rightarrow> string \<Rightarrow> bool" where
  "approval_matches approval sponsor ownerID fullName login \<longleftrightarrow>
     fa_SponsorInstallationID approval = sponsor \<and> fa_ForkOwnerID approval = ownerID
     \<and> EqualFold (fa_ForkRepositoryFullName approval) fullName \<and> EqualFold (fa_ForkOwnerLogin approval) login"

definition authorizeForkSponsorship ::
  "sandbox_env \<Rightarrow> ForkSponsorshipPolicy \<Rightarrow> Repository \<Rightarrow> SourceRepository \<Rightarrow> svc_error + string" where
  "authorizeForkSponsorship env policy fork source =
     (let missing = Inl (state_error ErrNotFound); owner = gr_Owner fork
      in if fp_Mode policy = ForkSponsorshipModeApprovalRequired then
           (case GetForkSponsorshipApproval (fp_SourceRepositoryID policy) (gr_ID fork) (se_sponsorships env) of
              Inl e \<Rightarrow> Inl (state_error e)
            | Inr approval \<Rightarrow>
                if approval_matches approval (fp_SponsorInstallationID policy) (ga_ID owner) (gr_FullName fork) (ga_Login owner)
                then Inr ForkSponsorshipModeApprovalRequired else missing)
         else if fp_Mode policy = ForkSponsorshipModeWritePermission then
           (if \<not> EqualFold (TrimSpace (ga_Type owner)) ''user'' then missing
            else case se_GetRepositoryCollaboratorPermission env (gr_FullName source) (ga_Login owner) of
              Inl err \<Rightarrow> Inl (OtherError (wrap_go ''check fork owner repository permission'' err))
            | Inr (permission, userID, userLogin) \<Rightarrow>
                if userID \<noteq> ga_ID owner \<or> \<not> EqualFold userLogin (ga_Login owner) \<or> permission \<notin> {''write'', ''maintain'', ''admin''}
                then missing else Inr ForkSponsorshipModeWritePermission)
         else if fp_Mode policy = ForkSponsorshipModeOrganizationMember then
           (if \<not> EqualFold (TrimSpace (ga_Type owner)) ''user'' then missing
            else case se_GetOrganizationMembership env (gr_FullName source) (ga_Login (gr_Owner source)) (ga_Login owner) of
              Inl err \<Rightarrow> Inl (OtherError (wrap_go ''check fork owner organization membership'' err))
            | Inr (membership, userID, userLogin) \<Rightarrow>
                if membership \<noteq> ''active'' \<or> userID \<noteq> ga_ID owner \<or> \<not> EqualFold userLogin (ga_Login owner)
                then missing else Inr ForkSponsorshipModeOrganizationMember)
         else missing)"

text \<open>A repository that says it is a fork, of a source it names, with the owner filled in.\<close>

definition sponsorable_fork :: "Repository \<Rightarrow> SourceRepository option" where
  "sponsorable_fork fork =
     (if \<not> gr_Fork fork \<or> gr_ID fork \<le> 0 \<or> ga_ID (gr_Owner fork) \<le> 0 \<or> TrimSpace (ga_Login (gr_Owner fork)) = [] then None
      else case gr_Source fork of
        None \<Rightarrow> None
      | Some source \<Rightarrow> if gr_ID source \<le> 0 \<or> TrimSpace (gr_FullName source) = [] then None else Some source)"

definition sponsored_snapshot :: "ForkSponsorshipPolicy \<Rightarrow> string \<Rightarrow> Repository \<Rightarrow> sandboxServiceConfigSnapshot \<Rightarrow> sandboxServiceConfigSnapshot" where
  "sponsored_snapshot policy reason fork snapshot = snapshot \<lparr>
     sn_Source := sandboxConfigSourceForkSponsorship, sn_SponsorInstallationID := fp_SponsorInstallationID policy,
     sn_SponsorSourceRepositoryID := fp_SourceRepositoryID policy,
     sn_SponsorSourceRepositoryFullName := fp_SourceRepositoryFullName policy, sn_SponsorAuthorizationReason := reason,
     sn_ForkRepositoryID := gr_ID fork, sn_ForkRepositoryFullName := gr_FullName fork,
     sn_ForkOwnerID := ga_ID (gr_Owner fork), sn_ForkOwnerLogin := ga_Login (gr_Owner fork) \<rparr>"

definition sandboxServiceForForkSponsorship ::
  "instant \<Rightarrow> sandbox_env \<Rightarrow> requests_table \<Rightarrow> RunnerRequest \<Rightarrow> installation_db \<Rightarrow> installation_db \<times> (svc_error + sandboxServiceConfigSnapshot)" where
  "sandboxServiceForForkSponsorship now env requests req db =
     (let missing = state_error ErrNotFound
      in if TrimSpace (rq_RepositoryFullName req) = [] then (db, Inl missing)
         else case se_GetRepository env (rq_RepositoryFullName req) of
           Inl err \<Rightarrow> (db, Inl (OtherError (wrap_go ''resolve fork repository for sponsorship'' err)))
         | Inr fork \<Rightarrow>
             (case sponsorable_fork fork of None \<Rightarrow> (db, Inl missing) | Some source \<Rightarrow>
              if \<not> EqualFold (TrimSpace (gr_FullName fork)) (TrimSpace (rq_RepositoryFullName req))
              then (db, Inl (wrap_svc ''fork repository identity changed'' missing))
              else case GetForkSponsorshipPolicyBySourceRepositoryID (gr_ID source) (se_sponsorships env) of
                Inl e \<Rightarrow> (db, Inl (state_error e))
              | Inr policy \<Rightarrow>
                  if \<not> fp_Enabled policy \<or> \<not> EqualFold (TrimSpace (fp_SourceRepositoryFullName policy)) (TrimSpace (gr_FullName source))
                  then (db, Inl missing)
                  else case githubInstallationOwner now env (fp_SponsorInstallationID policy) db of
                    (db1, Inl e) \<Rightarrow> (db1, Inl (wrap_svc ''resolve fork sponsor installation'' e))
                  | (db1, Inr sponsor) \<Rightarrow>
                      if \<not> EqualFold (TrimSpace (gt_AccountType sponsor)) ''organization'' \<or> ga_ID (gr_Owner source) \<le> 0
                         \<or> ga_ID (gr_Owner source) \<noteq> gt_GitHubAccountID sponsor
                         \<or> \<not> EqualFold (TrimSpace (ga_Login (gr_Owner source))) (TrimSpace (gt_AccountLogin sponsor))
                      then (db1, Inl (wrap_svc ''fork sponsorship source owner no longer matches sponsor'' missing))
                      else case authorizeForkSponsorship env policy fork source of
                        Inl e \<Rightarrow> (db1, Inl e)
                      | Inr reason \<Rightarrow>
                          (case sandboxServiceForScopeWithDefaultContext now env requests
                                  \<lparr> aps_Type = AccountScopeTypeGitHubInstall, aps_ID = fp_SponsorInstallationID policy \<rparr> db1 of
                             (db2, Inl e) \<Rightarrow> (db2, Inl (wrap_svc ''resolve sponsored sandbox service'' e))
                           | (db2, Inr snapshot) \<Rightarrow> (db2, Inr (sponsored_snapshot policy reason fork snapshot)))))"

subsection \<open>The service of a request\<close>

definition githubInstallationScopeForRepository :: "string \<Rightarrow> installation_db \<Rightarrow> (int \<times> bool) result" where
  "githubInstallationScopeForRepository repositoryFullName db =
     (case Cut (CHR ''/'') (TrimSpace repositoryFullName) of
        (owner, _, ok) \<Rightarrow> if \<not> ok then Inr (0, False) else GitHubInstallationScopeForAccountLogin owner db)"

definition sandboxScopeForRunnerRequest :: "RunnerRequest \<Rightarrow> svc_error + accountPreferenceScope" where
  "sandboxScopeForRunnerRequest req =
     (if rq_GitHubInstallationID req \<le> 0 then Inl (OtherError (PlainError (''runner request '' @ rq_ID req @ '' has no github installation scope'')))
      else Inr \<lparr> aps_Type = AccountScopeTypeGitHubInstall, aps_ID = rq_GitHubInstallationID req \<rparr>)"

definition request_snapshot :: "RunnerRequest \<Rightarrow> sandboxServiceConfigSnapshot option" where
  "request_snapshot req =
     (if TrimSpace (rq_SandboxAPIURL req) \<noteq> [] \<and> TrimSpace (rq_SandboxAPIKeyEncrypted req) \<noteq> [] then
        Some (zero_snapshot \<lparr> sn_APIURL := TrimSpace (rq_SandboxAPIURL req), sn_EncryptedAPIKey := TrimSpace (rq_SandboxAPIKeyEncrypted req),
          sn_Source := (if TrimSpace (rq_SandboxConfigSource req) = [] then sandboxConfigSourceRequestSnapshot else TrimSpace (rq_SandboxConfigSource req)),
          sn_SponsorInstallationID := rq_SponsorInstallationID req, sn_SponsorSourceRepositoryID := rq_SponsorSourceRepositoryID req,
          sn_SponsorSourceRepositoryFullName := TrimSpace (rq_SponsorSourceRepositoryFullName req),
          sn_SponsorAuthorizationReason := TrimSpace (rq_SponsorAuthorizationReason req) \<rparr>)
      else None)"

text \<open>The part after the scopes of the request had nothing configured: sponsorship, then the default.\<close>

definition fallback_service ::
  "instant \<Rightarrow> sandbox_env \<Rightarrow> requests_table \<Rightarrow> RunnerRequest \<Rightarrow> installation_db \<Rightarrow> installation_db \<times> (svc_error + sandboxServiceConfigSnapshot)" where
  "fallback_service now env requests req db =
     (let default = admin_default_with env (githubInstallationOwner now env (rq_GitHubInstallationID req))
      in case profileForRunnerRequest req (se_profiles env) (se_scoped env) of
           Inl _ \<Rightarrow> default db
         | Inr profile \<Rightarrow>
             if rp_TemplateSource profile = TemplateSourcePublic then
               (case sandboxServiceForForkSponsorship now env requests req db of
                  (db1, Inr snapshot) \<Rightarrow> (db1, Inr snapshot)
                | (db1, Inl e) \<Rightarrow> if not_found e then default db1 else (db1, Inl e))
             else default db)"

definition scoped_service ::
  "instant \<Rightarrow> sandbox_env \<Rightarrow> requests_table \<Rightarrow> RunnerRequest \<Rightarrow> installation_db \<Rightarrow> installation_db \<times> (svc_error + sandboxServiceConfigSnapshot)" where
  "scoped_service now env requests req db =
     (let scopedCustom = (TrimSpace (rq_ProfileSource req) = ''scoped_custom'')
      in case sandboxScopeForRunnerRequest req of
           Inl err \<Rightarrow>
             if scopedCustom then (db, Inl (NotConfigured (''scoped custom runner request '' @ rq_ID req @ '' has no configured Sandbox service'')))
             else case admin_default_with env (\<lambda>d. (d, Inl (state_error ErrNotFound))) db of
               (db1, Inr snapshot) \<Rightarrow> (db1, Inr snapshot)
             | (db1, Inl e) \<Rightarrow> (db1, Inl (if not_configured e then err else e))
         | Inr scope \<Rightarrow>
             (case sandboxServiceForScope env requests db scope of
                Inr snapshot \<Rightarrow> (db, Inr snapshot)
              | Inl e \<Rightarrow>
                  if \<not> not_configured e then (db, Inl e)
                  else case AccountScopeForPersonalGitHubInstallation (rq_GitHubInstallationID req) (se_identities env) db of
                    Inl e' \<Rightarrow> (db, Inl (state_error e'))
                  | Inr (accountID, ok) \<Rightarrow>
                      let rest = (if scopedCustom then (db, Inl (NotConfigured (''sandbox service is not configured for scoped custom runner request '' @ rq_ID req)))
                                  else fallback_service now env requests req db)
                      in if ok then
                           (case sandboxServiceForScope env requests db \<lparr> aps_Type = AccountScopeTypeAccount, aps_ID = accountID \<rparr> of
                              Inr snapshot \<Rightarrow> (db, Inr snapshot)
                            | Inl e'' \<Rightarrow> if not_configured e'' then rest else (db, Inl e''))
                         else rest))"

definition sandboxServiceAndConfigForRunnerRequestContext ::
  "instant \<Rightarrow> sandbox_env \<Rightarrow> requests_table \<Rightarrow> RunnerRequest \<Rightarrow> installation_db \<Rightarrow> installation_db \<times> (svc_error + sandboxServiceConfigSnapshot)" where
  "sandboxServiceAndConfigForRunnerRequestContext now env requests req db =
     (case request_snapshot req of
        Some snapshot \<Rightarrow> (db, sandboxServiceForConfig env snapshot)
      | None \<Rightarrow>
          (if rq_GitHubInstallationID req \<le> 0 then
             (case githubInstallationScopeForRepository (rq_RepositoryFullName req) db of
                Inl e \<Rightarrow> (db, Inl (state_error e))
              | Inr (installationID, ok) \<Rightarrow>
                  scoped_service now env requests (if ok then req \<lparr> rq_GitHubInstallationID := installationID \<rparr> else req) db)
           else scoped_service now env requests req db))"

subsection \<open>The snapshot is kept with the request\<close>

definition sponsorship_refused :: "sandbox_env \<Rightarrow> requests_table \<Rightarrow> sandboxServiceConfigSnapshot \<Rightarrow> svc_error option" where
  "sponsorship_refused env requests snapshot =
     (case GetForkSponsorshipPolicy (sn_SponsorInstallationID snapshot) (sn_SponsorSourceRepositoryID snapshot) (se_sponsorships env) of
        Inl _ \<Rightarrow> Some ForkSponsorshipPolicyChanged
      | Inr policy \<Rightarrow>
          if \<not> fp_Enabled policy \<or> fp_Mode policy \<noteq> sn_SponsorAuthorizationReason snapshot
             \<or> \<not> EqualFold (fp_SourceRepositoryFullName policy) (sn_SponsorSourceRepositoryFullName snapshot)
          then Some ForkSponsorshipPolicyChanged
          else if fp_Mode policy = ForkSponsorshipModeApprovalRequired
             \<and> (case GetForkSponsorshipApproval (fp_SourceRepositoryID policy) (sn_ForkRepositoryID snapshot) (se_sponsorships env) of
                  Inl _ \<Rightarrow> True
                | Inr approval \<Rightarrow> \<not> approval_matches approval (fp_SponsorInstallationID policy) (sn_ForkOwnerID snapshot)
                    (sn_ForkRepositoryFullName snapshot) (sn_ForkOwnerLogin snapshot))
          then Some ForkSponsorshipPolicyChanged
          else if fp_MaxConcurrency policy \<le> InFlightCountForForkSponsorship (fp_SponsorInstallationID policy) (fp_SourceRepositoryID policy) requests
          then Some ForkSponsorshipAtCapacity
          else None)"

definition apply_snapshot :: "sandboxServiceConfigSnapshot \<Rightarrow> RunnerState \<Rightarrow> RunnerState" where
  "apply_snapshot snapshot st = st \<lparr> rs_SandboxAPIURL := sn_APIURL snapshot, rs_SandboxAPIKeyEncrypted := sn_EncryptedAPIKey snapshot,
     rs_SandboxConfigSource := sn_Source snapshot, rs_SponsorInstallationID := sn_SponsorInstallationID snapshot,
     rs_SponsorSourceRepositoryID := sn_SponsorSourceRepositoryID snapshot,
     rs_SponsorSourceRepositoryFullName := sn_SponsorSourceRepositoryFullName snapshot,
     rs_SponsorAuthorizationReason := sn_SponsorAuthorizationReason snapshot \<rparr>"

definition persistSandboxServiceSnapshot ::
  "instant \<Rightarrow> sandbox_env \<Rightarrow> string \<Rightarrow> sandboxServiceConfigSnapshot \<Rightarrow> requests_table \<Rightarrow> requests_table \<times> svc_error option" where
  "persistSandboxServiceSnapshot now env i snapshot tbl =
     (if sn_APIURL snapshot = [] \<and> sn_EncryptedAPIKey snapshot = [] then (tbl, None)
      else case (if sn_Source snapshot = sandboxConfigSourceForkSponsorship then sponsorship_refused env tbl snapshot else None) of
        Some e \<Rightarrow> (tbl, Some e)
      | None \<Rightarrow>
          (case ReadState i tbl of
             Inl e \<Rightarrow> (tbl, Some (wrap_svc ''read state for sandbox config snapshot'' (state_error e)))
           | Inr current \<Rightarrow>
               (case WriteState now (apply_snapshot snapshot current) tbl of
                  Inl e \<Rightarrow> (tbl, Some (wrap_svc ''write sandbox config snapshot'' (state_error e)))
                | Inr tbl' \<Rightarrow> (tbl', None))))"

subsection \<open>Cache storage\<close>

record cacheS3 =
  cs_bucket :: string
  cs_prefix :: string
  cs_region :: string
  cs_endpoint :: string
  cs_accessKeyID :: string
  cs_secretKey :: string

datatype cache_error = ErrCacheServiceNotConfigured | CacheStateError error | CacheError string

definition trim_char :: "char \<Rightarrow> string \<Rightarrow> string" where
  "trim_char c s = rev (dropWhile (\<lambda>x. x = c) (rev (dropWhile (\<lambda>x. x = c) s)))"

definition trim_right_char :: "char \<Rightarrow> string \<Rightarrow> string" where
  "trim_right_char c s = rev (dropWhile (\<lambda>x. x = c) (rev s))"

definition newCacheS3 :: "string \<Rightarrow> string \<Rightarrow> string \<Rightarrow> string \<Rightarrow> string \<Rightarrow> string \<Rightarrow> cache_error + cacheS3" where
  "newCacheS3 region0 bucket0 prefix0 endpoint accessKeyID secretAccessKey =
     (let region = TrimSpace region0; bucket = TrimSpace bucket0; p = trim_char (CHR ''/'') (TrimSpace prefix0)
      in if region = [] \<or> bucket = [] \<or> TrimSpace accessKeyID = [] \<or> TrimSpace secretAccessKey = []
         then Inl (CacheError ''cache S3 region, bucket, access key, and secret key are required'')
         else Inr \<lparr> cs_bucket = bucket, cs_prefix = (if p = [] then ''gh-actions-cache'' else p), cs_region = region,
                    cs_endpoint = endpoint, cs_accessKeyID = accessKeyID, cs_secretKey = secretAccessKey \<rparr>)"

definition cacheS3SettingsForSandboxAPIURL :: "sandbox_env \<Rightarrow> string \<Rightarrow> string \<times> string \<times> bool" where
  "cacheS3SettingsForSandboxAPIURL env apiURL =
     (let norm = (\<lambda>u. trim_right_char (CHR ''/'') (TrimSpace u))
      in case find (\<lambda>r. EqualFold (norm (sr_SandboxAPIURL r)) (norm apiURL)) (se_regions env) of
           None \<Rightarrow> ([], [], False)
         | Some r \<Rightarrow>
             let endpoint = TrimSpace (sr_S3Endpoint r)
             in (TrimSpace (sr_S3Region r),
                 (if endpoint \<noteq> [] \<and> \<not> HasPrefix endpoint ''http://'' \<and> \<not> HasPrefix endpoint ''https://''
                  then ''https://'' @ endpoint else endpoint), True))"

definition sandboxRegionForAPIURL :: "sandbox_env \<Rightarrow> string \<Rightarrow> string" where
  "sandboxRegionForAPIURL env rawURL =
     (let norm = (\<lambda>u. trim_right_char (CHR ''/'') (TrimSpace u))
      in case find (\<lambda>r. EqualFold (norm rawURL) (norm (sr_SandboxAPIURL r))) (se_regions env) of
           None \<Rightarrow> []
         | Some r \<Rightarrow> TrimSpace (sr_ID r))"

definition cache_secret :: "sandbox_env \<Rightarrow> accountPreferenceScope \<Rightarrow> string \<Rightarrow> cache_error + string" where
  "cache_secret env scope kind =
     (case GetAccountSecret (aps_Type scope) (aps_ID scope) kind (se_settings env) of
        Inl e \<Rightarrow> Inl (if e = ErrNotFound then ErrCacheServiceNotConfigured else CacheStateError e)
      | Inr secret \<Rightarrow> Inr (as_EncryptedValue secret))"

definition cacheStorageForScope :: "sandbox_env \<Rightarrow> accountPreferenceScope \<Rightarrow> string \<Rightarrow> cache_error + cacheS3" where
  "cacheStorageForScope env scope sandboxAPIURL =
     (case GetAccountPreference (aps_Type scope) (aps_ID scope) ''cache'' ''s3'' (se_settings env) of
        Inl e \<Rightarrow> Inl (if e = ErrNotFound then ErrCacheServiceNotConfigured else CacheStateError e)
      | Inr preference \<Rightarrow>
          (case se_decodeCache env (ap_ValueJSON preference) of None \<Rightarrow> Inl (CacheError ''json'') | Some value \<Rightarrow>
            (case cacheS3SettingsForSandboxAPIURL env sandboxAPIURL of (region, endpoint, mapped) \<Rightarrow>
              if \<not> mapped \<or> region = [] \<or> endpoint = [] then Inl ErrCacheServiceNotConfigured
              else case cache_secret env scope ''cache_access_key_id'' of Inl e \<Rightarrow> Inl e | Inr accessKey \<Rightarrow>
                (case cache_secret env scope ''cache_secret_access_key'' of Inl e \<Rightarrow> Inl e | Inr secretKey \<Rightarrow>
                  (case se_decrypt env accessKey of None \<Rightarrow> Inl (CacheError ''decrypt'') | Some a \<Rightarrow>
                    (case se_decrypt env secretKey of None \<Rightarrow> Inl (CacheError ''decrypt'') | Some k \<Rightarrow>
                      newCacheS3 region (acv_Bucket value) (acv_Prefix value) endpoint a k))))))"

definition cacheStorageForInstallation :: "sandbox_env \<Rightarrow> installation_db \<Rightarrow> int \<Rightarrow> string \<Rightarrow> cache_error + cacheS3" where
  "cacheStorageForInstallation env db installationID sandboxAPIURL =
     (if installationID \<le> 0 then Inl (CacheError ''invalid cache installation id'')
      else case cacheStorageForScope env \<lparr> aps_Type = AccountScopeTypeGitHubInstall, aps_ID = installationID \<rparr> sandboxAPIURL of
        Inr storage \<Rightarrow> Inr storage
      | Inl e \<Rightarrow>
          if e \<noteq> ErrCacheServiceNotConfigured then Inl e
          else case AccountScopeForPersonalGitHubInstallation installationID (se_identities env) db of
            Inl e' \<Rightarrow> Inl (CacheStateError e')
          | Inr (accountID, ok) \<Rightarrow>
              if \<not> ok then Inl ErrCacheServiceNotConfigured
              else cacheStorageForScope env \<lparr> aps_Type = AccountScopeTypeAccount, aps_ID = accountID \<rparr> sandboxAPIURL)"

subsection \<open>Who pays\<close>

lemma sandboxServiceForConfig_Inr [simp]: "sandboxServiceForConfig env s = Inr s' \<longleftrightarrow> se_mk env s = None \<and> s' = s"
  by (auto simp: sandboxServiceForConfig_def split: option.splits)

lemma persist_cases:
  assumes "persistSandboxServiceSnapshot now env i snapshot tbl = (tbl', None)"
    and "\<not> (sn_APIURL snapshot = [] \<and> sn_EncryptedAPIKey snapshot = [])"
  obtains current where
    "sn_Source snapshot = sandboxConfigSourceForkSponsorship \<Longrightarrow> sponsorship_refused env tbl snapshot = None"
    and "ReadState i tbl = Inr current" and "WriteState now (apply_snapshot snapshot current) tbl = Inr tbl'"
  using assms by (auto simp: persistSandboxServiceSnapshot_def split: option.splits sum.splits if_splits)

lemma sponsorship_refused_None:
  "sponsorship_refused env tbl snapshot = None \<Longrightarrow>
     \<exists>policy. GetForkSponsorshipPolicy (sn_SponsorInstallationID snapshot) (sn_SponsorSourceRepositoryID snapshot) (se_sponsorships env) = Inr policy
       \<and> fp_Enabled policy \<and> fp_Mode policy = sn_SponsorAuthorizationReason snapshot
       \<and> InFlightCountForForkSponsorship (fp_SponsorInstallationID policy) (fp_SourceRepositoryID policy) tbl < fp_MaxConcurrency policy"
  by (auto simp: sponsorship_refused_def split: sum.splits if_splits)

text \<open>A write changes at most the row it is for, so a count of rows grows by at most one.\<close>

lemma WriteState_count_le:
  assumes "table_ok tbl" and "WriteState now st tbl = Inr tbl'"
  shows "count_rows P tbl' \<le> count_rows P tbl + 1"
proof -
  have ok': "table_ok tbl'" using assms by (rule table_ok_WriteState)
  have "rr_ID r' \<in> {sanitizeID (rs_ID st)} \<or> (\<exists>r\<in>set tbl. P r \<and> rr_ID r = rr_ID r')" if "r' \<in> set tbl'" "P r'" for r'
    using that assms by (auto simp: WriteState_Inr_iff update_where_def write_target_def split: if_splits)
  then have "count_rows P tbl' \<le> count_rows P tbl + int (card {sanitizeID (rs_ID st)})"
    by (intro count_rows_ids_le [OF assms(1) ok']) auto
  then show ?thesis by simp
qed

lemma policy_lookup_key:
  "GetForkSponsorshipPolicy s r db = Inr policy \<Longrightarrow> fp_SponsorInstallationID policy = s \<and> fp_SourceRepositoryID policy = r"
  by (auto simp: GetForkSponsorshipPolicy_def policy_key_def lookup_by_def find_Some_iff split: option.splits)


definition sample_policy_row :: ForkSponsorshipPolicy where
  "sample_policy_row = \<lparr> fp_SponsorInstallationID = 9, fp_SourceRepositoryID = 3, fp_SourceRepositoryFullName = ''acme/app'',
     fp_Mode = ''write_permission'', fp_Enabled = True, fp_MaxConcurrency = 1, fp_CreatedAt = 0, fp_UpdatedAt = 0 \<rparr>"

definition sample_env :: sandbox_env where
  "sample_env = \<lparr> se_mk = (\<lambda>_. None), se_decode = (\<lambda>_. Some \<lparr> apv_Mode = ''custom'', apv_APIURL = ''https://s'', apv_SourceAccountID = 0 \<rparr>),
     se_decodeCache = (\<lambda>_. None), se_decrypt = Some, se_regions = [],
     se_settings = \<lparr> se_preferences = [\<lparr> ap_ID = 1, ap_ScopeType = ''github_installation'', ap_ScopeID = 4, ap_Namespace = ''sandbox'',
         ap_Key = ''service'', ap_ValueJSON = ''{}'', ap_CreatedAt = 0, ap_UpdatedAt = 0 \<rparr>],
       se_secrets = [\<lparr> as_ID = 1, as_ScopeType = ''github_installation'', as_ScopeID = 4, as_KeyType = ''sandbox_api_key'',
         as_EncryptedValue = ''e'', as_CreatedAt = 0, as_UpdatedAt = 0 \<rparr>] \<rparr>,
     se_default = \<lparr> df_defaults = [], df_audiences = [] \<rparr>, se_identities = \<lparr> db_accounts = [], db_identities = [], db_audit = [] \<rparr>,
     se_sponsorships = \<lparr> fs_policies = [sample_policy_row], fs_approvals = [] \<rparr>, se_profiles = [], se_scoped = [],
     se_GetRepository = (\<lambda>_. Inl (PlainError [])), se_GetInstallation = (\<lambda>_. Inl (PlainError [])),
     se_GetRepositoryCollaboratorPermission = (\<lambda>_ _. Inl (PlainError [])),
     se_GetOrganizationMembership = (\<lambda>_ _ _. Inl (PlainError [])) \<rparr>"

definition sample_snapshot :: sandboxServiceConfigSnapshot where
  "sample_snapshot = zero_snapshot \<lparr> sn_APIURL := ''https://s'', sn_EncryptedAPIKey := ''e'', sn_Source := ''organization_sponsorship'',
     sn_SponsorInstallationID := 9, sn_SponsorSourceRepositoryID := 3, sn_SponsorSourceRepositoryFullName := ''acme/app'',
     sn_SponsorAuthorizationReason := ''write_permission'' \<rparr>"

lemma sample_persist: "snd (persistSandboxServiceSnapshot 7 sample_env ''job-7'' sample_snapshot [sample_row]) = None"
  by code_simp


text \<open>
  Address and key of a snapshot are those that a scope has stored: the address of its preference for the
  sandbox service and its secret of the kind of a sandbox key.
\<close>

definition credentials_of :: "sandbox_env \<Rightarrow> string \<Rightarrow> int \<Rightarrow> sandboxServiceConfigSnapshot \<Rightarrow> bool" where
  "credentials_of env scopeType scopeID s \<longleftrightarrow>
     (\<exists>preference value secret. GetAccountPreference scopeType scopeID ''sandbox'' ''service'' (se_settings env) = Inr preference
        \<and> se_decode env (ap_ValueJSON preference) = Some value \<and> sn_APIURL s = TrimSpace (apv_APIURL value) \<and> sn_APIURL s \<noteq> []
        \<and> GetAccountSecret scopeType scopeID AccountSecretTypeSandboxAPIKey (se_settings env) = Inr secret
        \<and> sn_EncryptedAPIKey s = as_EncryptedValue secret \<and> sn_SponsorInstallationID s = 0)"

text \<open>The scope has chosen to inherit the service of this account.\<close>

definition inherits_from :: "sandbox_env \<Rightarrow> int \<Rightarrow> int \<Rightarrow> bool" where
  "inherits_from env installationID accountID \<longleftrightarrow>
     (\<exists>preference value. GetAccountPreference AccountScopeTypeGitHubInstall installationID ''sandbox'' ''service'' (se_settings env) = Inr preference
        \<and> se_decode env (ap_ValueJSON preference) = Some value \<and> ToLower (TrimSpace (apv_Mode value)) = ''inherit''
        \<and> apv_SourceAccountID value = accountID)"

lemma scope_preference_Inr:
  "scope_preference env scope = Inr value \<longleftrightarrow>
     (\<exists>preference. GetAccountPreference (aps_Type scope) (aps_ID scope) ''sandbox'' ''service'' (se_settings env) = Inr preference
        \<and> se_decode env (ap_ValueJSON preference) = Some value)"
  by (auto simp: scope_preference_def split: sum.splits option.splits)

lemma custom_service_credentials:
  assumes "scope_preference env scope = Inr value" "custom_service env scope value = Inr s"
  shows "sn_Source s = sandboxConfigSourceForScope scope" "credentials_of env (aps_Type scope) (aps_ID scope) s"
proof -
  have s: "TrimSpace (apv_APIURL value) \<noteq> []" "\<exists>secret. GetAccountSecret (aps_Type scope) (aps_ID scope) AccountSecretTypeSandboxAPIKey (se_settings env) = Inr secret
      \<and> s = zero_snapshot \<lparr> sn_APIURL := TrimSpace (apv_APIURL value), sn_EncryptedAPIKey := as_EncryptedValue secret,
               sn_Source := sandboxConfigSourceForScope scope \<rparr>"
    using assms(2) by (auto simp: custom_service_def Let_def split: if_splits sum.splits)
  then show "sn_Source s = sandboxConfigSourceForScope scope" "credentials_of env (aps_Type scope) (aps_ID scope) s"
    using assms(1) by (auto simp: credentials_of_def scope_preference_Inr zero_snapshot_def)
qed

lemma account_not_installation: "AccountScopeTypeAccount \<noteq> AccountScopeTypeGitHubInstall"
  by (simp add: AccountScopeTypeAccount_def AccountScopeTypeGitHubInstall_def)

lemma account_service_credentials:
  assumes "sandboxServiceForScope env requests db \<lparr> aps_Type = AccountScopeTypeAccount, aps_ID = a \<rparr> = Inr s"
  shows "sn_Source s = sandboxConfigSourceAccount \<and> credentials_of env AccountScopeTypeAccount a s"
proof -
  obtain pref where v: "scope_preference env \<lparr> aps_Type = AccountScopeTypeAccount, aps_ID = a \<rparr> = Inr pref"
    "custom_service env \<lparr> aps_Type = AccountScopeTypeAccount, aps_ID = a \<rparr> pref = Inr s"
    using assms account_not_installation by (auto simp: sandboxServiceForScope_def normalizeSandboxPreferenceMode_def split: sum.splits)
  show ?thesis using custom_service_credentials [OF v] by (simp add: sandboxConfigSourceForScope_def)
qed

text \<open>Whose service a scope of an installation has.\<close>

definition own_service :: "sandbox_env \<Rightarrow> requests_table \<Rightarrow> installation_db \<Rightarrow> int \<Rightarrow> sandboxServiceConfigSnapshot \<Rightarrow> bool" where
  "own_service env requests db installationID s \<longleftrightarrow>
     (sn_Source s = sandboxConfigSourceInstallation \<and> credentials_of env AccountScopeTypeGitHubInstall installationID s)
     \<or> (sn_Source s = sandboxConfigSourceAccount \<and> (\<exists>a. AccountScopeForPersonalGitHubInstallation installationID (se_identities env) db = Inr (a, True)
          \<and> credentials_of env AccountScopeTypeAccount a s))
     \<or> (sn_Source s = sandboxConfigSourceInheritedAccount \<and> (\<exists>a. inherits_from env installationID a
          \<and> githubInstallationLinkedToAccount a installationID requests db = Inr True \<and> credentials_of env AccountScopeTypeAccount a s))"

lemma installation_service_credentials:
  assumes "sandboxServiceForScope env requests db \<lparr> aps_Type = AccountScopeTypeGitHubInstall, aps_ID = i \<rparr> = Inr s"
  shows "own_service env requests db i s"
proof -
  let ?scope = "\<lparr> aps_Type = AccountScopeTypeGitHubInstall, aps_ID = i \<rparr>"
  obtain pref where v: "scope_preference env ?scope = Inr pref" using assms by (auto simp: sandboxServiceForScope_def split: sum.splits)
  show ?thesis
  proof (cases "normalizeSandboxPreferenceMode (apv_Mode pref) ?scope = ''inherit''")
    case False
    then have "custom_service env ?scope pref = Inr s" using assms v by (simp add: sandboxServiceForScope_def)
    note custom_service_credentials [OF v this]
    then show ?thesis using account_not_installation by (simp add: own_service_def sandboxConfigSourceForScope_def)
  next
    case True
    let ?account = "\<lparr> aps_Type = AccountScopeTypeAccount, aps_ID = apv_SourceAccountID pref \<rparr>"
    obtain inherited t where t: "githubInstallationLinkedToAccount (apv_SourceAccountID pref) i requests db = Inr True"
      "scope_preference env ?account = Inr inherited" "custom_service env ?account inherited = Inr t" "s = t \<lparr> sn_Source := sandboxConfigSourceInheritedAccount \<rparr>"
      using assms v True by (auto simp: sandboxServiceForScope_def Let_def split: sum.splits if_splits)
    have "inherits_from env i (apv_SourceAccountID pref)"
      using v True by (auto simp: inherits_from_def scope_preference_Inr normalizeSandboxPreferenceMode_def split: if_splits)
    moreover have "credentials_of env AccountScopeTypeAccount (apv_SourceAccountID pref) s"
      using custom_service_credentials(2) [OF t(2,3)] t(4) by (simp add: credentials_of_def)
    ultimately show ?thesis using t(1,4) by (auto simp: own_service_def)
  qed
qed

lemma scoped_custom_service:
  assumes "TrimSpace (rq_ProfileSource req) = ''scoped_custom''" and "scoped_service now env requests req db = (db', Inr s)"
  shows "0 < rq_GitHubInstallationID req \<and> own_service env requests db (rq_GitHubInstallationID req) s \<and> db' = db"
proof -
  let ?i = "rq_GitHubInstallationID req"
  let ?scope = "\<lparr> aps_Type = AccountScopeTypeGitHubInstall, aps_ID = ?i \<rparr>"
  have i: "0 < ?i" "sandboxScopeForRunnerRequest req = Inr ?scope"
    using assms by (auto simp: scoped_service_def sandboxScopeForRunnerRequest_def Let_def split: if_splits)
  note run = assms(2) [unfolded scoped_service_def Let_def assms(1) i(2) sum.case]
  show ?thesis
  proof (cases "sandboxServiceForScope env requests db ?scope")
    case (Inr t)
    then show ?thesis using i run installation_service_credentials by simp
  next
    case (Inl e)
    then obtain a where a: "AccountScopeForPersonalGitHubInstallation ?i (se_identities env) db = Inr (a, True)"
      using run by (cases "AccountScopeForPersonalGitHubInstallation ?i (se_identities env) db") (auto split: if_splits)
    obtain t where t: "sandboxServiceForScope env requests db \<lparr> aps_Type = AccountScopeTypeAccount, aps_ID = a \<rparr> = Inr t"
      using run Inl a by (cases "sandboxServiceForScope env requests db \<lparr> aps_Type = AccountScopeTypeAccount, aps_ID = a \<rparr>") (simp_all split: if_splits)
    have "db' = db" "t = s" using run Inl a t by (simp_all split: if_splits)
    then show ?thesis using i(1) a account_service_credentials [OF t] by (simp add: own_service_def)
  qed
qed

text \<open>C29: A request on a custom profile of a scope never runs on other people's money. Unless it already
  carries a snapshot, address and key of its service are those stored by its installation; or those stored by the
  personal account that the installation belongs to; or those stored by an account from which the installation has
  chosen to inherit and which is linked to the installation at that moment. The installation is the one of
  the request, or the one the repository belongs to. The source written into the snapshot says which of
  the three it is, no sponsor is charged, and the lookup writes nothing. The administrator's
  default is never used.\<close>
theorem scoped_custom_uses_own_service:
  assumes "TrimSpace (rq_ProfileSource req) = ''scoped_custom''" and "request_snapshot req = None"
    and "sandboxServiceAndConfigForRunnerRequestContext now env requests req db = (db', Inr snapshot)"
  shows "\<exists>i. 0 < i \<and> (rq_GitHubInstallationID req = i
         \<or> rq_GitHubInstallationID req \<le> 0 \<and> githubInstallationScopeForRepository (rq_RepositoryFullName req) db = Inr (i, True))
    \<and> (sn_Source snapshot = sandboxConfigSourceInstallation \<and> credentials_of env AccountScopeTypeGitHubInstall i snapshot
       \<or> sn_Source snapshot = sandboxConfigSourceAccount \<and> (\<exists>a. AccountScopeForPersonalGitHubInstallation i (se_identities env) db = Inr (a, True)
           \<and> credentials_of env AccountScopeTypeAccount a snapshot)
       \<or> sn_Source snapshot = sandboxConfigSourceInheritedAccount \<and> (\<exists>a. inherits_from env i a
           \<and> githubInstallationLinkedToAccount a i requests db = Inr True \<and> credentials_of env AccountScopeTypeAccount a snapshot))
    \<and> db' = db"
proof -
  have "\<exists>i. 0 < i \<and> (rq_GitHubInstallationID req = i
         \<or> rq_GitHubInstallationID req \<le> 0 \<and> githubInstallationScopeForRepository (rq_RepositoryFullName req) db = Inr (i, True))
    \<and> own_service env requests db i snapshot \<and> db' = db"
  proof (cases "rq_GitHubInstallationID req \<le> 0")
    case False
    then have "scoped_service now env requests req db = (db', Inr snapshot)"
      using assms(2,3) by (simp add: sandboxServiceAndConfigForRunnerRequestContext_def)
    from scoped_custom_service [OF assms(1) this] show ?thesis by blast
  next
    case True
    then obtain i ok where i: "githubInstallationScopeForRepository (rq_RepositoryFullName req) db = Inr (i, ok)"
      "scoped_service now env requests (if ok then req \<lparr> rq_GitHubInstallationID := i \<rparr> else req) db = (db', Inr snapshot)"
      using assms(2,3) by (auto simp: sandboxServiceAndConfigForRunnerRequestContext_def split: sum.splits)
    from scoped_custom_service [OF _ i(2)] show ?thesis using assms(1) True i(1) by (cases ok) auto
  qed
  then show ?thesis unfolding own_service_def by blast
qed

definition sample_scoped_request :: RunnerRequest where
  "sample_scoped_request = sample_request \<lparr> rq_ProfileSource := ''scoped_custom'', rq_GitHubInstallationID := 4 \<rparr>"

theorem scoped_custom_uses_own_service_witness:
  "case sandboxServiceAndConfigForRunnerRequestContext 7 sample_env [] sample_scoped_request \<lparr> in_installations = [], in_owners = [] \<rparr> of
      (_, Inl _) \<Rightarrow> False
    | (_, Inr snapshot) \<Rightarrow> credentials_of sample_env AccountScopeTypeGitHubInstall 4 snapshot"
proof -
  have 1: "TrimSpace (rq_ProfileSource sample_scoped_request) = ''scoped_custom''" "request_snapshot sample_scoped_request = None" by code_simp+
  define snapshot where "snapshot = zero_snapshot \<lparr> sn_APIURL := ''https://s'', sn_EncryptedAPIKey := ''e'', sn_Source := ''installation'' \<rparr>"
  have 2: "sandboxServiceAndConfigForRunnerRequestContext 7 sample_env [] sample_scoped_request \<lparr> in_installations = [], in_owners = [] \<rparr>
      = (\<lparr> in_installations = [], in_owners = [] \<rparr>, Inr snapshot)"
    unfolding snapshot_def by code_simp
  have 3: "rq_GitHubInstallationID sample_scoped_request = 4" "sn_Source snapshot = ''installation''"
    by (simp_all add: sample_scoped_request_def snapshot_def)
  show ?thesis
    using scoped_custom_uses_own_service [OF 1 2]
    by (auto simp: 2 3 sandboxConfigSourceAccount_def sandboxConfigSourceInheritedAccount_def)
qed

end
