(* ===== verification/Loops.thy ===== *)
theory Loops
  imports Lifecycle
begin

text \<open>
  The background loops of \<^verbatim>\<open>internal/server/server_loops.go\<close>: claiming, sweeping, reconciling.

  A loop reads a snapshot of the requests and then handles them one by one, without a lock in
  between: \<open>other\<close> is what the rest of the server does before each of them, and while GitHub is
  asked. The slots of the worker pool are the number of starts that may still run.
\<close>

subsection \<open>Claiming\<close>

text \<open>A claimed request is handed to a goroutine that starts it: the list of the claimed ones.\<close>

fun processQueuedRequests :: "string \<Rightarrow> instant \<Rightarrow> duration \<Rightarrow> (server_state \<Rightarrow> server_state) \<Rightarrow> nat \<Rightarrow> server_state \<Rightarrow> server_state \<times> string list" where
  "processQueuedRequests workerID now ttl other 0 sv = (sv, [])"
| "processQueuedRequests workerID now ttl other (Suc slots) sv =
     (case ClaimNextRunnable workerID now ttl (sv_requests sv) of
        (tbl, Inr (Some (req, _))) \<Rightarrow>
          (case processQueuedRequests workerID now ttl other slots (other (sv \<lparr> sv_requests := tbl \<rparr>)) of
             (sv1, ids) \<Rightarrow> (sv1, rq_ID req # ids))
      | (tbl, _) \<Rightarrow> (sv \<lparr> sv_requests := tbl \<rparr>, []))"

subsection \<open>Sweeping\<close>

definition sweep_state ::
  "lifecycle_config \<Rightarrow> instant \<Rightarrow> external \<Rightarrow> RunnerState \<Rightarrow> server_state \<Rightarrow> server_state \<times> bool" where
  "sweep_state cfg now ex st sv =
     (case rs_Status st of
        StatusCreating \<Rightarrow>
          ((if \<not> IsZero (rs_CreatingAt st) \<and> now - rs_CreatingAt st > lc_SandboxCreateTimeout cfg
            then retryOrFail cfg now st ''sweeper_create_timeout'' (PlainError ''runner create timed out'') sv else sv), False)
      | StatusRunning \<Rightarrow>
          (if \<not> IsZero (rs_RunningAt st) \<and> now - rs_RunningAt st > lc_SandboxTimeout cfg
           then (failAndStopRunner cfg now ex (rs_ID st) ''sandbox_timeout'' ''timeout'' ''runner exceeded sandbox timeout'' sv, True)
           else (sv, False))
      | StatusStopping \<Rightarrow>
          ((if \<not> IsZero (rs_NextRetryAt st) \<and> now < rs_NextRetryAt st then sv
            else if \<not> IsZero (rs_StoppingAt st) \<and> now - rs_StoppingAt st > lc_SandboxStopTimeout cfg
            then stopIfExists cfg now ex (rs_ID st) zero_job TerminationSourceRecoveryCleanup sv else sv), False)
      | _ \<Rightarrow> (sv, False))"

definition sweep_idle ::
  "lifecycle_config \<Rightarrow> instant \<Rightarrow> external \<Rightarrow> (server_state \<Rightarrow> server_state) \<Rightarrow> RunnerState \<Rightarrow> server_state \<Rightarrow> server_state" where
  "sweep_idle cfg now ex other st sv =
     (case originalWorkflowJobQueued ex st sv of
        (sv1, Inl err) \<Rightarrow>
          control_log now (rs_ID st) (''sweeper skipped idle stop because workflow job status could not be verified: '' @ err_text err) sv1
      | (sv1, Inr True) \<Rightarrow> control_log now (rs_ID st) ''sweeper kept idle runner because workflow job is still queued'' sv1
      | (sv1, Inr False) \<Rightarrow>
          (case githubRunnerBusy ex st (other sv1) of
             (sv2, Inl err) \<Rightarrow>
               control_log now (rs_ID st) (''sweeper skipped idle stop because github runner status could not be verified: '' @ err_text err) sv2
           | (sv2, Inr True) \<Rightarrow>
               markRunnerJobStarted now (rs_ID st)
                 (other (control_log now (rs_ID st) ''sweeper kept runner because github reports it is running a job'' sv2))
           | (sv2, Inr False) \<Rightarrow>
               stopIfExists cfg now ex (rs_ID st) zero_job TerminationSourceIdleCleanup
                 (other (control_log now (rs_ID st) ''sweeper stopping idle runner that never accepted a job'' sv2))))"

text \<open>The two passes: timeouts, with the requests that were stopped; then the idle runners among the rest.\<close>

fun sweep_timeouts ::
  "lifecycle_config \<Rightarrow> instant \<Rightarrow> external \<Rightarrow> (server_state \<Rightarrow> server_state) \<Rightarrow> RunnerState list \<Rightarrow> string list \<Rightarrow> server_state
    \<Rightarrow> server_state \<times> string list" where
  "sweep_timeouts cfg now ex other [] stopped sv = (sv, stopped)"
| "sweep_timeouts cfg now ex other (st # sts) stopped sv =
     (case sweep_state cfg now ex st (other sv) of
        (sv1, b) \<Rightarrow> sweep_timeouts cfg now ex other sts (if b then rs_ID st # stopped else stopped) sv1)"

fun sweep_idlers ::
  "lifecycle_config \<Rightarrow> instant \<Rightarrow> external \<Rightarrow> (server_state \<Rightarrow> server_state) \<Rightarrow> string list \<Rightarrow> RunnerState list \<Rightarrow> server_state \<Rightarrow> server_state" where
  "sweep_idlers cfg now ex other stopped [] sv = sv"
| "sweep_idlers cfg now ex other stopped (st # sts) sv =
     sweep_idlers cfg now ex other stopped sts
       (if rs_Status st \<noteq> StatusRunning \<or> \<not> shouldStopIdleRunner cfg st now \<or> rs_ID st \<in> set stopped then sv
        else sweep_idle cfg now ex other st (other sv))"

definition sweepOnce :: "lifecycle_config \<Rightarrow> instant \<Rightarrow> external \<Rightarrow> (server_state \<Rightarrow> server_state) \<Rightarrow> server_state \<Rightarrow> server_state" where
  "sweepOnce cfg now ex other sv =
     (let states = ListActiveStates (sv_requests sv)
      in case sweep_timeouts cfg now ex other states [] sv of
           (sv1, stopped) \<Rightarrow> sweep_idlers cfg now ex other stopped states sv1)"

subsection \<open>Reconciling\<close>

definition reconcile_state ::
  "lifecycle_config \<Rightarrow> instant \<Rightarrow> external \<Rightarrow> RunnerState \<Rightarrow> server_state \<Rightarrow> server_state" where
  "reconcile_state cfg now ex st sv =
     (case rs_Status st of
        StatusQueued \<Rightarrow> signalQueue sv
      | StatusStopping \<Rightarrow>
          if \<not> IsZero (rs_NextRetryAt st) \<and> now < rs_NextRetryAt st then sv
          else if \<not> IsZero (rs_StoppingAt st) \<and> now - rs_StoppingAt st > lc_SandboxStopTimeout cfg
          then stopIfExists cfg now ex (rs_ID st) zero_job TerminationSourceRecoveryCleanup sv else sv
      | _ \<Rightarrow> sv)"

definition reconcile_mismatched ::
  "instant \<Rightarrow> external \<Rightarrow> (server_state \<Rightarrow> server_state) \<Rightarrow> RunnerState \<Rightarrow> server_state \<Rightarrow> server_state" where
  "reconcile_mismatched now ex other st sv =
     (case read_state (rs_ID st) sv of
        Inl _ \<Rightarrow> sv
      | Inr current \<Rightarrow>
          if rs_Status current \<noteq> StatusCompleted \<or> rs_WorkflowJobID current = 0 \<or> rs_AssignedJobID current = 0
             \<or> rs_WorkflowJobID current = rs_AssignedJobID current then sv
          else
            let observed = zero_job \<lparr> wj_ID := rs_AssignedJobID current, wj_Name := rs_AssignedJobName current \<rparr>
            in case originalWorkflowJobQueued ex current sv of (sv1, answer) \<Rightarrow>
               let queued = (case answer of Inl _ \<Rightarrow> True | Inr q \<Rightarrow> q); sv2 = other sv1
               in (case read_state (rs_ID current) sv2 of
                     Inl _ \<Rightarrow> sv2
                   | Inr latest \<Rightarrow>
                       if rs_Status latest \<noteq> StatusCompleted \<or> rs_WorkflowJobID latest \<noteq> rs_WorkflowJobID current
                          \<or> rs_AssignedJobID latest \<noteq> rs_AssignedJobID current then sv2
                       else fst (requeueMismatchedWorkflowJob now latest observed queued sv2)))"

definition reconcileMismatchedCompletedJobs :: "instant \<Rightarrow> external \<Rightarrow> (server_state \<Rightarrow> server_state) \<Rightarrow> server_state \<Rightarrow> server_state" where
  "reconcileMismatchedCompletedJobs now ex other sv =
     fold (\<lambda>st s. reconcile_mismatched now ex other st (other s)) (ListMismatchedCompletedStates 50 (sv_requests sv)) sv"

definition recoverable_failure :: "RunnerState \<Rightarrow> bool" where
  "recoverable_failure st \<longleftrightarrow> rs_Status st = StatusFailed \<and> (rs_FailureStage st = ''recovery'' \<or> rs_FailureStage st = ''cleanup'')"

definition completed_after_failure :: "instant \<Rightarrow> WorkflowJob \<Rightarrow> RunnerState \<Rightarrow> RunnerState" where
  "completed_after_failure now job st =
     fst (retainWorkflowJobResult now job now (clear_last_error (st \<lparr> rs_Status := StatusCompleted, rs_AssignedJobID := 0, rs_AssignedJobName := [],
       rs_Error := [], rs_FailureStage := [], rs_FailureReason := [], rs_LeaseOwner := [], rs_LeaseExpiresAt := zero_time \<rparr>)))
     \<lparr> rs_CompletedAt := now \<rparr>"

definition completeIfWorkflowJobCompleted ::
  "instant \<Rightarrow> external \<Rightarrow> (server_state \<Rightarrow> server_state) \<Rightarrow> string \<Rightarrow> server_state \<Rightarrow> server_state \<times> go_error option" where
  "completeIfWorkflowJobCompleted now ex other i sv =
     (case read_state i sv of
        Inl e \<Rightarrow> (sv, Some (PlainError (error_text e)))
      | Inr st \<Rightarrow>
          if rs_WorkflowJobID st = 0 \<or> rs_RepositoryFullName st = [] then (sv, None)
          else if \<not> recoverable_failure st then (sv, None)
          else
            let sv1 = other (call (CallGetWorkflowJob (rs_RepositoryFullName st) (rs_WorkflowJobID st)) sv)
            in case ex_GetWorkflowJob ex (rs_RepositoryFullName st) (rs_WorkflowJobID st) of
                 Inl err \<Rightarrow> (sv1, Some err)
               | Inr job \<Rightarrow>
                   if \<not> EqualFold (TrimSpace (wj_Status job)) ''completed'' then (sv1, None)
                   else case read_state i sv1 of
                     Inl e \<Rightarrow> (sv1, Some (PlainError (error_text e)))
                   | Inr latest \<Rightarrow>
                       if rs_Version latest \<noteq> rs_Version st \<or> rs_WorkflowJobID latest \<noteq> rs_WorkflowJobID st
                          \<or> rs_RepositoryFullName latest \<noteq> rs_RepositoryFullName st then (sv1, None)
                       else if \<not> recoverable_failure latest then (sv1, None)
                       else case write_state now (completed_after_failure now job latest) sv1 of
                         Inl e \<Rightarrow> (sv1, Some (PlainError (error_text e)))
                       | Inr sv2 \<Rightarrow>
                           (control_log now i (''workflow job '' @ int_dec (rs_WorkflowJobID st)
                              @ '' is completed on GitHub; marked request completed'') sv2, None))"

definition reconcileCompletedWorkflowJobs :: "instant \<Rightarrow> external \<Rightarrow> (server_state \<Rightarrow> server_state) \<Rightarrow> server_state \<Rightarrow> server_state" where
  "reconcileCompletedWorkflowJobs now ex other sv =
     fold (\<lambda>st s. fst (completeIfWorkflowJobCompleted now ex other (rs_ID st) (other s))) (ListFailedWorkflowJobStates 50 (sv_requests sv)) sv"

text \<open>
  One round of the reconciler. \<open>metrics_ok\<close> says whether the metrics could be refreshed; when not,
  the flag of the waiting metrics is set again.
\<close>

definition reconcileOnce ::
  "lifecycle_config \<Rightarrow> string \<Rightarrow> instant \<Rightarrow> external \<Rightarrow> (server_state \<Rightarrow> server_state) \<Rightarrow> nat \<Rightarrow> bool \<Rightarrow> server_state \<Rightarrow> server_state \<times> string list" where
  "reconcileOnce cfg workerID now ex other slots metrics_ok sv =
     (case processQueuedRequests workerID now (lc_WorkerLeaseTTL cfg) other slots sv of
        (sv1, started) \<Rightarrow>
          let sv2 = fold (\<lambda>st s. reconcile_state cfg now ex st (other s)) (ListActiveStates (sv_requests sv1)) sv1;
              sv3 = reconcileCompletedWorkflowJobs now ex other (reconcileMismatchedCompletedJobs now ex other sv2)
          in (sv3 \<lparr> sv_waitingMetricsDirty := (sv_waitingMetricsDirty sv3 \<and> \<not> metrics_ok) \<rparr>, started))"

definition appendRunnerStdout :: "instant \<Rightarrow> string \<Rightarrow> string \<Rightarrow> server_state \<Rightarrow> server_state" where
  "appendRunnerStdout now i data sv =
     (let sv1 = sv \<lparr> sv_events := AppendLog now i ''stdout.log'' data (sv_events sv) \<rparr>;
          sv2 = (if Contains data ''Running job:'' \<or> Contains data ''RUNNERD_JOB_STARTED'' then markRunnerJobStarted now i sv1 else sv1)
      in if Contains data ''RUNNERD_JOB_COMPLETED''
         then staged_log now i ''runner_hook'' ''runner completed job hook received'' sv2 else sv2)"

subsection \<open>The loops are made of operations of the store\<close>

lemma serves_claim: "ClaimNextRunnable w now ttl (sv_requests x) = (tbl, r) \<Longrightarrow> serves a x \<Longrightarrow> serves a (x \<lparr> sv_requests := tbl \<rparr>)"
  by (rule serves_trans, assumption) (rule serves_op [of _ "OpClaim w now ttl"], simp_all)

lemma serves_processQueuedRequests:
  assumes "\<And>s. serves s (other s)"
  shows "serves a x \<Longrightarrow> serves a (fst (processQueuedRequests w now ttl other slots x))"
proof (induction slots arbitrary: x)
  case (Suc slots)
  obtain tbl r where c: "ClaimNextRunnable w now ttl (sv_requests x) = (tbl, r)" by fastforce
  have s: "serves a (x \<lparr> sv_requests := tbl \<rparr>)" using c Suc.prems by (rule serves_claim)
  then have "serves a (fst (processQueuedRequests w now ttl other slots (other (x \<lparr> sv_requests := tbl \<rparr>))))"
    by (intro Suc.IH serves_other [OF assms])
  then show ?case using s by (auto simp: c case_prod_beta split: sum.split option.split)
qed simp

lemma serves_sweep_state [serves_elims]: "sweep_state cfg now ex st x = (y, b) \<Longrightarrow> serves a x \<Longrightarrow> serves a y"
  by (auto simp: sweep_state_def intro!: serves_intros split: runner_status.splits if_splits)

lemma serves_sweep_idle:
  assumes "\<And>s. serves s (other s)" "serves a x" shows "serves a (sweep_idle cfg now ex other st x)"
  using assms(2) unfolding sweep_idle_def
  by - (assumption | erule serves_elims | rule serves_cases serves_intros serves_other [OF assms(1)])+

lemma serves_sweep_timeouts:
  assumes "\<And>s. serves s (other s)"
  shows "serves a x \<Longrightarrow> serves a (fst (sweep_timeouts cfg now ex other sts stopped x))"
proof (induction sts arbitrary: stopped x)
  case (Cons st sts)
  obtain y b where y: "sweep_state cfg now ex st (other x) = (y, b)" by fastforce
  have "serves a y" using y by (rule serves_sweep_state) (rule serves_other [OF assms Cons.prems])
  then show ?case using Cons.IH y by simp
qed simp

lemma serves_sweep_idlers:
  assumes "\<And>s. serves s (other s)"
  shows "serves a x \<Longrightarrow> serves a (sweep_idlers cfg now ex other stopped sts x)"
  by (induction sts arbitrary: x) (auto intro!: serves_sweep_idle [OF assms] serves_other [OF assms])

lemma serves_sweepOnce:
  assumes "\<And>s. serves s (other s)" "serves a x" shows "serves a (sweepOnce cfg now ex other x)"
  unfolding sweepOnce_def Let_def case_prod_beta by (rule serves_sweep_idlers [OF assms(1) serves_sweep_timeouts [OF assms]])

lemma serves_fold:
  "(\<And>v s. serves a s \<Longrightarrow> serves a (f v s)) \<Longrightarrow> serves a x \<Longrightarrow> serves a (fold f vs x)"
  by (induction vs arbitrary: x) auto

lemma serves_reconcile_state: "serves a x \<Longrightarrow> serves a (reconcile_state cfg now ex st x)"
  by (auto simp: reconcile_state_def intro!: serves_intros split: runner_status.split)

lemma serves_reconcile_mismatched:
  assumes "\<And>s. serves s (other s)" "serves a x" shows "serves a (reconcile_mismatched now ex other st x)"
proof -
  have *: "serves a y \<Longrightarrow> serves a (fst (requeueMismatchedWorkflowJob now st job q y))" for st job q y
    by (cases "requeueMismatchedWorkflowJob now st job q y") (auto elim: serves_jobs(3))
  show ?thesis using assms(2) unfolding reconcile_mismatched_def Let_def
    by - (assumption | erule serves_elims | rule serves_cases * serves_intros serves_other [OF assms(1)])+
qed

lemma serves_fst_cases:
  "(\<And>e. q = Inl e \<Longrightarrow> serves a (fst (f1 e))) \<Longrightarrow> (\<And>v. q = Inr v \<Longrightarrow> serves a (fst (g1 v))) \<Longrightarrow> serves a (fst (case q of Inl e \<Rightarrow> f1 e | Inr v \<Rightarrow> g1 v))"
  "serves a (fst f2) \<Longrightarrow> serves a (fst g2) \<Longrightarrow> serves a (fst (if c then f2 else g2))"
  "serves a x \<Longrightarrow> serves a (fst (x, r))"
  by (auto split: sum.split)

lemma serves_completeIf:
  assumes "\<And>s. serves s (other s)" "serves a x" shows "serves a (fst (completeIfWorkflowJobCompleted now ex other i x))"
  using assms(2) unfolding completeIfWorkflowJobCompleted_def Let_def
  by - (assumption | erule serves_elims | rule serves_fst_cases serves_intros serves_other [OF assms(1)])+

lemma serves_reconcileOnce:
  assumes "\<And>s. serves s (other s)" "serves a x" shows "serves a (fst (reconcileOnce cfg w now ex other slots ok x))"
proof -
  note c = serves_completeIf [OF assms(1)] and o' = serves_other [OF assms(1)]
  show ?thesis
    unfolding reconcileOnce_def case_prod_beta Let_def fst_conv reconcileCompletedWorkflowJobs_def reconcileMismatchedCompletedJobs_def
    by (intro serves_step(5) serves_fold c o' serves_reconcile_mismatched [OF assms(1)] serves_reconcile_state
        serves_processQueuedRequests [OF assms(1)] assms(2))
qed

lemma serves_events [serves_intros]: "serves a x \<Longrightarrow> serves a (x \<lparr> sv_events := es \<rparr>)"
  by (auto simp: serves_def)

lemma serves_appendRunnerStdout [serves_intros]: "serves a x \<Longrightarrow> serves a (appendRunnerStdout now i data x)"
  unfolding appendRunnerStdout_def Let_def by (assumption | rule serves_cases serves_intros)+

subsection \<open>The sweeper stops only what is due\<close>

fun is_stop :: "external_call \<Rightarrow> bool" where
  "is_stop (CallStopRunner _ _) = True"
| "is_stop (CallRemoveRunner _ _ _) = True"
| "is_stop _ = False"

definition stop_calls :: "server_state \<Rightarrow> external_call list" where
  "stop_calls sv = filter is_stop (sv_calls sv)"

text \<open>The three reasons for which the sweeper ends a runner, read off the request and GitHub's answers.\<close>

definition sweep_due :: "lifecycle_config \<Rightarrow> instant \<Rightarrow> external \<Rightarrow> RunnerState \<Rightarrow> bool" where
  "sweep_due cfg now ex st \<longleftrightarrow>
     rs_Status st = StatusRunning \<and> rs_RunningAt st \<noteq> zero_time \<and> now - rs_RunningAt st > lc_SandboxTimeout cfg
   \<or> rs_Status st = StatusStopping \<and> rs_StoppingAt st \<noteq> zero_time \<and> now - rs_StoppingAt st > lc_SandboxStopTimeout cfg
       \<and> (rs_NextRetryAt st = zero_time \<or> rs_NextRetryAt st \<le> now)
   \<or> rs_Status st = StatusRunning \<and> 0 < lc_RunnerIdleTimeout cfg \<and> rs_RunningAt st \<noteq> zero_time
       \<and> now - rs_RunningAt st > lc_RunnerIdleTimeout cfg \<and> rs_AssignedJobID st = 0 \<and> rs_AssignedJobName st \<noteq> runnerJobStartedMarker
       \<and> snd (originalWorkflowJobQueued ex st empty_server) = Inr False \<and> snd (githubRunnerBusy ex st empty_server) = Inr False"

lemma calls_write: "write_state now st sv = Inr sv' \<Longrightarrow> sv_calls sv' = sv_calls sv"
  by (auto simp: write_state_def result_bind_Inr_iff)

lemma calls_retryOrFail [simp]: "sv_calls (retryOrFail cfg now st stage err sv) = sv_calls sv"
  by (auto simp: retryOrFail_def Let_def calls_write split: sum.split prod.split)

lemma calls_markRunnerJobStarted [simp]: "sv_calls (markRunnerJobStarted now i sv) = sv_calls sv"
  by (auto simp: markRunnerJobStarted_def calls_write split: sum.split)

lemma stop_calls_log [simp]: "stop_calls (control_log now i t sv) = stop_calls sv"
  by (simp add: stop_calls_def)

lemma stop_calls_questions:
  "originalWorkflowJobQueued ex st sv = (sv1, q) \<Longrightarrow> stop_calls sv1 = stop_calls sv \<and> q = snd (originalWorkflowJobQueued ex st empty_server)"
  "githubRunnerBusy ex st sv = (sv1, b) \<Longrightarrow> stop_calls sv1 = stop_calls sv \<and> b = snd (githubRunnerBusy ex st empty_server)"
  by (auto simp: originalWorkflowJobQueued_def githubRunnerBusy_def stop_calls_def Let_def split: if_splits)

lemma sweep_state_not_due:
  "\<not> sweep_due cfg now ex st \<Longrightarrow> sweep_state cfg now ex st sv = (sv1, b) \<Longrightarrow> stop_calls sv1 = stop_calls sv"
  by (auto simp: sweep_state_def sweep_due_def stop_calls_def IsZero_def split: runner_status.splits if_splits)

lemma sweep_idle_not_due:
  assumes other: "\<And>s. stop_calls (other s) = stop_calls s"
    and st: "rs_Status st = StatusRunning" "shouldStopIdleRunner cfg st now" "\<not> sweep_due cfg now ex st"
  shows "stop_calls (sweep_idle cfg now ex other st sv) = stop_calls sv"
proof -
  have no: "snd (originalWorkflowJobQueued ex st empty_server) \<noteq> Inr False \<or> snd (githubRunnerBusy ex st empty_server) \<noteq> Inr False"
    using st by (auto simp: sweep_due_def shouldStopIdleRunner_def IsZero_def split: if_splits)
  have m: "stop_calls (markRunnerJobStarted now i s) = stop_calls s" for i s by (simp add: stop_calls_def)
  show ?thesis
    unfolding sweep_idle_def using no other
    by (auto simp: m dest!: stop_calls_questions split: prod.split sum.split bool.split)
qed

lemma sweep_timeouts_not_due:
  assumes "\<And>s. stop_calls (other s) = stop_calls s"
  shows "list_all (\<lambda>st. \<not> sweep_due cfg now ex st) sts \<Longrightarrow> stop_calls (fst (sweep_timeouts cfg now ex other sts stopped sv)) = stop_calls sv"
proof (induction sts arbitrary: stopped sv)
  case (Cons st sts)
  obtain y b where y: "sweep_state cfg now ex st (other sv) = (y, b)" by fastforce
  have "stop_calls y = stop_calls sv" using sweep_state_not_due [OF _ y] Cons.prems assms by simp
  then show ?case using Cons y by simp
qed simp

lemma sweep_idlers_not_due:
  assumes "\<And>s. stop_calls (other s) = stop_calls s"
  shows "list_all (\<lambda>st. \<not> sweep_due cfg now ex st) sts \<Longrightarrow> stop_calls (sweep_idlers cfg now ex other stopped sts sv) = stop_calls sv"
  by (induction sts arbitrary: sv) (auto simp: sweep_idle_not_due [OF assms] assms)

text \<open>A sweep in which nothing is due ends nothing. It asks for the stop of a sandbox or the removal
  of a registration only when some request of its snapshot has run past the sandbox timeout, or has been
  stopping for longer than the stop timeout with its next retry reached, or has run past the idle timeout
  without having accepted a job while GitHub answered both that its job is no longer queued and that its
  runner is not busy. An unanswered question is never taken for a no.\<close>
theorem sweep_stops_only_due:
  assumes "\<And>s. stop_calls (other s) = stop_calls s"
    and "stop_calls (sweepOnce cfg now ex other sv) \<noteq> stop_calls sv"
  shows "list_ex (sweep_due cfg now ex) (ListActiveStates (sv_requests sv))"
proof (rule ccontr)
  assume "\<not> ?thesis"
  then have "list_all (\<lambda>st. \<not> sweep_due cfg now ex st) (ListActiveStates (sv_requests sv))" by (simp add: list_ex_iff list_all_iff)
  then have "stop_calls (sweepOnce cfg now ex other sv) = stop_calls sv"
    by (simp add: sweepOnce_def Let_def case_prod_beta sweep_idlers_not_due [OF assms(1)] sweep_timeouts_not_due [OF assms(1)])
  then show False using assms(2) by simp
qed

definition idle_server :: server_state where
  "idle_server = empty_server \<lparr> sv_requests := [sample_row \<lparr> rr_Status := StatusRunning, rr_SandboxID := ''sb'', rr_ProcessPID := 4,
     rr_RunningAt := Some 6 \<rparr>] \<rparr>"

theorem sweep_stops_only_due_witness:
  "list_ex (sweep_due (sample_config \<lparr> lc_SandboxTimeout := 10 \<rparr>) 99 sample_external) (ListActiveStates (sv_requests idle_server))"
proof -
  have "stop_calls (sweepOnce (sample_config \<lparr> lc_SandboxTimeout := 10 \<rparr>) 99 sample_external (\<lambda>s. s) idle_server) \<noteq> stop_calls idle_server"
    by code_simp
  then show ?thesis by (rule sweep_stops_only_due [rotated]) simp
qed

end
