(* ===== verification/JobQueue.thy ===== *)
theory JobQueue
  imports Lifecycle Catalog
begin

text \<open>
  How a request enters the queue and how a worker decides, with the request marked as creating,
  whether its job still waits for a runner: \<^verbatim>\<open>internal/server/server_workflow_job_queue.go\<close>, the
  admission part of \<^verbatim>\<open>server_runner_lifecycle.go\<close>, the webhook of \<^verbatim>\<open>server_webhooks.go\<close> and the
  repository allow list of \<^verbatim>\<open>internal/config/config.go\<close>.

  The catalogue and the installations are arguments, read under the admission lock. \<open>other\<close> is what
  the rest of the server does while the handler does not hold the request's lock.
\<close>

subsection \<open>The allow list\<close>

definition repositoryMatches :: "string \<Rightarrow> string \<Rightarrow> bool" where
  "repositoryMatches pattern0 repository0 =
     (let pat = TrimSpace pattern0; repository = TrimSpace repository0
      in if pat = [] \<or> repository = [] then False
         else if pat = repository then True
         else if HasSuffix pat ''/*'' then HasPrefix repository (TrimSuffix pat ''*'')
         else False)"

definition RepositoryAllowed :: "string list \<Rightarrow> string \<Rightarrow> bool" where
  "RepositoryAllowed allowed repository0 =
     (let repository = TrimSpace repository0
      in if repository = [] then False
         else if allowed = [] then True
         else list_ex (\<lambda>pat. repositoryMatches pat repository) allowed)"

subsection \<open>Waiting\<close>

definition workflowJobWaitCode :: string where
  "workflowJobWaitCode = ''github_job_waiting''"

definition workflowJobStatusCodePrefix :: string where
  "workflowJobStatusCodePrefix = ''github_job_status_''"

definition historicalWorkflowJobWaitingSkip :: string where
  "historicalWorkflowJobWaitingSkip = ''runner skipped before sandbox start: workflow job is waiting''"

text \<open>
  The loop that doubles the polling delay while the request is older than it. The doubling is that
  of a signed 64-bit number: it either grows or turns negative, so the loop ends.
\<close>

function wait_delay :: "duration \<Rightarrow> duration \<Rightarrow> duration \<Rightarrow> duration" where
  "wait_delay maxDelay age delay =
     (if 0 < delay \<and> delay < maxDelay \<and> delay \<le> age then wait_delay maxDelay age (wrap64 (delay * 2)) else delay)"
  by auto
termination
proof (relation "measure (\<lambda>(_, _, d). if d \<le> 0 then 0 else if d < 2 ^ 63 then nat (2 ^ 63 - d) else 2 ^ 63 + 1)")
  fix maxDelay age delay :: int
  assume "0 < delay \<and> delay < maxDelay \<and> delay \<le> age"
  then have pos: "0 < delay" by simp
  have below: "wrap64 (delay * 2) < 2 ^ 63" by (simp add: wrap64_def)
  have "delay < 2 ^ 63 \<Longrightarrow> wrap64 (delay * 2) \<le> 0 \<or> delay < wrap64 (delay * 2)"
  proof (cases "delay < 2 ^ 62")
    case True
    then have "wrap64 (delay * 2) = delay * 2" using pos by (simp add: wrap64_id)
    then show ?thesis using pos by simp
  next
    case False
    assume "delay < 2 ^ 63"
    then have "(delay * 2 + 2 ^ 63) mod 2 ^ 64 = delay * 2 + 2 ^ 63 - 2 ^ 64"
      using False mod_pos_pos_trivial [of "delay * 2 + 2 ^ 63 - 2 ^ 64" "2 ^ 64"]
        minus_mod_self2 [of "delay * 2 + 2 ^ 63" "2 ^ 64"] by simp
    then show ?thesis using \<open>delay < 2 ^ 63\<close> by (simp add: wrap64_def)
  qed
  then show "((maxDelay, age, wrap64 (delay * 2)), maxDelay, age, delay)
      \<in> measure (\<lambda>(_, _, d). if d \<le> 0 then 0 else if d < 2 ^ 63 then nat (2 ^ 63 - d) else 2 ^ 63 + 1)"
    using pos below by (auto split: if_splits)
qed simp

declare wait_delay.simps [simp del]

text \<open>What the lookup of the job says, and the verdict that is recorded when the job cannot start now.\<close>

record wait_verdict =
  wv_known :: bool
  wv_rateLimited :: bool
  wv_code :: string
  wv_message :: string

definition wait_reason :: "bool \<Rightarrow> WorkflowJob \<Rightarrow> go_error option \<Rightarrow> wait_verdict" where
  "wait_reason stale job lookupErr =
     (let known = (stale \<or> (lookupErr = None \<and> (isWorkflowJobWaiting (wj_Status job) \<or> wj_Status job = ''in_progress'')))
      in if known then
           \<lparr> wv_known = True, wv_rateLimited = False, wv_code = workflowJobWaitCode,
             wv_message = (if stale then ''workflow job changed during status lookup; recheck required''
                           else ''workflow job is '' @ wj_Status job) \<rparr>
         else case lookupErr of
             None \<Rightarrow> \<lparr> wv_known = False, wv_rateLimited = False, wv_code = workflowJobStatusCodePrefix @ ''unknown'',
                       wv_message = ''unrecognized workflow job status'' \<rparr>
           | Some e \<Rightarrow>
               if fst (classifyRetryableError ''github_job_status'' (Some e)) \<in> {''http_rate_limited'', ''github_secondary_rate_limit''}
               then \<lparr> wv_known = False, wv_rateLimited = True, wv_code = workflowJobStatusCodePrefix @ ''rate_limited'',
                      wv_message = ''workflow job status lookup rate limited'' \<rparr>
               else \<lparr> wv_known = False, wv_rateLimited = False, wv_code = workflowJobStatusCodePrefix @ ''unavailable'',
                      wv_message = ''workflow job status lookup failed'' \<rparr>)"

definition wait_state :: "lifecycle_config \<Rightarrow> instant \<Rightarrow> wait_verdict \<Rightarrow> RunnerState \<Rightarrow> RunnerState" where
  "wait_state cfg now v st0 =
     (let st = st0 \<lparr> rs_LeaseOwner := [], rs_LeaseExpiresAt := zero_time, rs_Status := StatusQueued, rs_CreatingAt := zero_time,
            rs_Error := [], rs_FailureStage := [], rs_FailureReason := [],
            rs_LastErrorCode := wv_code v, rs_LastErrorMessage := wv_message v, rs_LastErrorRetryable := True \<rparr>
      in if \<not> wv_known v \<and> \<not> wv_rateLimited v \<and> rs_RetryCount st \<ge> lc_RetryMaxAttempts cfg then
           st \<lparr> rs_Status := StatusFailed, rs_Error := wv_message v, rs_FailureStage := ''github_job_status'',
                rs_FailureReason := wv_code v, rs_NextRetryAt := zero_time \<rparr>
         else if wv_known v then
           st \<lparr> rs_NextRetryAt := now + min (wait_delay (lc_RetryMaxDelay cfg) (now - rs_CreatedAt st) (lc_RetryBaseDelay cfg)) (lc_RetryMaxDelay cfg) \<rparr>
         else
           let n = (if rs_RetryCount st < lc_RetryMaxAttempts cfg then rs_RetryCount st + 1 else rs_RetryCount st)
           in st \<lparr> rs_RetryCount := n, rs_NextRetryAt := nextRetryAt cfg (max n 1) now \<rparr>)"

text \<open>The attempt of this worker is the one that the request is still in.\<close>

definition same_attempt :: "string \<Rightarrow> RunnerState \<Rightarrow> RunnerState \<Rightarrow> bool" where
  "same_attempt workerID before st \<longleftrightarrow> rs_Status st = StatusCreating \<and> rs_LeaseOwner st = workerID \<and> rs_SandboxID st = []
     \<and> rs_ProcessPID st = 0 \<and> rs_LastAttemptAt st = rs_LastAttemptAt before \<and> rs_CreatingAt st = rs_CreatingAt before"

definition start_decision ::
  "lifecycle_config \<Rightarrow> instant \<Rightarrow> RunnerRequest \<Rightarrow> RunnerState \<Rightarrow> RunnerState \<Rightarrow> go_error + WorkflowJob \<Rightarrow> server_state
    \<Rightarrow> server_state \<times> (go_error + bool)" where
  "start_decision cfg now req before st answer sv =
     (let i = rq_ID req;
          stale = (rs_Version st \<noteq> rs_Version before);
          job = (case answer of Inl _ \<Rightarrow> zero_job | Inr j \<Rightarrow> j);
          lookupErr = (case answer of Inl e \<Rightarrow> Some e
            | Inr j \<Rightarrow> if wj_ID j \<noteq> rq_JobID req then Some (PlainError ''workflow job lookup returned a different job'') else None)
      in if \<not> stale \<and> lookupErr = None \<and> wj_Status job = ''queued'' then
           (let waited = (rs_LastErrorCode st = workflowJobWaitCode \<or> HasPrefix (rs_LastErrorCode st) workflowJobStatusCodePrefix);
                st1 = clear_last_error (st \<lparr> rs_Error := [], rs_FailureStage := [], rs_FailureReason := [] \<rparr>);
                log = control_log now i ''workflow job observed_status=queued decision=start''
            in if waited then (case write_state now st1 sv of
                     Inl e \<Rightarrow> (sv, Inl (PlainError (error_text e)))
                   | Inr sv1 \<Rightarrow> (log sv1, Inr True))
               else (log sv, Inr True))
         else if \<not> stale \<and> lookupErr = None \<and> wj_Status job = ''completed'' then
           (case completeWithoutSandbox now i job (''workflow job is completed/'' @ wj_Conclusion job) sv of
              (sv1, Some e) \<Rightarrow> (sv1, Inl e)
            | (sv1, None) \<Rightarrow> (sv1, Inr False))
         else
           (let v = wait_reason stale job lookupErr;
                st1 = wait_state cfg now v st
            in case write_state now st1 sv of
                 Inl e \<Rightarrow> (sv, Inl (PlainError (error_text e)))
               | Inr sv1 \<Rightarrow>
                   let sv2 = signalQueue (control_log now i (''workflow job observed_status='' @ lc_quote cfg (wj_Status job) @ '' runner_name=''
                         @ lc_quote cfg (wj_RunnerName job) @ '' decision='' @ status_string (rs_Status st1) @ '' reason='' @ wv_code v
                         @ '' next_check='' @ lc_rfc3339 cfg (rs_NextRetryAt st1)) sv1)
                   in ((if rs_Status st1 = StatusFailed then sv2 else sv2 \<lparr> sv_waitingMetricsDirty := True \<rparr>), Inr False)))"

definition ensureWorkflowJobStillQueued ::
  "lifecycle_config \<Rightarrow> instant \<Rightarrow> external \<Rightarrow> (server_state \<Rightarrow> server_state) \<Rightarrow> RunnerRequest \<Rightarrow> string \<Rightarrow> server_state
    \<Rightarrow> server_state \<times> (go_error + bool)" where
  "ensureWorkflowJobStillQueued cfg now ex other req workerID sv =
     (if rq_JobID req = 0 then (sv, Inr True)
      else case read_state (rq_ID req) sv of
        Inl e \<Rightarrow> (sv, Inl (PlainError (error_text e)))
      | Inr before \<Rightarrow>
          let sv1 = control_log now (rq_ID req) ''checking workflow job status before sandbox start'' sv;
              sv2 = other (call (CallGetWorkflowJob (rq_RepositoryFullName req) (rq_JobID req)) sv1)
          in case read_state (rq_ID req) sv2 of
               Inl e \<Rightarrow> (sv2, Inl (PlainError (error_text e)))
             | Inr st \<Rightarrow>
                 if \<not> same_attempt workerID before st then (sv2, Inr False)
                 else start_decision cfg now req before st (ex_GetWorkflowJob ex (rq_RepositoryFullName req) (rq_JobID req)) sv2)"

text \<open>A fresh delivery for a job that waits. The request's lock is not taken: the version decides.\<close>

definition wakeWaitingWorkflowJob ::
  "instant \<Rightarrow> (server_state \<Rightarrow> server_state) \<Rightarrow> RunnerRequest \<Rightarrow> RunnerState \<Rightarrow> server_state
    \<Rightarrow> server_state \<times> RunnerState option \<times> error option" where
  "wakeWaitingWorkflowJob now other req fallback sv =
     (if rq_JobID req = 0 then (sv, Some fallback, None)
      else case read_state (rq_ID req) sv of
        Inl e \<Rightarrow> (sv, Some fallback, Some e)
      | Inr st \<Rightarrow>
          if rs_Status st \<noteq> StatusQueued \<or> rs_LastErrorCode st \<noteq> workflowJobWaitCode \<or> rs_LeaseOwner st \<noteq> [] \<or> rs_SandboxID st \<noteq> []
             \<or> rs_ProcessPID st \<noteq> 0 \<or> rs_WorkflowJobID st \<noteq> rq_JobID req \<or> rs_RepositoryFullName st \<noteq> rq_RepositoryFullName req
             \<or> rs_GitHubInstallationID st \<noteq> rq_GitHubInstallationID req \<or> IsZero (rs_NextRetryAt st)
          then (sv, Some st, None)
          else
            let st1 = st \<lparr> rs_NextRetryAt := zero_time \<rparr>; sv1 = other sv
            in case write_state now st1 sv1 of
                 Inl e \<Rightarrow>
                   if e = ErrConflict then (case read_state (rq_ID req) sv1 of
                       Inl e' \<Rightarrow> (sv1, None, Some e')
                     | Inr s \<Rightarrow> (sv1, Some s, None))
                   else (sv1, Some st1, Some e)
               | Inr sv2 \<Rightarrow> (signalQueue sv2, Some st1, None))"

text \<open>The repair of a request that an earlier version completed by mistake.\<close>

definition historical_completed :: "RunnerState \<Rightarrow> bool" where
  "historical_completed st \<longleftrightarrow> rs_Status st = StatusCompleted \<and> rs_WorkflowJobID st \<noteq> 0 \<and> rs_SandboxID st = [] \<and> rs_ProcessPID st = 0
     \<and> IsZero (rs_RunningAt st) \<and> IsZero (rs_StoppingAt st) \<and> rs_TerminationSource st = [] \<and> rs_RunnerExitCode st = None
     \<and> rs_GitHubJobStatus st = [] \<and> rs_GitHubJobConclusion st = [] \<and> IsZero (rs_GitHubJobObservedAt st)"

definition historical_requeue :: "RunnerState \<Rightarrow> RunnerState" where
  "historical_requeue st = clearSandboxServiceSnapshot (clearRunnerEnvironmentSnapshot (clear_last_error (st \<lparr>
     rs_Status := StatusQueued, rs_CompletedAt := zero_time, rs_CreatingAt := zero_time, rs_FailedAt := zero_time,
     rs_LeaseOwner := [], rs_LeaseExpiresAt := zero_time, rs_AssignedJobID := 0, rs_AssignedJobName := [],
     rs_Error := [], rs_FailureStage := [], rs_FailureReason := [], rs_RetryCount := 0 \<rparr>)))"

definition retryHistoricalWaitingJob ::
  "string list \<Rightarrow> instant \<Rightarrow> external \<Rightarrow> (server_state \<Rightarrow> server_state) \<Rightarrow> profiles_table \<Rightarrow> scoped_table \<Rightarrow> string \<Rightarrow> server_state
    \<Rightarrow> server_state \<times> RunnerState result" where
  "retryHistoricalWaitingJob allowed now ex other profiles scoped i sv =
     (case read_state i sv of
        Inl e \<Rightarrow> (sv, Inl e)
      | Inr st \<Rightarrow>
          if \<not> historical_completed st then (sv, Inl ErrRetryNotAllowed)
          else if (case ReadLog i ''control.log'' 16384 (sv_events sv) of Inl _ \<Rightarrow> True
                   | Inr control \<Rightarrow> \<not> HasSuffix (TrimSpace control) historicalWorkflowJobWaitingSkip) then (sv, Inl ErrRetryNotAllowed)
          else case ReadRequest i (sv_requests sv) of
            Inl e \<Rightarrow> (sv, Inl e)
          | Inr req \<Rightarrow>
              if rq_Source req \<noteq> ''github_webhook'' \<or> \<not> RepositoryAllowed allowed (rq_RepositoryFullName req) then (sv, Inl ErrRetryNotAllowed)
              else
                let sv1 = other (call (CallGetWorkflowJob (rq_RepositoryFullName req) (rq_JobID req)) sv)
                in case ex_GetWorkflowJob ex (rq_RepositoryFullName req) (rq_JobID req) of
                     Inl _ \<Rightarrow> (sv1, Inl ErrRetryNotAllowed)
                   | Inr job \<Rightarrow>
                       if wj_ID job \<noteq> rq_JobID req \<or> wj_Status job \<noteq> ''queued'' \<or> wj_RunnerName job \<noteq> [] \<or> wj_Conclusion job \<noteq> []
                       then (sv1, Inl ErrRetryNotAllowed)
                       else if (case profileForRunnerRequest req profiles scoped of Inl _ \<Rightarrow> True
                                | Inr profile \<Rightarrow> (case validateRequestedProfile (\<lambda>s. s) profile (rq_RequestedLabels req) of Inl _ \<Rightarrow> True | Inr _ \<Rightarrow> False))
                       then (sv1, Inl ErrRetryNotAllowed)
                       else (case write_state now (historical_requeue st) sv1 of
                               Inl _ \<Rightarrow> (sv1, Inl ErrRetryNotAllowed)
                             | Inr sv2 \<Rightarrow> (signalQueue sv2, Inr (historical_requeue st))))"

end
