(* ===== verification/Applications.thy ===== *)
theory Applications
  imports Prelude
begin

text \<open>
  The descriptors of the GitHub runner packages: \<^verbatim>\<open>internal/runnerapplication/application.go\<close>, and the
  manifest that the sandbox script reads, \<^verbatim>\<open>runnerApplicationsManifest\<close> of
  \<^verbatim>\<open>internal/sandboxrunner/runner.go\<close>. Error texts quote the offending value in the code; here they
  are shortened.
\<close>

subsection \<open>Hexadecimal\<close>

definition hex_digit :: "char \<Rightarrow> nat option" where
  "hex_digit c =
     (let n = of_char c :: nat
      in if 48 \<le> n \<and> n \<le> 57 then Some (n - 48)
         else if 97 \<le> n \<and> n \<le> 102 then Some (n - 87)
         else if 65 \<le> n \<and> n \<le> 70 then Some (n - 55)
         else None)"

fun hex_decode :: "string \<Rightarrow> string option" where
  "hex_decode [] = Some []"
| "hex_decode [_] = None"
| "hex_decode (a # b # s) =
     (case (hex_digit a, hex_digit b, hex_decode s) of
        (Some x, Some y, Some bytes) \<Rightarrow> Some (char_of (16 * x + y) # bytes)
      | _ \<Rightarrow> None)"

subsection \<open>Descriptors\<close>

definition OSLinux :: string where "OSLinux = ''linux''"
definition OSWindows :: string where "OSWindows = ''win''"

record Application =
  ra_OS :: string
  ra_Architecture :: string
  ra_Version :: string
  ra_DownloadURL :: string
  ra_SHA256Checksum :: string

definition validateArchitecture :: "string \<Rightarrow> string \<Rightarrow> error option" where
  "validateArchitecture os architecture =
     (if os = OSLinux \<and> (architecture = ''x64'' \<or> architecture = ''arm64'' \<or> architecture = ''arm'') then None
      else if os = OSWindows \<and> (architecture = ''x64'' \<or> architecture = ''arm64'') then None
      else if os \<noteq> OSLinux \<and> os \<noteq> OSWindows then Some (Errorf ''github runner application has unsupported OS'')
      else Some (Errorf ''github runner application has unsupported architecture''))"

definition SupportedArchitecture :: "string \<Rightarrow> string \<Rightarrow> bool" where
  "SupportedArchitecture os architecture \<longleftrightarrow> validateArchitecture os architecture = None"

definition archiveSuffix :: "string \<Rightarrow> string" where
  "archiveSuffix os = (if os = OSWindows then ''.zip'' else ''.tar.gz'')"

definition dec_digit :: "char \<Rightarrow> bool" where
  "dec_digit c \<longleftrightarrow> 48 \<le> (of_char c :: nat) \<and> (of_char c :: nat) \<le> 57"

definition validVersion :: "string \<Rightarrow> bool" where
  "validVersion version =
     (let parts = Split (CHR ''.'') version
      in if length parts \<noteq> 3 then False
         else list_all (\<lambda>part. part \<noteq> [] \<and> list_all dec_digit part) parts)"

definition download_url :: "string \<Rightarrow> string \<Rightarrow> string \<Rightarrow> string" where
  "download_url os architecture version =
     ''https://github.com/actions/runner/releases/download/v'' @ version @ ''/'' @ ''actions-runner-'' @ os @ ''-'' @ architecture @ ''-''
       @ version @ archiveSuffix os"

definition Normalize :: "Application \<Rightarrow> Application result" where
  "Normalize application0 =
     (let application = (if ra_OS application0 = [] then application0 \<lparr> ra_OS := OSLinux \<rparr> else application0);
          checksum = ToLower (TrimSpace (ra_SHA256Checksum application))
      in case validateArchitecture (ra_OS application) (ra_Architecture application) of
           Some e \<Rightarrow> Inl e
         | None \<Rightarrow>
             if \<not> validVersion (ra_Version application) then Inl (Errorf ''github runner application has invalid version'')
             else if ra_DownloadURL application \<noteq> download_url (ra_OS application) (ra_Architecture application) (ra_Version application)
               then Inl (Errorf ''github runner application has invalid download URL'')
             else if length checksum \<noteq> 64 then Inl (Errorf ''github runner application has invalid SHA-256 checksum'')
             else if hex_decode checksum = None then Inl (Errorf ''github runner application has invalid SHA-256 checksum'')
             else Inr (application \<lparr> ra_SHA256Checksum := checksum \<rparr>))"

definition FromDescriptor :: "string \<Rightarrow> string \<Rightarrow> string \<Rightarrow> string \<Rightarrow> string \<Rightarrow> Application result" where
  "FromDescriptor os architecture filename downloadURL checksum =
     (case validateArchitecture os architecture of
        Some e \<Rightarrow> Inl e
      | None \<Rightarrow>
          let p = ''actions-runner-'' @ os @ ''-'' @ architecture @ ''-''; suffix = archiveSuffix os;
              version = TrimSuffix (TrimPrefix filename p) suffix
          in if \<not> HasPrefix filename p \<or> \<not> HasSuffix filename suffix then Inl (Errorf ''github runner application has invalid filename'')
             else if \<not> validVersion version then Inl (Errorf ''github runner application has invalid version in filename'')
             else Normalize \<lparr> ra_OS = os, ra_Architecture = architecture, ra_Version = version, ra_DownloadURL = downloadURL, ra_SHA256Checksum = checksum \<rparr>)"

subsection \<open>Platforms and the manifest\<close>

datatype Platform = PlatformLinux | PlatformWindows

definition PlatformForLabels :: "string list \<Rightarrow> Platform" where
  "PlatformForLabels labels = (if list_ex (\<lambda>l. EqualFold (TrimSpace l) ''windows'') labels then PlatformWindows else PlatformLinux)"

fun runnerApplicationOS :: "Platform \<Rightarrow> string" where
  "runnerApplicationOS PlatformWindows = OSWindows"
| "runnerApplicationOS PlatformLinux = OSLinux"

definition application_fields :: "Application \<Rightarrow> string list" where
  "application_fields a = [ra_Architecture a, ra_Version a, ra_DownloadURL a, ra_SHA256Checksum a]"

text \<open>The loop, with the lines so far: it ends when three are collected.\<close>

fun manifest_lines :: "Platform \<Rightarrow> Application list \<Rightarrow> string list \<Rightarrow> string list" where
  "manifest_lines platform [] ls = ls"
| "manifest_lines platform (application # applications) ls =
     (if length ls = 3 then ls
      else case Normalize application of
        Inl _ \<Rightarrow> manifest_lines platform applications ls
      | Inr normalized \<Rightarrow>
          if ra_OS normalized \<noteq> runnerApplicationOS platform then manifest_lines platform applications ls
          else manifest_lines platform applications (ls @ [Join (application_fields normalized) [CHR 0x09]]))"

definition runnerApplicationsManifest :: "Platform \<Rightarrow> Application list \<Rightarrow> string" where
  "runnerApplicationsManifest platform applications = Join (manifest_lines platform applications []) [CHR 0x0A]"

definition HasRunnerApplication :: "Platform \<Rightarrow> Application list \<Rightarrow> bool" where
  "HasRunnerApplication platform applications \<longleftrightarrow> runnerApplicationsManifest platform applications \<noteq> []"

subsection \<open>The manifest can be read back\<close>

lemma Split_plain: "c \<notin> set w \<Longrightarrow> Split c w = [w]"
  by (induction w) auto

lemma Split_append: "c \<notin> set w \<Longrightarrow> Split c (w @ c # s) = w # Split c s"
  by (induction w) auto

lemma Split_Join: "ws \<noteq> [] \<Longrightarrow> list_all (\<lambda>w. c \<notin> set w) ws \<Longrightarrow> Split c (Join ws [c]) = ws"
  by (induction ws "[c]" rule: Join.induct) (auto simp: Split_plain Split_append)

lemma set_Join: "set (Join ws sep) \<subseteq> \<Union> (set ` set ws) \<union> set sep"
  by (induction ws sep rule: Join.induct) auto

text \<open>The characters a version is made of.\<close>

lemma validVersion_chars: "validVersion v \<Longrightarrow> set v \<subseteq> {x. dec_digit x \<or> x = CHR ''.''}"
  using set_Split [of v "CHR ''.''"] by (fastforce simp: validVersion_def Let_def list_all_iff split: if_splits)

definition control_free :: "string \<Rightarrow> bool" where
  "control_free s \<longleftrightarrow> CHR 0x09 \<notin> set s \<and> CHR 0x0A \<notin> set s"

lemma control_free_append [simp]: "control_free (s @ t) \<longleftrightarrow> control_free s \<and> control_free t"
  by (auto simp: control_free_def)

lemma version_control_free: "validVersion v \<Longrightarrow> control_free v"
  using validVersion_chars [of v] by (auto simp: control_free_def dec_digit_def)

lemma hex_chars: "hex_decode s = Some t \<Longrightarrow> list_all (\<lambda>c. hex_digit c \<noteq> None) s"
  by (induction s arbitrary: t rule: hex_decode.induct) (auto split: option.splits)

lemma hex_control_free: "hex_decode s = Some t \<Longrightarrow> control_free s"
  using hex_chars [of s t] by (auto simp: control_free_def list_all_iff hex_digit_def)

lemma architecture_known:
  "validateArchitecture os a = None \<Longrightarrow> (os = ''linux'' \<or> os = ''win'') \<and> (a = ''x64'' \<or> a = ''arm64'' \<or> a = ''arm'')"
  by (auto simp: validateArchitecture_def OSLinux_def OSWindows_def split: if_splits)

lemma Normalize_fields:
  assumes "Normalize a = Inr n" shows "list_all control_free (application_fields n)"
proof -
  have v: "validateArchitecture (ra_OS n) (ra_Architecture n) = None" "validVersion (ra_Version n)"
    "ra_DownloadURL n = download_url (ra_OS n) (ra_Architecture n) (ra_Version n)" "\<exists>t. hex_decode (ra_SHA256Checksum n) = Some t"
    using assms by (auto simp: Normalize_def Let_def split: option.splits if_splits)
  have os: "control_free (ra_OS n)" "control_free (ra_Architecture n)"
    using architecture_known [OF v(1)] by (auto simp: control_free_def)
  have url: "control_free (download_url (ra_OS n) (ra_Architecture n) (ra_Version n))"
    using os version_control_free [OF v(2)] by (auto simp: download_url_def archiveSuffix_def) (simp_all add: control_free_def)
  show ?thesis using os version_control_free [OF v(2)] url v(3,4) hex_control_free by (auto simp: application_fields_def)
qed

text \<open>The applications a manifest holds.\<close>

definition usable :: "Platform \<Rightarrow> Application list \<Rightarrow> Application list" where
  "usable platform applications =
     concat (map (\<lambda>a. case Normalize a of Inl _ \<Rightarrow> [] | Inr n \<Rightarrow> if ra_OS n = runnerApplicationOS platform then [n] else []) applications)"

lemma usable_Cons:
  "usable platform (a # as) =
     (case Normalize a of Inl _ \<Rightarrow> [] | Inr n \<Rightarrow> if ra_OS n = runnerApplicationOS platform then [n] else []) @ usable platform as"
  by (simp add: usable_def)

lemma manifest_lines_usable:
  "length ls \<le> 3 \<Longrightarrow> manifest_lines platform as ls = take 3 (ls @ map (\<lambda>n. Join (application_fields n) [CHR 0x09]) (usable platform as))"
proof (induction as arbitrary: ls)
  case (Cons a as)
  show ?case
  proof (cases "length ls = 3")
    case False
    then have short: "length ls < 3" using Cons.prems by simp
    show ?thesis using Cons.IH short by (auto simp: usable_Cons split: sum.split)
  qed simp
qed (simp add: usable_def)

lemma usable_fields: "n \<in> set (usable platform as) \<Longrightarrow> list_all control_free (application_fields n)"
  by (auto simp: usable_def dest: Normalize_fields [OF sym] split: sum.splits if_splits)

text \<open>The manifest that a sandbox script reads line by line and field by field says exactly what was
  put in: splitting it at newlines and the lines at tabs gives back architecture, version, address and
  checksum of the first three valid descriptors for the platform, in order. No accepted descriptor can
  smuggle in a separator, and the manifest is empty exactly when there is no valid descriptor.\<close>
theorem manifest_roundtrip:
  "(runnerApplicationsManifest platform applications = [] \<longleftrightarrow> usable platform applications = [])
    \<and> (usable platform applications = []
       \<or> map (Split (CHR 0x09)) (Split (CHR 0x0A) (runnerApplicationsManifest platform applications))
           = map application_fields (take 3 (usable platform applications)))"
proof -
  let ?us = "take 3 (usable platform applications)"
  let ?line = "\<lambda>n. Join (application_fields n) [CHR 0x09]"
  have lines: "manifest_lines platform applications [] = map ?line ?us"
    by (simp add: manifest_lines_usable take_map)
  have cf: "n \<in> set ?us \<Longrightarrow> list_all control_free (application_fields n)" for n using usable_fields in_set_takeD by metis
  have nl: "CHR 0x0A \<notin> set (?line n)" if "n \<in> set ?us" for n
    using cf [OF that] set_Join [of "application_fields n" "[CHR 0x09]"] by (auto simp: list_all_iff control_free_def)
  have tab: "Split (CHR 0x09) (?line n) = application_fields n" if "n \<in> set ?us" for n
    using cf [OF that] by (intro Split_Join) (auto simp: application_fields_def control_free_def)
  have ne: "?line n \<noteq> []" for n by (simp add: application_fields_def)
  show ?thesis
  proof (cases "usable platform applications = []")
    case True
    then show ?thesis by (simp add: runnerApplicationsManifest_def lines)
  next
    case False
    then have us: "?us \<noteq> []" by simp
    have split: "Split (CHR 0x0A) (runnerApplicationsManifest platform applications) = map ?line ?us"
      unfolding runnerApplicationsManifest_def lines using us nl by (intro Split_Join) (auto simp: list_all_iff)
    have "runnerApplicationsManifest platform applications \<noteq> []"
    proof
      assume "runnerApplicationsManifest platform applications = []"
      then have "map ?line ?us = [[]]" using split by simp
      then show False using ne by (cases ?us) auto
    qed
    moreover have "map (Split (CHR 0x09)) (map ?line ?us) = map application_fields ?us"
      unfolding map_map comp_def using tab by (intro map_cong) auto
    ultimately show ?thesis using False split by simp
  qed
qed

end
