(* ===== verification/Starting.thy ===== *)
theory Starting
  imports JobQueue Sandboxes Applications
begin

text \<open>
  How a worker starts a runner, and how a runner is taken over after a restart of the service:
  \<open>startRunner\<close> and \<open>recoverRunner\<close> of \<^verbatim>\<open>internal/server/server_runner_lifecycle.go\<close>, with the
  just-in-time registration of Windows runners.

  A start runs through its phases without the request's lock in between. The phases are separate
  definitions; \<open>other k\<close> is what the rest of the server does in the \<open>k\<close>-th gap and \<open>now k\<close> the clock
  read after it. The answers of GitHub, of the sandbox service and of the credential service are
  fields of \<open>start_env\<close>. What the process watcher of a started runner will report to is the list
  \<open>rw_watching\<close>: the attempts whose exit \<open>runnerExitedForAttempt\<close> is called for.
\<close>

subsection \<open>Data\<close>

record StartInput =
  si_Platform :: Platform
  si_RequestID :: string
  si_RunnerName :: string
  si_RepositoryURL :: string
  si_RegistrationToken :: string
  si_JITConfig :: string
  si_Labels :: "string list"
  si_RunnerGroup :: string
  si_RunnerApplications :: "Application list"
  si_TemplateID :: string
  si_RequireDocker :: bool
  si_Timeout :: duration
  si_CacheS3Region :: string
  si_CacheS3Bucket :: string
  si_CacheS3Endpoint :: string
  si_CacheS3ReadPrefixes :: "string list"
  si_CacheS3WritePrefix :: string
  si_CacheS3AccessKeyID :: string
  si_CacheS3SecretKey :: string
  si_CacheS3SessionToken :: string

record StartResult =
  tr_SandboxID :: string
  tr_PID :: int
  tr_ResolvedTemplateID :: string
  tr_TemplateVersion :: string
  tr_RunnerVersion :: string

record RunnerJITConfig =
  jc_RunnerID :: int
  jc_RunnerName :: string
  jc_EncodedConfig :: string
  jc_CleanupRequired :: bool

record RecoverInput =
  ri_Platform :: Platform
  ri_RequestID :: string
  ri_SandboxID :: string
  ri_PID :: int
  ri_Timeout :: duration

text \<open>The errors of a reconnect, and those of the group check, by what the code tells apart.\<close>

datatype recover_error =
    RecoverSandboxNotFound string
  | RecoverRunnerNotFound string
  | RecoverFailed string

datatype group_error =
    ScopeNotOrganization
  | RunnerGroupNotFound
  | RunnerGroupInherited
  | RunnerGroupRepositoryDenied
  | GroupContextEnded
  | GroupRateLimited
  | GroupStatus int
  | GroupOther

record start_env =
  en_cfg :: lifecycle_config
  en_limits :: capacity_config
  en_workerID :: string
  en_ex :: external
  en_sandbox :: sandbox_env
  en_github :: cache_github
  en_sha :: "string \<Rightarrow> string"
  en_stsEndpoint :: string
  en_stsClient :: "string \<Rightarrow> int \<Rightarrow> sts_statement list \<Rightarrow> string + int \<times> qiniuSTSResponse option"
  en_stsParse :: "string \<Rightarrow> instant option"
  en_ValidateRunnerGroup :: "int \<Rightarrow> string \<Rightarrow> string \<Rightarrow> group_error option"
  en_ListDefaultTemplates :: "sandboxServiceConfigSnapshot \<Rightarrow> (go_error + CatalogTemplate list) option"
  en_ListRunnerApplications :: "string \<Rightarrow> string \<Rightarrow> go_error + Application list"
  en_CreateRegistrationToken :: "string \<Rightarrow> string \<Rightarrow> go_error + string"
  en_CreateRunnerJITConfig :: "string \<Rightarrow> string \<Rightarrow> string \<Rightarrow> string list \<Rightarrow> RunnerJITConfig \<times> go_error option"
  en_RunnerURL :: "string \<Rightarrow> string \<Rightarrow> go_error + string"
  en_RemoveRunner :: "string \<Rightarrow> string \<Rightarrow> int \<Rightarrow> go_error option"
  en_StartRunner :: "sandboxServiceConfigSnapshot \<Rightarrow> StartInput \<Rightarrow> go_error + StartResult"
  en_RecoverRunner :: "RecoverInput \<Rightarrow> StartResult \<times> recover_error option"

record runner_world =
  rw_server :: server_state
  rw_capacity :: runnerAdmissionCapacity
  rw_installations :: installation_db
  rw_runs :: run_cache
  rw_watching :: "(string \<times> runnerAttemptIdentity) list"

definition on_server :: "(server_state \<Rightarrow> server_state) \<Rightarrow> runner_world \<Rightarrow> runner_world" where
  "on_server f w = w \<lparr> rw_server := f (rw_server w) \<rparr>"

subsection \<open>The group of the runner\<close>

definition runnerGroupError :: "group_error \<Rightarrow> int \<times> string \<times> string" where
  "runnerGroupError err =
     (case err of
        ScopeNotOrganization \<Rightarrow> (400, ''runner_group_not_supported'', ''Runner groups are available only for organization scopes'')
      | RunnerGroupNotFound \<Rightarrow>
          (400, ''runner_group_not_found'', ''Select an existing organization Runner group that accepts organization runners'')
      | RunnerGroupInherited \<Rightarrow>
          (400, ''runner_group_not_found'', ''Select an existing organization Runner group that accepts organization runners'')
      | RunnerGroupRepositoryDenied \<Rightarrow>
          (400, ''runner_group_repository_denied'', ''The GitHub Runner group does not allow the target repository; check repository access in GitHub'')
      | GroupContextEnded \<Rightarrow> (504, ''runner_group_timeout'', ''GitHub Runner group lookup timed out; try again'')
      | GroupRateLimited \<Rightarrow> (503, ''runner_group_rate_limited'', ''GitHub rate limit reached; try again later'')
      | GroupStatus status \<Rightarrow>
          if status = 429 then (503, ''runner_group_rate_limited'', ''GitHub rate limit reached; try again later'')
          else if status = 403 \<or> status = 401 \<or> status = 404
          then (502, ''runner_group_permission_denied'',
                ''Cannot access GitHub Runner groups; check the App installation and organization Self-hosted runners permission'')
          else (502, ''runner_group_unavailable'', ''Could not query GitHub Runner groups; try again'')
      | GroupOther \<Rightarrow> (502, ''runner_group_unavailable'', ''Could not query GitHub Runner groups; try again''))"

definition newRunnerGroupValidationFailure :: "group_error \<Rightarrow> go_error" where
  "newRunnerGroupValidationFailure err =
     (case runnerGroupError err of (_, code, message) \<Rightarrow>
        RunnerGroupFailure code (code = ''runner_group_timeout'' \<or> code = ''runner_group_rate_limited'' \<or> code = ''runner_group_unavailable'')
          (code @ '': '' @ message))"

subsection \<open>The template\<close>

fun template_reason :: "template_error \<Rightarrow> string" where
  "template_reason TemplateMissing = ''missing''"
| "template_reason TemplateDuplicate = ''duplicate''"
| "template_reason TemplatePrivate = ''private''"
| "template_reason TemplateNonRunnable = ''non_runnable''"
| "template_reason TemplateEmptyID = ''empty_template_id''"

definition newDefaultTemplateResolutionError :: "(string \<Rightarrow> string) \<Rightarrow> string \<Rightarrow> string \<Rightarrow> go_error" where
  "newDefaultTemplateResolutionError quote requestedName reason =
     TemplateResolution reason (''default template '' @ quote requestedName @ '' cannot be resolved: '' @ reason)"

definition resolveRunnerTemplate :: "start_env \<Rightarrow> sandboxServiceConfigSnapshot \<Rightarrow> RunnerProfile \<Rightarrow> go_error + string" where
  "resolveRunnerTemplate env service profile =
     (let quote = lc_quote (en_cfg env); name = TrimSpace (rp_DefaultTemplateName profile)
      in if rp_TemplateSource profile \<noteq> TemplateSourcePublic then Inr (rp_TemplateID profile)
         else case en_ListDefaultTemplates env service of
           None \<Rightarrow> Inl (newDefaultTemplateResolutionError quote name ''catalog_unavailable'')
         | Some (Inl err) \<Rightarrow> Inl (wrap_go (''list default templates for '' @ quote name) err)
         | Some (Inr templates) \<Rightarrow>
             (case resolveDefaultTemplateID (rp_DefaultTemplateName profile) templates of
                Inl e \<Rightarrow> Inl (newDefaultTemplateResolutionError quote name (template_reason e))
              | Inr templateID \<Rightarrow> Inr templateID))"

subsection \<open>Admission\<close>

text \<open>\<open>Truncate(time.Millisecond)\<close>, counted from the zero instant.\<close>

definition truncate_ms :: "instant \<Rightarrow> instant" where
  "truncate_ms t = t - t mod Millisecond"

definition attempt_time :: "instant \<Rightarrow> instant \<Rightarrow> instant" where
  "attempt_time now previous = (if previous < truncate_ms now then truncate_ms now else truncate_ms previous + Millisecond)"

definition creating_state :: "start_env \<Rightarrow> instant \<Rightarrow> string \<Rightarrow> bool \<Rightarrow> RunnerState \<Rightarrow> RunnerState" where
  "creating_state env now workerID windows st =
     (let st1 = (if HasPrefix (rs_LastErrorCode st) ''runner_capacity_''
                 then st \<lparr> rs_LastErrorCode := [], rs_LastErrorMessage := [], rs_LastErrorRetryable := False, rs_NextRetryAt := zero_time \<rparr>
                 else st);
          st2 = (if windows then st1 \<lparr> rs_LastAttemptAt := attempt_time now (rs_LastAttemptAt st1) \<rparr> else st1)
      in st2 \<lparr> rs_Status := StatusCreating, rs_LeaseOwner := workerID, rs_LeaseExpiresAt := now + lc_WorkerLeaseTTL (en_cfg env) \<rparr>)"

text \<open>What the later phases of a start know: the request, its state as written, the profile, and the attempt of a Windows start.\<close>

record admitted =
  ad_id :: string
  ad_req :: RunnerRequest
  ad_state :: RunnerState
  ad_profile :: RunnerProfile
  ad_attempt :: "instant option"

definition start_failed ::
  "start_env \<Rightarrow> instant \<Rightarrow> (server_state \<Rightarrow> server_state) \<Rightarrow> admitted \<Rightarrow> string \<Rightarrow> go_error \<Rightarrow> server_state \<Rightarrow> server_state" where
  "start_failed env now other ad stage err sv =
     failStartForAttempt (en_cfg env) now (en_workerID env) (ad_id ad) (ad_state ad) stage err (ad_attempt ad) (other sv)"

definition start_admission ::
  "start_env \<Rightarrow> (nat \<Rightarrow> instant) \<Rightarrow> (nat \<Rightarrow> server_state \<Rightarrow> server_state) \<Rightarrow> string \<Rightarrow> string \<Rightarrow> runnerAdmissionCapacity \<Rightarrow> server_state
    \<Rightarrow> server_state \<times> runnerAdmissionCapacity \<times> admitted option" where
  "start_admission env now other i workerID cap sv =
     (case ReadRequest i (sv_requests sv) of
        Inl _ \<Rightarrow> (sv, cap, None)
      | Inr req \<Rightarrow>
          let windows = (PlatformForLabels (rq_Labels req) = PlatformWindows);
              sv1 = (if windows then other 0 sv else sv)
          in case read_state i sv1 of
               Inl _ \<Rightarrow> (sv1, cap, None)
             | Inr st \<Rightarrow>
                 let fail = (\<lambda>stage err. failStartForAttempt (en_cfg env) (now 1) (en_workerID env) i st stage err None (other 1 sv1))
                 in if rs_Status st \<noteq> StatusQueued
                    then (control_log (now 1) i ''runner start skipped because request is not queued'' (other 1 sv1), cap, None)
                    else case profileForRunnerRequest req (se_profiles (en_sandbox env)) (se_scoped (en_sandbox env)) of
                      Inl e \<Rightarrow>
                        (fail ''profile_lookup'' (PlainError (''load profile '' @ lc_quote (en_cfg env) (rq_ProfileName req) @ '': '' @ error_text e)), cap, None)
                    | Inr profile \<Rightarrow>
                        (case validateRequestedProfile (lc_quote (en_cfg env)) profile (rq_RequestedLabels req) of
                           Inl e \<Rightarrow> (fail ''profile_validation'' (PlainError (error_text e)), cap, None)
                         | Inr _ \<Rightarrow>
                             (case reserveRunnerCapacity (en_limits env) (sv_requests sv1) req profile cap of (cap1, released, stage, err) \<Rightarrow>
                                case err of
                                  Some _ \<Rightarrow> (release_lease i workerID (other 1 sv1), cap1, None)
                                | None \<Rightarrow>
                                    (case released of
                                       None \<Rightarrow>
                                         (signalQueue (deferQueuedRequest (now 1) i workerID (now 1 + 5 * Second) stage (other 1 sv1)), cap1, None)
                                     | Some ob \<Rightarrow>
                                         let st1 = creating_state env (now 0) workerID windows st;
                                             cap2 = finish ob cap1
                                         in case write_state (now 0) st1 sv1 of
                                              Inl _ \<Rightarrow> (release_lease i workerID (other 1 sv1), cap2, None)
                                            | Inr sv2 \<Rightarrow>
                                                (other 1 sv2, cap2, Some \<lparr> ad_id = i, ad_req = req, ad_state = st1, ad_profile = profile,
                                                   ad_attempt = (if windows then Some (rs_LastAttemptAt st1) else None) \<rparr>)))))"

subsection \<open>The job and the service\<close>

definition start_check ::
  "start_env \<Rightarrow> (nat \<Rightarrow> instant) \<Rightarrow> (nat \<Rightarrow> server_state \<Rightarrow> server_state) \<Rightarrow> string \<Rightarrow> admitted \<Rightarrow> server_state \<Rightarrow> server_state \<times> bool" where
  "start_check env now other workerID ad sv =
     (case ensureWorkflowJobStillQueued (en_cfg env) (now 2) (en_ex env) (other 2) (ad_req ad) workerID sv of
        (sv1, Inl err) \<Rightarrow> (start_failed env (now 3) (other 3) ad ''github_job_status'' err sv1, False)
      | (sv1, Inr False) \<Rightarrow> (sv1, False)
      | (sv1, Inr True) \<Rightarrow>
          let req = ad_req ad
          in case (if TrimSpace (rq_RunnerGroup req) = [] then None
                   else en_ValidateRunnerGroup env (rq_GitHubInstallationID req) (rq_RepositoryFullName req) (rq_RunnerGroup req)) of
               Some err \<Rightarrow> (start_failed env (now 3) (other 3) ad ''github_runner_group'' (newRunnerGroupValidationFailure err) sv1, False)
             | None \<Rightarrow> (sv1, True))"

definition start_service ::
  "start_env \<Rightarrow> (nat \<Rightarrow> instant) \<Rightarrow> (nat \<Rightarrow> server_state \<Rightarrow> server_state) \<Rightarrow> string \<Rightarrow> admitted \<Rightarrow> installation_db \<Rightarrow> server_state
    \<Rightarrow> server_state \<times> installation_db \<times> sandboxServiceConfigSnapshot option" where
  "start_service env now other workerID ad db sv0 =
     (let sv = other 4 sv0; i = ad_id ad
      in case sandboxServiceAndConfigForRunnerRequestContext (now 4) (en_sandbox env) (sv_requests sv) (ad_req ad) db of
           (db1, Inl e) \<Rightarrow> (start_failed env (now 5) (other 5) ad ''sandbox_config'' (svc_go e) sv, db1, None)
         | (db1, Inr service) \<Rightarrow>
             (case persistSandboxServiceSnapshot (now 4) (en_sandbox env) i service (sv_requests sv) of
                (tbl, None) \<Rightarrow> (sv \<lparr> sv_requests := tbl \<rparr>, db1, Some service)
              | (tbl, Some e) \<Rightarrow>
                  let sv1 = sv \<lparr> sv_requests := tbl \<rparr>
                  in if e = ForkSponsorshipAtCapacity \<or> e = ForkSponsorshipPolicyChanged
                     then (signalQueue (deferCreatingRequest (now 5) i workerID (now 5 + 5 * Second) (other 5 sv1)), db1, None)
                     else (start_failed env (now 5) (other 5) ad ''sandbox_config'' (svc_go e) sv1, db1, None)))"

definition start_template ::
  "start_env \<Rightarrow> (nat \<Rightarrow> instant) \<Rightarrow> (nat \<Rightarrow> server_state \<Rightarrow> server_state) \<Rightarrow> admitted \<Rightarrow> sandboxServiceConfigSnapshot \<Rightarrow> server_state
    \<Rightarrow> server_state \<times> (string \<times> Application list) option" where
  "start_template env now other ad service sv =
     (let req = ad_req ad; platform = PlatformForLabels (rq_Labels req)
      in case resolveRunnerTemplate env service (ad_profile ad) of
           Inl err \<Rightarrow> (start_failed env (now 6) (other 6) ad ''template_resolution'' err sv, None)
         | Inr templateID \<Rightarrow>
             if rp_TemplateSource (ad_profile ad) = TemplateSourcePublic then (sv, Some (templateID, []))
             else
               let sv1 = control_log (now 5) (ad_id ad) ''resolving github runner applications for preflight update'' sv
               in case en_ListRunnerApplications env (rq_RepositoryFullName req) (rq_RunnerGroup req) of
                    Inl err \<Rightarrow> (start_failed env (now 6) (other 6) ad ''github_runner_downloads'' err sv1, None)
                  | Inr applications \<Rightarrow>
                      if \<not> HasRunnerApplication platform applications
                      then (start_failed env (now 6) (other 6) ad ''github_runner_downloads''
                              (PlainError (''github runner applications contain no application for platform ''
                                @ (case platform of PlatformWindows \<Rightarrow> ''windows'' | PlatformLinux \<Rightarrow> ''linux''))) sv1, None)
                      else (sv1, Some (templateID, applications)))"

subsection \<open>The registration\<close>

definition writeWindowsJITCleanupPending :: "lifecycle_config \<Rightarrow> instant \<Rightarrow> RunnerState \<Rightarrow> server_state \<Rightarrow> server_state result" where
  "writeWindowsJITCleanupPending cfg now current sv =
     (let st = setTerminationSource TerminationSourceFailureCleanup (markRunnerCleanupStarted now current)
            \<lparr> rs_FailureStage := ''cleanup'', rs_FailureReason := ''jit_cleanup_pending'', rs_Error := ''JIT Runner cleanup pending'',
              rs_LeaseOwner := [], rs_LeaseExpiresAt := zero_time, rs_NextRetryAt := nextRetryAt cfg 1 now \<rparr>
      in case write_state now st sv of
           Inl e \<Rightarrow> Inl e
         | Inr sv1 \<Rightarrow> Inr (staged_log now (rs_ID current) runnerEventStageGitHubRunnerCleanup
             ''JIT Runner cleanup pending; recovery will reconcile registration'' sv1))"

definition retainWindowsJITCleanup :: "lifecycle_config \<Rightarrow> instant \<Rightarrow> string \<Rightarrow> server_state \<Rightarrow> server_state" where
  "retainWindowsJITCleanup cfg now i sv =
     (case read_state i sv of
        Inl _ \<Rightarrow> sv
      | Inr current \<Rightarrow>
          if rs_Status current = StatusCreating \<or> (rs_Status current = StatusRunning \<and> rs_SandboxID current \<noteq> []) then sv
          else case writeWindowsJITCleanupPending cfg now current sv of Inl _ \<Rightarrow> sv | Inr sv1 \<Rightarrow> sv1)"

definition cleanupWindowsJIT ::
  "start_env \<Rightarrow> (server_state \<Rightarrow> server_state) \<Rightarrow> RunnerRequest \<Rightarrow> instant \<Rightarrow> int \<Rightarrow> server_state \<Rightarrow> server_state \<times> go_error option" where
  "cleanupWindowsJIT env other req attemptAt runnerID sv =
     (let repository = rq_RepositoryFullName req; group = rq_RunnerGroup req
      in if runnerID > 0 then (call (CallRemoveRunnerByID repository group runnerID) sv, en_RemoveRunner env repository group runnerID)
         else
           let sv1 = other sv
           in case read_state (rq_ID req) sv1 of
                Inl e \<Rightarrow> (sv1, Some (PlainError (error_text e)))
              | Inr current \<Rightarrow>
                  if rs_LastAttemptAt current \<noteq> attemptAt then (sv1, None)
                  else (call (CallRemoveRunner repository group (rq_RunnerName req)) sv1,
                        case ex_RemoveRunnerByName (en_ex env) repository group (rq_RunnerName req) of Inl err \<Rightarrow> Some err | Inr _ \<Rightarrow> None))"

datatype jit_error = RunnerCreationSuperseded | JITFailed go_error

definition zero_jit :: RunnerJITConfig where
  "zero_jit = \<lparr> jc_RunnerID = 0, jc_RunnerName = [], jc_EncodedConfig = [], jc_CleanupRequired = False \<rparr>"

definition prepareWindowsJIT ::
  "start_env \<Rightarrow> instant \<Rightarrow> RunnerRequest \<Rightarrow> instant \<Rightarrow> server_state \<Rightarrow> server_state \<times> RunnerJITConfig \<times> jit_error option" where
  "prepareWindowsJIT env now req attemptAt sv =
     (case read_state (rq_ID req) sv of
        Inl e \<Rightarrow> (sv, zero_jit, Some (JITFailed (PlainError (error_text e))))
      | Inr current \<Rightarrow>
          if rs_Status current \<noteq> StatusCreating \<or> rs_LastAttemptAt current \<noteq> attemptAt then (sv, zero_jit, Some RunnerCreationSuperseded)
          else case cleanupGitHubRunner now (en_ex env) current sv of
            (sv1, Some err) \<Rightarrow> (sv1, zero_jit, Some (JITFailed err))
          | (sv1, None) \<Rightarrow>
              (case en_CreateRunnerJITConfig env (rq_RepositoryFullName req) (rq_RunnerGroup req) (rq_RunnerName req) (rq_Labels req) of
                 (jit, err) \<Rightarrow>
                   (call (CallCreateRunnerJITConfig (rq_RepositoryFullName req) (rq_RunnerGroup req) (rq_RunnerName req)) sv1,
                    jit, map_option JITFailed err)))"

text \<open>
  The registration a start holds: the token of a Linux runner, or the configuration of a Windows
  runner with the identifier it may have at GitHub. \<open>rg_adopted\<close> is set once nothing is left to
  clean up; \<open>cleanupJIT\<close> is called on the error paths and once more, deferred, when the start ends.
\<close>

record registration =
  rg_token :: string
  rg_jit :: string
  rg_runnerID :: int
  rg_adopted :: bool

definition cleanupJIT ::
  "start_env \<Rightarrow> (nat \<Rightarrow> instant) \<Rightarrow> (nat \<Rightarrow> server_state \<Rightarrow> server_state) \<Rightarrow> nat \<Rightarrow> admitted \<Rightarrow> registration \<Rightarrow> server_state
    \<Rightarrow> server_state \<times> registration" where
  "cleanupJIT env now other k ad reg sv =
     (case ad_attempt ad of
        None \<Rightarrow> (sv, reg)
      | Some attemptAt \<Rightarrow>
          if rg_adopted reg then (sv, reg)
          else case cleanupWindowsJIT env (other k) (ad_req ad) attemptAt (rg_runnerID reg) sv of
            (sv1, Some _) \<Rightarrow> (retainWindowsJITCleanup (en_cfg env) (now (k + 1)) (ad_id ad) (other (k + 1) sv1), reg)
          | (sv1, None) \<Rightarrow> (sv1, reg \<lparr> rg_adopted := True \<rparr>))"

definition start_registration ::
  "start_env \<Rightarrow> (nat \<Rightarrow> instant) \<Rightarrow> (nat \<Rightarrow> server_state \<Rightarrow> server_state) \<Rightarrow> admitted \<Rightarrow> server_state
    \<Rightarrow> server_state \<times> registration option" where
  "start_registration env now other ad sv =
     (let req = ad_req ad; i = ad_id ad; repository = rq_RepositoryFullName req; group = rq_RunnerGroup req
      in case ad_attempt ad of
           Some attemptAt \<Rightarrow>
             (case prepareWindowsJIT env (now 7) req attemptAt (other 7 (control_log (now 6) i ''creating one-time github Runner configuration'' sv)) of
                (sv1, jit, err) \<Rightarrow>
                  let reg = \<lparr> rg_token = [], rg_jit = jc_EncodedConfig jit,
                        rg_runnerID = (if jc_RunnerName jit = rq_RunnerName req then jc_RunnerID jit else 0),
                        rg_adopted = (\<not> jc_CleanupRequired jit) \<rparr>
                  in case err of
                       Some RunnerCreationSuperseded \<Rightarrow> (sv1, None)
                     | Some (JITFailed e) \<Rightarrow>
                         (case cleanupJIT env now other 8 ad reg sv1 of (sv2, reg1) \<Rightarrow>
                            (fst (cleanupJIT env now other 11 ad reg1 (start_failed env (now 10) (other 10) ad ''github_registration'' e sv2)), None))
                     | None \<Rightarrow> (sv1, Some reg))
         | None \<Rightarrow>
             let sv1 = call (CallCreateRegistrationToken repository group) (control_log (now 7) i ''creating github registration token'' sv)
             in (case en_CreateRegistrationToken env repository group of
                   Inl err \<Rightarrow> (start_failed env (now 8) (other 8) ad ''github_registration'' err sv1, None)
                 | Inr token \<Rightarrow> (sv1, Some \<lparr> rg_token = token, rg_jit = [], rg_runnerID = 0, rg_adopted = True \<rparr>)))"

subsection \<open>The sandbox\<close>

definition start_input :: "start_env \<Rightarrow> admitted \<Rightarrow> string \<Rightarrow> Application list \<Rightarrow> registration \<Rightarrow> string \<Rightarrow> StartInput" where
  "start_input env ad templateID applications reg repositoryURL =
     (let req = ad_req ad; platform = PlatformForLabels (rq_Labels req)
      in \<lparr> si_Platform = platform, si_RequestID = rq_ID req, si_RunnerName = rq_RunnerName req, si_RepositoryURL = repositoryURL,
           si_RegistrationToken = rg_token reg, si_JITConfig = rg_jit reg, si_Labels = rq_Labels req,
           si_RunnerGroup = TrimSpace (rq_RunnerGroup req), si_RunnerApplications = applications, si_TemplateID = templateID,
           si_RequireDocker = (rp_TemplateSource (ad_profile ad) = TemplateSourcePublic \<and> platform \<noteq> PlatformWindows),
           si_Timeout = lc_SandboxTimeout (en_cfg env), si_CacheS3Region = [], si_CacheS3Bucket = [], si_CacheS3Endpoint = [],
           si_CacheS3ReadPrefixes = [], si_CacheS3WritePrefix = [], si_CacheS3AccessKeyID = [], si_CacheS3SecretKey = [],
           si_CacheS3SessionToken = [] \<rparr>)"

text \<open>The credentials for the cache, when one is configured; every failure leaves the runner without cache.\<close>

definition cache_input ::
  "start_env \<Rightarrow> instant \<Rightarrow> admitted \<Rightarrow> sandboxServiceConfigSnapshot \<Rightarrow> installation_db \<Rightarrow> run_cache \<Rightarrow> StartInput \<Rightarrow> run_cache \<times> StartInput" where
  "cache_input env now ad service db runs input =
     (let req = ad_req ad
      in if rq_GitHubInstallationID req \<le> 0 then (runs, input)
         else case cacheStorageForInstallation (en_sandbox env) db (rq_GitHubInstallationID req) (sn_APIURL service) of
           Inl _ \<Rightarrow> (runs, input)
         | Inr storage \<Rightarrow>
             let base = cs_prefix storage @ ''/'' @ rq_RepositoryFullName req
             in case cacheScopesForWorkflow (en_sha env) now now (en_github env) (rq_RepositoryFullName req) (ad_state ad) runs of
                  (runs1, decision) \<Rightarrow>
                    (runs1,
                     case generateCacheSTSWithClient (en_stsClient env) (en_stsParse env) (cs_bucket storage) base (cd_WriteScope decision)
                            (cd_ReadScopes decision) (en_stsEndpoint env) (cacheSTSDurationSeconds (lc_SandboxTimeout (en_cfg env))) of
                       Inl _ \<Rightarrow> input
                     | Inr creds \<Rightarrow> input \<lparr>
                         si_CacheS3Region := cs_region storage, si_CacheS3Bucket := cs_bucket storage, si_CacheS3Endpoint := cs_endpoint storage,
                         si_CacheS3ReadPrefixes := cacheScopePrefixes base (cd_ReadScopes decision),
                         si_CacheS3WritePrefix := (if cd_WriteScope decision \<noteq> [] then base @ ''/'' @ cd_WriteScope decision else []),
                         si_CacheS3AccessKeyID := cc_AccessKeyID creds, si_CacheS3SecretKey := cc_SecretAccessKey creds,
                         si_CacheS3SessionToken := cc_SessionToken creds \<rparr>))"

definition start_launch ::
  "start_env \<Rightarrow> (nat \<Rightarrow> instant) \<Rightarrow> (nat \<Rightarrow> server_state \<Rightarrow> server_state) \<Rightarrow> admitted \<Rightarrow> sandboxServiceConfigSnapshot \<Rightarrow> string
    \<Rightarrow> Application list \<Rightarrow> registration \<Rightarrow> installation_db \<Rightarrow> run_cache \<Rightarrow> server_state \<Rightarrow> server_state \<times> run_cache \<times> StartResult option" where
  "start_launch env now other ad service templateID applications reg db runs sv =
     (let req = ad_req ad; i = ad_id ad;
          sv1 = control_log (now 8) i ''starting sandbox runner'' sv;
          failed = (\<lambda>stage err s. case cleanupJIT env now other 13 ad reg s of (s1, reg1) \<Rightarrow>
             fst (cleanupJIT env now other 16 ad reg1 (start_failed env (now 15) (other 15) ad stage err s1)))
      in case en_RunnerURL env (rq_RepositoryFullName req) (rq_RunnerGroup req) of
           Inl err \<Rightarrow> (failed ''github_runner_url'' err sv1, runs, None)
         | Inr repositoryURL \<Rightarrow>
             (case cache_input env (now 9) ad service db runs (start_input env ad templateID applications reg repositoryURL) of (runs1, input) \<Rightarrow>
                let sv2 = call (CallStartRunner i) sv1
                in case en_StartRunner env service input of
                     Inl err \<Rightarrow> (failed ''sandbox_start'' err sv2, runs1, None)
                   | Inr result \<Rightarrow> (sv2, runs1, Some result)))"

definition cleanupStartedSandbox :: "instant \<Rightarrow> external \<Rightarrow> string \<Rightarrow> StartResult \<Rightarrow> server_state \<Rightarrow> server_state" where
  "cleanupStartedSandbox now ex i result sv =
     (if tr_SandboxID result = [] then sv
      else case stopSandboxWithTimeout ex i (tr_SandboxID result) (tr_PID result) sv of (sv1, err) \<Rightarrow>
        case (case err of None \<Rightarrow> None | Some e \<Rightarrow> if isSandboxGone e then None else Some e) of
          Some e \<Rightarrow> staged_log now i runnerEventStageSandboxCleanup (''cleanup started sandbox failed: '' @ err_text e) sv1
        | None \<Rightarrow> staged_log now i runnerEventStageSandboxCleanup ''cleaned started sandbox'' sv1)"

definition running_state :: "start_env \<Rightarrow> admitted \<Rightarrow> sandboxServiceConfigSnapshot \<Rightarrow> string \<Rightarrow> StartResult \<Rightarrow> RunnerState \<Rightarrow> RunnerState" where
  "running_state env ad service templateID result st =
     (let apiURL = (if TrimSpace (sn_APIURL service) = [] then TrimSpace (rq_SandboxAPIURL (ad_req ad)) else TrimSpace (sn_APIURL service));
          resolved = TrimSpace (tr_ResolvedTemplateID result)
      in st \<lparr> rs_Status := StatusRunning, rs_SandboxID := tr_SandboxID result, rs_SandboxRegion := sandboxRegionForAPIURL (en_sandbox env) apiURL,
              rs_ResolvedTemplateID := (if resolved = [] then TrimSpace templateID else resolved),
              rs_TemplateVersion := TrimSpace (tr_TemplateVersion result), rs_RunnerVersion := TrimSpace (tr_RunnerVersion result),
              rs_ProcessPID := tr_PID result, rs_Error := [], rs_LeaseOwner := [], rs_LeaseExpiresAt := zero_time \<rparr>)"

text \<open>
  The last phase, with the sandbox running: the request adopts it, or the sandbox is stopped again.
  The second result says whether the watcher of the process may report its exit.
\<close>

definition start_adopt ::
  "start_env \<Rightarrow> (nat \<Rightarrow> instant) \<Rightarrow> (nat \<Rightarrow> server_state \<Rightarrow> server_state) \<Rightarrow> admitted \<Rightarrow> sandboxServiceConfigSnapshot \<Rightarrow> string
    \<Rightarrow> registration \<Rightarrow> StartResult \<Rightarrow> server_state \<Rightarrow> server_state \<times> bool" where
  "start_adopt env now other ad service templateID reg result sv0 =
     (let i = ad_id ad; sv = other 18 sv0;
          abandon = (\<lambda>s. (fst (cleanupJIT env now other 20 ad reg (cleanupStartedSandbox (now 19) (en_ex env) i result s)), False))
      in case read_state i sv of
           Inl _ \<Rightarrow> abandon (other 19 sv)
         | Inr current \<Rightarrow>
             if rs_Status current \<noteq> StatusCreating
                \<or> (case ad_attempt ad of None \<Rightarrow> False | Some attemptAt \<Rightarrow> rs_LastAttemptAt current \<noteq> attemptAt)
             then abandon (other 19 sv)
             else case write_state (now 18) (running_state env ad service templateID result current) sv of
               Inl e \<Rightarrow> abandon (control_log (now 19) i (''write running state failed: '' @ error_text e) (other 19 sv))
             | Inr sv1 \<Rightarrow>
                 (control_log (now 18) i (''sandbox runner started sandbox_id='' @ tr_SandboxID result @ '' pid='' @ int_dec (tr_PID result)) sv1, True))"

subsection \<open>The whole start\<close>

text \<open>
  All phases up to the one in which the sandbox runs. The result is what is left to do: nothing, when
  the start ended on the way.
\<close>

definition start_sandbox ::
  "start_env \<Rightarrow> (nat \<Rightarrow> instant) \<Rightarrow> (nat \<Rightarrow> server_state \<Rightarrow> server_state) \<Rightarrow> string \<Rightarrow> string \<Rightarrow> runner_world
    \<Rightarrow> runner_world \<times> (admitted \<times> sandboxServiceConfigSnapshot \<times> string \<times> registration \<times> StartResult) option" where
  "start_sandbox env now other i workerID w =
     (case start_admission env now other i workerID (rw_capacity w) (rw_server w) of (sv1, cap, admission) \<Rightarrow>
      let w1 = w \<lparr> rw_server := sv1, rw_capacity := cap \<rparr>
      in case admission of None \<Rightarrow> (w1, None) | Some ad \<Rightarrow>
      (case start_check env now other workerID ad sv1 of (sv2, go) \<Rightarrow>
       if \<not> go then (w1 \<lparr> rw_server := sv2 \<rparr>, None) else
      (case start_service env now other workerID ad (rw_installations w) sv2 of (sv3, db, resolved) \<Rightarrow>
       let w3 = w1 \<lparr> rw_server := sv3, rw_installations := db \<rparr>
       in case resolved of None \<Rightarrow> (w3, None) | Some service \<Rightarrow>
      (case start_template env now other ad service sv3 of (sv4, template) \<Rightarrow>
       case template of None \<Rightarrow> (w3 \<lparr> rw_server := sv4 \<rparr>, None) | Some (templateID, applications) \<Rightarrow>
      (case start_registration env now other ad sv4 of (sv5, registered) \<Rightarrow>
       case registered of None \<Rightarrow> (w3 \<lparr> rw_server := sv5 \<rparr>, None) | Some reg \<Rightarrow>
      (case start_launch env now other ad service templateID applications reg db (rw_runs w) sv5 of (sv6, runs, launched) \<Rightarrow>
       (w3 \<lparr> rw_server := sv6, rw_runs := runs \<rparr>,
        case launched of None \<Rightarrow> None | Some result \<Rightarrow> Some (ad, service, templateID, reg, result))))))))"

definition startRunner ::
  "start_env \<Rightarrow> (nat \<Rightarrow> instant) \<Rightarrow> (nat \<Rightarrow> server_state \<Rightarrow> server_state) \<Rightarrow> string \<Rightarrow> string \<Rightarrow> runner_world \<Rightarrow> runner_world" where
  "startRunner env now other i workerID w =
     (case start_sandbox env now other i workerID w of (w1, started) \<Rightarrow>
        case started of
          None \<Rightarrow> w1
        | Some (ad, service, templateID, reg, result) \<Rightarrow>
            (case start_adopt env now other ad service templateID reg result (rw_server w1) of (sv, watched) \<Rightarrow>
               w1 \<lparr> rw_server := sv, rw_watching := (if watched
                 then rw_watching w1 @ [(i, \<lparr> at_sandboxID = tr_SandboxID result, at_processPID = tr_PID result \<rparr>)]
                 else rw_watching w1) \<rparr>))"

subsection \<open>A start serves\<close>

lemma serves_fst_shapes:
  "(q = None \<Longrightarrow> serves a (fst f3)) \<Longrightarrow> (\<And>v. q = Some v \<Longrightarrow> serves a (fst (g3 v))) \<Longrightarrow> serves a (fst (case q of None \<Rightarrow> f3 | Some v \<Rightarrow> g3 v))"
  "(\<And>y r. p = (y, r) \<Longrightarrow> serves a (fst (f4 y r))) \<Longrightarrow> serves a (fst (case p of (y, r) \<Rightarrow> f4 y r))"
  "(\<And>e. q1 = Inl e \<Longrightarrow> serves a (fst (f1 e))) \<Longrightarrow> (\<And>v. q1 = Inr v \<Longrightarrow> serves a (fst (g1 v))) \<Longrightarrow> serves a (fst (case q1 of Inl e \<Rightarrow> f1 e | Inr v \<Rightarrow> g1 v))"
  "serves a (fst f2) \<Longrightarrow> serves a (fst g2) \<Longrightarrow> serves a (fst (if c then f2 else g2))"
  "(b \<Longrightarrow> serves a (fst f5)) \<Longrightarrow> (\<not> b \<Longrightarrow> serves a (fst g5)) \<Longrightarrow> serves a (fst (case b of True \<Rightarrow> f5 | False \<Rightarrow> g5))"
  "(e = RunnerCreationSuperseded \<Longrightarrow> serves a (fst f6)) \<Longrightarrow> (\<And>v. e = JITFailed v \<Longrightarrow> serves a (fst (g6 v)))
    \<Longrightarrow> serves a (fst (case e of RunnerCreationSuperseded \<Rightarrow> f6 | JITFailed v \<Rightarrow> g6 v))"
  "serves a x \<Longrightarrow> serves a (fst (x, r))"
  by (auto split: sum.split option.split prod.split bool.split jit_error.split)

lemma serves_jit_parts:
  "writeWindowsJITCleanupPending cfg now st x = Inr y \<Longrightarrow> serves a x \<Longrightarrow> serves a y"
  "serves a x \<Longrightarrow> serves a (retainWindowsJITCleanup cfg now i x)"
proof -
  show *: "writeWindowsJITCleanupPending cfg now st x = Inr y \<Longrightarrow> serves a x \<Longrightarrow> serves a y" for y st
    by (auto simp: writeWindowsJITCleanupPending_def Let_def split: sum.splits;
        (assumption | erule serves_elims | rule serves_intros)+)
  show "serves a x \<Longrightarrow> serves a (retainWindowsJITCleanup cfg now i x)"
    unfolding retainWindowsJITCleanup_def by (assumption | erule * | rule serves_cases)+
qed

lemma fst_serves: "p = (y, r) \<Longrightarrow> serves a (fst p) \<Longrightarrow> serves a y"
  by simp

lemma serves_prepareWindowsJIT:
  "serves a x \<Longrightarrow> serves a (fst (prepareWindowsJIT env now req attemptAt x))"
  unfolding prepareWindowsJIT_def
  by (assumption | erule serves_elims | rule serves_fst_shapes serves_intros)+

text \<open>With what the rest of the server does in the gaps.\<close>

lemma serves_cleanupWindowsJIT:
  assumes "\<And>s. serves s (other s)" "serves a x"
  shows "serves a (fst (cleanupWindowsJIT env other req attemptAt runnerID x))"
  using assms(2) unfolding cleanupWindowsJIT_def Let_def
  by - (assumption | rule serves_fst_shapes serves_intros serves_other [OF assms(1)])+

lemma serves_cleanupJIT:
  assumes "\<And>k s. serves s (other k s)" "serves a x"
  shows "serves a (fst (cleanupJIT env now other k ad reg x))"
  using assms(2) unfolding cleanupJIT_def
  by - (assumption | erule fst_serves | rule serves_fst_shapes serves_jit_parts serves_cleanupWindowsJIT [of "other k" for k, OF assms(1)]
      serves_other [of "other k" for k, OF assms(1)])+

lemma serves_start_failed:
  assumes "\<And>s. serves s (other s)" "serves a x" shows "serves a (start_failed env now other ad stage err x)"
  using assms(2) unfolding start_failed_def by - (rule serves_intros serves_other [OF assms(1)] | assumption)+

lemma serves_start_admission:
  assumes "\<And>k s. serves s (other k s)" "serves a x"
  shows "serves a (fst (start_admission env now other i workerID cap x))"
  using assms(2) unfolding start_admission_def Let_def
  by - (assumption | erule serves_elims | rule serves_fst_shapes serves_intros serves_cases serves_other [of "other k" for k, OF assms(1)])+

lemma serves_start_decision: "serves a x \<Longrightarrow> serves a (fst (start_decision cfg now req before st answer x))"
  unfolding start_decision_def Let_def
  by (assumption | erule serves_elims | rule serves_fst_shapes serves_cases(4) serves_intros)+

lemma serves_ensure:
  assumes "\<And>s. serves s (other s)" "serves a x"
  shows "serves a (fst (ensureWorkflowJobStillQueued cfg now ex other req workerID x))"
  using assms(2) unfolding ensureWorkflowJobStillQueued_def Let_def
  by - (assumption | erule serves_elims | rule serves_fst_shapes serves_start_decision serves_intros serves_other [OF assms(1)])+

lemma serves_start_check:
  assumes "\<And>k s. serves s (other k s)" "serves a x"
  shows "serves a (fst (start_check env now other workerID ad x))"
  using assms(2) unfolding start_check_def Let_def
  by - (assumption | erule fst_serves | rule serves_fst_shapes serves_ensure [of "other k" for k, OF assms(1)]
      serves_start_failed [of "other k" for k, OF assms(1)])+

lemma serves_WriteState: "WriteState now st (sv_requests x) = Inr tbl \<Longrightarrow> serves a x \<Longrightarrow> serves a (x \<lparr> sv_requests := tbl \<rparr>)"
  by (erule_tac serves_write [of now st x, rotated]) (simp add: write_state_def)

lemma serves_persist:
  "persistSandboxServiceSnapshot now env i service (sv_requests x) = (tbl, r) \<Longrightarrow> serves a x \<Longrightarrow> serves a (x \<lparr> sv_requests := tbl \<rparr>)"
  by (auto simp: persistSandboxServiceSnapshot_def split: if_splits sum.splits option.splits intro: serves_WriteState)

lemma serves_start_service:
  assumes "\<And>k s. serves s (other k s)" "serves a x"
  shows "serves a (fst (start_service env now other workerID ad db x))"
  using assms(2) unfolding start_service_def Let_def
  by - (assumption | erule serves_persist | rule serves_fst_shapes serves_intros serves_start_failed [of "other k" for k, OF assms(1)] serves_other [of "other k" for k, OF assms(1)])+

lemma serves_start_template:
  assumes "\<And>k s. serves s (other k s)" "serves a x"
  shows "serves a (fst (start_template env now other ad service x))"
  using assms(2) unfolding start_template_def Let_def
  by - (assumption | rule serves_fst_shapes serves_intros serves_start_failed [of "other k" for k, OF assms(1)])+

lemma serves_start_registration:
  assumes "\<And>k s. serves s (other k s)" "serves a x"
  shows "serves a (fst (start_registration env now other ad x))"
  using assms(2) unfolding start_registration_def Let_def
  by - (assumption | erule fst_serves | rule serves_fst_shapes serves_intros serves_prepareWindowsJIT serves_cleanupJIT [OF assms(1)]
      serves_start_failed [of "other k" for k, OF assms(1)] serves_other [of "other k" for k, OF assms(1)])+

lemma serves_start_launch:
  assumes "\<And>k s. serves s (other k s)" "serves a x"
  shows "serves a (fst (start_launch env now other ad service templateID applications reg db runs x))"
  using assms(2) unfolding start_launch_def Let_def
  by - (assumption | erule fst_serves | rule serves_fst_shapes serves_cases(1) serves_intros serves_cleanupJIT [OF assms(1)]
      serves_start_failed [of "other k" for k, OF assms(1)])+

lemma serves_cleanupStartedSandbox [serves_intros]: "serves a x \<Longrightarrow> serves a (cleanupStartedSandbox now ex i result x)"
  unfolding cleanupStartedSandbox_def by (assumption | erule serves_elims | rule serves_cases serves_intros)+

lemma serves_start_adopt:
  assumes "\<And>k s. serves s (other k s)" "serves a x"
  shows "serves a (fst (start_adopt env now other ad service templateID reg result x))"
  using assms(2) unfolding start_adopt_def Let_def
  by - (assumption | erule serves_elims | rule serves_fst_shapes serves_intros serves_cleanupJIT [OF assms(1)] serves_other [of "other k" for k, OF assms(1)])+

lemma serves_world_shapes:
  "(\<And>y r. p = (y, r) \<Longrightarrow> serves a (rw_server (fst (f1 y r)))) \<Longrightarrow> serves a (rw_server (fst (case p of (y, r) \<Rightarrow> f1 y r)))"
  "(q = None \<Longrightarrow> serves a (rw_server (fst f2))) \<Longrightarrow> (\<And>v. q = Some v \<Longrightarrow> serves a (rw_server (fst (g2 v))))
    \<Longrightarrow> serves a (rw_server (fst (case q of None \<Rightarrow> f2 | Some v \<Rightarrow> g2 v)))"
  "serves a (rw_server (fst f3)) \<Longrightarrow> serves a (rw_server (fst g3)) \<Longrightarrow> serves a (rw_server (fst (if c then f3 else g3)))"
  "serves a x \<Longrightarrow> serves a (rw_server (fst (w \<lparr> rw_server := x \<rparr>, r4)))"
  "serves a (rw_server w) \<Longrightarrow> serves a (rw_server (fst (w \<lparr> rw_capacity := c5 \<rparr>, r5)))"
  "serves a (rw_server w) \<Longrightarrow> serves a (rw_server (fst (w \<lparr> rw_installations := c6 \<rparr>, r6)))"
  "serves a (rw_server w) \<Longrightarrow> serves a (rw_server (fst (w \<lparr> rw_runs := c7 \<rparr>, r7)))"
  "serves a x \<Longrightarrow> serves a (rw_server (w \<lparr> rw_server := x \<rparr>))"
  by (auto split: option.split prod.split)

lemma serves_start_sandbox:
  assumes "\<And>k s. serves s (other k s)" "serves a (rw_server w)"
  shows "serves a (rw_server (fst (start_sandbox env now other i workerID w)))"
  using assms(2) unfolding start_sandbox_def Let_def
  by - (assumption | erule fst_serves | rule serves_world_shapes serves_start_admission [OF assms(1)] serves_start_check [OF assms(1)]
      serves_start_service [OF assms(1)] serves_start_template [OF assms(1)] serves_start_registration [OF assms(1)] serves_start_launch [OF assms(1)])+

lemma serves_startRunner:
  assumes "\<And>k s. serves s (other k s)" "serves a (rw_server w)"
  shows "serves a (rw_server (startRunner env now other i workerID w))"
proof -
  obtain w1 started where s: "start_sandbox env now other i workerID w = (w1, started)" by fastforce
  have w1: "serves a (rw_server w1)" using serves_start_sandbox [of other a w env now i workerID, OF assms] by (simp add: s)
  show ?thesis
  proof (cases started)
    case (Some x)
    obtain ad service templateID reg result where x: "x = (ad, service, templateID, reg, result)" by (cases x)
    obtain sv watched where "start_adopt env now other ad service templateID reg result (rw_server w1) = (sv, watched)" by fastforce
    then show ?thesis
      using serves_start_adopt [of other a "rw_server w1" env now ad service templateID reg result, OF assms(1) w1] by (simp add: startRunner_def s Some x)
  qed (use w1 in \<open>simp add: startRunner_def s\<close>)
qed

subsection \<open>No sandbox is left behind\<close>

lemma ReadRequest_serves:
  assumes "serves a x" "table_ok (sv_requests a)" "ReadRequest i (sv_requests a) = Inr req"
  shows "\<exists>req'. ReadRequest i (sv_requests x) = Inr req'"
proof -
  obtain r where r: "r \<in> set (sv_requests a)" "rr_ID r = sanitizeID i" "recordToRequest r = Inr req"
    using assms(2,3) by (auto simp: ReadRequest_def result_bind_Inr_iff readRecord_iff)
  obtain ops where ops: "sv_requests x = fold run_op ops (sv_requests a)" using assms(1) by (auto simp: serves_def)
  obtain r' where r': "r' \<in> set (sv_requests x)" "row_evolves r r'" using run_ops_evolve [OF assms(2) r(1)] ops by auto
  have "readRecord i (sv_requests x) = Inr r'"
    using r' r(2) table_ok_serves [OF assms(1,2)] by (simp add: readRecord_iff row_evolves_def)
  moreover have "\<exists>req'. recordToRequest r' = Inr req'"
    using r(3) r'(2) by (auto simp: recordToRequest_def row_evolves_def result_bind_Inr_iff)
  ultimately show ?thesis by (auto simp: ReadRequest_def)
qed

lemma start_sandbox_request:
  assumes "start_sandbox env now other i workerID w = (w1, Some (ad, service, templateID, reg, result))"
  shows "ad_id ad = i \<and> (\<exists>req. ReadRequest i (sv_requests (rw_server w)) = Inr req)"
proof -
  obtain sv1 cap admission where a: "start_admission env now other i workerID (rw_capacity w) (rw_server w) = (sv1, cap, admission)"
    by (cases "start_admission env now other i workerID (rw_capacity w) (rw_server w)")
  have "admission = Some ad"
    using assms by (auto simp: start_sandbox_def a Let_def split: option.splits prod.splits if_splits)
  then show ?thesis
    using a unfolding start_admission_def Let_def
    by (auto split: sum.splits option.splits prod.splits if_splits)
qed

text \<open>Between two states of the server, the lookup of the sandbox service for a request failed.\<close>

definition service_lost :: "external \<Rightarrow> string \<Rightarrow> requests_table \<Rightarrow> bool" where
  "service_lost ex i tbl = (\<exists>req err. ReadRequest i tbl = Inr req \<and> ex_SandboxService ex req = Some err)"

lemma cleanupStartedSandbox_calls:
  assumes "ReadRequest i (sv_requests sv) = Inr req" "tr_SandboxID result \<noteq> []" "ex_SandboxService ex req = None"
  shows "sv_calls (cleanupStartedSandbox now ex i result sv) = sv_calls sv @ [CallStopRunner (tr_SandboxID result) (tr_PID result)]"
  using assms by (auto simp: cleanupStartedSandbox_def stopSandboxWithTimeout_def split: option.split)

definition stop_asked :: "StartResult \<Rightarrow> server_state \<Rightarrow> server_state \<Rightarrow> bool" where
  "stop_asked result a z = (\<exists>cs cs'. sv_calls z = sv_calls a @ cs @ CallStopRunner (tr_SandboxID result) (tr_PID result) # cs')"

lemma stop_asked_between:
  assumes "serves a x" "sv_calls y = sv_calls x @ [CallStopRunner (tr_SandboxID result) (tr_PID result)]" "serves y z"
  shows "stop_asked result a z"
proof -
  obtain cs cs' where "sv_calls x = sv_calls a @ cs" "sv_calls z = sv_calls y @ cs'" using assms(1,3) unfolding serves_def by blast
  then have "sv_calls z = sv_calls a @ cs @ CallStopRunner (tr_SandboxID result) (tr_PID result) # cs'" using assms(2) by simp
  then show ?thesis unfolding stop_asked_def by blast
qed

lemma start_adopt_accounts:
  assumes ok: "table_ok (sv_requests sv0)" and others: "\<And>k s. serves s (other k s)"
    and req: "ReadRequest (ad_id ad) (sv_requests sv0) = Inr req" and some: "tr_SandboxID result \<noteq> []"
    and adopt: "start_adopt env now other ad service templateID reg result sv0 = (sv, watched)"
  shows "if watched then (\<exists>st. read_state (ad_id ad) sv = Inr st \<and> rs_Status st = StatusRunning
            \<and> rs_SandboxID st = tr_SandboxID result \<and> rs_ProcessPID st = tr_PID result)
         else stop_asked result sv0 sv \<or> service_lost (en_ex env) (ad_id ad) (sv_requests (other 19 (other 18 sv0)))"
proof -
  define s where "s = other 18 sv0"
  define abandon where "abandon = (\<lambda>x. (fst (cleanupJIT env now other 20 ad reg (cleanupStartedSandbox (now 19) (en_ex env) (ad_id ad) result x)), False))"
  have s: "serves sv0 s" unfolding s_def by (rule others)
  have stopped: "stop_asked result sv0 (fst (abandon x)) \<or> service_lost (en_ex env) (ad_id ad) (sv_requests x)"
    if x: "serves sv0 x" for x
  proof -
    obtain req' where r: "ReadRequest (ad_id ad) (sv_requests x) = Inr req'" using ReadRequest_serves [OF x ok req] by blast
    let ?clean = "cleanupStartedSandbox (now 19) (en_ex env) (ad_id ad) result x"
    have z: "serves ?clean (fst (abandon x))" unfolding abandon_def fst_conv by (rule serves_cleanupJIT [OF others serves_refl])
    show ?thesis
    proof (cases "ex_SandboxService (en_ex env) req'")
      case None
      then show ?thesis using stop_asked_between [OF x cleanupStartedSandbox_calls [OF r some] z] by blast
    next
      case (Some err)
      then show ?thesis using r unfolding service_lost_def by blast
    qed
  qed
  note run = adopt [unfolded start_adopt_def Let_def, folded s_def abandon_def]
  show ?thesis
  proof (cases "watched")
    case False
    have o: "serves sv0 (other 19 s)" by (rule serves_trans [OF s others])
    have "(sv, watched) = abandon (other 19 s) \<or> (\<exists>t. (sv, watched) = abandon (control_log (now 19) (ad_id ad) t (other 19 s)))"
      using run False by (auto simp: abandon_def split: sum.splits if_splits option.splits)
    then show ?thesis using stopped [OF o] stopped [OF serves_step(1) [OF o]] False unfolding s_def by (auto dest: arg_cong [of _ _ fst])
  next
    case True
    then obtain current sv1 where c: "read_state (ad_id ad) s = Inr current"
      "write_state (now 18) (running_state env ad service templateID result current) s = Inr sv1" "sv_requests sv = sv_requests sv1"
      using run by (auto simp: abandon_def split: sum.splits if_splits option.splits)
    have ok': "table_ok (sv_requests s)" by (rule table_ok_serves [OF s ok])
    have "sanitizeID (rs_ID (running_state env ad service templateID result current)) = sanitizeID (ad_id ad)"
      using read_state_id [OF ok' c(1)] by (simp add: running_state_def Let_def)
    from write_then_columns [OF ok' c(2) this] obtain r where
      "read_state (ad_id ad) sv1 = Inr (recordToState (write_columns (stamped (now 18) (running_state env ad service templateID result current)) r))" by blast
    then show ?thesis using True c(3) by (simp add: read_state_def) (simp add: running_state_def Let_def)
  qed
qed


definition started_result :: StartResult where
  "started_result = \<lparr> tr_SandboxID = ''sb'', tr_PID = 4, tr_ResolvedTemplateID = ''t-1'', tr_TemplateVersion = ''1'', tr_RunnerVersion = ''2.3'' \<rparr>"

definition sample_start :: start_env where
  "sample_start = \<lparr> en_cfg = sample_config, en_limits = \<lparr> cf_MaxConcurrentRunners = 2, cf_RunnerAccountConcurrency = (\<lambda>_. 0), cf_RunnerRepositoryConcurrency = (\<lambda>_. 0) \<rparr>,
     en_workerID = ''w'', en_ex = sample_external \<lparr> ex_GetWorkflowJob := (\<lambda>_ i. Inr (zero_job \<lparr> wj_ID := i, wj_Status := ''queued'' \<rparr>)) \<rparr>,
     en_sandbox = sample_env \<lparr> se_profiles := [profileRecord 5 (sample_profile \<lparr> rp_TemplateSource := ''public'', rp_DefaultTemplateName := ''base'' \<rparr>)] \<rparr>,
     en_github = sample_github, en_sha = (\<lambda>s. s), en_stsEndpoint = [], en_stsClient = (\<lambda>_ _ _. Inl []), en_stsParse = (\<lambda>_. None),
     en_ValidateRunnerGroup = (\<lambda>_ _ _. None),
     en_ListDefaultTemplates = (\<lambda>_. Some (Inr [\<lparr> ct_TemplateID = ''t-1'', ct_Names = [''base''], ct_BuildID = ''b'', ct_Public = True \<rparr>])),
     en_ListRunnerApplications = (\<lambda>_ _. Inr []), en_CreateRegistrationToken = (\<lambda>_ _. Inr ''token''),
     en_CreateRunnerJITConfig = (\<lambda>_ _ _ _. (zero_jit, None)), en_RunnerURL = (\<lambda>_ _. Inr ''https://github.com/acme/app''),
     en_RemoveRunner = (\<lambda>_ _ _. None), en_StartRunner = (\<lambda>_ _. Inr started_result), en_RecoverRunner = (\<lambda>_. (started_result, None)) \<rparr>"

definition sample_world :: runner_world where
  "sample_world = \<lparr> rw_server = empty_server \<lparr> sv_requests := [sample_row \<lparr> rr_GitHubInstallationID := 4, rr_LeaseOwner := ''w'' \<rparr>] \<rparr>,
     rw_capacity = empty_capacity, rw_installations = \<lparr> in_installations = [], in_owners = [] \<rparr>, rw_runs = [], rw_watching = [] \<rparr>"

text \<open>An operator stops the request while its sandbox is being made.\<close>

definition stopped_meanwhile :: "nat \<Rightarrow> server_state \<Rightarrow> server_state" where
  "stopped_meanwhile k s = (if k = 18 then fst (stopRunner sample_config 30 (en_ex sample_start) ''job-7'' zero_job ''manual_stop'' s) else s)"

lemma serves_stopped_meanwhile: "serves s (stopped_meanwhile k s)"
  using serves_stopRunner [OF prod.collapse [symmetric] serves_refl] by (simp add: stopped_meanwhile_def)


end
