(* ===== verification/Recovery.thy ===== *)
theory Recovery
  imports Loops Starting
begin

text \<open>
  What the service does with the requests it finds after a restart: \<open>recoverRunner\<close>,
  \<open>recoverActiveRunner\<close> and \<open>requeueInterruptedCreation\<close> of
  \<^verbatim>\<open>internal/server/server_runner_lifecycle.go\<close>. A recovery returns the new state, the attempt whose exit
  the reattached watcher may report (none when the reconnect was rejected) and the error. The audit
  event of a reconnect is left out. \<open>other\<close> and \<open>now\<close> are as in the start of a runner.
\<close>

fun recover_text :: "recover_error \<Rightarrow> string" where
  "recover_text (RecoverSandboxNotFound s) = s"
| "recover_text (RecoverRunnerNotFound s) = s"
| "recover_text (RecoverFailed s) = s"

definition workflowJobForRecovery :: "external \<Rightarrow> RunnerState \<Rightarrow> server_state \<Rightarrow> server_state \<times> (go_error + WorkflowJob option)" where
  "workflowJobForRecovery ex st sv =
     (if rs_WorkflowJobID st = 0 \<or> TrimSpace (rs_RepositoryFullName st) = [] then (sv, Inr None)
      else (call (CallGetWorkflowJob (rs_RepositoryFullName st) (rs_WorkflowJobID st)) sv,
            case ex_GetWorkflowJob ex (rs_RepositoryFullName st) (rs_WorkflowJobID st) of
              Inl err \<Rightarrow> Inl (wrap_go (''get workflow job '' @ int_dec (rs_WorkflowJobID st)) err)
            | Inr job \<Rightarrow> Inr (Some job)))"

definition interrupted_requeue :: "RunnerState \<Rightarrow> RunnerState" where
  "interrupted_requeue st = clearSandboxServiceSnapshot (clearRunnerEnvironmentSnapshot (st \<lparr>
     rs_Status := StatusQueued, rs_SandboxID := [], rs_ProcessPID := 0, rs_Error := [], rs_FailureStage := [], rs_FailureReason := [],
     rs_LastErrorCode := [], rs_LastErrorMessage := [], rs_LastErrorRetryable := False, rs_LeaseOwner := [],
     rs_LeaseExpiresAt := zero_time, rs_NextRetryAt := zero_time, rs_CreatingAt := zero_time, rs_RunningAt := zero_time,
     rs_StoppingAt := zero_time \<rparr>))"

definition requeueInterruptedCreation ::
  "start_env \<Rightarrow> instant \<Rightarrow> string \<Rightarrow> int \<Rightarrow> server_state \<Rightarrow> server_state \<times> go_error option" where
  "requeueInterruptedCreation env now i stateVersion sv =
     (case read_state i sv of
        Inl e \<Rightarrow> (sv, Some (PlainError (error_text e)))
      | Inr st \<Rightarrow>
          if rs_Version st \<noteq> stateVersion \<or> rs_Status st \<noteq> StatusCreating then (sv, None)
          else case ReadRequest i (sv_requests sv) of
            Inl e \<Rightarrow> (sv, Some (wrap_error ''read interrupted runner request'' e))
          | Inr req \<Rightarrow>
              (case (if PlatformForLabels (rq_Labels req) = PlatformWindows then cleanupGitHubRunner now (en_ex env) st sv else (sv, None)) of
                 (sv1, Some err) \<Rightarrow>
                   (case writeWindowsJITCleanupPending (en_cfg env) now st sv1 of
                      Inl e \<Rightarrow> (sv1, Some (wrap_error ''retain interrupted JIT cleanup'' e))
                    | Inr sv2 \<Rightarrow> (sv2, Some (wrap_go ''cleanup interrupted JIT Runner'' err)))
               | (sv1, None) \<Rightarrow>
                   (case write_state now (interrupted_requeue st) sv1 of
                      Inl e \<Rightarrow> (sv1, Some (wrap_error ''requeue interrupted runner creation'' e))
                    | Inr sv2 \<Rightarrow>
                        (signalQueue (control_log now i ''runner creation had no sandbox after restart; request requeued'' sv2), None))))"

definition recovered_state :: "start_env \<Rightarrow> RunnerRequest \<Rightarrow> StartResult \<Rightarrow> RunnerState \<Rightarrow> RunnerState" where
  "recovered_state env req result latest = latest \<lparr>
     rs_Status := StatusRunning, rs_SandboxID := tr_SandboxID result,
     rs_SandboxRegion := (if rs_SandboxRegion latest = [] then sandboxRegionForAPIURL (en_sandbox env) (rq_SandboxAPIURL req) else rs_SandboxRegion latest),
     rs_ResolvedTemplateID := (if rs_ResolvedTemplateID latest = [] \<and> tr_ResolvedTemplateID result \<noteq> []
       then TrimSpace (tr_ResolvedTemplateID result) else rs_ResolvedTemplateID latest),
     rs_TemplateVersion := (if rs_TemplateVersion latest = [] \<and> tr_TemplateVersion result \<noteq> []
       then TrimSpace (tr_TemplateVersion result) else rs_TemplateVersion latest),
     rs_RunnerVersion := (if rs_RunnerVersion latest = [] \<and> tr_RunnerVersion result \<noteq> []
       then TrimSpace (tr_RunnerVersion result) else rs_RunnerVersion latest),
     rs_ProcessPID := tr_PID result, rs_LeaseOwner := [], rs_LeaseExpiresAt := zero_time, rs_Error := [], rs_FailureStage := [],
     rs_FailureReason := [], rs_LastErrorCode := [], rs_LastErrorMessage := [], rs_LastErrorRetryable := False \<rparr>"

type_synonym recovery = "server_state \<times> runnerAttemptIdentity option \<times> go_error option"

text \<open>The reconnect succeeded: the request takes the runner over, unless it has changed in the meantime.\<close>

definition recover_adopt ::
  "start_env \<Rightarrow> instant \<Rightarrow> RunnerRequest \<Rightarrow> string \<Rightarrow> int \<Rightarrow> StartResult \<Rightarrow> server_state \<Rightarrow> recovery" where
  "recover_adopt env now req i stateVersion result sv =
     (case read_state i sv of
        Inl e \<Rightarrow> (sv, None, Some (PlainError (error_text e)))
      | Inr latest \<Rightarrow>
          if rs_Version latest \<noteq> stateVersion \<or> (rs_Status latest \<noteq> StatusCreating \<and> rs_Status latest \<noteq> StatusRunning)
          then (control_log now i ''runner reconnect result discarded after concurrent state change'' sv, None, None)
          else case write_state now (recovered_state env req result latest) sv of
            Inl e \<Rightarrow> (sv, None, Some (wrap_error ''write recovered runner state'' e))
          | Inr sv1 \<Rightarrow>
              (control_log now i (''runner reconnected after restart sandbox_id='' @ tr_SandboxID result @ '' pid='' @ int_dec (tr_PID result)) sv1,
               Some \<lparr> at_sandboxID = tr_SandboxID result, at_processPID = tr_PID result \<rparr>, None))"

text \<open>The reconnect failed: a request that was being created goes back to the queue when no sandbox of it is left.\<close>

definition recover_failed ::
  "start_env \<Rightarrow> instant \<Rightarrow> (server_state \<Rightarrow> server_state) \<Rightarrow> RunnerState \<Rightarrow> int \<Rightarrow> WorkflowJob option \<Rightarrow> StartResult \<Rightarrow> recover_error
    \<Rightarrow> server_state \<Rightarrow> server_state \<times> go_error option" where
  "recover_failed env now other st stateVersion job result err sv =
     (let i = rs_ID st; cfg = en_cfg env; ex = en_ex env; creating = (rs_Status st = StatusCreating);
          status = (case job of None \<Rightarrow> [] | Some j \<Rightarrow> wj_Status j);
          sandboxMissing = (case err of RecoverSandboxNotFound _ \<Rightarrow> True | _ \<Rightarrow> False);
          runnerMissing = (case err of RecoverRunnerNotFound _ \<Rightarrow> True | _ \<Rightarrow> False);
          failed = (\<lambda>message. (failAndStopRunnerVersion cfg now ex i stateVersion ''recovery'' ''sandbox_not_found'' message sv, None))
      in if rs_Status st = StatusRunning \<and> sandboxMissing then failed ''runner sandbox no longer exists after restart''
         else if creating \<and> sandboxMissing \<and> (job = None \<or> status = ''queued'' \<or> isWorkflowJobWaiting status)
         then requeueInterruptedCreation env now i stateVersion sv
         else if creating \<and> sandboxMissing \<and> EqualFold (TrimSpace status) ''in_progress''
         then failed ''runner sandbox no longer exists after interrupted creation''
         else if creating \<and> runnerMissing \<and> tr_SandboxID result \<noteq> [] then
           (case stopSandboxWithTimeout ex i (tr_SandboxID result) 0 sv of (sv1, stopErr) \<Rightarrow>
              case (case stopErr of None \<Rightarrow> None | Some e \<Rightarrow> if isSandboxGone e then None else Some e) of
                Some e \<Rightarrow>
                  (staged_log now i runnerEventStageSandboxCleanup ''cleanup interrupted runner creation failed'' sv1,
                   Some (wrap_go ''stop sandbox without runner before requeue'' e))
              | None \<Rightarrow>
                  requeueInterruptedCreation env now i stateVersion
                    (other (staged_log now i runnerEventStageSandboxCleanup ''stopped sandbox without runner process after restart'' sv1)))
         else (control_log now i ''runner reconnect after restart failed; preserving request state'' sv,
               Some (PlainError (''reconnect runner: '' @ recover_text err))))"

definition recover_reconnect ::
  "start_env \<Rightarrow> (nat \<Rightarrow> instant) \<Rightarrow> (nat \<Rightarrow> server_state \<Rightarrow> server_state) \<Rightarrow> RunnerState \<Rightarrow> int \<Rightarrow> WorkflowJob option \<Rightarrow> server_state \<Rightarrow> recovery" where
  "recover_reconnect env now other st stateVersion job sv0 =
     (let i = rs_ID st; sv = other 2 sv0; timeout = remainingSandboxTimeout (en_cfg env) st (now 2)
      in if timeout \<le> 0 then
           (failAndStopRunnerVersion (en_cfg env) (now 2) (en_ex env) i stateVersion ''sandbox_timeout'' ''timeout''
              ''runner exceeded sandbox timeout during recovery'' sv, None, None)
         else case ReadRequest i (sv_requests sv) of
           Inl e \<Rightarrow> (sv, None, Some (wrap_error ''read runner request for recovery'' e))
         | Inr req \<Rightarrow>
             (case ex_SandboxService (en_ex env) req of
                Some e \<Rightarrow> (sv, None, Some (wrap_go ''resolve sandbox service for recovery'' e))
              | None \<Rightarrow>
                  let sv1 = other 3 (call (CallRecoverRunner i) sv)
                  in (case en_RecoverRunner env \<lparr> ri_Platform = PlatformForLabels (rq_Labels req), ri_RequestID = i, ri_SandboxID = rs_SandboxID st,
                              ri_PID = rs_ProcessPID st, ri_Timeout = timeout \<rparr> of
                        (result, Some err) \<Rightarrow>
                          (case recover_failed env (now 3) (other 4) st stateVersion job result err sv1 of (sv2, e) \<Rightarrow> (sv2, None, e))
                      | (result, None) \<Rightarrow> recover_adopt env (now 3) req i stateVersion result sv1)))"

definition recoverActiveRunner ::
  "start_env \<Rightarrow> (nat \<Rightarrow> instant) \<Rightarrow> (nat \<Rightarrow> server_state \<Rightarrow> server_state) \<Rightarrow> RunnerState \<Rightarrow> int \<Rightarrow> server_state \<Rightarrow> recovery" where
  "recoverActiveRunner env now other st stateVersion sv =
     (case workflowJobForRecovery (en_ex env) st sv of
        (sv1, Inl _) \<Rightarrow>
          recover_reconnect env now other st stateVersion None
            (control_log (now 1) (rs_ID st) ''workflow job status check during recovery failed; continuing sandbox reconnect'' sv1)
      | (sv1, Inr None) \<Rightarrow> recover_reconnect env now other st stateVersion None sv1
      | (sv1, Inr (Some job)) \<Rightarrow>
          if EqualFold (TrimSpace (wj_Status job)) ''completed'' then
            (case stopRunner (en_cfg env) (now 1) (en_ex env) (rs_ID st) job TerminationSourceRecoveryCleanup (other 1 sv1) of
               (sv2, Inl err) \<Rightarrow> (sv2, None, Some err)
             | (sv2, Inr (latest, _)) \<Rightarrow>
                 if rs_Status latest \<noteq> StatusCreating \<and> rs_Status latest \<noteq> StatusRunning then (sv2, None, None)
                 else recover_reconnect env now other latest (rs_Version latest) (Some job) sv2)
          else recover_reconnect env now other st stateVersion (Some job) sv1)"

definition recoverRunner ::
  "start_env \<Rightarrow> (nat \<Rightarrow> instant) \<Rightarrow> (nat \<Rightarrow> server_state \<Rightarrow> server_state) \<Rightarrow> string \<Rightarrow> server_state \<Rightarrow> recovery" where
  "recoverRunner env now other i sv =
     (case read_state i sv of
        Inl e \<Rightarrow> (sv, None, Some (PlainError (error_text e)))
      | Inr st \<Rightarrow>
          if \<not> isActiveStatus (rs_Status st) then (sv, None, None)
          else
            let sv1 = control_log (now 0) i ''recovering runner after service restart'' sv
            in case rs_Status st of
                 StatusQueued \<Rightarrow>
                   (case write_state (now 0) (st \<lparr> rs_LeaseOwner := [], rs_LeaseExpiresAt := zero_time \<rparr>) sv1 of
                      Inl e \<Rightarrow> (sv1, None, Some (wrap_error ''clear queued runner lease'' e))
                    | Inr sv2 \<Rightarrow> (signalQueue (control_log (now 0) i ''queued runner lease cleared after restart'' sv2), None, None))
               | StatusStopping \<Rightarrow>
                   (case stopRunner (en_cfg env) (now 1) (en_ex env) i zero_job TerminationSourceRecoveryCleanup (other 0 sv1) of
                      (sv2, Inl err) \<Rightarrow> (sv2, None, Some err)
                    | (sv2, Inr _) \<Rightarrow> (sv2, None, None))
               | _ \<Rightarrow> recoverActiveRunner env now other st (rs_Version st) (other 0 sv1))"

subsection \<open>A recovery serves\<close>

lemma serves_requeueInterrupted: "serves a x \<Longrightarrow> serves a (fst (requeueInterruptedCreation env now i v x))"
  unfolding requeueInterruptedCreation_def
  by (assumption | erule serves_shapes serves_jit_parts(1) | rule serves_fst_shapes serves_intros)+

lemma serves_recover_adopt: "serves a x \<Longrightarrow> serves a (fst (recover_adopt env now req i v result x))"
  unfolding recover_adopt_def
  by (assumption | erule serves_elims | rule serves_fst_shapes serves_intros)+

lemma serves_recover_failed:
  assumes "\<And>s. serves s (other s)" "serves a x"
  shows "serves a (fst (recover_failed env now other st v job result err x))"
  using assms(2) unfolding recover_failed_def Let_def
  by - (assumption | erule serves_elims | rule serves_fst_shapes serves_intros serves_requeueInterrupted serves_other [OF assms(1)])+

lemma serves_recover_reconnect:
  assumes "\<And>k s. serves s (other k s)" "serves a x"
  shows "serves a (fst (recover_reconnect env now other st v job x))"
  using assms(2) unfolding recover_reconnect_def Let_def
  by - (assumption | erule fst_serves | rule serves_fst_shapes serves_intros serves_recover_adopt
      serves_recover_failed [of "other k" for k, OF assms(1)] serves_other [of "other k" for k, OF assms(1)])+

lemma serves_workflowJobForRecovery: "workflowJobForRecovery ex st x = (y, r) \<Longrightarrow> serves a x \<Longrightarrow> serves a y"
  by (auto simp: workflowJobForRecovery_def split: if_splits intro: serves_step)

lemma serves_recoverActiveRunner:
  assumes "\<And>k s. serves s (other k s)" "serves a x"
  shows "serves a (fst (recoverActiveRunner env now other st v x))"
  using assms(2) unfolding recoverActiveRunner_def
  by - (assumption | erule serves_workflowJobForRecovery serves_stopRunner | rule serves_fst_shapes serves_intros
      serves_recover_reconnect [OF assms(1)] serves_other [of "other k" for k, OF assms(1)])+

lemma serves_recoverRunner:
  assumes "\<And>k s. serves s (other k s)" "serves a x"
  shows "serves a (fst (recoverRunner env now other i x))"
proof -
  have status: "serves a (fst q) \<Longrightarrow> serves a (fst c) \<Longrightarrow> serves a (fst r) \<Longrightarrow> serves a (fst s) \<Longrightarrow> serves a (fst d) \<Longrightarrow> serves a (fst f)
    \<Longrightarrow> serves a (fst (case v of StatusQueued \<Rightarrow> q | StatusCreating \<Rightarrow> c | StatusRunning \<Rightarrow> r | StatusStopping \<Rightarrow> s
          | StatusCompleted \<Rightarrow> d | StatusFailed \<Rightarrow> f))" for v and q c r s d f :: recovery
    by (cases v) simp_all
  show ?thesis using assms(2) unfolding recoverRunner_def Let_def
    by - (assumption | erule serves_write serves_stopRunner | rule serves_fst_shapes status serves_intros
        serves_recoverActiveRunner [OF assms(1)] serves_other [of "other k" for k, OF assms(1)])+
qed

subsection \<open>A reconnect that is lost\<close>

definition same_but_result :: "RunnerState \<Rightarrow> RunnerState \<Rightarrow> bool" where
  "same_but_result st st' \<longleftrightarrow> same_run st st' \<and> rs_Version st' = rs_Version st \<and> rs_RunningAt st' = rs_RunningAt st \<and> rs_CreatingAt st' = rs_CreatingAt st"

lemma same_but_result_steps:
  "same_but_result st st"
  "same_but_result st x \<Longrightarrow> same_but_result st (x \<lparr> rs_GitHubJobName := a \<rparr>)"
  "same_but_result st x \<Longrightarrow> same_but_result st (x \<lparr> rs_GitHubJobStatus := b \<rparr>)"
  "same_but_result st x \<Longrightarrow> same_but_result st (x \<lparr> rs_GitHubJobConclusion := c \<rparr>)"
  "same_but_result st x \<Longrightarrow> same_but_result st (x \<lparr> rs_GitHubJobRunnerName := d \<rparr>)"
  "same_but_result st x \<Longrightarrow> same_but_result st (x \<lparr> rs_GitHubJobObservedAt := e \<rparr>)"
  "same_but_result st x \<Longrightarrow> same_but_result st y \<Longrightarrow> same_but_result st (if cond then x else y)"
  by (auto simp: same_but_result_def same_run_def)

lemma same_but_result_pairs:
  "same_but_result st x \<Longrightarrow> same_but_result st (fst (x, v))"
  "same_but_result st (fst p) \<Longrightarrow> same_but_result st (fst q) \<Longrightarrow> same_but_result st (fst (if cond then p else q))"
  by simp_all

lemma same_but_result_fields: "same_but_result st (fst (retain_fields n s c d st))"
  unfolding retain_fields_def Let_def by (rule same_but_result_pairs same_but_result_steps)+

lemma same_but_result_retain: "same_but_result st (fst (retainWorkflowJobResult now job t st))"
  unfolding retainWorkflowJobResult_def Let_def case_prod_beta
  by (rule same_but_result_pairs same_but_result_steps same_but_result_fields)+

text \<open>C32: The first reconnect after a job was seen to have ended elsewhere is lost. The runner of a
  request serves another job than the one the request was made for, that job ended while the service
  was down, and nothing else touches the request during the recovery. The stop is deferred, as it
  should be, but it has written the result of the job, and the version it returns is the one before
  that write. The reconnect to the running process succeeds and is then discarded as if the request
  had changed concurrently: the request stays running, no error is reported, and nobody watches the
  process.\<close>

theorem recovery_discards_own_reconnect:
  assumes "table_ok (sv_requests sv)" and "read_state i sv = Inr st" and "rs_Status st = StatusRunning"
    and "rs_WorkflowJobID st \<noteq> 0" and "TrimSpace (rs_RepositoryFullName st) \<noteq> []"
    and "ex_GetWorkflowJob (en_ex env) (rs_RepositoryFullName st) (rs_WorkflowJobID st) = Inr job" and "EqualFold (TrimSpace (wj_Status job)) ''completed''"
    and "retainWorkflowJobResult (now 1) job (now 1) st = (st1, True)" and "workflowJobStopConflictsWithAssignment st1 job"
    and "0 < remainingSandboxTimeout (en_cfg env) st (now 2)" and "ReadRequest i (sv_requests sv) = Inr req"
    and "\<And>req. ex_SandboxService (en_ex env) req = None" and "\<And>input. en_RecoverRunner env input = (result, None)"
    and "recoverRunner env now (\<lambda>_ s. s) i sv = (sv', watched, err)"
  shows "watched = None \<and> err = None \<and> (\<exists>st'. read_state i sv' = Inr st' \<and> rs_Status st' = StatusRunning \<and> rs_SandboxID st' = rs_SandboxID st)"
proof -
  note id = read_state_id [OF assms(1,2)]
  have keep: "rs_ID st1 = rs_ID st" "rs_Version st1 = rs_Version st" "rs_Status st1 = StatusRunning" "rs_SandboxID st1 = rs_SandboxID st"
    "remainingSandboxTimeout (en_cfg env) st1 (now 2) = remainingSandboxTimeout (en_cfg env) st (now 2)"
    using same_but_result_retain [of st "now 1" job "now 1"] assms(3,8) by (simp_all add: same_but_result_def same_run_def remainingSandboxTimeout_def)
  define sv1 where "sv1 = call (CallGetWorkflowJob (rs_RepositoryFullName st) (rs_WorkflowJobID st)) (control_log (now 0) i ''recovering runner after service restart'' sv)"
  have same: "sv_requests sv1 = sv_requests sv" by (simp add: sv1_def)
  have read1: "read_state (rs_ID st) sv1 = Inr st" using assms(2) id by (simp add: read_state_def ReadState_def readRecord_def same)
  obtain r where r: "r \<in> set (sv_requests sv)" "rr_ID r = sanitizeID i" "st = recordToState r" using assms(1,2) by (auto simp: read_state_def ReadState_iff)
  have "\<exists>tbl. WriteState (now 1) st1 (sv_requests sv1) = Inr tbl"
    using r id keep by (auto simp: WriteState_Inr_iff [OF assms(1)] same write_target_def)
  then obtain sv2 where w: "write_state (now 1) st1 sv1 = Inr sv2" by (auto simp: write_state_def)
  from write_then_columns [of sv1 "now 1" st1 sv2 i] obtain r2
    where read2: "read_state i sv2 = Inr (recordToState (write_columns (stamped (now 1) st1) r2))" using assms(1) same w id keep by auto
  have v: "rs_Version (recordToState (write_columns (stamped (now 1) st1) r2)) \<noteq> rs_Version st1" by (simp add: stamped_def Let_def)
  obtain line where stop: "stopRunner (en_cfg env) (now 1) (en_ex env) (rs_ID st) job TerminationSourceRecoveryCleanup sv1
      = (control_log (now 1) (rs_ID st) line sv2, Inr (st1, False))"
    using read1 assms(8,9) w by (simp add: stopRunner_def)
  define sv3 where "sv3 = control_log (now 1) (rs_ID st) line sv2"
  have served: "serves sv sv3"
    unfolding sv3_def by (rule serves_step, rule serves_write [OF w], unfold sv1_def) (rule serves_step serves_refl)+
  obtain req' where req': "ReadRequest i (sv_requests sv3) = Inr req'" using ReadRequest_serves [OF served assms(1,11)] by blast
  have read3: "read_state i sv3 = Inr (recordToState (write_columns (stamped (now 1) st1) r2))" using read2 by (simp add: sv3_def read_state_def)
  have eq: "read_state (rs_ID st) s = read_state i s" "ReadRequest (rs_ID st) tbl = ReadRequest i tbl" for s tbl
    using id by (simp_all add: read_state_def ReadState_def ReadRequest_def readRecord_def)
  have "recover_reconnect env now (\<lambda>_ s. s) st1 (rs_Version st1) (Some job) sv3
      = (control_log (now 3) (rs_ID st) ''runner reconnect result discarded after concurrent state change'' (call (CallRecoverRunner (rs_ID st)) sv3), None, None)"
    using assms(10,12,13) keep eq req' read3 v by (simp add: recover_reconnect_def recover_adopt_def Let_def) (simp add: read_state_def)
  moreover have "recoverRunner env now (\<lambda>_ s. s) i sv = recover_reconnect env now (\<lambda>_ s. s) st1 (rs_Version st1) (Some job) sv3"
    using assms(2-7) keep stop sv1_def sv3_def
    by (simp add: recoverRunner_def recoverActiveRunner_def workflowJobForRecovery_def isActiveStatus_def)
  ultimately show ?thesis using assms(14) read3 keep by (auto simp: read_state_def)
qed

definition ended_elsewhere :: start_env where
  "ended_elsewhere = sample_start \<lparr> en_ex := sample_external \<lparr> ex_GetWorkflowJob := (\<lambda>_ i. Inr (zero_job \<lparr> wj_ID := i, wj_Status := ''completed'',
     wj_Conclusion := ''success'', wj_RunnerName := ''another'' \<rparr>)) \<rparr> \<rparr>"

definition busy_row :: runnerRequestRecord where
  "busy_row = sample_row \<lparr> rr_Status := StatusRunning, rr_SandboxID := ''sb'', rr_ProcessPID := 4, rr_AssignedJobID := 9, rr_RunnerName := ''runner-7'' \<rparr>"

definition busy_elsewhere :: server_state where
  "busy_elsewhere = empty_server \<lparr> sv_requests := [busy_row] \<rparr>"

theorem recovery_discards_own_reconnect_witness:
  "fst (snd (recoverRunner ended_elsewhere (\<lambda>_. 20) (\<lambda>_ s. s) ''job-7'' busy_elsewhere)) = None"
proof -
  let ?st = "recordToState busy_row" and ?job = "zero_job \<lparr> wj_ID := 7, wj_Status := ''completed'', wj_Conclusion := ''success'', wj_RunnerName := ''another'' \<rparr>"
  have ok: "table_ok (sv_requests busy_elsewhere)"
    using sample_table_ok by (simp add: busy_elsewhere_def busy_row_def table_ok_def row_wf_def)
  have st: "read_state ''job-7'' busy_elsewhere = Inr ?st" by code_simp
  have facts: "rs_Status ?st = StatusRunning" "rs_WorkflowJobID ?st \<noteq> 0" "TrimSpace (rs_RepositoryFullName ?st) \<noteq> []"
    "EqualFold (TrimSpace (wj_Status ?job)) ''completed''" "0 < remainingSandboxTimeout (en_cfg ended_elsewhere) ?st 20"
    "workflowJobStopConflictsWithAssignment (fst (retainWorkflowJobResult 20 ?job 20 ?st)) ?job"
    by code_simp+
  have job: "ex_GetWorkflowJob (en_ex ended_elsewhere) (rs_RepositoryFullName ?st) (rs_WorkflowJobID ?st) = Inr ?job" by code_simp
  have retain: "retainWorkflowJobResult 20 ?job 20 ?st = (fst (retainWorkflowJobResult 20 ?job 20 ?st), True)" by code_simp
  have "case ReadRequest ''job-7'' (sv_requests busy_elsewhere) of Inl _ \<Rightarrow> False | Inr _ \<Rightarrow> True" by code_simp
  then obtain req where req: "ReadRequest ''job-7'' (sv_requests busy_elsewhere) = Inr req" by (auto split: sum.splits)
  have svc: "\<And>req. ex_SandboxService (en_ex ended_elsewhere) req = None" "\<And>input. en_RecoverRunner ended_elsewhere input = (started_result, None)"
    by (simp_all add: ended_elsewhere_def sample_start_def sample_external_def)
  obtain sv' watched err where run: "recoverRunner ended_elsewhere (\<lambda>_. 20) (\<lambda>_ s. s) ''job-7'' busy_elsewhere = (sv', watched, err)"
    by (cases "recoverRunner ended_elsewhere (\<lambda>_. 20) (\<lambda>_ s. s) ''job-7'' busy_elsewhere")
  show ?thesis
    using recovery_discards_own_reconnect [OF ok st facts(1-3) job facts(4) retain facts(6,5) req svc run] by (simp add: run)
qed

end
