(* ===== verification/Webhooks.thy ===== *)
theory Webhooks
  imports JobQueue Installations Applications
begin

text \<open>
  Deliveries of GitHub and what they do to the queue: \<^verbatim>\<open>internal/server/server_webhooks.go\<close> and the
  admission part of \<^verbatim>\<open>internal/server/server_runner_lifecycle.go\<close>.

  The secret's HMAC and the JSON decoding of a body are functions of the environment, as are the
  catalogue, the identities and the installations, which admission reads under the admission lock.
  A delivery's content is \<open>None\<close> when reading it fails; of a longer one the handler sees the first 10 MiB.
  An HTTP answer is its status code with what is encoded in the body.
\<close>

subsection \<open>Signatures\<close>

definition VerifyWebhookSignature :: "(string \<Rightarrow> string \<Rightarrow> string) \<Rightarrow> string \<Rightarrow> string \<Rightarrow> string \<Rightarrow> bool" where
  "VerifyWebhookSignature hmac secret body signature =
     (if secret = [] \<or> signature = [] then False
      else if \<not> HasPrefix signature ''sha256='' then False
      else case hex_decode (TrimPrefix signature ''sha256='') of
        None \<Rightarrow> False
      | Some got \<Rightarrow> got = hmac secret body)"

subsection \<open>Admission\<close>

record WorkflowJobEvent =
  je_Action :: string
  je_WorkflowJob :: WorkflowJob
  je_Repository :: string
  je_Installation :: int

record WorkflowRunEvent =
  re_Action :: string
  re_RunID :: int
  re_Repository :: string
  re_Installation :: int

record webhook_env =
  we_hmac :: "string \<Rightarrow> string \<Rightarrow> string"
  we_secret :: string
  we_job_event :: "string \<Rightarrow> WorkflowJobEvent option"
  we_run_event :: "string \<Rightarrow> WorkflowRunEvent option"
  we_payload :: "string \<Rightarrow> github_payload"
  we_ListWorkflowRunJobs :: "string \<Rightarrow> int \<Rightarrow> go_error + WorkflowJob list"
  we_allowed :: "string list"
  we_labelHash :: "string list \<Rightarrow> string"
  we_profiles :: profiles_table
  we_scoped :: scoped_table
  we_identities :: identity_db
  we_installations :: installation_db

definition matchProfileForAdmission :: "webhook_env \<Rightarrow> string \<Rightarrow> int \<Rightarrow> string list \<Rightarrow> ProfileMatch result" where
  "matchProfileForAdmission env repository installationID labels =
     (case runnerProfileScopeForInstallation installationID (we_identities env) (we_installations env) of
        Inl e \<Rightarrow> Inl e
      | Inr (Some scope) \<Rightarrow> MatchProfileForScope (we_labelHash env) scope repository labels (we_profiles env) (we_scoped env)
      | Inr None \<Rightarrow> MatchProfile repository labels (we_profiles env))"

text \<open>The answer of an admission: an error, or the request's state and whether it was made now.\<close>

type_synonym admission = "server_state \<times> (error + RunnerState option \<times> bool)"

definition rejectAdmission :: "instant \<Rightarrow> RunnerRequest \<Rightarrow> github_payload \<Rightarrow> string \<Rightarrow> server_state \<Rightarrow> admission" where
  "rejectAdmission now req payload reason sv =
     (case CreateRejectedRequest now req payload reason (sv_requests sv) of
        (tbl, _, _, Some e) \<Rightarrow> (sv \<lparr> sv_requests := tbl \<rparr>, Inl e)
      | (tbl, created, st, None) \<Rightarrow>
          let sv1 = sv \<lparr> sv_requests := tbl \<rparr>
          in ((if created then control_log now (rq_ID req) (''runner admission rejected: '' @ reason) sv1 else sv1), Inr (st, False)))"

definition enqueueRunnerRequestLocked ::
  "instant \<Rightarrow> (server_state \<Rightarrow> server_state) \<Rightarrow> RunnerRequest \<Rightarrow> github_payload \<Rightarrow> server_state \<Rightarrow> admission" where
  "enqueueRunnerRequestLocked now other req payload sv =
     (case read_state (rq_ID req) sv of
        Inr st \<Rightarrow>
          (case wakeWaitingWorkflowJob now other req st sv of
             (sv1, st1, None) \<Rightarrow> (sv1, Inr (st1, False))
           | (sv1, _, Some e) \<Rightarrow> (sv1, Inl e))
      | Inl _ \<Rightarrow>
          (case CreateRequest now req payload (sv_requests sv) of
             (tbl, _, _, Some e) \<Rightarrow> (sv \<lparr> sv_requests := tbl \<rparr>, Inl e)
           | (tbl, created, st, None) \<Rightarrow>
               let sv1 = sv \<lparr> sv_requests := tbl \<rparr>
               in ((if created then signalQueue (control_log now (rq_ID req) ''runner request created'' sv1) else sv1), Inr (st, created))))"

definition enqueueRunnerRequest ::
  "instant \<Rightarrow> (server_state \<Rightarrow> server_state) \<Rightarrow> RunnerRequest \<Rightarrow> github_payload \<Rightarrow> server_state \<Rightarrow> admission" where
  "enqueueRunnerRequest now other req payload sv = enqueueRunnerRequestLocked now other req payload sv"

definition workflowJobPullRequestNumber :: "int list \<Rightarrow> int" where
  "workflowJobPullRequestNumber pulls = (case pulls of [] \<Rightarrow> 0 | n # _ \<Rightarrow> n)"

definition job_request :: "string \<Rightarrow> int \<Rightarrow> WorkflowJob \<Rightarrow> RunnerRequest" where
  "job_request repositoryFullName githubInstallationID job = \<lparr>
     rq_ID = int_dec (wj_ID job), rq_Source = ''github_webhook'', rq_JobID = wj_ID job,
     rq_PullRequestNumber = workflowJobPullRequestNumber (wj_PullRequests job),
     rq_GitHubInstallationID = githubInstallationID, rq_RepositoryFullName = repositoryFullName,
     rq_RequestedLabels = wj_Labels job, rq_Labels = wj_Labels job, rq_ProfileName = [], rq_ProfileSource = [],
     rq_ProfileScopeType = [], rq_ProfileScopeID = 0, rq_RunnerGroup = [],
     rq_RunnerName = ''e2b-'' @ int_dec (wj_ID job), rq_SandboxAPIURL = [], rq_SandboxAPIKeyEncrypted = [],
     rq_SandboxConfigSource = [], rq_SponsorInstallationID = 0, rq_SponsorSourceRepositoryID = 0,
     rq_SponsorSourceRepositoryFullName = [], rq_SponsorAuthorizationReason = [], rq_CreatedAt = zero_time \<rparr>"

definition enqueueWorkflowJob ::
  "webhook_env \<Rightarrow> instant \<Rightarrow> (server_state \<Rightarrow> server_state) \<Rightarrow> string \<Rightarrow> int \<Rightarrow> WorkflowJob \<Rightarrow> github_payload \<Rightarrow> server_state \<Rightarrow> admission" where
  "enqueueWorkflowJob env now other repositoryFullName githubInstallationID job payload sv =
     (let req = job_request repositoryFullName githubInstallationID job
      in if \<not> RepositoryAllowed (we_allowed env) repositoryFullName then rejectAdmission now req payload ''repository_not_allowed'' sv
         else case matchProfileForAdmission env repositoryFullName githubInstallationID (wj_Labels job) of
           Inl e \<Rightarrow> (sv, Inl e)
         | Inr match \<Rightarrow>
             let req1 = req \<lparr> rq_ProfileSource := pm_Source match, rq_ProfileScopeType := pm_ScopeType match, rq_ProfileScopeID := pm_ScopeID match \<rparr>
             in case pm_Profile match of
                  None \<Rightarrow> rejectAdmission now req1 payload (pm_Reason match) sv
                | Some profile \<Rightarrow>
                    enqueueRunnerRequestLocked now other (req1 \<lparr> rq_ProfileName := rp_Name profile, rq_RunnerGroup := rp_RunnerGroup profile,
                      rq_Labels := rp_Labels profile \<rparr>) payload sv)"

subsection \<open>Deliveries\<close>

datatype http_answer =
    HttpError int string
  | HttpIgnored int
  | HttpState int "RunnerState option"
  | HttpCounts int nat nat nat nat

definition admission_failed :: "RunnerState option \<Rightarrow> bool" where
  "admission_failed st = (case st of None \<Rightarrow> False | Some s \<Rightarrow> rs_Status s = StatusFailed \<and> rs_FailureStage s = ''admission'')"

definition createAndStart ::
  "instant \<Rightarrow> (server_state \<Rightarrow> server_state) \<Rightarrow> RunnerRequest \<Rightarrow> github_payload \<Rightarrow> server_state \<Rightarrow> server_state \<times> http_answer" where
  "createAndStart now other req payload sv =
     (case enqueueRunnerRequest now other req payload sv of
        (sv1, Inl e) \<Rightarrow> (sv1, HttpError 500 (error_text e))
      | (sv1, Inr (st, created)) \<Rightarrow> (sv1, HttpState (if created then 202 else 200) st))"

definition completedWorkflowJobStopID :: "WorkflowJob \<Rightarrow> server_state \<Rightarrow> string \<times> string" where
  "completedWorkflowJobStopID job sv =
     (if HasPrefix (wj_RunnerName job) ''e2b-'' then (TrimPrefix (wj_RunnerName job) ''e2b-'', ''runner_name'')
      else if wj_ID job = 0 then ([], [])
      else case read_state (int_dec (wj_ID job)) sv of
        Inr _ \<Rightarrow> (int_dec (wj_ID job), ''workflow_job_id'')
      | Inl _ \<Rightarrow> ([], []))"

definition handle_job_event ::
  "lifecycle_config \<Rightarrow> webhook_env \<Rightarrow> instant \<Rightarrow> external \<Rightarrow> (server_state \<Rightarrow> server_state) \<Rightarrow> string \<Rightarrow> server_state \<Rightarrow> server_state \<times> http_answer" where
  "handle_job_event cfg env now ex other body sv =
     (case we_job_event env body of
        None \<Rightarrow> (sv, HttpError 400 ''invalid workflow_job payload'')
      | Some event \<Rightarrow>
          let job = je_WorkflowJob event; target = fst (completedWorkflowJobStopID job sv)
          in if je_Action event = ''queued'' then
               (case enqueueWorkflowJob env now other (je_Repository event) (je_Installation event) job (we_payload env body) sv of
                  (sv1, Inl e) \<Rightarrow> (sv1, HttpError 500 (error_text e))
                | (sv1, Inr (st, created)) \<Rightarrow> (sv1, HttpState (if created \<or> admission_failed st then 202 else 200) st))
             else if je_Action event = ''in_progress'' then
               (if target = [] then (sv, HttpIgnored 202)
                else case markWorkflowJobInProgress now target job sv of
                  (sv1, Inl e) \<Rightarrow> (sv1, HttpError 500 (error_text e))
                | (sv1, Inr (st, _)) \<Rightarrow> (sv1, HttpState 202 (Some st)))
             else if je_Action event = ''completed'' then
               (if target = [] then (sv, HttpIgnored 202)
                else case stopRunner cfg now ex target job TerminationSourceWorkflowJobWebhook sv of
                  (sv1, Inl e) \<Rightarrow> (sv1, HttpError 500 (err_text e))
                | (sv1, Inr (st, _)) \<Rightarrow> (sv1, HttpState 202 (Some st)))
             else (sv, HttpIgnored 202))"

text \<open>The counters of \<^verbatim>\<open>created\<close>, \<^verbatim>\<open>existing\<close>, \<^verbatim>\<open>skipped\<close> and \<^verbatim>\<open>failed\<close> jobs of a run.\<close>

fun enqueue_jobs ::
  "webhook_env \<Rightarrow> instant \<Rightarrow> (server_state \<Rightarrow> server_state) \<Rightarrow> WorkflowRunEvent \<Rightarrow> github_payload \<Rightarrow> WorkflowJob list
     \<Rightarrow> server_state \<times> nat \<times> nat \<times> nat \<times> nat \<Rightarrow> server_state \<times> nat \<times> nat \<times> nat \<times> nat" where
  "enqueue_jobs env now other event payload [] acc = acc"
| "enqueue_jobs env now other event payload (job # jobs) (sv, created, existing, skipped, failed) =
     (if wj_ID job = 0 \<or> wj_Status job \<noteq> ''queued''
      then enqueue_jobs env now other event payload jobs (sv, created, existing, Suc skipped, failed)
      else case enqueueWorkflowJob env now other (re_Repository event) (re_Installation event) job payload sv of
        (sv1, Inl _) \<Rightarrow> enqueue_jobs env now other event payload jobs (sv1, created, existing, skipped, Suc failed)
      | (sv1, Inr (st, wasCreated)) \<Rightarrow>
          enqueue_jobs env now other event payload jobs
            (if wasCreated then (sv1, Suc created, existing, skipped, failed)
             else if admission_failed st then (sv1, created, existing, Suc skipped, failed)
             else (sv1, created, Suc existing, skipped, failed)))"

definition handleWorkflowRunWebhook ::
  "webhook_env \<Rightarrow> instant \<Rightarrow> (server_state \<Rightarrow> server_state) \<Rightarrow> string \<Rightarrow> server_state \<Rightarrow> server_state \<times> http_answer" where
  "handleWorkflowRunWebhook env now other body sv =
     (case we_run_event env body of
        None \<Rightarrow> (sv, HttpError 400 ''invalid workflow_run payload'')
      | Some event \<Rightarrow>
          if re_Action event \<notin> {''requested'', ''in_progress''} then (sv, HttpIgnored 202)
          else case we_ListWorkflowRunJobs env (re_Repository event) (re_RunID event) of
            Inl err \<Rightarrow> (sv, HttpError 502 (err_text err))
          | Inr jobs \<Rightarrow>
              (case enqueue_jobs env now other event (we_payload env body) jobs (sv, 0, 0, 0, 0) of
                 (sv1, created, existing, skipped, failed) \<Rightarrow>
                   if failed > 0 then (sv1, HttpError 502 (''failed to enqueue '' @ int_dec (int failed) @ '' workflow_run jobs''))
                   else (sv1, HttpCounts 202 created existing skipped failed)))"

text \<open>
  What can be read of a request's body: nothing when the connection fails, and never more than 10 MiB; what
  is longer is cut, not refused.
\<close>

definition webhookBodyLimit :: nat where
  "webhookBodyLimit = 10 * 2 ^ 20"

definition read_body :: "string option \<Rightarrow> string option" where
  "read_body content = map_option (take webhookBodyLimit) content"

definition handleGitHubWebhook ::
  "lifecycle_config \<Rightarrow> webhook_env \<Rightarrow> instant \<Rightarrow> external \<Rightarrow> (server_state \<Rightarrow> server_state) \<Rightarrow> string \<Rightarrow> string \<Rightarrow> string option \<Rightarrow> server_state
     \<Rightarrow> server_state \<times> http_answer" where
  "handleGitHubWebhook cfg env now ex other eventName signature content sv =
     (case read_body content of
        None \<Rightarrow> (sv, HttpError 400 ''read body'')
      | Some body \<Rightarrow>
          if \<not> VerifyWebhookSignature (we_hmac env) (we_secret env) body signature then (sv, HttpError 401 ''invalid signature'')
          else if eventName = ''workflow_run'' then handleWorkflowRunWebhook env now other body sv
          else if eventName \<noteq> ''workflow_job'' then (sv, HttpIgnored 202)
          else handle_job_event cfg env now ex other body sv)"

subsection \<open>Who gets a runner\<close>

lemma int_dec_nonempty_id: "rr_ID (newRequestRecord now (normalizeRequest now req) p s a b c) = sanitizeID (rq_ID req)"
  by (simp add: normalizeRequest_def Let_def)

lemma newRequestRecord_failure [simp]:
  "rr_FailureStage (newRequestRecord now req p s a b c) = a" "rr_FailureReason (newRequestRecord now req p s a b c) = b"
  "rr_ProfileName (newRequestRecord now req p s a b c) = rq_ProfileName req"
  by (simp_all add: newRequestRecord_def Let_def)

lemma candidates_enabled: "pm_Profile (profileMatchFromCandidates repo labels ps) = Some p \<Longrightarrow> rp_Enabled p"
  using selectMatchingProfile_Some [of ps labels p] by (auto simp: profileMatchFromCandidates_def Let_def profile_matches_def)

lemma MatchProfile_enabled: "MatchProfile repo labels tbl = Inr m \<Longrightarrow> pm_Profile m = Some p \<Longrightarrow> rp_Enabled p"
  by (auto simp: MatchProfile_def result_bind_Inr_iff dest: candidates_enabled)

lemma MatchProfileForScope_enabled:
  assumes "MatchProfileForScope h scope repo labels globals tbl = Inr m" and "pm_Profile m = Some p" shows "rp_Enabled p"
proof -
  have scoped: "rp_Enabled (scoped_runner_profile q True)" for q by (simp add: scoped_runner_profile_def)
  define found where "found = (\<lambda>ps. case NormalizeWorkflowLabels h labels of Inl _ \<Rightarrow> None | Inr (_, k) \<Rightarrow> find (\<lambda>p. sp_LabelKey p = k) (ps :: ScopedRunnerProfile list))"
  obtain ps where "ListScopedProfiles scope tbl = Inr ps" using assms(1) by (auto simp: MatchProfileForScope_def result_bind_Inr_iff)
  then show ?thesis
  proof (cases "found ps")
    case None
    then have "\<exists>gs. m = profileMatchFromCandidates repo labels gs \<lparr> pm_Source := ''global'', pm_ScopeType := sc_Type scope, pm_ScopeID := sc_ID scope \<rparr>"
      using assms(1) \<open>ListScopedProfiles scope tbl = Inr ps\<close>
      by (auto simp: MatchProfileForScope_def found_def result_bind_Inr_iff Let_def)
    then show ?thesis using assms(2) candidates_enabled by auto
  next
    case (Some q)
    then have "pm_Profile m = (if sp_Enabled q then Some (scoped_runner_profile q True) else None)"
      using assms(1) \<open>ListScopedProfiles scope tbl = Inr ps\<close>
      by (auto simp: MatchProfileForScope_def found_def result_bind_Inr_iff Let_def split: if_splits)
    then show ?thesis using assms(2) scoped by (auto split: if_splits)
  qed
qed

lemma matched_profile_enabled:
  "matchProfileForAdmission env repo inst labels = Inr m \<Longrightarrow> pm_Profile m = Some p \<Longrightarrow> rp_Enabled p"
  by (auto simp: matchProfileForAdmission_def dest: MatchProfile_enabled MatchProfileForScope_enabled split: sum.splits option.splits)

definition admitted_profile :: "webhook_env \<Rightarrow> string \<Rightarrow> int \<Rightarrow> string list \<Rightarrow> RunnerProfile option" where
  "admitted_profile env repository installationID labels =
     (if RepositoryAllowed (we_allowed env) repository then
        (case matchProfileForAdmission env repository installationID labels of Inl _ \<Rightarrow> None | Inr match \<Rightarrow> pm_Profile match)
      else None)"

lemma admitted_profile_enabled: "admitted_profile env repo inst labels = Some p \<Longrightarrow> rp_Enabled p"
  by (auto simp: admitted_profile_def dest: matched_profile_enabled split: if_splits sum.splits)

text \<open>
  A job is known when a row has its number as identity or as workflow job. An admission cannot be decided when the
  repository is allowed but the catalogue or the installation cannot be read.
\<close>

definition job_known :: "WorkflowJob \<Rightarrow> server_state \<Rightarrow> bool" where
  "job_known job sv \<longleftrightarrow> (\<exists>r\<in>set (sv_requests sv). rr_ID r = sanitizeID (int_dec (wj_ID job)) \<or> (wj_ID job \<noteq> 0 \<and> rr_WorkflowJobID r = Some (wj_ID job)))"

definition undecided :: "webhook_env \<Rightarrow> string \<Rightarrow> int \<Rightarrow> WorkflowJob \<Rightarrow> bool" where
  "undecided env repo inst job \<longleftrightarrow> RepositoryAllowed (we_allowed env) repo \<and> (\<exists>e. matchProfileForAdmission env repo inst (wj_Labels job) = Inl e)"

text \<open>A request that waits for a fresh delivery of its job, with no worker and no sandbox.\<close>

definition waits_for_job :: "RunnerState \<Rightarrow> bool" where
  "waits_for_job st \<longleftrightarrow> rs_Status st = StatusQueued \<and> rs_LastErrorCode st = workflowJobWaitCode \<and> rs_LeaseOwner st = [] \<and> rs_SandboxID st = []"

text \<open>What asking for a runner for a job may do to the table.\<close>

definition admits :: "webhook_env \<Rightarrow> instant \<Rightarrow> (server_state \<Rightarrow> server_state) \<Rightarrow> string \<Rightarrow> int \<Rightarrow> WorkflowJob \<Rightarrow> server_state \<Rightarrow> server_state \<Rightarrow> bool" where
  "admits env now other repo inst job sv sv' \<longleftrightarrow>
     (if job_known job sv \<or> undecided env repo inst job
      then sv_requests sv' = sv_requests sv
        \<or> (\<exists>st p. read_state (int_dec (wj_ID job)) sv = Inr st \<and> waits_for_job st \<and> admitted_profile env repo inst (wj_Labels job) = Some p
             \<and> (sv_requests sv' = sv_requests (other sv)
                \<or> (\<exists>x. write_state now (st \<lparr> rs_NextRetryAt := zero_time \<rparr>) (other sv) = Inr x \<and> sv_requests sv' = sv_requests x \<and> sv_queueNotify sv')))
      else (\<exists>row. sv_requests sv' = sv_requests sv @ [row] \<and> rr_ID row = sanitizeID (int_dec (wj_ID job))
        \<and> (case admitted_profile env repo inst (wj_Labels job) of
             Some p \<Rightarrow> rp_Enabled p \<and> rr_Status row = StatusQueued \<and> rr_ProfileName row = rp_Name p \<and> sv_queueNotify sv'
           | None \<Rightarrow> rr_Status row = StatusFailed \<and> rr_FailureStage row = ''admission'')))"

fun admits_all :: "webhook_env \<Rightarrow> instant \<Rightarrow> (server_state \<Rightarrow> server_state) \<Rightarrow> string \<Rightarrow> int \<Rightarrow> WorkflowJob list \<Rightarrow> server_state \<Rightarrow> server_state \<Rightarrow> bool" where
  "admits_all env now other repo inst [] sv sv' \<longleftrightarrow> sv' = sv"
| "admits_all env now other repo inst (job # jobs) sv sv' \<longleftrightarrow>
     (\<exists>x. admits env now other repo inst job sv x \<and> admits_all env now other repo inst jobs x sv')"

lemma sanitizeID_int_dec: "sanitizeID (int_dec n) \<noteq> []"
proof -
  have ne: "int_dec n \<noteq> []" by (simp add: int_dec_def nat_dec.simps [of "nat n"])
  have chars: "c \<notin> set (int_dec n)" if "of_char c < (48 :: nat) \<or> 57 < (of_char c :: nat)" "c \<noteq> CHR ''-''" for c
    using nat_dec_not [of c] that by (auto simp: int_dec_def)
  have space: "\<not> is_space c" if "c \<in> set (int_dec n)" for c
    using chars [of c] that by (cases "c = CHR ''-''") (auto simp: is_space_def Let_def)
  have "trimmed (int_dec n)" using ne space by (simp add: trimmed_def)
  moreover have "\<not> Contains (int_dec n) ''..''" using chars [of "CHR ''.''"] by (auto simp: Contains_iff)
  ultimately have "sanitizeID (int_dec n) = int_dec n"
    using chars [of "CHR ''/''"] chars [of "CHR 0x5C"] by (intro sanitizeID_id) simp_all
  then show ?thesis using ne by simp
qed

text \<open>A creation for a job adds its row exactly when the job is not known.\<close>

lemma createRequest_for_job:
  assumes "rq_ID req = int_dec (wj_ID job)" "rq_JobID req = wj_ID job"
  shows "if job_known job sv then \<exists>st e. createRequest now req p s a b c (sv_requests sv) = (sv_requests sv, False, st, e)
    else createRequest now req p s a b c (sv_requests sv)
      = (sv_requests sv @ [newRequestRecord now (normalizeRequest now req) p s a b c], True, Some (recordToState (newRequestRecord now (normalizeRequest now req) p s a b c)), None)"
proof -
  let ?new = "newRequestRecord now (normalizeRequest now req) p s a b c"
  have job: "rr_WorkflowJobID ?new = (if wj_ID job = 0 then None else Some (wj_ID job))"
    using assms(2) by (simp add: newRequestRecord_def normalizeRequest_def Let_def)
  have "job_known job sv = (\<exists>r\<in>set (sv_requests sv). row_conflicts ?new r)"
    using job assms(1) unfolding job_known_def row_conflicts_def int_dec_nonempty_id by auto
  then show ?thesis
    using sanitizeID_int_dec [of "wj_ID job"] assms(1) by (auto simp: createRequest_def Let_def split: sum.split option.split)
qed

lemma read_known: "read_state (int_dec (wj_ID job)) sv = Inr st \<Longrightarrow> job_known job sv"
  by (auto simp: read_state_def ReadState_def readRecord_def job_known_def split: option.splits dest: find_SomeD)

lemma rejectAdmission_admits:
  assumes run: "rejectAdmission now req payload reason sv = (sv', r)" and req: "rq_ID req = int_dec (wj_ID job)" "rq_JobID req = wj_ID job"
    and none: "admitted_profile env repo inst (wj_Labels job) = None" "\<not> undecided env repo inst job"
  shows "admits env now other repo inst job sv sv'"
  using createRequest_for_job [OF req, of sv now payload StatusFailed "''admission''" "TrimSpace reason" "''runner admission rejected''"] run none req(1)
  by (auto simp: rejectAdmission_def CreateRejectedRequest_def admits_def Let_def int_dec_nonempty_id split: if_splits option.splits)

lemma enqueueRunnerRequestLocked_admits:
  assumes run: "enqueueRunnerRequestLocked now other req payload sv = (sv', r)" and req: "rq_ID req = int_dec (wj_ID job)" "rq_JobID req = wj_ID job"
    and some: "admitted_profile env repo inst (wj_Labels job) = Some p" "\<not> undecided env repo inst job" "rq_ProfileName req = rp_Name p"
  shows "admits env now other repo inst job sv sv'"
proof (cases "read_state (rq_ID req) sv")
  case (Inl e)
  note created = createRequest_for_job [OF req, of sv now payload StatusQueued "[]" "[]" "[]"]
  show ?thesis
    using created run some req(1) Inl admitted_profile_enabled [OF some(1)]
    by (auto simp: enqueueRunnerRequestLocked_def CreateRequest_def admits_def Let_def int_dec_nonempty_id signalQueue_def normalizeRequest_def
        split: if_splits option.splits)
next
  case (Inr st)
  have known: "job_known job sv" using read_known Inr req(1) by simp
  have wake: "sv' = fst (wakeWaitingWorkflowJob now other req st sv)"
    using run Inr by (auto simp: enqueueRunnerRequestLocked_def split: prod.splits option.splits)
  show ?thesis
  proof (cases "sv' = sv")
    case True
    then show ?thesis using known by (simp add: admits_def)
  next
    case False
    then have "waits_for_job st \<and> (sv' = other sv \<or> (\<exists>x. write_state now (st \<lparr> rs_NextRetryAt := zero_time \<rparr>) (other sv) = Inr x \<and> sv' = signalQueue x))"
      using wake Inr by (auto simp: wakeWaitingWorkflowJob_def waits_for_job_def Let_def split: if_splits sum.splits)
    then show ?thesis using known Inr req(1) some(1) unfolding admits_def by (auto simp: signalQueue_def)
  qed
qed

lemma enqueueWorkflowJob_admits:
  assumes run: "enqueueWorkflowJob env now other repo inst job payload sv = (sv', r)"
  shows "admits env now other repo inst job sv sv'"
proof (cases "admitted_profile env repo inst (wj_Labels job)")
  case None
  show ?thesis
  proof (cases "undecided env repo inst job")
    case True
    then show ?thesis using run by (auto simp: enqueueWorkflowJob_def undecided_def admits_def Let_def)
  next
    case False
    then obtain req reason where "rejectAdmission now req payload reason sv = (sv', r)" "rq_ID req = int_dec (wj_ID job)" "rq_JobID req = wj_ID job"
      using run None by (auto simp: enqueueWorkflowJob_def undecided_def admitted_profile_def Let_def job_request_def split: if_splits sum.splits)
    then show ?thesis using rejectAdmission_admits None False by blast
  qed
next
  case (Some p)
  then obtain req where "enqueueRunnerRequestLocked now other req payload sv = (sv', r)" "rq_ID req = int_dec (wj_ID job)" "rq_JobID req = wj_ID job"
      "rq_ProfileName req = rp_Name p" "\<not> undecided env repo inst job"
    using run by (auto simp: enqueueWorkflowJob_def undecided_def admitted_profile_def Let_def job_request_def split: if_splits sum.splits)
  then show ?thesis using enqueueRunnerRequestLocked_admits [OF _ _ _ Some] by blast
qed

lemma enqueue_jobs_admits:
  "admits_all env now other (re_Repository event) (re_Installation event) (filter (\<lambda>job. wj_ID job \<noteq> 0 \<and> wj_Status job = ''queued'') jobs)
     (fst acc) (fst (enqueue_jobs env now other event payload jobs acc))"
proof (induction jobs arbitrary: acc)
  case (Cons job jobs)
  obtain sv created existing skipped failed where acc: "acc = (sv, created, existing, skipped, failed)" by (cases acc)
  obtain sv1 r where e: "enqueueWorkflowJob env now other (re_Repository event) (re_Installation event) job payload sv = (sv1, r)" by fastforce
  note IH = Cons.IH [of "(sv1, x)" for x, simplified]
  show ?case
  proof (cases "wj_ID job = 0 \<or> wj_Status job \<noteq> ''queued''")
    case True
    then show ?thesis using Cons.IH [of "(sv, created, existing, Suc skipped, failed)"] by (auto simp: acc)
  next
    case False
    then have "\<exists>counts. enqueue_jobs env now other event payload (job # jobs) acc = enqueue_jobs env now other event payload jobs (sv1, counts)"
      by (cases r) (auto simp: acc e split: if_splits, blast+)
    then show ?thesis using False IH enqueueWorkflowJob_admits [OF e] by (auto simp: acc)
  qed
qed simp

text \<open>C30: what a delivery of GitHub does to the table of requests. One whose body cannot be read, or that is not
  signed with the webhook's secret, changes nothing, whatever its event. A signed delivery of a queued job, and of
  a requested or running workflow run for each queued job that GitHub lists for it, one after the other, asks for a
  runner. For a job that is not known yet this adds exactly one row, with the job's number as its identity: queued, on
  the enabled profile that was matched, with the workers signalled, when the repository is on the allow list and a
  profile matches the job's labels; already failed at admission otherwise, so that no worker claims it. For a
  known job, and while the catalogue cannot be read, nothing changes, but that a request which waits for its job
  without a worker or sandbox may be tried again at once, if nobody else changed it meanwhile.
  Every other delivery changes nothing, except those of a running or completed job, which do not ask for a
  runner.\<close>
theorem delivery_admission:
  assumes "handleGitHubWebhook cfg env now ex other eventName signature content sv = (sv', answer)"
  shows "case read_body content of
      None \<Rightarrow> sv' = sv
    | Some body \<Rightarrow>
        if \<not> VerifyWebhookSignature (we_hmac env) (we_secret env) body signature then sv' = sv \<and> answer = HttpError 401 ''invalid signature''
        else if eventName = ''workflow_job'' then
          (case we_job_event env body of
             None \<Rightarrow> sv' = sv
           | Some event \<Rightarrow>
               if je_Action event = ''queued'' then admits env now other (je_Repository event) (je_Installation event) (je_WorkflowJob event) sv sv'
               else if je_Action event \<noteq> ''in_progress'' \<and> je_Action event \<noteq> ''completed'' then sv' = sv else True)
        else if eventName = ''workflow_run'' then
          (case we_run_event env body of
             None \<Rightarrow> sv' = sv
           | Some event \<Rightarrow>
               if re_Action event \<notin> {''requested'', ''in_progress''} then sv' = sv
               else (case we_ListWorkflowRunJobs env (re_Repository event) (re_RunID event) of
                       Inl _ \<Rightarrow> sv' = sv
                     | Inr jobs \<Rightarrow> admits_all env now other (re_Repository event) (re_Installation event)
                         (filter (\<lambda>job. wj_ID job \<noteq> 0 \<and> wj_Status job = ''queued'') jobs) sv sv'))
        else sv' = sv"
proof (cases "read_body content")
  case None
  then show ?thesis using assms by (simp add: handleGitHubWebhook_def)
next
  case (Some body)
  note run = assms [unfolded handleGitHubWebhook_def Some option.case]
  have job: "admits env now other (je_Repository event) (je_Installation event) (je_WorkflowJob event) sv sv'"
    if "handle_job_event cfg env now ex other body sv = (sv', answer)" "we_job_event env body = Some event" "je_Action event = ''queued''" for event
  proof -
    obtain sv1 r where e: "enqueueWorkflowJob env now other (je_Repository event) (je_Installation event) (je_WorkflowJob event) (we_payload env body) sv = (sv1, r)"
      by fastforce
    then have "sv1 = sv'" using that by (auto simp: handle_job_event_def Let_def split: sum.splits)
    then show ?thesis using enqueueWorkflowJob_admits [OF e] by simp
  qed
  have jobs: "admits_all env now other (re_Repository event) (re_Installation event) (filter (\<lambda>job. wj_ID job \<noteq> 0 \<and> wj_Status job = ''queued'') jobs) sv sv'"
    if "handleWorkflowRunWebhook env now other body sv = (sv', answer)" "we_run_event env body = Some event" "re_Action event \<in> {''requested'', ''in_progress''}"
      "we_ListWorkflowRunJobs env (re_Repository event) (re_RunID event) = Inr jobs" for event jobs
  proof -
    have "sv' = fst (enqueue_jobs env now other event (we_payload env body) jobs (sv, 0, 0, 0, 0))"
      using that by (auto simp: handleWorkflowRunWebhook_def split: prod.splits if_splits)
    then show ?thesis using enqueue_jobs_admits [of env now other event jobs "(sv, 0, 0, 0, 0)" "we_payload env body"] by simp
  qed
  show ?thesis
  proof (cases "VerifyWebhookSignature (we_hmac env) (we_secret env) body signature")
    case False
    then show ?thesis using run by (simp add: Some)
  next
    case True
    consider "eventName = ''workflow_job''" | "eventName = ''workflow_run''" | "eventName \<noteq> ''workflow_job''" "eventName \<noteq> ''workflow_run''" by blast
    then show ?thesis
    proof cases
      case 1
      then have run: "handle_job_event cfg env now ex other body sv = (sv', answer)" using run True by simp
      then have "sv' = sv" if "case we_job_event env body of None \<Rightarrow> True | Some event \<Rightarrow> je_Action event \<notin> {''queued'', ''in_progress'', ''completed''}"
        using that by (auto simp: handle_job_event_def Let_def split: option.splits if_splits)
      then show ?thesis using 1 True Some job [OF run] by (auto split: option.split)
    next
      case 2
      then have run: "handleWorkflowRunWebhook env now other body sv = (sv', answer)" using run True by simp
      show ?thesis
      proof (cases "we_run_event env body")
        case None
        then show ?thesis using run 2 True Some by (simp add: handleWorkflowRunWebhook_def)
      next
        case event: (Some event)
        then show ?thesis
          using run 2 True Some jobs [OF run event] by (cases "we_ListWorkflowRunJobs env (re_Repository event) (re_RunID event)")
            (auto simp: handleWorkflowRunWebhook_def split: if_splits)
      qed
    qed (use run True Some in simp)
  qed
qed

definition sample_webhook :: webhook_env where
  "sample_webhook = \<lparr> we_hmac = (\<lambda>_ _. ''ab''), we_secret = ''k'',
     we_job_event = (\<lambda>_. Some \<lparr> je_Action = ''queued'', je_WorkflowJob = sample_job, je_Repository = ''acme/app'', je_Installation = 0 \<rparr>),
     we_run_event = (\<lambda>_. None), we_payload = (\<lambda>_. zero_payload), we_ListWorkflowRunJobs = (\<lambda>_ _. Inr []),
     we_allowed = [''acme/*''], we_labelHash = concat, we_profiles = [profileRecord 5 sample_profile], we_scoped = [],
     we_identities = \<lparr> db_accounts = [], db_identities = [], db_audit = [] \<rparr>,
     we_installations = \<lparr> in_installations = [], in_owners = [] \<rparr> \<rparr>"

lemma webhookBodyLimit_large: "length content \<le> 1000 \<Longrightarrow> read_body (Some content) = Some content"
  by (simp add: read_body_def webhookBodyLimit_def)

theorem delivery_admission_witness:
  "\<exists>row. sv_requests (fst (handleGitHubWebhook sample_config sample_webhook 5 sample_external id ''workflow_job'' ''sha256=6162'' (Some ''body'') empty_server)) = [row]
     \<and> rr_Status row = StatusQueued \<and> rr_ProfileName row = ''small''"
proof -
  let ?ev = "\<lparr> je_Action = ''queued'', je_WorkflowJob = sample_job, je_Repository = ''acme/app'', je_Installation = 0 \<rparr>"
  let ?run = "handleGitHubWebhook sample_config sample_webhook 5 sample_external id ''workflow_job'' ''sha256=6162'' (Some ''body'') empty_server"
  have event: "we_job_event sample_webhook ''body'' = Some ?ev" "je_Action ?ev = ''queued''"
    by (simp_all add: sample_webhook_def)
  have body: "read_body (Some ''body'') = Some ''body''" by (rule webhookBodyLimit_large) simp
  have signed: "VerifyWebhookSignature (we_hmac sample_webhook) (we_secret sample_webhook) ''body'' ''sha256=6162''" by code_simp
  have new: "\<not> job_known sample_job empty_server" by (simp add: job_known_def empty_server_def)
  have decided: "\<not> undecided sample_webhook ''acme/app'' 0 sample_job"
  proof -
    have "case matchProfileForAdmission sample_webhook ''acme/app'' 0 [''Linux''] of Inl _ \<Rightarrow> False | Inr _ \<Rightarrow> True" by code_simp
    then show ?thesis by (auto simp: undecided_def sample_job_def split: sum.splits)
  qed
  have profile: "map_option (\<lambda>p. (rp_Enabled p, rp_Name p)) (admitted_profile sample_webhook ''acme/app'' 0 [''Linux'']) = Some (True, ''small'')" by code_simp
  have empty: "sv_requests empty_server = []" by (simp add: empty_server_def)
  have labels: "wj_Labels sample_job = [''Linux'']" by (simp add: sample_job_def)
  have "admits sample_webhook 5 id ''acme/app'' 0 sample_job empty_server (fst ?run)"
    using delivery_admission [OF prod.collapse [symmetric], of sample_config sample_webhook 5 sample_external id "''workflow_job''" "''sha256=6162''" "Some ''body''" empty_server]
    by (simp add: body signed event)
  then show ?thesis using new decided profile by (auto simp: admits_def empty labels)
qed

end
