(* ===== verification/Service.thy ===== *)
theory Service
  imports Recovery Webhooks
begin

text \<open>
  The service as a whole: every handler, with the other handlers in its gaps. The relation \<open>runs\<close> is the
  least one that lets a handler run when what happens in each of its gaps is itself a run of the
  service, so it covers all interleavings at the points where the code gives up the request's lock.
\<close>

subsection \<open>Deliveries serve\<close>

lemma serves_create:
  "CreateRequest now req payload (sv_requests x) = (tbl, r) \<Longrightarrow> serves a x \<Longrightarrow> serves a (x \<lparr> sv_requests := tbl \<rparr>)"
  "CreateRejectedRequest now req payload reason (sv_requests x) = (tbl, r) \<Longrightarrow> serves a x \<Longrightarrow> serves a (x \<lparr> sv_requests := tbl \<rparr>)"
  by (rule serves_trans, assumption, rule serves_op [of _ "OpCreate now req payload"], simp_all)
     (rule serves_trans, assumption, rule serves_op [of _ "OpReject now req payload reason"], simp_all)

lemma serves_rejectAdmission: "serves a x \<Longrightarrow> serves a (fst (rejectAdmission now req payload reason x))"
  unfolding rejectAdmission_def Let_def
  by (assumption | erule serves_create | rule serves_fst_shapes serves_cases(4) serves_intros)+

lemma serves_wake:
  assumes "\<And>s. serves s (other s)" "serves a x"
  shows "serves a (fst (wakeWaitingWorkflowJob now other req st x))"
  using assms(2) unfolding wakeWaitingWorkflowJob_def Let_def
  by - (assumption | erule serves_elims | rule serves_fst_shapes serves_intros serves_other [OF assms(1)])+

lemma serves_enqueueLocked:
  assumes "\<And>s. serves s (other s)" "serves a x"
  shows "serves a (fst (enqueueRunnerRequestLocked now other req payload x))"
  using assms(2) unfolding enqueueRunnerRequestLocked_def Let_def
  by - (assumption | erule serves_create fst_serves | rule serves_fst_shapes serves_cases(4) serves_intros serves_wake [OF assms(1)])+

lemma serves_enqueueWorkflowJob:
  assumes "\<And>s. serves s (other s)" "serves a x"
  shows "serves a (fst (enqueueWorkflowJob env now other repository installation job payload x))"
  using assms(2) unfolding enqueueWorkflowJob_def Let_def
  by - (assumption | rule serves_fst_shapes serves_rejectAdmission serves_enqueueLocked [OF assms(1)])+

lemma serves_enqueue_jobs:
  assumes "\<And>s. serves s (other s)"
  shows "serves a (fst acc) \<Longrightarrow> serves a (fst (enqueue_jobs env now other event payload jobs acc))"
proof (induction jobs arbitrary: acc)
  case (Cons job jobs)
  obtain sv created existing skipped failed where acc: "acc = (sv, created, existing, skipped, failed)" by (cases acc)
  obtain sv1 r where e: "enqueueWorkflowJob env now other (re_Repository event) (re_Installation event) job payload sv = (sv1, r)" by fastforce
  have "serves a sv" using Cons.prems by (simp add: acc)
  moreover from this have "serves a sv1"
    using serves_enqueueWorkflowJob [of other a sv env now "re_Repository event" "re_Installation event" job payload, OF assms] by (simp add: e)
  ultimately show ?case by (auto simp: acc e intro!: Cons.IH split: sum.split)
qed simp

lemma serves_handleGitHubWebhook:
  assumes "\<And>s. serves s (other s)" "serves a x"
  shows "serves a (fst (handleGitHubWebhook cfg env now ex other event signature content x))"
proof -
  have jobs: "serves a (fst (enqueue_jobs env now other e payload js (x, n)))" for e payload js n
    by (rule serves_enqueue_jobs [OF assms(1)]) (simp add: assms(2))
  show ?thesis
    using assms(2) unfolding handleGitHubWebhook_def handleWorkflowRunWebhook_def handle_job_event_def Let_def
    by - (assumption | erule serves_jobs serves_stopRunner fst_serves
        | rule serves_fst_shapes serves_enqueueWorkflowJob [OF assms(1)] jobs)+
qed

lemma serves_retryHistorical:
  assumes "\<And>s. serves s (other s)" "serves a x"
  shows "serves a (fst (retryHistoricalWaitingJob allowed now ex other profiles scoped i x))"
  using assms(2) unfolding retryHistoricalWaitingJob_def Let_def
  by - (assumption | erule serves_elims | rule serves_fst_shapes serves_intros serves_other [OF assms(1)])+

lemma serves_retry: "serves a x \<Longrightarrow> serves a (x \<lparr> sv_requests := fst (RetryRequest i now (sv_requests x)) \<rparr>)"
  by (rule serves_trans, assumption, rule serves_op [of _ "OpRetry i now"]) simp_all

subsection \<open>Runs of the service\<close>

inductive runs :: "server_state \<Rightarrow> server_state \<Rightarrow> bool" where
  runs_idle: "runs s s"
| runs_then: "runs a b \<Longrightarrow> runs b c \<Longrightarrow> runs a c"
| runs_webhook: "(\<And>s. runs s (other s)) \<Longrightarrow> runs s (fst (handleGitHubWebhook cfg wh now ex other event signature content s))"
| runs_start: "(\<And>k s. runs s (other k s)) \<Longrightarrow> runs (rw_server w) (rw_server (startRunner env clock other i workerID w))"
| runs_recover: "(\<And>k s. runs s (other k s)) \<Longrightarrow> runs s (fst (recoverRunner env clock other i s))"
| runs_stdout: "runs s (appendRunnerStdout now i data s)"
| runs_exit: "(\<And>s. runs s (other s)) \<Longrightarrow> runs s (runnerExitedForAttempt cfg now ex other i attempt result err s)"
| runs_stop: "runs s (fst (stopRunner cfg now ex i job source s))"
| runs_retry: "runs s (s \<lparr> sv_requests := fst (RetryRequest i now (sv_requests s)) \<rparr>)"
| runs_historical: "(\<And>s. runs s (other s)) \<Longrightarrow> runs s (fst (retryHistoricalWaitingJob allowed now ex other profiles scoped i s))"
| runs_sweep: "(\<And>s. runs s (other s)) \<Longrightarrow> runs s (sweepOnce cfg now ex other s)"
| runs_reconcile: "(\<And>s. runs s (other s)) \<Longrightarrow> runs s (fst (reconcileOnce cfg workerID now ex other slots ok s))"

lemma runs_serves: "runs s s' \<Longrightarrow> serves s s'"
proof (induction rule: runs.induct)
  case (runs_then a b c) then show ?case using serves_trans by blast
next
  case (runs_webhook other s cfg wh now ex event signature body)
  then show ?case by (intro serves_handleGitHubWebhook) simp_all
next
  case (runs_start other w env clock i workerID)
  then show ?case by (intro serves_startRunner) simp_all
next
  case (runs_recover other s env clock i)
  then show ?case by (intro serves_recoverRunner) simp_all
next
  case (runs_exit other s cfg now ex i attempt result err)
  then show ?case by (intro serves_runnerExited) simp_all
next
  case (runs_stop s cfg now ex i job source)
  then show ?case using serves_stopRunner [OF prod.collapse [symmetric] serves_refl] by blast
next
  case (runs_historical other s allowed now ex profiles scoped i)
  then show ?case by (intro serves_retryHistorical) simp_all
next
  case (runs_sweep other s cfg now ex)
  then show ?case by (intro serves_sweepOnce) simp_all
next
  case (runs_reconcile other s cfg workerID now ex slots ok)
  then show ?case by (intro serves_reconcileOnce) simp_all
qed (auto intro: serves_intros serves_retry)

lemma runs_table_ok: "runs s s' \<Longrightarrow> table_ok (sv_requests s) \<Longrightarrow> table_ok (sv_requests s')"
  using runs_serves table_ok_serves by blast

lemma runs_row:
  assumes "runs s s'" "table_ok (sv_requests s)" "r \<in> set (sv_requests s)"
  shows "\<exists>r'\<in>set (sv_requests s'). row_evolves r r'"
  using run_ops_evolve [OF assms(2,3)] runs_serves [OF assms(1)] by (auto simp: serves_def)

subsection \<open>A failure that comes too late\<close>

text \<open>
  The failure of a Linux start is applied to the request in whatever state it finds it, unless it is
  completed or being stopped. When the request is already running with the sandbox of a newer attempt,
  that sandbox is forgotten: the row no longer names it, and no stop is requested. The starts of
  Windows runners carry the time of their attempt and are ignored then.
\<close>

lemma applyFailure_forgets: "applyFailure cfg now stage err b st = (st', r) \<Longrightarrow> rs_SandboxID st' = [] \<and> rs_ID st' = rs_ID st \<and> rs_Version st' = rs_Version st"
  by (erule applyFailure_cases) (auto simp: requeued_def clearSandboxServiceSnapshot_def clearRunnerEnvironmentSnapshot_def)

theorem late_failure_forgets_sandbox:
  assumes "table_ok (sv_requests sv)" "read_state i sv = Inr st" "rs_Status st = StatusRunning"
  shows "\<exists>st'. read_state i (failStartForAttempt cfg now workerID i st0 stage err None sv) = Inr st' \<and> rs_SandboxID st' = []
    \<and> sv_calls (failStartForAttempt cfg now workerID i st0 stage err None sv) = sv_calls sv"
proof -
  note id = read_state_id [OF assms(1,2)]
  obtain st1 result where f: "applyFailure cfg now stage err True st = (st1, result)" by fastforce
  note keep = applyFailure_forgets [OF f]
  define sv1 where "sv1 = control_log now i (fr_logLine result) sv"
  have same: "sv_requests sv1 = sv_requests sv" "sv_calls sv1 = sv_calls sv" by (simp_all add: sv1_def)
  obtain r where r: "r \<in> set (sv_requests sv)" "rr_ID r = sanitizeID i" "st = recordToState r"
    using assms(1,2) by (auto simp: read_state_def ReadState_iff)
  have "\<exists>tbl. WriteState now st1 (sv_requests sv1) = Inr tbl"
    using r id keep by (auto simp: WriteState_Inr_iff [OF assms(1)] same write_target_def)
  then obtain sv2 where w: "write_state now st1 sv1 = Inr sv2" "sv_calls sv2 = sv_calls sv" by (auto simp: write_state_def same)
  from write_then_columns [of sv1 now st1 sv2 i] obtain r2
    where "read_state i sv2 = Inr (recordToState (write_columns (stamped now st1) r2))" using assms(1) same w id keep by auto
  moreover have "failStartForAttempt cfg now workerID i st0 stage err None sv = (if rs_Status st1 = StatusQueued then signalQueue sv2 else sv2)"
    using assms(2,3) f w by (simp add: failStartForAttempt_def sv1_def)
  ultimately show ?thesis using keep w(2) by (auto simp: read_state_def)
qed

end
