(* ===== verification/DeploymentModel.thy ===== *)
theory DeploymentModel
  imports Sandboxes Applications
begin

text \<open>
  The rows of the deployment tables of \<^verbatim>\<open>internal/state/records.go\<close>, the values the server sees, and the
  conversions and checks of \<^verbatim>\<open>internal/state/deployments.go\<close> and \<^verbatim>\<open>deployment_revisions.go\<close>.

  A deployment is one row with a version; every run of it is a revision, a row of its own that keeps
  the source and the plan; the events of a revision are the third table.
\<close>

subsection \<open>Rows and values\<close>

record Deployment =
  dm_CreateRequestHash :: string
  dm_ExecutionAccountID :: int
  dm_RevisionNumber :: int
  dm_ID :: string
  dm_AccountID :: int
  dm_ScopeType :: string
  dm_ScopeID :: int
  dm_GitHubInstallationID :: int
  dm_RepositoryID :: int
  dm_RepositoryFullName :: string
  dm_Ref :: string
  dm_CommitSHA :: string
  dm_ConfigPath :: string
  dm_SnapshotVersion :: int
  dm_SpecHash :: string
  dm_SpecJSONEncrypted :: string
  dm_Status :: string
  dm_SandboxID :: string
  dm_Attempt :: int
  dm_RuntimeID :: string
  dm_ProcessID :: string
  dm_ProcessTag :: string
  dm_SandboxAPIURL :: string
  dm_SandboxAPIKeyEncrypted :: string
  dm_SandboxConfigSource :: string
  dm_SandboxRegion :: string
  dm_DeploymentTemplateID :: string
  dm_DeploymentTemplateName :: string
  dm_DeploymentTemplateCPU :: int
  dm_DeploymentTemplateMemoryMB :: int
  dm_DeploymentTemplateDiskMB :: int
  dm_Endpoint :: string
  dm_FailureStage :: string
  dm_FailureReason :: string
  dm_Error :: string
  dm_ExpiresAt :: instant
  dm_CreatedAt :: instant
  dm_PlanningAt :: instant
  dm_CreatingAt :: instant
  dm_RunningAt :: instant
  dm_StoppingAt :: instant
  dm_CompletedAt :: instant
  dm_FailedAt :: instant
  dm_UpdatedAt :: instant
  dm_Version :: int
  dm_SourceRepositoryID :: int
  dm_SourceRepositoryFullName :: string
  dm_SourceRef :: string
  dm_PullRequestTitle :: string

record deploymentRecord =
  dr_CreateRequestHash :: string
  dr_ExecutionAccountID :: int
  dr_RevisionNumber :: int
  dr_ID :: string
  dr_AccountID :: int
  dr_ScopeType :: string
  dr_ScopeID :: int
  dr_GitHubInstallationID :: int
  dr_RepositoryID :: int
  dr_RepositoryFullName :: string
  dr_Ref :: string
  dr_CommitSHA :: string
  dr_ConfigPath :: string
  dr_SnapshotVersion :: int
  dr_SpecHash :: string
  dr_SpecJSONEncrypted :: string
  dr_Status :: string
  dr_SandboxID :: string
  dr_Attempt :: int
  dr_RuntimeID :: string
  dr_ProcessID :: string
  dr_ProcessTag :: string
  dr_SandboxAPIURL :: string
  dr_SandboxAPIKeyEncrypted :: string
  dr_SandboxConfigSource :: string
  dr_SandboxRegion :: string
  dr_DeploymentTemplateID :: string
  dr_DeploymentTemplateName :: string
  dr_DeploymentTemplateCPU :: int
  dr_DeploymentTemplateMemoryMB :: int
  dr_DeploymentTemplateDiskMB :: int
  dr_Endpoint :: string
  dr_FailureStage :: string
  dr_FailureReason :: string
  dr_Error :: string
  dr_ExpiresAt :: instant
  dr_CreatedAt :: instant
  dr_PlanningAt :: "instant option"
  dr_CreatingAt :: "instant option"
  dr_RunningAt :: "instant option"
  dr_StoppingAt :: "instant option"
  dr_CompletedAt :: "instant option"
  dr_FailedAt :: "instant option"
  dr_UpdatedAt :: instant
  dr_Version :: int
  dr_SourceRepositoryID :: int
  dr_SourceRepositoryFullName :: string
  dr_SourceRef :: string
  dr_PullRequestTitle :: string

record deploymentRevisionRecord =
  dv_EventCount :: int
  dv_EventBytes :: int
  dv_EventBudgetInitialized :: bool
  dv_ID :: string
  dv_DeploymentID :: string
  dv_Number :: int
  dv_ExecutionAccountID :: int
  dv_SourceRepositoryID :: int
  dv_SourceRepositoryFullName :: string
  dv_SourceRef :: string
  dv_PullRequestTitle :: string
  dv_Ref :: string
  dv_CommitSHA :: string
  dv_ConfigPath :: string
  dv_SnapshotVersion :: int
  dv_SpecHash :: string
  dv_SpecJSONEncrypted :: string
  dv_TemplateID :: string
  dv_TemplateName :: string
  dv_TemplateCPU :: int
  dv_TemplateMemoryMB :: int
  dv_TemplateDiskMB :: int
  dv_Status :: string
  dv_SandboxID :: string
  dv_SandboxRegion :: string
  dv_Endpoint :: string
  dv_FailureStage :: string
  dv_FailureReason :: string
  dv_ExpiresAt :: instant
  dv_RunningAt :: "instant option"
  dv_UpdatedAt :: instant
  dv_CreatedAt :: instant

record deploymentEventRecord =
  dn_RevisionNumber :: int
  dn_ID :: int
  dn_DeploymentID :: string
  dn_Attempt :: int
  dn_EventType :: string
  dn_Stage :: string
  dn_Stream :: string
  dn_Message :: string
  dn_CreatedAt :: instant

type_synonym DeploymentEvent = deploymentEventRecord

definition DeploymentStatusQueued :: string where "DeploymentStatusQueued = ''queued''"
definition DeploymentStatusPlanning :: string where "DeploymentStatusPlanning = ''planning''"
definition DeploymentStatusCreating :: string where "DeploymentStatusCreating = ''creating''"
definition DeploymentStatusRunning :: string where "DeploymentStatusRunning = ''running''"
definition DeploymentStatusStopping :: string where "DeploymentStatusStopping = ''stopping''"
definition DeploymentStatusCompleted :: string where "DeploymentStatusCompleted = ''completed''"
definition DeploymentStatusExpired :: string where "DeploymentStatusExpired = ''expired''"
definition DeploymentStatusFailed :: string where "DeploymentStatusFailed = ''failed''"

lemmas deployment_statuses = DeploymentStatusQueued_def DeploymentStatusPlanning_def DeploymentStatusCreating_def DeploymentStatusRunning_def
  DeploymentStatusStopping_def DeploymentStatusCompleted_def DeploymentStatusExpired_def DeploymentStatusFailed_def

definition active_statuses :: "string list" where
  "active_statuses = [DeploymentStatusQueued, DeploymentStatusPlanning, DeploymentStatusCreating, DeploymentStatusRunning, DeploymentStatusStopping]"

definition terminal_statuses :: "string list" where
  "terminal_statuses = [DeploymentStatusCompleted, DeploymentStatusExpired, DeploymentStatusFailed]"

definition validDeploymentStatus :: "string \<Rightarrow> bool" where
  "validDeploymentStatus status \<longleftrightarrow> status \<in> set active_statuses \<or> status \<in> set terminal_statuses"

subsection \<open>Conversions\<close>

definition deploymentFromRecord :: "deploymentRecord \<Rightarrow> Deployment" where
  "deploymentFromRecord record = \<lparr>
     dm_CreateRequestHash = dr_CreateRequestHash record, dm_ExecutionAccountID = dr_ExecutionAccountID record,
     dm_RevisionNumber = dr_RevisionNumber record, dm_ID = dr_ID record, dm_AccountID = dr_AccountID record,
     dm_ScopeType = dr_ScopeType record, dm_ScopeID = dr_ScopeID record, dm_GitHubInstallationID = dr_GitHubInstallationID record,
     dm_RepositoryID = dr_RepositoryID record, dm_RepositoryFullName = dr_RepositoryFullName record, dm_Ref = dr_Ref record,
     dm_CommitSHA = dr_CommitSHA record, dm_ConfigPath = dr_ConfigPath record, dm_SnapshotVersion = dr_SnapshotVersion record,
     dm_SpecHash = dr_SpecHash record, dm_SpecJSONEncrypted = dr_SpecJSONEncrypted record, dm_Status = dr_Status record,
     dm_SandboxID = dr_SandboxID record, dm_Attempt = dr_Attempt record, dm_RuntimeID = dr_RuntimeID record,
     dm_ProcessID = dr_ProcessID record, dm_ProcessTag = dr_ProcessTag record, dm_SandboxAPIURL = dr_SandboxAPIURL record,
     dm_SandboxAPIKeyEncrypted = dr_SandboxAPIKeyEncrypted record, dm_SandboxConfigSource = dr_SandboxConfigSource record,
     dm_SandboxRegion = dr_SandboxRegion record, dm_DeploymentTemplateID = dr_DeploymentTemplateID record,
     dm_DeploymentTemplateName = dr_DeploymentTemplateName record, dm_DeploymentTemplateCPU = dr_DeploymentTemplateCPU record,
     dm_DeploymentTemplateMemoryMB = dr_DeploymentTemplateMemoryMB record,
     dm_DeploymentTemplateDiskMB = dr_DeploymentTemplateDiskMB record, dm_Endpoint = dr_Endpoint record,
     dm_FailureStage = dr_FailureStage record, dm_FailureReason = dr_FailureReason record, dm_Error = dr_Error record,
     dm_ExpiresAt = dr_ExpiresAt record, dm_CreatedAt = dr_CreatedAt record, dm_PlanningAt = pointerToTime (dr_PlanningAt record),
     dm_CreatingAt = pointerToTime (dr_CreatingAt record), dm_RunningAt = pointerToTime (dr_RunningAt record),
     dm_StoppingAt = pointerToTime (dr_StoppingAt record), dm_CompletedAt = pointerToTime (dr_CompletedAt record),
     dm_FailedAt = pointerToTime (dr_FailedAt record), dm_UpdatedAt = dr_UpdatedAt record, dm_Version = dr_Version record,
     dm_SourceRepositoryID = dr_SourceRepositoryID record, dm_SourceRepositoryFullName = dr_SourceRepositoryFullName record,
     dm_SourceRef = dr_SourceRef record, dm_PullRequestTitle = dr_PullRequestTitle record \<rparr>"

definition deployment_row :: "Deployment \<Rightarrow> deploymentRecord" where
  "deployment_row deployment = \<lparr>
     dr_CreateRequestHash = dm_CreateRequestHash deployment, dr_ExecutionAccountID = dm_ExecutionAccountID deployment,
     dr_RevisionNumber = dm_RevisionNumber deployment, dr_ID = dm_ID deployment, dr_AccountID = dm_AccountID deployment,
     dr_ScopeType = dm_ScopeType deployment, dr_ScopeID = dm_ScopeID deployment,
     dr_GitHubInstallationID = dm_GitHubInstallationID deployment, dr_RepositoryID = dm_RepositoryID deployment,
     dr_RepositoryFullName = dm_RepositoryFullName deployment, dr_Ref = dm_Ref deployment, dr_CommitSHA = dm_CommitSHA deployment,
     dr_ConfigPath = dm_ConfigPath deployment, dr_SnapshotVersion = dm_SnapshotVersion deployment, dr_SpecHash = dm_SpecHash deployment,
     dr_SpecJSONEncrypted = dm_SpecJSONEncrypted deployment, dr_Status = dm_Status deployment, dr_SandboxID = dm_SandboxID deployment,
     dr_Attempt = dm_Attempt deployment, dr_RuntimeID = dm_RuntimeID deployment, dr_ProcessID = dm_ProcessID deployment,
     dr_ProcessTag = dm_ProcessTag deployment, dr_SandboxAPIURL = dm_SandboxAPIURL deployment,
     dr_SandboxAPIKeyEncrypted = dm_SandboxAPIKeyEncrypted deployment, dr_SandboxConfigSource = dm_SandboxConfigSource deployment,
     dr_SandboxRegion = dm_SandboxRegion deployment, dr_DeploymentTemplateID = dm_DeploymentTemplateID deployment,
     dr_DeploymentTemplateName = dm_DeploymentTemplateName deployment, dr_DeploymentTemplateCPU = dm_DeploymentTemplateCPU deployment,
     dr_DeploymentTemplateMemoryMB = dm_DeploymentTemplateMemoryMB deployment,
     dr_DeploymentTemplateDiskMB = dm_DeploymentTemplateDiskMB deployment, dr_Endpoint = dm_Endpoint deployment,
     dr_FailureStage = dm_FailureStage deployment, dr_FailureReason = dm_FailureReason deployment, dr_Error = dm_Error deployment,
     dr_ExpiresAt = dm_ExpiresAt deployment, dr_CreatedAt = dm_CreatedAt deployment, dr_PlanningAt = None, dr_CreatingAt = None,
     dr_RunningAt = None, dr_StoppingAt = None, dr_CompletedAt = None, dr_FailedAt = None, dr_UpdatedAt = dm_UpdatedAt deployment,
     dr_Version = dm_Version deployment, dr_SourceRepositoryID = dm_SourceRepositoryID deployment,
     dr_SourceRepositoryFullName = dm_SourceRepositoryFullName deployment, dr_SourceRef = dm_SourceRef deployment,
     dr_PullRequestTitle = dm_PullRequestTitle deployment \<rparr>"

definition revisionRecordFromDeployment :: "deploymentRecord \<Rightarrow> instant \<Rightarrow> deploymentRevisionRecord" where
  "revisionRecordFromDeployment d created =
     (let number = (if dr_RevisionNumber d < 1 then 1 else dr_RevisionNumber d)
      in \<lparr>
         dv_EventCount = 0, dv_EventBytes = 0, dv_EventBudgetInitialized = False, dv_ID = dr_ID d @ ''-r'' @ int_dec number,
         dv_DeploymentID = dr_ID d, dv_Number = number, dv_ExecutionAccountID = dr_ExecutionAccountID d,
         dv_SourceRepositoryID = dr_SourceRepositoryID d, dv_SourceRepositoryFullName = dr_SourceRepositoryFullName d,
         dv_SourceRef = dr_SourceRef d, dv_PullRequestTitle = dr_PullRequestTitle d, dv_Ref = dr_Ref d, dv_CommitSHA = dr_CommitSHA d,
         dv_ConfigPath = dr_ConfigPath d, dv_SnapshotVersion = dr_SnapshotVersion d, dv_SpecHash = dr_SpecHash d,
         dv_SpecJSONEncrypted = dr_SpecJSONEncrypted d, dv_TemplateID = dr_DeploymentTemplateID d,
         dv_TemplateName = dr_DeploymentTemplateName d, dv_TemplateCPU = dr_DeploymentTemplateCPU d,
         dv_TemplateMemoryMB = dr_DeploymentTemplateMemoryMB d, dv_TemplateDiskMB = dr_DeploymentTemplateDiskMB d, dv_Status = dr_Status d,
         dv_SandboxID = dr_SandboxID d, dv_SandboxRegion = dr_SandboxRegion d, dv_Endpoint = dr_Endpoint d,
         dv_FailureStage = dr_FailureStage d, dv_FailureReason = dr_FailureReason d, dv_ExpiresAt = dr_ExpiresAt d,
         dv_RunningAt = dr_RunningAt d, dv_UpdatedAt = dr_UpdatedAt d, dv_CreatedAt = created \<rparr>)"

record DeploymentRevision =
  de_Deployment :: Deployment
  de_RevisionID :: string

definition revisionFromRecord :: "deploymentRevisionRecord \<Rightarrow> deploymentRecord \<Rightarrow> DeploymentRevision" where
  "revisionFromRecord r d = \<lparr> de_Deployment = \<lparr>
       dm_CreateRequestHash = [], dm_ExecutionAccountID = dv_ExecutionAccountID r, dm_RevisionNumber = dv_Number r, dm_ID = dr_ID d,
       dm_AccountID = dr_AccountID d, dm_ScopeType = dr_ScopeType d, dm_ScopeID = dr_ScopeID d,
       dm_GitHubInstallationID = dr_GitHubInstallationID d, dm_RepositoryID = dr_RepositoryID d,
       dm_RepositoryFullName = dr_RepositoryFullName d, dm_Ref = dv_Ref r, dm_CommitSHA = dv_CommitSHA r, dm_ConfigPath = dv_ConfigPath r,
       dm_SnapshotVersion = dv_SnapshotVersion r, dm_SpecHash = dv_SpecHash r, dm_SpecJSONEncrypted = dv_SpecJSONEncrypted r,
       dm_Status = dv_Status r, dm_SandboxID = dv_SandboxID r, dm_Attempt = 0, dm_RuntimeID = [], dm_ProcessID = [], dm_ProcessTag = [],
       dm_SandboxAPIURL = [], dm_SandboxAPIKeyEncrypted = [], dm_SandboxConfigSource = [], dm_SandboxRegion = dv_SandboxRegion r,
       dm_DeploymentTemplateID = dv_TemplateID r, dm_DeploymentTemplateName = dv_TemplateName r,
       dm_DeploymentTemplateCPU = dv_TemplateCPU r, dm_DeploymentTemplateMemoryMB = dv_TemplateMemoryMB r,
       dm_DeploymentTemplateDiskMB = dv_TemplateDiskMB r, dm_Endpoint = dv_Endpoint r, dm_FailureStage = dv_FailureStage r,
       dm_FailureReason = dv_FailureReason r, dm_Error = [], dm_ExpiresAt = dv_ExpiresAt r, dm_CreatedAt = dv_CreatedAt r,
       dm_PlanningAt = zero_time, dm_CreatingAt = zero_time, dm_RunningAt = pointerToTime (dv_RunningAt r), dm_StoppingAt = zero_time,
       dm_CompletedAt = zero_time, dm_FailedAt = zero_time, dm_UpdatedAt = dv_UpdatedAt r, dm_Version = 0,
       dm_SourceRepositoryID = dv_SourceRepositoryID r, dm_SourceRepositoryFullName = dv_SourceRepositoryFullName r,
       dm_SourceRef = dv_SourceRef r, dm_PullRequestTitle = dv_PullRequestTitle r \<rparr>,
     de_RevisionID = dv_ID r \<rparr>"

subsection \<open>Checks\<close>

text \<open>
  \<open>unicode.IsControl\<close> over the runes of a byte string: the bytes below the space, the delete byte, and the
  two bytes of the runes from U+0080 to U+009F. The lead byte of those is never inside another rune.
\<close>

fun has_control :: "string \<Rightarrow> bool" where
  "has_control [] = False"
| "has_control (c # s) =
     ((of_char c :: nat) < 32 \<or> (of_char c :: nat) = 127
      \<or> ((of_char c :: nat) = 194 \<and> s \<noteq> [] \<and> 128 \<le> (of_char (hd s) :: nat) \<and> (of_char (hd s) :: nat) < 160)
      \<or> has_control s)"

text \<open>The pattern \<^verbatim>\<open>^[^/\s]+/[^/\s]+$\<close>, and that of the head of a pull request.\<close>

definition regexp_space :: "char \<Rightarrow> bool" where
  "regexp_space c \<longleftrightarrow> (of_char c :: nat) \<in> {9, 10, 12, 13, 32}"

definition deploymentRepositoryPattern :: "string \<Rightarrow> bool" where
  "deploymentRepositoryPattern s =
     (case Split (CHR ''/'') s of [a, b] \<Rightarrow> a \<noteq> [] \<and> b \<noteq> [] \<and> \<not> list_ex regexp_space s | _ \<Rightarrow> False)"

definition deploymentPullRefPattern :: "string \<Rightarrow> bool" where
  "deploymentPullRefPattern s =
     (let rest = drop 10 s; digits = takeWhile is_digit rest
      in HasPrefix s ''refs/pull/'' \<and> digits \<noteq> [] \<and> hd digits \<noteq> CHR ''0'' \<and> drop (length digits) rest = ''/head'')"

text \<open>\<open>path.Clean\<close>: the components from the right to the left on a stack.\<close>

definition clean_step :: "bool \<Rightarrow> string \<Rightarrow> string list \<Rightarrow> string list" where
  "clean_step rooted c stack =
     (if c = [] \<or> c = ''.'' then stack
      else if c = ''..'' then
        (case stack of
           [] \<Rightarrow> if rooted then [] else [''..'']
         | x # xs \<Rightarrow> if x = ''..'' then ''..'' # stack else xs)
      else c # stack)"

definition path_Clean :: "string \<Rightarrow> string" where
  "path_Clean p =
     (let rooted = (p \<noteq> [] \<and> hd p = CHR ''/''); out = Join (rev (fold (clean_step rooted) (Split (CHR ''/'') p) [])) ''/''
      in if rooted then CHR ''/'' # out else if out = [] then ''.'' else out)"

definition validDeploymentCommit :: "string \<Rightarrow> bool" where
  "validDeploymentCommit value0 =
     (let value = TrimSpace value0
      in (length value = 40 \<or> length value = 64) \<and> (case hex_decode value of None \<Rightarrow> False | Some d \<Rightarrow> d \<noteq> []) \<and> value = ToLower value)"

definition valid_config_path :: "string \<Rightarrow> bool" where
  "valid_config_path p \<longleftrightarrow> p \<noteq> ''.'' \<and> length p \<le> 1024 \<and> \<not> has_control p \<and> \<not> HasPrefix p ''/'' \<and> \<not> HasPrefix p ''../'' \<and> p \<noteq> ''..''
     \<and> CHR 0x5C \<notin> set p"

definition normalizeDeployment :: "Deployment \<Rightarrow> Deployment result" where
  "normalizeDeployment d0 =
     (let d = d0 \<lparr> dm_ID := TrimSpace (dm_ID d0) \<rparr>
      in if dm_ID d = [] \<or> length (dm_ID d) > 128 \<or> has_control (dm_ID d) then Inl (Errorf ''deployment id is invalid'')
         else if dm_AccountID d \<le> 0 \<or> dm_ScopeID d \<le> 0 \<or> dm_GitHubInstallationID d \<le> 0 \<or> dm_RepositoryID d \<le> 0
         then Inl (Errorf ''deployment ownership is invalid'')
         else let d = d \<lparr> dm_ScopeType := TrimSpace (dm_ScopeType d) \<rparr>
      in if dm_ScopeType d \<noteq> AccountScopeTypeAccount \<and> dm_ScopeType d \<noteq> AccountScopeTypeGitHubInstall
         then Inl (Errorf ''deployment scope is invalid'')
         else let d = d \<lparr> dm_RepositoryFullName := TrimSpace (dm_RepositoryFullName d) \<rparr>
      in if \<not> deploymentRepositoryPattern (dm_RepositoryFullName d) \<or> has_control (dm_RepositoryFullName d)
         then Inl (Errorf ''deployment repository is invalid'')
         else let d = d \<lparr> dm_Ref := TrimSpace (dm_Ref d) \<rparr>
      in if dm_Ref d = [] \<or> length (dm_Ref d) > 256 \<or> has_control (dm_Ref d) then Inl (Errorf ''deployment ref is invalid'')
         else let d = d \<lparr> dm_CommitSHA := TrimSpace (dm_CommitSHA d) \<rparr>
      in if \<not> validDeploymentCommit (dm_CommitSHA d) then Inl (Errorf ''deployment commit is invalid'')
         else let d = d \<lparr> dm_ConfigPath := path_Clean (TrimSpace (dm_ConfigPath d)) \<rparr>
      in if \<not> valid_config_path (dm_ConfigPath d) then Inl (Errorf ''deployment config path is invalid'')
         else if dm_SnapshotVersion d \<le> 0 \<or> TrimSpace (dm_SpecHash d) = [] \<or> TrimSpace (dm_SpecJSONEncrypted d) = []
         then Inl (Errorf ''deployment plan evidence is incomplete'')
         else if \<not> validDeploymentStatus (dm_Status d) \<and> dm_Status d \<noteq> [] then Inl (Errorf ''deployment status is invalid'')
         else let d = d \<lparr> dm_DeploymentTemplateName := TrimSpace (dm_DeploymentTemplateName d) \<rparr>
      in if length (dm_DeploymentTemplateName d) > 256 \<or> has_control (dm_DeploymentTemplateName d)
         then Inl (Errorf ''deployment template name is invalid'')
         else if IsZero (dm_ExpiresAt d) then Inl (Errorf ''deployment expiry is required'')
         else Inr d)"

definition set_time :: "instant \<Rightarrow> instant option \<Rightarrow> instant option" where
  "set_time now t = (case t of None \<Rightarrow> Some now | Some u \<Rightarrow> Some u)"

definition applyDeploymentTimestamps :: "deploymentRecord \<Rightarrow> instant \<Rightarrow> deploymentRecord" where
  "applyDeploymentTimestamps r now =
     (if dr_Status r = DeploymentStatusPlanning then r \<lparr> dr_PlanningAt := set_time now (dr_PlanningAt r) \<rparr>
      else if dr_Status r = DeploymentStatusCreating
      then r \<lparr> dr_PlanningAt := set_time now (dr_PlanningAt r), dr_CreatingAt := set_time now (dr_CreatingAt r) \<rparr>
      else if dr_Status r = DeploymentStatusRunning
      then r \<lparr> dr_PlanningAt := set_time now (dr_PlanningAt r), dr_CreatingAt := set_time now (dr_CreatingAt r),
               dr_RunningAt := set_time now (dr_RunningAt r) \<rparr>
      else if dr_Status r = DeploymentStatusStopping then r \<lparr> dr_StoppingAt := set_time now (dr_StoppingAt r) \<rparr>
      else if dr_Status r = DeploymentStatusCompleted \<or> dr_Status r = DeploymentStatusExpired
      then r \<lparr> dr_CompletedAt := set_time now (dr_CompletedAt r) \<rparr>
      else if dr_Status r = DeploymentStatusFailed then r \<lparr> dr_FailedAt := set_time now (dr_FailedAt r) \<rparr>
      else r)"

subsection \<open>The configuration file stays inside the repository\<close>

definition clean_stack :: "string list \<Rightarrow> bool" where
  "clean_stack stack \<longleftrightarrow> (\<forall>c\<in>set stack. c \<noteq> [] \<and> c \<noteq> ''.'' \<and> CHR ''/'' \<notin> set c)
     \<and> (\<exists>names ups. stack = names @ replicate ups ''..'' \<and> ''..'' \<notin> set names)"

lemma clean_step_stack:
  assumes "clean_stack stack" "CHR ''/'' \<notin> set c"
  shows "clean_stack (clean_step False c stack)"
proof -
  obtain names ups where stack: "stack = names @ replicate ups ''..''" "''..'' \<notin> set names" using assms(1) by (auto simp: clean_stack_def)
  show ?thesis
  proof (cases "c = ''..''")
    case True
    show ?thesis
    proof (cases names)
      case Nil
      then have "clean_step False c stack = [] @ replicate (Suc ups) ''..''" using stack True by (cases ups) (auto simp: clean_step_def)
      then show ?thesis by (auto simp: clean_stack_def simp del: append_Nil replicate_Suc dest: in_set_replicate [THEN iffD1])
    next
      case (Cons x names')
      then have "clean_step False c stack = names' @ replicate ups ''..''" using stack True by (auto simp: clean_step_def)
      then show ?thesis using assms(1) stack Cons by (auto simp: clean_stack_def)
    qed
  next
    case False
    then have "clean_step False c stack = stack \<or> (clean_step False c stack = (c # names) @ replicate ups ''..'' \<and> c \<noteq> [] \<and> c \<noteq> ''.'')"
      using stack(1) by (auto simp: clean_step_def)
    then show ?thesis
    proof
      assume "clean_step False c stack = (c # names) @ replicate ups ''..'' \<and> c \<noteq> [] \<and> c \<noteq> ''.''"
      then show ?thesis using assms stack False unfolding clean_stack_def by (metis append_Cons insert_iff list.simps(15) set_ConsD)
    qed (use assms(1) in simp)
  qed
qed

lemma clean_fold_stack: "list_all (\<lambda>c. CHR ''/'' \<notin> set c) cs \<Longrightarrow> clean_stack stack \<Longrightarrow> clean_stack (fold (clean_step False) cs stack)"
  by (induction cs arbitrary: stack) (auto simp: clean_step_stack)

text \<open>A relative path that does not lead out of its directory is made of names only.\<close>

lemma valid_config_path_components:
  assumes "valid_config_path (path_Clean p)"
  shows "list_all (\<lambda>c. c \<noteq> [] \<and> c \<noteq> ''.'' \<and> c \<noteq> ''..'') (Split (CHR ''/'') (path_Clean p))"
proof -
  define stack where "stack = fold (clean_step False) (Split (CHR ''/'') p) []"
  have relative: "\<not> (p \<noteq> [] \<and> hd p = CHR ''/'')"
    using assms by (auto simp: valid_config_path_def path_Clean_def Let_def HasPrefix_def)
  have path: "path_Clean p = (if Join (rev stack) ''/'' = [] then ''.'' else Join (rev stack) ''/'')"
    using relative by (auto simp: path_Clean_def stack_def Let_def)
  have "clean_stack stack" unfolding stack_def
    by (rule clean_fold_stack) (use Split_no_sep in \<open>auto simp: list_all_iff clean_stack_def\<close>)
  then obtain names ups where stack: "stack = names @ replicate ups ''..''" "''..'' \<notin> set names"
    "\<forall>c\<in>set stack. c \<noteq> [] \<and> c \<noteq> ''.'' \<and> CHR ''/'' \<notin> set c" by (auto simp: clean_stack_def)
  have "ups = 0"
  proof (rule ccontr)
    assume "ups \<noteq> 0"
    then have "rev stack = ''..'' # (replicate (ups - 1) ''..'' @ rev names)" using stack(1) by (cases ups) (auto simp: replicate_append_same)
    then have "path_Clean p = ''..'' \<or> HasPrefix (path_Clean p) ''../''"
      by (cases "replicate (ups - 1) ''..'' @ rev names") (auto simp: path HasPrefix_def)
    then show False using assms by (auto simp: valid_config_path_def)
  qed
  moreover have "stack \<noteq> []" using assms by (auto simp: path valid_config_path_def)
  ultimately have names: "rev stack = rev names" "rev names \<noteq> []" using stack(1) by auto
  have "Join ws ''/'' \<noteq> []" if "ws \<noteq> []" "\<forall>w\<in>set ws. w \<noteq> []" for ws using that by (induction ws "''/''" rule: Join.induct) auto
  then have "Join (rev stack) ''/'' \<noteq> []" using names stack(3) by (metis set_rev)
  then have "Split (CHR ''/'') (path_Clean p) = rev names"
    using Split_Join [of "rev names" "CHR ''/''"] names stack(1,3) by (simp add: path list_all_iff)
  then show ?thesis using stack names by (auto simp: list_all_iff)
qed

end
