(* ===== verification/Deployments.thy ===== *)
theory Deployments
  imports DeploymentModel
begin

text \<open>
  The deployment tables of \<^verbatim>\<open>internal/state/deployments.go\<close> and \<^verbatim>\<open>deployment_revisions.go\<close>: admission under the
  limit of a scope, conditional updates, retries as new revisions, retention, and the bounded
  timeline of events. A transaction is one function; when it fails the tables are as before. A query
  that is made outside of the transaction that uses it is separated from it by \<open>other\<close>.
\<close>

record deployment_db =
  dp_deployments :: "deploymentRecord list"
  dp_revisions :: "deploymentRevisionRecord list"
  dp_events :: "deploymentEventRecord list"

subsection \<open>Admission\<close>

definition fill_defaults :: "instant \<Rightarrow> Deployment \<Rightarrow> Deployment" where
  "fill_defaults now d0 =
     (let d1 = (if IsZero (dm_CreatedAt d0) then d0 \<lparr> dm_CreatedAt := now \<rparr> else d0);
          d2 = (if IsZero (dm_UpdatedAt d1) then d1 \<lparr> dm_UpdatedAt := dm_CreatedAt d1 \<rparr> else d1)
      in if dm_Status d2 = [] then d2 \<lparr> dm_Status := DeploymentStatusQueued \<rparr> else d2)"

definition createDeployment :: "instant \<Rightarrow> Deployment \<Rightarrow> deployment_db \<Rightarrow> error + deployment_db \<times> Deployment" where
  "createDeployment now deployment0 db =
     (case normalizeDeployment (deployment0 \<lparr> dm_RevisionNumber := 1 \<rparr>) of
        Inl e \<Rightarrow> Inl e
      | Inr d \<Rightarrow>
          let record = applyDeploymentTimestamps (deployment_row (fill_defaults now d)) now;
              revision = revisionRecordFromDeployment record (dr_CreatedAt record)
          in if list_ex (\<lambda>r. dr_ID r = dr_ID record) (dp_deployments db) then Inl (Errorf ''duplicate deployment'')
             else if list_ex (\<lambda>v. dv_ID v = dv_ID revision \<or> (dv_DeploymentID v = dv_DeploymentID revision \<and> dv_Number v = dv_Number revision))
                       (dp_revisions db) then Inl (Errorf ''duplicate revision'')
             else Inr (db \<lparr> dp_deployments := dp_deployments db @ [record], dp_revisions := dp_revisions db @ [revision] \<rparr>,
                       deploymentFromRecord record))"

definition CreateDeployment :: "instant \<Rightarrow> Deployment \<Rightarrow> deployment_db \<Rightarrow> error + deployment_db \<times> Deployment" where
  "CreateDeployment now deployment db = createDeployment now deployment db"

definition lockDeploymentScope :: "accountRecord list \<Rightarrow> githubInstallationRecord list \<Rightarrow> Deployment \<Rightarrow> unit result" where
  "lockDeploymentScope accounts installations d =
     (if dm_ScopeType d = AccountScopeTypeAccount
      then (if list_ex (\<lambda>a. ac_ID a = dm_ScopeID d) accounts then Inr () else Inl ErrNotFound)
      else if dm_ScopeType d = AccountScopeTypeGitHubInstall
      then (if list_ex (\<lambda>g. gi_InstallationID g = dm_ScopeID d) installations then Inr () else Inl ErrNotFound)
      else Inl (Errorf ''invalid deployment scope''))"

text \<open>A deployment takes a place of its scope while it is active, and after a failure as long as a sandbox of it is left.\<close>

definition occupies :: "string \<Rightarrow> int \<Rightarrow> deploymentRecord \<Rightarrow> bool" where
  "occupies scopeType scopeID r \<longleftrightarrow> dr_ScopeType r = scopeType \<and> dr_ScopeID r = scopeID
     \<and> (dr_Status r \<in> set active_statuses \<or> (dr_Status r = DeploymentStatusFailed \<and> dr_SandboxID r \<noteq> []))"

definition scope_limit :: "int \<Rightarrow> int" where
  "scope_limit maxConcurrent = (if maxConcurrent < 1 then 3 else maxConcurrent)"

definition checkDeploymentQuota ::
  "accountRecord list \<Rightarrow> githubInstallationRecord list \<Rightarrow> Deployment \<Rightarrow> int \<Rightarrow> string \<Rightarrow> deployment_db \<Rightarrow> unit result" where
  "checkDeploymentQuota accounts installations d maxConcurrent excludeID db =
     (case lockDeploymentScope accounts installations d of
        Inl e \<Rightarrow> Inl e
      | Inr _ \<Rightarrow>
          let active = take (nat (scope_limit maxConcurrent))
                (filter (\<lambda>r. occupies (dm_ScopeType d) (dm_ScopeID d) r \<and> (excludeID = [] \<or> dr_ID r \<noteq> excludeID)) (dp_deployments db))
          in if int (length active) \<ge> scope_limit maxConcurrent then Inl ErrDeploymentQuotaExceeded else Inr ())"

definition CreateDeploymentWithScopeLimit ::
  "accountRecord list \<Rightarrow> githubInstallationRecord list \<Rightarrow> instant \<Rightarrow> Deployment \<Rightarrow> int \<Rightarrow> deployment_db \<Rightarrow> error + deployment_db \<times> Deployment" where
  "CreateDeploymentWithScopeLimit accounts installations now d maxConcurrent db =
     (case checkDeploymentQuota accounts installations d maxConcurrent [] db of
        Inl e \<Rightarrow> Inl e
      | Inr _ \<Rightarrow> createDeployment now d db)"

definition GetDeployment :: "string \<Rightarrow> deployment_db \<Rightarrow> Deployment result" where
  "GetDeployment i db =
     (case lookup_by dr_ID (TrimSpace i) (dp_deployments db) of None \<Rightarrow> Inl ErrNotFound | Some r \<Rightarrow> Inr (deploymentFromRecord r))"

text \<open>The title of the pull request, for rows from before it was kept.\<close>

definition FillDeploymentPullRequestTitle :: "string \<Rightarrow> string \<Rightarrow> string \<Rightarrow> deployment_db \<Rightarrow> error + deployment_db" where
  "FillDeploymentPullRequestTitle i0 ref0 title0 db =
     (let i = TrimSpace i0; ref = TrimSpace ref0; title = TrimSpace title0
      in if i = [] \<or> \<not> deploymentPullRefPattern ref \<or> title = [] \<or> length title > 1024 \<or> has_control title
         then Inl (Errorf ''deployment pull request title is invalid'')
         else Inr (db \<lparr>
           dp_deployments := update_where (\<lambda>r. dr_ID r = i \<and> dr_Ref r = ref \<and> dr_PullRequestTitle r = [])
             (\<lambda>r. r \<lparr> dr_PullRequestTitle := title \<rparr>) (dp_deployments db),
           dp_revisions := update_where (\<lambda>v. dv_DeploymentID v = i \<and> dv_Ref v = ref \<and> dv_PullRequestTitle v = [])
             (\<lambda>v. v \<lparr> dv_PullRequestTitle := title \<rparr>) (dp_revisions db) \<rparr>))"

subsection \<open>Updates and retries\<close>

definition updateCurrentDeploymentRevision :: "deploymentRecord \<Rightarrow> deploymentRevisionRecord list \<Rightarrow> error + deploymentRevisionRecord list" where
  "updateCurrentDeploymentRevision d revisions =
     (let number = (if dr_RevisionNumber d < 1 then 1 else dr_RevisionNumber d);
          P = (\<lambda>v. dv_DeploymentID v = dr_ID d \<and> dv_Number v = number)
      in if \<not> list_ex P revisions then Inl ErrConflict
         else Inr (update_where P (\<lambda>v. v \<lparr>
           dv_Status := dr_Status d, dv_SandboxRegion := dr_SandboxRegion d, dv_TemplateID := dr_DeploymentTemplateID d,
           dv_TemplateName := dr_DeploymentTemplateName d, dv_TemplateCPU := dr_DeploymentTemplateCPU d,
           dv_TemplateMemoryMB := dr_DeploymentTemplateMemoryMB d, dv_TemplateDiskMB := dr_DeploymentTemplateDiskMB d,
           dv_Endpoint := dr_Endpoint d, dv_FailureStage := dr_FailureStage d, dv_FailureReason := dr_FailureReason d,
           dv_ExpiresAt := dr_ExpiresAt d, dv_RunningAt := dr_RunningAt d, dv_UpdatedAt := dr_UpdatedAt d,
           dv_SandboxID := (if dr_SandboxID d \<noteq> [] then dr_SandboxID d else dv_SandboxID v) \<rparr>) revisions))"

text \<open>The columns that an update writes, with the timestamps of the new status.\<close>

definition update_columns :: "instant \<Rightarrow> Deployment \<Rightarrow> deploymentRecord \<Rightarrow> deploymentRecord" where
  "update_columns now d r =
     (let times = applyDeploymentTimestamps (r \<lparr> dr_Status := dm_Status d, dr_PlanningAt := zeroTimeToPointer (dm_PlanningAt d),
            dr_CreatingAt := zeroTimeToPointer (dm_CreatingAt d), dr_RunningAt := zeroTimeToPointer (dm_RunningAt d),
            dr_StoppingAt := zeroTimeToPointer (dm_StoppingAt d), dr_CompletedAt := zeroTimeToPointer (dm_CompletedAt d),
            dr_FailedAt := zeroTimeToPointer (dm_FailedAt d) \<rparr>) now
      in r \<lparr> dr_Status := dm_Status d, dr_SandboxID := TrimSpace (dm_SandboxID d), dr_Attempt := dm_Attempt d,
             dr_RuntimeID := TrimSpace (dm_RuntimeID d), dr_ProcessID := TrimSpace (dm_ProcessID d), dr_ProcessTag := TrimSpace (dm_ProcessTag d),
             dr_SandboxAPIURL := TrimSpace (dm_SandboxAPIURL d), dr_SandboxAPIKeyEncrypted := TrimSpace (dm_SandboxAPIKeyEncrypted d),
             dr_SandboxConfigSource := TrimSpace (dm_SandboxConfigSource d), dr_SandboxRegion := TrimSpace (dm_SandboxRegion d),
             dr_DeploymentTemplateID := TrimSpace (dm_DeploymentTemplateID d), dr_DeploymentTemplateName := TrimSpace (dm_DeploymentTemplateName d),
             dr_DeploymentTemplateCPU := dm_DeploymentTemplateCPU d, dr_DeploymentTemplateMemoryMB := dm_DeploymentTemplateMemoryMB d,
             dr_DeploymentTemplateDiskMB := dm_DeploymentTemplateDiskMB d, dr_Endpoint := TrimSpace (dm_Endpoint d),
             dr_FailureStage := TrimSpace (dm_FailureStage d), dr_FailureReason := TrimSpace (dm_FailureReason d), dr_Error := dm_Error d,
             dr_ExpiresAt := dm_ExpiresAt d, dr_PlanningAt := dr_PlanningAt times, dr_CreatingAt := dr_CreatingAt times,
             dr_RunningAt := dr_RunningAt times, dr_StoppingAt := dr_StoppingAt times, dr_CompletedAt := dr_CompletedAt times,
             dr_FailedAt := dr_FailedAt times, dr_UpdatedAt := now, dr_Version := dm_Version d + 1 \<rparr>)"

text \<open>The transaction of an update: the row at its version, and the revision that is current.\<close>

definition update_transaction :: "instant \<Rightarrow> Deployment \<Rightarrow> deployment_db \<Rightarrow> error + deployment_db" where
  "update_transaction now d db =
     (let P = (\<lambda>r. dr_ID r = dm_ID d \<and> dr_Version r = dm_Version d);
          rows = update_where P (update_columns now d) (dp_deployments db)
      in if \<not> list_ex P (dp_deployments db) then Inl ErrConflict
         else case lookup_by dr_ID (dm_ID d) rows of
           None \<Rightarrow> Inl ErrRecordNotFound
         | Some saved \<Rightarrow>
             (case updateCurrentDeploymentRevision saved (dp_revisions db) of
                Inl e \<Rightarrow> Inl e
              | Inr revisions \<Rightarrow> Inr (db \<lparr> dp_deployments := rows, dp_revisions := revisions \<rparr>)))"

definition UpdateDeployment :: "instant \<Rightarrow> Deployment \<Rightarrow> deployment_db \<Rightarrow> error + deployment_db" where
  "UpdateDeployment now deployment db =
     (case normalizeDeployment deployment of
        Inl e \<Rightarrow> Inl e
      | Inr d \<Rightarrow>
          if dm_Status d = [] then Inl (Errorf ''deployment status is required'')
          else if dm_Version d < 0 then Inl ErrConflict
          else update_transaction now d db)"

definition retry_deployment_columns :: "instant \<Rightarrow> Deployment \<Rightarrow> instant \<Rightarrow> deploymentRecord \<Rightarrow> deploymentRecord" where
  "retry_deployment_columns now d expiresAt r = r \<lparr>
     dr_ExecutionAccountID := dm_ExecutionAccountID d, dr_RevisionNumber := dr_RevisionNumber r + 1,
     dr_SourceRepositoryID := dm_SourceRepositoryID d, dr_SourceRepositoryFullName := dm_SourceRepositoryFullName d,
     dr_SourceRef := dm_SourceRef d, dr_PullRequestTitle := dm_PullRequestTitle d, dr_Ref := dm_Ref d, dr_CommitSHA := dm_CommitSHA d,
     dr_ConfigPath := dm_ConfigPath d, dr_SnapshotVersion := dm_SnapshotVersion d, dr_SpecHash := dm_SpecHash d,
     dr_SpecJSONEncrypted := dm_SpecJSONEncrypted d, dr_DeploymentTemplateID := dm_DeploymentTemplateID d,
     dr_DeploymentTemplateName := dm_DeploymentTemplateName d, dr_DeploymentTemplateCPU := dm_DeploymentTemplateCPU d,
     dr_DeploymentTemplateMemoryMB := dm_DeploymentTemplateMemoryMB d, dr_DeploymentTemplateDiskMB := dm_DeploymentTemplateDiskMB d,
     dr_SandboxAPIURL := dm_SandboxAPIURL d, dr_SandboxAPIKeyEncrypted := dm_SandboxAPIKeyEncrypted d,
     dr_SandboxConfigSource := dm_SandboxConfigSource d, dr_SandboxRegion := dm_SandboxRegion d, dr_Status := DeploymentStatusQueued,
     dr_SandboxID := [], dr_RuntimeID := [], dr_ProcessID := [], dr_ProcessTag := [], dr_Endpoint := [], dr_FailureStage := [],
     dr_FailureReason := [], dr_Error := [], dr_ExpiresAt := expiresAt, dr_PlanningAt := None, dr_CreatingAt := None, dr_RunningAt := None,
     dr_StoppingAt := None, dr_CompletedAt := None, dr_FailedAt := None, dr_UpdatedAt := now, dr_Version := dm_Version d + 1 \<rparr>"

definition retryDeployment :: "instant \<Rightarrow> Deployment \<Rightarrow> instant \<Rightarrow> deployment_db \<Rightarrow> error + deployment_db" where
  "retryDeployment now d expiresAt0 db =
     (if dm_Status d \<notin> set terminal_statuses then Inl ErrRetryNotAllowed
      else if TrimSpace (dm_SandboxID d) \<noteq> [] \<or> TrimSpace (dm_RuntimeID d) \<noteq> [] \<or> TrimSpace (dm_ProcessID d) \<noteq> [] \<or> TrimSpace (dm_ProcessTag d) \<noteq> []
      then Inl ErrConflict
      else if \<not> IsZero (dm_ExpiresAt d) \<and> IsZero expiresAt0 then Inl (Errorf ''deployment expiry is required'')
      else
        let expiresAt = (if IsZero expiresAt0 then now + 60 * Minute else expiresAt0);
            P = (\<lambda>r. dr_ID r = dm_ID d \<and> dr_Version r = dm_Version d \<and> dr_Status r \<in> set terminal_statuses);
            rows = update_where P (retry_deployment_columns now d expiresAt) (dp_deployments db)
        in if \<not> list_ex P (dp_deployments db) then Inl ErrConflict
           else case lookup_by dr_ID (dm_ID d) rows of
             None \<Rightarrow> Inl ErrRecordNotFound
           | Some saved \<Rightarrow>
               let revision = (revisionRecordFromDeployment saved now) \<lparr> dv_SandboxID := [], dv_Endpoint := [] \<rparr>
               in if list_ex (\<lambda>v. dv_ID v = dv_ID revision \<or> (dv_DeploymentID v = dv_DeploymentID revision \<and> dv_Number v = dv_Number revision))
                       (dp_revisions db) then Inl (Errorf ''duplicate revision'')
                  else Inr (db \<lparr> dp_deployments := rows, dp_revisions := dp_revisions db @ [revision] \<rparr>))"

definition RetryDeployment :: "instant \<Rightarrow> Deployment \<Rightarrow> instant \<Rightarrow> deployment_db \<Rightarrow> error + deployment_db" where
  "RetryDeployment now d expiresAt db = retryDeployment now d expiresAt db"

definition RetryDeploymentWithScopeLimit ::
  "accountRecord list \<Rightarrow> githubInstallationRecord list \<Rightarrow> instant \<Rightarrow> Deployment \<Rightarrow> instant \<Rightarrow> int \<Rightarrow> deployment_db \<Rightarrow> error + deployment_db" where
  "RetryDeploymentWithScopeLimit accounts installations now d expiresAt maxConcurrent db =
     (case checkDeploymentQuota accounts installations d maxConcurrent (dm_ID d) db of
        Inl e \<Rightarrow> Inl e
      | Inr _ \<Rightarrow> retryDeployment now d expiresAt db)"

subsection \<open>Retention\<close>

definition prunable :: "instant \<Rightarrow> deploymentRecord \<Rightarrow> bool" where
  "prunable before r \<longleftrightarrow> dr_Status r \<in> set terminal_statuses \<and> dr_SandboxID r = [] \<and> dr_UpdatedAt r < before"

definition prune_one :: "instant \<Rightarrow> deploymentRecord \<Rightarrow> deployment_db \<times> int \<Rightarrow> deployment_db \<times> int" where
  "prune_one before record acc =
     (case acc of (db, pruned) \<Rightarrow>
        let P = (\<lambda>r. dr_ID r = dr_ID record \<and> dr_Version r = dr_Version record \<and> prunable before r)
        in if \<not> list_ex P (dp_deployments db) then (db, pruned)
           else (db \<lparr> dp_deployments := delete_where P (dp_deployments db),
                      dp_events := delete_where (\<lambda>e. dn_DeploymentID e = dr_ID record) (dp_events db),
                      dp_revisions := delete_where (\<lambda>v. dv_DeploymentID v = dr_ID record) (dp_revisions db) \<rparr>, pruned + 1))"

definition prune_candidates :: "instant \<Rightarrow> int \<Rightarrow> deployment_db \<Rightarrow> deploymentRecord list" where
  "prune_candidates before limit0 db =
     (let limit = (if limit0 \<le> 0 then 100 else if limit0 > 1000 then 1000 else limit0)
      in take (nat limit) (sort_key dr_UpdatedAt (sort_key dr_ID (filter (prunable before) (dp_deployments db)))))"

definition PruneDeployments :: "(deployment_db \<Rightarrow> deployment_db) \<Rightarrow> instant \<Rightarrow> int \<Rightarrow> deployment_db \<Rightarrow> deployment_db \<times> int result" where
  "PruneDeployments other before limit db =
     (if IsZero before then (db, Inl (Errorf ''deployment retention cutoff is required''))
      else if prune_candidates before limit db = [] then (db, Inr 0)
      else case fold (prune_one before) (prune_candidates before limit db) (other db, 0) of (db1, pruned) \<Rightarrow> (db1, Inr pruned))"

subsection \<open>The timeline\<close>

definition maxDeploymentEventMessage :: nat where "maxDeploymentEventMessage = 65536"
definition maxDeploymentEvents :: int where "maxDeploymentEvents = 2000"
definition maxDeploymentEventBytes :: int where "maxDeploymentEventBytes = 8388608"

definition of_revision :: "string \<Rightarrow> int \<Rightarrow> deploymentEventRecord \<Rightarrow> bool" where
  "of_revision i number e \<longleftrightarrow> dn_DeploymentID e = i \<and> dn_RevisionNumber e = number"

definition event_bytes :: "deploymentEventRecord \<Rightarrow> int" where
  "event_bytes e = int (length (dn_Message e))"

definition over_budget :: "int \<Rightarrow> int \<Rightarrow> int \<Rightarrow> bool" where
  "over_budget len count bytes \<longleftrightarrow> count \<ge> maxDeploymentEvents \<or> bytes + len > maxDeploymentEventBytes"

text \<open>The inner loop: the oldest events that have to go, with what is left of the budget.\<close>

fun evict_batch :: "int \<Rightarrow> deploymentEventRecord list \<Rightarrow> int \<Rightarrow> int \<Rightarrow> int list \<times> int \<times> int" where
  "evict_batch len [] count bytes = ([], count, bytes)"
| "evict_batch len (e # es) count bytes =
     (if \<not> over_budget len count bytes then ([], count, bytes)
      else case evict_batch len es (count - 1) (bytes - event_bytes e) of (ids, rest) \<Rightarrow> (dn_ID e # ids, rest))"

lemma evict_batch_first: "over_budget len c b \<Longrightarrow> dn_ID e \<in> set (fst (evict_batch len (e # es) c b))"
  by (simp split: prod.split)

function retain_events :: "string \<Rightarrow> int \<Rightarrow> int \<Rightarrow> deploymentEventRecord list \<Rightarrow> int \<Rightarrow> int \<Rightarrow> error + deploymentEventRecord list \<times> int \<times> int" where
  "retain_events i number len events count bytes =
     (if over_budget len count bytes then
        (case take 100 (sort_key dn_ID (filter (of_revision i number) events)) of
           [] \<Rightarrow> Inl ErrRecordNotFound
         | oldest # younger \<Rightarrow>
             (case evict_batch len (oldest # younger) count bytes of (ids, count1, bytes1) \<Rightarrow>
                retain_events i number len (delete_where (\<lambda>e. of_revision i number e \<and> dn_ID e \<in> set ids) events) count1 bytes1))
      else Inr (events, count, bytes))"
  by pat_completeness auto
termination
proof (relation "measure (\<lambda>(i, number, len, events, count, bytes). length events)", goal_cases)
  case 1
  show ?case by simp
next
  case (2 i number len events count bytes oldest younger ids count1 bytes1)
  have "oldest \<in> set (filter (of_revision i number) events)" using 2(2) by (metis in_set_takeD list.set_intros(1) set_sort)
  moreover have "dn_ID oldest \<in> set ids" using evict_batch_first [OF 2(1), of oldest younger] 2(3) by (metis fst_conv)
  ultimately have "length (filter (\<lambda>e. \<not> (of_revision i number e \<and> dn_ID e \<in> set ids)) events) < length events"
    by (intro length_filter_less [of oldest]) auto
  then show ?case by (simp add: delete_where_def)
qed

declare retain_events.simps [simp del]

definition valid_event_identity :: "DeploymentEvent \<Rightarrow> bool" where
  "valid_event_identity e \<longleftrightarrow> dn_DeploymentID e \<noteq> [] \<and> dn_EventType e \<noteq> [] \<and> length (dn_DeploymentID e) \<le> 128 \<and> length (dn_EventType e) \<le> 64
     \<and> length (dn_Stage e) \<le> 64 \<and> length (dn_Stream e) \<le> 32 \<and> \<not> has_control (dn_DeploymentID e) \<and> \<not> has_control (dn_EventType e)
     \<and> \<not> has_control (dn_Stage e) \<and> \<not> has_control (dn_Stream e)"

definition normalize_event :: "instant \<Rightarrow> DeploymentEvent \<Rightarrow> DeploymentEvent" where
  "normalize_event now e0 =
     (let e = e0 \<lparr> dn_DeploymentID := TrimSpace (dn_DeploymentID e0), dn_EventType := TrimSpace (dn_EventType e0),
            dn_Stage := TrimSpace (dn_Stage e0), dn_Stream := TrimSpace (dn_Stream e0), 
            dn_Message := (if length (dn_Message e0) > maxDeploymentEventMessage then take maxDeploymentEventMessage (dn_Message e0) else dn_Message e0) \<rparr>
      in if IsZero (dn_CreatedAt e) then e \<lparr> dn_CreatedAt := now \<rparr> else e)"

definition timeline :: "string \<Rightarrow> int \<Rightarrow> deployment_db \<Rightarrow> deploymentEventRecord list" where
  "timeline i number db = filter (of_revision i number) (dp_events db)"

definition sum_bytes :: "deploymentEventRecord list \<Rightarrow> int" where
  "sum_bytes es = sum_list (map event_bytes es)"

definition AppendDeploymentEvent :: "instant \<Rightarrow> DeploymentEvent \<Rightarrow> deployment_db \<Rightarrow> error + deployment_db" where
  "AppendDeploymentEvent now event0 db =
     (let event = normalize_event now event0; i = dn_DeploymentID event
      in if \<not> valid_event_identity event then Inl (Errorf ''deployment event identity is invalid'')
         else case lookup_by dr_ID i (dp_deployments db) of
           None \<Rightarrow> Inl ErrRecordNotFound
         | Some owner \<Rightarrow>
             let number = (if dn_RevisionNumber event \<le> 0 then dr_RevisionNumber owner else dn_RevisionNumber event)
             in if number \<noteq> dr_RevisionNumber owner then Inl ErrConflict
                else case lookup_by (\<lambda>v. (dv_DeploymentID v, dv_Number v)) (i, number) (dp_revisions db) of
                  None \<Rightarrow> Inl ErrRecordNotFound
                | Some revision \<Rightarrow>
                    let count = (if dv_EventBudgetInitialized revision then dv_EventCount revision else int (length (timeline i number db)));
                        bytes = (if dv_EventBudgetInitialized revision then dv_EventBytes revision else sum_bytes (timeline i number db))
                    in case retain_events i number (event_bytes event) (dp_events db) count bytes of
                         Inl e \<Rightarrow> Inl e
                       | Inr (events, count1, bytes1) \<Rightarrow>
                           Inr (db \<lparr> dp_events := events @ [event \<lparr> dn_RevisionNumber := number, dn_ID := fresh_id (map dn_ID (dp_events db)) \<rparr>],
                                     dp_revisions := update_where (\<lambda>v. dv_DeploymentID v = i \<and> dv_Number v = number)
                                       (\<lambda>v. v \<lparr> dv_EventCount := count1 + 1, dv_EventBytes := bytes1 + event_bytes event,
                                                dv_EventBudgetInitialized := True \<rparr>) (dp_revisions db) \<rparr>))"


subsection \<open>The invariant\<close>

definition revision_key :: "deploymentRevisionRecord \<Rightarrow> string \<times> int" where
  "revision_key v = (dv_DeploymentID v, dv_Number v)"

definition event_key :: "deploymentEventRecord \<Rightarrow> string \<times> int" where
  "event_key e = (dn_DeploymentID e, dn_RevisionNumber e)"

text \<open>The counters of a revision are those of its timeline, which is within the limits.\<close>

definition budget_exact :: "deployment_db \<Rightarrow> deploymentRevisionRecord \<Rightarrow> bool" where
  "budget_exact db v \<longleftrightarrow> (dv_EventBudgetInitialized v \<longrightarrow>
     dv_EventCount v = int (length (timeline (dv_DeploymentID v) (dv_Number v) db))
     \<and> dv_EventBytes v = sum_bytes (timeline (dv_DeploymentID v) (dv_Number v) db)
     \<and> dv_EventCount v \<le> maxDeploymentEvents \<and> dv_EventBytes v \<le> maxDeploymentEventBytes)"

text \<open>
  Rows have their keys to themselves, events belong to revisions and revisions to deployments, the
  revision a deployment points to is its latest, and the counters are exact.
\<close>

definition deployments_ok :: "deployment_db \<Rightarrow> bool" where
  "deployments_ok db \<longleftrightarrow>
     keys_unique dr_ID (dp_deployments db) \<and> keys_unique revision_key (dp_revisions db) \<and> keys_unique dn_ID (dp_events db)
     \<and> (\<forall>r\<in>set (dp_deployments db). 1 \<le> dr_RevisionNumber r \<and> (dr_ID r, dr_RevisionNumber r) \<in> revision_key ` set (dp_revisions db))
     \<and> (\<forall>v\<in>set (dp_revisions db). budget_exact db v \<and> (\<exists>r\<in>set (dp_deployments db). dr_ID r = dv_DeploymentID v \<and> dv_Number v \<le> dr_RevisionNumber r))
     \<and> event_key ` set (dp_events db) \<subseteq> revision_key ` set (dp_revisions db)"

subsection \<open>The timeline keeps the newest events\<close>

text \<open>What the retention loop is for: the longest end of the timeline that leaves room for the new event.\<close>

fun keep_newest :: "int \<Rightarrow> deploymentEventRecord list \<Rightarrow> deploymentEventRecord list" where
  "keep_newest len [] = []"
| "keep_newest len (e # es) = (if over_budget len (int (length (e # es))) (sum_bytes (e # es)) then keep_newest len es else e # es)"

lemma sum_bytes_simps [simp]:
  "sum_bytes [] = 0" "sum_bytes (e # es) = event_bytes e + sum_bytes es" "sum_bytes (es @ fs) = sum_bytes es + sum_bytes fs"
  by (simp_all add: sum_bytes_def)

lemma sum_bytes_insort [simp]: "sum_bytes (insort_key f e es) = event_bytes e + sum_bytes es"
  by (induction es) auto

lemma sum_bytes_sort [simp]: "sum_bytes (sort_key f es) = sum_bytes es"
  by (induction es) auto

lemma keep_newest_within:
  "len \<le> maxDeploymentEventBytes \<Longrightarrow> \<not> over_budget len (int (length (keep_newest len es))) (sum_bytes (keep_newest len es))"
  by (induction es) (auto simp: over_budget_def maxDeploymentEvents_def)

lemma keep_newest_id: "\<not> over_budget len (int (length es)) (sum_bytes es) \<Longrightarrow> keep_newest len es = es"
  by (cases es) auto

lemma keep_newest_subset: "set (keep_newest len es) \<subseteq> set es"
  by (induction es) auto

lemma evict_batch_spec:
  "evict_batch len (take m es) (int (length es)) (sum_bytes es) = (ids, count, bytes) \<Longrightarrow>
     \<exists>k. ids = map dn_ID (take k es) \<and> count = int (length (drop k es)) \<and> bytes = sum_bytes (drop k es)
       \<and> keep_newest len (drop k es) = keep_newest len es"
proof (induction m arbitrary: es ids)
  case 0
  then show ?case by (auto intro: exI [of _ 0])
next
  case (Suc m)
  show ?case
  proof (cases "es = [] \<or> \<not> over_budget len (int (length es)) (sum_bytes es)")
    case True
    then show ?thesis using Suc.prems by (cases es) (auto intro: exI [of _ 0])
  next
    case False
    then obtain e fs where es: "es = e # fs" by (cases es) auto
    obtain ids' where rec: "evict_batch len (take m fs) (int (length fs)) (sum_bytes fs) = (ids', count, bytes)" and ids: "ids = dn_ID e # ids'"
      using Suc.prems False by (auto simp: es split: prod.splits)
    obtain k where "ids' = map dn_ID (take k fs) \<and> count = int (length (drop k fs)) \<and> bytes = sum_bytes (drop k fs)
       \<and> keep_newest len (drop k fs) = keep_newest len fs" using Suc.IH [OF rec] by blast
    then show ?thesis using False ids by (auto simp: es intro!: exI [of _ "Suc k"])
  qed
qed


lemma filter_not_taken:
  "distinct (map dn_ID es) \<Longrightarrow> filter (\<lambda>e. dn_ID e \<notin> set (map dn_ID (take k es))) es = drop k es"
proof (induction es arbitrary: k)
  case (Cons e es)
  show ?case
  proof (cases k)
    case (Suc j)
    have "filter (\<lambda>x. dn_ID x \<notin> set (map dn_ID (take k (e # es)))) (e # es) = filter (\<lambda>x. dn_ID x \<notin> set (map dn_ID (take j es))) es"
      using Cons.prems Suc by (auto simp: image_iff intro!: filter_cong)
    then show ?thesis using Cons Suc by simp
  qed simp
qed simp

lemma distinct_sorted_ids: "keys_unique dn_ID es \<Longrightarrow> distinct (map dn_ID (sort_key dn_ID (filter P es)))"
  by (simp add: keys_unique_def distinct_map_filter distinct_map inj_on_def)

text \<open>One round: the sorted timeline loses a prefix, all other events stay.\<close>

lemma delete_oldest:
  assumes "keys_unique dn_ID events" "ids = map dn_ID (take k (sort_key dn_ID (filter P events)))"
  shows "sort_key dn_ID (filter P (delete_where (\<lambda>e. P e \<and> dn_ID e \<in> set ids) events)) = drop k (sort_key dn_ID (filter P events))"
proof -
  let ?es = "sort_key dn_ID (filter P events)"
  have "filter P (delete_where (\<lambda>e. P e \<and> dn_ID e \<in> set ids) events) = filter (\<lambda>e. dn_ID e \<notin> set ids) (filter P events)"
    by (auto simp: delete_where_def intro!: filter_cong)
  then have "sort_key dn_ID (filter P (delete_where (\<lambda>e. P e \<and> dn_ID e \<in> set ids) events)) = filter (\<lambda>e. dn_ID e \<notin> set ids) ?es"
    by (simp add: filter_sort)
  also have "\<dots> = drop k ?es" using filter_not_taken [OF distinct_sorted_ids [OF assms(1)], of k P] assms(2) by simp
  finally show ?thesis .
qed

lemma filter_delete_other: "filter (\<lambda>e. \<not> P e) (delete_where (\<lambda>e. P e \<and> Q e) events) = filter (\<lambda>e. \<not> P e) events"
  by (auto simp: delete_where_def intro!: filter_cong)

lemma retain_events_spec:
  assumes "keys_unique dn_ID events" "count = int (length (filter (of_revision i number) events))"
    "bytes = sum_bytes (filter (of_revision i number) events)" "len \<le> maxDeploymentEventBytes"
  shows "\<exists>events'. retain_events i number len events count bytes
      = Inr (events', int (length (filter (of_revision i number) events')), sum_bytes (filter (of_revision i number) events'))
    \<and> sort_key dn_ID (filter (of_revision i number) events') = keep_newest len (sort_key dn_ID (filter (of_revision i number) events))
    \<and> filter (\<lambda>e. \<not> of_revision i number e) events' = filter (\<lambda>e. \<not> of_revision i number e) events
    \<and> keys_unique dn_ID events' \<and> set events' \<subseteq> set events"
  using assms
proof (induction i number len events count bytes rule: retain_events.induct)
  case (1 i number len events count bytes)
  let ?P = "of_revision i number"
  let ?es = "sort_key dn_ID (filter ?P events)"
  show ?case
  proof (cases "over_budget len count bytes")
    case False
    then show ?thesis using 1(2-) by (simp add: retain_events.simps [of i number len events] keep_newest_id)
  next
    case True
    then have "filter ?P events \<noteq> []" using 1(3-) by (auto simp: over_budget_def maxDeploymentEvents_def)
    then have "?es \<noteq> []" by (metis length_0_conv length_sort)
    then obtain e es where take: "take 100 ?es = e # es" by (cases "take 100 ?es") auto
    obtain ids count1 bytes1 where evict: "evict_batch len (take 100 ?es) count bytes = (ids, count1, bytes1)" by (metis prod_cases3)
    then obtain k where k: "ids = map dn_ID (take k ?es)" "count1 = int (length (drop k ?es))" "bytes1 = sum_bytes (drop k ?es)"
        "keep_newest len (drop k ?es) = keep_newest len ?es"
      using evict_batch_spec [of len 100 ?es] 1(3,4) by auto
    let ?rest = "delete_where (\<lambda>e. ?P e \<and> dn_ID e \<in> set ids) events"
    have rest: "sort_key dn_ID (filter ?P ?rest) = drop k ?es" using delete_oldest [OF 1(2) k(1)] .
    then have "count1 = int (length (filter ?P ?rest))" "bytes1 = sum_bytes (filter ?P ?rest)"
      using k(2,3) by (metis length_sort, metis sum_bytes_sort)
    then obtain events' where "retain_events i number len ?rest count1 bytes1
          = Inr (events', int (length (filter ?P events')), sum_bytes (filter ?P events'))"
        "sort_key dn_ID (filter ?P events') = keep_newest len (sort_key dn_ID (filter ?P ?rest))"
        "filter (\<lambda>e. \<not> ?P e) events' = filter (\<lambda>e. \<not> ?P e) ?rest" "keys_unique dn_ID events'" "set events' \<subseteq> set ?rest"
      using 1(1) [OF True take evict [unfolded take, symmetric] refl] 1(2,5) keys_unique_delete by blast
    then show ?thesis using True take evict rest k(4)
      by (auto simp: retain_events.simps [of i number len events] filter_delete_other) (auto simp: delete_where_def)
  qed
qed


lemma normalize_event_bytes: "event_bytes (normalize_event now e) \<le> maxDeploymentEventBytes"
  by (simp add: normalize_event_def event_bytes_def maxDeploymentEventMessage_def maxDeploymentEventBytes_def Let_def)

lemma deployments_ok_revision:
  assumes "deployments_ok db" "lookup_by dr_ID i (dp_deployments db) = Some r"
  obtains v where "lookup_by (\<lambda>v. (dv_DeploymentID v, dv_Number v)) (i, dr_RevisionNumber r) (dp_revisions db) = Some v"
    "v \<in> set (dp_revisions db)" "revision_key v = (i, dr_RevisionNumber r)" "budget_exact db v"
proof -
  have r: "r \<in> set (dp_deployments db)" "dr_ID r = i" using lookup_by_in [OF assms(2)] by auto
  then obtain v where v: "v \<in> set (dp_revisions db)" "revision_key v = (i, dr_RevisionNumber r)"
    using assms(1) by (fastforce simp: deployments_ok_def)
  have key: "(\<lambda>v. (dv_DeploymentID v, dv_Number v)) = revision_key" by (simp add: fun_eq_iff revision_key_def)
  have "lookup_by revision_key (revision_key v) (dp_revisions db) = Some v"
    using assms(1) v(1) by (auto simp: deployments_ok_def intro: lookup_by_unique)
  then show ?thesis using that v assms(1) by (simp add: key deployments_ok_def)
qed

text \<open>The row that an accepted event becomes, and the counters that its revision gets.\<close>

definition stored_event :: "instant \<Rightarrow> DeploymentEvent \<Rightarrow> int \<Rightarrow> deployment_db \<Rightarrow> deploymentEventRecord" where
  "stored_event now event number db = (normalize_event now event) \<lparr> dn_RevisionNumber := number, dn_ID := fresh_id (map dn_ID (dp_events db)) \<rparr>"

definition count_event :: "int \<Rightarrow> int \<Rightarrow> deploymentRevisionRecord \<Rightarrow> deploymentRevisionRecord" where
  "count_event count bytes v = v \<lparr> dv_EventCount := count, dv_EventBytes := bytes, dv_EventBudgetInitialized := True \<rparr>"

lemma stored_event_simps [simp]:
  "dn_DeploymentID (stored_event now e n db) = dn_DeploymentID (normalize_event now e)" "dn_RevisionNumber (stored_event now e n db) = n"
  "dn_ID (stored_event now e n db) = fresh_id (map dn_ID (dp_events db))" "event_bytes (stored_event now e n db) = event_bytes (normalize_event now e)"
  by (simp_all add: stored_event_def event_bytes_def)

lemma count_event_simps [simp]:
  "revision_key (count_event c b v) = revision_key v" "dv_DeploymentID (count_event c b v) = dv_DeploymentID v" "dv_Number (count_event c b v) = dv_Number v"
  "dv_EventCount (count_event c b v) = c" "dv_EventBytes (count_event c b v) = b" "dv_EventBudgetInitialized (count_event c b v)"
  by (simp_all add: count_event_def revision_key_def)

text \<open>An event is accepted exactly when it is well formed and names the current revision of a deployment, or none.\<close>

lemma AppendDeploymentEvent_accepts:
  assumes "deployments_ok db" "event = normalize_event now event0" "i = dn_DeploymentID event" "valid_event_identity event"
    "lookup_by dr_ID i (dp_deployments db) = Some owner" "n = dr_RevisionNumber owner" "dn_RevisionNumber event \<le> 0 \<or> dn_RevisionNumber event = n"
  obtains events' where
    "AppendDeploymentEvent now event0 db = Inr (db \<lparr> dp_events := events' @ [stored_event now event0 n db],
       dp_revisions := update_where (\<lambda>v. revision_key v = (i, n))
         (count_event (int (length (filter (of_revision i n) events')) + 1) (sum_bytes (filter (of_revision i n) events') + event_bytes event)) (dp_revisions db) \<rparr>)"
    "sort_key dn_ID (filter (of_revision i n) events') = keep_newest (event_bytes event) (sort_key dn_ID (timeline i n db))"
    "filter (\<lambda>e. \<not> of_revision i n e) events' = filter (\<lambda>e. \<not> of_revision i n e) (dp_events db)"
    "keys_unique dn_ID events'" "set events' \<subseteq> set (dp_events db)"
proof -
  obtain v where v: "lookup_by (\<lambda>v. (dv_DeploymentID v, dv_Number v)) (i, n) (dp_revisions db) = Some v" "revision_key v = (i, n)" "budget_exact db v"
    using deployments_ok_revision [OF assms(1,5)] assms(6) by metis
  define count where "count = (if dv_EventBudgetInitialized v then dv_EventCount v else int (length (timeline i n db)))"
  define bytes where "bytes = (if dv_EventBudgetInitialized v then dv_EventBytes v else sum_bytes (timeline i n db))"
  have budget: "count = int (length (filter (of_revision i n) (dp_events db)))" "bytes = sum_bytes (filter (of_revision i n) (dp_events db))"
    using v(2,3) by (auto simp: count_def bytes_def budget_exact_def revision_key_def timeline_def)
  have "keys_unique dn_ID (dp_events db)" "event_bytes event \<le> maxDeploymentEventBytes"
    using assms(1,2) normalize_event_bytes by (auto simp: deployments_ok_def)
  from retain_events_spec [OF this(1) budget this(2)] obtain events' where events':
      "retain_events i n (event_bytes event) (dp_events db) count bytes
        = Inr (events', int (length (filter (of_revision i n) events')), sum_bytes (filter (of_revision i n) events'))"
      "sort_key dn_ID (filter (of_revision i n) events') = keep_newest (event_bytes event) (sort_key dn_ID (timeline i n db))"
      "filter (\<lambda>e. \<not> of_revision i n e) events' = filter (\<lambda>e. \<not> of_revision i n e) (dp_events db)"
      "keys_unique dn_ID events'" "set events' \<subseteq> set (dp_events db)" unfolding timeline_def by blast
  have n: "dr_RevisionNumber owner = n" "(if dn_RevisionNumber event \<le> 0 then n else dn_RevisionNumber event) = n" using assms(6,7) by auto
  have "AppendDeploymentEvent now event0 db = Inr (db \<lparr> dp_events := events' @ [stored_event now event0 n db],
       dp_revisions := update_where (\<lambda>v. revision_key v = (i, n))
         (count_event (int (length (filter (of_revision i n) events')) + 1) (sum_bytes (filter (of_revision i n) events') + event_bytes event)) (dp_revisions db) \<rparr>)"
    unfolding AppendDeploymentEvent_def Let_def assms(2) [symmetric] assms(3) [symmetric]
    by (simp only: assms(4,5) v(1) n events'(1) count_def [symmetric] bytes_def [symmetric] not_True_eq_False if_False option.case sum.case prod.case
        stored_event_def count_event_def [abs_def] revision_key_def prod.inject simp_thms assms(2) [symmetric])
  then show ?thesis using that events'(2-) by blast
qed

lemma AppendDeploymentEvent_needs:
  assumes "AppendDeploymentEvent now event0 db = Inr db'"
  obtains owner where "valid_event_identity (normalize_event now event0)"
    "lookup_by dr_ID (dn_DeploymentID (normalize_event now event0)) (dp_deployments db) = Some owner"
    "dn_RevisionNumber (normalize_event now event0) \<le> 0 \<or> dn_RevisionNumber (normalize_event now event0) = dr_RevisionNumber owner"
  using assms by (auto simp: AppendDeploymentEvent_def Let_def split: if_splits option.splits sum.splits)


subsection \<open>Every operation keeps the invariant\<close>

lemma deployments_okD:
  assumes "deployments_ok db"
  shows "keys_unique dr_ID (dp_deployments db)" "keys_unique revision_key (dp_revisions db)" "keys_unique dn_ID (dp_events db)"
    "r \<in> set (dp_deployments db) \<Longrightarrow> 1 \<le> dr_RevisionNumber r \<and> (dr_ID r, dr_RevisionNumber r) \<in> revision_key ` set (dp_revisions db)"
    "v \<in> set (dp_revisions db) \<Longrightarrow> budget_exact db v"
    "v \<in> set (dp_revisions db) \<Longrightarrow> \<exists>r\<in>set (dp_deployments db). dr_ID r = dv_DeploymentID v \<and> dv_Number v \<le> dr_RevisionNumber r"
    "e \<in> set (dp_events db) \<Longrightarrow> event_key e \<in> revision_key ` set (dp_revisions db)"
  using assms by (auto simp: deployments_ok_def)

lemma keys_unique_same: "keys_unique key tbl \<Longrightarrow> x \<in> set tbl \<Longrightarrow> y \<in> set tbl \<Longrightarrow> key x = key y \<Longrightarrow> x = y"
  by (auto simp: keys_unique_def distinct_map inj_on_def)

lemma deployments_okI:
  assumes "keys_unique dr_ID (dp_deployments db)" "keys_unique revision_key (dp_revisions db)" "keys_unique dn_ID (dp_events db)"
    "\<And>r. r \<in> set (dp_deployments db) \<Longrightarrow> 1 \<le> dr_RevisionNumber r"
    "\<And>r. r \<in> set (dp_deployments db) \<Longrightarrow> (dr_ID r, dr_RevisionNumber r) \<in> revision_key ` set (dp_revisions db)"
    "\<And>v. v \<in> set (dp_revisions db) \<Longrightarrow> budget_exact db v"
    "\<And>v. v \<in> set (dp_revisions db) \<Longrightarrow> \<exists>r\<in>set (dp_deployments db). dr_ID r = dv_DeploymentID v \<and> dv_Number v \<le> dr_RevisionNumber r"
    "\<And>e. e \<in> set (dp_events db) \<Longrightarrow> event_key e \<in> revision_key ` set (dp_revisions db)"
  shows "deployments_ok db"
  using assms by (auto simp: deployments_ok_def)

lemma timeline_other:
  assumes "filter (\<lambda>e. \<not> of_revision i n e) es = filter (\<lambda>e. \<not> of_revision i n e) fs" "(j, m) \<noteq> (i, n)"
  shows "filter (of_revision j m) es = filter (of_revision j m) fs"
proof -
  have "filter (of_revision j m) gs = filter (of_revision j m) (filter (\<lambda>e. \<not> of_revision i n e) gs)" for gs
    using assms(2) by (auto simp: of_revision_def intro!: filter_cong)
  then show ?thesis using assms(1) by metis
qed

lemma fresh_id_above: "x \<in> set ids \<Longrightarrow> x < fresh_id ids"
proof -
  assume "x \<in> set ids"
  then have "x \<le> Max (insert 0 (set ids))" by (intro Max_ge) auto
  then show ?thesis by (simp add: fresh_id_def fold_max_eq)
qed

lemma image_update_where: "(\<And>r. P r \<Longrightarrow> g (f r) = g r) \<Longrightarrow> g ` set (update_where P f tbl) = g ` set tbl"
  using map_update_where [of P g f tbl] by (metis list.set_map)

lemma AppendDeploymentEvent_ok:
  assumes ok: "deployments_ok db" and append: "AppendDeploymentEvent now event0 db = Inr db'"
  shows "deployments_ok db'"
proof -
  let ?event = "normalize_event now event0"
  obtain owner where owner: "valid_event_identity ?event" "lookup_by dr_ID (dn_DeploymentID ?event) (dp_deployments db) = Some owner"
    "dn_RevisionNumber ?event \<le> 0 \<or> dn_RevisionNumber ?event = dr_RevisionNumber owner" using AppendDeploymentEvent_needs [OF append] .
  define i n where "i = dn_DeploymentID ?event" and "n = dr_RevisionNumber owner"
  let ?new = "stored_event now event0 n db"
  obtain events' where db': "db' = db \<lparr> dp_events := events' @ [?new], dp_revisions := update_where (\<lambda>v. revision_key v = (i, n))
         (count_event (int (length (filter (of_revision i n) events')) + 1) (sum_bytes (filter (of_revision i n) events') + event_bytes ?event)) (dp_revisions db) \<rparr>"
    and kept: "sort_key dn_ID (filter (of_revision i n) events') = keep_newest (event_bytes ?event) (sort_key dn_ID (timeline i n db))"
    and rest: "filter (\<lambda>e. \<not> of_revision i n e) events' = filter (\<lambda>e. \<not> of_revision i n e) (dp_events db)"
    and keys: "keys_unique dn_ID events'" "set events' \<subseteq> set (dp_events db)"
    using AppendDeploymentEvent_accepts [OF ok refl refl owner(1,2) refl owner(3)] append by (metis sum.inject(2) i_def n_def)
  have new: "of_revision i n ?new" "event_key ?new = (i, n)" by (simp_all add: of_revision_def event_key_def i_def)
  have revision: "(i, n) \<in> revision_key ` set (dp_revisions db)"
    using deployments_ok_revision [OF ok owner(2)] by (metis i_def n_def rev_image_eqI)
  have "\<not> over_budget (event_bytes ?event) (int (length (filter (of_revision i n) events'))) (sum_bytes (filter (of_revision i n) events'))"
    using keep_newest_within [OF normalize_event_bytes] kept by (metis length_sort sum_bytes_sort)
  then have "budget_exact db' v'" if "v' \<in> set (dp_revisions db')" for v'
    using that deployments_okD(5) [OF ok] new(1) timeline_other [OF rest]
    by (auto simp: db' set_update_where budget_exact_def timeline_def over_budget_def revision_key_def of_revision_def i_def split: if_splits)
  moreover have "revision_key ` set (dp_revisions db') = revision_key ` set (dp_revisions db)"
    by (simp add: db' image_update_where)
  moreover have "keys_unique dn_ID (dp_events db')"
    using keys fresh_id_new(1) [of "map dn_ID (dp_events db)"] by (auto simp: db' intro!: keys_unique_append)
  moreover have "\<exists>r\<in>set (dp_deployments db). dr_ID r = dv_DeploymentID v' \<and> dv_Number v' \<le> dr_RevisionNumber r" if "v' \<in> set (dp_revisions db')" for v'
    using that deployments_okD(6) [OF ok] by (auto simp: db' set_update_where split: if_splits)
  ultimately show ?thesis
    using deployments_okD [OF ok] keys(2) new(2) revision by (auto simp: deployments_ok_def db' intro!: keys_unique_update)
qed


lemma budget_exact_events: "dp_events db' = dp_events db \<Longrightarrow> budget_exact db' v = budget_exact db v"
  by (simp add: budget_exact_def timeline_def)

text \<open>Updates that keep what the invariant is about.\<close>

lemma deployments_ok_update:
  assumes ok: "deployments_ok db"
    and f: "\<And>r. P r \<Longrightarrow> dr_ID (f r) = dr_ID r \<and> dr_RevisionNumber (f r) = dr_RevisionNumber r"
    and g: "\<And>v. Q v \<Longrightarrow> revision_key (g v) = revision_key v \<and> dv_EventCount (g v) = dv_EventCount v \<and> dv_EventBytes (g v) = dv_EventBytes v
      \<and> dv_EventBudgetInitialized (g v) = dv_EventBudgetInitialized v"
  shows "deployments_ok (db \<lparr> dp_deployments := update_where P f (dp_deployments db), dp_revisions := update_where Q g (dp_revisions db) \<rparr>)" (is "deployments_ok ?db")
proof -
  let ?key = "\<lambda>r. (dr_ID r, dr_RevisionNumber r)"
  have keys: "?key ` set (dp_deployments ?db) = ?key ` set (dp_deployments db)" "revision_key ` set (dp_revisions ?db) = revision_key ` set (dp_revisions db)"
    using f g by (simp_all add: image_update_where)
  have was: "\<exists>v. v \<in> set (dp_revisions db) \<and> revision_key v' = revision_key v \<and> dv_EventCount v' = dv_EventCount v \<and> dv_EventBytes v' = dv_EventBytes v
      \<and> dv_EventBudgetInitialized v' = dv_EventBudgetInitialized v" if "v' \<in> set (dp_revisions ?db)" for v'
    using that g by (auto simp: set_update_where split: if_splits)
  have "budget_exact ?db v'" if "v' \<in> set (dp_revisions ?db)" for v'
    using was [OF that] deployments_okD(5) [OF ok] by (fastforce simp: budget_exact_def timeline_def revision_key_def)
  moreover have "\<exists>r\<in>set (dp_deployments ?db). dr_ID r = dv_DeploymentID v' \<and> dv_Number v' \<le> dr_RevisionNumber r" if v': "v' \<in> set (dp_revisions ?db)" for v'
  proof -
    obtain v where v: "v \<in> set (dp_revisions db)" "dv_DeploymentID v' = dv_DeploymentID v" "dv_Number v' = dv_Number v"
      using was [OF v'] by (auto simp: revision_key_def)
    obtain r where r: "r \<in> set (dp_deployments db)" "dr_ID r = dv_DeploymentID v" "dv_Number v \<le> dr_RevisionNumber r"
      using deployments_okD(6) [OF ok v(1)] by blast
    obtain r' where "r' \<in> set (dp_deployments ?db)" "?key r' = ?key r" using keys(1) r(1) by (metis (no_types, lifting) image_iff)
    then show ?thesis using v r by auto
  qed
  moreover have "1 \<le> dr_RevisionNumber r' \<and> ?key r' \<in> revision_key ` set (dp_revisions ?db)" if r': "r' \<in> set (dp_deployments ?db)" for r'
  proof -
    obtain r where "r \<in> set (dp_deployments db)" "?key r' = ?key r" using keys(1) r' by (metis (no_types, lifting) image_iff)
    then show ?thesis using deployments_okD(4) [OF ok, of r] keys(2) by simp
  qed
  ultimately show ?thesis
    using deployments_okD [OF ok] keys(2) f g by (auto simp: deployments_ok_def intro!: keys_unique_update)
qed

lemma FillDeploymentPullRequestTitle_ok:
  "deployments_ok db \<Longrightarrow> FillDeploymentPullRequestTitle i ref title db = Inr db' \<Longrightarrow> deployments_ok db'"
  by (auto simp: FillDeploymentPullRequestTitle_def Let_def revision_key_def intro!: deployments_ok_update split: if_splits)

lemma update_columns_simps [simp]:
  "dr_ID (update_columns now d r) = dr_ID r" "dr_RevisionNumber (update_columns now d r) = dr_RevisionNumber r"
  "dr_Version (update_columns now d r) = dm_Version d + 1" "dr_Status (update_columns now d r) = dm_Status d"
  by (simp_all add: update_columns_def Let_def)

lemma update_transaction_ok: "deployments_ok db \<Longrightarrow> update_transaction now d db = Inr db' \<Longrightarrow> deployments_ok db'"
  by (auto simp: update_transaction_def updateCurrentDeploymentRevision_def Let_def revision_key_def
      intro!: deployments_ok_update split: if_splits option.splits sum.splits)

lemma UpdateDeployment_Inr:
  assumes "UpdateDeployment now deployment db = Inr db'"
  obtains d where "normalizeDeployment deployment = Inr d" "update_transaction now d db = Inr db'"
  using assms by (auto simp: UpdateDeployment_def split: sum.splits if_splits)


lemma normalizeDeployment_Inr:
  assumes "normalizeDeployment d0 = Inr d"
  shows "dm_ID d = TrimSpace (dm_ID d0)" "dm_RevisionNumber d = dm_RevisionNumber d0" "dm_Version d = dm_Version d0" "dm_Status d = dm_Status d0"
    "dm_ScopeType d = TrimSpace (dm_ScopeType d0)" "dm_ScopeID d = dm_ScopeID d0" "dm_SandboxID d = dm_SandboxID d0"
    "dm_ConfigPath d = path_Clean (TrimSpace (dm_ConfigPath d0))" "valid_config_path (dm_ConfigPath d)" "validDeploymentStatus (dm_Status d) \<or> dm_Status d = []"
  using assms by (auto simp: normalizeDeployment_def Let_def split: if_splits)

lemma applyDeploymentTimestamps_simps [simp]:
  "dr_ID (applyDeploymentTimestamps r now) = dr_ID r" "dr_RevisionNumber (applyDeploymentTimestamps r now) = dr_RevisionNumber r"
  "dr_ScopeType (applyDeploymentTimestamps r now) = dr_ScopeType r" "dr_ScopeID (applyDeploymentTimestamps r now) = dr_ScopeID r"
  "dr_CreatedAt (applyDeploymentTimestamps r now) = dr_CreatedAt r"
  by (simp_all add: applyDeploymentTimestamps_def)

lemma deployment_row_simps [simp]:
  "dr_ID (deployment_row d) = dm_ID d" "dr_RevisionNumber (deployment_row d) = dm_RevisionNumber d" "dr_ScopeType (deployment_row d) = dm_ScopeType d"
  "dr_ScopeID (deployment_row d) = dm_ScopeID d"
  by (simp_all add: deployment_row_def)

lemma revisionRecordFromDeployment_simps [simp]:
  "dv_EventBudgetInitialized (revisionRecordFromDeployment r t) = False" "dv_DeploymentID (revisionRecordFromDeployment r t) = dr_ID r"
  "dv_Number (revisionRecordFromDeployment r t) = max 1 (dr_RevisionNumber r)"
  by (auto simp: revisionRecordFromDeployment_def Let_def)

lemma fill_defaults_simps [simp]:
  "dm_ID (fill_defaults now d) = dm_ID d" "dm_RevisionNumber (fill_defaults now d) = dm_RevisionNumber d"
  "dm_ScopeType (fill_defaults now d) = dm_ScopeType d" "dm_ScopeID (fill_defaults now d) = dm_ScopeID d"
  by (simp_all add: fill_defaults_def Let_def)

text \<open>A creation adds one row and its first revision.\<close>

lemma createDeployment_Inr:
  assumes "createDeployment now d0 db = Inr (db', d')"
  obtains row revision where "db' = db \<lparr> dp_deployments := dp_deployments db @ [row], dp_revisions := dp_revisions db @ [revision] \<rparr>"
    "dr_ID row = TrimSpace (dm_ID d0)" "dr_RevisionNumber row = 1" "dr_ScopeType row = TrimSpace (dm_ScopeType d0)" "dr_ScopeID row = dm_ScopeID d0"
    "dr_ID row \<notin> dr_ID ` set (dp_deployments db)" "revision_key revision = (dr_ID row, 1)" "revision_key revision \<notin> revision_key ` set (dp_revisions db)"
    "\<not> dv_EventBudgetInitialized revision" "d' = deploymentFromRecord row"
proof -
  obtain d where d: "normalizeDeployment (d0 \<lparr> dm_RevisionNumber := 1 \<rparr>) = Inr d"
    using assms by (auto simp: createDeployment_def split: sum.splits)
  let ?row = "applyDeploymentTimestamps (deployment_row (fill_defaults now d)) now"
  show ?thesis
    using assms normalizeDeployment_Inr(1,2,5,6) [OF d]
    by (intro that [of "revisionRecordFromDeployment ?row (dr_CreatedAt ?row)" ?row])
      (auto simp: createDeployment_def d Let_def list_ex_iff revision_key_def split: if_splits)
qed

lemma createDeployment_ok:
  assumes ok: "deployments_ok db" and create: "createDeployment now d0 db = Inr (db', d')"
  shows "deployments_ok db'"
proof -
  obtain row revision where db': "db' = db \<lparr> dp_deployments := dp_deployments db @ [row], dp_revisions := dp_revisions db @ [revision] \<rparr>"
    and row: "dr_RevisionNumber row = 1" "dr_ID row \<notin> dr_ID ` set (dp_deployments db)"
    and revision: "revision_key revision = (dr_ID row, 1)" "revision_key revision \<notin> revision_key ` set (dp_revisions db)" "\<not> dv_EventBudgetInitialized revision"
    using createDeployment_Inr [OF create] by metis
  show ?thesis
  proof (rule deployments_okI)
    show "keys_unique dr_ID (dp_deployments db')" "keys_unique revision_key (dp_revisions db')" "keys_unique dn_ID (dp_events db')"
      using deployments_okD(1-3) [OF ok] row revision by (simp_all add: db' keys_unique_append)
    show "1 \<le> dr_RevisionNumber r" "(dr_ID r, dr_RevisionNumber r) \<in> revision_key ` set (dp_revisions db')" if "r \<in> set (dp_deployments db')" for r
      using that deployments_okD(4) [OF ok, of r] row(1) revision(1) by (auto simp: db')
    show "budget_exact db' v" if "v \<in> set (dp_revisions db')" for v
      using that deployments_okD(5) [OF ok, of v] revision(3) budget_exact_events [of db' db v] by (auto simp: db' budget_exact_def [of _ revision])
    show "\<exists>r\<in>set (dp_deployments db'). dr_ID r = dv_DeploymentID v \<and> dv_Number v \<le> dr_RevisionNumber r" if "v \<in> set (dp_revisions db')" for v
      using that deployments_okD(6) [OF ok, of v] row(1) revision(1) by (auto simp: db' revision_key_def)
    show "event_key e \<in> revision_key ` set (dp_revisions db')" if "e \<in> set (dp_events db')" for e
      using that deployments_okD(7) [OF ok, of e] by (simp add: db')
  qed
qed

text \<open>A retry gives its row the next number and adds the revision of that number.\<close>

lemma retry_deployment_columns_simps [simp]:
  "dr_ID (retry_deployment_columns now d t r) = dr_ID r" "dr_RevisionNumber (retry_deployment_columns now d t r) = dr_RevisionNumber r + 1"
  "dr_Status (retry_deployment_columns now d t r) = DeploymentStatusQueued" "dr_Version (retry_deployment_columns now d t r) = dm_Version d + 1"
  "dr_SandboxID (retry_deployment_columns now d t r) = []" "dr_ScopeType (retry_deployment_columns now d t r) = dr_ScopeType r"
  "dr_ScopeID (retry_deployment_columns now d t r) = dr_ScopeID r"
  by (simp_all add: retry_deployment_columns_def)

definition retry_target :: "Deployment \<Rightarrow> deploymentRecord \<Rightarrow> bool" where
  "retry_target d r \<longleftrightarrow> dr_ID r = dm_ID d \<and> dr_Version r = dm_Version d \<and> dr_Status r \<in> set terminal_statuses"

lemma retryDeployment_Inr:
  assumes ok: "deployments_ok db" and retry: "retryDeployment now d expiresAt db = Inr db'"
  obtains r t revision where "r \<in> set (dp_deployments db)" "retry_target d r"
    "db' = db \<lparr> dp_deployments := update_where (retry_target d) (retry_deployment_columns now d t) (dp_deployments db), dp_revisions := dp_revisions db @ [revision] \<rparr>"
    "revision_key revision = (dr_ID r, dr_RevisionNumber r + 1)" "revision_key revision \<notin> revision_key ` set (dp_revisions db)"
    "\<not> dv_EventBudgetInitialized revision" "dm_Status d \<in> set terminal_statuses" "TrimSpace (dm_SandboxID d) = []"
proof -
  define t where "t = (if IsZero expiresAt then now + 60 * Minute else expiresAt)"
  have target: "(\<lambda>r. dr_ID r = dm_ID d \<and> dr_Version r = dm_Version d \<and> dr_Status r \<in> set terminal_statuses) = retry_target d"
    by (simp add: fun_eq_iff retry_target_def)
  obtain r where r: "r \<in> set (dp_deployments db)" "retry_target d r"
    using retry unfolding retryDeployment_def target Let_def by (auto simp: list_ex_iff split: if_splits)
  have "lookup_by dr_ID (dm_ID d) (update_where (retry_target d) (retry_deployment_columns now d t) (dp_deployments db)) = Some (retry_deployment_columns now d t r)"
    using r lookup_by_unique [OF deployments_okD(1) [OF ok] r(1)] unfolding lookup_by_def
    by (subst find_update_where) (auto simp: retry_target_def)
  then show ?thesis
    using retry r deployments_okD(4) [OF ok r(1)] unfolding retryDeployment_def target Let_def t_def [symmetric]
    by (intro that [of r "(revisionRecordFromDeployment (retry_deployment_columns now d t r) now) \<lparr> dv_SandboxID := [], dv_Endpoint := [] \<rparr>" t])
      (auto simp: list_ex_iff revision_key_def split: if_splits)
qed


lemma retryDeployment_ok:
  assumes ok: "deployments_ok db" and retry: "retryDeployment now d expiresAt db = Inr db'"
  shows "deployments_ok db'"
proof -
  obtain r t revision where r: "r \<in> set (dp_deployments db)" "retry_target d r"
    and db': "db' = db \<lparr> dp_deployments := update_where (retry_target d) (retry_deployment_columns now d t) (dp_deployments db), dp_revisions := dp_revisions db @ [revision] \<rparr>"
    and revision: "revision_key revision = (dr_ID r, dr_RevisionNumber r + 1)" "revision_key revision \<notin> revision_key ` set (dp_revisions db)"
      "\<not> dv_EventBudgetInitialized revision" using retryDeployment_Inr [OF ok retry] by metis
  have same: "x = r" if "x \<in> set (dp_deployments db)" "retry_target d x" for x
    using that r keys_unique_same [OF deployments_okD(1) [OF ok]] by (simp add: retry_target_def)
  show ?thesis
  proof (rule deployments_okI)
    show "keys_unique dr_ID (dp_deployments db')" "keys_unique revision_key (dp_revisions db')" "keys_unique dn_ID (dp_events db')"
      using deployments_okD(1-3) [OF ok] revision by (simp_all add: db' keys_unique_append keys_unique_update)
    show "1 \<le> dr_RevisionNumber x" "(dr_ID x, dr_RevisionNumber x) \<in> revision_key ` set (dp_revisions db')" if "x \<in> set (dp_deployments db')" for x
      using that deployments_okD(4) [OF ok] r(1) same revision(1) by (force simp: db' set_update_where split: if_splits)+
    show "budget_exact db' v" if "v \<in> set (dp_revisions db')" for v
      using that deployments_okD(5) [OF ok, of v] revision(3) budget_exact_events [of db' db v] by (auto simp: db' budget_exact_def [of _ revision])
    show "\<exists>x\<in>set (dp_deployments db'). dr_ID x = dv_DeploymentID v \<and> dv_Number v \<le> dr_RevisionNumber x" if v: "v \<in> set (dp_revisions db')" for v
    proof -
      obtain x where x: "x \<in> set (dp_deployments db)" "dr_ID x = dv_DeploymentID v" "dv_Number v \<le> dr_RevisionNumber x + (if v = revision then 1 else 0)"
        using v deployments_okD(6) [OF ok, of v] r(1) revision(1) by (fastforce simp: db' revision_key_def split: if_splits)
      let ?x = "if retry_target d x then retry_deployment_columns now d t x else x"
      have "?x \<in> set (dp_deployments db')" using x(1) by (auto simp: db' set_update_where)
      moreover have "dv_Number v \<le> dr_RevisionNumber ?x"
        using x r revision(1) keys_unique_same [OF deployments_okD(1) [OF ok] x(1) r(1)] by (auto simp: revision_key_def split: if_splits)
      ultimately show ?thesis using x(2) by (metis retry_deployment_columns_simps(1))
    qed
    show "event_key e \<in> revision_key ` set (dp_revisions db')" if "e \<in> set (dp_events db')" for e
      using that deployments_okD(7) [OF ok, of e] by (simp add: db')
  qed
qed


lemma prune_one_cases:
  assumes "deployments_ok db"
  obtains "prune_one before x (db, n) = (db, n)"
  | r where "r \<in> set (dp_deployments db)" "dr_ID r = dr_ID x" "dr_Version r = dr_Version x" "prunable before r"
      "prune_one before x (db, n) = (db \<lparr> dp_deployments := delete_where (\<lambda>r. dr_ID r = dr_ID x) (dp_deployments db),
         dp_events := delete_where (\<lambda>e. dn_DeploymentID e = dr_ID x) (dp_events db),
         dp_revisions := delete_where (\<lambda>v. dv_DeploymentID v = dr_ID x) (dp_revisions db) \<rparr>, n + 1)"
proof (cases "\<exists>r\<in>set (dp_deployments db). dr_ID r = dr_ID x \<and> dr_Version r = dr_Version x \<and> prunable before r")
  case True
  then obtain r where r: "r \<in> set (dp_deployments db)" "dr_ID r = dr_ID x" "dr_Version r = dr_Version x" "prunable before r" by blast
  have "delete_where (\<lambda>r. dr_ID r = dr_ID x \<and> dr_Version r = dr_Version x \<and> prunable before r) (dp_deployments db)
      = delete_where (\<lambda>r. dr_ID r = dr_ID x) (dp_deployments db)"
    using keys_unique_same [OF deployments_okD(1) [OF assms] r(1)] r unfolding delete_where_def by (intro filter_cong [OF refl]) metis
  moreover have "list_ex (\<lambda>r. dr_ID r = dr_ID x \<and> dr_Version r = dr_Version x \<and> prunable before r) (dp_deployments db)"
    using True by (simp add: list_ex_iff)
  ultimately show ?thesis using that(2) [OF r] by (simp add: prune_one_def Let_def)
next
  case False
  then have "\<not> list_ex (\<lambda>r. dr_ID r = dr_ID x \<and> dr_Version r = dr_Version x \<and> prunable before r) (dp_deployments db)"
    by (simp add: list_ex_iff)
  then show ?thesis using that(1) by (simp add: prune_one_def Let_def)
qed

lemma prune_one_ok:
  assumes ok: "deployments_ok db"
  shows "deployments_ok (fst (prune_one before x (db, n)))"
proof (cases rule: prune_one_cases [OF ok, of before x n])
  case (2 r)
  let ?i = "dr_ID x" and ?db = "fst (prune_one before x (db, n))"
  have rows: "r \<in> set (dp_deployments ?db) \<longleftrightarrow> r \<in> set (dp_deployments db) \<and> dr_ID r \<noteq> ?i"
      "v \<in> set (dp_revisions ?db) \<longleftrightarrow> v \<in> set (dp_revisions db) \<and> dv_DeploymentID v \<noteq> ?i"
      "e \<in> set (dp_events ?db) \<longleftrightarrow> e \<in> set (dp_events db) \<and> dn_DeploymentID e \<noteq> ?i" for r v e
    using 2(5) by (auto simp: delete_where_def)
  have timeline: "timeline i number ?db = timeline i number db" if "i \<noteq> ?i" for i number
    using that 2(5) by (auto simp: timeline_def delete_where_def of_revision_def intro!: filter_cong)
  show ?thesis
  proof (rule deployments_okI)
    show "keys_unique dr_ID (dp_deployments ?db)" "keys_unique revision_key (dp_revisions ?db)" "keys_unique dn_ID (dp_events ?db)"
      using deployments_okD(1-3) [OF ok] by (simp_all add: 2(5) keys_unique_delete)
    show "budget_exact ?db v" if "v \<in> set (dp_revisions ?db)" for v
      using that deployments_okD(5) [OF ok, of v] timeline [of "dv_DeploymentID v"] by (auto simp: rows budget_exact_def)
    show "1 \<le> dr_RevisionNumber r" if "r \<in> set (dp_deployments ?db)" for r
      using that deployments_okD(4) [OF ok, of r] by (simp add: rows)
    show "(dr_ID r, dr_RevisionNumber r) \<in> revision_key ` set (dp_revisions ?db)" if "r \<in> set (dp_deployments ?db)" for r
      using that deployments_okD(4) [OF ok, of r] by (auto simp: rows revision_key_def image_iff)
    show "\<exists>r\<in>set (dp_deployments ?db). dr_ID r = dv_DeploymentID v \<and> dv_Number v \<le> dr_RevisionNumber r" if "v \<in> set (dp_revisions ?db)" for v
      using that deployments_okD(6) [OF ok, of v] by (fastforce simp: rows)
    show "event_key e \<in> revision_key ` set (dp_revisions ?db)" if "e \<in> set (dp_events ?db)" for e
      using that deployments_okD(7) [OF ok, of e] by (auto simp: rows revision_key_def event_key_def image_iff)
  qed
qed (use ok in simp)

lemma prune_fold_ok: "deployments_ok (fst acc) \<Longrightarrow> deployments_ok (fst (fold (prune_one before) rows acc))"
proof (induction rows arbitrary: acc)
  case (Cons x rows)
  then show ?case using prune_one_ok [of "fst acc" before x "snd acc"] by simp
qed simp

lemma PruneDeployments_ok:
  assumes "deployments_ok db" "deployments_ok (other db)"
  shows "deployments_ok (fst (PruneDeployments other before limit db))"
  using assms prune_fold_ok [of "(other db, 0)" before "prune_candidates before limit db"] by (auto simp: PruneDeployments_def split: prod.splits)


text \<open>
  The writes of the tables. Retention reads its candidates before its transaction, so that in a step of it
  the candidates are any rows.
\<close>

inductive deployment_step :: "deployment_db \<Rightarrow> deployment_db \<Rightarrow> bool" where
  step_create: "CreateDeployment now d db = Inr (db', d') \<Longrightarrow> deployment_step db db'"
| step_admit: "CreateDeploymentWithScopeLimit accounts installations now d limit db = Inr (db', d') \<Longrightarrow> deployment_step db db'"
| step_title: "FillDeploymentPullRequestTitle i ref title db = Inr db' \<Longrightarrow> deployment_step db db'"
| step_update: "UpdateDeployment now d db = Inr db' \<Longrightarrow> deployment_step db db'"
| step_retry: "RetryDeployment now d expiresAt db = Inr db' \<Longrightarrow> deployment_step db db'"
| step_readmit: "RetryDeploymentWithScopeLimit accounts installations now d expiresAt limit db = Inr db' \<Longrightarrow> deployment_step db db'"
| step_prune: "fold (prune_one before) rows (db, 0) = (db', n) \<Longrightarrow> deployment_step db db'"
| step_append: "AppendDeploymentEvent now event db = Inr db' \<Longrightarrow> deployment_step db db'"

lemma deployment_step_ok: "deployment_step db db' \<Longrightarrow> deployments_ok db \<Longrightarrow> deployments_ok db'"
proof (induction rule: deployment_step.induct)
  case (step_prune before rows db db' n)
  then show ?case using prune_fold_ok [of "(db, 0)" before rows] by simp
qed (auto simp: CreateDeployment_def CreateDeploymentWithScopeLimit_def RetryDeployment_def RetryDeploymentWithScopeLimit_def
    split: sum.splits elim!: UpdateDeployment_Inr
    intro: createDeployment_ok FillDeploymentPullRequestTitle_ok update_transaction_ok retryDeployment_ok AppendDeploymentEvent_ok)

definition empty_deployments :: deployment_db where
  "empty_deployments = \<lparr> dp_deployments = [], dp_revisions = [], dp_events = [] \<rparr>"

lemma deployments_ok_empty: "deployments_ok empty_deployments"
  by (simp add: deployments_ok_def empty_deployments_def)

subsection \<open>Updates are conditional on the version\<close>

definition deployment_cas :: "instant \<times> Deployment \<Rightarrow> deployment_db \<Rightarrow> deployment_db option" where
  "deployment_cas w db = (case UpdateDeployment (fst w) (snd w) db of Inl _ \<Rightarrow> None | Inr db' \<Rightarrow> Some db')"

definition deployment_lookup :: "deployment_db \<Rightarrow> string \<Rightarrow> deploymentRecord option" where
  "deployment_lookup db i = lookup_by dr_ID i (dp_deployments db)"

definition deployment_key :: "instant \<times> Deployment \<Rightarrow> string" where
  "deployment_key w = TrimSpace (dm_ID (snd w))"

definition deployment_expected :: "instant \<times> Deployment \<Rightarrow> int" where
  "deployment_expected w = dm_Version (snd w)"

lemma deployment_cas_Some:
  assumes ok: "deployments_ok db" and cas: "deployment_cas w db = Some db'"
  obtains d r where "r \<in> set (dp_deployments db)" "dr_ID r = deployment_key w" "dr_Version r = deployment_expected w" "deployments_ok db'"
    "dp_deployments db' = update_where (\<lambda>r. dr_ID r = deployment_key w \<and> dr_Version r = deployment_expected w) (update_columns (fst w) d) (dp_deployments db)"
    "dm_Version d = deployment_expected w"
proof -
  obtain d where d: "normalizeDeployment (snd w) = Inr d" "update_transaction (fst w) d db = Inr db'"
    using cas by (auto simp: deployment_cas_def elim!: UpdateDeployment_Inr split: sum.splits)
  have key: "dm_ID d = deployment_key w" "dm_Version d = deployment_expected w"
    using normalizeDeployment_Inr(1,3) [OF d(1)] by (simp_all add: deployment_key_def deployment_expected_def)
  show ?thesis
    using d(2) that [of _ d] update_transaction_ok [OF ok d(2)] unfolding update_transaction_def key Let_def
    by (auto simp: list_ex_iff key split: if_splits option.splits sum.splits)
qed

interpretation deployments: versioned_table deployment_lookup dr_Version deployment_cas deployment_key deployment_expected deployments_ok
proof unfold_locales
  fix t t' :: deployment_db and w :: "instant \<times> Deployment"
  assume ok: "deployments_ok t" and cas: "deployment_cas w t = Some t'"
  obtain d r where r: "r \<in> set (dp_deployments t)" "dr_ID r = deployment_key w" "dr_Version r = deployment_expected w" and t': "deployments_ok t'"
    and rows: "dp_deployments t' = update_where (\<lambda>r. dr_ID r = deployment_key w \<and> dr_Version r = deployment_expected w) (update_columns (fst w) d) (dp_deployments t)"
    and d: "dm_Version d = deployment_expected w" using deployment_cas_Some [OF ok cas] .
  show "deployments_ok t'" by (rule t')
  have found: "deployment_lookup t (deployment_key w) = Some r"
    using lookup_by_unique [OF deployments_okD(1) [OF ok] r(1)] r(2) by (simp add: deployment_lookup_def)
  then show "\<exists>r. deployment_lookup t (deployment_key w) = Some r \<and> dr_Version r = deployment_expected w" using r(3) by blast
  have lookup: "deployment_lookup t' k = map_option (\<lambda>r. if dr_ID r = deployment_key w \<and> dr_Version r = deployment_expected w then update_columns (fst w) d r else r)
      (deployment_lookup t k)" for k
    unfolding deployment_lookup_def lookup_by_def rows by (rule find_update_where) auto
  then show "\<exists>r. deployment_lookup t' (deployment_key w) = Some r \<and> dr_Version r = deployment_expected w + 1" using found r d by simp
  show "deployment_lookup t' k = deployment_lookup t k" if "k \<noteq> deployment_key w" for k
    using that lookup [of k] by (cases "deployment_lookup t k") (auto simp: deployment_lookup_def dest: lookup_by_in)
qed


subsection \<open>Admission respects the limit of the scope\<close>

definition occupancy :: "string \<Rightarrow> int \<Rightarrow> deployment_db \<Rightarrow> int" where
  "occupancy scopeType scopeID db = int (length (filter (occupies scopeType scopeID) (dp_deployments db)))"

lemma checkDeploymentQuota_Inr:
  assumes "checkDeploymentQuota accounts installations d limit x db = Inr ()"
  shows "int (length (filter (\<lambda>r. occupies (dm_ScopeType d) (dm_ScopeID d) r \<and> (x = [] \<or> dr_ID r \<noteq> x)) (dp_deployments db))) < scope_limit limit"
    "dm_ScopeType d = AccountScopeTypeAccount \<or> dm_ScopeType d = AccountScopeTypeGitHubInstall"
  using assms by (auto simp: checkDeploymentQuota_def lockDeploymentScope_def Let_def scope_limit_def split: sum.splits if_splits)

lemma length_filter_imp: "(\<And>x. P x \<Longrightarrow> Q x) \<Longrightarrow> length (filter P xs) \<le> length (filter Q xs)"
  by (induction xs) auto

lemma filter_update_one:
  assumes "keys_unique key tbl" "\<And>r. P r \<Longrightarrow> key r = k" "\<And>r. P r \<Longrightarrow> key (f r) = key r"
  shows "length (filter Q (update_where P f tbl)) \<le> length (filter (\<lambda>r. Q r \<and> key r \<noteq> k) tbl) + 1"
  using assms(1)
proof (induction tbl)
  case (Cons r tbl)
  have tail: "keys_unique key tbl" using Cons.prems by (simp add: keys_unique_def)
  show ?case
  proof (cases "key r = k")
    case True
    then have no: "key x \<noteq> k" if "x \<in> set tbl" for x using Cons.prems that by (auto simp: keys_unique_def image_iff)
    then have "update_where P f tbl = tbl" using assms(2) by (induction tbl) auto
    moreover have "filter (\<lambda>r. Q r \<and> key r \<noteq> k) tbl = filter Q tbl" using no by (auto intro!: filter_cong)
    ultimately show ?thesis using True by simp
  next
    case False
    then show ?thesis using Cons.IH [OF tail] assms(2) [of r] by auto
  qed
qed simp

lemma RetryDeploymentWithScopeLimit_limit:
  assumes ok: "deployments_ok db" and retry: "RetryDeploymentWithScopeLimit accounts installations now d expiresAt limit db = Inr db'"
  shows "occupancy (dm_ScopeType d) (dm_ScopeID d) db' \<le> scope_limit limit"
proof -
  let ?occ = "occupies (dm_ScopeType d) (dm_ScopeID d)"
  have quota: "checkDeploymentQuota accounts installations d limit (dm_ID d) db = Inr ()" and step: "retryDeployment now d expiresAt db = Inr db'"
    using retry by (auto simp: RetryDeploymentWithScopeLimit_def split: sum.splits)
  obtain t where rows: "dp_deployments db' = update_where (retry_target d) (retry_deployment_columns now d t) (dp_deployments db)"
    using retryDeployment_Inr [OF ok step] by (metis (no_types, lifting) deployment_db.select_convs(1) deployment_db.surjective deployment_db.update_convs(1,2))
  have "length (filter ?occ (dp_deployments db')) \<le> length (filter (\<lambda>r. ?occ r \<and> dr_ID r \<noteq> dm_ID d) (dp_deployments db)) + 1"
    unfolding rows by (rule filter_update_one [OF deployments_okD(1) [OF ok]]) (simp_all add: retry_target_def)
  moreover have "length (filter (\<lambda>r. ?occ r \<and> dr_ID r \<noteq> dm_ID d) (dp_deployments db))
      \<le> length (filter (\<lambda>r. ?occ r \<and> (dm_ID d = [] \<or> dr_ID r \<noteq> dm_ID d)) (dp_deployments db))"
    by (rule length_filter_imp) auto
  ultimately show ?thesis using checkDeploymentQuota_Inr(1) [OF quota] by (simp add: occupancy_def)
qed


lemma normalizeDeployment_error: "normalizeDeployment d = Inl e \<Longrightarrow> e \<noteq> ErrDeploymentQuotaExceeded"
  unfolding normalizeDeployment_def Let_def by (clarsimp split: if_split_asm)

lemma createDeployment_error: "createDeployment now d db = Inl e \<Longrightarrow> e \<noteq> ErrDeploymentQuotaExceeded"
  using normalizeDeployment_error [of "d \<lparr> dm_RevisionNumber := 1 \<rparr>" e] by (auto simp: createDeployment_def Let_def split: sum.splits if_splits)

lemma createDeployment_occupancy:
  assumes "createDeployment now d db = Inr (db', d')"
  shows "occupancy scopeType scopeID db' \<le> occupancy scopeType scopeID db + 1"
  by (rule createDeployment_Inr [OF assms]) (simp add: occupancy_def)

lemma occupancy_full:
  assumes "lockDeploymentScope accounts installations d = Inr ()"
  shows "checkDeploymentQuota accounts installations d limit [] db
    = (if occupancy (dm_ScopeType d) (dm_ScopeID d) db < scope_limit limit then Inr () else Inl ErrDeploymentQuotaExceeded)"
  using assms by (auto simp: checkDeploymentQuota_def Let_def occupancy_def scope_limit_def)

lemma lockDeploymentScope_error: "lockDeploymentScope accounts installations d = Inl e \<Longrightarrow> e \<noteq> ErrDeploymentQuotaExceeded"
  by (auto simp: lockDeploymentScope_def split: if_splits)

subsection \<open>Properties\<close>

definition sample_deployment :: Deployment where
  "sample_deployment = \<lparr>
     dm_CreateRequestHash = [], dm_ExecutionAccountID = 1, dm_RevisionNumber = 1, dm_ID = ''d1'', dm_AccountID = 1,
     dm_ScopeType = AccountScopeTypeAccount, dm_ScopeID = 1, dm_GitHubInstallationID = 4, dm_RepositoryID = 5, dm_RepositoryFullName = ''o/r'',
     dm_Ref = ''main'', dm_CommitSHA = replicate 40 (CHR ''a''), dm_ConfigPath = ''app/deploy.yml'', dm_SnapshotVersion = 1, dm_SpecHash = ''h'',
     dm_SpecJSONEncrypted = ''s'', dm_Status = [], dm_SandboxID = [], dm_Attempt = 0, dm_RuntimeID = [], dm_ProcessID = [], dm_ProcessTag = [],
     dm_SandboxAPIURL = [], dm_SandboxAPIKeyEncrypted = [], dm_SandboxConfigSource = [], dm_SandboxRegion = [], dm_DeploymentTemplateID = [],
     dm_DeploymentTemplateName = [], dm_DeploymentTemplateCPU = 0, dm_DeploymentTemplateMemoryMB = 0, dm_DeploymentTemplateDiskMB = 0, dm_Endpoint = [],
     dm_FailureStage = [], dm_FailureReason = [], dm_Error = [], dm_ExpiresAt = 900, dm_CreatedAt = zero_time, dm_PlanningAt = zero_time,
     dm_CreatingAt = zero_time, dm_RunningAt = zero_time, dm_StoppingAt = zero_time, dm_CompletedAt = zero_time, dm_FailedAt = zero_time,
     dm_UpdatedAt = zero_time, dm_Version = 0, dm_SourceRepositoryID = 0, dm_SourceRepositoryFullName = [], dm_SourceRef = [], dm_PullRequestTitle = [] \<rparr>"

definition sample_deployment_row :: deploymentRecord where
  "sample_deployment_row = applyDeploymentTimestamps (deployment_row (fill_defaults 5 sample_deployment)) 5"

definition sample_db :: deployment_db where
  "sample_db = \<lparr> dp_deployments = [sample_deployment_row], dp_revisions = [revisionRecordFromDeployment sample_deployment_row (dr_CreatedAt sample_deployment_row)], dp_events = [] \<rparr>"

definition sample_event :: DeploymentEvent where
  "sample_event = \<lparr> dn_RevisionNumber = 0, dn_ID = 0, dn_DeploymentID = ''d1'', dn_Attempt = 1, dn_EventType = ''log'', dn_Stage = ''run'', dn_Stream = ''stdout'',
     dn_Message = ''hello'', dn_CreatedAt = 7 \<rparr>"

lemma sample_deployment_normal: "normalizeDeployment sample_deployment = Inr sample_deployment"
proof -
  have parts: "TrimSpace ''d1'' = ''d1''" "\<not> has_control ''d1''" "TrimSpace AccountScopeTypeAccount = AccountScopeTypeAccount" "TrimSpace ''o/r'' = ''o/r''"
    "deploymentRepositoryPattern ''o/r''" "\<not> has_control ''o/r''" "TrimSpace ''main'' = ''main''" "\<not> has_control ''main''"
    "TrimSpace (replicate 40 (CHR ''a'')) = replicate 40 (CHR ''a'')" "validDeploymentCommit (replicate 40 (CHR ''a''))"
    "path_Clean (TrimSpace ''app/deploy.yml'') = ''app/deploy.yml''" "\<not> has_control ''app/deploy.yml''" "TrimSpace ''h'' = ''h''" "TrimSpace ''s'' = ''s''"
    "TrimSpace [] = []" "\<not> has_control []" "\<not> IsZero 900"
    by code_simp+
  have "valid_config_path ''app/deploy.yml''" by (simp add: valid_config_path_def HasPrefix_def parts)
  note parts = parts this
  show ?thesis unfolding normalizeDeployment_def Let_def by (simp add: sample_deployment_def parts)
qed

lemma sample_db_step: "CreateDeployment 5 sample_deployment empty_deployments = Inr (sample_db, deploymentFromRecord sample_deployment_row)"
proof -
  have "sample_deployment \<lparr> dm_RevisionNumber := 1 \<rparr> = sample_deployment" by (simp add: sample_deployment_def)
  then show ?thesis
    by (simp add: CreateDeployment_def createDeployment_def sample_deployment_normal sample_deployment_row_def [symmetric] sample_db_def empty_deployments_def Let_def)
qed

lemma sample_deployment_row_simps: "dr_ID sample_deployment_row = ''d1''" "dr_RevisionNumber sample_deployment_row = 1"
  by (simp_all add: sample_deployment_row_def sample_deployment_def)

lemma sample_db_ok: "deployments_ok sample_db"
  using deployment_step_ok [OF step_create [OF sample_db_step] deployments_ok_empty] .

lemma insort_key_append_last: "f e \<le> f x \<Longrightarrow> insort_key f e (es @ [x]) = insort_key f e es @ [x]"
  by (induction es) auto

lemma sort_key_append_last: "\<forall>e\<in>set es. f e \<le> f x \<Longrightarrow> sort_key f (es @ [x]) = sort_key f es @ [x]"
  by (induction es) (auto simp: insort_key_append_last)

text \<open>C33: whatever is written to the tables of the deployments, in whatever order and by however many workers, the keys stay unique,
  every event belongs to a revision and every revision to a deployment, a deployment points to its latest revision, and the event
  counters of a revision are those of its timeline and within the limits.\<close>

theorem deployments_stay_consistent:
  assumes "deployment_step\<^sup>*\<^sup>* empty_deployments db"
  shows "deployments_ok db"
  using assms by (induction rule: rtranclp_induct) (auto intro: deployments_ok_empty deployment_step_ok)

theorem deployments_stay_consistent_witness: "deployments_ok sample_db \<and> length (dp_deployments sample_db) = 1"
proof -
  have "deployment_step\<^sup>*\<^sup>* empty_deployments sample_db" using step_create [OF sample_db_step] by simp
  then have "deployments_ok sample_db" by (rule deployments_stay_consistent)
  moreover have "length (dp_deployments sample_db) = 1" by (simp add: sample_db_def)
  ultimately show ?thesis by simp
qed

text \<open>C34: the timeline of a revision keeps its newest events. After an event was appended, the timeline is the longest end of the old one
  that leaves room for it, followed by the event as the last; it has at most 2000 events and 8 MiB of messages. The events of all other
  revisions are untouched.\<close>

theorem AppendDeploymentEvent_keeps_newest:
  assumes ok: "deployments_ok db" and append: "AppendDeploymentEvent now event db = Inr db'"
    and owner: "lookup_by dr_ID (dn_DeploymentID (normalize_event now event)) (dp_deployments db) = Some owner"
    and key: "i = dr_ID owner" "n = dr_RevisionNumber owner"
  shows "sort_key dn_ID (timeline i n db')
      = keep_newest (event_bytes (normalize_event now event)) (sort_key dn_ID (timeline i n db)) @ [stored_event now event n db]
    \<and> length (timeline i n db') \<le> 2000 \<and> sum_bytes (timeline i n db') \<le> 8388608
    \<and> filter (\<lambda>e. \<not> of_revision i n e) (dp_events db') = filter (\<lambda>e. \<not> of_revision i n e) (dp_events db)"
proof -
  let ?event = "normalize_event now event" and ?new = "stored_event now event n db"
  have i: "i = dn_DeploymentID ?event" using lookup_by_in [OF owner] key by simp
  have valid: "valid_event_identity ?event" "dn_RevisionNumber ?event \<le> 0 \<or> dn_RevisionNumber ?event = n"
    using AppendDeploymentEvent_needs [OF append] owner key by (metis option.inject)+
  obtain events' where events: "dp_events db' = events' @ [?new]"
    and kept: "sort_key dn_ID (filter (of_revision i n) events') = keep_newest (event_bytes ?event) (sort_key dn_ID (timeline i n db))"
    and rest: "filter (\<lambda>e. \<not> of_revision i n e) events' = filter (\<lambda>e. \<not> of_revision i n e) (dp_events db)" and old: "set events' \<subseteq> set (dp_events db)"
    by (rule AppendDeploymentEvent_accepts [OF ok refl i valid(1) owner [folded i] key(2) valid(2)]) (use append in auto)
  have new: "of_revision i n ?new" by (simp add: of_revision_def i)
  have line: "timeline i n db' = filter (of_revision i n) events' @ [?new]" using new by (simp add: timeline_def events)
  have "\<forall>e\<in>set events'. dn_ID e \<le> dn_ID ?new" using old fresh_id_above [of _ "map dn_ID (dp_events db)"] by (force simp: less_imp_le)
  then have sorted: "sort_key dn_ID (timeline i n db') = sort_key dn_ID (filter (of_revision i n) events') @ [?new]"
    unfolding line by (intro sort_key_append_last) simp
  have "\<not> over_budget (event_bytes ?event) (int (length (filter (of_revision i n) events'))) (sum_bytes (filter (of_revision i n) events'))"
    using keep_newest_within [OF normalize_event_bytes] kept by (metis length_sort sum_bytes_sort)
  then have "length (timeline i n db') \<le> 2000" "sum_bytes (timeline i n db') \<le> 8388608"
    by (simp_all add: line over_budget_def maxDeploymentEvents_def maxDeploymentEventBytes_def)
  then show ?thesis using sorted kept rest new by (simp add: events)
qed


theorem AppendDeploymentEvent_keeps_newest_witness:
  "\<exists>db'. AppendDeploymentEvent 9 sample_event sample_db = Inr db'
    \<and> sort_key dn_ID (timeline ''d1'' 1 db') = keep_newest 5 (sort_key dn_ID (timeline ''d1'' 1 sample_db)) @ [stored_event 9 sample_event 1 sample_db]
    \<and> length (timeline ''d1'' 1 db') \<le> 2000 \<and> sum_bytes (timeline ''d1'' 1 db') \<le> 8388608
    \<and> filter (\<lambda>e. \<not> of_revision ''d1'' 1 e) (dp_events db') = filter (\<lambda>e. \<not> of_revision ''d1'' 1 e) (dp_events sample_db)"
proof -
  have trim: "TrimSpace ''d1'' = ''d1''" "TrimSpace ''log'' = ''log''" "TrimSpace ''run'' = ''run''" "TrimSpace ''stdout'' = ''stdout''" "\<not> IsZero 7" by code_simp+
  have event: "normalize_event 9 sample_event = sample_event" by (simp add: normalize_event_def sample_event_def trim maxDeploymentEventMessage_def)
  have valid: "valid_event_identity sample_event" by code_simp
  have i: "''d1'' = dn_DeploymentID sample_event" "dn_RevisionNumber sample_event \<le> 0 \<or> dn_RevisionNumber sample_event = 1" and bytes: "event_bytes sample_event = 5"
    by (simp_all add: sample_event_def event_bytes_def)
  have owner: "lookup_by dr_ID ''d1'' (dp_deployments sample_db) = Some sample_deployment_row" by (simp add: sample_db_def lookup_by_def sample_deployment_row_simps)
  obtain db' where db': "AppendDeploymentEvent 9 sample_event sample_db = Inr db'"
    by (rule AppendDeploymentEvent_accepts [OF sample_db_ok event [symmetric] i(1) valid owner sample_deployment_row_simps(2) [symmetric] i(2)])
  from AppendDeploymentEvent_keeps_newest [OF sample_db_ok db' _ sample_deployment_row_simps(1) [symmetric] sample_deployment_row_simps(2) [symmetric]] show ?thesis
    using db' owner by (simp add: event i(1) [symmetric] bytes)
qed

text \<open>C35: a scope is never over its limit because of an admission. When a deployment is admitted, the deployments of its scope that are active,
  or failed with a sandbox left, are at most as many as the limit allows, three when no limit is set. It is refused for the quota exactly
  when its scope exists and is full.\<close>

theorem scope_admission_exact:
  "case CreateDeploymentWithScopeLimit accounts installations now d limit db of
     Inr (db', _) \<Rightarrow> occupancy (dm_ScopeType d) (dm_ScopeID d) db' \<le> scope_limit limit
   | Inl e \<Rightarrow> e = ErrDeploymentQuotaExceeded \<longleftrightarrow>
       lockDeploymentScope accounts installations d = Inr () \<and> scope_limit limit \<le> occupancy (dm_ScopeType d) (dm_ScopeID d) db"
proof (cases "lockDeploymentScope accounts installations d")
  case (Inl e)
  then show ?thesis using lockDeploymentScope_error [OF Inl] by (simp add: CreateDeploymentWithScopeLimit_def checkDeploymentQuota_def)
next
  case (Inr u)
  then show ?thesis
    by (auto simp: CreateDeploymentWithScopeLimit_def occupancy_full split: sum.split prod.split
        dest: createDeployment_error createDeployment_occupancy [of _ _ _ _ _ "dm_ScopeType d" "dm_ScopeID d"])
qed

text \<open>Of all workers that read the same version of a deployment, at most one has its update accepted, in any order of the attempts and
  whatever else they write.\<close>

theorem UpdateDeployment_one_winner:
  assumes "deployments_ok db"
  shows "length (filter (\<lambda>w. deployment_key w = i \<and> deployment_expected w = v) (snd (run_writes deployment_cas ws db))) \<le> 1"
  using assms by (rule deployments.one_winner)

theorem UpdateDeployment_one_winner_witness:
  "length (filter (\<lambda>w. deployment_key w = ''d1'' \<and> deployment_expected w = 0)
     (snd (run_writes deployment_cas [(6, sample_deployment \<lparr> dm_Status := ''planning'' \<rparr>), (7, sample_deployment \<lparr> dm_Status := ''failed'' \<rparr>)] sample_db))) \<le> 1"
  by (rule UpdateDeployment_one_winner [OF sample_db_ok])

text \<open>The configuration path that is stored never leads out of the repository: it is a sequence of names, none of them empty, a dot or two dots.\<close>

theorem config_path_stays_inside:
  assumes "normalizeDeployment d0 = Inr d"
  shows "list_all (\<lambda>c. c \<noteq> [] \<and> c \<noteq> ''.'' \<and> c \<noteq> ''..'') (Split (CHR ''/'') (dm_ConfigPath d))"
  using valid_config_path_components [of "TrimSpace (dm_ConfigPath d0)"] normalizeDeployment_Inr(8,9) [OF assms] by simp

theorem config_path_stays_inside_witness:
  "\<exists>d. normalizeDeployment sample_deployment = Inr d \<and> list_all (\<lambda>c. c \<noteq> [] \<and> c \<noteq> ''.'' \<and> c \<noteq> ''..'') (Split (CHR ''/'') (dm_ConfigPath d))
     \<and> dm_ConfigPath d = ''app/deploy.yml''"
  using config_path_stays_inside [OF sample_deployment_normal] sample_deployment_normal by (simp add: sample_deployment_def)

end
