(* ===== verification/DeploymentQueries.thy ===== *)
theory DeploymentQueries
  imports Deployments
begin

text \<open>
  The queries of the deployment tables: lists with their counts, the pages of work that the scheduler walks,
  revisions and events (\<^verbatim>\<open>internal/state/deployments.go\<close>, \<^verbatim>\<open>deployment_revisions.go\<close>). A list reads the page and the
  matching revisions in statements of their own; \<open>other\<close> is what commits between the two.
\<close>

subsection \<open>Lists\<close>

record DeploymentListOptions =
  dl_RepositoryFullName :: string
  dl_Ref :: string
  dl_CommitSHA :: string
  dl_Status :: string
  dl_Limit :: int
  dl_Offset :: int

record DeploymentStatusCounts =
  dc_All :: int
  dc_Running :: int
  dc_Processing :: int
  dc_Stopped :: int
  dc_Failed :: int

definition normalizeDeploymentPagination :: "DeploymentListOptions \<Rightarrow> (int \<times> int) result" where
  "normalizeDeploymentPagination options =
     (let limit = (if dl_Limit options = 0 then 100 else dl_Limit options)
      in if limit < 0 \<or> limit > 500 \<or> dl_Offset options < 0 then Inl (Errorf ''deployment pagination is invalid'')
         else Inr (limit, dl_Offset options))"

fun status_groups :: "string list \<Rightarrow> string list \<Rightarrow> string list \<Rightarrow> string list result" where
  "status_groups [] seen statuses = Inr statuses"
| "status_groups (g # groups) seen statuses =
     (if g \<in> set seen then Inl (Errorf ''invalid deployment status filter'')
      else if g = ''running'' then status_groups groups (g # seen) (statuses @ [DeploymentStatusRunning])
      else if g = ''processing''
        then status_groups groups (g # seen) (statuses @ [DeploymentStatusQueued, DeploymentStatusPlanning, DeploymentStatusCreating, DeploymentStatusStopping])
      else if g = ''stopped'' then status_groups groups (g # seen) (statuses @ [DeploymentStatusCompleted, DeploymentStatusExpired])
      else if g = ''failed'' then status_groups groups (g # seen) (statuses @ [DeploymentStatusFailed])
      else Inl (Errorf ''invalid deployment status filter''))"

definition DeploymentListStatusValues :: "string \<Rightarrow> string list result" where
  "DeploymentListStatusValues status =
     (if status = [] \<or> status = ''all'' then Inr [] else status_groups (Split (CHR '','') status) [] [])"

definition deploymentRevisionListQuery :: "DeploymentListOptions \<Rightarrow> deployment_db \<Rightarrow> deploymentRevisionRecord list" where
  "deploymentRevisionListQuery options db =
     filter (\<lambda>v. (dl_Ref options = [] \<or> dv_Ref v = dl_Ref options) \<and> (dl_CommitSHA options = [] \<or> dv_CommitSHA v = dl_CommitSHA options)) (dp_revisions db)"

definition authorizedDeploymentRepositories :: "GitHubInstallationRepositoryAccess list \<Rightarrow> deploymentRecord \<Rightarrow> bool" where
  "authorizedDeploymentRepositories access r \<longleftrightarrow>
     list_ex (\<lambda>item. dr_GitHubInstallationID r = ra_InstallationID item \<and> ToLower (dr_RepositoryFullName r) \<in> set (ra_Repositories item))
       (normalizeGitHubInstallationRepositoryAccess access)"

definition by_revision :: "DeploymentListOptions \<Rightarrow> bool" where
  "by_revision options \<longleftrightarrow> dl_Ref options \<noteq> [] \<or> dl_CommitSHA options \<noteq> []"

definition deploymentListQuery ::
  "int \<Rightarrow> GitHubInstallationRepositoryAccess list \<Rightarrow> bool \<Rightarrow> DeploymentListOptions \<Rightarrow> deployment_db \<Rightarrow> deploymentRecord list" where
  "deploymentListQuery accountID access authorized options db =
     filter (\<lambda>r. (authorized \<or> dr_AccountID r = accountID)
       \<and> (dl_RepositoryFullName options = [] \<or> ToLower (dr_RepositoryFullName r) = ToLower (dl_RepositoryFullName options))
       \<and> (by_revision options \<longrightarrow> dr_ID r \<in> set (map dv_DeploymentID (deploymentRevisionListQuery options db)))
       \<and> (authorized \<longrightarrow> authorizedDeploymentRepositories access r)) (dp_deployments db)"

definition add_status_group :: "string \<times> int \<Rightarrow> DeploymentStatusCounts \<Rightarrow> DeploymentStatusCounts" where
  "add_status_group g c0 =
     (case g of (status, n) \<Rightarrow>
        let c = c0 \<lparr> dc_All := dc_All c0 + n \<rparr>
        in if status = DeploymentStatusRunning then c \<lparr> dc_Running := dc_Running c + n \<rparr>
           else if status \<in> {DeploymentStatusQueued, DeploymentStatusPlanning, DeploymentStatusCreating, DeploymentStatusStopping}
             then c \<lparr> dc_Processing := dc_Processing c + n \<rparr>
           else if status \<in> {DeploymentStatusCompleted, DeploymentStatusExpired} then c \<lparr> dc_Stopped := dc_Stopped c + n \<rparr>
           else if status = DeploymentStatusFailed then c \<lparr> dc_Failed := dc_Failed c + n \<rparr>
           else c)"

definition group_by_status :: "deploymentRecord list \<Rightarrow> (string \<times> int) list" where
  "group_by_status rows = map (\<lambda>s. (s, int (length (filter (\<lambda>r. dr_Status r = s) rows)))) (remdups (map dr_Status rows))"

definition CountAuthorizedDeploymentsByStatus ::
  "GitHubInstallationRepositoryAccess list \<Rightarrow> DeploymentListOptions \<Rightarrow> deployment_db \<Rightarrow> DeploymentStatusCounts" where
  "CountAuthorizedDeploymentsByStatus access options db =
     fold add_status_group (group_by_status (deploymentListQuery 0 access True options db))
       \<lparr> dc_All = 0, dc_Running = 0, dc_Processing = 0, dc_Stopped = 0, dc_Failed = 0 \<rparr>"

text \<open>Newest first; without a filter of the status, active work comes before the terminal history.\<close>

definition status_rank :: "string \<Rightarrow> nat" where
  "status_rank status =
     (if status = ''running'' then 0 else if status \<in> {''queued'', ''planning'', ''creating'', ''stopping''} then 1 else 2)"

definition order_deployments :: "DeploymentListOptions \<Rightarrow> deploymentRecord list \<Rightarrow> deploymentRecord list" where
  "order_deployments options rows =
     (let newest = sort_key (\<lambda>r. - dr_CreatedAt r) (rev (sort_key dr_ID rows))
      in if dl_Status options = [] \<or> dl_Status options = ''all'' then sort_key (\<lambda>r. status_rank (dr_Status r)) newest else newest)"

definition latest_revision :: "DeploymentListOptions \<Rightarrow> string \<Rightarrow> deployment_db \<Rightarrow> deploymentRevisionRecord option" where
  "latest_revision options i db =
     (case rev (sort_key dv_Number (filter (\<lambda>v. dv_DeploymentID v = i) (deploymentRevisionListQuery options db))) of [] \<Rightarrow> None | v # _ \<Rightarrow> Some v)"

definition load_item :: "DeploymentListOptions \<Rightarrow> deployment_db \<Rightarrow> deploymentRecord \<Rightarrow> (Deployment \<times> DeploymentRevision option) result" where
  "load_item options db r =
     (if by_revision options
      then (case latest_revision options (dr_ID r) db of
              None \<Rightarrow> Inl ErrNotFound
            | Some v \<Rightarrow> Inr (deploymentFromRecord r, Some (revisionFromRecord v r)))
      else Inr (deploymentFromRecord r, None))"

definition loadDeploymentPage ::
  "(deployment_db \<Rightarrow> deployment_db) \<Rightarrow> DeploymentListOptions \<Rightarrow> int \<Rightarrow> int \<Rightarrow> deploymentRecord list \<Rightarrow> deployment_db
    \<Rightarrow> (Deployment \<times> DeploymentRevision option) list result" where
  "loadDeploymentPage other options limit offset rows db =
     map_result (load_item options (other db)) (take (nat limit) (drop (nat offset) (order_deployments options rows)))"

definition listDeploymentsForAccount ::
  "(nat \<Rightarrow> deployment_db \<Rightarrow> deployment_db) \<Rightarrow> int \<Rightarrow> GitHubInstallationRepositoryAccess list \<Rightarrow> bool \<Rightarrow> DeploymentListOptions \<Rightarrow> deployment_db
    \<Rightarrow> ((Deployment \<times> DeploymentRevision option) list \<times> int) result" where
  "listDeploymentsForAccount other accountID access authorized options db =
     (if \<not> authorized \<and> accountID \<le> 0 then Inl (Errorf ''account id must be positive'')
      else case normalizeDeploymentPagination options of
        Inl e \<Rightarrow> Inl e
      | Inr (limit, offset) \<Rightarrow>
          (case DeploymentListStatusValues (dl_Status options) of
             Inl e \<Rightarrow> Inl e
           | Inr statuses \<Rightarrow>
               let query = (\<lambda>db. filter (\<lambda>r. statuses = [] \<or> dr_Status r \<in> set statuses) (deploymentListQuery accountID access authorized options db));
                   n = int (length (query db));
                   db1 = other 0 db
               in map_sum id (\<lambda>items. (items, n)) (loadDeploymentPage (other 1) options limit offset (query db1) db1)))"

definition ListDeploymentsForAccount ::
  "(nat \<Rightarrow> deployment_db \<Rightarrow> deployment_db) \<Rightarrow> int \<Rightarrow> DeploymentListOptions \<Rightarrow> deployment_db \<Rightarrow> ((Deployment \<times> DeploymentRevision option) list \<times> int) result" where
  "ListDeploymentsForAccount other accountID options db = listDeploymentsForAccount other accountID [] False options db"

definition ListAuthorizedDeployments ::
  "(nat \<Rightarrow> deployment_db \<Rightarrow> deployment_db) \<Rightarrow> GitHubInstallationRepositoryAccess list \<Rightarrow> DeploymentListOptions \<Rightarrow> deployment_db
    \<Rightarrow> ((Deployment \<times> DeploymentRevision option) list \<times> int) result" where
  "ListAuthorizedDeployments other access options db = listDeploymentsForAccount other 0 access True options db"

definition group_total :: "DeploymentStatusCounts \<Rightarrow> string \<Rightarrow> int" where
  "group_total counts g =
     (if g = ''running'' then dc_Running counts else if g = ''processing'' then dc_Processing counts
      else if g = ''stopped'' then dc_Stopped counts else if g = ''failed'' then dc_Failed counts else 0)"

definition ListAuthorizedDeploymentsWithCounts ::
  "(nat \<Rightarrow> deployment_db \<Rightarrow> deployment_db) \<Rightarrow> GitHubInstallationRepositoryAccess list \<Rightarrow> DeploymentListOptions \<Rightarrow> deployment_db
    \<Rightarrow> ((Deployment \<times> DeploymentRevision option) list \<times> int \<times> DeploymentStatusCounts) result" where
  "ListAuthorizedDeploymentsWithCounts other access options db =
     (case normalizeDeploymentPagination options of
        Inl e \<Rightarrow> Inl e
      | Inr (limit, offset) \<Rightarrow>
          (case DeploymentListStatusValues (dl_Status options) of
             Inl e \<Rightarrow> Inl e
           | Inr statuses \<Rightarrow>
               let counts = CountAuthorizedDeploymentsByStatus access options db;
                   n = (if statuses = [] then dc_All counts else sum_list (map (group_total counts) (Split (CHR '','') (dl_Status options))));
                   db1 = other 0 db;
                   rows = filter (\<lambda>r. statuses = [] \<or> dr_Status r \<in> set statuses) (deploymentListQuery 0 access True options db1)
               in map_sum id (\<lambda>items. (items, n, counts)) (loadDeploymentPage (other 1) options limit offset rows db1)))"


subsection \<open>Work of the scheduler\<close>

definition provision_statuses :: "string list" where
  "provision_statuses = [DeploymentStatusQueued, DeploymentStatusPlanning, DeploymentStatusCreating]"

text \<open>The branches of a lane: each is a candidate query of its own for \<open>cleanup\<close> and \<open>all\<close>, and the whole condition otherwise.\<close>

definition work_branches :: "string \<Rightarrow> instant \<Rightarrow> (deploymentRecord \<Rightarrow> bool) list result" where
  "work_branches kind now =
     (if kind = ''provision'' then Inr [\<lambda>r. dr_Status r \<in> set provision_statuses \<and> dr_ExpiresAt r > now]
      else if kind = ''monitor'' then Inr [\<lambda>r. dr_Status r = DeploymentStatusRunning \<and> dr_ExpiresAt r > now]
      else if kind = ''cleanup'' then Inr
        [\<lambda>r. dr_Status r = DeploymentStatusStopping,
         \<lambda>r. dr_Status r = DeploymentStatusFailed \<and> dr_SandboxID r \<noteq> [],
         \<lambda>r. dr_Status r \<in> set (provision_statuses @ [DeploymentStatusRunning]) \<and> dr_ExpiresAt r \<le> now]
      else if kind = ''all'' then Inr
        [\<lambda>r. dr_Status r \<in> set active_statuses,
         \<lambda>r. dr_Status r = DeploymentStatusFailed \<and> dr_SandboxID r \<noteq> []]
      else Inl (Errorf ''invalid deployment work kind''))"

definition workIDs :: "(deploymentRecord \<Rightarrow> bool) \<Rightarrow> string \<Rightarrow> int \<Rightarrow> deployment_db \<Rightarrow> string list" where
  "workIDs P afterID limit db =
     take (nat (limit + 1)) (map dr_ID (sort_key dr_ID (filter (\<lambda>r. P r \<and> afterID < dr_ID r) (dp_deployments db))))"

definition work_query :: "string \<Rightarrow> (deploymentRecord \<Rightarrow> bool) list \<Rightarrow> string \<Rightarrow> int \<Rightarrow> deployment_db \<Rightarrow> deploymentRecord \<Rightarrow> bool" where
  "work_query kind branches afterID limit db r \<longleftrightarrow>
     (if kind = ''cleanup'' \<or> kind = ''all'' then dr_ID r \<in> set (concat (map (\<lambda>P. workIDs P afterID limit db) branches))
      else list_ex (\<lambda>P. P r) branches)"

definition ListDeploymentWork :: "string \<Rightarrow> string \<Rightarrow> int \<Rightarrow> instant \<Rightarrow> deployment_db \<Rightarrow> (Deployment list \<times> bool) result" where
  "ListDeploymentWork kind afterID limit now db =
     (if limit \<le> 0 \<or> limit > 100 \<or> IsZero now then Inl (Errorf ''invalid deployment work page'')
      else case work_branches kind now of
        Inl e \<Rightarrow> Inl e
      | Inr branches \<Rightarrow>
          let records = take (nat (limit + 1)) (sort_key dr_ID
                (filter (\<lambda>r. work_query kind branches afterID limit db r \<and> (afterID = [] \<or> afterID < dr_ID r)) (dp_deployments db)));
              more_left = int (length records) > limit;
              page = (if more_left then take (nat limit) records else records)
          in Inr (map deploymentFromRecord page, more_left))"

definition ListActiveDeployments :: "instant \<Rightarrow> deployment_db \<Rightarrow> Deployment list result" where
  "ListActiveDeployments now db = map_sum id fst (ListDeploymentWork ''all'' [] 100 now db)"

subsection \<open>Events and revisions\<close>

definition listDeploymentEvents :: "string \<Rightarrow> int \<Rightarrow> int \<Rightarrow> int \<Rightarrow> int \<Rightarrow> deployment_db \<Rightarrow> (DeploymentEvent list \<times> bool) result" where
  "listDeploymentEvents i0 revisionNumber beforeID afterID limit0 db =
     (let i = TrimSpace i0
      in if i = [] \<or> length i > 128 \<or> has_control i then Inl (Errorf ''deployment id is invalid'')
         else
           let limit = nat (min (max limit0 1) 500);
               rows = sort_key dn_ID (filter (\<lambda>e. dn_DeploymentID e = i \<and> (revisionNumber > 0 \<longrightarrow> dn_RevisionNumber e = revisionNumber)
                 \<and> (beforeID > 0 \<longrightarrow> dn_ID e < beforeID) \<and> (afterID > 0 \<longrightarrow> dn_ID e > afterID)) (dp_events db));
               records = take (limit + 1) (if afterID > 0 then rows else rev rows);
               hasMore = length records > limit;
               page = (if hasMore then take limit records else records)
           in Inr (if afterID = 0 then rev page else page, hasMore))"

definition ListDeploymentEvents :: "string \<Rightarrow> int \<Rightarrow> int \<Rightarrow> deployment_db \<Rightarrow> (DeploymentEvent list \<times> bool) result" where
  "ListDeploymentEvents i beforeID limit db = listDeploymentEvents i 0 beforeID 0 limit db"

definition ListDeploymentEventsAfter :: "string \<Rightarrow> int \<Rightarrow> int \<Rightarrow> deployment_db \<Rightarrow> (DeploymentEvent list \<times> bool) result" where
  "ListDeploymentEventsAfter i afterID limit db = listDeploymentEvents i 0 0 afterID limit db"

definition ListDeploymentRevisions ::
  "(deployment_db \<Rightarrow> deployment_db) \<Rightarrow> string \<Rightarrow> int \<Rightarrow> int \<Rightarrow> deployment_db \<Rightarrow> (DeploymentRevision list \<times> bool) result" where
  "ListDeploymentRevisions other i0 beforeNumber limit0 db =
     (let i = TrimSpace i0
      in if i = [] then Inl (Errorf ''deployment id is required'')
         else case lookup_by dr_ID i (dp_deployments db) of
           None \<Rightarrow> Inl ErrNotFound
         | Some identity \<Rightarrow>
             let limit = nat (min (max limit0 1) 100);
                 rows = take (limit + 1) (rev (sort_key dv_Number (filter (\<lambda>v. dv_DeploymentID v = i \<and> (beforeNumber > 0 \<longrightarrow> dv_Number v < beforeNumber))
                   (dp_revisions (other db)))));
                 more_left = length rows > limit
             in Inr (map (\<lambda>v. revisionFromRecord v identity) (if more_left then take limit rows else rows), more_left))"

definition GetDeploymentRevision :: "(deployment_db \<Rightarrow> deployment_db) \<Rightarrow> string \<Rightarrow> int \<Rightarrow> deployment_db \<Rightarrow> DeploymentRevision result" where
  "GetDeploymentRevision other i0 number db =
     (let i = TrimSpace i0
      in case lookup_by dr_ID i (dp_deployments db) of
           None \<Rightarrow> Inl ErrNotFound
         | Some identity \<Rightarrow>
             (case lookup_by revision_key (i, number) (dp_revisions (other db)) of
                None \<Rightarrow> Inl ErrNotFound
              | Some v \<Rightarrow> Inr (revisionFromRecord v identity)))"

definition ListDeploymentRevisionEvents ::
  "(nat \<Rightarrow> deployment_db \<Rightarrow> deployment_db) \<Rightarrow> string \<Rightarrow> int \<Rightarrow> int \<Rightarrow> int \<Rightarrow> int \<Rightarrow> deployment_db \<Rightarrow> (DeploymentEvent list \<times> bool) result" where
  "ListDeploymentRevisionEvents other i number beforeID afterID limit db =
     (case GetDeploymentRevision (other 0) i number db of
        Inl e \<Rightarrow> Inl e
      | Inr _ \<Rightarrow> listDeploymentEvents i number beforeID afterID limit (other 1 (other 0 db)))"

definition LastSuccessfulDeploymentRevisionNumber :: "string \<Rightarrow> deployment_db \<Rightarrow> int" where
  "LastSuccessfulDeploymentRevisionNumber i db =
     (case rev (sort_key dv_Number (filter (\<lambda>v. dv_DeploymentID v = i \<and> dv_RunningAt v \<noteq> None) (dp_revisions db))) of [] \<Rightarrow> 0 | v # _ \<Rightarrow> dv_Number v)"


subsection \<open>The counts and the list agree\<close>

lemma length_filter_sum: "int (length (filter P rows)) = (\<Sum>s\<leftarrow>remdups (map f rows). int (length (filter (\<lambda>r. f r = s \<and> P r) rows)))"
proof (induction rows)
  case (Cons r rows)
  let ?n = "\<lambda>s rows. int (length (filter (\<lambda>r. f r = s \<and> P r) rows))"
  have step: "?n s (r # rows) = ?n s rows + (if s = f r \<and> P r then 1 else 0)" for s by auto
  have one: "(\<Sum>s\<leftarrow>xs. (if s = f r \<and> P r then 1 else (0::int))) = (if f r \<in> set xs \<and> P r then 1 else 0)" if "distinct xs" for xs
    using that by (induction xs) auto
  have "(\<Sum>s\<leftarrow>remdups (map f (r # rows)). ?n s (r # rows)) = (\<Sum>s\<leftarrow>remdups (map f (r # rows)). ?n s rows) + (if P r then 1 else 0)"
    unfolding step sum_list_addf by (subst one) auto
  also have "(\<Sum>s\<leftarrow>remdups (map f (r # rows)). ?n s rows) = (\<Sum>s\<leftarrow>remdups (map f rows). ?n s rows)"
  proof (cases "f r \<in> f ` set rows")
    case False
    then have "filter (\<lambda>x. f x = f r \<and> P x) rows = []" by (auto simp: filter_empty_conv image_iff)
    then show ?thesis using False by simp
  qed simp
  finally show ?case using Cons.IH by auto
qed simp

text \<open>What the groups of the status counts count.\<close>

definition group_statuses :: "string \<Rightarrow> string list" where
  "group_statuses g =
     (if g = ''running'' then [DeploymentStatusRunning]
      else if g = ''processing'' then [DeploymentStatusQueued, DeploymentStatusPlanning, DeploymentStatusCreating, DeploymentStatusStopping]
      else if g = ''stopped'' then [DeploymentStatusCompleted, DeploymentStatusExpired]
      else if g = ''failed'' then [DeploymentStatusFailed] else [])"

lemma add_status_group_total:
  "group_total (add_status_group (s, n) c) g = group_total c g + (if s \<in> set (group_statuses g) then n else 0)"
  "dc_All (add_status_group (s, n) c) = dc_All c + n"
  by (simp_all add: add_status_group_def group_total_def group_statuses_def Let_def deployment_statuses)

lemma fold_group_total:
  "group_total (fold add_status_group gs c) g = group_total c g + (\<Sum>(s, n)\<leftarrow>gs. if s \<in> set (group_statuses g) then n else 0)"
  "dc_All (fold add_status_group gs c) = dc_All c + (\<Sum>(s, n)\<leftarrow>gs. n)"
  by (induction gs arbitrary: c) (auto simp: add_status_group_total)

lemma counts_direct:
  "group_total (CountAuthorizedDeploymentsByStatus access options db) g
     = int (length (filter (\<lambda>r. dr_Status r \<in> set (group_statuses g)) (deploymentListQuery 0 access True options db)))"
  "dc_All (CountAuthorizedDeploymentsByStatus access options db) = int (length (deploymentListQuery 0 access True options db))"
proof -
  let ?rows = "deploymentListQuery 0 access True options db"
  have "(\<Sum>(s, n)\<leftarrow>group_by_status ?rows. if s \<in> set (group_statuses g) then n else 0)
      = (\<Sum>s\<leftarrow>remdups (map dr_Status ?rows). int (length (filter (\<lambda>r. dr_Status r = s \<and> dr_Status r \<in> set (group_statuses g)) ?rows)))"
    unfolding group_by_status_def map_map comp_def by (intro arg_cong [of _ _ sum_list] map_cong refl) (auto intro!: arg_cong [of _ _ length] filter_cong)
  then show "group_total (CountAuthorizedDeploymentsByStatus access options db) g = int (length (filter (\<lambda>r. dr_Status r \<in> set (group_statuses g)) ?rows))"
    unfolding CountAuthorizedDeploymentsByStatus_def fold_group_total
    using length_filter_sum [of "\<lambda>r. dr_Status r \<in> set (group_statuses g)" ?rows dr_Status] by (simp add: group_total_def)
  have "(\<Sum>(s, n)\<leftarrow>group_by_status ?rows. n) = (\<Sum>s\<leftarrow>remdups (map dr_Status ?rows). int (length (filter (\<lambda>r. dr_Status r = s \<and> True) ?rows)))"
    by (simp add: group_by_status_def comp_def)
  then show "dc_All (CountAuthorizedDeploymentsByStatus access options db) = int (length ?rows)"
    unfolding CountAuthorizedDeploymentsByStatus_def fold_group_total using length_filter_sum [of "\<lambda>_. True" ?rows dr_Status] by simp
qed

lemma status_groups_Cons:
  "status_groups (g # gs) seen statuses =
     (if g \<in> set seen \<or> group_statuses g = [] then Inl (Errorf ''invalid deployment status filter'') else status_groups gs (g # seen) (statuses @ group_statuses g))"
  by (simp add: group_statuses_def)

lemma status_groups_Inr:
  assumes "status_groups gs seen statuses = Inr out"
  shows "out = statuses @ concat (map group_statuses gs)" "distinct gs" "set gs \<inter> set seen = {}" "\<forall>g\<in>set gs. group_statuses g \<noteq> []"
  using assms
proof (induction gs arbitrary: seen statuses)
  case (Cons g gs)
  {
    case 1
    then show ?case using Cons.IH(1) [of "g # seen" "statuses @ group_statuses g"] by (simp add: status_groups_Cons del: status_groups.simps(2) split: if_splits)
  next
    case 2
    then show ?case using Cons.IH(2,3) [of "g # seen"] by (auto simp: status_groups_Cons simp del: status_groups.simps(2) split: if_splits)
  next
    case 3
    then show ?case using Cons.IH(3) [of "g # seen"] by (auto simp: status_groups_Cons simp del: status_groups.simps(2) split: if_splits)
  next
    case 4
    then show ?case using Cons.IH(4) by (auto simp: status_groups_Cons simp del: status_groups.simps(2) split: if_splits)
  }
qed simp_all

lemma group_statuses_disjoint: "g \<noteq> h \<Longrightarrow> set (group_statuses g) \<inter> set (group_statuses h) = {}"
  by (auto simp: group_statuses_def deployment_statuses split: if_splits)

lemma length_filter_groups:
  assumes "distinct gs"
  shows "int (length (filter (\<lambda>r. dr_Status r \<in> set (concat (map group_statuses gs))) rows))
    = (\<Sum>g\<leftarrow>gs. int (length (filter (\<lambda>r. dr_Status r \<in> set (group_statuses g)) rows)))"
  using assms
proof (induction gs)
  case (Cons g gs)
  have split: "int (length (filter (\<lambda>r. dr_Status r \<in> A \<union> B) rows))
      = int (length (filter (\<lambda>r. dr_Status r \<in> A) rows)) + int (length (filter (\<lambda>r. dr_Status r \<in> B) rows))" if "A \<inter> B = {}" for A B
    using that by (induction rows) auto
  have "set (group_statuses g) \<inter> set (concat (map group_statuses gs)) = {}"
    using Cons.prems group_statuses_disjoint [of g] by fastforce
  from split [OF this] Cons show ?case by (simp only: concat.simps list.map set_append sum_list.Cons distinct.simps)
qed simp

text \<open>The list that reuses the status counts for its total is the list that counts its rows: the same page, the same total and the same errors.\<close>

theorem ListAuthorizedDeploymentsWithCounts_total:
  "map_sum id (\<lambda>(items, n, counts). (items, n)) (ListAuthorizedDeploymentsWithCounts other access options db) = ListAuthorizedDeployments other access options db"
proof -
  let ?rows = "deploymentListQuery 0 access True options db" and ?counts = "CountAuthorizedDeploymentsByStatus access options db"
  have "(if statuses = [] then dc_All ?counts else sum_list (map (group_total ?counts) (Split (CHR '','') (dl_Status options))))
      = int (length (filter (\<lambda>r. statuses = [] \<or> dr_Status r \<in> set statuses) ?rows))"
    if statuses: "DeploymentListStatusValues (dl_Status options) = Inr statuses" for statuses
  proof (cases "dl_Status options = [] \<or> dl_Status options = ''all''")
    case False
    let ?gs = "Split (CHR '','') (dl_Status options)"
    have "status_groups ?gs [] [] = Inr statuses" using statuses False by (simp add: DeploymentListStatusValues_def)
    note groups = status_groups_Inr [OF this]
    have "statuses \<noteq> []" using groups(1,4) Split_nonempty [of "CHR '',''" "dl_Status options"] by (cases ?gs) auto
    moreover have "group_total ?counts = (\<lambda>g. int (length (filter (\<lambda>r. dr_Status r \<in> set (group_statuses g)) ?rows)))"
      by (simp add: fun_eq_iff counts_direct)
    ultimately show ?thesis
      using length_filter_groups [OF groups(2), of ?rows] groups(1) by (simp only: append_Nil if_False simp_thms)
  qed (use statuses in \<open>auto simp: DeploymentListStatusValues_def counts_direct\<close>)
  then show ?thesis
    by (auto simp: ListAuthorizedDeploymentsWithCounts_def ListAuthorizedDeployments_def listDeploymentsForAccount_def Let_def
        sum.map_comp comp_def id_def split: sum.splits)
qed


subsection \<open>The pages of work\<close>

definition in_lane :: "string \<Rightarrow> instant \<Rightarrow> deploymentRecord \<Rightarrow> bool" where
  "in_lane kind now r = (case work_branches kind now of Inl _ \<Rightarrow> False | Inr branches \<Rightarrow> list_ex (\<lambda>P. P r) branches)"

definition lane_rows :: "string \<Rightarrow> instant \<Rightarrow> string \<Rightarrow> deployment_db \<Rightarrow> deploymentRecord list" where
  "lane_rows kind now afterID db = sort_key dr_ID (filter (\<lambda>r. in_lane kind now r \<and> afterID < dr_ID r) (dp_deployments db))"

lemma take_filter_mem: "x \<in> set (take n xs) \<Longrightarrow> P x \<Longrightarrow> x \<in> set (take n (filter P xs))"
proof -
  assume x: "x \<in> set (take n xs)" "P x"
  have "filter P xs = filter P (take n xs) @ filter P (drop n xs)" by (metis append_take_drop_id filter_append)
  moreover have "length (filter P (take n xs)) \<le> n" using length_filter_le [of P "take n xs"] by simp
  ultimately have "set (filter P (take n xs)) \<subseteq> set (take n (filter P xs))" by (metis take_all take_append Un_upper1 set_append)
  then show ?thesis using x by auto
qed

lemma take_filter_prefix:
  assumes "\<forall>x\<in>set (take n xs). Q x"
  shows "take n (filter Q xs) = take n xs"
proof -
  have "filter Q xs = take n xs @ filter Q (drop n xs)" using assms by (metis append_take_drop_id filter_True filter_append)
  moreover have "filter Q (drop n xs) = [] \<or> length (take n xs) = n" by (cases "n \<le> length xs") auto
  ultimately show ?thesis by auto
qed

text \<open>Bounding the candidates of every branch loses none of the first rows of the lane.\<close>

lemma candidates_enough:
  assumes ids: "keys_unique dr_ID rows" and m: "m = nat (limit + 1)" and rows: "rows = dp_deployments db"
    and lane: "\<And>r. L r \<longleftrightarrow> list_ex (\<lambda>P. P r) branches"
  shows "take m (sort_key dr_ID (filter (\<lambda>r. dr_ID r \<in> set (concat (map (\<lambda>P. workIDs P afterID limit db) branches)) \<and> (afterID = [] \<or> afterID < dr_ID r)) rows))
    = take m (sort_key dr_ID (filter (\<lambda>r. L r \<and> afterID < dr_ID r) rows))" (is "take m (sort_key dr_ID (filter ?C rows)) = take m ?S")
proof -
  have branch: "set (workIDs P afterID limit db) = dr_ID ` set (take m (filter P ?S))" if "P \<in> set branches" for P
  proof -
    have "filter (\<lambda>r. P r \<and> afterID < dr_ID r) rows = filter P (filter (\<lambda>r. L r \<and> afterID < dr_ID r) rows)"
      using that lane by (auto simp: list_ex_iff intro!: filter_cong)
    then show ?thesis by (simp add: workIDs_def m rows filter_sort take_map)
  qed
  have in_S: "r \<in> set ?S" if r: "r \<in> set rows" "P \<in> set branches" "dr_ID r \<in> set (workIDs P afterID limit db)" for r P
  proof -
    obtain x where "x \<in> set ?S" "dr_ID x = dr_ID r" using r(3) branch [OF r(2)] by (auto dest!: in_set_takeD)
    then show ?thesis using keys_unique_same [OF ids, of x r] r(1) by auto
  qed
  have C: "?C r \<longleftrightarrow> r \<in> set ?S \<and> (\<exists>P\<in>set branches. dr_ID r \<in> set (workIDs P afterID limit db))" if "r \<in> set rows" for r
    using in_S [OF that] by auto
  let ?Q = "\<lambda>r. \<exists>P\<in>set branches. dr_ID r \<in> set (workIDs P afterID limit db)"
  have "sort_key dr_ID (filter ?C rows) = filter ?Q ?S"
    unfolding filter_sort filter_filter using C by (intro arg_cong [of _ _ "sort_key dr_ID"] filter_cong [OF refl]) auto
  moreover have "?Q x" if x: "x \<in> set (take m ?S)" for x
  proof -
    obtain P where P: "P \<in> set branches" "P x" using in_set_takeD [OF x] lane by (auto simp: list_ex_iff)
    then show ?thesis using take_filter_mem [where P = P, OF x P(2)] branch [OF P(1)] by blast
  qed
  ultimately show ?thesis using take_filter_prefix [of m ?S ?Q] by simp
qed

text \<open>A page of work holds the first rows of its lane after the cursor, in the order of their identifiers, and says truly whether more are left: bounding
  each branch of the cleanup query before the branches are merged changes nothing.\<close>

lemma ListDeploymentWork_direct:
  assumes "keys_unique dr_ID (dp_deployments db)" "list_all (\<lambda>r. dr_ID r \<noteq> []) (dp_deployments db)" "0 < limit" "limit \<le> 100" "\<not> IsZero now"
    "work_branches kind now = Inr branches"
  shows "ListDeploymentWork kind afterID limit now db
    = Inr (map deploymentFromRecord (take (nat limit) (lane_rows kind now afterID db)), limit < int (length (lane_rows kind now afterID db)))"
proof -
  let ?m = "nat (limit + 1)" and ?S = "lane_rows kind now afterID db"
  have lane: "in_lane kind now r \<longleftrightarrow> list_ex (\<lambda>P. P r) branches" for r using assms(6) by (simp add: in_lane_def)
  have "take ?m (sort_key dr_ID (filter (\<lambda>r. work_query kind branches afterID limit db r \<and> (afterID = [] \<or> afterID < dr_ID r)) (dp_deployments db))) = take ?m ?S"
  proof (cases "kind = ''cleanup'' \<or> kind = ''all''")
    case True
    then show ?thesis using candidates_enough [OF assms(1) refl refl lane] by (simp add: work_query_def lane_rows_def)
  next
    case False
    have "filter (\<lambda>r. work_query kind branches afterID limit db r \<and> (afterID = [] \<or> afterID < dr_ID r)) (dp_deployments db)
        = filter (\<lambda>r. in_lane kind now r \<and> afterID < dr_ID r) (dp_deployments db)"
      using False assms(2) lane by (intro filter_cong [OF refl]) (auto simp: work_query_def list_all_iff neq_Nil_conv)
    then show ?thesis by (simp add: lane_rows_def)
  qed
  then show ?thesis using assms(3-6) by (auto simp: ListDeploymentWork_def Let_def min_def)
qed

lemma lanes_partition:
  "in_lane ''all'' now r \<longleftrightarrow> in_lane ''provision'' now r \<or> in_lane ''monitor'' now r \<or> in_lane ''cleanup'' now r"
  "\<not> (in_lane ''provision'' now r \<and> in_lane ''monitor'' now r)" "\<not> (in_lane ''provision'' now r \<and> in_lane ''cleanup'' now r)"
  "\<not> (in_lane ''monitor'' now r \<and> in_lane ''cleanup'' now r)"
  by (auto simp: in_lane_def work_branches_def active_statuses_def provision_statuses_def deployment_statuses)

text \<open>What takes a place of its scope is what some lane works on: nothing that counts against a limit is out of the scheduler's sight.\<close>

theorem occupied_is_scheduled: "in_lane ''all'' now r \<longleftrightarrow> occupies (dr_ScopeType r) (dr_ScopeID r) r"
  by (auto simp: in_lane_def work_branches_def occupies_def)

end
