(* ===== verification/DeploymentWorker.thy ===== *)
theory DeploymentWorker
  imports DeploymentQueries
begin

text \<open>
  The worker of \<^verbatim>\<open>internal/deployment/worker/worker.go\<close>, which moves a deployment through its life: queued, planning,
  creating, running, stopping, and completed, expired or failed.

  The provider of the sandboxes, the plan and its execution by the deployd library are arguments: functions of the number
  of the step and of what the code passes. The execution is a list of the callbacks that the library makes, in any order and
  number, with its result; nothing is assumed of how it reacts to the errors they return. Between any two of its statements
  everybody else may change the tables: \<open>we_other\<close>. The worker's own trace records what it read and wrote, what it asked the
  provider, and when the provider confirmed that a sandbox is gone.
\<close>

subsection \<open>State and environment\<close>

datatype worker_error =
    StoreError error
  | ProviderError string
  | ErrCreatePending
  | ErrRuntimeMismatch
  | ErrProcessUnknown
  | ErrSandboxNotFound

text \<open>A runtime, with the sandbox that closing it removes.\<close>

record RuntimeHandle =
  rh_ID :: string
  rh_SandboxID :: string

text \<open>
  The trace. \<open>Created\<close> carries the id and the attempt of the deployment, the sandbox of the answer and whether the worker has
  to answer for it: it has, unless the provider reports a success with a runtime that has no id. \<open>Found\<close> carries the
  deployment and the sandbox that the provider reports for an attempt whose outcome was not known.
\<close>

datatype worker_event =
    WasRead Deployment
  | Wrote Deployment
  | Created string int string bool
  | Found string string
  | AskedClose string
  | Gone string

text \<open>The stages of the library that the code names, and any other.\<close>

datatype deploy_stage = Preparing | Cloning | Verifying | Installing | Starting | Probing | Ready | OtherStage string

datatype apply_action =
    OnStage deploy_stage
  | OnCheckpoint string string string string
  | OnOutput deploy_stage string string

record apply_result =
  ar_Endpoint :: string
  ar_ProcessID :: string
  ar_ProcessTag :: string
  ar_RuntimeID :: string

record worker_state =
  ws_db :: deployment_db
  ws_step :: nat
  ws_trace :: "worker_event list"

record worker_env =
  we_now :: "nat \<Rightarrow> instant"
  we_other :: "nat \<Rightarrow> deployment_db \<Rightarrow> deployment_db"
  we_service :: "nat \<Rightarrow> Deployment \<Rightarrow> worker_error + string"
  we_publicTemplate :: "nat \<Rightarrow> string \<Rightarrow> worker_error + bool"
  we_ValidateTemplate :: "nat \<Rightarrow> string \<Rightarrow> worker_error option"
  we_CreateDeploymentRuntime :: "nat \<Rightarrow> string \<Rightarrow> duration \<Rightarrow> string \<Rightarrow> RuntimeHandle option \<times> worker_error + RuntimeHandle"
  we_ConnectDeploymentRuntime :: "nat \<Rightarrow> string \<Rightarrow> duration \<Rightarrow> worker_error + RuntimeHandle"
  we_ReconcileDeploymentRuntime :: "nat \<Rightarrow> string \<Rightarrow> string \<Rightarrow> duration \<Rightarrow> RuntimeHandle option \<times> worker_error option"
  we_Close :: "nat \<Rightarrow> RuntimeHandle \<Rightarrow> worker_error option"
  we_Stop :: "nat \<Rightarrow> RuntimeHandle \<Rightarrow> string \<times> string \<times> string \<Rightarrow> worker_error option"
  we_Inspect :: "nat \<Rightarrow> RuntimeHandle \<Rightarrow> string \<times> string \<times> string \<Rightarrow> worker_error + bool"
  we_ActualExpiresAt :: "nat \<Rightarrow> RuntimeHandle \<Rightarrow> instant"
  we_DecodeSpec :: "nat \<Rightarrow> Deployment \<Rightarrow> bool"
  we_Source :: "nat \<Rightarrow> Deployment \<Rightarrow> bool"
  we_Restore :: "nat \<Rightarrow> Deployment \<Rightarrow> bool"
  we_Apply :: "nat \<Rightarrow> Deployment \<Rightarrow> apply_action list \<times> (deploy_stage option + apply_result)"
  we_stage :: "deploy_stage \<Rightarrow> string"
  we_TemplateID :: string
  we_Retention :: duration

text \<open>
  The factory of \<^verbatim>\<open>internal/server/server_deployments_worker.go\<close>. The service of the deployment, with the source of its
  configuration, and the answers of its runtimes are arguments.
\<close>

definition formatAttempt :: "int \<Rightarrow> string" where
  "formatAttempt attempt = (if attempt < 1 then ''1'' else int_dec attempt)"

definition factory_template :: "worker_env \<Rightarrow> Deployment \<Rightarrow> string" where
  "factory_template env d = (if TrimSpace (dm_DeploymentTemplateID d) \<noteq> [] then TrimSpace (dm_DeploymentTemplateID d) else TrimSpace (we_TemplateID env))"

definition create_template_error :: "worker_env \<Rightarrow> nat \<Rightarrow> string \<Rightarrow> Deployment \<Rightarrow> worker_error option" where
  "create_template_error env n source d =
     (if source = sandboxConfigSourceAdminDefault \<and> (TrimSpace (dm_SandboxAPIURL d) = [] \<or> TrimSpace (dm_SandboxAPIKeyEncrypted d) = [])
      then (case we_publicTemplate env n (factory_template env d) of
              Inl _ \<Rightarrow> Some (ProviderError ''public deployment template catalog is unavailable'')
            | Inr allowed \<Rightarrow> if \<not> allowed then Some (ProviderError ''deployment template must be public when using the platform Sandbox service'') else None)
      else if we_ValidateTemplate env n (factory_template env d) \<noteq> None then Some (ProviderError ''deployment template is unavailable'')
      else None)"

definition factory_Create :: "worker_env \<Rightarrow> nat \<Rightarrow> Deployment \<Rightarrow> int \<Rightarrow> RuntimeHandle option \<times> string \<times> worker_error option" where
  "factory_Create env n d attempt =
     (case we_service env n d of
        Inl e \<Rightarrow> (None, [], Some e)
      | Inr source \<Rightarrow>
          (case create_template_error env n source d of
             Some e \<Rightarrow> (None, [], Some e)
           | None \<Rightarrow>
               (case we_CreateDeploymentRuntime env n (factory_template env d) (dm_ExpiresAt d - we_now env n) (dm_ID d @ ''-'' @ formatAttempt attempt) of
                  Inl (Some h, e) \<Rightarrow> (Some h, rh_SandboxID h, Some e)
                | Inl (None, e) \<Rightarrow> (None, [], Some e)
                | Inr h \<Rightarrow> (Some h, rh_SandboxID h, None))))"

definition factory_Connect :: "worker_env \<Rightarrow> nat \<Rightarrow> Deployment \<Rightarrow> worker_error + RuntimeHandle option" where
  "factory_Connect env n d =
     (case we_service env n d of
        Inl e \<Rightarrow> Inl e
      | Inr _ \<Rightarrow>
          (case we_ConnectDeploymentRuntime env n (dm_SandboxID d) (dm_ExpiresAt d - we_now env n) of
             Inl e \<Rightarrow> if e = ErrSandboxNotFound then Inr None else Inl e
           | Inr h \<Rightarrow> Inr (Some h)))"

definition factory_Reconcile :: "worker_env \<Rightarrow> nat \<Rightarrow> Deployment \<Rightarrow> RuntimeHandle option \<times> string \<times> worker_error option" where
  "factory_Reconcile env n d =
     (case we_service env n d of
        Inl e \<Rightarrow> (None, [], Some e)
      | Inr _ \<Rightarrow>
          (case we_ReconcileDeploymentRuntime env n (factory_template env d) (dm_ID d @ ''-'' @ formatAttempt (dm_Attempt d)) (dm_ExpiresAt d - we_now env n) of
             (Some h, e) \<Rightarrow> (Some h, rh_SandboxID h, e)
           | (None, e) \<Rightarrow> (None, [], e)))"

definition expiryCleanupStage :: string where "expiryCleanupStage = ''expiry_cleanup''"

definition interfere :: "worker_env \<Rightarrow> worker_state \<Rightarrow> worker_state" where
  "interfere env s = s \<lparr> ws_db := we_other env (ws_step s) (ws_db s), ws_step := Suc (ws_step s) \<rparr>"

definition clock :: "worker_env \<Rightarrow> worker_state \<Rightarrow> instant" where
  "clock env s = we_now env (ws_step s)"

definition log_event :: "worker_event \<Rightarrow> worker_state \<Rightarrow> worker_state" where
  "log_event e s = s \<lparr> ws_trace := ws_trace s @ [e] \<rparr>"

definition get_deployment :: "worker_env \<Rightarrow> string \<Rightarrow> worker_state \<Rightarrow> worker_state \<times> Deployment result" where
  "get_deployment env i s =
     (let s1 = interfere env s
      in case GetDeployment (TrimSpace i) (ws_db s1) of
           Inl e \<Rightarrow> (s1, Inl e)
         | Inr d \<Rightarrow> (log_event (WasRead d) s1, Inr d))"

subsection \<open>Writes\<close>

definition persist :: "worker_env \<Rightarrow> Deployment \<Rightarrow> worker_state \<Rightarrow> worker_state \<times> Deployment \<times> worker_error option" where
  "persist env d s =
     (let s1 = interfere env s
      in case UpdateDeployment (clock env s1) d (ws_db s1) of
           Inl e \<Rightarrow> (s1, d, Some (StoreError e))
         | Inr db \<Rightarrow> (log_event (Wrote d) (s1 \<lparr> ws_db := db \<rparr>), d \<lparr> dm_Version := dm_Version d + 1 \<rparr>, None))"

definition deployment_event :: "int \<Rightarrow> string \<Rightarrow> string \<Rightarrow> string \<Rightarrow> string \<Rightarrow> DeploymentEvent" where
  "deployment_event attempt eventType stage stream message =
     \<lparr> dn_RevisionNumber = 0, dn_ID = 0, dn_DeploymentID = [], dn_Attempt = attempt, dn_EventType = eventType, dn_Stage = stage,
       dn_Stream = stream, dn_Message = message, dn_CreatedAt = zero_time \<rparr>"

definition emit :: "worker_env \<Rightarrow> Deployment \<Rightarrow> DeploymentEvent \<Rightarrow> worker_state \<Rightarrow> worker_state" where
  "emit env d event s =
     (let s1 = interfere env s;
          e = event \<lparr> dn_DeploymentID := dm_ID d, dn_RevisionNumber := dm_RevisionNumber d,
                      dn_Attempt := (if dn_Attempt event = 0 then dm_Attempt d else dn_Attempt event) \<rparr>
      in case AppendDeploymentEvent (clock env s1) e (ws_db s1) of Inl _ \<Rightarrow> s1 | Inr db \<Rightarrow> s1 \<lparr> ws_db := db \<rparr>)"

definition transition_state :: "string \<Rightarrow> string \<Rightarrow> string \<Rightarrow> Deployment \<Rightarrow> Deployment" where
  "transition_state status stage reason d =
     (let preserveFailure = (dm_Status d = DeploymentStatusFailed \<or> (dm_Status d = DeploymentStatusStopping \<and> dm_FailureReason d \<noteq> []));
          d1 = (if status \<noteq> DeploymentStatusStopping \<or> \<not> preserveFailure then d \<lparr> dm_FailureStage := stage, dm_FailureReason := reason \<rparr> else d)
      in d1 \<lparr> dm_Status := status \<rparr>)"

definition transition :: "worker_env \<Rightarrow> Deployment \<Rightarrow> string \<Rightarrow> string \<Rightarrow> string \<Rightarrow> worker_state \<Rightarrow> worker_state \<times> Deployment \<times> worker_error option" where
  "transition env d status stage reason s =
     (case persist env (transition_state status stage reason d) s of
        (s1, d1, Some e) \<Rightarrow> (s1, d1, Some e)
      | (s1, d1, None) \<Rightarrow> (emit env d1 (deployment_event (dm_Attempt d1) ''lifecycle'' stage [] (''status: '' @ status)) s1, d1, None))"

definition failed_state :: "string \<Rightarrow> string \<Rightarrow> Deployment \<Rightarrow> Deployment" where
  "failed_state stage reason d = d \<lparr> dm_Status := DeploymentStatusFailed, dm_FailureStage := stage, dm_FailureReason := reason, dm_Error := reason \<rparr>"

definition fail :: "worker_env \<Rightarrow> Deployment \<Rightarrow> string \<Rightarrow> string \<Rightarrow> worker_state \<Rightarrow> worker_state \<times> Deployment \<times> worker_error option" where
  "fail env d stage reason s =
     (case persist env (failed_state stage reason d) s of
        (s1, d1, Some e) \<Rightarrow> (s1, d1, Some e)
      | (s1, d1, None) \<Rightarrow> (emit env d1 (deployment_event (dm_Attempt d1) ''failure'' stage [] reason) s1, d1, None))"

definition ends :: "worker_state \<times> Deployment \<times> worker_error option \<Rightarrow> worker_state \<times> worker_error option" where
  "ends r = (fst r, snd (snd r))"

subsection \<open>Stopping\<close>

definition close :: "worker_env \<Rightarrow> RuntimeHandle \<Rightarrow> worker_state \<Rightarrow> worker_state \<times> worker_error option" where
  "close env rt s =
     (let s1 = log_event (AskedClose (TrimSpace (rh_SandboxID rt))) (interfere env s)
      in case we_Close env (ws_step s1) rt of
           None \<Rightarrow> (log_event (Gone (TrimSpace (rh_SandboxID rt))) s1, None)
         | Some e \<Rightarrow> (s1, Some e))"

definition closeAttempt :: "worker_env \<Rightarrow> RuntimeHandle option \<Rightarrow> worker_state \<Rightarrow> worker_state \<times> worker_error option" where
  "closeAttempt env rt s = (case rt of None \<Rightarrow> (s, None) | Some h \<Rightarrow> close env h s)"

definition connect :: "worker_env \<Rightarrow> Deployment \<Rightarrow> worker_state \<Rightarrow> worker_state \<times> (worker_error + RuntimeHandle option)" where
  "connect env d s =
     (let s1 = interfere env s
      in case factory_Connect env (ws_step s1) d of
           Inr None \<Rightarrow> (log_event (Gone (TrimSpace (dm_SandboxID d))) s1, Inr None)
         | answer \<Rightarrow> (s1, answer))"

definition clear_attempt :: "Deployment \<Rightarrow> Deployment" where
  "clear_attempt d = d \<lparr> dm_SandboxID := [], dm_RuntimeID := [], dm_ProcessID := [], dm_ProcessTag := [] \<rparr>"

text \<open>The process is stopped and the sandbox removed; the failure of either is written before it is returned.\<close>

definition failCleanup :: "worker_env \<Rightarrow> bool \<Rightarrow> Deployment \<Rightarrow> worker_error \<Rightarrow> worker_state \<Rightarrow> worker_state \<times> worker_error option" where
  "failCleanup env expiryCleanup d e s =
     (case (if expiryCleanup then fail env d expiryCleanupStage ''deployment expired; cleanup is incomplete'' s
            else fail env d ''cleanup'' ''deployment cleanup is incomplete'' s) of
        (s1, _, Some persistErr) \<Rightarrow> (s1, Some persistErr)
      | (s1, _, None) \<Rightarrow> (s1, Some e))"

definition close_runtime :: "worker_env \<Rightarrow> bool \<Rightarrow> Deployment \<Rightarrow> RuntimeHandle \<Rightarrow> worker_state \<Rightarrow> worker_state \<times> worker_error option" where
  "close_runtime env expiryCleanup d rt s =
     (case close env rt s of
        (s1, Some closeErr) \<Rightarrow> failCleanup env expiryCleanup d closeErr s1
      | (s1, None) \<Rightarrow> (s1, None))"

definition stop_runtime :: "worker_env \<Rightarrow> bool \<Rightarrow> Deployment \<Rightarrow> worker_state \<Rightarrow> worker_state \<times> worker_error option" where
  "stop_runtime env expiryCleanup d s =
     (if TrimSpace (dm_SandboxID d) = [] then (s, None)
      else case connect env d s of
        (s1, Inl connectErr) \<Rightarrow> failCleanup env expiryCleanup d connectErr s1
      | (s1, Inr None) \<Rightarrow> (s1, None)
      | (s1, Inr (Some rt)) \<Rightarrow>
          let runtimeID = (if dm_RuntimeID d = [] then rh_ID rt else dm_RuntimeID d);
              s2 = interfere env s1;
              stopErr = (if dm_ProcessID d \<noteq> [] \<and> dm_ProcessTag d \<noteq> []
                         then we_Stop env (ws_step s2) rt (runtimeID, dm_ProcessID d, dm_ProcessTag d) else None)
          in case stopErr of
               Some e \<Rightarrow> if e \<noteq> ErrProcessUnknown then failCleanup env expiryCleanup d e s2 else close_runtime env expiryCleanup d rt s2
             | None \<Rightarrow> close_runtime env expiryCleanup d rt s2)"

text \<open>An attempt whose sandbox is not known yet is looked up; the answer is the deployment to go on with.\<close>

definition stop_lookup :: "worker_env \<Rightarrow> Deployment \<Rightarrow> worker_state \<Rightarrow> worker_state \<times> (worker_error + Deployment)" where
  "stop_lookup env d s =
     (if dm_SandboxID d = [] \<and> dm_Attempt d > 0 \<and> (dm_Status d = DeploymentStatusCreating \<or> dm_Status d = DeploymentStatusStopping)
      then
        let s1 = interfere env s
        in case factory_Reconcile env (ws_step s1) d of
             (None, _, Some e) \<Rightarrow> (s1, Inl e)
           | (None, _, None) \<Rightarrow> if clock env s1 < dm_ExpiresAt d + 2 * Minute then (s1, Inl ErrCreatePending) else (s1, Inr d)
           | (Some rt, sandboxID, _) \<Rightarrow>
               let s2 = log_event (Found (dm_ID d) (TrimSpace sandboxID)) s1
               in if sandboxID = [] \<or> rh_ID rt = [] then (s2, Inl ErrRuntimeMismatch)
                  else (case persist env (d \<lparr> dm_SandboxID := sandboxID, dm_RuntimeID := rh_ID rt \<rparr>) s2 of
                          (s3, _, Some e) \<Rightarrow> (s3, Inl e)
                        | (s3, d1, None) \<Rightarrow> (s3, Inr d1))
      else (s, Inr d))"

definition stopped_state :: "bool \<Rightarrow> bool \<Rightarrow> bool \<Rightarrow> Deployment \<Rightarrow> Deployment" where
  "stopped_state expired expiryCleanup preserveFailed d =
     (let d1 = d \<lparr> dm_Status := (if preserveFailed then DeploymentStatusFailed
                                  else if expired \<or> expiryCleanup then DeploymentStatusExpired else DeploymentStatusCompleted) \<rparr>;
          d2 = (if expiryCleanup then d1 \<lparr> dm_FailureStage := [], dm_FailureReason := [], dm_Error := [] \<rparr> else d1)
      in clear_attempt d2)"

definition stop :: "worker_env \<Rightarrow> string \<Rightarrow> bool \<Rightarrow> Deployment option \<Rightarrow> worker_state \<Rightarrow> worker_state \<times> worker_error option" where
  "stop env i expired observed s =
     (case get_deployment env i s of
        (s1, Inl e) \<Rightarrow> (s1, Some (StoreError e))
      | (s1, Inr d) \<Rightarrow>
          if (case observed of None \<Rightarrow> False | Some ob \<Rightarrow> dm_Version d \<noteq> dm_Version ob) then (s1, Some (StoreError ErrConflict))
          else
            let expiry = (dm_FailureStage d = expiryCleanupStage);
                preserveFailed = ((dm_Status d = DeploymentStatusFailed \<or> (dm_Status d = DeploymentStatusStopping \<and> dm_FailureReason d \<noteq> [])) \<and> \<not> expiry);
                expiryCleanup = (expiry \<or> (expired \<and> \<not> preserveFailed))
            in if dm_Status d \<in> set terminal_statuses \<and> TrimSpace (dm_SandboxID d) = [] then (s1, None)
               else case stop_lookup env d s1 of
                 (s2, Inl e) \<Rightarrow> (s2, Some e)
               | (s2, Inr d1) \<Rightarrow>
                   (case transition env d1 DeploymentStatusStopping ''cleanup'' [] s2 of
                      (s3, _, Some e) \<Rightarrow> (s3, Some e)
                    | (s3, d2, None) \<Rightarrow>
                        (case stop_runtime env expiryCleanup d2 s3 of
                           (s4, Some e) \<Rightarrow> (s4, Some e)
                         | (s4, None) \<Rightarrow> ends (persist env (stopped_state expired expiryCleanup preserveFailed d2) s4))))"

definition Stop :: "worker_env \<Rightarrow> string \<Rightarrow> bool \<Rightarrow> worker_state \<Rightarrow> worker_state \<times> worker_error option" where
  "Stop env i expired s = stop env i expired None s"


subsection \<open>Recovery and health\<close>

definition recoverCreating :: "worker_env \<Rightarrow> Deployment \<Rightarrow> worker_state \<Rightarrow> worker_state \<times> worker_error option" where
  "recoverCreating env d s =
     (let compensate = (\<lambda>d s. case fail env d ''recovery'' ''deployment execution was interrupted'' s of
            (s1, _, Some e) \<Rightarrow> (s1, Some e)
          | (s1, d1, None) \<Rightarrow> Stop env (dm_ID d1) (clock env s1 \<ge> dm_ExpiresAt d1) s1)
      in if dm_SandboxID d = [] then
           let s1 = interfere env s
           in case factory_Reconcile env (ws_step s1) d of
                (None, _, Some e) \<Rightarrow> (s1, Some e)
              | (None, _, None) \<Rightarrow>
                  if clock env s1 < dm_ExpiresAt d + 2 * Minute then (s1, Some ErrCreatePending)
                  else ends (fail env d ''recovery'' ''interrupted creation has no remaining Sandbox'' s1)
              | (Some rt, sandboxID, _) \<Rightarrow>
                  let s2 = log_event (Found (dm_ID d) (TrimSpace sandboxID)) s1
                  in if TrimSpace sandboxID = [] \<or> TrimSpace (rh_ID rt) = [] then (s2, Some ErrRuntimeMismatch)
                     else (case persist env (d \<lparr> dm_SandboxID := sandboxID, dm_RuntimeID := rh_ID rt \<rparr>) s2 of
                             (s3, _, Some e) \<Rightarrow> (s3, Some e)
                           | (s3, d1, None) \<Rightarrow> compensate d1 s3)
         else compensate d s)"

text \<open>What follows once the provider has told whether the process still runs.\<close>

definition check_answer :: "worker_env \<Rightarrow> Deployment \<Rightarrow> bool \<Rightarrow> worker_state \<Rightarrow> worker_state \<times> worker_error option" where
  "check_answer env d alive s =
     (if \<not> IsZero (dm_ExpiresAt d) \<and> clock env s \<ge> dm_ExpiresAt d then stop env (dm_ID d) True (Some d) s
      else if alive then (s, None)
      else case fail env d ''process_exit'' ''deployment process is no longer running'' s of
             (s1, _, Some e) \<Rightarrow> (s1, Some e)
           | (s1, d1, None) \<Rightarrow> Stop env (dm_ID d1) False s1)"

definition checkRunning :: "worker_env \<Rightarrow> Deployment \<Rightarrow> worker_state \<Rightarrow> worker_state \<times> worker_error option" where
  "checkRunning env d s =
     (case connect env d s of
        (s1, Inl e) \<Rightarrow> (s1, Some e)
      | (s1, Inr None) \<Rightarrow> check_answer env d False s1
      | (s1, Inr (Some rt)) \<Rightarrow>
          let s2 = interfere env s1
          in case we_Inspect env (ws_step s2) rt (dm_RuntimeID d, dm_ProcessID d, dm_ProcessTag d) of
               Inl e \<Rightarrow> if e \<noteq> ErrProcessUnknown then (s2, Some e) else check_answer env d False s2
             | Inr running \<Rightarrow> check_answer env d running s2)"

subsection \<open>Execution\<close>

definition deploymentStageMessage :: "worker_env \<Rightarrow> deploy_stage \<Rightarrow> string" where
  "deploymentStageMessage env stage =
     (case stage of
        Preparing \<Rightarrow> ''Preparing deployment workspace.''
      | Cloning \<Rightarrow> ''Cloning repository at the pinned Commit.''
      | Verifying \<Rightarrow> ''Verifying the checked-out Commit.''
      | Installing \<Rightarrow> ''Running installation command.''
      | Starting \<Rightarrow> ''Starting application.''
      | Probing \<Rightarrow> ''Checking application readiness.''
      | _ \<Rightarrow> ''Deployment stage: '' @ we_stage env stage)"

definition stageFromError :: "deploy_stage option \<Rightarrow> deploy_stage" where
  "stageFromError err = (case err of None \<Rightarrow> Preparing | Some stage \<Rightarrow> stage)"

fun apply_callback :: "worker_env \<Rightarrow> apply_action \<Rightarrow> worker_state \<times> Deployment \<Rightarrow> worker_state \<times> Deployment" where
  "apply_callback env (OnStage stage) (s, d) =
     (if stage = Ready then (emit env d (deployment_event (dm_Attempt d) ''lifecycle'' (we_stage env stage) [] ''deployment is ready'') s, d)
      else
        let s1 = emit env d (deployment_event (dm_Attempt d) ''lifecycle'' (we_stage env stage) [] (deploymentStageMessage env stage)) s
        in case transition env d DeploymentStatusCreating (we_stage env stage) [] s1 of (s2, d1, _) \<Rightarrow> (s2, d1))"
| "apply_callback env (OnCheckpoint runtimeID processID processTag startTag) (s, d) =
     (let d1 = (if runtimeID \<noteq> [] then d \<lparr> dm_RuntimeID := runtimeID, dm_ProcessID := processID, dm_ProcessTag := processTag \<rparr> else d);
          d2 = (if startTag \<noteq> [] then d1 \<lparr> dm_ProcessTag := startTag \<rparr> else d1)
      in case persist env d2 s of (s1, d3, _) \<Rightarrow> (s1, d3))"
| "apply_callback env (OnOutput stage stream message) (s, d) =
     (emit env d (deployment_event (dm_Attempt d) ''output'' (we_stage env stage) stream message) s, d)"

text \<open>A creation that failed: what it left behind is written down before it is removed.\<close>

definition create_failed ::
  "worker_env \<Rightarrow> Deployment \<Rightarrow> RuntimeHandle option \<Rightarrow> string \<Rightarrow> worker_error \<Rightarrow> worker_state \<Rightarrow> worker_state \<times> worker_error option" where
  "create_failed env d rt sandboxID err s =
     (if rt = None \<and> TrimSpace sandboxID = [] \<and> err = ErrCreatePending
      then (emit env d (deployment_event 0 ''lifecycle'' ''sandbox_create'' [] ''creation outcome is unknown; reconciling the saved attempt'') s, Some err)
      else if rt \<noteq> None \<or> TrimSpace sandboxID \<noteq> [] then
        (case persist env (d \<lparr> dm_SandboxID := TrimSpace sandboxID, dm_RuntimeID := (case rt of None \<Rightarrow> dm_RuntimeID d | Some h \<Rightarrow> rh_ID h) \<rparr>) s of
           (s1, _, Some e) \<Rightarrow> (s1, Some e)
         | (s1, d1, None) \<Rightarrow>
             (case closeAttempt env rt s1 of
                (s2, Some _) \<Rightarrow> ends (fail env d1 ''sandbox_create'' ''Sandbox creation failed; cleanup is incomplete'' s2)
              | (s2, None) \<Rightarrow> ends (fail env (d1 \<lparr> dm_SandboxID := [], dm_RuntimeID := [] \<rparr>) ''sandbox_create'' ''Sandbox creation failed'' s2)))
      else ends (fail env d ''sandbox_create'' ''Sandbox creation failed'' s))"

text \<open>An execution that failed: the sandbox is removed, and the deployment fails or expires.\<close>

definition apply_failed :: "worker_env \<Rightarrow> Deployment \<Rightarrow> RuntimeHandle \<Rightarrow> deploy_stage option \<Rightarrow> worker_state \<Rightarrow> worker_state \<times> worker_error option" where
  "apply_failed env d rt err s =
     (let stage = we_stage env (stageFromError err)
      in case closeAttempt env (Some rt) s of
           (s1, None) \<Rightarrow>
             let d1 = clear_attempt d
             in if clock env s1 \<ge> dm_ExpiresAt d1 then ends (transition env d1 DeploymentStatusExpired ''cleanup'' [] s1)
                else ends (fail env d1 stage ''deployment execution failed'' s1)
         | (s1, Some _) \<Rightarrow>
             if clock env s1 \<ge> dm_ExpiresAt d then ends (fail env d expiryCleanupStage ''deployment expired; cleanup is incomplete'' s1)
             else ends (fail env d stage ''deployment execution failed; cleanup is incomplete'' s1))"

text \<open>The sandbox is known from here on; on every way out but the last one it is asked to go.\<close>

definition execute :: "worker_env \<Rightarrow> Deployment \<Rightarrow> RuntimeHandle \<Rightarrow> string \<Rightarrow> worker_state \<Rightarrow> worker_state \<times> worker_error option" where
  "execute env d rt sandboxID s =
     (let actual = we_ActualExpiresAt env (ws_step s) rt;
          d1 = d \<lparr> dm_SandboxID := TrimSpace sandboxID, dm_RuntimeID := rh_ID rt, dm_ExpiresAt := (if IsZero actual then dm_ExpiresAt d else actual) \<rparr>
      in case persist env d1 s of
           (s1, _, Some e) \<Rightarrow> (fst (closeAttempt env (Some rt) s1), Some e)
         | (s1, d2, None) \<Rightarrow>
             (case we_Apply env (ws_step s1) d2 of (actions, result) \<Rightarrow>
                case fold (apply_callback env) actions (s1, d2) of (s2, d3) \<Rightarrow>
                  (case result of
                     Inl err \<Rightarrow> apply_failed env d3 rt err s2
                   | Inr r \<Rightarrow>
                       (case transition env (d3 \<lparr> dm_Endpoint := ar_Endpoint r, dm_ProcessID := ar_ProcessID r, dm_ProcessTag := ar_ProcessTag r,
                               dm_RuntimeID := ar_RuntimeID r \<rparr>) DeploymentStatusRunning ''ready'' [] s2 of
                          (s3, _, Some e) \<Rightarrow> (fst (closeAttempt env (Some rt) s3), Some e)
                        | (s3, _, None) \<Rightarrow> (s3, None)))))"

text \<open>The plan is restored before anything is created.\<close>

definition prepare :: "worker_env \<Rightarrow> Deployment \<Rightarrow> worker_state \<Rightarrow> worker_state \<times> (worker_error option + Deployment)" where
  "prepare env d s =
     (let failed = (\<lambda>d stage reason s. case ends (fail env d stage reason s) of (s1, e) \<Rightarrow> (s1, Inl e))
      in case transition env d DeploymentStatusPlanning [] [] s of
           (s1, _, Some e) \<Rightarrow> (s1, Inl (Some e))
         | (s1, d1, None) \<Rightarrow>
             if \<not> we_DecodeSpec env (ws_step s1) d1 then failed d1 ''plan_restore'' ''persisted deployment plan is invalid'' s1
             else if \<not> we_Source env (ws_step s1) d1 then failed d1 ''source'' ''deployment source is unavailable'' s1
             else if \<not> we_Restore env (ws_step s1) d1 then failed d1 ''plan_restore'' ''persisted deployment plan is invalid'' s1
             else
               let d2 = d1 \<lparr> dm_Attempt := dm_Attempt d1 + 1,
                      dm_DeploymentTemplateID := (if TrimSpace (dm_DeploymentTemplateID d1) = [] then TrimSpace (we_TemplateID env) else dm_DeploymentTemplateID d1) \<rparr>
               in if dm_DeploymentTemplateID d2 = []
                  then failed d2 ''template'' ''no deployment template selected; create a deployment with an available Sandbox template'' s1
                  else case transition env d2 DeploymentStatusCreating [] [] s1 of
                         (s2, _, Some e) \<Rightarrow> (s2, Inl (Some e))
                       | (s2, d3, None) \<Rightarrow> (s2, Inr d3))"

definition create_sandbox :: "worker_env \<Rightarrow> Deployment \<Rightarrow> worker_state \<Rightarrow> worker_state \<times> worker_error option" where
  "create_sandbox env d s =
     (let s1 = interfere env s
      in case factory_Create env (ws_step s1) d (dm_Attempt d) of (rt, sandboxID, err) \<Rightarrow>
           let confirmed = (err \<noteq> None \<or> (case rt of None \<Rightarrow> False | Some h \<Rightarrow> TrimSpace (rh_ID h) \<noteq> []));
               s2 = log_event (Created (dm_ID d) (dm_Attempt d) (TrimSpace sandboxID) confirmed) s1
           in case err of
                Some e \<Rightarrow> create_failed env d rt sandboxID e s2
              | None \<Rightarrow>
                  (case rt of
                     None \<Rightarrow> ends (fail env d ''sandbox_create'' ''Sandbox identity was not confirmed'' s2)
                   | Some h \<Rightarrow>
                       if TrimSpace sandboxID = [] \<or> TrimSpace (rh_ID h) = []
                       then ends (fail env d ''sandbox_create'' ''Sandbox identity was not confirmed'' (fst (closeAttempt env rt s2)))
                       else execute env d h sandboxID s2))"

definition Process :: "worker_env \<Rightarrow> string \<Rightarrow> worker_state \<Rightarrow> worker_state \<times> worker_error option" where
  "Process env i s =
     (case get_deployment env i s of
        (s1, Inl e) \<Rightarrow> (s1, Some (StoreError e))
      | (s1, Inr d) \<Rightarrow>
          if dm_Status d \<noteq> DeploymentStatusQueued then (s1, None)
          else if clock env s1 \<ge> dm_ExpiresAt d then Stop env (dm_ID d) True s1
          else case prepare env d s1 of
            (s2, Inl e) \<Rightarrow> (s2, e)
          | (s2, Inr d1) \<Rightarrow> create_sandbox env d1 s2)"

definition advance :: "worker_env \<Rightarrow> Deployment \<Rightarrow> worker_state \<Rightarrow> worker_state \<times> worker_error option" where
  "advance env item s =
     (if dm_Status item = DeploymentStatusCreating then recoverCreating env item s
      else if dm_Status item = DeploymentStatusPlanning then ends (transition env item DeploymentStatusQueued ''recovery'' [] s)
      else if \<not> IsZero (dm_ExpiresAt item) \<and> clock env s \<ge> dm_ExpiresAt item then Stop env (dm_ID item) True s
      else if dm_Status item = DeploymentStatusQueued then Process env (dm_ID item) s
      else if dm_Status item = DeploymentStatusFailed \<and> TrimSpace (dm_SandboxID item) \<noteq> [] then Stop env (dm_ID item) False s
      else if dm_Status item = DeploymentStatusStopping then Stop env (dm_ID item) False s
      else if dm_Status item = DeploymentStatusRunning then checkRunning env item s
      else (s, None))"

fun advance_all :: "worker_env \<Rightarrow> Deployment list \<Rightarrow> worker_state \<Rightarrow> worker_state \<times> worker_error option" where
  "advance_all env [] s = (s, None)"
| "advance_all env (item # items) s =
     (case advance env item s of (s1, itemErr) \<Rightarrow>
        case advance_all env items s1 of (s2, laterErr) \<Rightarrow> (s2, if itemErr \<noteq> None then itemErr else laterErr))"

definition prune_first :: "worker_env \<Rightarrow> worker_state \<Rightarrow> worker_state \<times> worker_error option" where
  "prune_first env s =
     (if we_Retention env > 0
      then let s1 = interfere env s
           in case PruneDeployments (we_other env (ws_step s1)) (clock env s1 - we_Retention env) 100 (ws_db s1) of
                (db, Inl e) \<Rightarrow> (s1 \<lparr> ws_db := db, ws_step := Suc (ws_step s1) \<rparr>, Some (StoreError e))
              | (db, Inr _) \<Rightarrow> (s1 \<lparr> ws_db := db, ws_step := Suc (ws_step s1) \<rparr>, None)
      else (s, None))"

definition RunOnce :: "worker_env \<Rightarrow> worker_state \<Rightarrow> worker_state \<times> worker_error option" where
  "RunOnce env s =
     (case prune_first env s of
        (s1, Some e) \<Rightarrow> (s1, Some e)
      | (s1, None) \<Rightarrow>
          let s2 = interfere env s1
          in case ListActiveDeployments (clock env s2) (ws_db s2) of
               Inl e \<Rightarrow> (s2, Some (StoreError e))
             | Inr items \<Rightarrow> advance_all env items (s2 \<lparr> ws_trace := ws_trace s2 @ map WasRead items \<rparr>))"

end
