(* ===== verification/WorkerSafety.thy ===== *)
theory WorkerSafety
  imports DeploymentWorker
begin

text \<open>
  The worker never forgets a sandbox. A monitor reads the worker's trace and keeps, for one deployment, the sandbox that the
  worker knows it has: the one of the row it read or wrote, the one that the provider has just created for it, or the one that
  the provider reports for an attempt whose outcome was not known. It fails when the worker writes the deployment without that
  sandbox although the provider has not said that it is gone, when it asks for a new sandbox while it knows one, and when the
  provider reports another one. Whatever the others do to the tables, the monitor never fails.
\<close>

subsection \<open>The monitor\<close>

fun watch_step :: "string \<Rightarrow> worker_event \<Rightarrow> string option \<Rightarrow> string option" where
  "watch_step i e None = None"
| "watch_step i (WasRead d) (Some c) = Some (if TrimSpace (dm_ID d) = i then TrimSpace (dm_SandboxID d) else c)"
| "watch_step i (Wrote d) (Some c) =
     (if TrimSpace (dm_ID d) \<noteq> i then Some c else if c = [] \<or> c = TrimSpace (dm_SandboxID d) then Some (TrimSpace (dm_SandboxID d)) else None)"
| "watch_step i (Gone x) (Some c) = Some (if x = c then [] else c)"
| "watch_step i (Created j n x confirmed) (Some c) =
     (if TrimSpace j \<noteq> i then Some c else if c \<noteq> [] then None else if confirmed then Some x else Some c)"
| "watch_step i (Found j x) (Some c) = (if TrimSpace j \<noteq> i then Some c else if c = [] \<or> c = x then Some x else None)"
| "watch_step i (AskedClose x) (Some c) = Some c"

definition watch :: "string \<Rightarrow> worker_event list \<Rightarrow> string option" where
  "watch i trace = fold (watch_step i) trace (Some [])"

definition never_forgets :: "worker_event list \<Rightarrow> bool" where
  "never_forgets trace \<longleftrightarrow> (\<forall>i. watch i trace \<noteq> None)"

text \<open>What the worker may write next: the sandbox of the deployment is the one that is known, or none is known.\<close>

definition holds :: "Deployment \<Rightarrow> worker_state \<Rightarrow> bool" where
  "holds d s \<longleftrightarrow> watch (TrimSpace (dm_ID d)) (ws_trace s) \<in> {Some [], Some (TrimSpace (dm_SandboxID d))}"

definition free :: "Deployment \<Rightarrow> worker_state \<Rightarrow> bool" where
  "free d s \<longleftrightarrow> watch (TrimSpace (dm_ID d)) (ws_trace s) = Some []"

subsection \<open>The rely condition\<close>

text \<open>A deployment that waits has no sandbox, and its id is not empty and written without spaces around it.\<close>

definition waiting :: "string \<Rightarrow> bool" where
  "waiting status \<longleftrightarrow> status = DeploymentStatusQueued \<or> status = DeploymentStatusPlanning"

definition row_ok :: "deploymentRecord \<Rightarrow> bool" where
  "row_ok r \<longleftrightarrow> (waiting (dr_Status r) \<longrightarrow> TrimSpace (dr_SandboxID r) = []) \<and> TrimSpace (dr_ID r) = dr_ID r \<and> dr_ID r \<noteq> []"

definition worker_rows_ok :: "deployment_db \<Rightarrow> bool" where
  "worker_rows_ok db \<longleftrightarrow> deployments_ok db \<and> list_all row_ok (dp_deployments db)"

definition clean :: "Deployment \<Rightarrow> bool" where
  "clean d \<longleftrightarrow> (waiting (dm_Status d) \<longrightarrow> TrimSpace (dm_SandboxID d) = [])"

definition rely :: "worker_env \<Rightarrow> bool" where
  "rely env \<longleftrightarrow> (\<forall>n db. worker_rows_ok db \<longrightarrow> worker_rows_ok (we_other env n db))
     \<and> (\<forall>n x t h. we_ConnectDeploymentRuntime env n x t = Inr h \<longrightarrow> TrimSpace (rh_SandboxID h) = TrimSpace x)"

definition good :: "worker_state \<Rightarrow> bool" where
  "good s \<longleftrightarrow> never_forgets (ws_trace s) \<and> worker_rows_ok (ws_db s)"

lemma watch_append [simp]: "watch i (es @ [e]) = watch_step i e (watch i es)"
  by (simp add: watch_def)

lemma goodD: "good s \<Longrightarrow> \<exists>c. watch i (ws_trace s) = Some c"
  by (auto simp: good_def never_forgets_def)

lemma free_holds: "free d s \<Longrightarrow> TrimSpace (dm_ID d') = TrimSpace (dm_ID d) \<Longrightarrow> holds d' s"
  by (simp add: free_def holds_def)

lemma holds_same: "holds d s \<Longrightarrow> dm_ID d' = dm_ID d \<Longrightarrow> dm_SandboxID d' = dm_SandboxID d \<Longrightarrow> holds d' s"
  by (simp add: holds_def)

lemma holds_blank: "holds d s \<Longrightarrow> TrimSpace (dm_SandboxID d) = [] \<Longrightarrow> free d s"
  by (simp add: free_def holds_def)

subsection \<open>Single statements\<close>

lemma interfere_simps [simp]:
  "ws_trace (interfere env s) = ws_trace s" "holds d (interfere env s) = holds d s" "free d (interfere env s) = free d s"
  by (simp_all add: interfere_def holds_def free_def)

lemma good_interfere [intro]: "rely env \<Longrightarrow> good s \<Longrightarrow> good (interfere env s)"
  by (auto simp: good_def rely_def interfere_def)

lemma good_log: "good s \<Longrightarrow> (\<And>i c. watch_step i e (Some c) \<noteq> None) \<Longrightarrow> good (log_event e s)"
  by (simp add: good_def never_forgets_def log_event_def) (metis not_None_eq)

lemma good_log_simple:
  "good s \<Longrightarrow> good (log_event (AskedClose x) s)"
  "good s \<Longrightarrow> good (log_event (Gone x) s)" "good s \<Longrightarrow> good (log_event (WasRead d) s)"
  by (rule good_log; simp)+

lemma holds_log_simple [simp]:
  "good s \<Longrightarrow> holds d (log_event (AskedClose x) s) = holds d s" "good s \<Longrightarrow> free d (log_event (AskedClose x) s) = free d s"
  using goodD [of s "TrimSpace (dm_ID d)"] by (auto simp: holds_def free_def log_event_def)

text \<open>A sandbox that is created or found for a deployment without a sandbox is the one the next write has to carry.\<close>

lemma log_sandbox:
  assumes "good s" "free d s" "e = Created (dm_ID d) n x True \<or> e = Found (dm_ID d) x"
  shows "good (log_event e s)"
    "TrimSpace (dm_ID d') = TrimSpace (dm_ID d) \<Longrightarrow> TrimSpace (dm_SandboxID d') = x \<Longrightarrow> holds d' (log_event e s)"
proof -
  have w: "watch_step i e (watch i (ws_trace s)) = (if TrimSpace (dm_ID d) = i then Some x else watch i (ws_trace s))" for i
    using assms(2,3) goodD [OF assms(1), of i] by (auto simp: free_def)
  show "good (log_event e s)" using assms(1) w by (auto simp: good_def never_forgets_def log_event_def)
  show "TrimSpace (dm_ID d') = TrimSpace (dm_ID d) \<Longrightarrow> TrimSpace (dm_SandboxID d') = x \<Longrightarrow> holds d' (log_event e s)"
    using w by (simp add: holds_def log_event_def)
qed

lemma log_unconfirmed:
  assumes "good s" "free d s"
  shows "good (log_event (Created (dm_ID d) n x False) s)" "free d (log_event (Created (dm_ID d) n x False) s)"
proof -
  have w: "watch_step i (Created (dm_ID d) n x False) (watch i (ws_trace s)) = watch i (ws_trace s)" for i
    using assms(2) goodD [OF assms(1), of i] by (auto simp: free_def)
  show "good (log_event (Created (dm_ID d) n x False) s)" using assms(1) w by (auto simp: good_def never_forgets_def log_event_def)
  show "free d (log_event (Created (dm_ID d) n x False) s)" using assms(2) w by (simp add: free_def log_event_def)
qed

lemma holds_read: "good s \<Longrightarrow> holds d (log_event (WasRead d) s)"
  using goodD [of s "TrimSpace (dm_ID d)"] by (auto simp: holds_def log_event_def)

lemma holds_Gone:
  assumes "good s" "holds d s"
  shows "holds d (log_event (Gone x) s)" "x = TrimSpace (dm_SandboxID d) \<Longrightarrow> free d (log_event (Gone x) s)"
  using assms by (auto simp: holds_def free_def log_event_def)

lemma emit_good:
  assumes "rely env" "good s"
  shows "good (emit env d event s)" "holds d' (emit env d event s) = holds d' s" "free d' (emit env d event s) = free d' s"
proof -
  have same: "dp_deployments db' = dp_deployments db" if "AppendDeploymentEvent now e db = Inr db'" for now e db db'
    using that by (auto simp: AppendDeploymentEvent_def Let_def split: if_splits option.splits sum.splits)
  have i: "good (interfere env s)" using assms by blast
  show "good (emit env d event s)"
    using i same AppendDeploymentEvent_ok by (auto simp: emit_def Let_def good_def worker_rows_ok_def split: sum.split)
  show "holds d' (emit env d event s) = holds d' s" "free d' (emit env d event s) = free d' s"
    by (auto simp: emit_def Let_def holds_def free_def interfere_def split: sum.split)
qed


lemma UpdateDeployment_worker_rows_ok:
  assumes "worker_rows_ok db" "clean d" "UpdateDeployment now d db = Inr db'"
  shows "worker_rows_ok db'"
proof -
  obtain d1 where d1: "normalizeDeployment d = Inr d1" "update_transaction now d1 db = Inr db'" using UpdateDeployment_Inr [OF assms(3)] .
  have rows: "dp_deployments db' = update_where (\<lambda>r. dr_ID r = dm_ID d1 \<and> dr_Version r = dm_Version d1) (update_columns now d1) (dp_deployments db)"
    using d1(2) by (auto simp: update_transaction_def Let_def split: if_splits option.splits sum.splits)
  have columns: "dr_Status (update_columns now d1 r) = dm_Status d" "dr_SandboxID (update_columns now d1 r) = TrimSpace (dm_SandboxID d)" for r
    using normalizeDeployment_Inr(4,7) [OF d1(1)] by (simp_all add: update_columns_def Let_def)
  show ?thesis
    using assms(1,2) normalizeDeployment_Inr(4) [OF d1(1)] update_transaction_ok [OF _ d1(2)]
    by (auto simp: worker_rows_ok_def row_ok_def clean_def rows list_all_iff set_update_where columns split: if_splits)
qed

lemma persist_good:
  assumes "rely env" "good s" "holds d s" "clean d" "persist env d s = (s', d', e)"
  shows "good s'" "holds d' s'" "dm_ID d' = dm_ID d" "dm_SandboxID d' = dm_SandboxID d" "dm_Status d' = dm_Status d" "dm_ExpiresAt d' = dm_ExpiresAt d"
proof -
  have i: "good (interfere env s)" using assms by blast
  have wrote: "good (log_event (Wrote d) (interfere env s \<lparr> ws_db := db \<rparr>)) \<and> holds d (log_event (Wrote d) (interfere env s \<lparr> ws_db := db \<rparr>))"
    if "UpdateDeployment now d (ws_db (interfere env s)) = Inr db" for now db
  proof -
    have "worker_rows_ok db" using UpdateDeployment_worker_rows_ok [OF _ assms(4) that] i by (simp add: good_def)
    moreover have "watch_step j (Wrote d) (watch j (ws_trace s)) \<noteq> None" for j
      using assms(3) goodD [OF assms(2), of j] by (auto simp: holds_def)
    ultimately show ?thesis using assms(3) by (auto simp: good_def never_forgets_def log_event_def holds_def)
  qed
  have "(s' = interfere env s \<and> d' = d) \<or> (\<exists>db now. UpdateDeployment now d (ws_db (interfere env s)) = Inr db
      \<and> s' = log_event (Wrote d) (interfere env s \<lparr> ws_db := db \<rparr>) \<and> d' = d \<lparr> dm_Version := dm_Version d + 1 \<rparr>)"
    using assms(5) by (auto simp: persist_def Let_def split: sum.splits)
  then have "good s' \<and> holds d s' \<and> (d' = d \<or> d' = d \<lparr> dm_Version := dm_Version d + 1 \<rparr>)" using i wrote assms(3) by auto
  then show "good s'" "holds d' s'" "dm_ID d' = dm_ID d" "dm_SandboxID d' = dm_SandboxID d" "dm_Status d' = dm_Status d" "dm_ExpiresAt d' = dm_ExpiresAt d"
    by (auto simp: holds_def)
qed

lemma transition_state_simps [simp]:
  "dm_ID (transition_state st stage reason d) = dm_ID d" "dm_SandboxID (transition_state st stage reason d) = dm_SandboxID d"
  "dm_Status (transition_state st stage reason d) = st" "dm_ExpiresAt (transition_state st stage reason d) = dm_ExpiresAt d"
  by (simp_all add: transition_state_def Let_def)

lemma failed_state_simps [simp]:
  "dm_ID (failed_state stage reason d) = dm_ID d" "dm_SandboxID (failed_state stage reason d) = dm_SandboxID d"
  "dm_Status (failed_state stage reason d) = DeploymentStatusFailed"
  by (simp_all add: failed_state_def)

lemma transition_good:
  assumes "rely env" "good s" "holds d s" "waiting st \<longrightarrow> TrimSpace (dm_SandboxID d) = []" "transition env d st stage reason s = (s', d', e)"
  shows "good s'" "holds d' s'" "dm_ID d' = dm_ID d" "dm_SandboxID d' = dm_SandboxID d" "dm_Status d' = st"
proof -
  obtain s1 d1 e1 where p: "persist env (transition_state st stage reason d) s = (s1, d1, e1)" by (metis prod_cases3)
  note g = persist_good [OF assms(1,2) _ _ p]
  have h: "holds (transition_state st stage reason d) s" "clean (transition_state st stage reason d)"
    using holds_same [OF assms(3)] assms(4) by (simp_all add: clean_def)
  show "good s'" "holds d' s'" "dm_ID d' = dm_ID d" "dm_SandboxID d' = dm_SandboxID d" "dm_Status d' = st"
    using g [OF h] assms(5) emit_good [OF assms(1)] by (auto simp: transition_def p split: option.splits)
qed

lemma fail_good:
  assumes "rely env" "good s" "holds d s" "fail env d stage reason s = (s', d', e)"
  shows "good s'" "holds d' s'" "dm_ID d' = dm_ID d" "dm_SandboxID d' = dm_SandboxID d" "dm_Status d' = DeploymentStatusFailed"
proof -
  obtain s1 d1 e1 where p: "persist env (failed_state stage reason d) s = (s1, d1, e1)" by (metis prod_cases3)
  have h: "holds (failed_state stage reason d) s" "clean (failed_state stage reason d)"
    using holds_same [OF assms(3)] by (simp_all add: clean_def waiting_def deployment_statuses)
  show "good s'" "holds d' s'" "dm_ID d' = dm_ID d" "dm_SandboxID d' = dm_SandboxID d" "dm_Status d' = DeploymentStatusFailed"
    using persist_good [OF assms(1,2) h p] assms(4) emit_good [OF assms(1)] by (auto simp: fail_def p split: option.splits)
qed

lemma ends_fail_good: "rely env \<Longrightarrow> good s \<Longrightarrow> holds d s \<Longrightarrow> good (fst (ends (fail env d stage reason s)))"
  by (cases "fail env d stage reason s") (auto simp: ends_def dest: fail_good)

lemma close_good:
  assumes "rely env" "good s" "holds d s" "close env rt s = (s', e)"
  shows "good s'" "holds d s'" "e = None \<Longrightarrow> TrimSpace (rh_SandboxID rt) = TrimSpace (dm_SandboxID d) \<Longrightarrow> free d s'"
proof -
  let ?s = "log_event (AskedClose (TrimSpace (rh_SandboxID rt))) (interfere env s)"
  have a: "good ?s" "holds d ?s" using assms good_log_simple(1) good_interfere by auto
  show "good s'" "holds d s'" "e = None \<Longrightarrow> TrimSpace (rh_SandboxID rt) = TrimSpace (dm_SandboxID d) \<Longrightarrow> free d s'"
    using a holds_Gone [OF a] good_log_simple(2) [OF a(1)] assms(4) by (auto simp: close_def Let_def split: option.splits)
qed

lemma connect_good:
  assumes "rely env" "good s" "holds d s" "connect env d s = (s', answer)"
  shows "good s'" "holds d s'" "answer = Inr None \<Longrightarrow> free d s'"
    "answer = Inr (Some rt) \<Longrightarrow> TrimSpace (rh_SandboxID rt) = TrimSpace (dm_SandboxID d)"
proof -
  have i: "good (interfere env s)" "holds d (interfere env s)" using assms by auto
  show "good s'" "holds d s'" "answer = Inr None \<Longrightarrow> free d s'"
    using i holds_Gone [OF i] good_log_simple(2) [OF i(1)] assms(4) by (auto simp: connect_def Let_def split: sum.splits option.splits)
  show "answer = Inr (Some rt) \<Longrightarrow> TrimSpace (rh_SandboxID rt) = TrimSpace (dm_SandboxID d)"
    using assms(1,4) by (auto simp: connect_def factory_Connect_def rely_def Let_def split: sum.splits option.splits if_splits)
qed


subsection \<open>Stopping\<close>

lemma not_waiting [simp]:
  "\<not> waiting DeploymentStatusCreating" "\<not> waiting DeploymentStatusRunning" "\<not> waiting DeploymentStatusStopping" "\<not> waiting DeploymentStatusFailed"
  "\<not> waiting DeploymentStatusCompleted" "\<not> waiting DeploymentStatusExpired"
  by (simp_all add: waiting_def deployment_statuses)

text \<open>A sandbox that was created or found for an attempt is adopted.\<close>

lemma adopt_good:
  assumes "rely env" "good s" "holds (d \<lparr> dm_SandboxID := x \<rparr>) s" "\<not> waiting (dm_Status d)"
    "persist env (d \<lparr> dm_SandboxID := x, dm_RuntimeID := y \<rparr>) s = (s', d', e)"
  shows "good s'" "holds d' s'" "dm_ID d' = dm_ID d" "dm_Status d' = dm_Status d" "dm_SandboxID d' = x"
  using persist_good [OF assms(1,2) holds_same [OF assms(3)] _ assms(5)] assms(4) by (simp_all add: clean_def)

lemma stop_lookup_good:
  assumes env: "rely env" and s: "good s" "holds d s" and step: "stop_lookup env d s = (s', r)"
  shows "good s'" "r = Inr d1 \<Longrightarrow> holds d1 s' \<and> dm_ID d1 = dm_ID d"
proof -
  have "good s' \<and> (\<forall>d1. r = Inr d1 \<longrightarrow> holds d1 s' \<and> dm_ID d1 = dm_ID d)"
  proof (cases "dm_SandboxID d = [] \<and> dm_Attempt d > 0 \<and> (dm_Status d = DeploymentStatusCreating \<or> dm_Status d = DeploymentStatusStopping)")
    case False
    then have "stop_lookup env d s = (s, Inr d)" by (simp only: stop_lookup_def if_False)
    then show ?thesis using s step by simp
  next
    case True
    let ?s = "interfere env s"
    have i: "good ?s" "holds d ?s" "free d ?s" using env s True holds_blank [OF s(2)] by auto
    have status: "\<not> waiting (dm_Status d)" using True by auto
    obtain rt x e where answer: "factory_Reconcile env (ws_step ?s) d = (rt, x, e)" by (metis prod_cases3)
    show ?thesis
    proof (cases rt)
      case None
      then show ?thesis using True step i answer by (auto simp: stop_lookup_def Let_def split: option.splits if_splits)
    next
      case (Some h)
      let ?t = "log_event (Found (dm_ID d) (TrimSpace x)) ?s"
      have t: "good ?t" "holds (d \<lparr> dm_SandboxID := x \<rparr>) ?t" using log_sandbox [OF i(1,3)] by simp_all
      obtain s1 d1 e1 where p: "persist env (d \<lparr> dm_SandboxID := x, dm_RuntimeID := rh_ID h \<rparr>) ?t = (s1, d1, e1)" by (metis prod_cases3)
      show ?thesis
        using True step t answer Some p adopt_good [OF env t status p] by (auto simp: stop_lookup_def Let_def split: option.splits if_splits)
    qed
  qed
  then show "good s'" "r = Inr d1 \<Longrightarrow> holds d1 s' \<and> dm_ID d1 = dm_ID d" by auto
qed

text \<open>A step for a deployment that keeps its sandbox, or succeeds when the sandbox is gone.\<close>

definition releases :: "Deployment \<Rightarrow> worker_state \<times> worker_error option \<Rightarrow> bool" where
  "releases d r \<longleftrightarrow> good (fst r) \<and> (snd r = None \<longrightarrow> free d (fst r))"

lemma failCleanup_releases: "rely env \<Longrightarrow> good s \<Longrightarrow> holds d s \<Longrightarrow> releases d (failCleanup env expiry d e s)"
  unfolding failCleanup_def releases_def
  by (cases "if expiry then fail env d expiryCleanupStage ''deployment expired; cleanup is incomplete'' s
             else fail env d ''cleanup'' ''deployment cleanup is incomplete'' s")
    (auto split: option.split if_splits dest: fail_good(1))

lemma close_runtime_releases:
  assumes env: "rely env" and s: "good s" "holds d s" and rt: "TrimSpace (rh_SandboxID rt) = TrimSpace (dm_SandboxID d)"
  shows "releases d (close_runtime env expiry d rt s)"
proof -
  obtain s1 e where close: "close env rt s = (s1, e)" by force
  note g = close_good [OF env s close]
  show ?thesis using g rt failCleanup_releases [OF env g(1,2)] by (cases e) (auto simp: close_runtime_def close releases_def)
qed

lemma stop_runtime_releases:
  assumes env: "rely env" and s: "good s" "holds d s"
  shows "releases d (stop_runtime env expiry d s)"
proof (cases "TrimSpace (dm_SandboxID d) = []")
  case True
  then show ?thesis using s holds_blank [OF s(2)] by (simp add: stop_runtime_def releases_def)
next
  case False
  obtain s1 answer where c: "connect env d s = (s1, answer)" by force
  note g = connect_good [OF env s c]
  have i: "good (interfere env s1)" "holds d (interfere env s1)" using env g(1,2) by auto
  consider err where "answer = Inl err" | "answer = Inr None" | rt where "answer = Inr (Some rt)"
    by (metis not_None_eq sum.exhaust)
  then show ?thesis
  proof cases
    case 3
    then show ?thesis
      using False c failCleanup_releases [OF env i] close_runtime_releases [OF env i g(4)] by (auto simp: stop_runtime_def Let_def split: option.split)
  qed (use False c g failCleanup_releases [OF env g(1,2)] in \<open>auto simp: stop_runtime_def releases_def [of d "(s1, None)"]\<close>)
qed

lemma stopped_state_simps [simp]: "dm_ID (stopped_state a b c d) = dm_ID d" "clean (stopped_state a b c d)"
  by (simp_all add: stopped_state_def clear_attempt_def clean_def Let_def)

lemma get_deployment_good:
  assumes "rely env" "good s" "get_deployment env i s = (s', r)"
  shows "good s'" "r = Inr d \<Longrightarrow> holds d s' \<and> clean d"
proof -
  have i: "good (interfere env s)" using assms by blast
  show "good s'" using i good_log_simple(3) [OF i] assms(3) by (auto simp: get_deployment_def Let_def split: sum.splits)
  show "r = Inr d \<Longrightarrow> holds d s' \<and> clean d"
  proof -
    assume r: "r = Inr d"
    then have s': "s' = log_event (WasRead d) (interfere env s)" and get: "GetDeployment (TrimSpace i) (ws_db (interfere env s)) = Inr d"
      using assms(3) by (auto simp: get_deployment_def Let_def split: sum.splits)
    obtain row where row: "row \<in> set (dp_deployments (ws_db (interfere env s)))" "d = deploymentFromRecord row"
      using get by (auto simp: GetDeployment_def split: option.splits dest: lookup_by_in)
    have "clean d" using row i by (auto simp: good_def worker_rows_ok_def row_ok_def list_all_iff clean_def deploymentFromRecord_def)
    then show ?thesis using holds_read [OF i] s' by simp
  qed
qed

lemma stop_good:
  assumes env: "rely env" and s: "good s"
  shows "good (fst (stop env i expired observed s))"
proof -
  obtain s1 r where get: "get_deployment env i s = (s1, r)" by force
  note g1 = get_deployment_good [OF env s get]
  show ?thesis
  proof (cases r)
    case (Inl e)
    then show ?thesis using g1(1) by (simp add: stop_def get)
  next
    case (Inr d)
    obtain s2 q where look: "stop_lookup env d s1 = (s2, q)" by force
    have d: "holds d s1" using g1(2) [OF Inr] by simp
    note g2 = stop_lookup_good [OF env g1(1) d look]
    show ?thesis
    proof (cases q)
      case (Inl e)
      then show ?thesis using g1(1) g2(1) Inr by (simp add: stop_def get look Let_def)
    next
      case q: (Inr d1)
      obtain s3 d2 e3 where t: "transition env d1 DeploymentStatusStopping ''cleanup'' [] s2 = (s3, d2, e3)" by (metis prod_cases3)
      have d1: "holds d1 s2" using g2(2) [OF q] by simp
      note g3 = transition_good [OF env g2(1) d1 _ t, simplified]
      have final: "good (fst (ends (persist env (stopped_state a b c d2) s4)))" if "good s4" "free d2 s4" for a b c s4
        using persist_good(1) [OF env that(1), of "stopped_state a b c d2"] free_holds [OF that(2), of "stopped_state a b c d2"]
        by (cases "persist env (stopped_state a b c d2) s4") (auto simp: ends_def)
      have rest: "good (fst (case stop_runtime env x d2 s3 of (s4, Some e) \<Rightarrow> (s4, Some e) | (s4, None) \<Rightarrow> ends (persist env (stopped_state a b c d2) s4)))" for x a b c
      proof -
        obtain s4 e4 where run: "stop_runtime env x d2 s3 = (s4, e4)" by force
        show ?thesis using stop_runtime_releases [OF env g3(1,2), of x] final by (cases e4) (auto simp: run releases_def)
      qed
      show ?thesis
        using g1(1) g3(1) rest Inr q by (auto simp: stop_def get look t Let_def split: option.split)
    qed
  qed
qed


subsection \<open>Recovery and health\<close>

lemma Stop_good: "rely env \<Longrightarrow> good s \<Longrightarrow> good (fst (Stop env i expired s))"
  by (simp add: Stop_def stop_good)

lemma fail_then_stop_good:
  assumes env: "rely env" and s: "good s" "holds d s"
  shows "good (fst (case fail env d stage reason s of (s1, x, Some e) \<Rightarrow> (s1, Some e) | (s1, d1, None) \<Rightarrow> Stop env (dm_ID d1) (b s1 d1) s1))"
proof -
  obtain s1 d1 e where f: "fail env d stage reason s = (s1, d1, e)" by (metis prod_cases3)
  show ?thesis using fail_good(1) [OF env s f] Stop_good [OF env] by (cases e) (simp_all add: f)
qed

lemma recoverCreating_good:
  assumes env: "rely env" and s: "good s" "holds d s" and status: "dm_Status d = DeploymentStatusCreating"
  shows "good (fst (recoverCreating env d s))"
proof (cases "dm_SandboxID d = []")
  case False
  then show ?thesis using fail_then_stop_good [OF env s] by (simp add: recoverCreating_def)
next
  case True
  let ?s = "interfere env s"
  have i: "good ?s" "holds d ?s" "free d ?s" using env s True holds_blank [OF s(2)] by auto
  obtain rt x e where answer: "factory_Reconcile env (ws_step ?s) d = (rt, x, e)" by (metis prod_cases3)
  show ?thesis
  proof (cases rt)
    case None
    then show ?thesis using True i answer ends_fail_good [OF env i(1,2)] by (auto simp: recoverCreating_def Let_def split: option.split)
  next
    case (Some h)
    let ?t = "log_event (Found (dm_ID d) (TrimSpace x)) ?s"
    have t: "good ?t" "holds (d \<lparr> dm_SandboxID := x \<rparr>) ?t" using log_sandbox [OF i(1,3)] by simp_all
    obtain s1 d1 e1 where p: "persist env (d \<lparr> dm_SandboxID := x, dm_RuntimeID := rh_ID h \<rparr>) ?t = (s1, d1, e1)" by (metis prod_cases3)
    note g = adopt_good [OF env t _ p]
    show ?thesis
      using True t(1) answer Some p g status fail_then_stop_good [OF env g(1,2)] by (auto simp: recoverCreating_def Let_def split: option.split)
  qed
qed

lemma check_answer_good:
  assumes "rely env" "good s" "holds d s"
  shows "good (fst (check_answer env d alive s))"
  using assms stop_good fail_then_stop_good [OF assms] by (simp add: check_answer_def)

lemma checkRunning_good:
  assumes env: "rely env" and s: "good s" "holds d s"
  shows "good (fst (checkRunning env d s))"
proof -
  obtain s1 answer where c: "connect env d s = (s1, answer)" by force
  note g = connect_good [OF env s c]
  have i: "good (interfere env s1)" "holds d (interfere env s1)" using env g(1,2) by auto
  show ?thesis
    using g(1) check_answer_good [OF env g(1,2)] check_answer_good [OF env i] i
    by (auto simp: checkRunning_def c Let_def split: sum.split option.split)
qed

subsection \<open>Execution\<close>

lemma factory_Create_bound:
  assumes "factory_Create env n d a = (rt, x, e)"
  shows "rt = Some h \<Longrightarrow> x = rh_SandboxID h" "rt = None \<Longrightarrow> x = [] \<and> e \<noteq> None"
  using assms by (auto simp: factory_Create_def split: sum.splits option.splits) metis+

definition working :: "Deployment \<Rightarrow> worker_state \<Rightarrow> bool" where
  "working d s \<longleftrightarrow> good s \<and> holds d s \<and> \<not> waiting (dm_Status d)"

lemma apply_callback_working:
  assumes env: "rely env" and w: "working d s" and step: "apply_callback env a (s, d) = (s', d')"
  shows "working d' s' \<and> dm_ID d' = dm_ID d \<and> dm_SandboxID d' = dm_SandboxID d"
proof (cases a)
  case (OnStage stage)
  let ?s = "emit env d (deployment_event (dm_Attempt d) ''lifecycle'' (we_stage env stage) [] (deploymentStageMessage env stage)) s"
  have i: "good ?s" "holds d ?s" using emit_good [OF env] w by (auto simp: working_def)
  obtain s2 d1 e where t: "transition env d DeploymentStatusCreating (we_stage env stage) [] ?s = (s2, d1, e)" by (metis prod_cases3)
  show ?thesis
    using step OnStage t transition_good [OF env i _ t] emit_good [OF env] w by (auto simp: working_def split: if_splits)
next
  case (OnCheckpoint runtimeID processID processTag startTag)
  define d1 where "d1 = (if runtimeID \<noteq> [] then d \<lparr> dm_RuntimeID := runtimeID, dm_ProcessID := processID, dm_ProcessTag := processTag \<rparr> else d)"
  define d2 where "d2 = (if startTag \<noteq> [] then d1 \<lparr> dm_ProcessTag := startTag \<rparr> else d1)"
  have d2: "dm_ID d2 = dm_ID d" "dm_SandboxID d2 = dm_SandboxID d" "dm_Status d2 = dm_Status d" by (simp_all add: d1_def d2_def)
  have i: "good s" "holds d2 s" "clean d2" using w d2 holds_same [of d s d2] by (auto simp: working_def clean_def)
  obtain s1 d3 e where p: "persist env d2 s = (s1, d3, e)" by (metis prod_cases3)
  show ?thesis
    using step p persist_good [OF env i p] w d2 by (simp add: OnCheckpoint working_def d1_def [symmetric] d2_def [symmetric])
next
  case (OnOutput stage stream message)
  then show ?thesis using step emit_good [OF env] w by (auto simp: working_def)
qed

lemma apply_callbacks_working:
  assumes "rely env" "working d s" "fold (apply_callback env) actions (s, d) = (s', d')"
  shows "working d' s' \<and> dm_ID d' = dm_ID d \<and> dm_SandboxID d' = dm_SandboxID d"
  using assms(2,3)
proof (induction actions arbitrary: s d)
  case (Cons a actions)
  obtain s1 d1 where step: "apply_callback env a (s, d) = (s1, d1)" by force
  show ?case using Cons.IH [of d1 s1] Cons.prems(2) apply_callback_working [OF assms(1) Cons.prems(1) step] step by simp
qed simp

lemma closeAttempt_good:
  assumes "rely env" "good s" "holds d s" "closeAttempt env rt s = (s', e)"
  shows "good s'" "holds d s'" "e = None \<Longrightarrow> rt = Some h \<Longrightarrow> TrimSpace (rh_SandboxID h) = TrimSpace (dm_SandboxID d) \<Longrightarrow> free d s'"
  using assms close_good [OF assms(1-3)] by (auto simp: closeAttempt_def split: option.splits)

lemma apply_failed_good:
  assumes env: "rely env" and s: "good s" "holds d s" and rt: "TrimSpace (rh_SandboxID rt) = TrimSpace (dm_SandboxID d)"
  shows "good (fst (apply_failed env d rt err s))"
proof -
  obtain s1 e where c: "closeAttempt env (Some rt) s = (s1, e)" by force
  note g = closeAttempt_good [OF env s c]
  show ?thesis
  proof (cases e)
    case None
    then have "holds (clear_attempt d) s1" using g(3) rt free_holds [of d s1 "clear_attempt d"] by (simp add: clear_attempt_def)
    then show ?thesis
      using None g(1) ends_fail_good [OF env g(1)] transition_good(1) [OF env g(1), of "clear_attempt d"]
      by (auto simp: apply_failed_def c Let_def ends_def) (metis not_waiting(6) prod.collapse)
  next
    case (Some x)
    then show ?thesis using ends_fail_good [OF env g(1,2)] by (simp add: apply_failed_def c Let_def)
  qed
qed


lemma execute_good:
  assumes env: "rely env" and s: "good s" "holds (d \<lparr> dm_SandboxID := TrimSpace x \<rparr>) s" and status: "\<not> waiting (dm_Status d)" and x: "x = rh_SandboxID rt"
  shows "good (fst (execute env d rt x s))"
proof -
  define d1 where "d1 = d \<lparr> dm_SandboxID := TrimSpace x, dm_RuntimeID := rh_ID rt,
    dm_ExpiresAt := (if IsZero (we_ActualExpiresAt env (ws_step s) rt) then dm_ExpiresAt d else we_ActualExpiresAt env (ws_step s) rt) \<rparr>"
  have i: "holds d1 s" "clean d1" using holds_same [OF s(2), of d1] status by (simp_all add: d1_def clean_def)
  obtain s1 d2 e where p: "persist env d1 s = (s1, d2, e)" by (metis prod_cases3)
  note g = persist_good [OF env s(1) i p]
  have closed: "good (fst (closeAttempt env (Some rt) t))" if "good t" "holds d' t" for d' t
    using closeAttempt_good(1) [OF env that] by (cases "closeAttempt env (Some rt) t") auto
  show ?thesis
  proof (cases e)
    case (Some err)
    then show ?thesis using closed [OF g(1,2)] by (simp add: execute_def Let_def d1_def [symmetric] p)
  next
    case None
    obtain actions result where run: "we_Apply env (ws_step s1) d2 = (actions, result)" by force
    obtain s2 d3 where calls: "fold (apply_callback env) actions (s1, d2) = (s2, d3)" by force
    have "working d2 s1" using g status by (simp add: working_def d1_def)
    then have w: "good s2" "holds d3 s2" "dm_SandboxID d3 = TrimSpace x"
      using apply_callbacks_working [OF env _ calls] g(4) by (auto simp: working_def d1_def)
    have rt: "TrimSpace (rh_SandboxID rt) = TrimSpace (dm_SandboxID d3)" using w(3) x TrimSpace_idem by simp
    show ?thesis
    proof (cases result)
      case (Inl err)
      then show ?thesis using apply_failed_good [OF env w(1,2) rt] by (simp add: execute_def Let_def d1_def [symmetric] p None run calls)
    next
      case (Inr r)
      let ?d = "d3 \<lparr> dm_Endpoint := ar_Endpoint r, dm_ProcessID := ar_ProcessID r, dm_ProcessTag := ar_ProcessTag r, dm_RuntimeID := ar_RuntimeID r \<rparr>"
      obtain s3 d4 e4 where t: "transition env ?d DeploymentStatusRunning ''ready'' [] s2 = (s3, d4, e4)" by (metis prod_cases3)
      note g4 = transition_good [OF env w(1) holds_same [OF w(2)] _ t, simplified]
      show ?thesis using g4 closed [OF g4(1,2)] Inr by (cases e4) (simp_all add: execute_def Let_def d1_def [symmetric] p None run calls t)
    qed
  qed
qed

lemma create_failed_good:
  assumes env: "rely env" and s: "good s" "holds (d \<lparr> dm_SandboxID := TrimSpace x \<rparr>) s" and blank: "TrimSpace (dm_SandboxID d) = []"
    and status: "\<not> waiting (dm_Status d)" and bound: "\<And>h. rt = Some h \<Longrightarrow> x = rh_SandboxID h" "rt = None \<Longrightarrow> x = []"
  shows "good (fst (create_failed env d rt x err s))"
proof (cases rt)
  case None
  then have "holds d s" using s(2) blank bound(2) by (simp add: holds_def)
  then show ?thesis using None ends_fail_good [OF env s(1)] emit_good(1) [OF env s(1)] bound(2) by (simp add: create_failed_def)
next
  case (Some h)
  obtain s1 d1 e1 where p: "persist env (d \<lparr> dm_SandboxID := TrimSpace x, dm_RuntimeID := rh_ID h \<rparr>) s = (s1, d1, e1)" by (metis prod_cases3)
  note g = adopt_good [OF env s status p]
  have d1: "TrimSpace (dm_SandboxID d1) = TrimSpace x" using g(5) by simp
  obtain s2 c where close: "closeAttempt env (Some h) s1 = (s2, c)" by force
  note g2 = closeAttempt_good [OF env g(1,2) close]
  have gone: "c = None \<Longrightarrow> holds (d1 \<lparr> dm_SandboxID := [], dm_RuntimeID := [] \<rparr>) s2"
    using g2(3) d1 bound(1) [OF Some] free_holds [of d1 s2 "d1 \<lparr> dm_SandboxID := [], dm_RuntimeID := [] \<rparr>"] by simp
  show ?thesis
    using g(1) ends_fail_good [OF env g2(1,2)] ends_fail_good [OF env g2(1) gone] Some
    by (cases e1; cases c) (simp_all add: create_failed_def p close)
qed

lemma create_sandbox_good:
  assumes env: "rely env" and s: "good s" "holds d s" and blank: "TrimSpace (dm_SandboxID d) = []" and status: "\<not> waiting (dm_Status d)"
  shows "good (fst (create_sandbox env d s))"
proof -
  obtain rt x err where answer: "factory_Create env (ws_step (interfere env s)) d (dm_Attempt d) = (rt, x, err)" by (metis prod_cases3)
  note bound = factory_Create_bound [OF answer]
  define confirmed where "confirmed = (err \<noteq> None \<or> (case rt of None \<Rightarrow> False | Some h \<Rightarrow> TrimSpace (rh_ID h) \<noteq> []))"
  define s1 where "s1 = log_event (Created (dm_ID d) (dm_Attempt d) (TrimSpace x) confirmed) (interfere env s)"
  have i: "good (interfere env s)" "free d (interfere env s)" using env s holds_blank [OF s(2) blank] by auto
  note run = create_sandbox_def [of env d s, unfolded Let_def answer prod.case, folded confirmed_def, folded s1_def]
  show ?thesis
  proof (cases confirmed)
    case True
    have s1: "good s1" "holds (d \<lparr> dm_SandboxID := TrimSpace x \<rparr>) s1"
      using log_sandbox [OF i, of "Created (dm_ID d) (dm_Attempt d) (TrimSpace x) True"] True by (simp_all add: s1_def)
    have blank_id: "TrimSpace x = [] \<Longrightarrow> holds d s1" using s1(2) blank by (simp add: holds_def)
    have closed: "good (fst (closeAttempt env rt s1))" "holds d (fst (closeAttempt env rt s1))" if "TrimSpace x = []"
      using closeAttempt_good(1,2) [OF env s1(1) blank_id [OF that] prod.collapse [symmetric]] .
    show ?thesis
    proof (cases err)
      case (Some e)
      then show ?thesis using create_failed_good [OF env s1 blank status] bound by (simp add: run)
    next
      case None
      then obtain h where h: "rt = Some h" "x = rh_SandboxID h" "TrimSpace (rh_ID h) \<noteq> []"
        using bound True by (cases rt) (auto simp: confirmed_def)
      show ?thesis using None h execute_good [OF env s1 status, of h] ends_fail_good [OF env closed] by (simp add: run)
    qed
  next
    case False
    then obtain h where h: "err = None" "rt = Some h" "TrimSpace (rh_ID h) = []" using bound by (cases rt) (auto simp: confirmed_def)
    have s1: "good s1" "free d s1" using log_unconfirmed [OF i] False by (simp_all add: s1_def)
    have "good (fst (closeAttempt env rt s1))" "holds d (fst (closeAttempt env rt s1))"
      using closeAttempt_good(1,2) [OF env s1(1) free_holds [OF s1(2)] prod.collapse [symmetric]] by simp_all
    then show ?thesis using h ends_fail_good [OF env] by (simp add: run)
  qed
qed

lemma prepare_good:
  assumes env: "rely env" and s: "good s" "holds d s" and blank: "TrimSpace (dm_SandboxID d) = []" and step: "prepare env d s = (s', r)"
  shows "good s'" "r = Inr d' \<Longrightarrow> holds d' s' \<and> TrimSpace (dm_SandboxID d') = [] \<and> \<not> waiting (dm_Status d')"
proof -
  obtain s1 d1 e1 where t: "transition env d DeploymentStatusPlanning [] [] s = (s1, d1, e1)" by (metis prod_cases3)
  note g = transition_good [OF env s _ t]
  have g1: "good s1" "holds d1 s1" "TrimSpace (dm_SandboxID d1) = []" using g blank by auto
  define d2 where "d2 = d1 \<lparr> dm_Attempt := dm_Attempt d1 + 1,
    dm_DeploymentTemplateID := (if TrimSpace (dm_DeploymentTemplateID d1) = [] then TrimSpace (we_TemplateID env) else dm_DeploymentTemplateID d1) \<rparr>"
  have d2: "holds d2 s1" "TrimSpace (dm_SandboxID d2) = []" using holds_same [OF g1(2), of d2] g1(3) by (simp_all add: d2_def)
  obtain s2 d3 e3 where t2: "transition env d2 DeploymentStatusCreating [] [] s1 = (s2, d3, e3)" by (metis prod_cases3)
  note g3 = transition_good [OF env g1(1) d2(1) _ t2]
  have failed: "good s0" if "ends (fail env x stage reason s1) = (s0, e)" "holds x s1" for x stage reason s0 e
    using ends_fail_good [OF env g1(1) that(2)] that(1) by (metis fst_conv)
  show "good s'" "r = Inr d' \<Longrightarrow> holds d' s' \<and> TrimSpace (dm_SandboxID d') = [] \<and> \<not> waiting (dm_Status d')"
    using step g1(1,2) d2 g3 failed
    by (auto simp: prepare_def t t2 d2_def [symmetric] Let_def split: option.splits if_splits prod.splits)
qed

lemma Process_good:
  assumes env: "rely env" and s: "good s"
  shows "good (fst (Process env i s))"
proof -
  obtain s1 r where get: "get_deployment env i s = (s1, r)" by force
  note g1 = get_deployment_good [OF env s get]
  show ?thesis
  proof (cases r)
    case (Inl e)
    then show ?thesis using g1(1) by (simp add: Process_def get)
  next
    case (Inr d)
    have d: "holds d s1" "clean d" using g1(2) [OF Inr] by auto
    obtain s2 q where prep: "prepare env d s1 = (s2, q)" by force
    have "good (fst (case prepare env d s1 of (s2, Inl e) \<Rightarrow> (s2, e) | (s2, Inr d1) \<Rightarrow> create_sandbox env d1 s2))" if "dm_Status d = DeploymentStatusQueued"
    proof -
      have "TrimSpace (dm_SandboxID d) = []" using d(2) that by (simp add: clean_def waiting_def)
      note g2 = prepare_good [OF env g1(1) d(1) this prep]
      show ?thesis using g2 create_sandbox_good [OF env g2(1)] by (cases q) (auto simp: prep)
    qed
    then show ?thesis using Inr g1(1) Stop_good [OF env g1(1)] by (simp add: Process_def get)
  qed
qed

lemma advance_good:
  assumes env: "rely env" and s: "good s" "holds item s" "clean item"
  shows "good (fst (advance env item s))"
proof -
  have requeue: "good (fst (ends (transition env item DeploymentStatusQueued ''recovery'' [] s)))" if "dm_Status item = DeploymentStatusPlanning"
    using transition_good(1) [OF env s(1,2)] s(3) that
    by (cases "transition env item DeploymentStatusQueued ''recovery'' [] s") (auto simp: ends_def clean_def waiting_def)
  show ?thesis
    using requeue s Stop_good [OF env s(1)] Process_good [OF env s(1)] recoverCreating_good [OF env s(1,2)] checkRunning_good [OF env s(1,2)]
    by (simp add: advance_def)
qed

end
