(* ===== verification/WorkerBatch.thy ===== *)
theory WorkerBatch
  imports WorkerSafety
begin

text \<open>
  A batch of the deployment worker, \<open>RunOnce\<close>: what the worker does for one deployment leaves what it knows of the others, the
  rest of the program meets the rely condition, and so the worker never forgets a sandbox.
\<close>

subsection \<open>One deployment at a time\<close>

text \<open>What the worker does for a deployment leaves what it knows of the others.\<close>

fun about :: "string \<Rightarrow> worker_event \<Rightarrow> bool" where
  "about i (WasRead d) \<longleftrightarrow> TrimSpace (dm_ID d) = i"
| "about i (Wrote d) \<longleftrightarrow> TrimSpace (dm_ID d) = i"
| "about i (Created j n x confirmed) \<longleftrightarrow> TrimSpace j = i"
| "about i (Found j x) \<longleftrightarrow> TrimSpace j = i"
| "about i e \<longleftrightarrow> True"

definition only :: "string \<Rightarrow> worker_state \<Rightarrow> worker_state \<Rightarrow> bool" where
  "only i s s' \<longleftrightarrow> (\<exists>events. ws_trace s' = ws_trace s @ events \<and> list_all (about i) events)"

lemma only_refl [intro, simp]: "only i s s"
  by (simp add: only_def)

lemma only_trans [trans]: "only i s s1 \<Longrightarrow> only i s1 s2 \<Longrightarrow> only i s s2"
  by (auto simp: only_def)

lemma only_interfere [simp]: "only i s (interfere env s') = only i s s'" "only i (interfere env s') s = only i s' s"
  by (simp_all add: only_def)

lemma only_db [simp]: "only i s (s' \<lparr> ws_db := db \<rparr>) = only i s s'"
  by (simp add: only_def)

lemma only_log: "about i e \<Longrightarrow> only i s s' \<Longrightarrow> only i s (log_event e s')"
  by (auto simp: only_def log_event_def)

lemma ws_trace_emit [simp]: "ws_trace (emit env d e s) = ws_trace s"
  by (simp add: emit_def Let_def split: sum.split)

lemma only_emit [simp]: "only i s (emit env d e s') = only i s s'" "only i (emit env d e s') s = only i s' s"
  by (simp_all add: only_def)

lemma watch_others:
  assumes "only i s s'" "j \<noteq> i" "watch j (ws_trace s) = Some c"
  shows "watch j (ws_trace s') \<in> {Some c, Some []}"
proof -
  obtain events where events: "ws_trace s' = ws_trace s @ events" "list_all (about i) events" using assms(1) by (auto simp: only_def)
  have step: "watch_step j e x \<in> {Some c, Some []}" if "about i e" "x \<in> {Some c, Some []}" for e x
    using that assms(2) by (cases e) auto
  have "fold (watch_step j) events x \<in> {Some c, Some []}" if "x \<in> {Some c, Some []}" for x
    using events(2) that
  proof (induction events arbitrary: x)
    case (Cons e events)
    then show ?case using step [of e x] by simp
  qed simp
  then show ?thesis using assms(3) by (simp add: watch_def events(1))
qed

lemma holds_others:
  assumes "only i s s'" "TrimSpace (dm_ID d) \<noteq> i" "holds d s"
  shows "holds d s'"
  using assms(3) watch_others [OF assms(1,2)] by (auto simp: holds_def)

lemma persist_only: "persist env d s = (s', d', e) \<Longrightarrow> only (TrimSpace (dm_ID d)) s s' \<and> dm_ID d' = dm_ID d"
  by (auto simp: persist_def Let_def intro!: only_log split: sum.splits)

lemma transition_only: "transition env d st stage reason s = (s', d', e) \<Longrightarrow> only (TrimSpace (dm_ID d)) s s' \<and> dm_ID d' = dm_ID d"
  by (auto simp: transition_def split: prod.splits option.splits dest: persist_only)

lemma fail_only: "fail env d stage reason s = (s', d', e) \<Longrightarrow> only (TrimSpace (dm_ID d)) s s' \<and> dm_ID d' = dm_ID d"
  by (auto simp: fail_def split: prod.splits option.splits dest: persist_only)

lemma ends_only:
  "ends r = (s', e) \<Longrightarrow> \<exists>d. r = (s', d, e)"
  by (cases r) (auto simp: ends_def)

lemma close_only: "close env rt s = (s', e) \<Longrightarrow> only i s s'"
  by (auto simp: close_def Let_def intro!: only_log split: option.splits)

lemma closeAttempt_only: "closeAttempt env rt s = (s', e) \<Longrightarrow> only i s s'"
  by (auto simp: closeAttempt_def intro: close_only split: option.splits)

lemma connect_only: "connect env d s = (s', r) \<Longrightarrow> only i s s'"
  by (auto simp: connect_def Let_def intro!: only_log split: sum.splits option.splits)

lemma get_deployment_only: "get_deployment env i s = (s', r) \<Longrightarrow> only (TrimSpace i) s s' \<and> (\<forall>d. r = Inr d \<longrightarrow> dm_ID d = TrimSpace i)"
  by (auto simp: get_deployment_def Let_def GetDeployment_def deploymentFromRecord_def dest!: lookup_by_in intro!: only_log split: sum.splits option.splits)

lemmas step_only = persist_only transition_only fail_only close_only closeAttempt_only connect_only get_deployment_only

lemma failCleanup_only: "failCleanup env b d x s = (s', e) \<Longrightarrow> only (TrimSpace (dm_ID d)) s s'"
  by (auto simp: failCleanup_def split: prod.splits option.splits if_splits dest: fail_only)

lemma close_runtime_only: "close_runtime env b d rt s = (s', e) \<Longrightarrow> only (TrimSpace (dm_ID d)) s s'"
  by (auto simp: close_runtime_def split: prod.splits option.splits dest: close_only [of _ _ _ _ _ "TrimSpace (dm_ID d)"] failCleanup_only intro: only_trans)

lemma stop_runtime_only: "stop_runtime env b d s = (s', e) \<Longrightarrow> only (TrimSpace (dm_ID d)) s s'"
  by (auto simp: stop_runtime_def Let_def split: prod.splits option.splits sum.splits if_splits
      dest!: connect_only [of _ _ _ _ _ "TrimSpace (dm_ID d)"] failCleanup_only close_runtime_only intro: only_trans)

lemma only_after_log: "only i (log_event e s) s' \<Longrightarrow> about i e \<Longrightarrow> only i s s'"
  by (auto simp: only_def log_event_def)

lemma only_after_Found: "only (TrimSpace j) (log_event (Found j x) s) s' \<Longrightarrow> only (TrimSpace j) s s'"
  by (erule only_after_log) simp

lemma stop_lookup_only: "stop_lookup env d s = (s', r) \<Longrightarrow> only (TrimSpace (dm_ID d)) s s' \<and> (\<forall>d1. r = Inr d1 \<longrightarrow> dm_ID d1 = dm_ID d)"
  by (auto simp: stop_lookup_def Let_def intro!: only_log split: prod.splits option.splits if_splits dest!: persist_only only_after_Found)


lemma stop_only: "stop env i expired ob s = (s', e) \<Longrightarrow> only (TrimSpace i) s s'"
proof -
  assume step: "stop env i expired ob s = (s', e)"
  obtain s1 r where get: "get_deployment env i s = (s1, r)" by force
  note g1 = get_deployment_only [OF get]
  show ?thesis
  proof (cases r)
    case (Inl x)
    then show ?thesis using step g1 by (simp add: stop_def get)
  next
    case (Inr d)
    then have d: "TrimSpace (dm_ID d) = TrimSpace i" using g1 by simp
    obtain s2 q where look: "stop_lookup env d s1 = (s2, q)" by force
    note g2 = stop_lookup_only [OF look, unfolded d]
    have rest: "only (TrimSpace i) s2 s'" if "q = Inr d1" and
      "(case transition env d1 DeploymentStatusStopping ''cleanup'' [] s2 of
          (s3, _, Some e) \<Rightarrow> (s3, Some e)
        | (s3, d2, None) \<Rightarrow>
            (case stop_runtime env x d2 s3 of
               (s4, Some e) \<Rightarrow> (s4, Some e)
             | (s4, None) \<Rightarrow> ends (persist env (stopped_state a x c d2) s4))) = (s', e)" for d1 a x c
      using that g2 d by (auto split: prod.splits option.splits dest!: transition_only stop_runtime_only persist_only ends_only) (meson only_trans)+
    show ?thesis
      using step Inr g1 g2 rest by (auto simp: stop_def get look Let_def split: if_splits sum.splits option.splits) (meson only_trans)+
  qed
qed

lemma fail_then_stop_only:
  "(case fail env d stage reason s of (s1, x, Some e) \<Rightarrow> (s1, Some e) | (s1, d1, None) \<Rightarrow> Stop env (dm_ID d1) (b s1 d1) s1) = (s', e)
    \<Longrightarrow> only (TrimSpace (dm_ID d)) s s'"
  by (auto simp: Stop_def split: prod.splits option.splits dest!: fail_only stop_only) (meson only_trans)+

lemma recoverCreating_only: "recoverCreating env d s = (s', e) \<Longrightarrow> only (TrimSpace (dm_ID d)) s s'"
  by (auto simp: recoverCreating_def Let_def Stop_def split: prod.splits option.splits if_splits dest!: persist_only only_after_Found ends_only fail_only stop_only
      intro!: only_log) (meson only_trans)+

lemma check_answer_only: "check_answer env d alive s = (s', e) \<Longrightarrow> only (TrimSpace (dm_ID d)) s s'"
  by (auto simp: check_answer_def split: if_splits dest: stop_only fail_then_stop_only)

lemma checkRunning_only: "checkRunning env d s = (s', e) \<Longrightarrow> only (TrimSpace (dm_ID d)) s s'"
  by (auto simp: checkRunning_def Let_def split: prod.splits sum.splits option.splits if_splits
      dest!: connect_only [of _ _ _ _ _ "TrimSpace (dm_ID d)"] check_answer_only) (meson only_trans)+

lemma apply_callback_only: "apply_callback env a (s, d) = (s', d') \<Longrightarrow> only (TrimSpace (dm_ID d)) s s' \<and> dm_ID d' = dm_ID d"
  by (cases a) (auto simp: Let_def split: prod.splits if_splits dest!: transition_only persist_only)

lemma apply_callbacks_only:
  "fold (apply_callback env) actions (s, d) = (s', d') \<Longrightarrow> only (TrimSpace (dm_ID d)) s s' \<and> dm_ID d' = dm_ID d"
proof (induction actions arbitrary: s d)
  case (Cons a actions)
  obtain s1 d1 where step: "apply_callback env a (s, d) = (s1, d1)" by force
  show ?case using Cons.IH [of s1 d1] Cons.prems apply_callback_only [OF step] step by (auto intro: only_trans)
qed simp

lemma create_failed_only: "create_failed env d rt x err s = (s', e) \<Longrightarrow> only (TrimSpace (dm_ID d)) s s'"
  by (auto simp: create_failed_def split: prod.splits option.splits if_splits
      dest!: persist_only closeAttempt_only [of _ _ _ _ _ "TrimSpace (dm_ID d)"] fail_only ends_only) (meson only_trans)+

lemma apply_failed_only: "apply_failed env d rt err s = (s', e) \<Longrightarrow> only (TrimSpace (dm_ID d)) s s'"
  by (auto simp: apply_failed_def Let_def clear_attempt_def split: prod.splits option.splits if_splits
      dest!: closeAttempt_only [of _ _ _ _ _ "TrimSpace (dm_ID d)"] transition_only fail_only ends_only) (meson only_trans)+

lemma execute_only: "execute env d rt x s = (s', e) \<Longrightarrow> only (TrimSpace (dm_ID d)) s s'"
proof -
  assume step: "execute env d rt x s = (s', e)"
  define d1 where "d1 = d \<lparr> dm_SandboxID := TrimSpace x, dm_RuntimeID := rh_ID rt,
    dm_ExpiresAt := (if IsZero (we_ActualExpiresAt env (ws_step s) rt) then dm_ExpiresAt d else we_ActualExpiresAt env (ws_step s) rt) \<rparr>"
  obtain s1 d2 e1 where p: "persist env d1 s = (s1, d2, e1)" by (metis prod_cases3)
  have g: "only (TrimSpace (dm_ID d)) s s1" "dm_ID d2 = dm_ID d" using persist_only [OF p] by (simp_all add: d1_def)
  have closed: "only i t (fst (closeAttempt env (Some rt) t))" for i t
    using closeAttempt_only [of env "Some rt" t] by (cases "closeAttempt env (Some rt) t") auto
  obtain actions result where run: "we_Apply env (ws_step s1) d2 = (actions, result)" by force
  obtain s2 d3 where calls: "fold (apply_callback env) actions (s1, d2) = (s2, d3)" by force
  have w: "only (TrimSpace (dm_ID d)) s s2" "dm_ID d3 = dm_ID d"
    using apply_callbacks_only [OF calls] g only_trans by auto
  show ?thesis
  proof (cases e1)
    case None
    show ?thesis
    proof (cases result)
      case (Inl err)
      then show ?thesis
        using step w apply_failed_only [of env d3 rt err s2 s' e] only_trans by (auto simp: execute_def Let_def d1_def [symmetric] p None run calls)
    next
      case (Inr r)
      obtain s3 d4 e4 where t: "transition env (d3 \<lparr> dm_Endpoint := ar_Endpoint r, dm_ProcessID := ar_ProcessID r, dm_ProcessTag := ar_ProcessTag r,
          dm_RuntimeID := ar_RuntimeID r \<rparr>) DeploymentStatusRunning ''ready'' [] s2 = (s3, d4, e4)" by (metis prod_cases3)
      have "only (TrimSpace (dm_ID d)) s s3" using transition_only [OF t] w only_trans by auto
      then show ?thesis
        using step Inr only_trans [OF _ closed] by (cases e4) (auto simp: execute_def Let_def d1_def [symmetric] p None run calls t)
    qed
  qed (use step g only_trans [OF _ closed] in \<open>auto simp: execute_def Let_def d1_def [symmetric] p\<close>)
qed

lemma prepare_only: "prepare env d s = (s', r) \<Longrightarrow> only (TrimSpace (dm_ID d)) s s' \<and> (\<forall>d1. r = Inr d1 \<longrightarrow> dm_ID d1 = dm_ID d)"
  by (auto simp: prepare_def Let_def split: prod.splits option.splits if_splits dest!: transition_only fail_only ends_only) (meson only_trans)+

lemma create_sandbox_only: "create_sandbox env d s = (s', e) \<Longrightarrow> only (TrimSpace (dm_ID d)) s s'"
proof -
  assume step: "create_sandbox env d s = (s', e)"
  obtain rt x err where answer: "factory_Create env (ws_step (interfere env s)) d (dm_Attempt d) = (rt, x, err)" by (metis prod_cases3)
  define confirmed where "confirmed = (err \<noteq> None \<or> (case rt of None \<Rightarrow> False | Some h \<Rightarrow> TrimSpace (rh_ID h) \<noteq> []))"
  define s1 where "s1 = log_event (Created (dm_ID d) (dm_Attempt d) (TrimSpace x) confirmed) (interfere env s)"
  have s1: "only (TrimSpace (dm_ID d)) s s1" by (simp add: s1_def only_log)
  have failed: "only (TrimSpace (dm_ID d)) s s'" if "ends (fail env d a b t) = (s', e)" "only (TrimSpace (dm_ID d)) s t" for a b t
    using ends_only [OF that(1)] fail_only that(2) only_trans by blast
  have "only (TrimSpace (dm_ID d)) s (fst (closeAttempt env rt s1))"
    using closeAttempt_only [of env rt s1] only_trans [OF s1] by (cases "closeAttempt env rt s1") auto
  then show ?thesis
    using step [unfolded create_sandbox_def Let_def answer prod.case, folded confirmed_def, folded s1_def]
      s1 failed create_failed_only [of env d rt x _ s1 s' e] execute_only [of env d _ x s1 s' e]
    by (auto split: option.splits if_splits intro: only_trans)
qed

lemma Process_only: "Process env i s = (s', e) \<Longrightarrow> only (TrimSpace i) s s'"
  by (auto simp: Process_def Stop_def split: prod.splits sum.splits if_splits
      dest!: get_deployment_only prepare_only create_sandbox_only stop_only) (meson only_trans)+

lemma advance_only: "advance env item s = (s', e) \<Longrightarrow> only (TrimSpace (dm_ID item)) s s'"
  by (auto simp: advance_def Stop_def split: if_splits
      dest!: recoverCreating_only ends_only transition_only Process_only checkRunning_only stop_only)


subsection \<open>A batch\<close>

lemma advance_all_good:
  assumes env: "rely env"
  shows "good s \<Longrightarrow> \<forall>d\<in>set items. holds d s \<and> clean d \<Longrightarrow> distinct (map (TrimSpace \<circ> dm_ID) items) \<Longrightarrow> good (fst (advance_all env items s))"
proof (induction items arbitrary: s)
  case (Cons item items)
  obtain s1 e where step: "advance env item s = (s1, e)" by force
  have "good s1" using advance_good [OF env Cons.prems(1), of item] Cons.prems(2) step by simp
  moreover have "holds d s1" if "d \<in> set items" for d
    using holds_others [OF advance_only [OF step], of d] that Cons.prems(2,3) by (auto simp: image_iff)
  ultimately have "good (fst (advance_all env items s1))" using Cons.IH Cons.prems(2,3) by simp
  then show ?case by (auto simp: step split: prod.splits)
qed simp

lemma prune_fold_subset: "set (dp_deployments (fst (fold (prune_one before) rows acc))) \<subseteq> set (dp_deployments (fst acc))"
proof (induction rows arbitrary: acc)
  case (Cons x rows)
  have "set (dp_deployments (fst (prune_one before x acc))) \<subseteq> set (dp_deployments (fst acc))"
    by (auto simp: prune_one_def Let_def delete_where_def split: prod.split)
  then show ?case using Cons.IH [of "prune_one before x acc"] by auto
qed simp

lemma PruneDeployments_worker_rows_ok:
  assumes "worker_rows_ok db" "worker_rows_ok (other db)"
  shows "worker_rows_ok (fst (PruneDeployments other before limit db))"
  using assms PruneDeployments_ok [of db other before limit] prune_fold_subset [of before "prune_candidates before limit db" "(other db, 0)"]
  by (auto simp: worker_rows_ok_def PruneDeployments_def list_all_iff split: prod.splits)

lemma prune_first_good:
  assumes env: "rely env" and s: "good s"
  shows "good (fst (prune_first env s))"
proof -
  let ?s = "interfere env s"
  have i: "good ?s" using env s by blast
  then have "worker_rows_ok (fst (PruneDeployments (we_other env (ws_step ?s)) (clock env ?s - we_Retention env) 100 (ws_db ?s)))"
    using env by (auto simp: good_def rely_def intro!: PruneDeployments_worker_rows_ok)
  then show ?thesis
    using i s by (cases "PruneDeployments (we_other env (ws_step ?s)) (clock env ?s - we_Retention env) 100 (ws_db ?s)")
      (auto simp: prune_first_def Let_def good_def split: sum.split)
qed

lemma ListActiveDeployments_Inr:
  assumes "ListActiveDeployments now db = Inr items" "worker_rows_ok db"
  shows "\<forall>d\<in>set items. clean d" "distinct (map (TrimSpace \<circ> dm_ID) items)"
proof -
  obtain P k where items: "items = map deploymentFromRecord (take k (sort_key dr_ID (filter P (dp_deployments db))))"
    using assms(1) by (auto simp: ListActiveDeployments_def ListDeploymentWork_def Let_def split: if_splits sum.splits) (metis take_all order_refl)+
  let ?rows = "take k (sort_key dr_ID (filter P (dp_deployments db)))"
  have rows: "r \<in> set (dp_deployments db)" "row_ok r" if "r \<in> set ?rows" for r
  proof -
    show r: "r \<in> set (dp_deployments db)" using in_set_takeD [OF that] by simp
    show "row_ok r" using assms(2) r by (simp add: worker_rows_ok_def list_all_iff)
  qed
  have read: "clean (deploymentFromRecord r)" "TrimSpace (dm_ID (deploymentFromRecord r)) = dr_ID r" if "row_ok r" for r
    using that by (simp_all add: row_ok_def clean_def deploymentFromRecord_def)
  show "\<forall>d\<in>set items. clean d" using rows(2) read(1) by (simp add: items)
  have "keys_unique dr_ID (dp_deployments db)" using assms(2) deployments_okD(1) by (simp add: worker_rows_ok_def)
  then have "distinct (map dr_ID (sort_key dr_ID (filter P (dp_deployments db))))"
    by (simp add: keys_unique_def distinct_map inj_on_def)
  then have "distinct (map dr_ID ?rows)" by (metis distinct_take take_map)
  moreover have "map (TrimSpace \<circ> dm_ID) items = map dr_ID ?rows"
    using rows(2) read(2) by (simp add: items)
  ultimately show "distinct (map (TrimSpace \<circ> dm_ID) items)" by simp
qed

lemma read_all_good:
  assumes "good s" "distinct (map (TrimSpace \<circ> dm_ID) items)"
  shows "good (s \<lparr> ws_trace := ws_trace s @ map WasRead items \<rparr>) \<and> (\<forall>d\<in>set items. holds d (s \<lparr> ws_trace := ws_trace s @ map WasRead items \<rparr>))"
  using assms
proof (induction items rule: rev_induct)
  case (snoc item items)
  let ?s = "s \<lparr> ws_trace := ws_trace s @ map WasRead items \<rparr>"
  have s: "s \<lparr> ws_trace := ws_trace s @ map WasRead (items @ [item]) \<rparr> = log_event (WasRead item) ?s" by (simp add: log_event_def)
  have i: "good ?s" "\<forall>d\<in>set items. holds d ?s" using snoc by auto
  have "holds d (log_event (WasRead item) ?s)" if "d \<in> set items" for d
    using holds_others [of "TrimSpace (dm_ID item)" ?s "log_event (WasRead item) ?s" d] that i(2) snoc.prems(2)
    by (auto simp: only_log image_iff)
  then show ?case using i holds_read [OF i(1)] good_log_simple(3) [OF i(1)] unfolding s by auto
qed simp

lemma RunOnce_good:
  assumes env: "rely env" and s: "good s"
  shows "good (fst (RunOnce env s))"
proof -
  obtain s1 e where p: "prune_first env s = (s1, e)" by force
  have i: "good (interfere env s1)" using prune_first_good [OF env s] p good_interfere [OF env] by simp
  show ?thesis
  proof (cases "ListActiveDeployments (clock env (interfere env s1)) (ws_db (interfere env s1))")
    case (Inr items)
    note items = ListActiveDeployments_Inr [OF Inr]
    have "worker_rows_ok (ws_db (interfere env s1))" using i by (simp add: good_def)
    then have "good (fst (advance_all env items (interfere env s1 \<lparr> ws_trace := ws_trace (interfere env s1) @ map WasRead items \<rparr>)))"
      using advance_all_good [OF env] read_all_good [OF i] items by blast
    then show ?thesis using prune_first_good [OF env s] by (cases e) (simp_all add: RunOnce_def p Let_def Inr)
  qed (use i prune_first_good [OF env s] in \<open>cases e; simp add: RunOnce_def p Let_def\<close>)
qed

subsection \<open>The others\<close>

text \<open>What the rest of the program does to the tables meets the rely condition: a creation of a deployment that has no sandbox,
  a retry, the fill of a title and another worker's update of a clean deployment.\<close>

lemma FillDeploymentPullRequestTitle_worker_rows_ok:
  "worker_rows_ok db \<Longrightarrow> FillDeploymentPullRequestTitle i ref title db = Inr db' \<Longrightarrow> worker_rows_ok db'"
  using FillDeploymentPullRequestTitle_ok [of db i ref title db']
  by (auto simp: worker_rows_ok_def row_ok_def list_all_iff FillDeploymentPullRequestTitle_def Let_def set_update_where split: if_splits)

lemma retryDeployment_worker_rows_ok:
  assumes "worker_rows_ok db" "retryDeployment now d t db = Inr db'"
  shows "worker_rows_ok db'"
proof -
  have ok: "deployments_ok db" using assms(1) by (simp add: worker_rows_ok_def)
  obtain t1 where rows: "dp_deployments db' = update_where (retry_target d) (retry_deployment_columns now d t1) (dp_deployments db)"
    by (rule retryDeployment_Inr [OF ok assms(2)]) (rule that, simp)
  then show ?thesis
    using assms(1) retryDeployment_ok [OF ok assms(2)] by (auto simp: worker_rows_ok_def row_ok_def list_all_iff set_update_where)
qed

lemma created_row_SandboxID [simp]:
  "dr_SandboxID (applyDeploymentTimestamps r now) = dr_SandboxID r" "dr_SandboxID (deployment_row d) = dm_SandboxID d"
  "dm_SandboxID (fill_defaults now d) = dm_SandboxID d"
  by (simp_all add: applyDeploymentTimestamps_def deployment_row_def fill_defaults_def Let_def)

lemma createDeployment_worker_rows_ok:
  assumes "worker_rows_ok db" "createDeployment now d db = Inr (db', d')" "TrimSpace (dm_SandboxID d) = []"
  shows "worker_rows_ok db'"
proof -
  obtain d1 where d1: "normalizeDeployment (d \<lparr> dm_RevisionNumber := 1 \<rparr>) = Inr d1"
    using assms(2) by (auto simp: createDeployment_def split: sum.splits)
  let ?row = "applyDeploymentTimestamps (deployment_row (fill_defaults now d1)) now"
  have "dm_ID d1 \<noteq> []" using d1 normalizeDeployment_Inr(1) [OF d1] by (auto simp: normalizeDeployment_def Let_def split: if_splits)
  then have "row_ok ?row" using normalizeDeployment_Inr(1,7) [OF d1] assms(3) by (simp add: row_ok_def)
  moreover have "dp_deployments db' = dp_deployments db @ [?row]"
    using assms(2) by (auto simp: createDeployment_def d1 Let_def split: if_splits)
  ultimately show ?thesis using assms(1) createDeployment_ok [OF _ assms(2)] by (simp add: worker_rows_ok_def)
qed

subsection \<open>The worker keeps what it knows\<close>

text \<open>What the monitor means: every write of a deployment carries the sandbox that is known for it, or none is known any more.\<close>

lemma never_forgets_step:
  assumes "never_forgets (es @ [e])"
  shows "e = Wrote d \<Longrightarrow> watch (TrimSpace (dm_ID d)) es \<in> {Some [], Some (TrimSpace (dm_SandboxID d))}"
    "e = Created i n x confirmed \<Longrightarrow> watch (TrimSpace i) es = Some []"
proof -
  have some: "watch j es \<noteq> None \<and> watch_step j e (watch j es) \<noteq> None" for j
  proof -
    have "watch j (es @ [e]) \<noteq> None" using assms unfolding never_forgets_def by blast
    then show ?thesis by (cases "watch j es") simp_all
  qed
  show "e = Wrote d \<Longrightarrow> watch (TrimSpace (dm_ID d)) es \<in> {Some [], Some (TrimSpace (dm_SandboxID d))}"
    using some [of "TrimSpace (dm_ID d)"] by (auto split: if_splits)
  show "e = Created i n x confirmed \<Longrightarrow> watch (TrimSpace i) es = Some []"
    using some [of "TrimSpace i"] by (auto split: if_splits)
qed

lemma watch_None: "fold (watch_step i) es None = None"
  by (induction es) simp_all

lemma never_forgets_prefix: "never_forgets (es @ es') \<Longrightarrow> never_forgets es"
  unfolding never_forgets_def watch_def fold_append comp_apply by (metis watch_None)

lemma never_forgetsD:
  "never_forgets (before @ Wrote d # after) \<Longrightarrow> watch (TrimSpace (dm_ID d)) before \<in> {Some [], Some (TrimSpace (dm_SandboxID d))}"
  "never_forgets (before @ Created i n x confirmed # after) \<Longrightarrow> watch (TrimSpace i) before = Some []"
  using never_forgets_prefix [of "before @ [Wrote d]" after] never_forgets_step(1) [of before "Wrote d" d]
    never_forgets_prefix [of "before @ [Created i n x confirmed]" after] never_forgets_step(2) [of before "Created i n x confirmed" i n x confirmed]
  by simp_all

text \<open>C4: a batch of the deployment worker never forgets a sandbox. The worker knows the sandbox of a deployment from the answer of the
  provider that created it, or that found it for an interrupted attempt, and from the row it last read or wrote. Whenever it
  writes the deployment, the write carries the sandbox it knows, unless the provider has said that this sandbox is gone; and
  it asks for a new sandbox only when it knows none. One answer is not covered, as the code drops it: a creation that succeeds with a
  sandbox but without an identified runtime (\<open>Created\<close> with \<open>False\<close>), which the runtimes of the program never give, since both
  ids are the one of the sandbox. The hypotheses: a connection is bound to the sandbox that was asked for, as the interface of the
  runtimes demands, and the other users of the tables keep them consistent, with no sandbox on a deployment that waits. Nothing is
  assumed of the other answers of the provider, of the plan's execution or of lost races.\<close>

theorem RunOnce_never_forgets_sandbox:
  assumes "\<forall>n db. worker_rows_ok db \<longrightarrow> worker_rows_ok (we_other env n db)"
    and "\<forall>n x t h. we_ConnectDeploymentRuntime env n x t = Inr h \<longrightarrow> TrimSpace (rh_SandboxID h) = TrimSpace x"
    and "worker_rows_ok (ws_db s)" "ws_trace s = []"
  shows "(\<forall>before d after. ws_trace (fst (RunOnce env s)) = before @ Wrote d # after \<longrightarrow>
      watch (TrimSpace (dm_ID d)) before \<in> {Some [], Some (TrimSpace (dm_SandboxID d))})
    \<and> (\<forall>before i n x confirmed after. ws_trace (fst (RunOnce env s)) = before @ Created i n x confirmed # after \<longrightarrow>
      watch (TrimSpace i) before = Some [])"
proof -
  have "good s" using assms(3,4) by (simp add: good_def never_forgets_def watch_def)
  moreover have "rely env" using assms(1,2) unfolding rely_def by blast
  ultimately have "never_forgets (ws_trace (fst (RunOnce env s)))" using RunOnce_good by (simp add: good_def)
  then show ?thesis using never_forgetsD by metis
qed

definition sample_worker_env :: worker_env where
  "sample_worker_env = \<lparr>
     we_now = (\<lambda>n. 100), we_other = (\<lambda>n db. db), we_service = (\<lambda>n d. Inr ''account''), we_publicTemplate = (\<lambda>n t. Inr True),
     we_ValidateTemplate = (\<lambda>n t. None), we_CreateDeploymentRuntime = (\<lambda>n t timeout key. Inr \<lparr> rh_ID = ''rt-1'', rh_SandboxID = ''sb-1'' \<rparr>),
     we_ConnectDeploymentRuntime = (\<lambda>n x t. Inr \<lparr> rh_ID = ''rt-1'', rh_SandboxID = x \<rparr>), we_ReconcileDeploymentRuntime = (\<lambda>n t key timeout. (None, None)),
     we_Close = (\<lambda>n h. None), we_Stop = (\<lambda>n h p. None), we_Inspect = (\<lambda>n h p. Inr True), we_ActualExpiresAt = (\<lambda>n h. zero_time),
     we_DecodeSpec = (\<lambda>n d. True), we_Source = (\<lambda>n d. True), we_Restore = (\<lambda>n d. True),
     we_Apply = (\<lambda>n d. ([OnStage Cloning], Inl (Some Cloning))), we_stage = (\<lambda>stage. ''cloning''), we_TemplateID = ''template'', we_Retention = 0 \<rparr>"

definition sample_worker_state :: worker_state where
  "sample_worker_state = \<lparr> ws_db = sample_db, ws_step = 0, ws_trace = [] \<rparr>"


lemma sample_row_ok: "row_ok sample_deployment_row"
proof -
  have "dr_SandboxID sample_deployment_row = []" by (simp add: sample_deployment_row_def) (simp add: sample_deployment_def)
  moreover have "TrimSpace ''d1'' = ''d1''" by code_simp
  ultimately show ?thesis by (simp add: row_ok_def sample_deployment_row_simps)
qed

theorem RunOnce_never_forgets_sandbox_witness:
  "let trace = ws_trace (fst (RunOnce sample_worker_env sample_worker_state))
   in list_all (\<lambda>k. case trace ! k of Wrote d \<Rightarrow> watch (TrimSpace (dm_ID d)) (take k trace) \<in> {Some [], Some (TrimSpace (dm_SandboxID d))} | _ \<Rightarrow> True)
        [0..<length trace]"
proof -
  let ?trace = "ws_trace (fst (RunOnce sample_worker_env sample_worker_state))"
  have "\<forall>before d after. ?trace = before @ Wrote d # after \<longrightarrow> watch (TrimSpace (dm_ID d)) before \<in> {Some [], Some (TrimSpace (dm_SandboxID d))}"
  proof (rule conjunct1 [OF RunOnce_never_forgets_sandbox])
    show "worker_rows_ok (ws_db sample_worker_state)"
      using sample_db_ok sample_row_ok by (simp add: worker_rows_ok_def sample_worker_state_def sample_db_def)
  qed (simp_all add: sample_worker_env_def sample_worker_state_def)
  then have "watch (TrimSpace (dm_ID d)) (take k ?trace) \<in> {Some [], Some (TrimSpace (dm_SandboxID d))}" if "k < length ?trace" "?trace ! k = Wrote d" for k d
    using id_take_nth_drop [OF that(1)] that(2) by metis
  then show ?thesis unfolding Let_def by (simp add: list_all_iff split: worker_event.split)
qed

end
