(* ===== verification/Scheduler.thy ===== *)
theory Scheduler
  imports WorkerBatch
begin

text \<open>
  The scheduler of \<^verbatim>\<open>internal/deployment/worker/scheduler.go\<close>: three lanes of bounded capacity, each of which walks the work of its kind.

  A job is a goroutine that advances one deployment; it is listed in \<open>sc_jobs\<close> from its start until the scheduler receives its completion.
  What the jobs, and everybody else, do to the tables in the meantime is \<open>we_other\<close>. A step of the scheduler is one round of its
  \<open>select\<close>; the end of the context, which ends the loop and cancels the jobs, is not modelled.
\<close>

subsection \<open>State\<close>

record lane =
  ln_kind :: string
  ln_capacity :: int
  ln_active :: int
  ln_afterID :: string
  ln_exhausted :: bool

record scheduler =
  sc_lanes :: "lane list"
  sc_inFlight :: "string list"
  sc_jobs :: "(string \<times> nat) list"
  sc_worker :: worker_state
  sc_reports :: "worker_error list"

definition new_lane :: "string \<Rightarrow> int \<Rightarrow> lane" where
  "new_lane kind capacity = \<lparr> ln_kind = kind, ln_capacity = capacity, ln_active = 0, ln_afterID = [], ln_exhausted = False \<rparr>"

definition initial_lanes :: "lane list" where
  "initial_lanes = [new_lane ''provision'' 4, new_lane ''monitor'' 8, new_lane ''cleanup'' 4]"

definition initial_scheduler :: "worker_state \<Rightarrow> scheduler" where
  "initial_scheduler ws = \<lparr> sc_lanes = initial_lanes, sc_inFlight = [], sc_jobs = [], sc_worker = ws, sc_reports = [] \<rparr>"

definition set_lane :: "nat \<Rightarrow> (lane \<Rightarrow> lane) \<Rightarrow> scheduler \<Rightarrow> scheduler" where
  "set_lane l f sc = sc \<lparr> sc_lanes := (sc_lanes sc)[l := f (sc_lanes sc ! l)] \<rparr>"

definition reportError :: "worker_error option \<Rightarrow> scheduler \<Rightarrow> scheduler" where
  "reportError err sc = (case err of None \<Rightarrow> sc | Some e \<Rightarrow> sc \<lparr> sc_reports := sc_reports sc @ [e] \<rparr>)"

subsection \<open>Filling a lane\<close>

text \<open>The items of a page: the answer says whether all of them were consumed.\<close>

fun start_items :: "nat \<Rightarrow> Deployment list \<Rightarrow> scheduler \<Rightarrow> scheduler \<times> bool" where
  "start_items l [] sc = (sc, True)"
| "start_items l (item # items) sc =
     (if ln_active (sc_lanes sc ! l) = ln_capacity (sc_lanes sc ! l) then (sc, False)
      else
        let sc1 = set_lane l (\<lambda>x. x \<lparr> ln_afterID := dm_ID item \<rparr>) sc
        in if dm_ID item \<in> set (sc_inFlight sc1) then start_items l items sc1
           else start_items l items ((set_lane l (\<lambda>x. x \<lparr> ln_active := ln_active x + 1 \<rparr>) sc1)
             \<lparr> sc_inFlight := sc_inFlight sc1 @ [dm_ID item], sc_jobs := sc_jobs sc1 @ [(dm_ID item, l)] \<rparr>))"

definition schedule_page :: "worker_env \<Rightarrow> nat \<Rightarrow> scheduler \<Rightarrow> scheduler \<times> bool" where
  "schedule_page env l sc =
     (let x = sc_lanes sc ! l;
          limit = ln_capacity x - ln_active x + int (length (sc_inFlight sc));
          ws = interfere env (sc_worker sc);
          sc1 = sc \<lparr> sc_worker := ws \<rparr>
      in case ListDeploymentWork (ln_kind x) (ln_afterID x) limit (clock env ws) (ws_db ws) of
           Inl e \<Rightarrow> (reportError (Some (StoreError e)) sc1, False)
         | Inr (items, more_left) \<Rightarrow>
             (case start_items l items (sc1 \<lparr> sc_worker := ws \<lparr> ws_trace := ws_trace ws @ map WasRead items \<rparr> \<rparr>) of (sc2, consumed) \<Rightarrow>
                (if \<not> more_left \<and> consumed then set_lane l (\<lambda>x. x \<lparr> ln_exhausted := True, ln_afterID := [] \<rparr>) sc2 else sc2, True)))"

text \<open>The loop, with \<open>None\<close> for a call that does not return.\<close>

partial_function (option) schedule :: "worker_env \<Rightarrow> nat \<Rightarrow> scheduler \<Rightarrow> scheduler option" where
  "schedule env l sc =
     (if \<not> ln_exhausted (sc_lanes sc ! l) \<and> ln_active (sc_lanes sc ! l) < ln_capacity (sc_lanes sc ! l)
      then (case schedule_page env l sc of (sc1, goes_on) \<Rightarrow> if goes_on then schedule env l sc1 else Some sc1)
      else Some sc)"

subsection \<open>The select\<close>

definition reopen :: "nat \<Rightarrow> scheduler \<Rightarrow> scheduler" where
  "reopen l sc = set_lane l (\<lambda>x. x \<lparr> ln_exhausted := False \<rparr>) sc"

fun tick_lanes :: "worker_env \<Rightarrow> nat list \<Rightarrow> scheduler \<Rightarrow> scheduler option" where
  "tick_lanes env [] sc = Some sc"
| "tick_lanes env (l # ls) sc = (case schedule env l (reopen l sc) of None \<Rightarrow> None | Some sc1 \<Rightarrow> tick_lanes env ls sc1)"

fun fill_lanes :: "worker_env \<Rightarrow> nat list \<Rightarrow> scheduler \<Rightarrow> scheduler option" where
  "fill_lanes env [] sc = Some sc"
| "fill_lanes env (l # ls) sc = (case schedule env l sc of None \<Rightarrow> None | Some sc1 \<Rightarrow> fill_lanes env ls sc1)"

definition tick :: "worker_env \<Rightarrow> scheduler \<Rightarrow> scheduler option" where
  "tick env sc = (case prune_first env (sc_worker sc) of (ws, err) \<Rightarrow> tick_lanes env [0, 1, 2] (reportError err (sc \<lparr> sc_worker := ws \<rparr>)))"

definition notified :: "worker_env \<Rightarrow> scheduler \<Rightarrow> scheduler option" where
  "notified env sc = fill_lanes env [0, 1, 2] (reopen 0 sc)"

definition job_completed :: "worker_env \<Rightarrow> string \<times> nat \<Rightarrow> worker_error option \<Rightarrow> scheduler \<Rightarrow> scheduler option" where
  "job_completed env job err sc =
     (case job of (i, l) \<Rightarrow>
        schedule env l (reportError err (set_lane l (\<lambda>x. x \<lparr> ln_active := ln_active x - 1 \<rparr>)
          (sc \<lparr> sc_inFlight := filter (\<lambda>j. j \<noteq> i) (sc_inFlight sc), sc_jobs := remove1 job (sc_jobs sc) \<rparr>))))"

inductive scheduler_step :: "worker_env \<Rightarrow> scheduler \<Rightarrow> scheduler \<Rightarrow> bool" for env where
  on_tick: "tick env sc = Some sc' \<Longrightarrow> scheduler_step env sc sc'"
| on_notify: "notified env sc = Some sc' \<Longrightarrow> scheduler_step env sc sc'"
| on_completed: "job \<in> set (sc_jobs sc) \<Longrightarrow> job_completed env job err sc = Some sc' \<Longrightarrow> scheduler_step env sc sc'"

subsection \<open>Accounting\<close>

definition fixed_lanes :: "scheduler \<Rightarrow> bool" where
  "fixed_lanes sc \<longleftrightarrow> map (\<lambda>x. (ln_kind x, ln_capacity x)) (sc_lanes sc) = map (\<lambda>x. (ln_kind x, ln_capacity x)) initial_lanes"

definition jobs_of :: "nat \<Rightarrow> scheduler \<Rightarrow> (string \<times> nat) list" where
  "jobs_of l sc = filter (\<lambda>j. snd j = l) (sc_jobs sc)"

definition accounted :: "scheduler \<Rightarrow> bool" where
  "accounted sc \<longleftrightarrow> (\<forall>l<3. ln_active (sc_lanes sc ! l) = int (length (jobs_of l sc)) \<and> ln_active (sc_lanes sc ! l) \<le> ln_capacity (sc_lanes sc ! l))
     \<and> sc_inFlight sc = map fst (sc_jobs sc) \<and> distinct (sc_inFlight sc) \<and> (\<forall>j\<in>set (sc_jobs sc). snd j < 3)"

definition scheduler_ok :: "scheduler \<Rightarrow> bool" where
  "scheduler_ok sc \<longleftrightarrow> fixed_lanes sc \<and> accounted sc"

lemma fixed_lanes_length: "fixed_lanes sc \<Longrightarrow> length (sc_lanes sc) = 3"
  by (drule arg_cong [of _ _ length, OF iffD1 [OF fixed_lanes_def]]) (simp add: initial_lanes_def)

lemma set_lane_fields [simp]:
  "sc_inFlight (set_lane l f sc) = sc_inFlight sc" "sc_jobs (set_lane l f sc) = sc_jobs sc" "sc_worker (set_lane l f sc) = sc_worker sc"
  "jobs_of k (set_lane l f sc) = jobs_of k sc" "sc_reports (set_lane l f sc) = sc_reports sc"
  by (simp_all add: set_lane_def jobs_of_def)

lemma set_lane_nth [simp]:
  "l < length (sc_lanes sc) \<Longrightarrow> sc_lanes (set_lane l f sc) ! k = (if k = l then f (sc_lanes sc ! l) else sc_lanes sc ! k)"
  "length (sc_lanes (set_lane l f sc)) = length (sc_lanes sc)"
  by (simp_all add: set_lane_def nth_list_update)

lemma fixed_lanes_set:
  assumes "fixed_lanes sc" "\<And>x. ln_kind (f x) = ln_kind x" "\<And>x. ln_capacity (f x) = ln_capacity x"
  shows "fixed_lanes (set_lane l f sc)"
proof -
  have "map g (xs[l := f (xs ! l)]) = map g xs" if "\<And>x. g (f x) = g x" for g :: "lane \<Rightarrow> string \<times> int" and xs
    using that by (metis list_update_id map_update)
  then show ?thesis using assms by (simp add: fixed_lanes_def set_lane_def)
qed

lemma accounted_set_lane:
  assumes "accounted sc" "l < length (sc_lanes sc)" "ln_active (f (sc_lanes sc ! l)) = ln_active (sc_lanes sc ! l)"
    "ln_capacity (f (sc_lanes sc ! l)) = ln_capacity (sc_lanes sc ! l)"
  shows "accounted (set_lane l f sc)"
  using assms by (auto simp: accounted_def)

lemma scheduler_ok_other [simp]:
  "scheduler_ok (sc \<lparr> sc_worker := ws \<rparr>) = scheduler_ok sc" "scheduler_ok (reportError err sc) = scheduler_ok sc"
  "scheduler_ok (sc \<lparr> sc_reports := es \<rparr>) = scheduler_ok sc"
  by (auto simp: scheduler_ok_def fixed_lanes_def accounted_def jobs_of_def reportError_def split: option.split)

lemma scheduler_ok_set_lane:
  assumes "scheduler_ok sc" "l < 3" "\<And>x. ln_kind (f x) = ln_kind x \<and> ln_capacity (f x) = ln_capacity x \<and> ln_active (f x) = ln_active x"
  shows "scheduler_ok (set_lane l f sc)"
  using assms fixed_lanes_length by (simp add: scheduler_ok_def fixed_lanes_set accounted_set_lane)

text \<open>The start of one job.\<close>

definition start_job :: "nat \<Rightarrow> string \<Rightarrow> scheduler \<Rightarrow> scheduler" where
  "start_job l i sc = (set_lane l (\<lambda>x. x \<lparr> ln_active := ln_active x + 1 \<rparr>) sc) \<lparr> sc_inFlight := sc_inFlight sc @ [i], sc_jobs := sc_jobs sc @ [(i, l)] \<rparr>"

lemma start_job_fields [simp]:
  "sc_inFlight (start_job l i sc) = sc_inFlight sc @ [i]" "sc_worker (start_job l i sc) = sc_worker sc" "sc_reports (start_job l i sc) = sc_reports sc"
  "jobs_of k (start_job l i sc) = jobs_of k sc @ (if k = l then [(i, l)] else [])"
  "length (sc_lanes (start_job l i sc)) = length (sc_lanes sc)" "sc_jobs (start_job l i sc) = sc_jobs sc @ [(i, l)]"
  by (simp_all add: start_job_def jobs_of_def set_lane_def)

lemma start_job_nth [simp]:
  "l < length (sc_lanes sc) \<Longrightarrow> sc_lanes (start_job l i sc) ! k = (if k = l then (sc_lanes sc ! l) \<lparr> ln_active := ln_active (sc_lanes sc ! l) + 1 \<rparr> else sc_lanes sc ! k)"
  by (simp add: start_job_def set_lane_def nth_list_update)

lemma start_job_ok:
  assumes "scheduler_ok sc" "l < 3" "i \<notin> set (sc_inFlight sc)" "ln_active (sc_lanes sc ! l) < ln_capacity (sc_lanes sc ! l)"
  shows "scheduler_ok (start_job l i sc)"
proof -
  have "fixed_lanes (start_job l i sc)"
    using assms(1) fixed_lanes_set [of sc "\<lambda>x. x \<lparr> ln_active := ln_active x + 1 \<rparr>" l] by (simp add: scheduler_ok_def start_job_def fixed_lanes_def)
  then show ?thesis
    using assms fixed_lanes_length by (auto simp: scheduler_ok_def accounted_def)
qed

lemma start_items_Cons:
  "start_items l (item # items) sc =
     (if ln_active (sc_lanes sc ! l) = ln_capacity (sc_lanes sc ! l) then (sc, False)
      else
        let sc1 = set_lane l (\<lambda>x. x \<lparr> ln_afterID := dm_ID item \<rparr>) sc
        in start_items l items (if dm_ID item \<in> set (sc_inFlight sc) then sc1 else start_job l (dm_ID item) sc1))"
  by (simp add: start_job_def Let_def)

declare start_items.simps(2) [simp del]
declare start_items_Cons [simp]

text \<open>What a page does to the lane: it stays within its capacity, leaves the other lanes, and stops early only when it is full.\<close>

lemma start_items_ok:
  assumes "scheduler_ok sc" "l < 3" "start_items l items sc = (sc', consumed)"
  shows "scheduler_ok sc' \<and> sc_worker sc' = sc_worker sc \<and> (\<forall>k. k \<noteq> l \<longrightarrow> sc_lanes sc' ! k = sc_lanes sc ! k)
    \<and> ln_exhausted (sc_lanes sc' ! l) = ln_exhausted (sc_lanes sc ! l) \<and> set (sc_inFlight sc) \<subseteq> set (sc_inFlight sc')
    \<and> (\<not> consumed \<longrightarrow> ln_active (sc_lanes sc' ! l) = ln_capacity (sc_lanes sc' ! l)) \<and> (consumed \<longrightarrow> dm_ID ` set items \<subseteq> set (sc_inFlight sc'))
    \<and> (consumed \<and> distinct (map dm_ID items) \<longrightarrow>
         ln_active (sc_lanes sc' ! l) = ln_active (sc_lanes sc ! l) + int (length (filter (\<lambda>d. dm_ID d \<notin> set (sc_inFlight sc)) items)))"
  using assms(1,3)
proof (induction items arbitrary: sc)
  case (Cons item items)
  have len: "l < length (sc_lanes sc)" using Cons.prems(1) assms(2) fixed_lanes_length by (simp add: scheduler_ok_def)
  show ?case
  proof (cases "ln_active (sc_lanes sc ! l) = ln_capacity (sc_lanes sc ! l)")
    case False
    let ?sc = "set_lane l (\<lambda>x. x \<lparr> ln_afterID := dm_ID item \<rparr>) sc"
    let ?next = "if dm_ID item \<in> set (sc_inFlight sc) then ?sc else start_job l (dm_ID item) ?sc"
    have ok: "scheduler_ok ?sc" using scheduler_ok_set_lane [OF Cons.prems(1) assms(2)] by simp
    have free: "ln_active (sc_lanes ?sc ! l) < ln_capacity (sc_lanes ?sc ! l)"
      using False Cons.prems(1) assms(2) len by (auto simp: scheduler_ok_def accounted_def order_less_le)
    have next_ok: "scheduler_ok ?next" using ok start_job_ok [OF ok assms(2) _ free] by simp
    have step: "start_items l items ?next = (sc', consumed)" using Cons.prems(2) False by (simp add: Let_def)
    have count: "filter (\<lambda>d. dm_ID d \<notin> insert (dm_ID item) (set (sc_inFlight sc))) items = filter (\<lambda>d. dm_ID d \<notin> set (sc_inFlight sc)) items"
      if "dm_ID item \<notin> dm_ID ` set items" using that by (intro filter_cong refl) (metis image_eqI insert_iff)
    show ?thesis
      using Cons.IH [OF next_ok step] len count by (cases "dm_ID item \<in> set (sc_inFlight sc)") auto
  qed (use Cons.prems in \<open>auto\<close>)
qed simp


subsection \<open>One page is enough\<close>

lemma ListDeploymentWork_Inr:
  assumes "keys_unique dr_ID (dp_deployments db)" "ListDeploymentWork kind afterID limit now db = Inr (items, more_left)"
  shows "distinct (map dm_ID items)" "more_left \<Longrightarrow> int (length items) = limit"
proof -
  obtain P k where items: "items = map deploymentFromRecord (take k (sort_key dr_ID (filter P (dp_deployments db))))"
    using assms(2) by (auto simp: ListDeploymentWork_def Let_def split: if_splits sum.splits)
  have "map dm_ID items = take k (map dr_ID (sort_key dr_ID (filter P (dp_deployments db))))"
    by (simp add: items take_map deploymentFromRecord_def)
  moreover have "distinct (map dr_ID (sort_key dr_ID (filter P (dp_deployments db))))"
    using assms(1) by (simp add: keys_unique_def distinct_map inj_on_def)
  ultimately show "distinct (map dm_ID items)" by simp
  show "more_left \<Longrightarrow> int (length items) = limit"
    using assms(2) by (auto simp: ListDeploymentWork_def Let_def split: if_splits sum.splits)
qed

lemma busy_bound:
  assumes "distinct (map dm_ID items)" "distinct busy"
  shows "length items \<le> length (filter (\<lambda>d. dm_ID d \<notin> set busy) items) + length busy"
proof -
  let ?b = "filter (\<lambda>d. dm_ID d \<in> set busy) items"
  have "distinct (map dm_ID ?b)" using assms(1) by (rule distinct_map_filter)
  then have "length ?b = card (dm_ID ` set ?b)" by (metis distinct_card length_map set_map)
  also have "\<dots> \<le> card (set busy)" by (intro card_mono) auto
  finally show ?thesis using assms(2) sum_length_filter_compl [of "\<lambda>d. dm_ID d \<in> set busy" items] by (simp add: distinct_card)
qed

definition lane_done :: "lane \<Rightarrow> bool" where
  "lane_done x \<longleftrightarrow> ln_exhausted x \<or> \<not> ln_active x < ln_capacity x"

text \<open>The page leaves room for what is already in flight, so that it fills the lane or reaches its end.\<close>

lemma schedule_page_ok:
  assumes ok: "scheduler_ok sc" and l: "l < 3" and room: "\<not> lane_done (sc_lanes sc ! l)"
    and keys: "keys_unique dr_ID (dp_deployments (ws_db (interfere env (sc_worker sc))))" and page: "schedule_page env l sc = (sc', goes_on)"
  shows "scheduler_ok sc'" "\<forall>k. k \<noteq> l \<longrightarrow> sc_lanes sc' ! k = sc_lanes sc ! k" "goes_on \<Longrightarrow> lane_done (sc_lanes sc' ! l)"
    "ws_db (sc_worker sc') = ws_db (interfere env (sc_worker sc))"
proof -
  let ?x = "sc_lanes sc ! l" and ?ws = "interfere env (sc_worker sc)"
  let ?limit = "ln_capacity ?x - ln_active ?x + int (length (sc_inFlight sc))"
  have "scheduler_ok sc' \<and> (\<forall>k. k \<noteq> l \<longrightarrow> sc_lanes sc' ! k = sc_lanes sc ! k) \<and> (goes_on \<longrightarrow> lane_done (sc_lanes sc' ! l))
    \<and> ws_db (sc_worker sc') = ws_db ?ws"
  proof (cases "ListDeploymentWork (ln_kind ?x) (ln_afterID ?x) ?limit (clock env ?ws) (ws_db ?ws)")
    case (Inl e)
    then show ?thesis using page ok by (auto simp: schedule_page_def Let_def reportError_def)
  next
    case (Inr answer)
    obtain items more_left where answer: "answer = (items, more_left)" by force
    note list = ListDeploymentWork_Inr [OF keys Inr [unfolded answer]]
    let ?sc = "sc \<lparr> sc_worker := ?ws \<lparr> ws_trace := ws_trace ?ws @ map WasRead items \<rparr> \<rparr>"
    obtain sc1 consumed where start: "start_items l items ?sc = (sc1, consumed)" by force
    have "scheduler_ok ?sc" using ok by simp
    note g = start_items_ok [OF this l start]
    have sc': "sc' = (if \<not> more_left \<and> consumed then set_lane l (\<lambda>x. x \<lparr> ln_exhausted := True, ln_afterID := [] \<rparr>) sc1 else sc1)" "goes_on"
      using page start by (auto simp: schedule_page_def Let_def Inr answer)
    have len: "l < length (sc_lanes sc1)" using g l fixed_lanes_length by (simp add: scheduler_ok_def)
    have "distinct (sc_inFlight sc)" using ok unfolding scheduler_ok_def accounted_def by blast
    then have full: "ln_active (sc_lanes sc1 ! l) \<ge> ln_capacity ?x" if "more_left" "consumed"
      using that g list busy_bound [OF list(1), of "sc_inFlight sc"] by auto
    have same: "ln_capacity (sc_lanes sc1 ! l) = ln_capacity ?x"
      using g ok l unfolding scheduler_ok_def fixed_lanes_def by (metis (no_types, lifting) fixed_lanes_def fixed_lanes_length nth_map prod.inject)
    have "lane_done (sc_lanes sc' ! l)" using sc' len full same g by (auto simp: lane_done_def)
    moreover have "scheduler_ok sc'" using sc' g scheduler_ok_set_lane [of sc1 l] l by auto
    ultimately show ?thesis using sc' g len by auto
  qed
  then show "scheduler_ok sc'" "\<forall>k. k \<noteq> l \<longrightarrow> sc_lanes sc' ! k = sc_lanes sc ! k" "goes_on \<Longrightarrow> lane_done (sc_lanes sc' ! l)"
    "ws_db (sc_worker sc') = ws_db ?ws" by auto
qed


subsection \<open>A call of the loop returns\<close>

lemma reportError_fields [simp]: "sc_lanes (reportError err sc) = sc_lanes sc" "sc_worker (reportError err sc) = sc_worker sc"
  "sc_inFlight (reportError err sc) = sc_inFlight sc" "sc_jobs (reportError err sc) = sc_jobs sc"
  by (simp_all add: reportError_def split: option.split)

definition sched_good :: "scheduler \<Rightarrow> bool" where
  "sched_good sc \<longleftrightarrow> scheduler_ok sc \<and> worker_rows_ok (ws_db (sc_worker sc))"

lemma rely_rows: "rely env \<Longrightarrow> worker_rows_ok (ws_db ws) \<Longrightarrow> worker_rows_ok (ws_db (interfere env ws))"
  by (simp add: rely_def interfere_def)

lemma schedule_done: "lane_done (sc_lanes sc ! l) \<Longrightarrow> schedule env l sc = Some sc"
  by (subst schedule.simps) (auto simp: lane_done_def)

lemma schedule_once:
  assumes "rely env" "sched_good sc" "l < 3" "\<not> lane_done (sc_lanes sc ! l)"
  shows "schedule env l sc = Some (fst (schedule_page env l sc))" "sched_good (fst (schedule_page env l sc))"
proof -
  obtain sc' goes_on where page: "schedule_page env l sc = (sc', goes_on)" by force
  have rows: "worker_rows_ok (ws_db (interfere env (sc_worker sc)))" using assms(1,2) rely_rows by (simp add: sched_good_def)
  then have keys: "keys_unique dr_ID (dp_deployments (ws_db (interfere env (sc_worker sc))))"
    using deployments_okD(1) by (simp add: worker_rows_ok_def)
  have ok: "scheduler_ok sc" using assms(2) by (simp add: sched_good_def)
  note g = schedule_page_ok [OF ok assms(3,4) keys page]
  have "schedule env l sc = (if goes_on then schedule env l sc' else Some sc')"
    using assms(4) by (subst schedule.simps) (simp add: lane_done_def page)
  then show "schedule env l sc = Some (fst (schedule_page env l sc))"
    using g(3) schedule_done by (auto simp: page)
  show "sched_good (fst (schedule_page env l sc))" using g(1,4) rows by (simp add: page sched_good_def)
qed

lemma schedule_good:
  assumes "rely env" "sched_good sc" "l < 3"
  shows "\<exists>sc'. schedule env l sc = Some sc' \<and> sched_good sc'"
  using schedule_once [OF assms] schedule_done assms(2) by (cases "lane_done (sc_lanes sc ! l)") blast+

lemma reopen_good: "sched_good sc \<Longrightarrow> l < 3 \<Longrightarrow> sched_good (reopen l sc)"
  by (simp add: sched_good_def reopen_def scheduler_ok_set_lane)

lemma tick_lanes_good: "rely env \<Longrightarrow> sched_good sc \<Longrightarrow> \<forall>l\<in>set ls. l < 3 \<Longrightarrow> \<exists>sc'. tick_lanes env ls sc = Some sc' \<and> sched_good sc'"
proof (induction ls arbitrary: sc)
  case (Cons l ls)
  then obtain sc1 where "schedule env l (reopen l sc) = Some sc1" "sched_good sc1" using schedule_good reopen_good by (metis list.set_intros(1))
  then show ?case using Cons by simp
qed simp

lemma fill_lanes_good: "rely env \<Longrightarrow> sched_good sc \<Longrightarrow> \<forall>l\<in>set ls. l < 3 \<Longrightarrow> \<exists>sc'. fill_lanes env ls sc = Some sc' \<and> sched_good sc'"
proof (induction ls arbitrary: sc)
  case (Cons l ls)
  then obtain sc1 where "schedule env l sc = Some sc1" "sched_good sc1" using schedule_good by (metis list.set_intros(1))
  then show ?case using Cons by simp
qed simp

lemma prune_first_rows: "rely env \<Longrightarrow> worker_rows_ok (ws_db ws) \<Longrightarrow> worker_rows_ok (ws_db (fst (prune_first env ws)))"
  using prune_first_good [of env "ws \<lparr> ws_trace := [] \<rparr>"]
  by (auto simp: good_def never_forgets_def watch_def prune_first_def interfere_def clock_def Let_def split: prod.splits sum.splits)

lemma tick_good:
  assumes "rely env" "sched_good sc"
  shows "\<exists>sc'. tick env sc = Some sc' \<and> sched_good sc'"
proof -
  obtain ws err where p: "prune_first env (sc_worker sc) = (ws, err)" by force
  then have "sched_good (reportError err (sc \<lparr> sc_worker := ws \<rparr>))"
    using assms prune_first_rows [of env "sc_worker sc"] by (simp add: sched_good_def)
  from tick_lanes_good [OF assms(1) this, of "[0, 1, 2]"] show ?thesis by (simp add: tick_def p)
qed

lemma notified_good: "rely env \<Longrightarrow> sched_good sc \<Longrightarrow> \<exists>sc'. notified env sc = Some sc' \<and> sched_good sc'"
  using fill_lanes_good [of env "reopen 0 sc" "[0, 1, 2]"] reopen_good [of sc 0] by (simp add: notified_def)

text \<open>A completion frees the place of its job.\<close>

lemma finish_job_ok:
  assumes ok: "scheduler_ok sc" and job: "(i, l) \<in> set (sc_jobs sc)"
  shows "scheduler_ok (set_lane l (\<lambda>x. x \<lparr> ln_active := ln_active x - 1 \<rparr>)
    (sc \<lparr> sc_inFlight := filter (\<lambda>j. j \<noteq> i) (sc_inFlight sc), sc_jobs := remove1 (i, l) (sc_jobs sc) \<rparr>))" (is "scheduler_ok (set_lane l ?f ?sc)")
proof -
  have a: "accounted sc" "fixed_lanes sc" using ok by (auto simp: scheduler_ok_def)
  have l: "l < 3" using a(1) job by (auto simp: accounted_def)
  have distinct: "distinct (map fst (sc_jobs sc))" using a(1) by (auto simp: accounted_def)
  have inFlight: "filter (\<lambda>j. j \<noteq> i) (map fst js) = map fst (remove1 (i, l) js)" if "distinct (map fst js)" "(i, l) \<in> set js" for js
    using that
  proof (induction js)
    case (Cons j js)
    then show ?case by (cases j) (auto simp: filter_id_conv image_iff)
  qed simp
  have count: "int (length (filter (\<lambda>j. snd j = k) (remove1 (i, l) (sc_jobs sc)))) = int (length (jobs_of k sc)) - (if k = l then 1 else 0)" for k
  proof (cases "k = l")
    case True
    then have "(i, l) \<in> set (jobs_of k sc)" using job by (simp add: jobs_of_def)
    then have "length (remove1 (i, l) (jobs_of k sc)) = length (jobs_of k sc) - 1" "0 < length (jobs_of k sc)"
      by (auto simp: length_remove1 intro: length_pos_if_in_set)
    then show ?thesis using True by (simp add: jobs_of_def filter_remove1 of_nat_diff Suc_le_eq)
  next
    case False
    then show ?thesis by (simp add: jobs_of_def filter_remove1 remove1_idem)
  qed
  have "distinct (map fst (remove1 (i, l) (sc_jobs sc)))" using inFlight [OF distinct job] distinct by (metis distinct_filter)
  moreover have "fixed_lanes (set_lane l ?f ?sc)" using a(2) fixed_lanes_set [of ?sc ?f l] by (simp add: fixed_lanes_def)
  ultimately have "accounted (set_lane l ?f ?sc)" "fixed_lanes (set_lane l ?f ?sc)"
    using a fixed_lanes_length [OF a(2)] l job count inFlight [OF distinct] set_remove1_subset [of "(i, l)" "sc_jobs sc"]
    by (auto simp: accounted_def jobs_of_def)
  then show ?thesis by (simp add: scheduler_ok_def)
qed


lemma job_completed_good:
  assumes "rely env" "sched_good sc" "job \<in> set (sc_jobs sc)"
  shows "\<exists>sc'. job_completed env job err sc = Some sc' \<and> sched_good sc'"
proof -
  obtain i l where job: "job = (i, l)" by force
  have "l < 3" using assms(2,3) by (auto simp: job sched_good_def scheduler_ok_def accounted_def)
  moreover have "sched_good (reportError err (set_lane l (\<lambda>x. x \<lparr> ln_active := ln_active x - 1 \<rparr>)
      (sc \<lparr> sc_inFlight := filter (\<lambda>j. j \<noteq> i) (sc_inFlight sc), sc_jobs := remove1 job (sc_jobs sc) \<rparr>)))"
    using assms(2,3) finish_job_ok [of sc i l] by (simp add: sched_good_def job)
  ultimately show ?thesis using schedule_good [OF assms(1)] by (simp add: job_completed_def job)
qed

lemma scheduler_step_good:
  assumes "scheduler_step env sc sc'" "rely env" "sched_good sc"
  shows "sched_good sc'"
  using assms(1)
proof cases
  case on_tick
  then show ?thesis using tick_good [OF assms(2,3)] by simp
next
  case on_notify
  then show ?thesis using notified_good [OF assms(2,3)] by simp
next
  case (on_completed job err)
  then show ?thesis using job_completed_good [OF assms(2,3), of job err] by simp
qed

lemma three_lanes: "(\<forall>l<3. P l) \<longleftrightarrow> P 0 \<and> P 1 \<and> P (2 :: nat)"
  by (auto simp: numeral_3_eq_3 less_Suc_eq numeral_2_eq_2)

lemma initial_scheduler_good: "worker_rows_ok (ws_db ws) \<Longrightarrow> sched_good (initial_scheduler ws)"
  by (simp add: sched_good_def scheduler_ok_def fixed_lanes_def accounted_def three_lanes initial_scheduler_def initial_lanes_def new_lane_def jobs_of_def)

lemma reachable_good: "(scheduler_step env)\<^sup>*\<^sup>* sc sc' \<Longrightarrow> rely env \<Longrightarrow> sched_good sc \<Longrightarrow> sched_good sc'"
  by (induction rule: rtranclp_induct) (auto intro: scheduler_step_good)

lemma scheduler_ok_bounds:
  assumes "scheduler_ok sc"
  shows "distinct (map fst (sc_jobs sc))" "length (jobs_of 0 sc) \<le> 4" "length (jobs_of 1 sc) \<le> 8" "length (jobs_of 2 sc) \<le> 4" "\<forall>j\<in>set (sc_jobs sc). snd j < 3"
proof -
  obtain a b c where lanes: "sc_lanes sc = [a, b, c]" "ln_capacity a = 4" "ln_capacity b = 8" "ln_capacity c = 4"
    using assms by (auto simp: scheduler_ok_def fixed_lanes_def initial_lanes_def new_lane_def map_eq_Cons_conv)
  have acc: "accounted sc" using assms by (simp add: scheduler_ok_def)
  show "distinct (map fst (sc_jobs sc))" "\<forall>j\<in>set (sc_jobs sc). snd j < 3" using acc by (auto simp: accounted_def)
  show "length (jobs_of 0 sc) \<le> 4" "length (jobs_of 1 sc) \<le> 8" "length (jobs_of 2 sc) \<le> 4"
    using acc lanes by (simp_all add: accounted_def three_lanes)
qed

lemma jobs_split: "\<forall>j\<in>set (sc_jobs sc). snd j < 3 \<Longrightarrow> length (sc_jobs sc) = length (jobs_of 0 sc) + length (jobs_of 1 sc) + length (jobs_of 2 sc)"
proof -
  have "\<forall>j\<in>set js. snd j < (3 :: nat) \<Longrightarrow> length js = length (filter (\<lambda>j. snd j = 0) js) + length (filter (\<lambda>j. snd j = 1) js) + length (filter (\<lambda>j. snd j = 2) js)"
    for js :: "(string \<times> nat) list"
  proof (induction js)
    case (Cons j js)
    then consider "snd j = 0" | "snd j = 1" | "snd j = 2" using three_lanes [of "\<lambda>l. snd j \<noteq> l"] by auto
    then show ?case using Cons by cases simp_all
  qed simp
  from this [of "sc_jobs sc"] show "\<forall>j\<in>set (sc_jobs sc). snd j < 3 \<Longrightarrow> length (sc_jobs sc) = length (jobs_of 0 sc) + length (jobs_of 1 sc) + length (jobs_of 2 sc)"
    unfolding jobs_of_def .
qed

text \<open>C36: the scheduler of the deployments never runs two jobs for one deployment and never more than 4 provisioning, 8 monitoring and 4 cleanup jobs,
  whatever the order of ticks, notifications and completions.\<close>

theorem scheduler_jobs_bounded:
  assumes "\<forall>n db. worker_rows_ok db \<longrightarrow> worker_rows_ok (we_other env n db)"
    and "\<forall>n x t h. we_ConnectDeploymentRuntime env n x t = Inr h \<longrightarrow> TrimSpace (rh_SandboxID h) = TrimSpace x"
    and "worker_rows_ok (ws_db ws)" "(scheduler_step env)\<^sup>*\<^sup>* (initial_scheduler ws) sc"
  shows "distinct (map fst (sc_jobs sc)) \<and> length (filter (\<lambda>j. snd j = 0) (sc_jobs sc)) \<le> 4
    \<and> length (filter (\<lambda>j. snd j = 1) (sc_jobs sc)) \<le> 8 \<and> length (filter (\<lambda>j. snd j = 2) (sc_jobs sc)) \<le> 4 \<and> length (sc_jobs sc) \<le> 16"
proof -
  have "rely env" using assms(1,2) unfolding rely_def by blast
  then have "scheduler_ok sc" using reachable_good [OF assms(4)] initial_scheduler_good [OF assms(3)] by (simp add: sched_good_def)
  note bounds = scheduler_ok_bounds [OF this]
  have "length (sc_jobs sc) = length (jobs_of 0 sc) + length (jobs_of 1 sc) + length (jobs_of 2 sc)" by (rule jobs_split [OF bounds(5)])
  then show ?thesis using bounds by (simp add: jobs_of_def)
qed


lemma sample_worker_rely:
  "\<forall>n db. worker_rows_ok db \<longrightarrow> worker_rows_ok (we_other sample_worker_env n db)"
  "\<forall>n x t h. we_ConnectDeploymentRuntime sample_worker_env n x t = Inr h \<longrightarrow> TrimSpace (rh_SandboxID h) = TrimSpace x"
  "worker_rows_ok (ws_db sample_worker_state)"
  using sample_db_ok sample_row_ok by (auto simp: sample_worker_env_def sample_worker_state_def worker_rows_ok_def sample_db_def)

theorem scheduler_jobs_bounded_witness:
  "\<exists>sc. scheduler_step sample_worker_env (initial_scheduler sample_worker_state) sc \<and> distinct (map fst (sc_jobs sc)) \<and> length (sc_jobs sc) \<le> 16"
proof -
  have "rely sample_worker_env" using sample_worker_rely(1,2) unfolding rely_def by blast
  then obtain sc where "tick sample_worker_env (initial_scheduler sample_worker_state) = Some sc"
    using tick_good initial_scheduler_good [OF sample_worker_rely(3)] by blast
  then have step: "scheduler_step sample_worker_env (initial_scheduler sample_worker_state) sc" by (rule on_tick)
  then have "(scheduler_step sample_worker_env)\<^sup>*\<^sup>* (initial_scheduler sample_worker_state) sc" by (rule r_into_rtranclp)
  then show ?thesis using step scheduler_jobs_bounded [OF sample_worker_rely] by blast
qed

subsection \<open>No lane is idle while it has work\<close>

lemma lane_kind_limit:
  assumes ok: "scheduler_ok sc" and l: "l < 3"
  shows "\<exists>branches. work_branches (ln_kind (sc_lanes sc ! l)) now = Inr branches"
    "ln_capacity (sc_lanes sc ! l) - ln_active (sc_lanes sc ! l) + int (length (sc_inFlight sc)) \<le> 100"
proof -
  obtain a b c where lanes: "sc_lanes sc = [a, b, c]" "ln_kind a = ''provision''" "ln_kind b = ''monitor''" "ln_kind c = ''cleanup''"
      "ln_capacity a = 4" "ln_capacity b = 8" "ln_capacity c = 4"
    using ok by (auto simp: scheduler_ok_def fixed_lanes_def initial_lanes_def new_lane_def map_eq_Cons_conv)
  have l: "l = 0 \<or> l = 1 \<or> l = 2" using l by auto
  then show "\<exists>branches. work_branches (ln_kind (sc_lanes sc ! l)) now = Inr branches"
    using lanes by (auto simp: work_branches_def)
  have "length (sc_inFlight sc) = length (sc_jobs sc)" "0 \<le> ln_active (sc_lanes sc ! l)" using ok l by (auto simp: scheduler_ok_def accounted_def)
  moreover have "length (sc_jobs sc) \<le> 16" using scheduler_ok_bounds [OF ok] jobs_split [of sc] by linarith
  moreover have "ln_capacity (sc_lanes sc ! l) \<le> 8" using l lanes by auto
  ultimately show "ln_capacity (sc_lanes sc ! l) - ln_active (sc_lanes sc ! l) + int (length (sc_inFlight sc)) \<le> 100" by linarith
qed

lemma schedule_page_serves:
  assumes ok: "scheduler_ok sc" and l: "l < 3" and room: "\<not> lane_done (sc_lanes sc ! l)"
    and rows: "worker_rows_ok (ws_db (interfere env (sc_worker sc)))" and time: "\<not> IsZero (clock env (interfere env (sc_worker sc)))"
    and page: "schedule_page env l sc = (sc', goes_on)" and idle: "ln_active (sc_lanes sc' ! l) < ln_capacity (sc_lanes sc' ! l)"
    and r: "r \<in> set (lane_rows (ln_kind (sc_lanes sc ! l)) (clock env (interfere env (sc_worker sc))) (ln_afterID (sc_lanes sc ! l)) (ws_db (interfere env (sc_worker sc))))"
  shows "dr_ID r \<in> set (sc_inFlight sc')"
proof -
  let ?x = "sc_lanes sc ! l" and ?ws = "interfere env (sc_worker sc)"
  let ?limit = "ln_capacity ?x - ln_active ?x + int (length (sc_inFlight sc))" and ?rows = "lane_rows (ln_kind ?x) (clock env ?ws) (ln_afterID ?x) (ws_db ?ws)"
  have keys: "keys_unique dr_ID (dp_deployments (ws_db ?ws))" "list_all (\<lambda>r. dr_ID r \<noteq> []) (dp_deployments (ws_db ?ws))"
    using rows deployments_okD(1) by (auto simp: worker_rows_ok_def row_ok_def list_all_iff)
  obtain branches where branches: "work_branches (ln_kind ?x) (clock env ?ws) = Inr branches" using lane_kind_limit(1) [OF ok l] by blast
  let ?items = "map deploymentFromRecord (take (nat ?limit) ?rows)" and ?more = "?limit < int (length ?rows)"
  have "0 < ?limit" using room by (simp add: lane_done_def)
  note list = ListDeploymentWork_direct [OF keys this lane_kind_limit(2) [OF ok l] time branches, of "ln_afterID ?x"]
  let ?sc = "sc \<lparr> sc_worker := ?ws \<lparr> ws_trace := ws_trace ?ws @ map WasRead ?items \<rparr> \<rparr>"
  obtain sc1 consumed where start: "start_items l ?items ?sc = (sc1, consumed)" by force
  have "scheduler_ok ?sc" using ok by simp
  note g = start_items_ok [OF this l start]
  have sc': "sc' = (if \<not> ?more \<and> consumed then set_lane l (\<lambda>x. x \<lparr> ln_exhausted := True, ln_afterID := [] \<rparr>) sc1 else sc1)" "goes_on"
    using page start by (auto simp: schedule_page_def Let_def list)
  have "\<not> ?more \<and> consumed"
  proof (rule ccontr)
    assume "\<not> ?thesis"
    then have "sc' = sc1" "?more \<or> \<not> consumed" using sc'(1) by auto
    moreover have "lane_done (sc_lanes sc' ! l)" using schedule_page_ok(3) [OF ok l room keys(1) page sc'(2)] .
    ultimately show False using idle g room by (auto simp: lane_done_def)
  qed
  then have "dm_ID ` set ?items \<subseteq> set (sc_inFlight sc')" "?items = map deploymentFromRecord ?rows" using g sc'(1) by auto
  then show ?thesis using r by (force simp: deploymentFromRecord_def)
qed

text \<open>A lane is served when all its places are taken, or every deployment behind its cursor that it has to serve is in flight.\<close>

definition lane_served :: "worker_env \<Rightarrow> nat \<Rightarrow> scheduler \<Rightarrow> scheduler \<Rightarrow> bool" where
  "lane_served env l sc sc' \<longleftrightarrow> ln_active (sc_lanes sc' ! l) = ln_capacity (sc_lanes sc' ! l) \<or>
     (\<forall>r\<in>set (lane_rows (ln_kind (sc_lanes sc ! l)) (clock env (interfere env (sc_worker sc))) (ln_afterID (sc_lanes sc ! l)) (ws_db (interfere env (sc_worker sc)))).
        dr_ID r \<in> set (sc_inFlight sc'))"

lemma schedule_serves:
  assumes env: "rely env" and good: "sched_good sc" and l: "l < 3" and time: "\<not> IsZero (clock env (interfere env (sc_worker sc)))"
  shows "\<exists>sc'. schedule env l sc = Some sc' \<and> (if ln_exhausted (sc_lanes sc ! l) then sc' = sc else lane_served env l sc sc')"
proof -
  have ok: "scheduler_ok sc" and rows: "worker_rows_ok (ws_db (interfere env (sc_worker sc)))" using good rely_rows [OF env] by (auto simp: sched_good_def)
  have le: "ln_active (sc_lanes t ! l) \<le> ln_capacity (sc_lanes t ! l)" if "sched_good t" for t
    using that l by (auto simp: sched_good_def scheduler_ok_def accounted_def)
  show ?thesis
  proof (cases "lane_done (sc_lanes sc ! l)")
    case True
    then show ?thesis using schedule_done le [OF good] by (auto simp: lane_done_def lane_served_def)
  next
    case False
    obtain sc' goes_on where page: "schedule_page env l sc = (sc', goes_on)" by force
    note once = schedule_once [OF env good l False, unfolded page fst_conv]
    have "\<not> ln_exhausted (sc_lanes sc ! l)" using False by (simp add: lane_done_def)
    then show ?thesis
      using once le [OF once(2)] schedule_page_serves [OF ok l False rows time page] by (auto simp: order_le_less lane_served_def)
  qed
qed

text \<open>C37: filling a lane of the deployment scheduler returns, in every state the scheduler can reach. A lane that was found to have no more work
  is left as it is, on purpose, until it is opened again, at the latest by the next tick; when the lane is open, and also when it has just been opened again, then
  afterwards either all its places are taken or every deployment that it has to serve behind its cursor is in flight. A page has
  room for what is in flight already, so one page is enough. The hypotheses are those under which the worker is safe: the other users of
  the tables keep them consistent, with no sandbox on a deployment that waits, and a connection is bound to the sandbox that was
  asked for; and the clock does not read the zero instant. The scheduler is not being shut down meanwhile.\<close>

theorem schedule_serves_lane:
  assumes "\<forall>n db. worker_rows_ok db \<longrightarrow> worker_rows_ok (we_other env n db)"
    and "\<forall>n x t h. we_ConnectDeploymentRuntime env n x t = Inr h \<longrightarrow> TrimSpace (rh_SandboxID h) = TrimSpace x"
    and "worker_rows_ok (ws_db ws)" "(scheduler_step env)\<^sup>*\<^sup>* (initial_scheduler ws) sc" "l < 3"
    and "\<not> IsZero (clock env (interfere env (sc_worker sc)))"
  shows "(\<exists>sc'. schedule env l sc = Some sc' \<and> (if ln_exhausted (sc_lanes sc ! l) then sc' = sc else lane_served env l sc sc'))
    \<and> (\<exists>sc'. schedule env l (reopen l sc) = Some sc' \<and> lane_served env l (reopen l sc) sc')"
proof -
  have env: "rely env" using assms(1,2) unfolding rely_def by blast
  then have good: "sched_good sc" using reachable_good [OF assms(4)] initial_scheduler_good [OF assms(3)] by simp
  have "length (sc_lanes sc) = 3"
    using good by (auto simp: sched_good_def scheduler_ok_def fixed_lanes_def initial_lanes_def map_eq_Cons_conv)
  then have opened: "\<not> ln_exhausted (sc_lanes (reopen l sc) ! l)" using assms(5) by (simp add: reopen_def set_lane_def)
  show ?thesis
    using schedule_serves [OF env good assms(5,6)] schedule_serves [OF env reopen_good [OF good assms(5)] assms(5)] opened assms(6) by (simp add: reopen_def set_lane_def)
qed

theorem schedule_serves_lane_witness:
  "\<exists>sc'. schedule sample_worker_env 0 (initial_scheduler sample_worker_state) = Some sc' \<and> (ln_active (sc_lanes sc' ! 0) = ln_capacity (sc_lanes sc' ! 0) \<or>
     dr_ID ` set (lane_rows ''provision'' 100 [] sample_db) \<subseteq> set (sc_inFlight sc'))"
  using schedule_serves_lane [OF sample_worker_rely rtranclp.rtrancl_refl, of 0]
  by (simp add: lane_served_def image_subset_iff initial_scheduler_def initial_lanes_def new_lane_def clock_def interfere_def sample_worker_env_def sample_worker_state_def IsZero_def)

end
