(* ===== verification/Authorization.thy ===== *)
theory Authorization
  imports Sandboxes
begin

text \<open>
  Which repositories a signed-in user may see: \<^verbatim>\<open>internal/server/server_user_authorization.go\<close>. GitHub is asked with the
  user's own token; the answer is kept for half a minute, is refreshed in the background, and is dropped when the user signs in again
  or changes an installation. An epoch per account, a \<open>uint64\<close>, tells the answers to questions asked before such a change from the later ones.

  The content of the cache is a type parameter, so that an entry can be followed back to the request it answers. Every function here runs under
  the server's mutex; the concurrent requests are steps of a relation. GitHub's answers and the encryption are parameters.
\<close>

subsection \<open>Errors of GitHub\<close>

record apiError =
  ae_Operation :: string
  ae_StatusCode :: int
  ae_Body :: string
  ae_RetryAfter :: string
  ae_RateLimitRemaining :: string

datatype access_error =
    GitHubUserAccessTokenRequired
  | APIError apiError
  | OtherAccessError string

fun asAPIError :: "access_error \<Rightarrow> apiError option" where
  "asAPIError (APIError e) = Some e"
| "asAPIError _ = None"

definition ErrorStatus :: "access_error \<Rightarrow> int option" where
  "ErrorStatus err = map_option ae_StatusCode (asAPIError err)"

definition isRateLimitAPIError :: "apiError \<Rightarrow> bool" where
  "isRateLimitAPIError e \<longleftrightarrow> \<not> (ae_StatusCode e \<noteq> 403 \<and> ae_StatusCode e \<noteq> 429) \<and>
     (TrimSpace (ae_RetryAfter e) \<noteq> [] \<or> TrimSpace (ae_RateLimitRemaining e) = ''0'' \<or> Contains (ToLower (ae_Body e)) ''rate limit'')"

definition IsRateLimitError :: "access_error \<Rightarrow> bool" where
  "IsRateLimitError err = (case asAPIError err of None \<Rightarrow> False | Some e \<Rightarrow> isRateLimitAPIError e)"

definition RateLimitRetryAfter :: "access_error \<Rightarrow> string option" where
  "RateLimitRetryAfter err =
     (case asAPIError err of
        None \<Rightarrow> None
      | Some e \<Rightarrow> if \<not> isRateLimitAPIError e then None
                   else let retryAfter = TrimSpace (ae_RetryAfter e) in if retryAfter \<noteq> [] then Some retryAfter else None)"

record http_error =
  he_status :: int
  he_code :: string
  he_message :: string
  he_RetryAfter :: "string option"

definition writeErrorCode :: "int \<Rightarrow> string \<Rightarrow> string \<Rightarrow> http_error" where
  "writeErrorCode status code message = \<lparr> he_status = status, he_code = code, he_message = message, he_RetryAfter = None \<rparr>"

definition writeError :: "int \<Rightarrow> string \<Rightarrow> http_error" where
  "writeError status message = writeErrorCode status [] message"

definition writeUserRepositoryAuthorizationError :: "access_error \<Rightarrow> http_error" where
  "writeUserRepositoryAuthorizationError err =
     (if err = GitHubUserAccessTokenRequired then writeErrorCode 403 ''REAUTH_REQUIRED'' ''sign in with GitHub again to load repository access''
      else if IsRateLimitError err
      then (writeErrorCode 503 ''GITHUB_RATE_LIMITED'' ''GitHub repository access is temporarily rate limited'') \<lparr> he_RetryAfter := RateLimitRetryAfter err \<rparr>
      else if ErrorStatus err = Some 401 then writeErrorCode 403 ''REAUTH_REQUIRED'' ''sign in with GitHub again to refresh repository access''
      else if ErrorStatus err = Some 403 then writeErrorCode 403 ''GITHUB_REPOSITORY_ACCESS_FORBIDDEN'' ''GitHub denied repository access''
      else if ErrorStatus err = Some 404 then writeError 404 ''github installation is not accessible''
      else writeError 502 ''load github repository access'')"

definition isRejectedGitHubUserAccess :: "access_error \<Rightarrow> bool" where
  "isRejectedGitHubUserAccess err \<longleftrightarrow> err = GitHubUserAccessTokenRequired \<or> ErrorStatus err = Some 401"

subsection \<open>Asking GitHub\<close>

definition AccountSecretTypeGitHubOAuthToken :: string where "AccountSecretTypeGitHubOAuthToken = ''github_oauth_token''"

definition githubUserAccessToken :: "(string \<Rightarrow> string option) \<Rightarrow> settings_db \<Rightarrow> int \<Rightarrow> access_error + string" where
  "githubUserAccessToken decrypt settings accountID =
     (case GetAccountSecret AccountScopeTypeAccount accountID AccountSecretTypeGitHubOAuthToken settings of
        Inl e \<Rightarrow> if e = ErrNotFound then Inl GitHubUserAccessTokenRequired else Inl (OtherAccessError (error_text e))
      | Inr secret \<Rightarrow>
          (case decrypt (as_EncryptedValue secret) of
             None \<Rightarrow> Inl GitHubUserAccessTokenRequired
           | Some token \<Rightarrow> if TrimSpace token = [] then Inl GitHubUserAccessTokenRequired else Inr (TrimSpace token)))"

text \<open>The repositories of an installation: trimmed, and each once whatever the case of its letters.\<close>

fun unique_repositories :: "string list \<Rightarrow> string list \<Rightarrow> string list" where
  "unique_repositories seen [] = []"
| "unique_repositories seen (r # rs) =
     (let repository = TrimSpace r; key = ToLower repository
      in if repository = [] \<or> key \<in> set seen then unique_repositories seen rs else repository # unique_repositories (key # seen) rs)"

fun load_installations ::
  "(int \<Rightarrow> access_error + string list) \<Rightarrow> int list \<Rightarrow> access_error + GitHubInstallationRepositoryAccess list" where
  "load_installations gh [] = Inr []"
| "load_installations gh (i # ids) =
     (case gh i of
        Inl err \<Rightarrow>
          if ErrorStatus err = Some 404 \<or> (ErrorStatus err = Some 403 \<and> \<not> IsRateLimitError err) then load_installations gh ids else Inl err
      | Inr items \<Rightarrow>
          (case load_installations gh ids of
             Inl err \<Rightarrow> Inl err
           | Inr access \<Rightarrow>
               let repositories = unique_repositories [] items
               in Inr (if repositories \<noteq> [] then \<lparr> ra_InstallationID = i, ra_Repositories = repositories \<rparr> # access else access)))"

definition loadUserRepositoryAccess ::
  "(string \<Rightarrow> int \<Rightarrow> access_error + string list) option \<Rightarrow> (string \<Rightarrow> string option) \<Rightarrow> settings_db \<Rightarrow> requests_table \<Rightarrow> installation_db \<Rightarrow> int
     \<Rightarrow> access_error + GitHubInstallationRepositoryAccess list" where
  "loadUserRepositoryAccess gh decrypt settings requests installations accountID =
     (case ListGitHubInstallations accountID requests installations of
        Inl e \<Rightarrow> Inl (OtherAccessError (error_text e))
      | Inr items \<Rightarrow>
          if items = [] then Inr []
          else case gh of
            None \<Rightarrow> Inl (OtherAccessError ''github client is not configured'')
          | Some client \<Rightarrow>
              (case githubUserAccessToken decrypt settings accountID of
                 Inl err \<Rightarrow> Inl err
               | Inr token \<Rightarrow> load_installations (client token) (map (\<lambda>i. gi_InstallationID (gn_record i)) items)))"

definition hasRepositoryAccess :: "GitHubInstallationRepositoryAccess list \<Rightarrow> int \<Rightarrow> string \<Rightarrow> bool" where
  "hasRepositoryAccess access installationID repository \<longleftrightarrow>
     list_ex (\<lambda>item. ra_InstallationID item = installationID \<and> list_ex (\<lambda>candidate. EqualFold (TrimSpace candidate) (TrimSpace repository)) (ra_Repositories item)) access"

subsection \<open>The cache\<close>

definition maxUserRepositoryAccessCacheItems :: nat where "maxUserRepositoryAccessCacheItems = 512"
definition userRepositoryAccessRefreshAfter :: duration where "userRepositoryAccessRefreshAfter = 20 * Second"
definition userRepositoryAccessCacheTTL :: duration where "userRepositoryAccessCacheTTL = 30 * Second"
definition userRepositoryAccessRefreshRetry :: duration where "userRepositoryAccessRefreshRetry = 5 * Second"

record 'a cachedUserRepositoryAccess =
  cu_access :: 'a
  cu_refreshAfter :: instant
  cu_expiresAt :: instant
  cu_refreshing :: bool

record 'a access_state =
  as_cache :: "(int \<times> 'a cachedUserRepositoryAccess) list"
  as_epoch :: "int \<Rightarrow> 64 word"

definition cache_delete :: "int \<Rightarrow> (int \<times> 'a) list \<Rightarrow> (int \<times> 'a) list" where
  "cache_delete i cache = filter (\<lambda>e. fst e \<noteq> i) cache"

definition cache_put :: "int \<Rightarrow> 'a \<Rightarrow> (int \<times> 'a) list \<Rightarrow> (int \<times> 'a) list" where
  "cache_put i x cache = (i, x) # cache_delete i cache"

definition cachedUserRepositoryAccessForRequest :: "instant \<Rightarrow> int \<Rightarrow> 'a access_state \<Rightarrow> 'a access_state \<times> ('a \<times> bool) option" where
  "cachedUserRepositoryAccessForRequest now i st =
     (case map_of (as_cache st) i of
        None \<Rightarrow> (st, None)
      | Some cached \<Rightarrow>
          if \<not> now < cu_expiresAt cached then (st \<lparr> as_cache := cache_delete i (as_cache st) \<rparr>, None)
          else
            let refresh = (\<not> now < cu_refreshAfter cached \<and> \<not> cu_refreshing cached)
            in (if refresh then st \<lparr> as_cache := cache_put i (cached \<lparr> cu_refreshing := True \<rparr>) (as_cache st) \<rparr> else st,
                Some (cu_access cached, refresh)))"

definition cachedUserRepositoryAccess_read :: "instant \<Rightarrow> int \<Rightarrow> 'a access_state \<Rightarrow> 'a access_state \<times> 'a option" where
  "cachedUserRepositoryAccess_read now i st =
     (case map_of (as_cache st) i of
        None \<Rightarrow> (st, None)
      | Some cached \<Rightarrow> if \<not> now < cu_expiresAt cached then (st \<lparr> as_cache := cache_delete i (as_cache st) \<rparr>, None) else (st, Some (cu_access cached)))"

text \<open>The iteration order of a Go map is any: \<open>choice\<close> is the place of the entry that goes.\<close>

definition evictOneUserRepositoryAccess :: "nat \<Rightarrow> (int \<times> 'a) list \<Rightarrow> (int \<times> 'a) list" where
  "evictOneUserRepositoryAccess choice cache = (if cache = [] then [] else cache_delete (fst (cache ! (choice mod length cache))) cache)"

definition cacheUserRepositoryAccessIfCurrent :: "nat \<Rightarrow> instant \<Rightarrow> int \<Rightarrow> 64 word \<Rightarrow> 'a \<Rightarrow> 'a access_state \<Rightarrow> 'a access_state \<times> bool" where
  "cacheUserRepositoryAccessIfCurrent choice now i epoch access st =
     (if as_epoch st i \<noteq> epoch then (st, False)
      else
        let cache = (if map_of (as_cache st) i = None \<and> length (as_cache st) \<ge> maxUserRepositoryAccessCacheItems
                     then evictOneUserRepositoryAccess choice (as_cache st) else as_cache st)
        in (st \<lparr> as_cache := cache_put i \<lparr> cu_access = access, cu_refreshAfter = now + userRepositoryAccessRefreshAfter,
                   cu_expiresAt = now + userRepositoryAccessCacheTTL, cu_refreshing = False \<rparr> cache \<rparr>, True))"

definition finishUserRepositoryAccessRefresh :: "instant \<Rightarrow> int \<Rightarrow> 64 word \<Rightarrow> 'a access_state \<Rightarrow> 'a access_state" where
  "finishUserRepositoryAccessRefresh now i epoch st =
     (if as_epoch st i \<noteq> epoch then st
      else case map_of (as_cache st) i of
        None \<Rightarrow> st
      | Some cached \<Rightarrow>
          let nextRefresh = now + userRepositoryAccessRefreshRetry
          in st \<lparr> as_cache := cache_put i (cached \<lparr> cu_refreshing := False,
                    cu_refreshAfter := (if nextRefresh > cu_expiresAt cached then cu_expiresAt cached else nextRefresh) \<rparr>) (as_cache st) \<rparr>)"

definition invalidateUserRepositoryAccess :: "int \<Rightarrow> 'a access_state \<Rightarrow> 'a access_state" where
  "invalidateUserRepositoryAccess i st = st \<lparr> as_epoch := (as_epoch st)(i := as_epoch st i + 1), as_cache := cache_delete i (as_cache st) \<rparr>"

definition invalidateUserRepositoryAccessIfCurrent :: "int \<Rightarrow> 64 word \<Rightarrow> 'a access_state \<Rightarrow> 'a access_state" where
  "invalidateUserRepositoryAccessIfCurrent i epoch st = (if as_epoch st i \<noteq> epoch then st else invalidateUserRepositoryAccess i st)"

definition userRepositoryAccessEpochForRefresh :: "int \<Rightarrow> 'a access_state \<Rightarrow> 64 word" where
  "userRepositoryAccessEpochForRefresh i st = as_epoch st i"

definition userRepositoryAccessEpochMatches :: "int \<Rightarrow> 64 word \<Rightarrow> 'a access_state \<Rightarrow> bool" where
  "userRepositoryAccessEpochMatches i epoch st \<longleftrightarrow> as_epoch st i = epoch"

text \<open>What a load does when GitHub has answered.\<close>

definition load_answered :: "nat \<Rightarrow> instant \<Rightarrow> int \<Rightarrow> 64 word \<Rightarrow> access_error + 'a \<Rightarrow> 'a access_state \<Rightarrow> 'a access_state" where
  "load_answered choice now i epoch answer st =
     (case answer of
        Inl err \<Rightarrow> if isRejectedGitHubUserAccess err then invalidateUserRepositoryAccessIfCurrent i epoch st else finishUserRepositoryAccessRefresh now i epoch st
      | Inr access \<Rightarrow> fst (cacheUserRepositoryAccessIfCurrent choice now i epoch access st))"

subsection \<open>Concurrent requests\<close>

text \<open>
  A load has a number and tags its answer with it. It runs under the key of its account and epoch; any number of requests may wait for it
  (\<open>singleflight\<close>), and each of them checks the epoch once more before it uses the answer.
\<close>

datatype access_event = LoadStarted nat int | Invalidated int | Served int nat

record 'a access_system =
  sy_state :: "('a \<times> nat) access_state"
  sy_running :: "(nat \<times> int \<times> 64 word) list"
  sy_done :: "(int \<times> 64 word \<times> 'a \<times> nat) list"
  sy_next :: nat
  sy_trace :: "access_event list"

definition refresh_begins :: "int \<Rightarrow> 'a access_system \<Rightarrow> 'a access_system" where
  "refresh_begins i sys = sys \<lparr> sy_running := (sy_next sys, i, userRepositoryAccessEpochForRefresh i (sy_state sys)) # sy_running sys,
     sy_next := Suc (sy_next sys), sy_trace := sy_trace sys @ [LoadStarted (sy_next sys) i] \<rparr>"

definition refresh_answered :: "nat \<Rightarrow> instant \<Rightarrow> nat \<times> int \<times> 64 word \<Rightarrow> access_error + 'a \<Rightarrow> 'a access_system \<Rightarrow> 'a access_system" where
  "refresh_answered choice now job answer sys =
     (case job of (n, i, epoch) \<Rightarrow>
        let st = load_answered choice now i epoch (map_sum id (\<lambda>x. (x, n)) answer) (sy_state sys)
        in sys \<lparr> sy_state := st, sy_running := remove1 job (sy_running sys),
             sy_done := (case answer of Inl _ \<Rightarrow> sy_done sys | Inr x \<Rightarrow> (i, epoch, x, n) # sy_done sys),
             sy_trace := sy_trace sys @ (if as_epoch st i \<noteq> as_epoch (sy_state sys) i then [Invalidated i] else []) \<rparr>)"

definition refresh_served :: "int \<times> 64 word \<times> 'a \<times> nat \<Rightarrow> 'a access_system \<Rightarrow> 'a access_system" where
  "refresh_served result sys =
     (case result of (i, epoch, x, n) \<Rightarrow>
        if userRepositoryAccessEpochMatches i epoch (sy_state sys) then sys \<lparr> sy_trace := sy_trace sys @ [Served i n] \<rparr> else sys)"

definition cache_served :: "instant \<Rightarrow> int \<Rightarrow> 'a access_system \<Rightarrow> 'a access_system" where
  "cache_served now i sys =
     (case cachedUserRepositoryAccessForRequest now i (sy_state sys) of
        (st, None) \<Rightarrow> sys \<lparr> sy_state := st \<rparr>
      | (st, Some ((x, n), refresh)) \<Rightarrow> sys \<lparr> sy_state := st, sy_trace := sy_trace sys @ [Served i n] \<rparr>)"

definition access_invalidated :: "int \<Rightarrow> 'a access_system \<Rightarrow> 'a access_system" where
  "access_invalidated i sys = sys \<lparr> sy_state := invalidateUserRepositoryAccess i (sy_state sys), sy_trace := sy_trace sys @ [Invalidated i] \<rparr>"

inductive access_step :: "'a access_system \<Rightarrow> 'a access_system \<Rightarrow> bool" where
  load_begins: "access_step sys (refresh_begins i sys)"
| load_ends: "job \<in> set (sy_running sys) \<Longrightarrow> access_step sys (refresh_answered choice now job answer sys)"
| load_used: "result \<in> set (sy_done sys) \<Longrightarrow> access_step sys (refresh_served result sys)"
| cache_used: "access_step sys (cache_served now i sys)"
| access_dropped: "access_step sys (access_invalidated i sys)"

definition empty_access :: "'a access_system" where
  "empty_access = \<lparr> sy_state = \<lparr> as_cache = [], as_epoch = (\<lambda>_. 0) \<rparr>, sy_running = [], sy_done = [], sy_next = 0, sy_trace = [] \<rparr>"

subsection \<open>Provenance\<close>

definition drops :: "int \<Rightarrow> access_event list \<Rightarrow> nat" where
  "drops i trace = length (filter (\<lambda>e. e = Invalidated i) trace)"

text \<open>A load that began in an epoch, and one since whose begin nothing was dropped.\<close>

definition started_in :: "nat \<Rightarrow> int \<Rightarrow> 64 word \<Rightarrow> access_event list \<Rightarrow> bool" where
  "started_in n i epoch trace \<longleftrightarrow> (\<exists>before after. trace = before @ LoadStarted n i # after \<and> epoch = of_nat (drops i before))"

definition current_load :: "nat \<Rightarrow> int \<Rightarrow> access_event list \<Rightarrow> bool" where
  "current_load n i trace \<longleftrightarrow> (\<exists>before after. trace = before @ LoadStarted n i # after \<and> Invalidated i \<notin> set after)"

definition served_ok :: "access_event list \<Rightarrow> bool" where
  "served_ok trace \<longleftrightarrow> (\<forall>before i n after. trace = before @ Served i n # after \<longrightarrow> current_load n i before)"

definition access_inv :: "'a access_system \<Rightarrow> bool" where
  "access_inv sys \<longleftrightarrow> (\<forall>i. as_epoch (sy_state sys) i = of_nat (drops i (sy_trace sys)))
     \<and> (\<forall>n i epoch. (n, i, epoch) \<in> set (sy_running sys) \<longrightarrow> started_in n i epoch (sy_trace sys))
     \<and> (\<forall>i epoch x n. (i, epoch, x, n) \<in> set (sy_done sys) \<longrightarrow> started_in n i epoch (sy_trace sys))
     \<and> (\<forall>i cached. (i, cached) \<in> set (as_cache (sy_state sys)) \<longrightarrow> current_load (snd (cu_access cached)) i (sy_trace sys))
     \<and> served_ok (sy_trace sys)"

lemma access_invI:
  assumes "\<And>i. as_epoch (sy_state sys) i = of_nat (drops i (sy_trace sys))"
    "\<And>n i epoch. (n, i, epoch) \<in> set (sy_running sys) \<Longrightarrow> started_in n i epoch (sy_trace sys)"
    "\<And>i epoch x n. (i, epoch, x, n) \<in> set (sy_done sys) \<Longrightarrow> started_in n i epoch (sy_trace sys)"
    "\<And>i cached. (i, cached) \<in> set (as_cache (sy_state sys)) \<Longrightarrow> current_load (snd (cu_access cached)) i (sy_trace sys)"
    "served_ok (sy_trace sys)"
  shows "access_inv sys"
  using assms by (simp add: access_inv_def)

lemma access_invD:
  assumes "access_inv sys"
  shows "as_epoch (sy_state sys) i = of_nat (drops i (sy_trace sys))"
    "(n, i, epoch) \<in> set (sy_running sys) \<Longrightarrow> started_in n i epoch (sy_trace sys)"
    "(i, epoch, x, n) \<in> set (sy_done sys) \<Longrightarrow> started_in n i epoch (sy_trace sys)"
    "(i, cached) \<in> set (as_cache (sy_state sys)) \<Longrightarrow> current_load (snd (cu_access cached)) i (sy_trace sys)"
    "served_ok (sy_trace sys)"
  using assms by (auto simp: access_inv_def)

lemma drops_append [simp]: "drops i (xs @ ys) = drops i xs + drops i ys"
  by (simp add: drops_def)

lemma drops_simps [simp]: "drops i [] = 0" "drops i (e # es) = (if e = Invalidated i then 1 else 0) + drops i es"
  by (simp_all add: drops_def)

lemma drops_0: "drops i es = 0 \<longleftrightarrow> Invalidated i \<notin> set es"
  by (induction es) auto

lemma started_in_append: "started_in n i epoch trace \<Longrightarrow> started_in n i epoch (trace @ more_events)"
  unfolding started_in_def by (metis append.assoc append_Cons)

lemma current_load_append: "current_load n i trace \<Longrightarrow> Invalidated i \<notin> set more_events \<Longrightarrow> current_load n i (trace @ more_events)"
  unfolding current_load_def by (metis Un_iff append.assoc append_Cons set_append)

text \<open>Epochs do not repeat before the counter of an account has wrapped around.\<close>

lemma started_now_current:
  assumes "started_in n i epoch trace" "epoch = of_nat (drops i trace)" "drops i trace < 2 ^ 64"
  shows "current_load n i trace"
proof -
  obtain before after where trace: "trace = before @ LoadStarted n i # after" and epoch: "epoch = of_nat (drops i before)"
    using assms(1) by (auto simp: started_in_def)
  have small: "drops i before < 2 ^ 64" using assms(3) trace by simp
  have "unat (of_nat (drops i before) :: 64 word) = unat (of_nat (drops i trace) :: 64 word)" using assms(2) epoch by simp
  then have "drops i before = drops i trace" using small assms(3) by (simp add: unat_of_nat take_bit_nat_eq_self)
  then have "drops i after = 0" by (simp add: trace)
  then show ?thesis unfolding current_load_def trace drops_0 by blast
qed

lemma cache_delete_set [simp]: "set (cache_delete i cache) = {e \<in> set cache. fst e \<noteq> i}"
  by (auto simp: cache_delete_def)

lemma cache_put_set [simp]: "set (cache_put i x cache) = insert (i, x) {e \<in> set cache. fst e \<noteq> i}"
  by (simp add: cache_put_def)

lemma evict_set: "set (evictOneUserRepositoryAccess choice cache) \<subseteq> set cache"
  by (auto simp: evictOneUserRepositoryAccess_def)

text \<open>What may happen to the content of the cache.\<close>

lemma served_ok_snoc: "served_ok (trace @ [e]) \<longleftrightarrow> served_ok trace \<and> (\<forall>i n. e = Served i n \<longrightarrow> current_load n i trace)"
proof -
  have split: "trace @ [e] = before @ x # after \<longleftrightarrow> (after = [] \<and> trace = before \<and> e = x) \<or> (\<exists>us. after = us @ [e] \<and> trace = before @ x # us)" for before x after
    by (cases after rule: rev_cases) auto
  show ?thesis unfolding served_ok_def split by blast
qed

lemma access_inv_begins: "access_inv sys \<Longrightarrow> access_inv (refresh_begins i sys)"
proof (rule access_invI)
  assume inv: "access_inv sys"
  note D = access_invD [OF inv]
  show "as_epoch (sy_state (refresh_begins i sys)) k = of_nat (drops k (sy_trace (refresh_begins i sys)))" for k
    using D(1) by (simp add: refresh_begins_def)
  have new: "started_in (sy_next sys) i (as_epoch (sy_state sys) i) (sy_trace sys @ [LoadStarted (sy_next sys) i])"
    using D(1) by (auto simp: started_in_def)
  show "started_in n k epoch (sy_trace (refresh_begins i sys))" if "(n, k, epoch) \<in> set (sy_running (refresh_begins i sys))" for n k epoch
    using that new D(2) by (auto simp: refresh_begins_def userRepositoryAccessEpochForRefresh_def intro: started_in_append)
  show "started_in n k epoch (sy_trace (refresh_begins i sys))" if "(k, epoch, x, n) \<in> set (sy_done (refresh_begins i sys))" for n k epoch x
    using that D(3) by (auto simp: refresh_begins_def intro: started_in_append)
  show "current_load (snd (cu_access cached)) k (sy_trace (refresh_begins i sys))" if "(k, cached) \<in> set (as_cache (sy_state (refresh_begins i sys)))" for k cached
    using that D(4) by (auto simp: refresh_begins_def intro: current_load_append)
  show "served_ok (sy_trace (refresh_begins i sys))" using D(5) by (simp add: refresh_begins_def served_ok_snoc)
qed

lemma access_inv_invalidated: "access_inv sys \<Longrightarrow> access_inv (access_invalidated i sys)"
proof (rule access_invI)
  assume inv: "access_inv sys"
  note D = access_invD [OF inv]
  show "as_epoch (sy_state (access_invalidated i sys)) k = of_nat (drops k (sy_trace (access_invalidated i sys)))" for k
    using D(1) by (simp add: access_invalidated_def invalidateUserRepositoryAccess_def)
  show "started_in n k epoch (sy_trace (access_invalidated i sys))" if "(n, k, epoch) \<in> set (sy_running (access_invalidated i sys))" for n k epoch
    using that D(2) by (auto simp: access_invalidated_def intro: started_in_append)
  show "started_in n k epoch (sy_trace (access_invalidated i sys))" if "(k, epoch, x, n) \<in> set (sy_done (access_invalidated i sys))" for n k epoch x
    using that D(3) by (auto simp: access_invalidated_def intro: started_in_append)
  show "current_load (snd (cu_access cached)) k (sy_trace (access_invalidated i sys))" if "(k, cached) \<in> set (as_cache (sy_state (access_invalidated i sys)))" for k cached
    using that D(4) by (auto simp: access_invalidated_def invalidateUserRepositoryAccess_def intro!: current_load_append)
  show "served_ok (sy_trace (access_invalidated i sys))" using D(5) by (simp add: access_invalidated_def served_ok_snoc)
qed

text \<open>A change of the cache that only keeps what is current.\<close>

lemma access_inv_cache:
  assumes "access_inv sys" "as_epoch st = as_epoch (sy_state sys)"
    "\<And>i cached. (i, cached) \<in> set (as_cache st) \<Longrightarrow> current_load (snd (cu_access cached)) i (sy_trace sys)"
  shows "access_inv (sys \<lparr> sy_state := st \<rparr>)"
  using assms by (simp add: access_inv_def)

lemma access_inv_serve: "access_inv sys \<Longrightarrow> current_load n i (sy_trace sys) \<Longrightarrow> access_inv (sys \<lparr> sy_trace := sy_trace sys @ [Served i n] \<rparr>)"
  by (auto simp: access_inv_def served_ok_snoc intro: started_in_append current_load_append)

lemma access_inv_served:
  assumes "access_inv sys" "result \<in> set (sy_done sys)" "\<forall>i. drops i (sy_trace sys) < 2 ^ 64"
  shows "access_inv (refresh_served result sys)"
proof -
  obtain i epoch x n where result: "result = (i, epoch, x, n)" by (metis prod_cases4)
  note D = access_invD [OF assms(1)]
  have "current_load n i (sy_trace sys)" if "as_epoch (sy_state sys) i = epoch"
    using started_now_current [OF D(3)] assms(2,3) that D(1) by (simp add: result)
  then show ?thesis using assms(1) access_inv_serve [OF assms(1)] by (auto simp: refresh_served_def result userRepositoryAccessEpochMatches_def)
qed

lemma access_inv_cache_served:
  assumes inv: "access_inv sys"
  shows "access_inv (cache_served now i sys)"
proof (cases "map_of (as_cache (sy_state sys)) i")
  case None
  then show ?thesis using inv by (simp add: cache_served_def cachedUserRepositoryAccessForRequest_def)
next
  case (Some cached)
  note D = access_invD [OF inv]
  let ?deleted = "sy_state sys \<lparr> as_cache := cache_delete i (as_cache (sy_state sys)) \<rparr>"
  let ?marked = "sy_state sys \<lparr> as_cache := cache_put i (cached \<lparr> cu_refreshing := True \<rparr>) (as_cache (sy_state sys)) \<rparr>"
  have current: "current_load (snd (cu_access cached)) i (sy_trace sys)" using D(4) [OF map_of_SomeD [OF Some]] .
  have ok: "access_inv (sys \<lparr> sy_state := ?deleted \<rparr>)" "access_inv (sys \<lparr> sy_state := ?marked \<rparr>)"
    using D(4) current by (auto intro!: access_inv_cache [OF inv])
  have "access_inv (sys \<lparr> sy_state := ?marked, sy_trace := sy_trace sys @ [Served i (snd (cu_access cached))] \<rparr>)"
    using access_inv_serve [OF ok(2)] current by simp
  then show ?thesis
    using Some ok access_inv_serve [OF inv current] by (auto simp: cache_served_def cachedUserRepositoryAccessForRequest_def Let_def split: prod.split)
qed


lemma access_inv_loads:
  assumes "access_inv sys" "set running \<subseteq> set (sy_running sys)"
    "\<And>i epoch x n. (i, epoch, x, n) \<in> set results \<Longrightarrow> started_in n i epoch (sy_trace sys)"
  shows "access_inv (sys \<lparr> sy_running := running, sy_done := results \<rparr>)"
  using assms by (auto simp: access_inv_def)

lemma load_answered_ok:
  assumes inv: "access_inv sys" and job: "started_in n i epoch (sy_trace sys)" and small: "\<forall>i. drops i (sy_trace sys) < 2 ^ 64"
    and st: "st = load_answered choice now i epoch (map_sum id (\<lambda>x. (x, n)) answer) (sy_state sys)"
  shows "access_inv (sys \<lparr> sy_state := st, sy_trace := sy_trace sys @ (if as_epoch st i \<noteq> as_epoch (sy_state sys) i then [Invalidated i] else []) \<rparr>)"
proof (cases "as_epoch (sy_state sys) i = epoch")
  case False
  then have "st = sy_state sys"
    by (auto simp: st load_answered_def invalidateUserRepositoryAccessIfCurrent_def finishUserRepositoryAccessRefresh_def cacheUserRepositoryAccessIfCurrent_def split: sum.split)
  then show ?thesis using inv by simp
next
  case True
  note D = access_invD [OF inv]
  have current: "current_load n i (sy_trace sys)" using started_now_current [OF job] small True D(1) by simp
  show ?thesis
  proof (cases answer)
    case (Inr x)
    let ?cache = "if map_of (as_cache (sy_state sys)) i = None \<and> length (as_cache (sy_state sys)) \<ge> maxUserRepositoryAccessCacheItems
      then evictOneUserRepositoryAccess choice (as_cache (sy_state sys)) else as_cache (sy_state sys)"
    have "set ?cache \<subseteq> set (as_cache (sy_state sys))" using evict_set by auto
    then have "access_inv (sys \<lparr> sy_state := st \<rparr>)" "as_epoch st i = as_epoch (sy_state sys) i"
      using True current D(4) by (auto simp: st load_answered_def Inr cacheUserRepositoryAccessIfCurrent_def Let_def intro!: access_inv_cache [OF inv])
        (meson D(4) evict_set subsetD)
    then show ?thesis by simp
  next
    case (Inl err)
    show ?thesis
    proof (cases "isRejectedGitHubUserAccess err")
      case rejected: True
      then have "st = invalidateUserRepositoryAccess i (sy_state sys)"
        using True Inl by (simp add: st load_answered_def invalidateUserRepositoryAccessIfCurrent_def)
      moreover from this have "as_epoch st i \<noteq> as_epoch (sy_state sys) i" by (simp add: invalidateUserRepositoryAccess_def)
      ultimately show ?thesis using access_inv_invalidated [OF inv, of i] by (simp add: access_invalidated_def)
    next
      case other: False
      then have "st = finishUserRepositoryAccessRefresh now i epoch (sy_state sys)" using Inl by (simp add: st load_answered_def)
      then have "access_inv (sys \<lparr> sy_state := st \<rparr>)" "as_epoch st i = as_epoch (sy_state sys) i"
        using True D(4) inv by (auto simp: finishUserRepositoryAccessRefresh_def Let_def intro!: access_inv_cache [OF inv] split: option.split dest!: map_of_SomeD)
      then show ?thesis by simp
    qed
  qed
qed

lemma access_inv_answered:
  assumes inv: "access_inv sys" and job: "job \<in> set (sy_running sys)" and small: "\<forall>i. drops i (sy_trace sys) < 2 ^ 64"
  shows "access_inv (refresh_answered choice now job answer sys)"
proof -
  obtain n i epoch where j: "job = (n, i, epoch)" by (metis prod_cases3)
  have started: "started_in n i epoch (sy_trace sys)" using access_invD(2) [OF inv] job by (simp add: j)
  define st where "st = load_answered choice now i epoch (map_sum id (\<lambda>x. (x, n)) answer) (sy_state sys)"
  define events where "events = (if as_epoch st i \<noteq> as_epoch (sy_state sys) i then [Invalidated i] else [])"
  define results where "results = (case answer of Inl _ \<Rightarrow> sy_done sys | Inr x \<Rightarrow> (i, epoch, x, n) # sy_done sys)"
  have "access_inv (sys \<lparr> sy_state := st, sy_trace := sy_trace sys @ events \<rparr>)"
    unfolding events_def by (rule load_answered_ok [OF inv started small st_def])
  moreover have "started_in m k w (sy_trace sys @ events)" if "(k, w, x, m) \<in> set results" for k w x m
    using that access_invD(3) [OF inv] started by (auto simp: results_def intro!: started_in_append split: sum.splits)
  ultimately have "access_inv (sys \<lparr> sy_state := st, sy_running := remove1 job (sy_running sys), sy_done := results, sy_trace := sy_trace sys @ events \<rparr>)"
    using set_remove1_subset [of job "sy_running sys"] by (auto simp: access_inv_def)
  then show ?thesis by (simp only: refresh_answered_def j Let_def prod.case st_def events_def results_def)
qed

lemma access_step_inv:
  assumes "access_step sys sys'" "access_inv sys" "\<forall>i. drops i (sy_trace sys) < 2 ^ 64"
  shows "access_inv sys'"
  using assms
  by (induction rule: access_step.induct) (simp_all add: access_inv_begins access_inv_answered access_inv_served access_inv_cache_served access_inv_invalidated)

lemma access_step_trace: "access_step sys sys' \<Longrightarrow> \<exists>events. sy_trace sys' = sy_trace sys @ events"
  by (induction rule: access_step.induct)
    (auto simp: refresh_begins_def refresh_answered_def refresh_served_def cache_served_def access_invalidated_def Let_def split: prod.split option.split)

lemma access_reachable_inv:
  assumes "access_step\<^sup>*\<^sup>* empty_access sys" "\<forall>i. drops i (sy_trace sys) < 2 ^ 64"
  shows "access_inv sys"
  using assms
proof (induction rule: rtranclp_induct)
  case base
  then show ?case by (simp add: access_inv_def empty_access_def served_ok_def)
next
  case (step sys1 sys2)
  obtain events where "sy_trace sys2 = sy_trace sys1 @ events" using access_step_trace [OF step.hyps(2)] by blast
  then have "\<forall>i. drops i (sy_trace sys1) < 2 ^ 64" using step.prems by (metis drops_append le_add1 order_le_less_trans)
  then show ?case using access_step_inv [OF step.hyps(2)] step.IH by blast
qed

subsection \<open>What is loaded and kept\<close>

lemma unique_repositories_iff:
  assumes "TrimSpace r \<noteq> []" "ToLower (TrimSpace r) \<notin> set seen"
  shows "(\<exists>c\<in>set (unique_repositories seen items). EqualFold (TrimSpace c) (TrimSpace r)) \<longleftrightarrow> (\<exists>c\<in>set items. EqualFold (TrimSpace c) (TrimSpace r))"
  using assms
proof (induction seen items rule: unique_repositories.induct)
  case (2 seen c cs)
  show ?case
  proof (cases "EqualFold (TrimSpace c) (TrimSpace r)")
    case True
    then have "TrimSpace c \<noteq> []" "ToLower (TrimSpace c) \<notin> set seen" using 2(3,4) by (auto simp: EqualFold_def ToLower_def)
    then show ?thesis using True by (simp add: Let_def)
  next
    case False
    then have "ToLower (TrimSpace c) \<noteq> ToLower (TrimSpace r)" by (simp add: EqualFold_def)
    then show ?thesis using 2 False by (cases "TrimSpace c = [] \<or> ToLower (TrimSpace c) \<in> set seen") (auto simp: Let_def)
  qed
qed simp

text \<open>Access to a repository is what GitHub listed for the installation, whatever the case of the letters; an installation that GitHub denies gives none.\<close>

lemma load_installations_exact:
  assumes "load_installations gh ids = Inr access" "TrimSpace r \<noteq> []"
  shows "hasRepositoryAccess access i r \<longleftrightarrow> i \<in> set ids \<and> (\<exists>items. gh i = Inr items \<and> (\<exists>c\<in>set items. EqualFold (TrimSpace c) (TrimSpace r)))"
  using assms(1)
proof (induction ids arbitrary: access)
  case Nil
  then show ?case by (simp add: hasRepositoryAccess_def)
next
  case (Cons k ids)
  show ?case
  proof (cases "gh k")
    case (Inl err)
    then have "load_installations gh ids = Inr access" using Cons.prems by (simp split: if_splits)
    then show ?thesis using Cons.IH Inl by auto
  next
    case (Inr items)
    then obtain rest where rest: "load_installations gh ids = Inr rest"
      and access: "access = (if unique_repositories [] items \<noteq> [] then \<lparr> ra_InstallationID = k, ra_Repositories = unique_repositories [] items \<rparr> # rest else rest)"
      using Cons.prems by (auto simp: Let_def split: sum.splits)
    have "hasRepositoryAccess access i r \<longleftrightarrow> (i = k \<and> (\<exists>c\<in>set items. EqualFold (TrimSpace c) (TrimSpace r))) \<or> hasRepositoryAccess rest i r"
      using unique_repositories_iff [of r "[]" items] assms(2) by (auto simp: access hasRepositoryAccess_def list_ex_iff)
    then show ?thesis using Cons.IH [OF rest] Inr by auto
  qed
qed

definition cache_bounded :: "'a access_state \<Rightarrow> bool" where
  "cache_bounded st \<longleftrightarrow> distinct (map fst (as_cache st)) \<and> length (as_cache st) \<le> maxUserRepositoryAccessCacheItems"

lemma cache_delete_bounded: "distinct (map fst c) \<Longrightarrow> distinct (map fst (cache_delete i c))" "length (cache_delete i c) \<le> length c"
  by (simp_all add: cache_delete_def distinct_map_filter)

lemma cache_delete_less: "e \<in> set c \<Longrightarrow> length (cache_delete (fst e) c) < length c"
  unfolding cache_delete_def by (rule length_filter_less [of e]) simp_all

lemma cache_put_bounded:
  assumes "distinct (map fst c)" "length c \<le> m" "i \<in> fst ` set c \<or> length c < m"
  shows "distinct (map fst (cache_put i x c)) \<and> length (cache_put i x c) \<le> m"
proof -
  have "length (cache_delete i c) < m" using assms(2,3) cache_delete_less cache_delete_bounded(2) [of i c] by force
  then show ?thesis using cache_delete_bounded(1) [OF assms(1)] by (auto simp: cache_put_def)
qed

lemma cacheIfCurrent_bounded:
  assumes "cache_bounded st"
  shows "cache_bounded (fst (cacheUserRepositoryAccessIfCurrent choice now i epoch access st))"
proof -
  let ?c = "as_cache st"
  have c: "distinct (map fst ?c)" "length ?c \<le> maxUserRepositoryAccessCacheItems" using assms by (auto simp: cache_bounded_def)
  define d where "d = (if map_of ?c i = None \<and> length ?c \<ge> maxUserRepositoryAccessCacheItems then evictOneUserRepositoryAccess choice ?c else ?c)"
  have "distinct (map fst d) \<and> length d \<le> maxUserRepositoryAccessCacheItems \<and> (i \<in> fst ` set d \<or> length d < maxUserRepositoryAccessCacheItems)"
  proof (cases "map_of ?c i = None \<and> length ?c \<ge> maxUserRepositoryAccessCacheItems")
    case True
    then have "?c \<noteq> []" by (auto simp: maxUserRepositoryAccessCacheItems_def)
    then have "length d < length ?c" "distinct (map fst d)"
      using True cache_delete_less [OF nth_mem, of "choice mod length ?c" ?c] cache_delete_bounded(1) [OF c(1)] by (simp_all add: d_def evictOneUserRepositoryAccess_def)
    then show ?thesis using c by simp
  next
    case False
    then have "d = ?c" unfolding d_def by (rule if_not_P)
    then show ?thesis using False c by (auto simp: map_of_eq_None_iff)
  qed
  then show ?thesis
    using assms cache_put_bounded [of d maxUserRepositoryAccessCacheItems i]
    by (auto simp: cacheUserRepositoryAccessIfCurrent_def Let_def cache_bounded_def d_def [symmetric])
qed

text \<open>C6: what the server knows of a user's repositories is never served past an invalidation: every answer that a request gets, from the cache or from a load it waited
  for, comes from a load that began after the last time the user's access was dropped, however loads, requests, failures and invalidations interleave, until the 64-bit epoch
  of an account has wrapped around.\<close>

theorem served_access_is_current:
  assumes "access_step\<^sup>*\<^sup>* empty_access sys" "\<forall>i. drops i (sy_trace sys) < 2 ^ 64" "sy_trace sys = before @ Served i n # after"
  shows "\<exists>p q. before = p @ LoadStarted n i # q \<and> Invalidated i \<notin> set q"
  using access_invD(5) [OF access_reachable_inv [OF assms(1,2)]] assms(3) by (auto simp: served_ok_def current_load_def)


definition sample_access :: "string access_system" where
  "sample_access = refresh_served (7, 1, ''after'', 1) (refresh_answered 0 6 (1, 7, 1) (Inr ''after'') (refresh_begins 7
     (access_invalidated 7 (refresh_answered 0 2 (0, 7, 0) (Inr ''before'') (refresh_begins 7 empty_access)))))"

lemma sample_access_trace: "sy_trace sample_access = [LoadStarted 0 7, Invalidated 7, LoadStarted 1 7] @ Served 7 1 # []"
  by code_simp

lemma sample_access_reachable: "access_step\<^sup>*\<^sup>* empty_access sample_access"
proof -
  let ?a = "refresh_begins 7 (empty_access :: string access_system)"
  let ?b = "refresh_answered 0 2 (0, 7, 0) (Inr ''before'') ?a"
  let ?c = "refresh_begins 7 (access_invalidated 7 ?b)"
  let ?d = "refresh_answered 0 6 (1, 7, 1) (Inr ''after'') ?c"
  have members: "(0, 7, 0) \<in> set (sy_running ?a)" "(1, 7, 1) \<in> set (sy_running ?c)" "(7, 1, ''after'', 1) \<in> set (sy_done ?d)" by code_simp+
  have "access_step\<^sup>*\<^sup>* empty_access ?a" by (rule r_into_rtranclp) (rule load_begins)
  also have "access_step ?a ?b" using members(1) by (rule load_ends)
  also have "access_step ?b (access_invalidated 7 ?b)" by (rule access_dropped)
  also have "access_step (access_invalidated 7 ?b) ?c" by (rule load_begins)
  also have "access_step ?c ?d" using members(2) by (rule load_ends)
  also have "access_step ?d sample_access" unfolding sample_access_def using members(3) by (rule load_used)
  finally show ?thesis .
qed

theorem served_access_is_current_witness:
  "\<exists>p q. [LoadStarted 0 7, Invalidated 7, LoadStarted 1 7] = p @ LoadStarted 1 7 # q \<and> Invalidated 7 \<notin> set q"
  by (rule served_access_is_current [OF sample_access_reachable _ sample_access_trace]) (simp add: sample_access_trace)

end
