(* ===== verification/DeploymentSources.thy ===== *)
theory DeploymentSources
  imports DeploymentQueries CacheScopes
begin

text \<open>
  What a deployment is made from: the checks on a request, the names of branches, tags and pull requests, the commit that is pinned
  (\<^verbatim>\<open>internal/server/server_deployment_sources.go\<close>, \<^verbatim>\<open>internal/github/deployment_sources.go\<close> and the pure functions
  of \<^verbatim>\<open>internal/server/server_deployments.go\<close>). GitHub's answers, SHA-256 and JSON are parameters.
\<close>

subsection \<open>Requests\<close>

definition minDeploymentTTL_seconds :: int where "minDeploymentTTL_seconds = 300"
definition maxDeploymentTTL_seconds :: int where "maxDeploymentTTL_seconds = 86400"
definition defaultDeploymentTTL_seconds :: int where "defaultDeploymentTTL_seconds = 3600"
definition DefaultPath :: string where "DefaultPath = ''.qiniu/deploy.yaml''"

record createDeploymentRequest =
  cr_CommitSHA :: string
  cr_InstallationID :: int
  cr_RepositoryFullName :: string
  cr_Ref :: string
  cr_Source :: string
  cr_ConfigPath :: string
  cr_TTLSeconds :: int
  cr_TemplateID :: string
  cr_TemplateName :: string
  cr_TemplateCPU :: int
  cr_TemplateMemoryMB :: int
  cr_TemplateDiskMB :: int

definition deploymentPullRequestNumber :: "string \<Rightarrow> int" where
  "deploymentPullRequestNumber ref =
     (if \<not> HasPrefix ref ''refs/pull/'' \<or> \<not> HasSuffix ref ''/head'' then 0
      else
        case ParseInt (TrimSuffix (TrimPrefix ref ''refs/pull/'') ''/head'') of
             None \<Rightarrow> 0
           | Some number \<Rightarrow> if number \<le> 0 \<or> ''refs/pull/'' @ int_dec number @ ''/head'' \<noteq> ref then 0 else number)"

definition validDeploymentSHA :: "string \<Rightarrow> bool" where
  "validDeploymentSHA sha \<longleftrightarrow> length sha = 40 \<and> sha = ToLower sha \<and> hex_decode sha \<noteq> None"

definition normalizeDeploymentRef :: "string \<Rightarrow> string \<Rightarrow> string" where
  "normalizeDeploymentRef ref0 source =
     (let ref = TrimSpace ref0
      in if source = ''branch'' then ''refs/heads/'' @ ref
         else if source = ''tag'' then ''refs/tags/'' @ ref
         else if source = ''pull_request'' then ''refs/pull/'' @ ref @ ''/head''
         else ref)"

definition normalizeDeploymentConfigPath :: "string \<Rightarrow> string" where
  "normalizeDeploymentConfigPath value0 =
     (let value = TrimSpace value0
      in if value = [] then DefaultPath
         else if HasPrefix value ''/'' \<or> length value > 1024 \<or> has_control value \<or> CHR 0x5C \<in> set value then []
         else let clean = path_Clean value
              in if clean = ''.'' \<or> clean = ''..'' \<or> HasPrefix clean ''../'' then [] else clean)"

definition repository_name_invalid :: "string \<Rightarrow> bool" where
  "repository_name_invalid name \<longleftrightarrow>
     (case Split (CHR ''/'') (TrimSpace name) of [a, b] \<Rightarrow> a = [] \<or> b = [] | _ \<Rightarrow> True)
     \<or> ContainsAny name [CHR 0x5C, CHR ''?'', CHR ''#'', CHR ''%''] \<or> list_ex is_space name \<or> has_control name"

definition ttl_invalid :: "int \<Rightarrow> bool" where
  "ttl_invalid ttl \<longleftrightarrow> ttl < 0 \<or> (ttl > 0 \<and> (ttl < minDeploymentTTL_seconds \<or> ttl > maxDeploymentTTL_seconds))"

definition validateCreateDeploymentRequest :: "createDeploymentRequest \<Rightarrow> string option" where
  "validateCreateDeploymentRequest input =
     (if cr_Source input \<notin> {[], ''branch'', ''tag'', ''pull_request''} then Some ''source must be branch, tag or pull_request''
      else if cr_CommitSHA input \<noteq> [] \<and> \<not> validDeploymentSHA (cr_CommitSHA input) then Some ''commit_sha must be a full lowercase SHA''
      else if cr_Source input = ''pull_request'' \<and>
        (case ParseInt (cr_Ref input) of None \<Rightarrow> True | Some number \<Rightarrow> number \<le> 0 \<or> int_dec number \<noteq> cr_Ref input)
      then Some ''pull request ref must be a positive number''
      else if cr_Source input = [] \<and> HasPrefix (cr_Ref input) ''refs/pull/'' then Some ''pull requests require source pull_request''
      else if length (cr_TemplateID input) > 256 \<or> has_control (cr_TemplateID input) then Some ''template_id is invalid''
      else if length (cr_TemplateName input) > 256 \<or> has_control (cr_TemplateName input) then Some ''template_name is invalid''
      else if cr_TemplateCPU input < 0 \<or> cr_TemplateMemoryMB input < 0 \<or> cr_TemplateDiskMB input < 0 then Some ''template resources are invalid''
      else if cr_InstallationID input \<le> 0 then Some ''installation_id is required''
      else if repository_name_invalid (cr_RepositoryFullName input) then Some ''repository_full_name must be owner/repository''
      else if TrimSpace (cr_Ref input) = [] \<or> length (normalizeDeploymentRef (cr_Ref input) (cr_Source input)) > 256 \<or> has_control (cr_Ref input)
      then Some ''ref must be non-empty and at most 256 bytes including its source prefix''
      else if normalizeDeploymentConfigPath (cr_ConfigPath input) = [] then Some ''config_path is invalid''
      else if ttl_invalid (cr_TTLSeconds input)
      then Some (''ttl_seconds must be between '' @ int_dec minDeploymentTTL_seconds @ '' and '' @ int_dec maxDeploymentTTL_seconds)
      else None)"

definition normalize_request :: "createDeploymentRequest \<Rightarrow> createDeploymentRequest" where
  "normalize_request input = input \<lparr> cr_Ref := normalizeDeploymentRef (cr_Ref input) (cr_Source input), cr_TemplateID := TrimSpace (cr_TemplateID input),
     cr_TemplateName := TrimSpace (cr_TemplateName input), cr_RepositoryFullName := TrimSpace (cr_RepositoryFullName input),
     cr_ConfigPath := normalizeDeploymentConfigPath (cr_ConfigPath input) \<rparr>"

text \<open>What a request is recognized by when it is repeated, before it is hashed.\<close>

record request_identity =
  ri_InstallationID :: int
  ri_RepositoryID :: int
  ri_Ref :: string
  ri_CommitSHA :: string
  ri_ConfigPath :: string
  ri_TemplateID :: string
  ri_TTLSeconds :: int

definition deploymentCreateRequestHash :: "(request_identity \<Rightarrow> string) \<Rightarrow> createDeploymentRequest \<Rightarrow> int \<Rightarrow> int \<Rightarrow> string" where
  "deploymentCreateRequestHash sha input installationID repositoryID =
     sha \<lparr> ri_InstallationID = installationID, ri_RepositoryID = repositoryID, ri_Ref = TrimSpace (cr_Ref input), ri_CommitSHA = cr_CommitSHA input,
           ri_ConfigPath = normalizeDeploymentConfigPath (cr_ConfigPath input), ri_TemplateID = TrimSpace (cr_TemplateID input),
           ri_TTLSeconds = (if cr_TTLSeconds input = 0 then defaultDeploymentTTL_seconds else cr_TTLSeconds input) \<rparr>"

text \<open>The repository of the installation with the name that was asked for.\<close>

definition repository_matches :: "string \<Rightarrow> githubInstallationRecord \<Rightarrow> SourceRepository \<Rightarrow> bool" where
  "repository_matches requested installation repository \<longleftrightarrow>
     EqualFold (TrimSpace (gr_FullName repository)) (TrimSpace requested) \<and> gr_ID repository > 0
     \<and> \<not> (TrimSpace (gi_AccountLogin installation) \<noteq> [] \<and> \<not> EqualFold (TrimSpace (gi_AccountLogin installation)) (TrimSpace (ga_Login (gr_Owner repository))))
     \<and> \<not> (gi_GitHubAccountID installation > 0 \<and> ga_ID (gr_Owner repository) > 0 \<and> gi_GitHubAccountID installation \<noteq> ga_ID (gr_Owner repository))"

definition deploymentRepositoryAccess :: "SourceRepository list \<Rightarrow> string \<Rightarrow> githubInstallationRecord \<Rightarrow> SourceRepository option" where
  "deploymentRepositoryAccess repositories requested installation = find (repository_matches requested installation) repositories"

subsection \<open>Answers\<close>

text \<open>How a deployment's ref is shown: its kind and its short name.\<close>

definition response_ref :: "string \<Rightarrow> string \<times> string" where
  "response_ref full =
     (let (source, ref) = (if HasPrefix full ''refs/heads/'' then (''branch'', TrimPrefix full ''refs/heads/'')
                           else if HasPrefix full ''refs/tags/'' then (''tag'', TrimPrefix full ''refs/tags/'') else ([], full))
      in if deploymentPullRequestNumber ref > 0 then (''pull_request'', int_dec (deploymentPullRequestNumber ref)) else (source, ref))"

definition deploymentEndpointAccess :: "string \<Rightarrow> string" where
  "deploymentEndpointAccess endpoint = (if TrimSpace endpoint = [] then [] else ''public'')"

text \<open>The part of the JSON answer that is not a field of the deployment as it is.\<close>

record deploymentResponse =
  dz_Deployment :: Deployment
  dz_Source :: string
  dz_Ref :: string
  dz_PullRequestNumber :: int
  dz_EndpointAccess :: string
  dz_RevisionNumber :: int

definition deploymentResponseFromState :: "Deployment \<Rightarrow> deploymentResponse" where
  "deploymentResponseFromState item =
     (case response_ref (dm_Ref item) of (source, ref) \<Rightarrow>
        \<lparr> dz_Deployment = item, dz_Source = source, dz_Ref = ref, dz_PullRequestNumber = deploymentPullRequestNumber (dm_Ref item),
          dz_EndpointAccess = deploymentEndpointAccess (dm_Endpoint item), dz_RevisionNumber = max (dm_RevisionNumber item) 1 \<rparr>)"

subsection \<open>The commit\<close>

datatype source_error = DeploymentSourceChanged | SourceError string

record pull_head =
  ph_Number :: int
  ph_Title :: string
  ph_BaseID :: int
  ph_BaseFullName :: string
  ph_HeadID :: int
  ph_HeadFullName :: string
  ph_HeadSHA :: string
  ph_HeadRef :: string

record deploymentSourceSnapshot =
  ds_CommitSHA :: string
  ds_RepositoryID :: int
  ds_RepositoryFullName :: string
  ds_Ref :: string
  ds_PullRequestTitle :: string

record source_client =
  sl_GetPullRequest :: "string \<Rightarrow> int \<Rightarrow> source_error + pull_head"
  sl_ResolveCommit :: "string \<Rightarrow> string \<Rightarrow> source_error + string"
  sl_commits :: "string \<Rightarrow> int \<Rightarrow> nat \<Rightarrow> source_error + string list \<times> bool"
  sl_merge_base :: "string \<Rightarrow> string \<Rightarrow> string \<Rightarrow> source_error + string"

text \<open>The commits of a pull request: at most three pages of a hundred, and of those the first 250.\<close>

fun contains_commit :: "(nat \<Rightarrow> source_error + string list \<times> bool) \<Rightarrow> string \<Rightarrow> nat list \<Rightarrow> source_error + bool" where
  "contains_commit pages sha [] = Inr False"
| "contains_commit pages sha (page # rest) =
     (case pages page of
        Inl e \<Rightarrow> Inl e
      | Inr (entries, more_left) \<Rightarrow>
          if length entries > 100 then Inl (SourceError ''pull request commit page exceeds limit'')
          else if sha \<in> set (take (250 - (page - 1) * 100) entries) then Inr True
          else if \<not> more_left then Inr False
          else contains_commit pages sha rest)"

definition PullRequestContainsCommit :: "source_client \<Rightarrow> string \<Rightarrow> int \<Rightarrow> string \<Rightarrow> source_error + bool" where
  "PullRequestContainsCommit gh repository number sha = contains_commit (sl_commits gh repository number) sha [1, 2, 3]"

definition IsDeploymentAncestor :: "source_client \<Rightarrow> string \<Rightarrow> string \<Rightarrow> string \<Rightarrow> source_error + bool" where
  "IsDeploymentAncestor gh repository sha head = map_sum id (\<lambda>base. base = sha) (sl_merge_base gh repository sha head)"

definition pull_identity_ok :: "SourceRepository \<Rightarrow> int \<Rightarrow> pull_head \<Rightarrow> bool" where
  "pull_identity_ok repository number pull \<longleftrightarrow> ph_Number pull = number \<and> ph_BaseID pull = gr_ID repository
     \<and> EqualFold (ph_BaseFullName pull) (gr_FullName repository) \<and> ph_HeadID pull > 0 \<and> validDeploymentSHA (ph_HeadSHA pull) \<and> ph_HeadRef pull \<noteq> []"

definition head_repository_ok :: "string \<Rightarrow> bool" where
  "head_repository_ok name \<longleftrightarrow> (case Split (CHR ''/'') name of [a, b] \<Rightarrow> a \<noteq> [] \<and> b \<noteq> [] | _ \<Rightarrow> False) \<and> length name \<le> 256
     \<and> \<not> ContainsAny name [CHR 0x5C, CHR ''?'', CHR ''#'', CHR ''%'', CHR 0x0D, CHR 0x0A]"

definition pull_source :: "source_client \<Rightarrow> SourceRepository \<Rightarrow> int \<Rightarrow> source_error + deploymentSourceSnapshot" where
  "pull_source gh repository number =
     (case sl_GetPullRequest gh (gr_FullName repository) number of
        Inl e \<Rightarrow> Inl e
      | Inr pull \<Rightarrow>
          if \<not> pull_identity_ok repository number pull then Inl (SourceError ''pull request source identity is unavailable'')
          else if \<not> head_repository_ok (ph_HeadFullName pull) then Inl (SourceError ''invalid pull request source repository'')
          else Inr \<lparr> ds_CommitSHA = ph_HeadSHA pull, ds_RepositoryID = ph_HeadID pull, ds_RepositoryFullName = ph_HeadFullName pull,
                     ds_Ref = ph_HeadRef pull, ds_PullRequestTitle = TrimSpace (ph_Title pull) \<rparr>)"

definition no_source :: deploymentSourceSnapshot where
  "no_source = \<lparr> ds_CommitSHA = [], ds_RepositoryID = 0, ds_RepositoryFullName = [], ds_Ref = [], ds_PullRequestTitle = [] \<rparr>"

definition commit_allowed :: "source_client \<Rightarrow> SourceRepository \<Rightarrow> string \<Rightarrow> string \<Rightarrow> string \<Rightarrow> source_error + bool" where
  "commit_allowed gh repository ref requestedSHA head =
     (if deploymentPullRequestNumber ref > 0 then PullRequestContainsCommit gh (gr_FullName repository) (deploymentPullRequestNumber ref) requestedSHA
      else if HasPrefix ref ''refs/heads/'' then IsDeploymentAncestor gh (gr_FullName repository) requestedSHA head
      else Inr False)"

definition resolveDeploymentSource :: "source_client \<Rightarrow> SourceRepository \<Rightarrow> string \<Rightarrow> string \<Rightarrow> source_error + deploymentSourceSnapshot" where
  "resolveDeploymentSource gh repository ref requestedSHA =
     (let number = deploymentPullRequestNumber ref
      in case (if number > 0 then pull_source gh repository number else Inr no_source) of
           Inl e \<Rightarrow> Inl e
         | Inr source \<Rightarrow>
             (case sl_ResolveCommit gh (gr_FullName repository) ref of
                Inl e \<Rightarrow> Inl e
              | Inr head \<Rightarrow>
                  if number > 0 \<and> ds_CommitSHA source \<noteq> head then Inl DeploymentSourceChanged
                  else if requestedSHA = [] \<or> requestedSHA = head then Inr (source \<lparr> ds_CommitSHA := head \<rparr>)
                  else (case commit_allowed gh repository ref requestedSHA head of
                          Inl e \<Rightarrow> Inl e
                        | Inr allowed \<Rightarrow> if \<not> allowed then Inl DeploymentSourceChanged else Inr (source \<lparr> ds_CommitSHA := requestedSHA \<rparr>))))"

subsection \<open>The commit is pinned\<close>

lemma commit_allowed_spec:
  assumes "commit_allowed gh repository ref sha head = Inr True"
  shows "if deploymentPullRequestNumber ref > 0
    then \<exists>page entries more_left. page \<in> {1, 2, 3} \<and> sl_commits gh (gr_FullName repository) (deploymentPullRequestNumber ref) page = Inr (entries, more_left) \<and> sha \<in> set entries
    else HasPrefix ref ''refs/heads/'' \<and> sl_merge_base gh (gr_FullName repository) sha head = Inr sha"
proof -
  have pages: "contains_commit pages sha ps = Inr True \<Longrightarrow> \<exists>page\<in>set ps. \<exists>entries more_left. pages page = Inr (entries, more_left) \<and> sha \<in> set entries" for pages ps
    by (induction ps) (auto split: sum.splits prod.splits if_splits dest: in_set_takeD)
  show ?thesis
    using assms pages [of "sl_commits gh (gr_FullName repository) (deploymentPullRequestNumber ref)" "[1, 2, 3]"]
    by (auto simp: commit_allowed_def PullRequestContainsCommit_def IsDeploymentAncestor_def map_sum_def split: if_splits sum.splits)
qed

text \<open>C40: the commit of a deployment is pinned: it is the one that was asked for, or the head that GitHub resolved when none was; a commit other than the head is only taken when
  GitHub says that it belongs to the pull request or is an ancestor of the head of the branch; and for a pull request the head GitHub resolved is the head of the
  pull request into the authorized repository itself.\<close>

theorem resolveDeploymentSource_pins_commit:
  assumes "resolveDeploymentSource gh repository ref requestedSHA = Inr source"
  shows "\<exists>head. sl_ResolveCommit gh (gr_FullName repository) ref = Inr head \<and> ds_CommitSHA source = (if requestedSHA = [] then head else requestedSHA)
    \<and> (ds_CommitSHA source \<noteq> head \<longrightarrow> (if deploymentPullRequestNumber ref > 0
        then \<exists>page entries more_left. page \<in> {1, 2, 3} \<and> sl_commits gh (gr_FullName repository) (deploymentPullRequestNumber ref) page = Inr (entries, more_left)
               \<and> ds_CommitSHA source \<in> set entries
        else HasPrefix ref ''refs/heads/'' \<and> sl_merge_base gh (gr_FullName repository) (ds_CommitSHA source) head = Inr (ds_CommitSHA source)))
    \<and> (deploymentPullRequestNumber ref > 0 \<longrightarrow> (\<exists>pull. sl_GetPullRequest gh (gr_FullName repository) (deploymentPullRequestNumber ref) = Inr pull
        \<and> ph_HeadSHA pull = head \<and> ph_BaseID pull = gr_ID repository \<and> validDeploymentSHA head))"
proof -
  let ?number = "deploymentPullRequestNumber ref"
  obtain source0 head where source0: "(if ?number > 0 then pull_source gh repository ?number else Inr no_source) = Inr source0"
    and head: "sl_ResolveCommit gh (gr_FullName repository) ref = Inr head"
    and same: "?number > 0 \<Longrightarrow> ds_CommitSHA source0 = head"
    and result: "(requestedSHA = [] \<or> requestedSHA = head) \<and> source = source0 \<lparr> ds_CommitSHA := head \<rparr>
      \<or> requestedSHA \<noteq> [] \<and> requestedSHA \<noteq> head \<and> commit_allowed gh repository ref requestedSHA head = Inr True \<and> source = source0 \<lparr> ds_CommitSHA := requestedSHA \<rparr>"
    using assms by (auto simp: resolveDeploymentSource_def Let_def split: sum.splits if_splits)
  have "\<exists>pull. sl_GetPullRequest gh (gr_FullName repository) ?number = Inr pull \<and> ph_HeadSHA pull = head \<and> ph_BaseID pull = gr_ID repository \<and> validDeploymentSHA head"
    if "?number > 0"
    using source0 same [OF that] that by (auto simp: pull_source_def pull_identity_ok_def split: sum.splits if_splits)
  then show ?thesis using head result commit_allowed_spec [of gh repository ref requestedSHA head] by (intro exI [of _ head]) (auto simp del: Let_def)
qed

subsection \<open>Names of refs\<close>

lemma TrimPrefix_append [simp]: "TrimPrefix (p @ s) p = s"
  by (simp add: TrimPrefix_def HasPrefix_def)

lemma TrimSuffix_append [simp]: "TrimSuffix (s @ p) p = s"
  by (simp add: TrimSuffix_def HasSuffix_def)

lemma deploymentPullRequestNumber_ref:
  assumes "ParseInt (int_dec n) = Some n" "0 < n"
  shows "deploymentPullRequestNumber (''refs/pull/'' @ int_dec n @ ''/head'') = n"
proof -
  have "HasPrefix (''refs/pull/'' @ int_dec n @ ''/head'') ''refs/pull/''" "HasSuffix (''refs/pull/'' @ int_dec n @ ''/head'') ''/head''"
    by (simp_all only: HasPrefix_append) (simp add: HasSuffix_def)
  then show ?thesis
    using assms unfolding deploymentPullRequestNumber_def TrimPrefix_append TrimSuffix_append by simp
qed


lemma number_ref:
  assumes "ParseInt ref = Some n" "0 < n" "int_dec n = ref"
  shows "TrimSpace ref = ref"
proof -
  have "\<forall>c\<in>set ref. \<not> is_space c" using assms(2,3) int_dec_not [of n] by (auto simp: is_space_def Let_def)
  moreover have "ref \<noteq> []" using assms(1) by (auto simp: ParseInt_def Let_def)
  ultimately show ?thesis by (intro TrimSpace_id) (simp add: trimmed_def)
qed

text \<open>The name of a source survives: a branch, a tag or a pull request that a valid request names is shown again under its kind and its short name, unless a branch or a tag
  is itself named like the head of a pull request.\<close>

theorem deployment_ref_roundtrip:
  assumes "validateCreateDeploymentRequest input = None" "cr_Source input \<noteq> []"
    and "cr_Source input = ''pull_request'' \<or> deploymentPullRequestNumber (TrimSpace (cr_Ref input)) = 0"
    and "dm_Ref d = cr_Ref (normalize_request input)"
  shows "dz_Source (deploymentResponseFromState d) = cr_Source input \<and> dz_Ref (deploymentResponseFromState d) = TrimSpace (cr_Ref input)"
proof -
  have response: "dz_Source (deploymentResponseFromState d) = fst (response_ref (dm_Ref d))" "dz_Ref (deploymentResponseFromState d) = snd (response_ref (dm_Ref d))"
    by (simp_all add: deploymentResponseFromState_def split: prod.split)
  have full: "dm_Ref d = normalizeDeploymentRef (cr_Ref input) (cr_Source input)" using assms(4) by (simp add: normalize_request_def)
  consider "cr_Source input = ''branch''" | "cr_Source input = ''tag''" | "cr_Source input = ''pull_request''"
    using assms(1,2) by (auto simp: validateCreateDeploymentRequest_def split: if_splits)
  then show ?thesis
  proof cases
    case 1
    have "HasPrefix (''refs/heads/'' @ TrimSpace (cr_Ref input)) ''refs/heads/''" "TrimPrefix (''refs/heads/'' @ TrimSpace (cr_Ref input)) ''refs/heads/'' = TrimSpace (cr_Ref input)"
      by (simp_all only: HasPrefix_append TrimPrefix_append)
    then show ?thesis using 1 assms(3) by (simp add: response full normalizeDeploymentRef_def response_ref_def)
  next
    case 2
    have "\<not> HasPrefix (''refs/tags/'' @ TrimSpace (cr_Ref input)) ''refs/heads/''" by (simp add: HasPrefix_def)
    moreover have "HasPrefix (''refs/tags/'' @ TrimSpace (cr_Ref input)) ''refs/tags/''" "TrimPrefix (''refs/tags/'' @ TrimSpace (cr_Ref input)) ''refs/tags/'' = TrimSpace (cr_Ref input)"
      by (simp_all only: HasPrefix_append TrimPrefix_append)
    ultimately show ?thesis using 2 assms(3) by (simp add: response full normalizeDeploymentRef_def response_ref_def)
  next
    case 3
    then obtain n where n: "ParseInt (cr_Ref input) = Some n" "0 < n" "int_dec n = cr_Ref input"
      using assms(1) by (auto simp: validateCreateDeploymentRequest_def split: if_splits option.splits)
    note trim = number_ref [OF n]
    have "deploymentPullRequestNumber (''refs/pull/'' @ int_dec n @ ''/head'') = n" using n by (intro deploymentPullRequestNumber_ref) auto
    moreover have "\<not> HasPrefix (''refs/pull/'' @ int_dec n @ ''/head'') ''refs/heads/''" "\<not> HasPrefix (''refs/pull/'' @ int_dec n @ ''/head'') ''refs/tags/''"
      by (simp_all add: HasPrefix_def)
    ultimately show ?thesis using 3 n trim by (simp add: response full normalizeDeploymentRef_def response_ref_def)
  qed
qed

definition sample_request :: createDeploymentRequest where
  "sample_request = \<lparr> cr_CommitSHA = [], cr_InstallationID = 4, cr_RepositoryFullName = ''o/r'', cr_Ref = ''7'', cr_Source = ''pull_request'', cr_ConfigPath = [],
     cr_TTLSeconds = 0, cr_TemplateID = ''t'', cr_TemplateName = [], cr_TemplateCPU = 0, cr_TemplateMemoryMB = 0, cr_TemplateDiskMB = 0 \<rparr>"

theorem deployment_ref_roundtrip_witness:
  "dz_Source (deploymentResponseFromState (sample_deployment \<lparr> dm_Ref := ''refs/pull/7/head'' \<rparr>)) = ''pull_request''
    \<and> dz_Ref (deploymentResponseFromState (sample_deployment \<lparr> dm_Ref := ''refs/pull/7/head'' \<rparr>)) = ''7''"
proof -
  have facts: "validateCreateDeploymentRequest sample_request = None" "cr_Ref (normalize_request sample_request) = ''refs/pull/7/head''" "TrimSpace ''7'' = ''7''"
    by code_simp+
  show ?thesis
    using deployment_ref_roundtrip [OF facts(1), of "sample_deployment \<lparr> dm_Ref := ''refs/pull/7/head'' \<rparr>"] facts by (simp add: sample_request_def)
qed

text \<open>A branch that is named like the head of a pull request is shown as that pull request, although the deployment is of the branch.\<close>

theorem branch_shown_as_pull_request:
  "response_ref (normalizeDeploymentRef ''refs/pull/5/head'' ''branch'') = (''pull_request'', ''5'')
    \<and> deploymentPullRequestNumber (normalizeDeploymentRef ''refs/pull/5/head'' ''branch'') = 0"
  by code_simp

text \<open>A space before the ref gets a pull request past the check that asks for the source of one.\<close>

theorem pull_request_without_source:
  "validateCreateDeploymentRequest (sample_request \<lparr> cr_Source := [], cr_Ref := '' refs/pull/5/head'' \<rparr>) = None
    \<and> deploymentPullRequestNumber (cr_Ref (normalize_request (sample_request \<lparr> cr_Source := [], cr_Ref := '' refs/pull/5/head'' \<rparr>))) = 5
    \<and> validateCreateDeploymentRequest (sample_request \<lparr> cr_Source := [], cr_Ref := ''refs/pull/5/head'' \<rparr>) \<noteq> None"
  by code_simp

definition sample_source_client :: source_client where
  "sample_source_client = \<lparr> sl_GetPullRequest = (\<lambda>r n. Inr \<lparr> ph_Number = n, ph_Title = ''fix'', ph_BaseID = 5, ph_BaseFullName = ''o/r'', ph_HeadID = 6,
     ph_HeadFullName = ''f/r'', ph_HeadSHA = replicate 40 (CHR ''a''), ph_HeadRef = ''fix'' \<rparr>), sl_ResolveCommit = (\<lambda>r ref. Inr (replicate 40 (CHR ''a''))),
     sl_commits = (\<lambda>r n page. Inr ([replicate 40 (CHR ''b''), replicate 40 (CHR ''a'')], False)), sl_merge_base = (\<lambda>r a b. Inr a) \<rparr>"

definition sample_repository :: SourceRepository where
  "sample_repository = \<lparr> gr_ID = 5, gr_FullName = ''o/r'', gr_DefaultBranch = ''main'', gr_Fork = False, gr_Owner = \<lparr> ga_ID = 1, ga_Login = ''o'', ga_Type = ''Organization'' \<rparr> \<rparr>"

theorem resolveDeploymentSource_pins_commit_witness:
  "\<exists>source. resolveDeploymentSource sample_source_client sample_repository ''refs/pull/7/head'' (replicate 40 (CHR ''b'')) = Inr source
    \<and> ds_CommitSHA source = replicate 40 (CHR ''b'')"
proof -
  have "(case resolveDeploymentSource sample_source_client sample_repository ''refs/pull/7/head'' (replicate 40 (CHR ''b'')) of Inl _ \<Rightarrow> False | Inr _ \<Rightarrow> True)"
    by code_simp
  then obtain source where source: "resolveDeploymentSource sample_source_client sample_repository ''refs/pull/7/head'' (replicate 40 (CHR ''b'')) = Inr source"
    by (auto split: sum.splits)
  from resolveDeploymentSource_pins_commit [OF source] source show ?thesis by auto
qed

end
