(* ===== verification/DeploymentHandlers.thy ===== *)
theory DeploymentHandlers
  imports WorkerBatch Authorization DeploymentSources
begin

text \<open>
  The HTTP handlers of deployments: \<^verbatim>\<open>internal/server/server_deployments.go\<close>, the choice of templates in
  \<^verbatim>\<open>server_deployment_templates.go\<close>, and who may manage a scope (\<^verbatim>\<open>server_user_handlers.go\<close>).

  A handler gets the signed-in user and the decoded request, and answers an error or a deployment. Everybody else may change the tables between its
  statements (\<open>we_other\<close> of the worker's environment, \<open>hn_otherInstallations\<close> for the installations), and the tables it only reads are given for each step. GitHub, the sandbox services, the parser of
  the configuration, the planner, encryption and hashing are parameters. Cancelled contexts are not modelled.
\<close>

subsection \<open>State and environment\<close>

record handler_state =
  hs_worker :: worker_state
  hs_installations :: installation_db
  hs_audit :: "(string \<times> string \<times> string) list"
  hs_signals :: nat

record OrganizationMembership =
  om_OrganizationID :: int
  om_OrganizationLogin :: string
  om_Role :: string

record deployment_plan =
  pl_Version :: int
  pl_SpecHash :: string
  pl_SpecJSON :: string

record handler_env =
  hn_worker :: worker_env
  hn_otherInstallations :: "nat \<Rightarrow> installation_db \<Rightarrow> installation_db"
  hn_deploymentWorker :: bool
  hn_access :: "nat \<Rightarrow> int \<Rightarrow> access_error + GitHubInstallationRepositoryAccess list"
  hn_auditFault :: "nat \<Rightarrow> error option"
  hn_requests :: "nat \<Rightarrow> requests_table"
  hn_accounts :: "nat \<Rightarrow> accountRecord list"
  hn_sandbox :: "nat \<Rightarrow> sandbox_env"
  hn_gh :: bool
  hn_ListUserInstallationRepositoryDetails :: "nat \<Rightarrow> string \<Rightarrow> int \<Rightarrow> access_error + SourceRepository list"
  hn_ListUserOrganizationMemberships :: "nat \<Rightarrow> string \<Rightarrow> access_error + OrganizationMembership list"
  hn_sources :: "nat \<Rightarrow> source_client"
  hn_ReadRepositoryFile :: "nat \<Rightarrow> string \<Rightarrow> string \<Rightarrow> string \<Rightarrow> string option"
  hn_Parse :: "string \<Rightarrow> string option"
  hn_NewPlan :: "string \<Rightarrow> string \<Rightarrow> string \<Rightarrow> deployment_plan option"
  hn_encryptSecret :: "string \<Rightarrow> string option"
  hn_ListDefaultTemplates :: "nat \<Rightarrow> sandboxServiceConfigSnapshot \<Rightarrow> CatalogTemplate list option"
  hn_ValidateTemplate :: "nat \<Rightarrow> sandboxServiceConfigSnapshot \<Rightarrow> string \<Rightarrow> bool"
  hn_sha :: "request_identity \<Rightarrow> string"
  hn_rand :: "nat \<Rightarrow> string"
  hn_sha256 :: "string \<Rightarrow> string"
  hn_base32 :: "string \<Rightarrow> string"
  hn_DeploymentTemplateID :: string
  hn_DeploymentMaxConcurrent :: int

datatype http_answer =
    Refused http_error
  | Answered int deploymentResponse

definition step_number :: "handler_state \<Rightarrow> nat" where
  "step_number s = ws_step (hs_worker s)"

definition handler_db :: "handler_state \<Rightarrow> deployment_db" where
  "handler_db s = ws_db (hs_worker s)"

definition others :: "handler_env \<Rightarrow> handler_state \<Rightarrow> handler_state" where
  "others env s = s \<lparr> hs_worker := interfere (hn_worker env) (hs_worker s),
     hs_installations := hn_otherInstallations env (ws_step (hs_worker s)) (hs_installations s) \<rparr>"

definition now_of :: "handler_env \<Rightarrow> handler_state \<Rightarrow> instant" where
  "now_of env s = clock (hn_worker env) (hs_worker s)"

definition set_db :: "deployment_db \<Rightarrow> handler_state \<Rightarrow> handler_state" where
  "set_db db s = s \<lparr> hs_worker := (hs_worker s) \<lparr> ws_db := db \<rparr> \<rparr>"

definition signalDeployments :: "handler_state \<Rightarrow> handler_state" where
  "signalDeployments s = s \<lparr> hs_signals := Suc (hs_signals s) \<rparr>"

text \<open>A mutation with its audit event, in one transaction.\<close>

definition applyMutationWithAudit ::
  "handler_env \<Rightarrow> string \<Rightarrow> string \<Rightarrow> string \<Rightarrow> (instant \<Rightarrow> deployment_db \<Rightarrow> error + deployment_db) \<Rightarrow> handler_state \<Rightarrow> handler_state \<times> error option" where
  "applyMutationWithAudit env actor action resourceID mutation s =
     (let s1 = others env s
      in case mutation (now_of env s1) (handler_db s1) of
           Inl e \<Rightarrow> (s1, Some e)
         | Inr db \<Rightarrow>
             (case hn_auditFault env (step_number s1) of
                Some _ \<Rightarrow> (s1, Some ErrAuditEventPersistence)
              | None \<Rightarrow> ((set_db db s1) \<lparr> hs_audit := hs_audit s1 @ [(actor, action, resourceID)] \<rparr>, None)))"

subsection \<open>Who may do what\<close>

definition githubInstallationForAccount :: "requests_table \<Rightarrow> installation_db \<Rightarrow> int \<Rightarrow> int \<Rightarrow> (githubInstallationRecord option) result" where
  "githubInstallationForAccount requests installations accountID i =
     map_sum id (\<lambda>items. find (\<lambda>r. gi_ID r = i) (map gn_record items)) (ListGitHubInstallations accountID requests installations)"

definition githubOrganizationOwnerRole :: string where "githubOrganizationOwnerRole = ''admin''"

text \<open>Whether the viewer manages the account that owns an installation.\<close>

definition organization_manageable :: "GitHubInstallationAccount \<Rightarrow> OrganizationMembership list \<Rightarrow> bool" where
  "organization_manageable owner memberships =
     (let admins = filter (\<lambda>m. EqualFold (TrimSpace (om_Role m)) githubOrganizationOwnerRole) memberships
      in if gt_GitHubAccountID owner > 0 then gt_GitHubAccountID owner \<in> om_OrganizationID ` set admins
         else ToLower (TrimSpace (gt_AccountLogin owner)) \<in> (\<lambda>m. ToLower (TrimSpace (om_OrganizationLogin m))) ` set admins)"

definition user_manageable :: "GitHubInstallationAccount \<Rightarrow> oauthIdentityRecord \<Rightarrow> bool" where
  "user_manageable owner identity =
     (if gt_GitHubAccountID owner > 0 then TrimSpace (oi_OAuthSubject identity) = int_dec (gt_GitHubAccountID owner)
      else EqualFold (TrimSpace (oi_OAuthLogin identity)) (TrimSpace (gt_AccountLogin owner)))"

definition githubInstallationAccountManageable :: "handler_env \<Rightarrow> nat \<Rightarrow> int \<Rightarrow> GitHubInstallationAccount \<Rightarrow> access_error + bool" where
  "githubInstallationAccountManageable env n viewerAccountID owner =
     (let kind = ToLower (TrimSpace (gt_AccountType owner)); box = hn_sandbox env n
      in if kind = ''user'' then
           (case GetOAuthIdentityForAccount viewerAccountID ''github'' (se_identities box) of
              Inl e \<Rightarrow> Inl (OtherAccessError (error_text e))
            | Inr identity \<Rightarrow> Inr (user_manageable owner identity))
         else if kind = ''organization'' then
           (if \<not> hn_gh env then Inl (OtherAccessError ''github client is not configured'')
            else case githubUserAccessToken (se_decrypt box) (se_settings box) viewerAccountID of
              Inl err \<Rightarrow> Inl err
            | Inr token \<Rightarrow>
                (case hn_ListUserOrganizationMemberships env n token of
                   Inl err \<Rightarrow> Inl err
                 | Inr memberships \<Rightarrow> Inr (organization_manageable owner memberships)))
         else Inr False)"

definition no_owner :: GitHubInstallationAccount where
  "no_owner = \<lparr> gt_GitHubAccountID = 0, gt_AccountType = [], gt_AccountLogin = [], gt_AccountName = [], gt_AccountAvatar = [] \<rparr>"

definition scope_owner :: "handler_env \<Rightarrow> nat \<Rightarrow> installation_db \<Rightarrow> int \<Rightarrow> int \<Rightarrow> error + GitHubInstallationAccount" where
  "scope_owner env n installations viewerAccountID i =
     (case GitHubInstallationAccountForInstallation i installations of
        Inr owner \<Rightarrow> Inr owner
      | Inl e \<Rightarrow>
          if e \<noteq> ErrNotFound then Inl e
          else case ListGitHubInstallations viewerAccountID (hn_requests env n) installations of
            Inl e' \<Rightarrow> Inl e'
          | Inr items \<Rightarrow>
              (case find (\<lambda>r. gi_InstallationID r = i) (map gn_record items) of
                 None \<Rightarrow> Inr no_owner
               | Some r \<Rightarrow> Inr (no_owner \<lparr> gt_GitHubAccountID := gi_GitHubAccountID r, gt_AccountType := gi_AccountType r, gt_AccountLogin := gi_AccountLogin r \<rparr>)))"

definition accountPreferenceScopeManageable :: "handler_env \<Rightarrow> nat \<Rightarrow> installation_db \<Rightarrow> int \<Rightarrow> accountPreferenceScope \<Rightarrow> access_error + bool" where
  "accountPreferenceScopeManageable env n installations viewerAccountID scope =
     (if aps_Type scope = AccountScopeTypeAccount then Inr (aps_ID scope = viewerAccountID)
      else if aps_Type scope \<noteq> AccountScopeTypeGitHubInstall then Inr False
      else case scope_owner env n installations viewerAccountID (aps_ID scope) of
        Inl e \<Rightarrow> Inl (OtherAccessError (error_text e))
      | Inr owner \<Rightarrow> githubInstallationAccountManageable env n viewerAccountID owner)"

definition deploymentScope :: "int \<Rightarrow> githubInstallationRecord \<Rightarrow> http_error + accountPreferenceScope" where
  "deploymentScope accountID installation =
     (let kind = ToLower (TrimSpace (gi_AccountType installation))
      in if kind = ''organization'' then Inr \<lparr> aps_Type = AccountScopeTypeGitHubInstall, aps_ID = gi_InstallationID installation \<rparr>
         else if kind = ''user'' then Inr \<lparr> aps_Type = AccountScopeTypeAccount, aps_ID = accountID \<rparr>
         else Inl (writeErrorCode 403 ''deployment_scope_forbidden'' ''GitHub installation ownership must be synchronized before deploying''))"

definition sandboxServiceForDeployment ::
  "handler_env \<Rightarrow> accountPreferenceScope \<Rightarrow> int \<Rightarrow> handler_state \<Rightarrow> handler_state \<times> (svc_error + sandboxServiceConfigSnapshot)" where
  "sandboxServiceForDeployment env scope installationID s =
     (let n = step_number s; box = hn_sandbox env n
      in case sandboxServiceForScope box (hn_requests env n) (hs_installations s) scope of
           Inr snapshot \<Rightarrow> (s, Inr snapshot)
         | Inl e \<Rightarrow>
             if \<not> not_configured e then (s, Inl e)
             else case admin_default_with box (githubInstallationOwner (now_of env s) box installationID) (hs_installations s) of
               (db, answer) \<Rightarrow> (s \<lparr> hs_installations := db \<rparr>, answer))"

definition publicDeploymentTemplateAllowed :: "CatalogTemplate list option \<Rightarrow> string \<Rightarrow> bool option" where
  "publicDeploymentTemplateAllowed catalog template =
     map_option (list_ex (\<lambda>item. ct_TemplateID item = template \<and> ct_Public item \<and> Runnable item)) catalog"

definition authorizeDeploymentTemplate ::
  "handler_env \<Rightarrow> int \<Rightarrow> accountPreferenceScope \<Rightarrow> sandboxServiceConfigSnapshot \<Rightarrow> string \<Rightarrow> handler_state \<Rightarrow> http_error option" where
  "authorizeDeploymentTemplate env accountID scope snapshot template s =
     (let n = step_number s;
          publicOnly = (case publicDeploymentTemplateAllowed (hn_ListDefaultTemplates env n snapshot) template of
            None \<Rightarrow> Some (writeErrorCode 502 ''deployment_templates_unavailable'' ''Unable to load available deployment templates'')
          | Some True \<Rightarrow> None
          | Some False \<Rightarrow> Some (writeErrorCode 403 ''deployment_template_forbidden'' ''Select a public template for this deployment''))
      in if sn_Source snapshot \<noteq> sandboxConfigSourceAdminDefault
         then (case accountPreferenceScopeManageable env n (hs_installations s) accountID scope of
                 Inl err \<Rightarrow> Some (writeUserRepositoryAuthorizationError err)
               | Inr True \<Rightarrow>
                   if \<not> hn_ValidateTemplate env n snapshot template
                   then Some (writeErrorCode 409 ''deployment_template_unavailable'' ''The selected Sandbox template is unavailable or has no runnable default build'')
                   else None
               | Inr False \<Rightarrow> publicOnly)
         else publicOnly)"

text \<open>The user of a session: the provider and the subject of its cookie, and the account that is linked to them.\<close>

definition requireUserSession :: "identity_db \<Rightarrow> (string \<times> string) option \<Rightarrow> (string \<times> int) option" where
  "requireUserSession identities session =
     (case session of
        None \<Rightarrow> None
      | Some (provider0, subject) \<Rightarrow>
          let provider = (if TrimSpace provider0 = [] then ''github'' else TrimSpace provider0)
          in case GetAccountByOAuthIdentity provider subject identities of
               Inl _ \<Rightarrow> None
             | Inr (account, _) \<Rightarrow> Some (subject, ac_ID account))"

definition not_found_answer :: http_error where
  "not_found_answer = writeError 404 ''deployment not found''"

text \<open>A deployment that a handler has loaded is noted in the trace of the worker that it runs.\<close>

definition noted :: "Deployment \<Rightarrow> handler_state \<Rightarrow> handler_state" where
  "noted d s = s \<lparr> hs_worker := log_event (WasRead d) (hs_worker s) \<rparr>"

definition loadAuthorizedDeployment ::
  "handler_env \<Rightarrow> (string \<times> int) option \<Rightarrow> string \<Rightarrow> handler_state \<Rightarrow> handler_state \<times> (http_error + string \<times> int \<times> Deployment)" where
  "loadAuthorizedDeployment env user i s =
     (case user of
        None \<Rightarrow> (s, Inl (writeError 401 ''missing or invalid github oauth session''))
      | Some (subject, accountID) \<Rightarrow>
          let s1 = others env s
          in case GetDeployment (TrimSpace i) (handler_db s1) of
               Inl e \<Rightarrow> (s1, Inl (if e = ErrNotFound then not_found_answer else writeError 500 ''load deployment''))
             | Inr d \<Rightarrow>
                 let s2 = others env (noted d s1)
                 in case hn_access env (step_number s2) accountID of
                      Inl err \<Rightarrow> (s2, Inl (writeUserRepositoryAuthorizationError err))
                    | Inr access \<Rightarrow>
                        if \<not> hasRepositoryAccess access (dm_GitHubInstallationID d) (dm_RepositoryFullName d) then (s2, Inl not_found_answer)
                        else (s2, Inr (subject, accountID, d)))"


subsection \<open>Creating\<close>

text \<open>The identity of a new deployment: random, or a digest of the account and the key of the request.\<close>

definition newDeploymentID :: "handler_env \<Rightarrow> nat \<Rightarrow> int \<Rightarrow> string \<Rightarrow> string" where
  "newDeploymentID env n accountID key =
     ToLower (hn_base32 env (if key = [] then hn_rand env n
       else take 16 (hn_sha256 env (''deployment-request/v1:'' @ int_dec accountID @ '':'' @ key))))"

definition writeDeploymentReplay :: "handler_env \<Rightarrow> string \<Rightarrow> int \<Rightarrow> int \<Rightarrow> int \<Rightarrow> createDeploymentRequest \<Rightarrow> handler_state \<Rightarrow> handler_state \<times> http_answer option" where
  "writeDeploymentReplay env i accountID installationID repositoryID input s =
     (let s1 = others env s
      in case GetDeployment i (handler_db s1) of
           Inl e \<Rightarrow> (s1, if e = ErrNotFound then None else Some (Refused (writeError 500 ''load deployment'')))
         | Inr saved \<Rightarrow>
             (s1, Some (if dm_AccountID saved \<noteq> accountID \<or> dm_GitHubInstallationID saved \<noteq> installationID \<or> dm_RepositoryID saved \<noteq> repositoryID
                           \<or> dm_CreateRequestHash saved \<noteq> deploymentCreateRequestHash (hn_sha env) input installationID repositoryID
                        then Refused (writeErrorCode 409 ''deployment_request_conflict'' ''Idempotency-Key was already used for a different deployment request'')
                        else Answered 200 (deploymentResponseFromState saved))))"

text \<open>The installation, the scope and the repository that the user may deploy from.\<close>

definition authorize_repository ::
  "handler_env \<Rightarrow> int \<Rightarrow> createDeploymentRequest \<Rightarrow> handler_state \<Rightarrow> http_error + githubInstallationRecord \<times> accountPreferenceScope \<times> SourceRepository" where
  "authorize_repository env accountID input s =
     (let n = step_number s; box = hn_sandbox env n
      in case githubInstallationForAccount (hn_requests env n) (hs_installations s) accountID (cr_InstallationID input) of
           Inl _ \<Rightarrow> Inl (writeError 500 ''load GitHub installation'')
         | Inr None \<Rightarrow> Inl (writeErrorCode 404 ''github_installation_not_found'' ''GitHub installation is not linked to this account'')
         | Inr (Some installation) \<Rightarrow>
             if \<not> hn_gh env then Inl (writeError 502 ''GitHub client is not configured'')
             else (case deploymentScope accountID installation of
                Inl e \<Rightarrow> Inl e
              | Inr scope \<Rightarrow>
                  (case githubUserAccessToken (se_decrypt box) (se_settings box) accountID of
                     Inl err \<Rightarrow> Inl (writeUserRepositoryAuthorizationError err)
                   | Inr token \<Rightarrow>
                       (case hn_ListUserInstallationRepositoryDetails env n token (gi_InstallationID installation) of
                          Inl err \<Rightarrow> Inl (writeUserRepositoryAuthorizationError err)
                        | Inr repositories \<Rightarrow>
                            (case deploymentRepositoryAccess repositories (cr_RepositoryFullName input) installation of
                               None \<Rightarrow> Inl (writeErrorCode 403 ''repository_access_forbidden''
                                         ''repository is not accessible through this GitHub installation and user session'')
                             | Some repository \<Rightarrow> Inr (installation, scope, repository))))))"

definition RepositoryCloneURL :: "string \<Rightarrow> string" where
  "RepositoryCloneURL repository = ''https://github.com/'' @ TrimSuffix (TrimSpace repository) ''.git'' @ ''.git''"

text \<open>The configuration at the pinned commit, planned and encrypted.\<close>

definition plan_deployment ::
  "handler_env \<Rightarrow> SourceRepository \<Rightarrow> createDeploymentRequest \<Rightarrow> handler_state \<Rightarrow> http_error + deploymentSourceSnapshot \<times> deployment_plan \<times> string" where
  "plan_deployment env repository input s =
     (let n = step_number s
      in case resolveDeploymentSource (hn_sources env n) repository (cr_Ref input) (cr_CommitSHA input) of
           Inl DeploymentSourceChanged \<Rightarrow> Inl (writeErrorCode 409 ''deployment_source_changed''
             ''The selected commit is no longer available in this source. Refresh the source and choose a commit again.'')
         | Inl (SourceError _) \<Rightarrow> Inl (writeErrorCode 502 ''commit_resolution_failed'' ''failed to resolve repository ref'')
         | Inr source \<Rightarrow>
             (case hn_ReadRepositoryFile env n (gr_FullName repository) (cr_ConfigPath input) (ds_CommitSHA source) of
                None \<Rightarrow> Inl (writeErrorCode 400 ''deployment_config_invalid'' ''failed to read deployment configuration'')
              | Some configData \<Rightarrow>
                  (case hn_Parse env configData of
                     None \<Rightarrow> Inl (writeErrorCode 400 ''deployment_config_invalid'' ''invalid deployment configuration'')
                   | Some spec \<Rightarrow>
                       (case hn_NewPlan env (RepositoryCloneURL (gr_FullName repository)) (ds_CommitSHA source) spec of
                          None \<Rightarrow> Inl (writeErrorCode 400 ''deployment_config_invalid'' ''invalid deployment execution plan'')
                        | Some plan \<Rightarrow>
                            (case hn_encryptSecret env (pl_SpecJSON plan) of
                               None \<Rightarrow> Inl (writeError 500 ''encrypt deployment plan'')
                             | Some encryptedSpec \<Rightarrow> Inr (source, plan, encryptedSpec))))))"

definition new_deployment ::
  "handler_env \<Rightarrow> string \<Rightarrow> int \<Rightarrow> createDeploymentRequest \<Rightarrow> githubInstallationRecord \<Rightarrow> accountPreferenceScope \<Rightarrow> SourceRepository \<Rightarrow> string
     \<Rightarrow> sandboxServiceConfigSnapshot \<Rightarrow> deploymentSourceSnapshot \<Rightarrow> deployment_plan \<Rightarrow> string \<Rightarrow> handler_state \<Rightarrow> Deployment" where
  "new_deployment env deploymentID accountID input installation scope repository templateID snapshot source plan encryptedSpec s =
     (let now = now_of env s; ttl = (if cr_TTLSeconds input > 0 then cr_TTLSeconds input * Second else defaultDeploymentTTL_seconds * Second)
      in \<lparr> dm_CreateRequestHash = deploymentCreateRequestHash (hn_sha env) input (gi_InstallationID installation) (gr_ID repository),
           dm_ExecutionAccountID = accountID, dm_RevisionNumber = 0, dm_ID = deploymentID, dm_AccountID = accountID, dm_ScopeType = aps_Type scope,
           dm_ScopeID = aps_ID scope, dm_GitHubInstallationID = gi_InstallationID installation, dm_RepositoryID = gr_ID repository,
           dm_RepositoryFullName = gr_FullName repository, dm_Ref = cr_Ref input, dm_CommitSHA = ds_CommitSHA source, dm_ConfigPath = cr_ConfigPath input,
           dm_SnapshotVersion = pl_Version plan, dm_SpecHash = pl_SpecHash plan, dm_SpecJSONEncrypted = encryptedSpec, dm_Status = DeploymentStatusQueued,
           dm_SandboxID = [], dm_Attempt = 0, dm_RuntimeID = [], dm_ProcessID = [], dm_ProcessTag = [], dm_SandboxAPIURL = sn_APIURL snapshot,
           dm_SandboxAPIKeyEncrypted = sn_EncryptedAPIKey snapshot, dm_SandboxConfigSource = sn_Source snapshot,
           dm_SandboxRegion = sandboxRegionForAPIURL (hn_sandbox env (step_number s)) (sn_APIURL snapshot), dm_DeploymentTemplateID = templateID,
           dm_DeploymentTemplateName = cr_TemplateName input, dm_DeploymentTemplateCPU = cr_TemplateCPU input,
           dm_DeploymentTemplateMemoryMB = cr_TemplateMemoryMB input, dm_DeploymentTemplateDiskMB = cr_TemplateDiskMB input, dm_Endpoint = [],
           dm_FailureStage = [], dm_FailureReason = [], dm_Error = [], dm_ExpiresAt = now + ttl, dm_CreatedAt = now, dm_PlanningAt = zero_time,
           dm_CreatingAt = zero_time, dm_RunningAt = zero_time, dm_StoppingAt = zero_time, dm_CompletedAt = zero_time, dm_FailedAt = zero_time,
           dm_UpdatedAt = now, dm_Version = 0, dm_SourceRepositoryID = ds_RepositoryID source, dm_SourceRepositoryFullName = ds_RepositoryFullName source,
           dm_SourceRef = ds_Ref source, dm_PullRequestTitle = ds_PullRequestTitle source \<rparr>)"

definition queued_event :: "string \<Rightarrow> int \<Rightarrow> string \<Rightarrow> DeploymentEvent" where
  "queued_event i attempt message = (deployment_event attempt ''lifecycle'' ''queued'' [] message) \<lparr> dn_DeploymentID := i \<rparr>"

definition create_mutation :: "handler_env \<Rightarrow> nat \<Rightarrow> installation_db \<Rightarrow> Deployment \<Rightarrow> instant \<Rightarrow> deployment_db \<Rightarrow> error + deployment_db" where
  "create_mutation env n installations d now db =
     (case GetDeployment (dm_ID d) db of
        Inr _ \<Rightarrow> Inl ErrConflict
      | Inl e \<Rightarrow>
          if e \<noteq> ErrNotFound then Inl e
          else case CreateDeploymentWithScopeLimit (hn_accounts env n) (in_installations installations) now d (hn_DeploymentMaxConcurrent env) db of
            Inl e' \<Rightarrow> Inl e'
          | Inr (db1, _) \<Rightarrow> AppendDeploymentEvent now (queued_event (dm_ID d) 0 ''Deployment queued for execution.'') db1)"

definition sandbox_answer :: http_error where
  "sandbox_answer = writeErrorCode 409 ''deployment_sandbox_not_configured''
     (''Configure Sandbox credentials in this account or organization'' @ [CHR 0x27] @ ''s Preferences before deploying'')"

definition quota_answer :: http_error where
  "quota_answer = (writeErrorCode 429 ''deployment_quota_exceeded'' ''deployment scope concurrency limit reached'') \<lparr> he_RetryAfter := Some ''60'' \<rparr>"

definition persist_new ::
  "handler_env \<Rightarrow> string \<Rightarrow> string \<Rightarrow> int \<Rightarrow> int \<Rightarrow> int \<Rightarrow> createDeploymentRequest \<Rightarrow> Deployment \<Rightarrow> handler_state \<Rightarrow> handler_state \<times> http_answer" where
  "persist_new env subject key accountID installationID repositoryID input d s =
     (case applyMutationWithAudit env (''github:'' @ subject) ''deployment.create'' (dm_ID d) (create_mutation env (step_number s) (hs_installations s) d) s of
        (s1, None) \<Rightarrow> (signalDeployments s1, Answered 201 (deploymentResponseFromState d))
      | (s1, Some e) \<Rightarrow>
          if e = ErrDeploymentQuotaExceeded then (s1, Refused quota_answer)
          else
            let failed = Refused (writeError 500 ''persist deployment'')
            in if key \<noteq> [] \<and> e \<noteq> ErrAuditEventPersistence
               then (case writeDeploymentReplay env (dm_ID d) accountID installationID repositoryID input s1 of
                       (s2, Some answer) \<Rightarrow> (s2, answer)
                     | (s2, None) \<Rightarrow> (s2, failed))
               else (s1, failed))"

definition create_authorized ::
  "handler_env \<Rightarrow> string \<Rightarrow> int \<Rightarrow> string \<Rightarrow> string \<Rightarrow> createDeploymentRequest \<Rightarrow> githubInstallationRecord \<Rightarrow> accountPreferenceScope \<Rightarrow> SourceRepository
     \<Rightarrow> handler_state \<Rightarrow> handler_state \<times> http_answer" where
  "create_authorized env subject accountID key deploymentID input installation scope repository s =
     (let templateID = (if cr_TemplateID input = [] then TrimSpace (hn_DeploymentTemplateID env) else cr_TemplateID input)
      in if templateID = [] then (s, Refused (writeErrorCode 400 ''deployment_template_required'' ''Select a Sandbox template before deploying''))
         else case sandboxServiceForDeployment env scope (gi_InstallationID installation) s of
           (s1, Inl _) \<Rightarrow> (s1, Refused sandbox_answer)
         | (s1, Inr snapshot) \<Rightarrow>
             let s2 = others env s1
             in case authorizeDeploymentTemplate env accountID scope snapshot templateID s2 of
                  Some e \<Rightarrow> (s2, Refused e)
                | None \<Rightarrow>
                    let s3 = others env s2
                    in case plan_deployment env repository input s3 of
                         Inl e \<Rightarrow> (s3, Refused e)
                       | Inr (source, plan, encryptedSpec) \<Rightarrow>
                           persist_new env subject key accountID (gi_InstallationID installation) (gr_ID repository) input
                             (new_deployment env deploymentID accountID input installation scope repository templateID snapshot source plan encryptedSpec s3) s3)"

definition handleUserCreateDeployment ::
  "handler_env \<Rightarrow> (string \<times> int) option \<Rightarrow> createDeploymentRequest option \<Rightarrow> string \<Rightarrow> handler_state \<Rightarrow> handler_state \<times> http_answer" where
  "handleUserCreateDeployment env user body key0 s =
     (case user of
        None \<Rightarrow> (s, Refused (writeError 401 ''missing or invalid github oauth session''))
      | Some (subject, accountID) \<Rightarrow>
          (case body of
             None \<Rightarrow> (s, Refused (writeErrorCode 400 ''invalid_deployment'' ''invalid deployment payload''))
           | Some input0 \<Rightarrow>
               (case validateCreateDeploymentRequest input0 of
                  Some message \<Rightarrow> (s, Refused (writeErrorCode 400 ''invalid_deployment'' message))
                | None \<Rightarrow>
                    let input = normalize_request input0; key = TrimSpace key0
                    in if length key > 128 \<or> has_control key
                       then (s, Refused (writeErrorCode 400 ''invalid_deployment'' ''Idempotency-Key is invalid''))
                       else
                         let s1 = others env s
                         in case authorize_repository env accountID input s1 of
                              Inl e \<Rightarrow> (s1, Refused e)
                            | Inr (installation, scope, repository) \<Rightarrow>
                                let deploymentID = newDeploymentID env (step_number s1) accountID key
                                in case (if key \<noteq> [] then writeDeploymentReplay env deploymentID accountID (gi_InstallationID installation) (gr_ID repository) input s1
                                         else (s1, None)) of
                                     (s2, Some answer) \<Rightarrow> (s2, answer)
                                   | (s2, None) \<Rightarrow> create_authorized env subject accountID key deploymentID input installation scope repository s2)))"


subsection \<open>Stopping\<close>

definition load_answer :: "handler_env \<Rightarrow> int \<Rightarrow> string \<Rightarrow> handler_state \<Rightarrow> handler_state \<times> http_answer" where
  "load_answer env status i s =
     (let s1 = others env s
      in case GetDeployment i (handler_db s1) of
           Inl _ \<Rightarrow> (s1, Refused (writeError 500 ''load deployment''))
         | Inr d \<Rightarrow> (s1, Answered status (deploymentResponseFromState d)))"

definition no_deployment :: Deployment where
  "no_deployment = \<lparr>
     dm_CreateRequestHash = [], dm_ExecutionAccountID = 0, dm_RevisionNumber = 0, dm_ID = [], dm_AccountID = 0, dm_ScopeType = [], dm_ScopeID = 0,
     dm_GitHubInstallationID = 0, dm_RepositoryID = 0, dm_RepositoryFullName = [], dm_Ref = [], dm_CommitSHA = [], dm_ConfigPath = [], dm_SnapshotVersion = 0,
     dm_SpecHash = [], dm_SpecJSONEncrypted = [], dm_Status = [], dm_SandboxID = [], dm_Attempt = 0, dm_RuntimeID = [], dm_ProcessID = [], dm_ProcessTag = [],
     dm_SandboxAPIURL = [], dm_SandboxAPIKeyEncrypted = [], dm_SandboxConfigSource = [], dm_SandboxRegion = [], dm_DeploymentTemplateID = [],
     dm_DeploymentTemplateName = [], dm_DeploymentTemplateCPU = 0, dm_DeploymentTemplateMemoryMB = 0, dm_DeploymentTemplateDiskMB = 0, dm_Endpoint = [],
     dm_FailureStage = [], dm_FailureReason = [], dm_Error = [], dm_ExpiresAt = zero_time, dm_CreatedAt = zero_time, dm_PlanningAt = zero_time,
     dm_CreatingAt = zero_time, dm_RunningAt = zero_time, dm_StoppingAt = zero_time, dm_CompletedAt = zero_time, dm_FailedAt = zero_time,
     dm_UpdatedAt = zero_time, dm_Version = 0, dm_SourceRepositoryID = 0, dm_SourceRepositoryFullName = [], dm_SourceRef = [], dm_PullRequestTitle = [] \<rparr>"

definition stopping_status :: "handler_env \<Rightarrow> Deployment \<Rightarrow> string" where
  "stopping_status env d =
     (if dm_Status d = DeploymentStatusQueued \<or> (\<not> hn_deploymentWorker env \<and> dm_SandboxID d = []) then DeploymentStatusCompleted
      else if dm_Status d = DeploymentStatusFailed then DeploymentStatusFailed
      else DeploymentStatusStopping)"

definition run_stop :: "handler_env \<Rightarrow> string \<Rightarrow> handler_state \<Rightarrow> handler_state \<times> worker_error option" where
  "run_stop env i s = (case Stop (hn_worker env) i False (hs_worker s) of (ws, err) \<Rightarrow> (s \<lparr> hs_worker := ws \<rparr>, err))"

definition handleUserStopDeployment :: "handler_env \<Rightarrow> (string \<times> int) option \<Rightarrow> string \<Rightarrow> handler_state \<Rightarrow> handler_state \<times> http_answer" where
  "handleUserStopDeployment env user i s =
     (case loadAuthorizedDeployment env user i s of
        (s1, Inl e) \<Rightarrow> (s1, Refused e)
      | (s1, Inr (subject, accountID, d)) \<Rightarrow>
          if \<not> hn_deploymentWorker env \<and> dm_SandboxID d \<noteq> [] then (s1, Refused (writeError 503 ''deployment worker is not configured''))
          else
            let write = (if dm_Status d \<in> set terminal_statuses \<and> dm_SandboxID d = [] then (s1, None)
                  else applyMutationWithAudit env (''github:'' @ subject) ''deployment.stop'' (dm_ID d)
                         (\<lambda>now. UpdateDeployment now (d \<lparr> dm_Status := stopping_status env d \<rparr>)) s1)
            in case write of
                 (s2, Some _) \<Rightarrow> (s2, Refused (writeError 409 ''deployment changed while stopping''))
               | (s2, None) \<Rightarrow>
                   if \<not> hn_deploymentWorker env then load_answer env 200 (dm_ID d) s2
                   else (case run_stop env (dm_ID d) s2 of
                           (s3, None) \<Rightarrow> load_answer env 200 (dm_ID d) s3
                         | (s3, Some err) \<Rightarrow>
                             if err = ErrCreatePending
                             then (case GetDeployment (dm_ID d) (handler_db (others env s3)) of
                                     Inr updated \<Rightarrow> (others env s3, Answered 202 (deploymentResponseFromState updated))
                                   | Inl _ \<Rightarrow> (others env s3, Answered 202 (deploymentResponseFromState no_deployment)))
                             else (s3, Refused (writeError 502 ''deployment cleanup is incomplete''))))"

subsection \<open>Retrying\<close>

record retryDeploymentRequest =
  rq_Mode :: string
  rq_RevisionNumber :: int

definition retry_from_revision :: "Deployment \<Rightarrow> Deployment \<Rightarrow> Deployment" where
  "retry_from_revision revision d = d \<lparr>
     dm_SourceRepositoryID := dm_SourceRepositoryID revision, dm_SourceRepositoryFullName := dm_SourceRepositoryFullName revision,
     dm_SourceRef := dm_SourceRef revision, dm_PullRequestTitle := dm_PullRequestTitle revision, dm_Ref := dm_Ref revision,
     dm_CommitSHA := dm_CommitSHA revision, dm_ConfigPath := dm_ConfigPath revision, dm_SnapshotVersion := dm_SnapshotVersion revision,
     dm_SpecHash := dm_SpecHash revision, dm_SpecJSONEncrypted := dm_SpecJSONEncrypted revision,
     dm_DeploymentTemplateID := dm_DeploymentTemplateID revision, dm_DeploymentTemplateName := dm_DeploymentTemplateName revision,
     dm_DeploymentTemplateCPU := dm_DeploymentTemplateCPU revision, dm_DeploymentTemplateMemoryMB := dm_DeploymentTemplateMemoryMB revision,
     dm_DeploymentTemplateDiskMB := dm_DeploymentTemplateDiskMB revision, dm_SandboxID := [], dm_RuntimeID := [], dm_ProcessID := [], dm_ProcessTag := [] \<rparr>"

definition refreshDeploymentPlanFromGitHub :: "handler_env \<Rightarrow> int \<Rightarrow> Deployment \<Rightarrow> handler_state \<Rightarrow> Deployment option" where
  "refreshDeploymentPlanFromGitHub env accountID d s =
     (let n = step_number s; box = hn_sandbox env n;
          repository = \<lparr> gr_ID = dm_RepositoryID d, gr_FullName = dm_RepositoryFullName d, gr_DefaultBranch = [], gr_Fork = False,
            gr_Owner = \<lparr> ga_ID = 0, ga_Login = [], ga_Type = [] \<rparr> \<rparr>
      in if \<not> hn_gh env then None
         else case githubUserAccessToken (se_decrypt box) (se_settings box) accountID of
           Inl _ \<Rightarrow> None
         | Inr _ \<Rightarrow>
             (case resolveDeploymentSource (hn_sources env n) repository (dm_Ref d) [] of
                Inl _ \<Rightarrow> None
              | Inr source \<Rightarrow>
                  Option.bind (hn_ReadRepositoryFile env n (dm_RepositoryFullName d) (dm_ConfigPath d) (ds_CommitSHA source)) (\<lambda>configData.
                  Option.bind (hn_Parse env configData) (\<lambda>spec.
                  Option.bind (hn_NewPlan env (RepositoryCloneURL (dm_RepositoryFullName d)) (ds_CommitSHA source) spec) (\<lambda>plan.
                  Option.bind (hn_encryptSecret env (pl_SpecJSON plan)) (\<lambda>encryptedSpec.
                    Some (d \<lparr> dm_SourceRepositoryID := ds_RepositoryID source, dm_SourceRepositoryFullName := ds_RepositoryFullName source,
                      dm_SourceRef := ds_Ref source, dm_PullRequestTitle := ds_PullRequestTitle source, dm_CommitSHA := ds_CommitSHA source,
                      dm_SnapshotVersion := pl_Version plan, dm_SpecHash := pl_SpecHash plan, dm_SpecJSONEncrypted := encryptedSpec,
                      dm_SandboxID := [], dm_RuntimeID := [], dm_ProcessID := [], dm_ProcessTag := [] \<rparr>)))))))"

text \<open>What is left of the last attempt is removed first.\<close>

definition retry_cleanup :: "handler_env \<Rightarrow> Deployment \<Rightarrow> handler_state \<Rightarrow> handler_state \<times> (http_error + Deployment)" where
  "retry_cleanup env d s =
     (if dm_SandboxID d = [] then (s, Inr d)
      else if \<not> hn_deploymentWorker env then (s, Inl (writeError 503 ''deployment worker is not configured''))
      else case run_stop env (dm_ID d) s of
        (s1, Some err) \<Rightarrow>
          if err = ErrCreatePending
          then (signalDeployments s1, Inl ((writeErrorCode 409 ''deployment_cleanup_pending'' ''Sandbox cleanup is still reconciling; retry after cleanup completes'')
                  \<lparr> he_RetryAfter := Some ''15'' \<rparr>))
          else (s1, Inl (writeError 502 ''deployment cleanup is incomplete''))
      | (s1, None) \<Rightarrow>
          let s2 = others env s1
          in case GetDeployment (dm_ID d) (handler_db s2) of
               Inl _ \<Rightarrow> (s2, Inl (writeError 500 ''load deployment after cleanup''))
             | Inr d1 \<Rightarrow> (s2, Inr d1))"

definition retry_source :: "handler_env \<Rightarrow> int \<Rightarrow> string \<Rightarrow> int \<Rightarrow> Deployment \<Rightarrow> handler_state \<Rightarrow> handler_state \<times> (http_error + Deployment)" where
  "retry_source env accountID mode revisionNumber d s =
     (let s1 = others env s
      in if mode = ''revision'' \<and> revisionNumber > 0 then
           (case GetDeploymentRevision (we_other (hn_worker env) (step_number s1)) (dm_ID d) revisionNumber (handler_db s1) of
              Inl e \<Rightarrow> (s1, Inl (if e = ErrNotFound then writeError 404 ''deployment revision not found'' else writeError 500 ''load deployment revision''))
            | Inr revision \<Rightarrow> (s1, Inr (retry_from_revision (de_Deployment revision) d)))
         else if mode = ''latest'' then
           (if \<not> HasPrefix (dm_Ref d) ''refs/heads/'' \<and> deploymentPullRequestNumber (dm_Ref d) = 0
            then (s1, Inl (writeErrorCode 400 ''invalid_deployment_retry'' ''latest redeploy is available only for branch or pull request deployments''))
            else case refreshDeploymentPlanFromGitHub env accountID d s1 of
              None \<Rightarrow> (s1, Inl (writeErrorCode 502 ''deployment_latest_source_failed'' ''failed to resolve the latest repository source''))
            | Some d1 \<Rightarrow> (s1, Inr d1))
         else (s, Inr d))"

definition retry_template :: "handler_env \<Rightarrow> int \<Rightarrow> accountPreferenceScope \<Rightarrow> sandboxServiceConfigSnapshot \<Rightarrow> Deployment \<Rightarrow> handler_state \<Rightarrow> http_error option" where
  "retry_template env accountID scope snapshot d s =
     (if sn_Source snapshot = sandboxConfigSourceAdminDefault then authorizeDeploymentTemplate env accountID scope snapshot (dm_DeploymentTemplateID d) s
      else if \<not> hn_ValidateTemplate env (step_number s) snapshot (dm_DeploymentTemplateID d)
      then Some (writeErrorCode 409 ''deployment_template_unavailable'' ''The selected Sandbox template is unavailable or has no runnable default build'')
      else None)"

definition retry_mutation :: "handler_env \<Rightarrow> nat \<Rightarrow> installation_db \<Rightarrow> Deployment \<Rightarrow> instant \<Rightarrow> instant \<Rightarrow> deployment_db \<Rightarrow> error + deployment_db" where
  "retry_mutation env n installations d expiresAt now db =
     (case RetryDeploymentWithScopeLimit (hn_accounts env n) (in_installations installations) now d expiresAt (hn_DeploymentMaxConcurrent env) db of
        Inl e \<Rightarrow> Inl e
      | Inr db1 \<Rightarrow> AppendDeploymentEvent now (queued_event (dm_ID d) (dm_Attempt d) ''Deployment queued for retry.'') db1)"

definition retry_error :: "error \<Rightarrow> http_error" where
  "retry_error e =
     (if e = ErrDeploymentQuotaExceeded then quota_answer
      else if e = ErrRetryNotAllowed then writeError 409 ''deployment retry is not allowed in the current state''
      else if e = ErrConflict then writeError 409 ''deployment changed while retrying''
      else writeError 500 ''retry deployment'')"

definition retry_admit :: "handler_env \<Rightarrow> string \<Rightarrow> int \<Rightarrow> Deployment \<Rightarrow> handler_state \<Rightarrow> handler_state \<times> http_answer" where
  "retry_admit env subject accountID d s =
     (let scope = \<lparr> aps_Type = dm_ScopeType d, aps_ID = dm_ScopeID d \<rparr>
      in if TrimSpace (dm_DeploymentTemplateID d) = []
         then (s, Refused (writeErrorCode 409 ''deployment_template_required'' ''Create a new deployment with an available Sandbox template''))
         else case sandboxServiceForDeployment env scope (dm_GitHubInstallationID d) s of
           (s1, Inl _) \<Rightarrow> (s1, Refused sandbox_answer)
         | (s1, Inr snapshot) \<Rightarrow>
             let s2 = others env s1
             in case retry_template env accountID scope snapshot d s2 of
                  Some e \<Rightarrow> (s2, Refused e)
                | None \<Rightarrow>
                    let d1 = d \<lparr> dm_ExecutionAccountID := accountID, dm_SandboxAPIURL := sn_APIURL snapshot,
                          dm_SandboxAPIKeyEncrypted := sn_EncryptedAPIKey snapshot, dm_SandboxConfigSource := sn_Source snapshot,
                          dm_SandboxRegion := sandboxRegionForAPIURL (hn_sandbox env (step_number s2)) (sn_APIURL snapshot) \<rparr>;
                        expiresAt = now_of env s2 + defaultDeploymentTTL_seconds * Second
                    in case applyMutationWithAudit env (''github:'' @ subject) ''deployment.retry'' (dm_ID d1)
                              (retry_mutation env (step_number s2) (hs_installations s2) d1 expiresAt) s2 of
                         (s3, Some e) \<Rightarrow> (s3, Refused (retry_error e))
                       | (s3, None) \<Rightarrow>
                           (case load_answer env 202 (dm_ID d1) s3 of
                              (s4, Answered status r) \<Rightarrow> (signalDeployments s4, Answered status r)
                            | (s4, Refused e) \<Rightarrow> (s4, Refused e)))"

definition handleUserRetryDeployment ::
  "handler_env \<Rightarrow> (string \<times> int) option \<Rightarrow> string \<Rightarrow> retryDeploymentRequest option \<Rightarrow> handler_state \<Rightarrow> handler_state \<times> http_answer" where
  "handleUserRetryDeployment env user i body s =
     (case loadAuthorizedDeployment env user i s of
        (s1, Inl e) \<Rightarrow> (s1, Refused e)
      | (s1, Inr (subject, accountID, d)) \<Rightarrow>
          (case body of
             None \<Rightarrow> (s1, Refused (writeErrorCode 400 ''invalid_deployment_retry'' ''invalid redeploy selection''))
           | Some input \<Rightarrow>
               let mode0 = TrimSpace (ToLower (rq_Mode input)); mode = (if mode0 = [] then ''revision'' else mode0)
               in if mode \<noteq> ''latest'' \<and> mode \<noteq> ''revision''
                  then (s1, Refused (writeErrorCode 400 ''invalid_deployment_retry'' ''redeploy mode must be latest or revision''))
                  else if dm_Status d \<notin> set terminal_statuses
                  then (s1, Refused (writeError 409 ''deployment retry is not allowed in the current state''))
                  else case retry_cleanup env d s1 of
                    (s2, Inl e) \<Rightarrow> (s2, Refused e)
                  | (s2, Inr d1) \<Rightarrow>
                      (case retry_source env accountID mode (rq_RevisionNumber input) d1 s2 of
                         (s3, Inl e) \<Rightarrow> (s3, Refused e)
                       | (s3, Inr d2) \<Rightarrow> retry_admit env subject accountID d2 s3)))"


subsection \<open>Reading\<close>

text \<open>A positive number of the query, or none when it is blank.\<close>

definition positive_number :: "string \<Rightarrow> (int option) option" where
  "positive_number value =
     (if value = [] then Some None
      else case ParseInt value of None \<Rightarrow> None | Some n \<Rightarrow> if n \<le> 0 then None else Some (Some n))"

definition revision_error :: "error \<Rightarrow> http_error" where
  "revision_error e = (if e = ErrNotFound then writeError 404 ''deployment revision not found'' else writeError 500 ''load deployment revision'')"

text \<open>The detail view: the deployment with its last revisions, the last one that ran, and the one that was selected.\<close>

definition handleUserGetDeployment ::
  "handler_env \<Rightarrow> (string \<times> int) option \<Rightarrow> string \<Rightarrow> string \<Rightarrow> handler_state
     \<Rightarrow> handler_state \<times> (http_error + deploymentResponse \<times> DeploymentRevision list \<times> bool \<times> int \<times> DeploymentRevision option)" where
  "handleUserGetDeployment env user i revision s =
     (case loadAuthorizedDeployment env user i s of
        (s1, Inl e) \<Rightarrow> (s1, Inl e)
      | (s1, Inr (_, _, d)) \<Rightarrow>
          let s2 = others env s1; n = step_number s2; other = we_other (hn_worker env) n
          in case ListDeploymentRevisions other (dm_ID d) 0 100 (handler_db s2) of
               Inl _ \<Rightarrow> (s2, Inl (writeError 500 ''load deployment revisions''))
             | Inr (revisions, more_left) \<Rightarrow>
                 let s3 = others env s2;
                     lastSuccessful = LastSuccessfulDeploymentRevisionNumber (dm_ID d) (handler_db s3);
                     answer = (\<lambda>selected. Inr (deploymentResponseFromState d, revisions, more_left, lastSuccessful, selected))
                 in (case positive_number (TrimSpace revision) of
                       None \<Rightarrow> (s3, Inl (writeError 400 ''invalid revision number''))
                     | Some None \<Rightarrow> (s3, answer None)
                     | Some (Some number) \<Rightarrow>
                         let s4 = others env s3
                         in case GetDeploymentRevision (we_other (hn_worker env) (step_number s4)) (dm_ID d) number (handler_db s4) of
                              Inl e \<Rightarrow> (s4, Inl (revision_error e))
                            | Inr r \<Rightarrow> (s4, answer (Some r))))"

definition handleUserListDeploymentRevisions ::
  "handler_env \<Rightarrow> (string \<times> int) option \<Rightarrow> string \<Rightarrow> string \<Rightarrow> handler_state \<Rightarrow> handler_state \<times> (http_error + DeploymentRevision list \<times> bool)" where
  "handleUserListDeploymentRevisions env user i before s =
     (case loadAuthorizedDeployment env user i s of
        (s1, Inl e) \<Rightarrow> (s1, Inl e)
      | (s1, Inr (_, _, d)) \<Rightarrow>
          (case positive_number (TrimSpace before) of
             None \<Rightarrow> (s1, Inl (writeError 400 ''invalid before_number''))
           | Some number \<Rightarrow>
               let s2 = others env s1
               in case ListDeploymentRevisions (we_other (hn_worker env) (step_number s2)) (dm_ID d) (case number of None \<Rightarrow> 0 | Some n \<Rightarrow> n) 100 (handler_db s2) of
                    Inl _ \<Rightarrow> (s2, Inl (writeError 500 ''list deployment revisions''))
                  | Inr page \<Rightarrow> (s2, Inr page)))"

definition event_limit :: "string \<Rightarrow> int option" where
  "event_limit value = (case positive_number (TrimSpace value) of None \<Rightarrow> None | Some None \<Rightarrow> Some 200 | Some (Some n) \<Rightarrow> Some (min n 500))"

definition handleUserListDeploymentEvents ::
  "handler_env \<Rightarrow> (string \<times> int) option \<Rightarrow> string \<Rightarrow> string \<Rightarrow> string \<Rightarrow> string \<Rightarrow> string \<Rightarrow> handler_state
     \<Rightarrow> handler_state \<times> (http_error + DeploymentEvent list \<times> bool)" where
  "handleUserListDeploymentEvents env user i number limit before_id after_id s =
     (case loadAuthorizedDeployment env user i s of
        (s1, Inl e) \<Rightarrow> (s1, Inl e)
      | (s1, Inr (_, _, d)) \<Rightarrow>
          (case positive_number number of
             None \<Rightarrow> (s1, Inl (writeError 400 ''invalid revision number''))
           | Some revision \<Rightarrow>
               (case event_limit limit of
                  None \<Rightarrow> (s1, Inl (writeError 400 ''invalid limit''))
                | Some n \<Rightarrow>
                    (case positive_number (TrimSpace before_id) of
                       None \<Rightarrow> (s1, Inl (writeError 400 ''invalid before_id''))
                     | Some before \<Rightarrow>
                         (case positive_number (TrimSpace after_id) of
                            None \<Rightarrow> (s1, Inl (writeError 400 ''invalid after_id''))
                          | Some after \<Rightarrow>
                              if before \<noteq> None \<and> after \<noteq> None then (s1, Inl (writeError 400 ''before_id and after_id are mutually exclusive''))
                              else
                                let s2 = others env s1; k = step_number s2; cursor = (\<lambda>c. case c of None \<Rightarrow> 0 | Some x \<Rightarrow> x)
                                in case ListDeploymentRevisionEvents (\<lambda>j. we_other (hn_worker env) (k + j)) (dm_ID d)
                                          (case revision of None \<Rightarrow> dm_RevisionNumber d | Some x \<Rightarrow> x) (cursor before) (cursor after) n (handler_db s2) of
                                     Inl e \<Rightarrow> (s2, Inl (if e = ErrNotFound then writeError 404 ''deployment revision not found'' else writeError 500 ''list deployment events''))
                                   | Inr page \<Rightarrow> (s2, Inr page))))))"

text \<open>The title of a pull request, for deployments from before it was kept; GitHub's answer is an argument.\<close>

definition handleUserGetDeploymentPullRequest ::
  "handler_env \<Rightarrow> (nat \<Rightarrow> string \<Rightarrow> int \<Rightarrow> string) \<Rightarrow> (string \<times> int) option \<Rightarrow> string \<Rightarrow> handler_state \<Rightarrow> handler_state \<times> (http_error + int \<times> string)" where
  "handleUserGetDeploymentPullRequest env title_of user i s =
     (case loadAuthorizedDeployment env user i s of
        (s1, Inl e) \<Rightarrow> (s1, Inl e)
      | (s1, Inr (_, _, d)) \<Rightarrow>
          let number = deploymentPullRequestNumber (dm_Ref d)
          in if number = 0 then (s1, Inl (writeError 404 ''deployment is not a pull request''))
             else if TrimSpace (dm_PullRequestTitle d) \<noteq> [] then (s1, Inr (number, dm_PullRequestTitle d))
             else
               let s2 = others env s1; title = TrimSpace (title_of (step_number s2) (dm_RepositoryFullName d) number)
               in if title = [] then (s2, Inr (number, title))
                  else case FillDeploymentPullRequestTitle (dm_ID d) (dm_Ref d) title (handler_db s2) of
                    Inl _ \<Rightarrow> (s2, Inl (writeError 500 ''save deployment pull request title''))
                  | Inr db \<Rightarrow> (set_db db s2, Inr (number, title)))"

end
