(* ===== verification/HandlerSafety.thy ===== *)
theory HandlerSafety
  imports DeploymentHandlers
begin

text \<open>
  The handlers of deployments meet the rely condition of the worker, nothing is written for a user without access to the repository,
  and a repeated request is recognized. What a stop or a retry does to a sandbox is on the trace of the worker's part of the state.
\<close>

subsection \<open>The handlers and the worker's rely condition\<close>

abbreviation hgood :: "handler_state \<Rightarrow> bool" where
  "hgood s \<equiv> good (hs_worker s)"

lemma hgood_others: "rely (hn_worker env) \<Longrightarrow> hgood s \<Longrightarrow> hgood (others env s)"
  by (simp add: others_def good_interfere)

lemma hgood_noted: "hgood s \<Longrightarrow> hgood (noted d s)"
  by (simp add: noted_def good_log_simple(3))

lemma hgood_set_db: "hgood s \<Longrightarrow> worker_rows_ok db \<Longrightarrow> hgood (set_db db s)"
  by (simp add: set_db_def good_def)

lemma hgood_rows: "hgood s \<Longrightarrow> worker_rows_ok (handler_db s)"
  by (simp add: good_def handler_db_def)

lemma applyMutationWithAudit_good:
  assumes "rely (hn_worker env)" "hgood s" "\<And>now db db'. worker_rows_ok db \<Longrightarrow> mutation now db = Inr db' \<Longrightarrow> worker_rows_ok db'"
  shows "hgood (fst (applyMutationWithAudit env actor action resource mutation s))"
proof -
  note i = hgood_others [OF assms(1,2)]
  have "hgood (set_db db (others env s))" if "mutation now (handler_db (others env s)) = Inr db" for now db
    using hgood_set_db [OF i] assms(3) [OF hgood_rows [OF i] that] by simp
  then show ?thesis using i by (auto simp: applyMutationWithAudit_def Let_def split: sum.split option.split)
qed

lemma AppendDeploymentEvent_rows: "worker_rows_ok db \<Longrightarrow> AppendDeploymentEvent now e db = Inr db' \<Longrightarrow> worker_rows_ok db'"
proof -
  assume "worker_rows_ok db" "AppendDeploymentEvent now e db = Inr db'"
  moreover from this have "dp_deployments db' = dp_deployments db"
    by (auto simp: AppendDeploymentEvent_def Let_def split: if_splits option.splits sum.splits)
  ultimately show ?thesis using AppendDeploymentEvent_ok [of db now e db'] by (simp add: worker_rows_ok_def)
qed

lemma create_mutation_rows:
  assumes "worker_rows_ok db" "create_mutation env n installations d now db = Inr db'" "TrimSpace (dm_SandboxID d) = []"
  shows "worker_rows_ok db'"
proof -
  obtain db1 d1 where "createDeployment now d db = Inr (db1, d1)" "AppendDeploymentEvent now (queued_event (dm_ID d) 0 ''Deployment queued for execution.'') db1 = Inr db'"
    using assms(2) by (auto simp: create_mutation_def CreateDeploymentWithScopeLimit_def split: sum.splits if_splits)
  then show ?thesis using createDeployment_worker_rows_ok [OF assms(1) _ assms(3)] AppendDeploymentEvent_rows by blast
qed

lemma retry_mutation_rows:
  assumes "worker_rows_ok db" "retry_mutation env n installations d t now db = Inr db'"
  shows "worker_rows_ok db'"
proof -
  obtain db1 where "retryDeployment now d t db = Inr db1" "AppendDeploymentEvent now (queued_event (dm_ID d) (dm_Attempt d) ''Deployment queued for retry.'') db1 = Inr db'"
    using assms(2) by (auto simp: retry_mutation_def RetryDeploymentWithScopeLimit_def split: sum.splits)
  then show ?thesis using retryDeployment_worker_rows_ok [OF assms(1)] AppendDeploymentEvent_rows by blast
qed

lemma sandboxServiceForDeployment_worker [simp]: "hs_worker (fst (sandboxServiceForDeployment env scope i s)) = hs_worker s"
  by (auto simp: sandboxServiceForDeployment_def Let_def split: sum.split prod.split)

lemma signalDeployments_worker [simp]: "hs_worker (signalDeployments s) = hs_worker s"
  by (simp add: signalDeployments_def)

lemma writeDeploymentReplay_good: "rely (hn_worker env) \<Longrightarrow> hgood s \<Longrightarrow> hgood (fst (writeDeploymentReplay env i a b c input s))"
  using hgood_others by (auto simp: writeDeploymentReplay_def Let_def split: sum.split)

lemma persist_new_good:
  assumes "rely (hn_worker env)" "hgood s" "TrimSpace (dm_SandboxID d) = []"
  shows "hgood (fst (persist_new env subject key a b c input d s))"
proof -
  let ?m = "applyMutationWithAudit env (''github:'' @ subject) ''deployment.create'' (dm_ID d) (create_mutation env (step_number s) (hs_installations s) d) s"
  obtain s1 e where m: "?m = (s1, e)" by force
  have "hgood (fst ?m)" using create_mutation_rows assms(3) by (intro applyMutationWithAudit_good [OF assms(1,2)]) blast
  then have g: "hgood s1" by (simp only: m fst_conv)
  obtain s2 q where r: "writeDeploymentReplay env (dm_ID d) a b c input s1 = (s2, q)" by force
  have g2: "hgood s2" using writeDeploymentReplay_good [OF assms(1) g, of "dm_ID d" a b c input] by (simp add: r)
  show ?thesis unfolding persist_new_def m using g g2 by (cases e; cases q) (simp_all add: r Let_def)
qed

lemma create_authorized_good:
  assumes "rely (hn_worker env)" "hgood s"
  shows "hgood (fst (create_authorized env subject a key i input installation scope repository s))"
proof -
  obtain s1 q where box: "sandboxServiceForDeployment env scope (gi_InstallationID installation) s = (s1, q)" by force
  have g: "hgood s1" using assms(2) sandboxServiceForDeployment_worker [of env scope "gi_InstallationID installation" s] by (simp add: box)
  have g2: "hgood (others env s1)" "hgood (others env (others env s1))" using hgood_others [OF assms(1)] g by auto
  show ?thesis
    using assms(2) g g2 persist_new_good [OF assms(1) g2(2)]
    by (auto simp: create_authorized_def box Let_def new_deployment_def split: sum.split option.split)
qed

lemma handleUserCreateDeployment_good:
  assumes "rely (hn_worker env)" "hgood s"
  shows "hgood (fst (handleUserCreateDeployment env user body key s))"
proof -
  have i: "hgood (others env s)" using hgood_others [OF assms] .
  have replay: "hgood (fst (case (if k \<noteq> [] then writeDeploymentReplay env j a b c input (others env s) else (others env s, None)) of
      (s2, Some answer) \<Rightarrow> (s2, answer) | (s2, None) \<Rightarrow> create_authorized env subject x k j input installation scope repository s2))"
    for k j a b c input subject x installation scope repository
  proof -
    obtain s2 q where r: "(if k \<noteq> [] then writeDeploymentReplay env j a b c input (others env s) else (others env s, None)) = (s2, q)" by force
    have "hgood s2" using writeDeploymentReplay_good [OF assms(1) i, of j a b c input] i r by (auto split: if_splits)
    then show ?thesis unfolding r using create_authorized_good [OF assms(1)] by (cases q) auto
  qed
  show ?thesis
    using assms(2) i replay by (auto simp: handleUserCreateDeployment_def Let_def split: option.split sum.split)
qed


lemma run_stop_good: "rely (hn_worker env) \<Longrightarrow> hgood s \<Longrightarrow> hgood (fst (run_stop env i s))"
  using Stop_good [of "hn_worker env" "hs_worker s" i False] by (auto simp: run_stop_def split: prod.split)

lemma load_answer_good: "rely (hn_worker env) \<Longrightarrow> hgood s \<Longrightarrow> hgood (fst (load_answer env status i s))"
  using hgood_others by (auto simp: load_answer_def Let_def split: sum.split)

text \<open>The deployment that is loaded is a row of the tables, and the user has access to its repository.\<close>

lemma loadAuthorizedDeployment_good:
  assumes "rely (hn_worker env)" "hgood s" "loadAuthorizedDeployment env user i s = (s', r)"
  shows "hgood s'"
  using assms hgood_others [of env] hgood_noted by (auto simp: loadAuthorizedDeployment_def Let_def split: option.splits prod.splits sum.splits if_splits)

lemma handleUserStopDeployment_good:
  assumes env: "rely (hn_worker env)" and s: "hgood s"
  shows "hgood (fst (handleUserStopDeployment env user i s))"
proof -
  obtain s1 r where load: "loadAuthorizedDeployment env user i s = (s1, r)" by force
  note g1 = loadAuthorizedDeployment_good [OF env s load]
  show ?thesis
  proof (cases r)
    case (Inl e)
    then show ?thesis using g1 by (simp add: handleUserStopDeployment_def load)
  next
    case (Inr x)
    obtain subject a d where x: "x = (subject, a, d)" by (metis prod_cases3)
    define actor where "actor = ''github:'' @ subject"
    let ?w = "if dm_Status d \<in> set terminal_statuses \<and> dm_SandboxID d = [] then (s1, None)
      else applyMutationWithAudit env actor ''deployment.stop'' (dm_ID d) (\<lambda>now. UpdateDeployment now (d \<lparr> dm_Status := stopping_status env d \<rparr>)) s1"
    obtain s2 e where w: "?w = (s2, e)" by force
    have "clean (d \<lparr> dm_Status := stopping_status env d \<rparr>)" by (simp add: clean_def stopping_status_def)
    then have "hgood (fst (applyMutationWithAudit env actor ''deployment.stop'' (dm_ID d) (\<lambda>now. UpdateDeployment now (d \<lparr> dm_Status := stopping_status env d \<rparr>)) s1))"
      using UpdateDeployment_worker_rows_ok by (intro applyMutationWithAudit_good [OF env g1]) blast
    then have g2: "hgood s2" using g1 w by (metis fst_conv)
    obtain s3 err where stop: "run_stop env (dm_ID d) s2 = (s3, err)" by force
    have g3: "hgood s3" "hgood (others env s3)" using run_stop_good [OF env g2, of "dm_ID d"] hgood_others [OF env] by (simp_all add: stop)
    show ?thesis
      unfolding handleUserStopDeployment_def load Inr x prod.case sum.case actor_def [symmetric] Let_def w
      using g1 g2 g3 load_answer_good [OF env g2] load_answer_good [OF env g3(1)]
      by (cases e; cases err) (auto simp: stop split: sum.split)
  qed
qed

lemma retry_cleanup_good:
  assumes env: "rely (hn_worker env)" and s: "hgood s" and step: "retry_cleanup env d s = (s', r)"
  shows "hgood s'"
proof -
  obtain s1 err where stop: "run_stop env (dm_ID d) s = (s1, err)" by force
  have "hgood s1" "hgood (others env s1)" using run_stop_good [OF env s, of "dm_ID d"] hgood_others [OF env] by (simp_all add: stop)
  then show ?thesis using s step by (auto simp: retry_cleanup_def stop Let_def split: option.splits if_splits sum.splits)
qed

lemma retry_source_good: "rely (hn_worker env) \<Longrightarrow> hgood s \<Longrightarrow> retry_source env a mode n d s = (s', r) \<Longrightarrow> hgood s'"
  using hgood_others [of env s] by (auto simp: retry_source_def Let_def split: if_splits sum.splits option.splits)

lemma retry_admit_good:
  assumes env: "rely (hn_worker env)" and s: "hgood s"
  shows "hgood (fst (retry_admit env subject a d s))"
proof -
  define scope where "scope = \<lparr> aps_Type = dm_ScopeType d, aps_ID = dm_ScopeID d \<rparr>"
  define actor where "actor = ''github:'' @ subject"
  obtain s1 q where box: "sandboxServiceForDeployment env scope (dm_GitHubInstallationID d) s = (s1, q)" by force
  have "hgood s1" using s sandboxServiceForDeployment_worker [of env scope "dm_GitHubInstallationID d" s] by (simp add: box)
  then have g2: "hgood (others env s1)" using hgood_others [OF env] by blast
  have m: "hgood (fst (case applyMutationWithAudit env actor ''deployment.retry'' i (retry_mutation env n ins d1 t) (others env s1) of
      (s3, Some e) \<Rightarrow> (s3, Refused (retry_error e))
    | (s3, None) \<Rightarrow> (case load_answer env 202 i s3 of (s4, Answered status r) \<Rightarrow> (signalDeployments s4, Answered status r) | (s4, Refused e) \<Rightarrow> (s4, Refused e))))"
    for i n ins d1 t
  proof -
    obtain s3 e where ap: "applyMutationWithAudit env actor ''deployment.retry'' i (retry_mutation env n ins d1 t) (others env s1) = (s3, e)" by force
    have "hgood (fst (applyMutationWithAudit env actor ''deployment.retry'' i (retry_mutation env n ins d1 t) (others env s1)))"
      using retry_mutation_rows by (intro applyMutationWithAudit_good [OF env g2]) blast
    then have g3: "hgood s3" by (simp add: ap)
    obtain s4 r where la: "load_answer env 202 i s3 = (s4, r)" by force
    have "hgood s4" using load_answer_good [OF env g3, of 202 i] by (simp add: la)
    then show ?thesis using g3 by (cases e; cases r) (simp_all add: ap la)
  qed
  show ?thesis
    unfolding retry_admit_def scope_def [symmetric] actor_def [symmetric] box Let_def prod.case
    using s \<open>hgood s1\<close> g2 m by (cases q) (auto split: option.split)
qed

lemma handleUserRetryDeployment_good:
  assumes env: "rely (hn_worker env)" and s: "hgood s"
  shows "hgood (fst (handleUserRetryDeployment env user i body s))"
proof -
  obtain s1 r where load: "loadAuthorizedDeployment env user i s = (s1, r)" by force
  note g1 = loadAuthorizedDeployment_good [OF env s load]
  have rest: "hgood (fst (case retry_cleanup env d s1 of (s2, Inl e) \<Rightarrow> (s2, Refused e)
      | (s2, Inr d1) \<Rightarrow> (case retry_source env a mode n d1 s2 of (s3, Inl e) \<Rightarrow> (s3, Refused e) | (s3, Inr d2) \<Rightarrow> retry_admit env subject a d2 s3)))"
    for d a mode n subject
  proof -
    obtain s2 q where c: "retry_cleanup env d s1 = (s2, q)" by force
    note g2 = retry_cleanup_good [OF env g1 c]
    have "hgood (fst (case retry_source env a mode n d1 s2 of (s3, Inl e) \<Rightarrow> (s3, Refused e) | (s3, Inr d2) \<Rightarrow> retry_admit env subject a d2 s3))" for d1
    proof -
      obtain s3 q3 where c3: "retry_source env a mode n d1 s2 = (s3, q3)" by force
      show ?thesis using retry_source_good [OF env g2 c3] retry_admit_good [OF env] by (cases q3) (simp_all add: c3)
    qed
    then show ?thesis using g2 by (cases q) (simp_all add: c)
  qed
  show ?thesis
    using g1 rest by (cases r) (auto simp: handleUserRetryDeployment_def load Let_def split: option.split)
qed

lemma handleUserGetDeploymentPullRequest_good:
  assumes env: "rely (hn_worker env)" and s: "hgood s"
  shows "hgood (fst (handleUserGetDeploymentPullRequest env title_of user i s))"
proof -
  obtain s1 r where load: "loadAuthorizedDeployment env user i s = (s1, r)" by force
  note g1 = loadAuthorizedDeployment_good [OF env s load]
  note g2 = hgood_others [OF env g1]
  have "hgood (set_db db (others env s1))" if "FillDeploymentPullRequestTitle j ref title (handler_db (others env s1)) = Inr db" for j ref title db
    using hgood_set_db [OF g2] FillDeploymentPullRequestTitle_worker_rows_ok [OF hgood_rows [OF g2] that] by simp
  then show ?thesis
    using g1 g2 by (cases r) (auto simp: handleUserGetDeploymentPullRequest_def load Let_def split: sum.split)
qed

text \<open>A stop that succeeds leaves no sandbox behind: the provider said that it is gone, or the row had none.\<close>

lemma stop_released:
  assumes env: "rely env" and s: "good s" and step: "stop env i expired ob s = (s', None)"
  shows "watch (TrimSpace i) (ws_trace s') = Some []"
proof -
  obtain s1 d where get: "get_deployment env i s = (s1, Inr d)"
    using step by (cases "get_deployment env i s") (auto simp: stop_def split: sum.splits)
  have d: "holds d s1" "dm_ID d = TrimSpace i" "good s1"
    using get_deployment_good [OF env s get] get_deployment_only [OF get] by auto
  show ?thesis
  proof (cases "dm_Status d \<in> set terminal_statuses \<and> TrimSpace (dm_SandboxID d) = []")
    case True
    then have "s' = s1" using step by (auto simp: stop_def get Let_def split: if_splits option.splits)
    then show ?thesis using holds_blank [OF d(1)] True d(2) by (simp add: free_def)
  next
    case False
    define final where "final = (\<lambda>x s4 d2. ends (persist env (stopped_state expired x
        ((dm_Status d = DeploymentStatusFailed \<or> (dm_Status d = DeploymentStatusStopping \<and> dm_FailureReason d \<noteq> [])) \<and> dm_FailureStage d \<noteq> expiryCleanupStage) d2) s4))"
    obtain s2 d1 where look: "stop_lookup env d s1 = (s2, Inr d1)"
      using step False by (cases "stop_lookup env d s1") (auto simp: stop_def get Let_def split: if_splits option.splits sum.splits)
    have d1: "good s2" "holds d1 s2" "dm_ID d1 = dm_ID d" using stop_lookup_good [OF env d(3,1) look] by auto
    obtain s3 d2 where t: "transition env d1 DeploymentStatusStopping ''cleanup'' [] s2 = (s3, d2, None)"
      using step False by (cases "transition env d1 DeploymentStatusStopping ''cleanup'' [] s2")
        (auto simp: stop_def get look Let_def split: if_splits option.splits)
    have d2: "good s3" "holds d2 s3" "dm_ID d2 = TrimSpace i" using transition_good [OF env d1(1,2) _ t] d1(3) d(2) by simp_all
    obtain x s4 where run: "stop_runtime env x d2 s3 = (s4, None)" and last: "final x s4 d2 = (s', None)"
      using step False unfolding stop_def get prod.case sum.case Let_def look t final_def
      by (auto split: if_splits option.splits prod.splits)
    have "free d2 s4" using stop_runtime_releases [OF env d2(1,2), of x] run by (simp add: releases_def)
    then show ?thesis
      using last d2(3) by (auto simp: final_def ends_def persist_def Let_def free_def log_event_def stopped_state_def clear_attempt_def split: sum.splits)
  qed
qed

lemma others_trace [simp]: "ws_trace (hs_worker (others env s)) = ws_trace (hs_worker s)"
  by (simp add: others_def)

lemma handler_steps_trace:
  "applyMutationWithAudit env actor action j mutation s = (s', e) \<Longrightarrow> ws_trace (hs_worker s') = ws_trace (hs_worker s)"
  "load_answer env status j s = (s', answer) \<Longrightarrow> ws_trace (hs_worker s') = ws_trace (hs_worker s)"
  "retry_source env a mode n d s = (s', q) \<Longrightarrow> ws_trace (hs_worker s') = ws_trace (hs_worker s)"
  "sandboxServiceForDeployment env scope k s = (s', box) \<Longrightarrow> ws_trace (hs_worker s') = ws_trace (hs_worker s)"
  using sandboxServiceForDeployment_worker [of env scope k s]
  by (auto simp: applyMutationWithAudit_def load_answer_def retry_source_def set_db_def Let_def split: sum.splits option.splits if_splits)

lemma retry_admit_trace: "ws_trace (hs_worker (fst (retry_admit env subject a d s))) = ws_trace (hs_worker s)"
  by (auto simp: retry_admit_def Let_def split: prod.splits sum.splits option.splits http_answer.splits dest!: handler_steps_trace)

lemma loadAuthorizedDeployment_trace:
  assumes "loadAuthorizedDeployment env user i s = (s', Inr (subject, a, d))"
  shows "ws_trace (hs_worker s') = ws_trace (hs_worker s) @ [WasRead d] \<and> dm_ID d = TrimSpace i"
proof -
  obtain x where "GetDeployment (TrimSpace i) (handler_db x) = Inr d" "ws_trace (hs_worker s') = ws_trace (hs_worker s) @ [WasRead d]"
    using assms by (auto simp: loadAuthorizedDeployment_def noted_def log_event_def Let_def split: option.splits sum.splits if_splits)
  then show ?thesis by (auto simp: GetDeployment_def deploymentFromRecord_def dest: lookup_by_in split: option.splits)
qed

lemma retry_released:
  assumes env: "rely (hn_worker env)" and s: "hgood s" and retry: "handleUserRetryDeployment env user i body s = (s', Answered status r)"
  shows "\<exists>d events. dm_ID d = TrimSpace i \<and> ws_trace (hs_worker s') = ws_trace (hs_worker s) @ WasRead d # events
    \<and> watch (TrimSpace i) (ws_trace (hs_worker s')) = Some []"
proof -
  obtain s1 subject a d where load: "loadAuthorizedDeployment env user i s = (s1, Inr (subject, a, d))"
    using retry by (cases "loadAuthorizedDeployment env user i s") (auto simp: handleUserRetryDeployment_def split: sum.splits)
  note g1 = loadAuthorizedDeployment_good [OF env s load] and t1 = loadAuthorizedDeployment_trace [OF load]
  obtain input where body: "body = Some input" using retry by (auto simp: handleUserRetryDeployment_def load split: option.splits)
  obtain s2 d1 where clean: "retry_cleanup env d s1 = (s2, Inr d1)"
    using retry by (cases "retry_cleanup env d s1") (auto simp: handleUserRetryDeployment_def load body Let_def split: if_splits sum.splits)
  obtain mode s3 d2 where src: "retry_source env a mode (rq_RevisionNumber input) d1 s2 = (s3, Inr d2)" and
    admit: "retry_admit env subject a d2 s3 = (s', Answered status r)"
    using retry by (auto simp: handleUserRetryDeployment_def load body clean Let_def split: if_splits prod.splits sum.splits)
  have rest: "ws_trace (hs_worker s') = ws_trace (hs_worker s2)"
    using retry_admit_trace [of env subject a d2 s3] admit handler_steps_trace(3) [OF src] by simp
  have known: "watch (TrimSpace i) (ws_trace (hs_worker s1)) = Some (TrimSpace (dm_SandboxID d))"
    using t1 goodD [OF s, of "TrimSpace i"] by auto
  have "(\<exists>events. ws_trace (hs_worker s2) = ws_trace (hs_worker s1) @ events) \<and> watch (TrimSpace i) (ws_trace (hs_worker s2)) = Some []"
  proof (cases "dm_SandboxID d = []")
    case True
    then show ?thesis using clean known by (simp add: retry_cleanup_def)
  next
    case False
    then obtain w where stop: "Stop (hn_worker env) (dm_ID d) False (hs_worker s1) = (w, None)" "ws_trace (hs_worker s2) = ws_trace w"
      using clean by (auto simp: retry_cleanup_def run_stop_def Let_def split: if_splits prod.splits option.splits sum.splits)
    then show ?thesis
      using stop_released [OF env g1, of "dm_ID d" False None w] stop_only [of "hn_worker env" "dm_ID d" False None "hs_worker s1" w None] t1
      by (auto simp: Stop_def only_def)
  qed
  then show ?thesis using t1 rest by auto
qed

text \<open>C39: what the handlers of deployments leave behind, under the condition on which the worker relies as well: that the other users of the tables, between the statements of a handler, keep
  them consistent with no sandbox on a deployment that waits, and that a connection is bound to the sandbox that was asked for. Then each handler that writes deployments keeps
  this condition itself, whatever the user asks for. The worker's code that a stop or a retry runs never forgets a sandbox. And a retry that is answered with the
  deployment has first removed the sandbox of the deployment it loaded: the provider said that it is gone, or the row was read again without one. (What a
  retry does with a row that gets a new sandbox after this is not covered: a retry of a revision drops that sandbox.)\<close>

theorem handlers_meet_worker_rely:
  assumes "\<forall>n db. worker_rows_ok db \<longrightarrow> worker_rows_ok (we_other (hn_worker env) n db)"
    and "\<forall>n x t h. we_ConnectDeploymentRuntime (hn_worker env) n x t = Inr h \<longrightarrow> TrimSpace (rh_SandboxID h) = TrimSpace x"
    and "worker_rows_ok (handler_db s)" "ws_trace (hs_worker s) = []"
  shows "worker_rows_ok (handler_db (fst (handleUserCreateDeployment env user request key s)))
    \<and> worker_rows_ok (handler_db (fst (handleUserStopDeployment env user i s)))
    \<and> worker_rows_ok (handler_db (fst (handleUserRetryDeployment env user i retry s)))
    \<and> worker_rows_ok (handler_db (fst (handleUserGetDeploymentPullRequest env title_of user i s)))
    \<and> never_forgets (ws_trace (hs_worker (fst (handleUserStopDeployment env user i s))))
    \<and> never_forgets (ws_trace (hs_worker (fst (handleUserRetryDeployment env user i retry s))))
    \<and> (case handleUserRetryDeployment env user i retry s of
         (s', Answered status r) \<Rightarrow> (\<exists>d events. dm_ID d = TrimSpace i \<and> ws_trace (hs_worker s') = WasRead d # events
            \<and> watch (TrimSpace i) (WasRead d # events) = Some [])
       | (s', Refused e) \<Rightarrow> True)"
proof -
  have env: "rely (hn_worker env)" using assms(1,2) unfolding rely_def by blast
  have s: "hgood s" using assms(3,4) by (simp add: good_def handler_db_def never_forgets_def watch_def)
  have good: "hgood (fst (handleUserCreateDeployment env user request key s))" "hgood (fst (handleUserStopDeployment env user i s))"
    "hgood (fst (handleUserRetryDeployment env user i retry s))" "hgood (fst (handleUserGetDeploymentPullRequest env title_of user i s))"
    using handleUserCreateDeployment_good [OF env s] handleUserStopDeployment_good [OF env s] handleUserRetryDeployment_good [OF env s]
      handleUserGetDeploymentPullRequest_good [OF env s] by blast+
  have "case handleUserRetryDeployment env user i retry s of
         (s', Answered status r) \<Rightarrow> (\<exists>d events. dm_ID d = TrimSpace i \<and> ws_trace (hs_worker s') = WasRead d # events
            \<and> watch (TrimSpace i) (WasRead d # events) = Some [])
       | (s', Refused e) \<Rightarrow> True"
    using retry_released [OF env s] assms(4) by (fastforce split: prod.split http_answer.split)
  then show ?thesis using good hgood_rows unfolding good_def by blast
qed

subsection \<open>Who may deploy\<close>

lemma githubInstallationForAccount_Some:
  assumes "githubInstallationForAccount requests installations accountID i = Inr (Some installation)"
  shows "\<exists>row\<in>set (in_installations installations). gi_AccountID row = accountID \<and> gi_ID row = i
    \<and> installation = row \<lparr> gi_AccountType := normalizeGitHubAccountType (gi_AccountType row) \<rparr>"
proof -
  obtain items where items: "ListGitHubInstallations accountID requests installations = Inr items"
    and item: "find (\<lambda>r. gi_ID r = i) (map gn_record items) = Some installation"
    using assms by (auto simp: githubInstallationForAccount_def map_sum_def split: sum.splits)
  have "installation \<in> set (map gn_record items)" "gi_ID installation = i" using item by (auto simp: find_Some_iff)
  then show ?thesis using items by (fastforce simp: ListGitHubInstallations_def recordToGitHubInstallation_def Let_def split: if_splits)
qed

text \<open>What the authorization of a request has looked at: a row of the installations that is linked to the account, and GitHub's list for the user's own token.\<close>

definition repository_granted :: "handler_env \<Rightarrow> int \<Rightarrow> createDeploymentRequest \<Rightarrow> handler_state \<Rightarrow> githubInstallationRecord \<Rightarrow> SourceRepository \<Rightarrow> bool" where
  "repository_granted env accountID input s row repository \<longleftrightarrow>
     (let n = step_number s; box = hn_sandbox env n
      in row \<in> set (in_installations (hs_installations s)) \<and> gi_AccountID row = accountID \<and> gi_ID row = cr_InstallationID input
         \<and> (case githubUserAccessToken (se_decrypt box) (se_settings box) accountID of
              Inl _ \<Rightarrow> False
            | Inr token \<Rightarrow>
                (case hn_ListUserInstallationRepositoryDetails env n token (gi_InstallationID row) of
                   Inl _ \<Rightarrow> False
                 | Inr repositories \<Rightarrow> repository \<in> set repositories))
         \<and> gr_ID repository > 0 \<and> EqualFold (TrimSpace (gr_FullName repository)) (TrimSpace (cr_RepositoryFullName input)))"

lemma authorize_repository_Inr:
  assumes "authorize_repository env accountID input s = Inr (installation, scope, repository)"
  shows "\<exists>row. repository_granted env accountID input s row repository \<and> gi_InstallationID installation = gi_InstallationID row"
proof -
  let ?n = "step_number s"
  obtain token repositories where found: "githubInstallationForAccount (hn_requests env ?n) (hs_installations s) accountID (cr_InstallationID input) = Inr (Some installation)"
    and token: "githubUserAccessToken (se_decrypt (hn_sandbox env ?n)) (se_settings (hn_sandbox env ?n)) accountID = Inr token"
    and repositories: "hn_ListUserInstallationRepositoryDetails env ?n token (gi_InstallationID installation) = Inr repositories"
    and repository: "deploymentRepositoryAccess repositories (cr_RepositoryFullName input) installation = Some repository"
    using assms by (auto simp: authorize_repository_def Let_def split: sum.splits option.splits if_splits)
  have "repository \<in> set repositories" "repository_matches (cr_RepositoryFullName input) installation repository"
    using repository by (auto simp: deploymentRepositoryAccess_def find_Some_iff)
  then show ?thesis
    using githubInstallationForAccount_Some [OF found] token repositories
    by (auto simp: repository_granted_def repository_matches_def Let_def)
qed

text \<open>The row that a creation has written, which is the normalized deployment with its defaults and times, as its first revision, and the audit event beside it.\<close>

definition deployment_recorded :: "string \<Rightarrow> Deployment \<Rightarrow> handler_state \<Rightarrow> bool" where
  "deployment_recorded subject d s \<longleftrightarrow>
     (\<exists>now d1. normalizeDeployment (d \<lparr> dm_RevisionNumber := 1 \<rparr>) = Inr d1
        \<and> applyDeploymentTimestamps (deployment_row (fill_defaults now d1)) now \<in> set (dp_deployments (handler_db s)))
     \<and> hs_audit s \<noteq> [] \<and> last (hs_audit s) = (''github:'' @ subject, ''deployment.create'', dm_ID d)"

lemma create_mutation_row:
  assumes "create_mutation env n installations d now db = Inr db'"
  shows "\<exists>d1. normalizeDeployment (d \<lparr> dm_RevisionNumber := 1 \<rparr>) = Inr d1
    \<and> applyDeploymentTimestamps (deployment_row (fill_defaults now d1)) now \<in> set (dp_deployments db')"
proof -
  obtain db1 d1 where create: "createDeployment now d db = Inr (db1, d1)" and event: "AppendDeploymentEvent now (queued_event (dm_ID d) 0 ''Deployment queued for execution.'') db1 = Inr db'"
    using assms by (auto simp: create_mutation_def CreateDeploymentWithScopeLimit_def split: sum.splits if_splits)
  have "dp_deployments db' = dp_deployments db1"
    using event by (auto simp: AppendDeploymentEvent_def Let_def split: if_splits option.splits sum.splits)
  then show ?thesis using create by (auto simp: createDeployment_def Let_def split: sum.splits if_splits)
qed

lemma applyMutationWithAudit_None:
  assumes "applyMutationWithAudit env actor action i mutation s = (s', None)"
  obtains db where "mutation (now_of env (others env s)) (handler_db (others env s)) = Inr db" "handler_db s' = db" "hs_audit s' = hs_audit (others env s) @ [(actor, action, i)]"
  using assms by (auto simp: applyMutationWithAudit_def Let_def handler_db_def set_db_def split: sum.splits option.splits)

lemma applyMutationWithAudit_Some: "applyMutationWithAudit env actor action i mutation s = (s', Some e) \<Longrightarrow> s' = others env s"
  by (auto simp: applyMutationWithAudit_def Let_def split: sum.splits option.splits)

lemma others_audit [simp]: "hs_audit (others env s) = hs_audit s"
  by (simp add: others_def)

lemma GetDeployment_ID: "GetDeployment i db = Inr d \<Longrightarrow> dm_ID d = TrimSpace i"
  by (auto simp: GetDeployment_def deploymentFromRecord_def dest: lookup_by_in split: option.splits)

lemma writeDeploymentReplay_Answered:
  assumes "writeDeploymentReplay env i a b c input s = (s', Some (Answered status r))"
  shows "status = 200 \<and> s' = others env s \<and> GetDeployment i (handler_db s') = Inr (dz_Deployment r) \<and> dm_AccountID (dz_Deployment r) = a \<and> dm_GitHubInstallationID (dz_Deployment r) = b \<and> dm_RepositoryID (dz_Deployment r) = c
    \<and> dm_CreateRequestHash (dz_Deployment r) = deploymentCreateRequestHash (hn_sha env) input b c"
  using assms by (auto simp: writeDeploymentReplay_def Let_def deploymentResponseFromState_def split: sum.splits if_splits prod.splits)

lemma writeDeploymentReplay_audit: "writeDeploymentReplay env i a b c input s = (s', q) \<Longrightarrow> hs_audit s' = hs_audit s"
  by (auto simp: writeDeploymentReplay_def Let_def split: sum.splits)

lemma persist_new_Answered:
  assumes "persist_new env subject key a b c input d s = (s', Answered status r)"
  shows "status = 201 \<and> dz_Deployment r = d \<and> deployment_recorded subject d s'
    \<or> status = 200 \<and> key \<noteq> [] \<and> GetDeployment (dm_ID d) (handler_db s') = Inr (dz_Deployment r) \<and> hs_audit s' = hs_audit s \<and> dm_AccountID (dz_Deployment r) = a \<and> dm_GitHubInstallationID (dz_Deployment r) = b \<and> dm_RepositoryID (dz_Deployment r) = c
        \<and> dm_CreateRequestHash (dz_Deployment r) = deploymentCreateRequestHash (hn_sha env) input b c"
proof -
  define actor where "actor = ''github:'' @ subject"
  obtain s1 e where m: "applyMutationWithAudit env actor ''deployment.create'' (dm_ID d) (create_mutation env (step_number s) (hs_installations s) d) s = (s1, e)" by force
  note answer = assms [unfolded persist_new_def actor_def [symmetric] m prod.case Let_def]
  show ?thesis
  proof (cases e)
    case None
    obtain db where "create_mutation env (step_number s) (hs_installations s) d (now_of env (others env s)) (handler_db (others env s)) = Inr db"
      "handler_db s1 = db" "hs_audit s1 = hs_audit (others env s) @ [(actor, ''deployment.create'', dm_ID d)]"
      using applyMutationWithAudit_None [OF m [unfolded None]] .
    then have "deployment_recorded subject d (signalDeployments s1)"
      using create_mutation_row unfolding deployment_recorded_def actor_def by (fastforce simp: signalDeployments_def handler_db_def)
    then show ?thesis using answer None by (auto simp: deploymentResponseFromState_def split: prod.splits)
  next
    case (Some err)
    then have "key \<noteq> [] \<and> writeDeploymentReplay env (dm_ID d) a b c input s1 = (s', Some (Answered status r))"
      using answer by (auto split: if_splits prod.splits option.splits)
    then show ?thesis using writeDeploymentReplay_Answered [of env "dm_ID d" a b c input s1 s' status r] applyMutationWithAudit_Some [OF m [unfolded Some]] by auto
  qed
qed

lemma expiry_within_a_day:
  assumes "validateCreateDeploymentRequest input = None"
    and "d = new_deployment env i a (normalize_request input) installation scope repository template snapshot source plan spec s"
  shows "dm_ExpiresAt d \<le> dm_CreatedAt d + maxDeploymentTTL_seconds * Second"
proof -
  have "\<not> ttl_invalid (cr_TTLSeconds input)" using assms(1) by (auto simp: validateCreateDeploymentRequest_def split: if_splits)
  then have "cr_TTLSeconds input \<le> 86400" by (cases "cr_TTLSeconds input > 0") (auto simp: ttl_invalid_def maxDeploymentTTL_seconds_def)
  then show ?thesis by (simp add: assms(2) new_deployment_def normalize_request_def Let_def defaultDeploymentTTL_seconds_def maxDeploymentTTL_seconds_def)
qed

lemma sandboxServiceForDeployment_audit: "sandboxServiceForDeployment env scope i s = (s', r) \<Longrightarrow> hs_audit s' = hs_audit s"
  by (auto simp: sandboxServiceForDeployment_def Let_def split: sum.splits prod.splits if_splits)

lemma create_authorized_Answered:
  assumes valid: "validateCreateDeploymentRequest input = None"
    and create: "create_authorized env subject a key i (normalize_request input) installation scope repository s = (s', Answered status r)"
    and d: "d = dz_Deployment r"
  shows "dm_AccountID d = a \<and> dm_GitHubInstallationID d = gi_InstallationID installation \<and> dm_RepositoryID d = gr_ID repository
    \<and> dm_CreateRequestHash d = deploymentCreateRequestHash (hn_sha env) (normalize_request input) (gi_InstallationID installation) (gr_ID repository)
    \<and> (if status = 201 then dm_ID d = i \<and> dm_Status d = DeploymentStatusQueued \<and> dm_SandboxID d = [] \<and> dm_ExpiresAt d \<le> dm_CreatedAt d + maxDeploymentTTL_seconds * Second \<and> deployment_recorded subject d s'
       else status = 200 \<and> key \<noteq> [] \<and> GetDeployment i (handler_db s') = Inr d \<and> hs_audit s' = hs_audit s)"
proof -
  obtain s1 template snapshot source plan spec where
    new: "persist_new env subject key a (gi_InstallationID installation) (gr_ID repository) (normalize_request input)
      (new_deployment env i a (normalize_request input) installation scope repository template snapshot source plan spec s1) s1 = (s', Answered status r)"
    and audit: "hs_audit s1 = hs_audit s"
    using create by (auto simp: create_authorized_def Let_def split: if_splits sum.splits prod.splits option.splits dest!: sandboxServiceForDeployment_audit)
  note expiry = expiry_within_a_day [OF valid refl, of env i a installation scope repository template snapshot source plan spec s1]
  show ?thesis
    using persist_new_Answered [OF new] expiry audit by (auto simp: d new_deployment_def Let_def)
qed


subsection \<open>Samples\<close>

definition sample_installation_row :: githubInstallationRecord where
  "sample_installation_row = \<lparr> gi_ID = 4, gi_AccountID = 1, gi_InstallationID = 9, gi_GitHubAccountID = 1, gi_AccountType = ''User'', gi_AccountLogin = ''o'',
     gi_AccountName = [], gi_AccountAvatar = [], gi_CreatedAt = 0, gi_UpdatedAt = 0 \<rparr>"

definition sample_handler_box :: sandbox_env where
  "sample_handler_box = sample_env \<lparr> se_settings := \<lparr>
     se_preferences = [\<lparr> ap_ID = 1, ap_ScopeType = ''account'', ap_ScopeID = 1, ap_Namespace = ''sandbox'', ap_Key = ''service'', ap_ValueJSON = ''{}'', ap_CreatedAt = 0, ap_UpdatedAt = 0 \<rparr>],
     se_secrets = [\<lparr> as_ID = 1, as_ScopeType = ''account'', as_ScopeID = 1, as_KeyType = ''sandbox_api_key'', as_EncryptedValue = ''e'', as_CreatedAt = 0, as_UpdatedAt = 0 \<rparr>,
       \<lparr> as_ID = 2, as_ScopeType = ''account'', as_ScopeID = 1, as_KeyType = ''github_oauth_token'', as_EncryptedValue = ''gho'', as_CreatedAt = 0, as_UpdatedAt = 0 \<rparr>] \<rparr> \<rparr>"

definition sample_handler_env :: handler_env where
  "sample_handler_env = \<lparr>
     hn_worker = sample_worker_env, hn_otherInstallations = (\<lambda>n db. db), hn_deploymentWorker = True, hn_access = (\<lambda>n a. Inr []), hn_auditFault = (\<lambda>n. None), hn_requests = (\<lambda>n. []),
     hn_accounts = (\<lambda>n. [\<lparr> ac_ID = 1, ac_Role = ''user'', ac_CreatedAt = 0, ac_UpdatedAt = 0 \<rparr>]), hn_sandbox = (\<lambda>n. sample_handler_box), hn_gh = True,
     hn_ListUserInstallationRepositoryDetails = (\<lambda>n token i. Inr [sample_repository]), hn_ListUserOrganizationMemberships = (\<lambda>n token. Inr []),
     hn_sources = (\<lambda>n. sample_source_client), hn_ReadRepositoryFile = (\<lambda>n r p c. Some ''run: app''), hn_Parse = Some,
     hn_NewPlan = (\<lambda>url c spec. Some \<lparr> pl_Version = 1, pl_SpecHash = ''h'', pl_SpecJSON = spec \<rparr>), hn_encryptSecret = Some,
     hn_ListDefaultTemplates = (\<lambda>n snapshot. Some []), hn_ValidateTemplate = (\<lambda>n snapshot t. True), hn_sha = (\<lambda>i. ri_Ref i),
     hn_rand = (\<lambda>n. ''r''), hn_sha256 = (\<lambda>x. ''h''), hn_base32 = (\<lambda>x. ''D2''), hn_DeploymentTemplateID = [], hn_DeploymentMaxConcurrent = 3 \<rparr>"

definition sample_handler_state :: handler_state where
  "sample_handler_state = \<lparr> hs_worker = sample_worker_state, hs_installations = \<lparr> in_installations = [sample_installation_row], in_owners = [] \<rparr>, hs_audit = [], hs_signals = 0 \<rparr>"

text \<open>When the deployment is stored, the event of the queue is too.\<close>

lemma create_mutation_succeeds:
  assumes ok: "deployments_ok db"
    and create: "CreateDeploymentWithScopeLimit (hn_accounts env n) (in_installations installations) now d (hn_DeploymentMaxConcurrent env) db = Inr (db1, d1)"
    and valid: "valid_event_identity (normalize_event now (queued_event (dm_ID d) 0 ''Deployment queued for execution.''))"
  shows "\<exists>db'. create_mutation env n installations d now db = Inr db'"
proof -
  let ?event = "queued_event (dm_ID d) 0 ''Deployment queued for execution.''"
  have c: "createDeployment now d db = Inr (db1, d1)" using create by (auto simp: CreateDeploymentWithScopeLimit_def split: sum.splits if_splits)
  obtain row where row: "row \<in> set (dp_deployments db1)" "dr_ID row = TrimSpace (dm_ID d)" "TrimSpace (dm_ID d) \<notin> dr_ID ` set (dp_deployments db)"
    by (rule createDeployment_Inr [OF c]) auto
  note ok1 = createDeployment_ok [OF ok c]
  have i: "dn_DeploymentID (normalize_event now ?event) = TrimSpace (dm_ID d)" "dn_RevisionNumber (normalize_event now ?event) \<le> 0"
    by (simp_all add: normalize_event_def queued_event_def deployment_event_def Let_def)
  have look: "lookup_by dr_ID (TrimSpace (dm_ID d)) (dp_deployments db1) = Some row" using lookup_by_unique [OF deployments_okD(1) [OF ok1] row(1)] row(2) by simp
  obtain db' where event: "AppendDeploymentEvent now ?event db1 = Inr db'"
    using AppendDeploymentEvent_accepts [OF ok1 refl i(1) [symmetric] valid look refl disjI1 [OF i(2)]] by blast
  have "lookup_by dr_ID (TrimSpace (dm_ID d)) (dp_deployments db) = None" using row(3) by (force simp: lookup_by_def find_None_iff)
  then show ?thesis by (simp add: create_mutation_def GetDeployment_def create event)
qed

definition sample_at :: "nat \<Rightarrow> handler_state" where
  "sample_at k = sample_handler_state \<lparr> hs_worker := sample_worker_state \<lparr> ws_step := k \<rparr> \<rparr>"

definition sample_user_installation :: githubInstallationRecord where
  "sample_user_installation = sample_installation_row \<lparr> gi_AccountType := ''user'' \<rparr>"

definition sample_scope :: accountPreferenceScope where
  "sample_scope = \<lparr> aps_Type = AccountScopeTypeAccount, aps_ID = 1 \<rparr>"

definition sample_account_snapshot :: sandboxServiceConfigSnapshot where
  "sample_account_snapshot = zero_snapshot \<lparr> sn_APIURL := ''https://s'', sn_EncryptedAPIKey := ''e'', sn_Source := ''account'' \<rparr>"

definition sample_pull_source :: deploymentSourceSnapshot where
  "sample_pull_source = \<lparr> ds_CommitSHA = replicate 40 (CHR ''a''), ds_RepositoryID = 6, ds_RepositoryFullName = ''f/r'', ds_Ref = ''fix'', ds_PullRequestTitle = ''fix'' \<rparr>"

definition sample_plan :: deployment_plan where
  "sample_plan = \<lparr> pl_Version = 1, pl_SpecHash = ''h'', pl_SpecJSON = ''run: app'' \<rparr>"

definition sample_new_deployment :: Deployment where
  "sample_new_deployment = new_deployment sample_handler_env ''d2'' 1 (normalize_request sample_request) sample_user_installation sample_scope sample_repository ''t''
     sample_account_snapshot sample_pull_source sample_plan ''run: app'' (sample_at (Suc (Suc (Suc (Suc 0)))))"

lemma others_sample: "others sample_handler_env (sample_at k) = sample_at (Suc k)"
  by (simp add: others_def sample_at_def interfere_def sample_handler_env_def sample_worker_env_def sample_worker_state_def)

lemma sample_at_simps: "sample_at 0 = sample_handler_state" "step_number (sample_at k) = k" "handler_db (sample_at k) = sample_db"
  "now_of sample_handler_env (sample_at k) = 100" "hs_installations (sample_at k) = hs_installations sample_handler_state"
  by (simp_all add: sample_at_def sample_handler_state_def sample_worker_state_def step_number_def handler_db_def now_of_def sample_handler_env_def clock_def sample_worker_env_def)

lemma sample_handler_simps: "newDeploymentID sample_handler_env n a key = ''d2''" "hn_auditFault sample_handler_env n = None" "hn_requests sample_handler_env n = []"
  "hn_sandbox sample_handler_env n = sample_handler_box"
proof -
  have "ToLower ''D2'' = ''d2''" by code_simp
  then show "newDeploymentID sample_handler_env n a key = ''d2''" by (simp add: newDeploymentID_def sample_handler_env_def)
qed (simp_all add: sample_handler_env_def)

lemma sample_create_steps:
  "validateCreateDeploymentRequest sample_request = None"
  "authorize_repository sample_handler_env 1 (normalize_request sample_request) (sample_at (Suc 0)) = Inr (sample_user_installation, sample_scope, sample_repository)"
  "sandboxServiceForScope sample_handler_box [] (hs_installations sample_handler_state) sample_scope = Inr sample_account_snapshot"
  "authorizeDeploymentTemplate sample_handler_env 1 sample_scope sample_account_snapshot ''t'' (sample_at (Suc (Suc (Suc 0)))) = None"
  "plan_deployment sample_handler_env sample_repository (normalize_request sample_request) (sample_at (Suc (Suc (Suc (Suc 0))))) = Inr (sample_pull_source, sample_plan, ''run: app'')"
  "cr_TemplateID (normalize_request sample_request) = ''t''"
  by code_simp+

lemma sample_texts: "TrimSpace ''d2'' = ''d2''" "TrimSpace ''lifecycle'' = ''lifecycle''" "TrimSpace ''queued'' = ''queued''" "TrimSpace [] = []" "TrimSpace ''k'' = ''k''" "\<not> has_control ''k''"
  "\<not> has_control ''d2''" "\<not> has_control ''lifecycle''" "\<not> has_control ''queued''" "\<not> has_control []"
  by code_simp+

lemma sample_create_mutation: "\<exists>db'. create_mutation sample_handler_env (Suc (Suc (Suc (Suc 0)))) (hs_installations sample_handler_state) sample_new_deployment 100 sample_db = Inr db'"
proof -
  have "case CreateDeploymentWithScopeLimit (hn_accounts sample_handler_env (Suc (Suc (Suc (Suc 0))))) (in_installations (hs_installations sample_handler_state)) 100 sample_new_deployment
      (hn_DeploymentMaxConcurrent sample_handler_env) sample_db of Inl _ \<Rightarrow> False | Inr _ \<Rightarrow> True"
    by code_simp
  moreover have "dm_ID sample_new_deployment = ''d2''" by (simp add: sample_new_deployment_def new_deployment_def Let_def)
  then have "valid_event_identity (normalize_event 100 (queued_event (dm_ID sample_new_deployment) 0 ''Deployment queued for execution.''))"
    using sample_texts by (simp add: valid_event_identity_def normalize_event_def queued_event_def deployment_event_def Let_def)
  ultimately show ?thesis using create_mutation_succeeds [OF sample_db_ok] by (auto split: sum.splits)
qed

lemma sample_create:
  "\<exists>s' r. handleUserCreateDeployment sample_handler_env (Some (''7'', 1)) (Some sample_request) ''k'' sample_handler_state = (s', Answered 201 r)
    \<and> hs_installations s' = hs_installations sample_handler_state"
proof -
  let ?env = sample_handler_env
  let ?s2 = "sample_at (Suc (Suc 0))"
  let ?s4 = "sample_at (Suc (Suc (Suc (Suc 0))))"
  have replay: "writeDeploymentReplay ?env ''d2'' x y z input (sample_at (Suc 0)) = (?s2, None)" for x y z input
    using sample_texts(1) by (simp add: writeDeploymentReplay_def others_sample sample_at_simps GetDeployment_def lookup_by_def sample_db_def sample_deployment_row_simps)
  have box: "sandboxServiceForDeployment ?env sample_scope i ?s2 = (?s2, Inr sample_account_snapshot)" for i
    by (simp add: sandboxServiceForDeployment_def sample_at_simps sample_handler_simps sample_create_steps(3))
  have new: "\<exists>s' r. persist_new ?env ''7'' ''k'' 1 i j input sample_new_deployment ?s4 = (s', Answered 201 r)
      \<and> hs_installations s' = hs_installations sample_handler_state" for i j input
    using sample_create_mutation
    by (auto simp: persist_new_def applyMutationWithAudit_def others_sample sample_at_simps sample_handler_simps Let_def signalDeployments_def set_db_def)
  have "handleUserCreateDeployment ?env (Some (''7'', 1)) (Some sample_request) ''k'' (sample_at 0)
      = create_authorized ?env ''7'' 1 ''k'' ''d2'' (normalize_request sample_request) sample_user_installation sample_scope sample_repository ?s2"
    by (simp add: handleUserCreateDeployment_def sample_create_steps others_sample Let_def sample_texts sample_handler_simps replay)
  also have "\<dots> = persist_new ?env ''7'' ''k'' 1 (gi_InstallationID sample_user_installation) (gr_ID sample_repository) (normalize_request sample_request) sample_new_deployment ?s4"
    by (simp add: create_authorized_def sample_create_steps box others_sample Let_def sample_new_deployment_def)
  finally show ?thesis using new by (simp add: sample_at_simps)
qed


lemma sample_handler_rows: "worker_rows_ok (handler_db sample_handler_state)"
  using sample_db_ok sample_row_ok by (simp add: worker_rows_ok_def handler_db_def sample_handler_state_def sample_worker_state_def sample_db_def)

theorem handlers_meet_worker_rely_witness:
  "worker_rows_ok (handler_db (fst (handleUserCreateDeployment sample_handler_env (Some (''7'', 1)) (Some sample_request) ''k'' sample_handler_state)))
    \<and> worker_rows_ok (handler_db (fst (handleUserStopDeployment sample_handler_env (Some (''7'', 1)) ''d1'' sample_handler_state)))"
proof -
  have h: "\<forall>n db. worker_rows_ok db \<longrightarrow> worker_rows_ok (we_other (hn_worker sample_handler_env) n db)"
    "\<forall>n x t h. we_ConnectDeploymentRuntime (hn_worker sample_handler_env) n x t = Inr h \<longrightarrow> TrimSpace (rh_SandboxID h) = TrimSpace x"
    "ws_trace (hs_worker sample_handler_state) = []"
    by (simp_all add: sample_handler_env_def sample_worker_env_def sample_handler_state_def sample_worker_state_def)
  show ?thesis using handlers_meet_worker_rely [OF h(1,2) sample_handler_rows h(3)] by blast
qed

text \<open>A retry of a revision blanks the sandbox that it has just read, so that the store, which refuses a retry while a sandbox is known, accepts it and drops the sandbox.\<close>

definition sample_left_row :: deploymentRecord where
  "sample_left_row = sample_deployment_row \<lparr> dr_Status := ''failed'', dr_SandboxID := ''sb-2'', dr_DeploymentTemplateID := ''t'' \<rparr>"

theorem retry_drops_known_sandbox:
  "let d = deploymentFromRecord sample_left_row; db = sample_db \<lparr> dp_deployments := [sample_left_row] \<rparr>
   in retryDeployment 100 d 900 db = Inl ErrConflict
      \<and> (case retryDeployment 100 (retry_from_revision d d) 900 db of Inl _ \<Rightarrow> False | Inr db' \<Rightarrow> map dr_SandboxID (dp_deployments db') = [[]])"
  by code_simp

subsection \<open>Repeated requests\<close>

text \<open>What a new row keeps of the request it was made for.\<close>

lemma normalizeDeployment_keeps:
  assumes "normalizeDeployment d0 = Inr d"
  shows "dm_AccountID d = dm_AccountID d0" "dm_GitHubInstallationID d = dm_GitHubInstallationID d0" "dm_RepositoryID d = dm_RepositoryID d0"
    "dm_CreateRequestHash d = dm_CreateRequestHash d0"
  using assms by (auto simp: normalizeDeployment_def Let_def split: if_splits)

lemma row_keeps:
  "dr_AccountID (applyDeploymentTimestamps x now) = dr_AccountID x" "dr_GitHubInstallationID (applyDeploymentTimestamps x now) = dr_GitHubInstallationID x"
  "dr_RepositoryID (applyDeploymentTimestamps x now) = dr_RepositoryID x" "dr_CreateRequestHash (applyDeploymentTimestamps x now) = dr_CreateRequestHash x"
  by (simp_all add: applyDeploymentTimestamps_def)

lemma new_row_keeps:
  "dr_AccountID (deployment_row d) = dm_AccountID d" "dr_GitHubInstallationID (deployment_row d) = dm_GitHubInstallationID d"
  "dr_RepositoryID (deployment_row d) = dm_RepositoryID d" "dr_CreateRequestHash (deployment_row d) = dm_CreateRequestHash d"
  "dm_AccountID (fill_defaults now d) = dm_AccountID d" "dm_GitHubInstallationID (fill_defaults now d) = dm_GitHubInstallationID d"
  "dm_RepositoryID (fill_defaults now d) = dm_RepositoryID d" "dm_CreateRequestHash (fill_defaults now d) = dm_CreateRequestHash d"
  by (simp_all add: deployment_row_def fill_defaults_def Let_def)

lemma createDeployment_request:
  assumes create: "createDeployment now d db = Inr (db', d')" and ok: "deployments_ok db"
  shows "\<exists>saved. GetDeployment (dm_ID d) db' = Inr saved \<and> dm_ID saved = TrimSpace (dm_ID d) \<and> dm_AccountID saved = dm_AccountID d
    \<and> dm_GitHubInstallationID saved = dm_GitHubInstallationID d \<and> dm_RepositoryID saved = dm_RepositoryID d \<and> dm_CreateRequestHash saved = dm_CreateRequestHash d"
proof -
  obtain d1 where d1: "normalizeDeployment (d \<lparr> dm_RevisionNumber := 1 \<rparr>) = Inr d1" using create by (auto simp: createDeployment_def split: sum.splits)
  define row where "row = applyDeploymentTimestamps (deployment_row (fill_defaults now d1)) now"
  have row: "row \<in> set (dp_deployments db')" using create by (auto simp: createDeployment_def d1 row_def Let_def split: if_splits)
  have keys: "keys_unique dr_ID (dp_deployments db')" using deployments_okD(1) [OF createDeployment_ok [OF ok create]] .
  have fields: "dr_ID row = TrimSpace (dm_ID d)" "dr_AccountID row = dm_AccountID d" "dr_GitHubInstallationID row = dm_GitHubInstallationID d"
    "dr_RepositoryID row = dm_RepositoryID d" "dr_CreateRequestHash row = dm_CreateRequestHash d"
    using normalizeDeployment_Inr(1) [OF d1] normalizeDeployment_keeps [OF d1]
    by (simp_all add: row_def row_keeps new_row_keeps)
  have "GetDeployment (dm_ID d) db' = Inr (deploymentFromRecord row)"
    using lookup_by_unique [OF keys row] fields(1) by (simp add: GetDeployment_def)
  then show ?thesis using fields by (simp add: deploymentFromRecord_def)
qed

lemma create_mutation_request:
  assumes "create_mutation env n installations d now db = Inr db'" "deployments_ok db"
  shows "\<exists>saved. GetDeployment (dm_ID d) db' = Inr saved \<and> dm_ID saved = TrimSpace (dm_ID d) \<and> dm_AccountID saved = dm_AccountID d
    \<and> dm_GitHubInstallationID saved = dm_GitHubInstallationID d \<and> dm_RepositoryID saved = dm_RepositoryID d \<and> dm_CreateRequestHash saved = dm_CreateRequestHash d"
proof -
  obtain db1 d1 where create: "createDeployment now d db = Inr (db1, d1)" and event: "AppendDeploymentEvent now (queued_event (dm_ID d) 0 ''Deployment queued for execution.'') db1 = Inr db'"
    using assms(1) by (auto simp: create_mutation_def CreateDeploymentWithScopeLimit_def split: sum.splits if_splits)
  have "dp_deployments db' = dp_deployments db1"
    using event by (auto simp: AppendDeploymentEvent_def Let_def split: if_splits option.splits sum.splits)
  then show ?thesis using createDeployment_request [OF create assms(2)] by (simp add: GetDeployment_def)
qed

text \<open>The deployment a request with a key made is found again by that key.\<close>

definition remembered :: "handler_env \<Rightarrow> int \<Rightarrow> createDeploymentRequest \<Rightarrow> string \<Rightarrow> githubInstallationRecord \<Rightarrow> SourceRepository \<Rightarrow> deployment_db \<Rightarrow> bool" where
  "remembered env a input i installation repository db \<longleftrightarrow>
     (case GetDeployment i db of
        Inl _ \<Rightarrow> False
      | Inr saved \<Rightarrow> dm_ID saved = TrimSpace i \<and> dm_AccountID saved = a \<and> dm_GitHubInstallationID saved = gi_InstallationID installation \<and> dm_RepositoryID saved = gr_ID repository
          \<and> dm_CreateRequestHash saved = deploymentCreateRequestHash (hn_sha env) input (gi_InstallationID installation) (gr_ID repository))"

lemma persist_new_remembered:
  assumes "persist_new env subject key a (gi_InstallationID installation) (gr_ID repository) input d s = (s', Answered 201 r)"
    and "d = new_deployment env i a input installation scope repository template snapshot source plan spec s0"
    and "deployments_ok (handler_db (others env s))"
  shows "remembered env a input i installation repository (handler_db s')"
proof -
  define actor where "actor = ''github:'' @ subject"
  obtain s1 e where m: "applyMutationWithAudit env actor ''deployment.create'' (dm_ID d) (create_mutation env (step_number s) (hs_installations s) d) s = (s1, e)" by force
  note answer = assms(1) [unfolded persist_new_def actor_def [symmetric] m prod.case Let_def]
  have e: "e = None" "s' = signalDeployments s1"
    using answer writeDeploymentReplay_Answered [of env "dm_ID d" a "gi_InstallationID installation" "gr_ID repository" input s1 s' 201 r]
    by (auto split: option.splits if_splits prod.splits)
  obtain db where db: "create_mutation env (step_number s) (hs_installations s) d (now_of env (others env s)) (handler_db (others env s)) = Inr db" "handler_db s1 = db"
    using applyMutationWithAudit_None [OF m [unfolded e(1)]] .
  have d: "dm_ID d = i" "dm_AccountID d = a" "dm_GitHubInstallationID d = gi_InstallationID installation" "dm_RepositoryID d = gr_ID repository"
    "dm_CreateRequestHash d = deploymentCreateRequestHash (hn_sha env) input (gi_InstallationID installation) (gr_ID repository)"
    by (simp_all add: assms(2) new_deployment_def Let_def)
  have "handler_db s' = handler_db s1" by (simp add: e(2) handler_db_def)
  then show ?thesis using create_mutation_request [OF db(1) assms(3)] db(2) by (auto simp: remembered_def d)
qed

lemma create_authorized_remembered:
  assumes "create_authorized env subject a key i input installation scope repository s = (s', Answered 201 r)"
    and "\<And>db n. deployments_ok db \<Longrightarrow> deployments_ok (we_other (hn_worker env) n db)" "deployments_ok (handler_db s)"
  shows "remembered env a input i installation repository (handler_db s')"
proof -
  obtain s1 q where box: "sandboxServiceForDeployment env scope (gi_InstallationID installation) s = (s1, q)" by force
  have "handler_db s1 = handler_db s" using sandboxServiceForDeployment_worker [of env scope "gi_InstallationID installation" s] by (simp add: box handler_db_def)
  then have ok: "deployments_ok (handler_db s1)" using assms(3) by simp
  have others_ok: "deployments_ok (handler_db (others env x))" if "deployments_ok (handler_db x)" for x
    using that assms(2) by (simp add: others_def handler_db_def interfere_def)
  show ?thesis
    using assms(1) others_ok [OF others_ok [OF others_ok [OF ok]]]
    by (auto simp: create_authorized_def box Let_def split: if_splits sum.splits option.splits elim!: persist_new_remembered [OF _ refl])
qed

text \<open>C38: a request may be repeated: when one with a key has made a deployment and the same request comes again with that key, while the user is still authorized and the row
  still stands, the answer is that deployment (200), and nothing more is written.\<close>

theorem create_deployment_idempotent:
  assumes "handleUserCreateDeployment env (Some (subject, a)) (Some input) key s = (s', Answered 201 r)" "TrimSpace key \<noteq> []"
    and "\<forall>n db. deployments_ok db \<longrightarrow> deployments_ok (we_other (hn_worker env) n db)" "deployments_ok (handler_db s)"
    and "authorize_repository env a (normalize_request input) (others env t) = authorize_repository env a (normalize_request input) (others env s)"
    and "GetDeployment (dm_ID (dz_Deployment r)) (handler_db (others env (others env t))) = GetDeployment (dm_ID (dz_Deployment r)) (handler_db s')"
  shows "\<exists>r'. handleUserCreateDeployment env (Some (subject, a)) (Some input) key t = (others env (others env t), Answered 200 r')
    \<and> dm_ID (dz_Deployment r') = TrimSpace (dm_ID (dz_Deployment r))"
proof -
  let ?input = "normalize_request input"
  define i where "i = newDeploymentID env (step_number (others env s)) a (TrimSpace key)"
  have key: "newDeploymentID env n a (TrimSpace key) = i" for n using assms(2) by (simp add: i_def newDeploymentID_def)
  have valid: "validateCreateDeploymentRequest input = None" "\<not> (length (TrimSpace key) > 128 \<or> has_control (TrimSpace key))"
    using assms(1) by (auto simp: handleUserCreateDeployment_def Let_def split: option.splits if_splits)
  obtain installation scope repository where granted: "authorize_repository env a ?input (others env s) = Inr (installation, scope, repository)"
    using assms(1) valid by (auto simp: handleUserCreateDeployment_def Let_def split: sum.splits)
  obtain s1 q where replay: "writeDeploymentReplay env i a (gi_InstallationID installation) (gr_ID repository) ?input (others env s) = (s1, q)" by force
  have q: "q = None" "create_authorized env subject a (TrimSpace key) i ?input installation scope repository s1 = (s', Answered 201 r)"
    using assms(1,2) valid granted replay writeDeploymentReplay_Answered [of env i a "gi_InstallationID installation" "gr_ID repository" ?input "others env s" s' 201 r]
    by (auto simp: handleUserCreateDeployment_def key split: option.splits)
  have s1: "s1 = others env (others env s)" using replay by (auto simp: writeDeploymentReplay_def Let_def split: sum.splits)
  have "deployments_ok (handler_db s1)" using assms(3,4) by (simp add: s1 others_def handler_db_def interfere_def)
  then have saved: "remembered env a ?input i installation repository (handler_db s')" using create_authorized_remembered [OF q(2)] assms(3) by blast
  have "dm_ID (dz_Deployment r) = i"
    using q(2) persist_new_Answered by (fastforce simp: create_authorized_def Let_def new_deployment_def split: if_splits sum.splits option.splits prod.splits)
  then have "remembered env a ?input i installation repository (handler_db (others env (others env t)))" using saved assms(6) by (simp add: remembered_def)
  then show ?thesis
    using valid granted assms(2,5) \<open>dm_ID (dz_Deployment r) = i\<close>
    by (auto simp: handleUserCreateDeployment_def key remembered_def writeDeploymentReplay_def Let_def deploymentResponseFromState_def split: sum.splits prod.splits)
qed

theorem create_deployment_idempotent_witness:
  "\<exists>s' r r'. handleUserCreateDeployment sample_handler_env (Some (''7'', 1)) (Some sample_request) ''k'' sample_handler_state = (s', Answered 201 r)
    \<and> snd (handleUserCreateDeployment sample_handler_env (Some (''7'', 1)) (Some sample_request) ''k'' s') = Answered 200 r'"
proof -
  obtain s' r where create: "handleUserCreateDeployment sample_handler_env (Some (''7'', 1)) (Some sample_request) ''k'' sample_handler_state = (s', Answered 201 r)"
    and kept: "hs_installations s' = hs_installations sample_handler_state"
    using sample_create by blast
  have listed: "hn_ListUserInstallationRepositoryDetails sample_handler_env n token i = Inr [sample_repository]" for n token i by (simp add: sample_handler_env_def)
  have same: "handler_db (others sample_handler_env x) = handler_db x" for x
    by (simp add: others_def handler_db_def interfere_def sample_handler_env_def sample_worker_env_def)
  have unlinked: "hs_installations (others sample_handler_env x) = hs_installations x" for x by (simp add: others_def sample_handler_env_def)
  have "\<exists>r'. handleUserCreateDeployment sample_handler_env (Some (''7'', 1)) (Some sample_request) ''k'' s' = (others sample_handler_env (others sample_handler_env s'), Answered 200 r')
    \<and> dm_ID (dz_Deployment r') = TrimSpace (dm_ID (dz_Deployment r))"
  proof (rule create_deployment_idempotent [OF create])
    show "TrimSpace ''k'' \<noteq> []" by code_simp
    show "\<forall>n db. deployments_ok db \<longrightarrow> deployments_ok (we_other (hn_worker sample_handler_env) n db)" by (simp add: sample_handler_env_def sample_worker_env_def)
    show "deployments_ok (handler_db sample_handler_state)" using sample_db_ok by (simp add: handler_db_def sample_handler_state_def sample_worker_state_def)
    show "authorize_repository sample_handler_env 1 (normalize_request sample_request) (others sample_handler_env s')
      = authorize_repository sample_handler_env 1 (normalize_request sample_request) (others sample_handler_env sample_handler_state)"
      unfolding authorize_repository_def Let_def sample_handler_simps listed by (simp add: unlinked kept)
  qed (simp_all add: same)
  then show ?thesis using create by auto
qed

end
