(* ===== verification/Spec2Isabelle.thy ===== *)
theory Spec2Isabelle
  imports RunnerQueries Catalog Admission Sandboxes Service Scheduler HandlerSafety
begin

text \<open>
  \<^bold>\<open>The control plane of qiniu-ci-runner.\<close>

  The program, \<^verbatim>\<open>runnerd\<close>, runs GitHub Actions jobs in sandboxes. Webhooks of GitHub announce workflow jobs; a job whose
  labels match a runner profile becomes a request, a row of a table. Workers claim queued requests, reserve capacity,
  choose the sandbox service and the credentials, register a runner with GitHub, start a sandbox and watch it; a sweeper
  and a reconciler end what is overdue and compare the table with GitHub; after a restart the server reconnects to the
  sandboxes that still run. Beside this, it deploys repositories into sandboxes: deployments are rows with revisions and
  a bounded timeline of events.

  \<^bold>\<open>How the code is modelled.\<close> A table is a list of records; a statement or a transaction is one function on it, and an
  error is a value of \<open>error\<close> or \<open>go_error\<close> in a sum. The server's state is the record \<open>server_state\<close> of the tables that a
  handler touches, and the list of the calls that it made to GitHub and to the sandbox service. What these answer, the
  clock (\<open>now\<close>), encryption, signatures and the decoding of JSON are arguments. A handler that holds the lock of its request
  is one function; where the code gives the lock up, or reads outside of a transaction, the function takes \<open>other\<close>: what
  everybody else did at that point. \<open>serves\<close> of theory Lifecycle says what such an interference may do, and \<open>runs\<close> of
  theory Service is the service as a whole: any sequence of handlers, each with the others inside of it. So a theorem about
  \<open>runs\<close>, or about a handler for every \<open>other\<close>, holds for every interleaving. Times are integers of nanoseconds and 0 is
  Go's zero time; counters that wrap are words, durations wrap at 64 bits where the code multiplies them (\<open>wrap64\<close>).
  Strings are byte strings.

  \<^bold>\<open>The theories.\<close>

  \<^item> Prelude: Go's strings package, errors, results, the collections of simplification rules. Versioned: the interface of a
    table whose rows carry a version (\<open>versioned_table\<close>, \<open>live_versioned_table\<close>), interpreted on the requests and on the
    deployments. Tables: the interface \<open>keyed_table\<close> of the small tables, interpreted on each of them.
  \<^item> RunnerModel, RunnerStore, RunnerQueries (\<^verbatim>\<open>state/runner_requests.go\<close>, \<^verbatim>\<open>conversions.go\<close>, \<^verbatim>\<open>records.go\<close>): the requests table. No
    lost update, at most one winner, exclusive claims that make progress, at most one request per job, round trips,
    pages that enumerate a list, the split query equal to the direct one.
  \<^item> Catalog (\<^verbatim>\<open>state/catalog.go\<close>, \<^verbatim>\<open>scoped_catalog.go\<close>, \<^verbatim>\<open>labelutil\<close>, \<^verbatim>\<open>server_default_templates.go\<close>): profiles and the choice among them.
  \<^item> Capacity, Admission (\<^verbatim>\<open>server_runner_capacity.go\<close>): the counters, and the interleaved steps of any number of workers that
    admit requests. The limits hold in every reachable state, the counters neither leak nor go missing.
  \<^item> Failure, Lifecycle, Starting, Recovery (\<^verbatim>\<open>server_runner_lifecycle.go\<close>): retry policy, stopping, the start in its phases,
    recovery. A started sandbox is adopted or asked to stop, a stop never forgets a sandbox, each with the one exception of a
    sandbox service that cannot be looked up again, which the theorems state; the retry budget bounds requeues.
  \<^item> JobQueue, Loops (\<^verbatim>\<open>server_workflow_job_queue.go\<close>, \<^verbatim>\<open>server_loops.go\<close>), Webhooks (\<^verbatim>\<open>server_webhooks.go\<close>), Service: the rounds of the
    loops, deliveries (with their limit of 10 MiB and what each adds to the table of requests), and the service as a whole.
  \<^item> CacheScopes (\<^verbatim>\<open>cache_sts.go\<close>, parts of \<^verbatim>\<open>github/client.go\<close>): the scopes of the build cache and the meaning of the session policy.
    Its evaluation of a policy (\<open>policy_grants\<close>, \<open>glob\<close>) is the reading of the storage service's documented wildcards.
  \<^item> Sandboxes, Settings, Installations, Accounts (\<^verbatim>\<open>server_sandbox_service.go\<close>, \<^verbatim>\<open>state/fork_sponsorships.go\<close>, \<^verbatim>\<open>sandbox_service_defaults.go\<close>,
    \<^verbatim>\<open>account_preferences.go\<close>, \<^verbatim>\<open>account_secrets.go\<close>, \<^verbatim>\<open>github_installations.go\<close>, \<^verbatim>\<open>identity_audit.go\<close>): who pays for a sandbox, identities and roles.
  \<^item> Applications (\<^verbatim>\<open>runnerapplication\<close>, the manifest of \<^verbatim>\<open>sandboxrunner/runner.go\<close>): the runner packages.
  \<^item> DeploymentModel, Deployments, DeploymentQueries (\<^verbatim>\<open>state/deployments.go\<close>, \<^verbatim>\<open>deployment_revisions.go\<close>): the deployment tables. Their
    invariant, the limit of a scope, the timeline as the longest end that fits, work pages equal to the direct query.
  \<^item> DeploymentWorker, WorkerSafety, WorkerBatch (\<^verbatim>\<open>deployment/worker/worker.go\<close>, \<^verbatim>\<open>server_deployments_worker.go\<close>): the worker that takes a
    deployment from the queue to its end. The tables may change between any two of its statements (\<open>we_other\<close>), the runtime and
    the sandbox service answer anything. A monitor over the trace of what it read, created, found, closed and wrote shows that it
    never forgets a sandbox, from the answer that created it on, provided that everybody else keeps \<open>worker_rows_ok\<close>. Scheduler
    (\<^verbatim>\<open>scheduler.go\<close>): its lanes; never two jobs for one deployment, and filling a lane that is open serves all its work or
    takes all its places.
  \<^item> Authorization (\<^verbatim>\<open>server_user_authorization.go\<close>): the repositories GitHub lists for a user and their cache. The epochs are 64-bit
    counters; what is served was loaded after the last invalidation, as long as there were fewer than \<open>2 ^ 64\<close> of them.
  \<^item> DeploymentSources, DeploymentHandlers, HandlerSafety (\<^verbatim>\<open>server_deployments.go\<close>, \<^verbatim>\<open>server_deployment_sources.go\<close>, \<^verbatim>\<open>server_deployment_templates.go\<close>):
    requests for deployments, their source and the handlers. Only authorized requests are answered with a deployment, the
    commit is pinned, a repeated request finds its deployment again, the handlers keep what the worker relies on, and a retry first
    removes the sandbox of the deployment it has loaded.

  \<^bold>\<open>Bounds.\<close> Loops are structural, except the eviction of events and the replacement of substrings, whose termination is proved
  by the length of a list, and the walk over pages, which takes as fuel one page more than there are rows and is proved to
  end by then. The retry of a login transaction has the number of attempts of the code.

  \<^bold>\<open>Simplifications.\<close> A handler reads the clock once unless the order of two readings matters. The server's own log and the
  timing lines of the control log are left out. The persistence of a sandbox snapshot, a transaction in the code, is one step.
  Faults of the database are modelled where the code reacts to them (accounts, audit), and are otherwise a statement that
  does not run.

  \<^bold>\<open>Not modelled.\<close> HTTP handlers that only decode and encode, the terminal's byte streams, OAuth exchanges,
  metrics, configuration files, migrations between databases, shell scripts that run inside of a sandbox, the deployment runtime on
  the deployd library, the cancellation of contexts, and the user interface.
\<close>

text \<open>C2: Whatever the service does, in any interleaving of its handlers (deliveries of webhooks, starts,
  recoveries, stops, retries, exits of processes, output of runners, rounds of the sweeper and of the
  reconciler) at the points where they give up a request's lock: the table of requests stays
  well-formed, with one row per identifier and per workflow job; every request is still there, exactly
  once, with its job and labels, and it has either moved to a later version or changed in its lease only;
  and no call to GitHub or to the sandbox service is taken back.\<close>

theorem service_keeps_requests:
  assumes "runs s s'" and "table_ok (sv_requests s)" and "r \<in> set (sv_requests s)"
  shows "\<exists>r'. filter (\<lambda>x. rr_ID x = rr_ID r) (sv_requests s') = [r'] \<and> row_evolves r r' \<and> table_ok (sv_requests s')
    \<and> (\<exists>cs. sv_calls s' = sv_calls s @ cs)"
proof -
  obtain r' where r': "r' \<in> set (sv_requests s')" "row_evolves r r'" using runs_row [OF assms] by blast
  have ok: "table_ok (sv_requests s')" by (rule runs_table_ok [OF assms(1,2)])
  then have "distinct (map rr_ID (sv_requests s'))" by (simp add: table_ok_def)
  then have "filter (\<lambda>x. rr_ID x = rr_ID r') (sv_requests s') = [r']" using r'(1) by (rule filter_key_unique)
  then show ?thesis using r' ok runs_serves [OF assms(1)] by (auto simp: row_evolves_def serves_def)
qed

theorem service_keeps_requests_witness:
  "length (filter (\<lambda>x. rr_ID x = ''job-7'') (sv_requests (rw_server (startRunner sample_start (\<lambda>k. 20) stopped_meanwhile ''job-7'' ''w'' sample_world)))) = 1"
proof -
  have ok: "table_ok (sv_requests (rw_server sample_world))"
    using sample_table_ok by (simp add: sample_world_def table_ok_def row_wf_def)
  have "runs s (stopped_meanwhile k s)" for k s using runs_stop runs_idle by (simp add: stopped_meanwhile_def)
  then have run: "runs (rw_server sample_world) (rw_server (startRunner sample_start (\<lambda>k. 20) stopped_meanwhile ''job-7'' ''w'' sample_world))"
    by (rule runs_start)
  show ?thesis using service_keeps_requests [OF run ok, of "sample_row \<lparr> rr_GitHubInstallationID := 4, rr_LeaseOwner := ''w'' \<rparr>"]
    by (auto simp: sample_world_def)
qed

end
